(* ===== verification/Prelude.thy ===== *)
theory Prelude
  imports
    Complex_Main
    "HOL-Library.Multiset"
    "HOL-Library.Sublist"
    "HOL-Library.List_Lexorder"
    "HOL-Library.Char_ord"
    "HOL-Library.Product_Lexorder"
    "HOL-Library.Word"
begin

text \<open>
  Shared vocabulary of the development: results of fallible Go functions, Go maps
  with their zero values, \<open>sort.Slice\<close> and the order locale every comparator of the
  program is an instance of, and the list facts several components use.

  A Go function that returns \<open>(T, error)\<close> is modelled by a sum: \<open>Inl e\<close> is the
  early return of an error, \<open>Inr v\<close> the normal return.
\<close>

named_theorems go_defs \<open>unfolding rules of the small Go library functions\<close>
named_theorems result_simps \<open>inversion of sequenced fallible calls\<close>

section \<open>Fallible calls\<close>

type_synonym ('e, 'a) result = "'e + 'a"

definition bind_result :: "'e + 'a \<Rightarrow> ('a \<Rightarrow> 'e + 'b) \<Rightarrow> 'e + 'b" where
  "bind_result r k = (case r of Inl e \<Rightarrow> Inl e | Inr v \<Rightarrow> k v)"

definition guard_result :: "bool \<Rightarrow> 'e \<Rightarrow> 'e + unit" where
  "guard_result bad e = (if bad then Inl e else Inr ())"

text \<open>The \<open>for\<close> loop that returns the first error of a check over a slice.\<close>

fun check_each :: "('a \<Rightarrow> 'e + unit) \<Rightarrow> 'a list \<Rightarrow> 'e + unit" where
  "check_each f [] = Inr ()"
| "check_each f (x # xs) = bind_result (f x) (\<lambda>_. check_each f xs)"

fun is_error :: "'e + 'a \<Rightarrow> bool" where
  "is_error (Inl e) = True"
| "is_error (Inr v) = False"

lemma bind_result_Inl [simp]: "bind_result (Inl e) k = Inl e"
  by (simp add: bind_result_def)

lemma bind_result_Inr [simp]: "bind_result (Inr v) k = k v"
  by (simp add: bind_result_def)

lemma bind_result_eq_Inr [result_simps]:
  "bind_result r k = Inr w \<longleftrightarrow> (\<exists>v. r = Inr v \<and> k v = Inr w)"
  by (cases r) simp_all

lemma bind_result_eq_Inl [result_simps]:
  "bind_result r k = Inl e \<longleftrightarrow> r = Inl e \<or> (\<exists>v. r = Inr v \<and> k v = Inl e)"
  by (cases r) simp_all

lemma guard_result_eq_Inr [simp, result_simps]:
  "guard_result bad e = Inr u \<longleftrightarrow> \<not> bad"
  by (simp add: guard_result_def)

lemma guard_result_eq_Inl [simp, result_simps]:
  "guard_result bad e = Inl e' \<longleftrightarrow> bad \<and> e' = e"
  by (auto simp: guard_result_def)

lemma guard_result_True [simp]: "guard_result True e = Inl e"
  by (simp add: guard_result_def)

lemma guard_result_False [simp]: "guard_result False e = Inr ()"
  by (simp add: guard_result_def)

lemma check_each_ok [result_simps]:
  "check_each f xs = Inr u \<longleftrightarrow> (\<forall>x \<in> set xs. f x = Inr ())"
  by (induction xs) (auto simp: bind_result_eq_Inr)

lemma check_each_Inl: "check_each f xs = Inl e \<Longrightarrow> \<exists>x \<in> set xs. f x = Inl e"
  by (induction xs) (auto simp: bind_result_eq_Inl)

lemma case_unit_ok [result_simps]:
  "(case r of Inl e \<Rightarrow> Inl e | Inr (u :: unit) \<Rightarrow> k) = Inr w \<longleftrightarrow> r = Inr () \<and> k = Inr w"
  by (cases r) simp_all

lemma is_error_iff: "is_error r \<longleftrightarrow> (\<exists>e. r = Inl e)"
  by (cases r) simp_all

lemma not_is_error_iff: "\<not> is_error r \<longleftrightarrow> (\<exists>v. r = Inr v)"
  by (cases r) simp_all

section \<open>Go maps\<close>

text \<open>
  A \<open>map[string]T\<close> is a partial function. Reading a missing key returns the zero value,
  which is what \<open>lookup_or\<close> takes as its first argument.
\<close>

definition lookup_or :: "'v \<Rightarrow> ('k \<Rightarrow> 'v option) \<Rightarrow> 'k \<Rightarrow> 'v" where
  "lookup_or z m k = (case m k of None \<Rightarrow> z | Some v \<Rightarrow> v)"

lemma lookup_or_update [simp]:
  "lookup_or z (m(k \<mapsto> v)) k' = (if k' = k then v else lookup_or z m k')"
  by (simp add: lookup_or_def)

lemma lookup_or_empty [simp]: "lookup_or z Map.empty k = z"
  by (simp add: lookup_or_def)

lemma lookup_or_None [simp]: "m k = None \<Longrightarrow> lookup_or z m k = z"
  by (simp add: lookup_or_def)

lemma lookup_or_Some [simp]: "m k = Some v \<Longrightarrow> lookup_or z m k = v"
  by (simp add: lookup_or_def)

section \<open>Sorting a slice with a comparator\<close>

text \<open>
  \<open>sort.SliceStable\<close> is a stable sort by the comparator; insertion from the right is one.
  \<open>sort.Slice\<close> promises a sorted permutation and says nothing about the order of ties; the
  model runs the stable sort, and \<open>slice_key.sort_slice_unique\<close> says when every sorted
  permutation is the same list, so that the choice of algorithm cannot be observed.
\<close>

fun insort_slice :: "('a \<Rightarrow> 'a \<Rightarrow> bool) \<Rightarrow> 'a \<Rightarrow> 'a list \<Rightarrow> 'a list" where
  "insort_slice lt x [] = [x]"
| "insort_slice lt x (y # ys) =
     (if lt y x then y # insort_slice lt x ys else x # y # ys)"

definition sort_slice :: "('a \<Rightarrow> 'a \<Rightarrow> bool) \<Rightarrow> 'a list \<Rightarrow> 'a list" where
  "sort_slice lt xs = foldr (insort_slice lt) xs []"

lemma mset_insort_slice [simp]: "mset (insort_slice lt x ys) = add_mset x (mset ys)"
  by (induction ys) auto

lemma mset_sort_slice [simp]: "mset (sort_slice lt xs) = mset xs"
  unfolding sort_slice_def by (induction xs) auto

lemma set_sort_slice [simp]: "set (sort_slice lt xs) = set xs"
  by (rule mset_eq_setD) simp

lemma length_sort_slice [simp]: "length (sort_slice lt xs) = length xs"
  by (rule mset_eq_length) simp

lemma sort_slice_Nil [simp]: "sort_slice lt [] = []"
  by (simp add: sort_slice_def)

lemma sort_slice_eq_Nil [simp]: "sort_slice lt xs = [] \<longleftrightarrow> xs = []"
  by (metis length_0_conv length_sort_slice)

lemma distinct_sort_slice [simp]: "distinct (sort_slice lt xs) \<longleftrightarrow> distinct xs"
  by (rule mset_eq_imp_distinct_iff) simp

text \<open>
  The contract of a comparator: it compares a key in a linear order. Every comparator of
  the program is interpreted below it, with the lexicographic tuple of its fields as key.
\<close>

locale slice_key =
  fixes lt :: "'a \<Rightarrow> 'a \<Rightarrow> bool"
    and key :: "'a \<Rightarrow> 'k::linorder"
  assumes less_iff: "lt a b \<longleftrightarrow> key a < key b"
begin

lemma insort_slice_eq: "insort_slice lt x ys = insort_key key x ys"
  by (induction ys) (auto simp: less_iff)

lemma sort_slice_eq: "sort_slice lt xs = sort_key key xs"
  unfolding sort_slice_def sort_key_def
  by (induction xs) (simp_all add: insort_slice_eq)

lemma sorted_sort_slice: "sorted (map key (sort_slice lt xs))"
  by (simp add: sort_slice_eq)

lemma sorted_wrt_sort_slice: "sorted_wrt (\<lambda>a b. \<not> lt b a) (sort_slice lt xs)"
proof -
  have "sorted_wrt (\<lambda>a b. key a \<le> key b) (sort_slice lt xs)"
    using sorted_sort_slice [of xs] by (simp add: sorted_map)
  then show ?thesis
    by (rule sorted_wrt_mono_rel [rotated]) (auto simp: less_iff not_less)
qed

lemma sort_slice_unique:
  assumes "mset ys = mset xs" and "sorted (map key ys)" and "inj_on key (set xs)"
  shows "sort_slice lt xs = ys"
  unfolding sort_slice_eq using assms by (intro sort_key_inj_key_eq) auto

lemma sort_slice_permute:
  assumes "mset ys = mset xs" and "inj_on key (set xs)"
  shows "sort_slice lt ys = sort_slice lt xs"
  using assms by (intro sort_slice_unique [symmetric]) (auto simp: sorted_sort_slice)

lemma sort_slice_idem: "sort_slice lt (sort_slice lt xs) = sort_slice lt xs"
  by (simp add: sort_slice_eq sort_key_id_if_sorted)

lemma asym: "lt a b \<Longrightarrow> \<not> lt b a"
  by (auto simp: less_iff)

lemma negatively_transitive: "\<not> lt a b \<Longrightarrow> \<not> lt b c \<Longrightarrow> \<not> lt a c"
  by (auto simp: less_iff not_less)

lemma transitive: "lt a b \<Longrightarrow> lt b c \<Longrightarrow> lt a c"
  by (auto simp: less_iff)

end

text \<open>\<open>sort.Strings\<close>: the bytewise order of Go strings is the lexicographic order.\<close>

definition sort_strings :: "string list \<Rightarrow> string list" where
  "sort_strings xs = sort xs"

lemma sorted_sort_strings [simp]: "sorted (sort_strings xs)"
  by (simp add: sort_strings_def)

lemma set_sort_strings [simp]: "set (sort_strings xs) = set xs"
  by (simp add: sort_strings_def)

lemma mset_sort_strings [simp]: "mset (sort_strings xs) = mset xs"
  by (simp add: sort_strings_def)

lemma length_sort_strings [simp]: "length (sort_strings xs) = length xs"
  by (simp add: sort_strings_def)

lemma sort_strings_permute: "mset xs = mset ys \<Longrightarrow> sort_strings xs = sort_strings ys"
  unfolding sort_strings_def by (rule properties_for_sort) auto

interpretation strings_order: slice_key "(<) :: string \<Rightarrow> string \<Rightarrow> bool" "\<lambda>s. s"
  by unfold_locales simp

section \<open>Duplicate checks with a seen-set\<close>

text \<open>The idiom \<open>if seen[x] { return err }; seen[x] = true\<close> over a slice.\<close>

fun has_duplicate :: "'a set \<Rightarrow> 'a list \<Rightarrow> bool" where
  "has_duplicate seen [] = False"
| "has_duplicate seen (x # xs) = (x \<in> seen \<or> has_duplicate (insert x seen) xs)"

lemma has_duplicate_iff:
  "has_duplicate seen xs \<longleftrightarrow> \<not> distinct xs \<or> set xs \<inter> seen \<noteq> {}"
  by (induction xs arbitrary: seen) auto

section \<open>Lists\<close>

lemma mset_concat_map:
  "mset (concat (map f xs)) = (\<Sum>x\<in>#mset xs. mset (f x))"
  by (induction xs) auto

lemma take_eq_iff: "length xs \<le> n \<Longrightarrow> take n xs = xs"
  by simp

lemma distinct_map_filter: "distinct (map f xs) \<Longrightarrow> distinct (map f (filter P xs))"
  by (induction xs) auto

end
