(* ===== verification/Go_Strings.thy ===== *)
theory Go_Strings
  imports Prelude
begin

text \<open>
  The parts of Go's \<open>strings\<close>, \<open>unicode\<close> and \<open>unicode/utf8\<close> the program calls. A Go
  string is a sequence of bytes, and so is a HOL \<open>string\<close>: \<open>length\<close> is Go's \<open>len\<close>.
  Runes are the code points decoded from those bytes; an invalid byte decodes to
  \<open>rune_error\<close> (U+FFFD) with width one, as in Go.

  The one table of the Unicode database that is too large to write down, the lower-case
  mapping above ASCII, is the argument \<open>uc\<close> of the functions that use it.
\<close>

section \<open>Bytes\<close>

abbreviation byte :: "char \<Rightarrow> nat" where
  "byte c \<equiv> of_char c"

abbreviation LF :: char where "LF \<equiv> CHR 0x0A"
abbreviation CR :: char where "CR \<equiv> CHR 0x0D"
abbreviation TAB :: char where "TAB \<equiv> CHR 0x09"
abbreviation NUL :: char where "NUL \<equiv> CHR 0x00"

definition is_ascii :: "string \<Rightarrow> bool" where
  "is_ascii s = list_all (\<lambda>c. byte c < 128) s"

lemma is_ascii_simps [simp]:
  "is_ascii []"
  "is_ascii (c # s) \<longleftrightarrow> byte c < 128 \<and> is_ascii s"
  "is_ascii (s @ t) \<longleftrightarrow> is_ascii s \<and> is_ascii t"
  by (simp_all add: is_ascii_def)

section \<open>Decoding runes\<close>

definition rune_error :: nat where "rune_error = 65533"

text \<open>A continuation byte in the range the leading byte accepts, as its payload bits.\<close>

definition cont_in :: "nat \<Rightarrow> nat \<Rightarrow> char \<Rightarrow> bool" where
  "cont_in lo hi c \<longleftrightarrow> lo \<le> byte c \<and> byte c \<le> hi"

abbreviation cont :: "char \<Rightarrow> bool" where
  "cont c \<equiv> cont_in 128 191 c"

definition decode2 :: "nat \<Rightarrow> string \<Rightarrow> nat \<times> nat" where
  "decode2 b cs =
     (case cs of
        c1 # _ \<Rightarrow> if cont c1 then ((b - 192) * 64 + (byte c1 - 128), 2) else (rune_error, 1)
      | _ \<Rightarrow> (rune_error, 1))"

definition decode3 :: "nat \<Rightarrow> nat \<Rightarrow> nat \<Rightarrow> string \<Rightarrow> nat \<times> nat" where
  "decode3 lo hi b cs =
     (case cs of
        c1 # c2 # _ \<Rightarrow>
          if cont_in lo hi c1 \<and> cont c2
          then ((b - 224) * 4096 + (byte c1 - 128) * 64 + (byte c2 - 128), 3)
          else (rune_error, 1)
      | _ \<Rightarrow> (rune_error, 1))"

definition decode4 :: "nat \<Rightarrow> nat \<Rightarrow> nat \<Rightarrow> string \<Rightarrow> nat \<times> nat" where
  "decode4 lo hi b cs =
     (case cs of
        c1 # c2 # c3 # _ \<Rightarrow>
          if cont_in lo hi c1 \<and> cont c2 \<and> cont c3
          then ((b - 240) * 262144 + (byte c1 - 128) * 4096 + (byte c2 - 128) * 64 +
                (byte c3 - 128), 4)
          else (rune_error, 1)
      | _ \<Rightarrow> (rune_error, 1))"

text \<open>\<open>utf8.DecodeRuneInString\<close>: the first rune and its width in bytes.\<close>

fun decode_rune :: "string \<Rightarrow> nat \<times> nat" where
  "decode_rune [] = (rune_error, 0)"
| "decode_rune (c # cs) =
     (let b = byte c in
      if b < 128 then (b, 1)
      else if b < 194 then (rune_error, 1)
      else if b < 224 then decode2 b cs
      else if b = 224 then decode3 160 191 b cs
      else if b = 237 then decode3 128 159 b cs
      else if b < 240 then decode3 128 191 b cs
      else if b = 240 then decode4 144 191 b cs
      else if b < 244 then decode4 128 191 b cs
      else if b = 244 then decode4 128 143 b cs
      else (rune_error, 1))"

lemmas decode_defs = decode2_def decode3_def decode4_def

text \<open>\<open>utf8.RuneStart\<close> and \<open>utf8.DecodeLastRuneInString\<close>.\<close>

definition rune_start :: "char \<Rightarrow> bool" where
  "rune_start c \<longleftrightarrow> \<not> cont c"

definition last_start :: "string \<Rightarrow> nat" where
  "last_start s =
     (let n = length s in
      if 2 \<le> n \<and> rune_start (s ! (n - 2)) then n - 2
      else if 3 \<le> n \<and> rune_start (s ! (n - 3)) then n - 3
      else if 4 \<le> n \<and> rune_start (s ! (n - 4)) then n - 4
      else n - 5)"

definition decode_last_rune :: "string \<Rightarrow> nat \<times> nat" where
  "decode_last_rune s =
     (if s = [] then (rune_error, 0)
      else if byte (last s) < 128 then (byte (last s), 1)
      else let start = last_start s; (r, n) = decode_rune (drop start s) in
           if start + n = length s then (r, n) else (rune_error, 1))"

lemma decode_rune_width:
  "s \<noteq> [] \<Longrightarrow> 1 \<le> snd (decode_rune s) \<and> snd (decode_rune s) \<le> length s"
  by (cases s) (auto simp: Let_def decode_defs split: list.splits)

lemma decode_rune_progress: "s \<noteq> [] \<Longrightarrow> length (drop (snd (decode_rune s)) s) < length s"
  using decode_rune_width [of s] by auto

lemma decode_last_rune_width:
  assumes "s \<noteq> []"
  shows "1 \<le> snd (decode_last_rune s) \<and> snd (decode_last_rune s) \<le> length s"
proof -
  have "drop (last_start s) s \<noteq> []"
    using assms by (cases s) (auto simp: last_start_def Let_def)
  then have "1 \<le> snd (decode_rune (drop (last_start s) s))"
    using decode_rune_width by blast
  with assms show ?thesis
    by (auto simp: decode_last_rune_def Let_def Suc_le_eq split: prod.splits)
qed

text \<open>A rune decoded from a valid encoding does not depend on what follows it.\<close>

lemma decode2_append:
  "decode2 b cs \<noteq> (rune_error, 1) \<Longrightarrow> decode2 b (cs @ t) = decode2 b cs"
  by (cases cs) (simp_all add: decode2_def)

lemma decode3_append:
  "decode3 lo hi b cs \<noteq> (rune_error, 1) \<Longrightarrow> decode3 lo hi b (cs @ t) = decode3 lo hi b cs"
  by (cases cs; cases "tl cs") (simp_all add: decode3_def)

lemma decode4_append:
  "decode4 lo hi b cs \<noteq> (rune_error, 1) \<Longrightarrow> decode4 lo hi b (cs @ t) = decode4 lo hi b cs"
  by (cases cs; cases "tl cs"; cases "tl (tl cs)") (simp_all add: decode4_def)

lemma decode_rune_append:
  assumes "s \<noteq> []" and "decode_rune s \<noteq> (rune_error, 1)"
  shows "decode_rune (s @ t) = decode_rune s"
proof -
  obtain c cs where s: "s = c # cs" using assms(1) by (cases s) auto
  with assms(2) show ?thesis
    by (simp add: Let_def decode2_append decode3_append decode4_append split: if_split_asm)
qed

text \<open>\<open>for _, r := range s\<close> visits these runes.\<close>

function runes :: "string \<Rightarrow> nat list" where
  "runes s =
     (if s = [] then []
      else fst (decode_rune s) # runes (drop (snd (decode_rune s)) s))"
  by pat_completeness auto
termination
  by (relation "measure length") (auto dest: decode_rune_progress)

declare runes.simps [simp del]

text \<open>\<open>utf8.ValidString\<close>.\<close>

function valid_utf8 :: "string \<Rightarrow> bool" where
  "valid_utf8 s =
     (if s = [] then True
      else if decode_rune s = (rune_error, 1) then False
      else valid_utf8 (drop (snd (decode_rune s)) s))"
  by pat_completeness auto
termination
  by (relation "measure length") (auto dest: decode_rune_progress)

declare valid_utf8.simps [simp del]

lemma valid_utf8_Nil [simp]: "valid_utf8 []"
  by (simp add: valid_utf8.simps)

lemma decode_rune_ascii [simp]:
  "byte c < 128 \<Longrightarrow> decode_rune (c # s) = (byte c, 1)"
  by (simp add: Let_def)

lemma decode_rune_ascii_ne_error [simp]: "byte c < 128 \<Longrightarrow> byte c \<noteq> rune_error"
  by (simp add: rune_error_def)

lemma valid_utf8_ascii_Cons [simp]:
  "byte c < 128 \<Longrightarrow> valid_utf8 (c # s) \<longleftrightarrow> valid_utf8 s"
  using valid_utf8.simps [of "c # s"] by (simp del: decode_rune.simps)

lemma runes_ascii_Cons [simp]: "byte c < 128 \<Longrightarrow> runes (c # s) = byte c # runes s"
  using runes.simps [of "c # s"] by (simp del: decode_rune.simps)

lemma runes_Nil [simp]: "runes [] = []"
  by (simp add: runes.simps)

lemma valid_utf8_ascii: "is_ascii s \<Longrightarrow> valid_utf8 s"
  by (induction s) auto

lemma runes_ascii: "is_ascii s \<Longrightarrow> runes s = map byte s"
  by (induction s) auto

lemma valid_utf8_append:
  "valid_utf8 s \<Longrightarrow> valid_utf8 t \<Longrightarrow> valid_utf8 (s @ t)"
proof (induction s rule: valid_utf8.induct)
  case (1 s)
  show ?case
  proof (cases "s = []")
    case False
    with 1 have ok: "decode_rune s \<noteq> (rune_error, 1)"
      and rest: "valid_utf8 (drop (snd (decode_rune s)) s @ t)"
      using valid_utf8.simps [of s] by (auto split: if_splits)
    have "decode_rune (s @ t) = decode_rune s"
      using False ok by (rule decode_rune_append)
    moreover have "drop (snd (decode_rune s)) (s @ t) = drop (snd (decode_rune s)) s @ t"
      using decode_rune_width [OF False] by simp
    ultimately show ?thesis
      using False ok rest valid_utf8.simps [of "s @ t"] by simp
  qed (use 1 in simp)
qed

section \<open>Character classes\<close>

text \<open>\<open>unicode.IsSpace\<close> (the White_Space property) and \<open>unicode.IsControl\<close> (category Cc).\<close>

definition is_space :: "nat \<Rightarrow> bool" where
  "is_space r \<longleftrightarrow>
     (9 \<le> r \<and> r \<le> 13) \<or> r = 32 \<or> r = 133 \<or> r = 160 \<or> r = 5760 \<or>
     (8192 \<le> r \<and> r \<le> 8202) \<or> r = 8232 \<or> r = 8233 \<or> r = 8239 \<or> r = 8287 \<or> r = 12288"

definition is_control :: "nat \<Rightarrow> bool" where
  "is_control r \<longleftrightarrow> r \<le> 31 \<or> (127 \<le> r \<and> r \<le> 159)"

lemma not_is_space_error [simp]: "\<not> is_space rune_error"
  by (simp add: is_space_def rune_error_def)

section \<open>Trimming\<close>

function trim_left_space :: "string \<Rightarrow> string" where
  "trim_left_space s =
     (if s \<noteq> [] \<and> is_space (fst (decode_rune s))
      then trim_left_space (drop (snd (decode_rune s)) s) else s)"
  by pat_completeness auto
termination
  by (relation "measure length") (auto dest: decode_rune_progress)

declare trim_left_space.simps [simp del]

function trim_right_space :: "string \<Rightarrow> string" where
  "trim_right_space s =
     (if s \<noteq> [] \<and> is_space (fst (decode_last_rune s))
      then trim_right_space (take (length s - snd (decode_last_rune s)) s) else s)"
  by pat_completeness auto
termination
proof (relation "measure length")
  fix s :: string
  assume "s \<noteq> [] \<and> is_space (fst (decode_last_rune s))"
  then have "1 \<le> snd (decode_last_rune s)" and "s \<noteq> []"
    using decode_last_rune_width by blast+
  then show "(take (length s - snd (decode_last_rune s)) s, s) \<in> measure length"
    by (simp add: Suc_le_eq)
qed simp

declare trim_right_space.simps [simp del]

text \<open>\<open>strings.TrimSpace\<close>.\<close>

definition trim_space :: "string \<Rightarrow> string" where
  "trim_space s = trim_right_space (trim_left_space s)"

lemma trim_left_space_Nil [simp]: "trim_left_space [] = []"
  by (simp add: trim_left_space.simps)

lemma trim_right_space_Nil [simp]: "trim_right_space [] = []"
  by (simp add: trim_right_space.simps)

lemma trim_space_Nil [simp]: "trim_space [] = []"
  by (simp add: trim_space_def)

lemma trim_left_space_suffix: "suffix (trim_left_space s) s"
proof (induction s rule: trim_left_space.induct)
  case (1 s)
  then show ?case
    by (subst trim_left_space.simps) (auto intro: suffix_order.trans suffix_drop)
qed

lemma trim_right_space_prefix: "prefix (trim_right_space s) s"
proof (induction s rule: trim_right_space.induct)
  case (1 s)
  then show ?case
    by (subst trim_right_space.simps) (auto intro: prefix_order.trans take_is_prefix)
qed

lemma trim_space_length: "length (trim_space s) \<le> length s"
  unfolding trim_space_def
  using prefix_length_le [OF trim_right_space_prefix [of "trim_left_space s"]]
    suffix_length_le [OF trim_left_space_suffix [of s]] by simp

lemma set_trim_space: "set (trim_space s) \<subseteq> set s"
  unfolding trim_space_def
  using set_mono_prefix [OF trim_right_space_prefix [of "trim_left_space s"]]
    set_mono_suffix [OF trim_left_space_suffix [of s]] by blast

lemma trim_left_space_fix:
  "trim_left_space s = [] \<or> \<not> is_space (fst (decode_rune (trim_left_space s)))"
proof (induction s rule: trim_left_space.induct)
  case (1 s)
  show ?case
  proof (cases "s \<noteq> [] \<and> is_space (fst (decode_rune s))")
    case True
    with 1 show ?thesis using trim_left_space.simps [of s] by simp
  next
    case False
    then have "trim_left_space s = s" using trim_left_space.simps [of s] by auto
    with False show ?thesis by auto
  qed
qed

lemma trim_right_space_fix:
  "trim_right_space s = [] \<or> \<not> is_space (fst (decode_last_rune (trim_right_space s)))"
proof (induction s rule: trim_right_space.induct)
  case (1 s)
  show ?case
  proof (cases "s \<noteq> [] \<and> is_space (fst (decode_last_rune s))")
    case True
    with 1 show ?thesis using trim_right_space.simps [of s] by simp
  next
    case False
    then have "trim_right_space s = s" using trim_right_space.simps [of s] by auto
    with False show ?thesis by auto
  qed
qed

lemma trim_left_space_id:
  "s = [] \<or> \<not> is_space (fst (decode_rune s)) \<Longrightarrow> trim_left_space s = s"
  using trim_left_space.simps [of s] by auto

lemma trim_right_space_id:
  "s = [] \<or> \<not> is_space (fst (decode_last_rune s)) \<Longrightarrow> trim_right_space s = s"
  using trim_right_space.simps [of s] by auto

text \<open>Cutting bytes off the end never turns the first rune into a space.\<close>

lemma decode_rune_prefix_not_space:
  assumes "prefix t s" and "\<not> is_space (fst (decode_rune s))"
  shows "\<not> is_space (fst (decode_rune t))"
proof (cases "t = [] \<or> decode_rune t = (rune_error, 1)")
  case True
  then show ?thesis by auto
next
  case False
  then show ?thesis
    using assms decode_rune_append by (fastforce elim!: prefixE)
qed

lemma trim_space_idem [simp]: "trim_space (trim_space s) = trim_space s"
proof -
  let ?l = "trim_left_space s" and ?t = "trim_right_space (trim_left_space s)"
  have "?t = [] \<or> \<not> is_space (fst (decode_rune ?t))"
    using trim_left_space_fix [of s] decode_rune_prefix_not_space [OF trim_right_space_prefix]
    by (metis prefix_Nil trim_right_space_prefix)
  then have "trim_left_space ?t = ?t"
    by (rule trim_left_space_id)
  moreover have "trim_right_space ?t = ?t"
    using trim_right_space_fix by (rule trim_right_space_id)
  ultimately show ?thesis
    by (simp add: trim_space_def)
qed

text \<open>\<open>strings.TrimRight\<close>, \<open>TrimLeft\<close> and \<open>Trim\<close> with a cutset of ASCII bytes.\<close>

definition trim_right_set :: "string \<Rightarrow> string \<Rightarrow> string" where
  "trim_right_set cutset s = rev (dropWhile (\<lambda>c. c \<in> set cutset) (rev s))"

definition trim_left_set :: "string \<Rightarrow> string \<Rightarrow> string" where
  "trim_left_set cutset s = dropWhile (\<lambda>c. c \<in> set cutset) s"

definition trim_set :: "string \<Rightarrow> string \<Rightarrow> string" where
  "trim_set cutset s = trim_right_set cutset (trim_left_set cutset s)"

lemma trim_right_set_prefix: "prefix (trim_right_set cutset s) s"
  unfolding trim_right_set_def by (metis suffix_dropWhile suffix_to_prefix rev_rev_ident)

lemma trim_right_set_idem [simp]:
  "trim_right_set cutset (trim_right_set cutset s) = trim_right_set cutset s"
  by (simp add: trim_right_set_def)

lemma set_trim_right_set: "set (trim_right_set cutset s) \<subseteq> set s"
  using set_mono_prefix [OF trim_right_set_prefix] by blast

section \<open>Searching\<close>

text \<open>\<open>strings.HasPrefix\<close> and \<open>HasSuffix\<close> are \<open>prefix\<close> and \<open>suffix\<close>; \<open>strings.Index\<close>.\<close>

fun str_index :: "string \<Rightarrow> string \<Rightarrow> nat option" where
  "str_index sub [] = (if sub = [] then Some 0 else None)"
| "str_index sub (c # cs) =
     (if prefix sub (c # cs) then Some 0 else map_option Suc (str_index sub cs))"

definition str_contains :: "string \<Rightarrow> string \<Rightarrow> bool" where
  "str_contains s sub \<longleftrightarrow> str_index sub s \<noteq> None"

lemma str_index_Some:
  "str_index sub s = Some i \<Longrightarrow> i + length sub \<le> length s \<and> prefix sub (drop i s)"
proof (induction s arbitrary: i)
  case Nil
  then show ?case by (auto split: if_splits)
next
  case (Cons c cs)
  then show ?case
    by (auto split: if_splits dest: prefix_length_le)
qed

lemma str_index_least:
  "str_index sub s = Some i \<Longrightarrow> j < i \<Longrightarrow> \<not> prefix sub (drop j s)"
proof (induction s arbitrary: i j)
  case Nil
  then show ?case by (auto split: if_splits)
next
  case (Cons c cs)
  then show ?case by (cases j) (auto split: if_splits)
qed

lemma str_index_None: "str_index sub s = None \<Longrightarrow> \<not> prefix sub (drop j s)"
proof (induction s arbitrary: j)
  case Nil
  then show ?case by (auto split: if_splits)
next
  case (Cons c cs)
  then show ?case by (cases j) (auto split: if_splits)
qed

lemma str_indexI:
  assumes "prefix sub (drop i s)" and "i \<le> length s"
    and "\<And>j. j < i \<Longrightarrow> \<not> prefix sub (drop j s)"
  shows "str_index sub s = Some i"
proof (cases "str_index sub s")
  case None
  with assms(1) str_index_None show ?thesis by blast
next
  case (Some k)
  then have "prefix sub (drop k s)" by (blast dest: str_index_Some)
  with assms(3) have "\<not> k < i" by blast
  moreover have "\<not> i < k"
    using str_index_least [OF Some] assms(1) by blast
  ultimately show ?thesis using Some by simp
qed

lemma str_contains_iff: "str_contains s sub \<longleftrightarrow> sublist sub s"
proof
  assume "str_contains s sub"
  then obtain i where "prefix sub (drop i s)"
    by (auto simp: str_contains_def dest: str_index_Some)
  then show "sublist sub s"
    by (metis append_take_drop_id prefix_def sublist_appendI)
next
  assume "sublist sub s"
  then obtain ps ss where "s = ps @ sub @ ss" by (auto simp: sublist_def)
  then have "prefix sub (drop (length ps) s)" by simp
  then show "str_contains s sub"
    using str_index_None by (auto simp: str_contains_def)
qed

section \<open>Splitting, joining, replacing\<close>

text \<open>\<open>strings.Split\<close> by a one-byte separator, and \<open>strings.Join\<close>.\<close>

fun split_on :: "char \<Rightarrow> string \<Rightarrow> string list" where
  "split_on sep [] = [[]]"
| "split_on sep (c # cs) =
     (if c = sep then [] # split_on sep cs
      else case split_on sep cs of [] \<Rightarrow> [[c]] | l # ls \<Rightarrow> (c # l) # ls)"

fun join :: "string \<Rightarrow> string list \<Rightarrow> string" where
  "join sep [] = []"
| "join sep [x] = x"
| "join sep (x # y # ys) = x @ sep @ join sep (y # ys)"

lemma split_on_ne_Nil [simp]: "split_on sep s \<noteq> []"
  by (cases s) (auto split: list.splits)

lemma split_on_no_sep: "l \<in> set (split_on sep s) \<Longrightarrow> sep \<notin> set l"
  by (induction s arbitrary: l) (auto split: list.splits if_splits)

lemma join_split_on: "join [sep] (split_on sep s) = s"
proof (induction s)
  case (Cons c cs)
  obtain l ls where "split_on sep cs = l # ls"
    by (cases "split_on sep cs") auto
  with Cons show ?case by (cases ls) auto
qed simp

lemma split_on_append_sep:
  "sep \<notin> set l \<Longrightarrow> split_on sep (l @ sep # s) = l # split_on sep s"
  by (induction l) auto

lemma split_on_single: "sep \<notin> set l \<Longrightarrow> split_on sep l = [l]"
  by (induction l) auto

lemma split_on_join:
  "ls \<noteq> [] \<Longrightarrow> \<forall>l \<in> set ls. sep \<notin> set l \<Longrightarrow> split_on sep (join [sep] ls) = ls"
  by (induction "[sep]" ls rule: join.induct)
     (auto simp: split_on_single split_on_append_sep)

lemma join_Cons: "xs \<noteq> [] \<Longrightarrow> join sep (x # xs) = x @ sep @ join sep xs"
  by (cases xs) auto

lemma set_join: "x \<in> set xs \<Longrightarrow> set x \<subseteq> set (join sep xs)"
  by (induction sep xs rule: join.induct) auto

lemma in_set_join: "c \<in> set (join sep xs) \<Longrightarrow> c \<in> set sep \<or> (\<exists>x \<in> set xs. c \<in> set x)"
  by (induction sep xs rule: join.induct) auto

lemma join_snoc: "xs \<noteq> [] \<Longrightarrow> join sep (xs @ [x]) = join sep xs @ sep @ x"
  by (induction sep xs rule: join.induct) (auto simp: join_Cons)

text \<open>\<open>strings.ReplaceAll\<close> of one byte by one byte, and of CR LF by LF.\<close>

definition replace_byte :: "char \<Rightarrow> char \<Rightarrow> string \<Rightarrow> string" where
  "replace_byte old new s = map (\<lambda>c. if c = old then new else c) s"

fun crlf_to_lf :: "string \<Rightarrow> string" where
  "crlf_to_lf (c1 # c2 # s) =
     (if c1 = CR \<and> c2 = LF then LF # crlf_to_lf s else c1 # crlf_to_lf (c2 # s))"
| "crlf_to_lf s = s"

lemma replace_byte_id: "old \<notin> set s \<Longrightarrow> replace_byte old new s = s"
  by (induction s) (auto simp: replace_byte_def)

lemma replace_byte_absent: "old \<noteq> new \<Longrightarrow> old \<notin> set (replace_byte old new s)"
  by (auto simp: replace_byte_def)

lemma crlf_to_lf_id: "CR \<notin> set s \<Longrightarrow> crlf_to_lf s = s"
  by (induction s rule: crlf_to_lf.induct) auto

section \<open>Valid strings as sequences of encoded runes\<close>

text \<open>\<open>rune_enc e\<close>: the bytes \<open>e\<close> encode one rune; \<open>space_enc\<close>: a white space rune.\<close>

definition rune_enc :: "string \<Rightarrow> bool" where
  "rune_enc e \<longleftrightarrow> e \<noteq> [] \<and> snd (decode_rune e) = length e \<and> decode_rune e \<noteq> (rune_error, 1)"

definition space_enc :: "string \<Rightarrow> bool" where
  "space_enc e \<longleftrightarrow> is_space (fst (decode_rune e))"

lemma rune_enc_ascii [simp]: "byte c < 128 \<Longrightarrow> rune_enc [c]"
  by (simp add: rune_enc_def del: decode_rune.simps)

lemma rune_enc_ne_Nil: "rune_enc e \<Longrightarrow> e \<noteq> []"
  by (simp add: rune_enc_def)

lemma rune_enc_append:
  "rune_enc e \<Longrightarrow> decode_rune (e @ t) = (fst (decode_rune e), length e)"
  using decode_rune_append [of e t] by (auto simp: rune_enc_def prod_eq_iff)

text \<open>The bytes of a rune: one leading byte, then up to three continuation bytes.\<close>

lemma rune_enc_shape:
  assumes "rune_enc e"
  shows "\<exists>c cs. e = c # cs \<and> rune_start c \<and> length cs \<le> 3 \<and> (\<forall>x \<in> set cs. cont x) \<and>
    (byte c < 128 \<longleftrightarrow> cs = [])"
proof -
  obtain c cs where e: "e = c # cs" using assms by (cases e) (auto simp: rune_enc_def)
  have c: "\<not> (128 \<le> byte c \<and> byte c < 194)"
    using assms by (auto simp: e rune_enc_def)
  have "length cs \<le> 3 \<and> (\<forall>x \<in> set cs. cont x) \<and> (byte c < 128 \<longleftrightarrow> cs = [])"
    using assms
    by (auto simp: e rune_enc_def Let_def decode_defs cont_in_def length_Suc_conv
        split: if_splits list.splits)
  with c e show ?thesis by (auto simp: rune_start_def cont_in_def)
qed

lemma drop_last_rune: "n = length p \<Longrightarrow> drop n (p @ e) = e"
  by simp

lemma decode_last_rune_enc:
  assumes "rune_enc e"
  shows "decode_last_rune (p @ e) = (fst (decode_rune e), length e)"
proof -
  obtain c cs where e: "e = c # cs" and c: "rune_start c" and len: "length cs \<le> 3"
    and cs: "\<forall>x \<in> set cs. cont x" and asc: "byte c < 128 \<longleftrightarrow> cs = []"
    using rune_enc_shape [OF assms] by blast
  have dec: "decode_rune e = (fst (decode_rune e), length e)"
    using assms by (simp add: rune_enc_def prod_eq_iff)
  show ?thesis
  proof (cases "cs = []")
    case True
    with asc e show ?thesis by (simp add: decode_last_rune_def del: decode_rune.simps)
  next
    case False
    then have last: "\<not> byte (last (p @ e)) < 128"
      using cs by (auto simp: e cont_in_def dest: bspec [OF _ last_in_set])
    have start: "last_start (p @ e) = length p"
    proof -
      have "length cs = 1 \<or> length cs = 2 \<or> length cs = 3"
        using False len by (simp add: le_Suc_eq numeral_eq_Suc)
      then show ?thesis
        using c cs
        by (auto simp: e last_start_def rune_start_def nth_append numeral_eq_Suc
            length_Suc_conv)
    qed
    have "snd (decode_rune e) = length e"
      using assms by (simp add: rune_enc_def)
    then show ?thesis
      using last rune_enc_ne_Nil [OF assms]
      by (simp add: decode_last_rune_def Let_def start case_prod_beta prod_eq_iff
          del: decode_rune.simps)
  qed
qed

lemma valid_utf8_enc_append:
  assumes "rune_enc e"
  shows "valid_utf8 (e @ t) \<longleftrightarrow> valid_utf8 t"
  using assms rune_enc_append [OF assms, of t] rune_enc_ne_Nil [OF assms]
  by (subst valid_utf8.simps) (auto simp: rune_enc_def prod_eq_iff)

lemma valid_utf8_concat: "list_all rune_enc es \<Longrightarrow> valid_utf8 (concat es)"
  by (induction es) (auto simp: valid_utf8_enc_append)

text \<open>Decoding looks only at the bytes of the rune it returns.\<close>

lemma decode2_take:
  "decode2 b cs \<noteq> (rune_error, 1) \<Longrightarrow> decode2 b (take (snd (decode2 b cs) - 1) cs) = decode2 b cs"
  by (cases cs) (simp_all add: decode2_def)

lemma decode3_take:
  "decode3 lo hi b cs \<noteq> (rune_error, 1) \<Longrightarrow>
   decode3 lo hi b (take (snd (decode3 lo hi b cs) - 1) cs) = decode3 lo hi b cs"
  by (cases cs; cases "tl cs") (simp_all add: decode3_def)

lemma decode4_take:
  "decode4 lo hi b cs \<noteq> (rune_error, 1) \<Longrightarrow>
   decode4 lo hi b (take (snd (decode4 lo hi b cs) - 1) cs) = decode4 lo hi b cs"
  by (cases cs; cases "tl cs"; cases "tl (tl cs)") (simp_all add: decode4_def)

lemma decode_rune_take:
  assumes "s \<noteq> []" and "decode_rune s \<noteq> (rune_error, 1)"
  shows "decode_rune (take (snd (decode_rune s)) s) = decode_rune s"
proof -
  obtain c cs where s: "s = c # cs" using assms(1) by (cases s) auto
  have "take (snd (decode_rune s)) s = c # take (snd (decode_rune s) - 1) cs"
    using decode_rune_width [OF assms(1)] s by (cases "snd (decode_rune s)") auto
  with assms(2) show ?thesis
    by (simp add: s Let_def decode2_take [simplified] decode3_take [simplified]
        decode4_take [simplified] split: if_split_asm)
qed

lemma rune_enc_take:
  assumes "s \<noteq> []" and "decode_rune s \<noteq> (rune_error, 1)"
  shows "rune_enc (take (snd (decode_rune s)) s)"
  using assms decode_rune_take [OF assms] decode_rune_width [OF assms(1)]
  by (auto simp: rune_enc_def)

lemma valid_utf8_encs:
  "valid_utf8 s \<Longrightarrow> \<exists>es. list_all rune_enc es \<and> s = concat es"
proof (induction s rule: valid_utf8.induct)
  case (1 s)
  show ?case
  proof (cases "s = []")
    case True
    then show ?thesis by (intro exI [of _ "[]"]) simp
  next
    case False
    let ?w = "snd (decode_rune s)"
    have ok: "decode_rune s \<noteq> (rune_error, 1)" and rest: "valid_utf8 (drop ?w s)"
      using 1(2) False valid_utf8.simps [of s] by (auto split: if_splits)
    then obtain es where "list_all rune_enc es" "drop ?w s = concat es"
      using 1(1) [OF False ok rest] by blast
    with rune_enc_take [OF False ok] show ?thesis
      by (intro exI [of _ "take ?w s # es"]) (simp, metis append_take_drop_id)
  qed
qed

lemma concat_encs_split:
  assumes "list_all rune_enc es" and "concat es = p @ c # q" and "rune_start c"
  shows "\<exists>es1 es2. es = es1 @ es2 \<and> concat es1 = p \<and> concat es2 = c # q"
  using assms
proof (induction es arbitrary: p)
  case (Cons e es)
  obtain d ds where e: "e = d # ds" and ds: "\<forall>x \<in> set ds. cont x"
    using Cons.prems(1) rune_enc_shape [of e] by auto
  show ?case
  proof (cases p)
    case Nil
    with Cons.prems(2) show ?thesis by (intro exI [of _ "[]"] exI [of _ "e # es"]) auto
  next
    case (Cons p0 ps)
    have "ds @ concat es = ps @ c # q" using Cons.prems(2) by (simp add: e Cons)
    moreover have "c \<notin> set ds" using ds Cons.prems(3) by (auto simp: rune_start_def)
    ultimately obtain us where us: "ps = ds @ us" "concat es = us @ c # q"
      by (auto simp: append_eq_append_conv2 append_eq_Cons_conv)
    with Cons.IH [of us] Cons.prems(1,3) obtain es1 es2 where
      "es = es1 @ es2" "concat es1 = us" "concat es2 = c # q" by auto
    with us Cons Cons.prems(2) e show ?thesis
      by (intro exI [of _ "e # es1"] exI [of _ es2]) auto
  qed
qed simp

lemma valid_utf8_split:
  assumes "valid_utf8 (p @ c # q)" and "rune_start c"
  shows "valid_utf8 p" and "valid_utf8 (c # q)"
proof -
  obtain es where es: "list_all rune_enc es" "p @ c # q = concat es"
    using valid_utf8_encs [OF assms(1)] by blast
  obtain es1 es2 where "es = es1 @ es2" "concat es1 = p" "concat es2 = c # q"
    using concat_encs_split [OF es(1) es(2) [symmetric] assms(2)] by blast
  with es(1) show "valid_utf8 p" "valid_utf8 (c # q)"
    using valid_utf8_concat [of es1] valid_utf8_concat [of es2] by auto
qed

lemma rune_start_ascii [simp]: "byte c < 128 \<Longrightarrow> rune_start c"
  by (simp add: rune_start_def cont_in_def)

lemma trim_left_space_encs:
  "list_all rune_enc es \<Longrightarrow> trim_left_space (concat es) = concat (dropWhile space_enc es)"
proof (induction es)
  case (Cons e es)
  then have e: "rune_enc e" by simp
  show ?case
    using Cons rune_enc_append [OF e, of "concat es"] rune_enc_ne_Nil [OF e]
    by (subst trim_left_space.simps) (simp flip: space_enc_def)
qed simp

lemma trim_right_space_encs:
  "list_all rune_enc es \<Longrightarrow>
   trim_right_space (concat es) = concat (rev (dropWhile space_enc (rev es)))"
proof (induction es rule: rev_induct)
  case (snoc e es)
  then have e: "rune_enc e" by simp
  show ?case
    using snoc decode_last_rune_enc [OF e, of "concat es"] rune_enc_ne_Nil [OF e]
    by (subst trim_right_space.simps) (simp flip: space_enc_def)
qed simp

lemma concat_encs_Nil: "list_all rune_enc es \<Longrightarrow> concat es = [] \<longleftrightarrow> es = []"
  by (cases es) (auto dest: rune_enc_ne_Nil)

lemma list_all_dropWhile: "list_all P xs \<Longrightarrow> list_all P (dropWhile Q xs)"
  by (auto simp: list_all_iff dest: set_dropWhileD)

lemma trim_space_encs:
  "list_all rune_enc es \<Longrightarrow>
   trim_space (concat es) = concat (rev (dropWhile space_enc (rev (dropWhile space_enc es))))"
  by (simp add: trim_space_def trim_left_space_encs trim_right_space_encs list_all_dropWhile)

text \<open>Trimming a string whose outer lines are not blank only touches these lines.\<close>

lemma trim_left_space_append:
  assumes "valid_utf8 l" and "trim_left_space l \<noteq> []" and "valid_utf8 r"
  shows "trim_left_space (l @ r) = trim_left_space l @ r"
proof -
  obtain es fs where es: "list_all rune_enc es" "l = concat es"
    and fs: "list_all rune_enc fs" "r = concat fs"
    using valid_utf8_encs assms(1,3) by metis
  have "\<not> (\<forall>e \<in> set es. space_enc e)"
    using assms(2) es by (metis concat.simps(1) dropWhile_eq_Nil_conv trim_left_space_encs)
  then show ?thesis
    using es fs trim_left_space_encs [of "es @ fs"]
    by (auto simp: trim_left_space_encs dropWhile_append1)
qed

lemma trim_right_space_append:
  assumes "valid_utf8 l" and "trim_right_space l \<noteq> []" and "valid_utf8 r"
  shows "trim_right_space (r @ l) = r @ trim_right_space l"
proof -
  obtain es fs where es: "list_all rune_enc es" "l = concat es"
    and fs: "list_all rune_enc fs" "r = concat fs"
    using valid_utf8_encs assms(1,3) by metis
  have "\<not> (\<forall>e \<in> set es. space_enc e)"
    using assms(2) es
    by (metis concat.simps(1) dropWhile_eq_Nil_conv rev.simps(1) set_rev trim_right_space_encs)
  then show ?thesis
    using es fs trim_right_space_encs [of "fs @ es"]
    by (auto simp: trim_right_space_encs dropWhile_append1)
qed

lemma trim_sides_blank:
  assumes "valid_utf8 s"
  shows "trim_left_space s = [] \<longleftrightarrow> trim_space s = []"
    and "trim_right_space s = [] \<longleftrightarrow> trim_space s = []"
proof -
  obtain es where es: "list_all rune_enc es" "s = concat es"
    using valid_utf8_encs [OF assms] by blast
  have "list_all rune_enc (dropWhile space_enc es)"
    "list_all rune_enc (dropWhile space_enc (rev es))"
    "list_all rune_enc (rev (dropWhile space_enc (rev (dropWhile space_enc es))))"
    "list_all rune_enc (rev (dropWhile space_enc (rev es)))"
    using es(1) by (auto simp: list_all_iff dest!: set_dropWhileD)
  note nil = this [THEN concat_encs_Nil]
  have all: "dropWhile space_enc (rev (dropWhile space_enc es)) = [] \<longleftrightarrow>
      (\<forall>e \<in> set es. space_enc e)"
    by (metis (no_types, lifting) dropWhile_eq_Nil_conv set_rev hd_dropWhile list.set_sel(1)
        dropWhile_eq_self_iff empty_iff list.set(1))
  show "trim_left_space s = [] \<longleftrightarrow> trim_space s = []"
    using nil all es by (simp add: trim_left_space_encs trim_space_encs dropWhile_eq_Nil_conv)
  show "trim_right_space s = [] \<longleftrightarrow> trim_space s = []"
    using nil all es by (simp add: trim_right_space_encs trim_space_encs dropWhile_eq_Nil_conv)
qed

lemma valid_utf8_trim:
  assumes "valid_utf8 s"
  shows "valid_utf8 (trim_left_space s)" "valid_utf8 (trim_right_space s)"
    "valid_utf8 (trim_space s)"
proof -
  have sides: "valid_utf8 (trim_left_space s) \<and> valid_utf8 (trim_right_space s)"
    if s: "valid_utf8 s" for s
  proof -
    obtain es where "list_all rune_enc es" "s = concat es"
      using valid_utf8_encs [OF s] by blast
    then show ?thesis
      by (auto simp: trim_left_space_encs trim_right_space_encs list_all_iff
          intro!: valid_utf8_concat dest!: set_dropWhileD)
  qed
  then show "valid_utf8 (trim_left_space s)" "valid_utf8 (trim_right_space s)"
    "valid_utf8 (trim_space s)"
    using assms by (auto simp: trim_space_def)
qed

lemma valid_utf8_crlf_to_lf:
  assumes "valid_utf8 s"
  shows "valid_utf8 (replace_byte CR LF (crlf_to_lf s))"
proof -
  have cr: "replace_byte CR LF (crlf_to_lf (e @ t)) = e @ replace_byte CR LF (crlf_to_lf t)"
    if "CR \<notin> set e" for e t
    using that
  proof (induction e)
    case (Cons c cs)
    then show ?case by (cases "cs @ t") (auto simp: replace_byte_def)
  qed simp
  have "valid_utf8 (replace_byte CR LF (crlf_to_lf (concat es)))" if "list_all rune_enc es" for es
    using that
  proof (induction es rule: length_induct)
    case (1 es)
    show ?case
    proof (cases es)
      case (Cons e fs)
      with 1 have e: "rune_enc e" "list_all rune_enc fs" by auto
      obtain c cs where shape: "e = c # cs" "\<forall>x \<in> set cs. cont x" "byte c < 128 \<longleftrightarrow> cs = []"
        using rune_enc_shape [OF e(1)] by blast
      show ?thesis
      proof (cases "e = [CR]")
        case False
        then have "CR \<notin> set e" using shape by (auto simp: cont_in_def)
        with 1 Cons e show ?thesis by (simp add: cr valid_utf8_enc_append)
      next
        case True
        show ?thesis
        proof (cases fs)
          case (Cons f gs)
          show ?thesis
          proof (cases "f = [LF]")
            case True
            with 1 e \<open>e = [CR]\<close> \<open>es = e # fs\<close> Cons show ?thesis
              by (simp add: replace_byte_def)
          next
            case False
            obtain c' cs' where "f = c' # cs'" "byte c' < 128 \<longleftrightarrow> cs' = []"
              using e(2) Cons rune_enc_shape [of f] by auto
            with False have "crlf_to_lf (CR # concat fs) = CR # crlf_to_lf (concat fs)"
              by (auto simp: Cons)
            with 1 e \<open>e = [CR]\<close> \<open>es = e # fs\<close> show ?thesis by (simp add: replace_byte_def)
          qed
        qed (use \<open>e = [CR]\<close> \<open>es = e # fs\<close> in \<open>simp add: replace_byte_def\<close>)
      qed
    qed (simp add: replace_byte_def)
  qed
  with valid_utf8_encs [OF assms] show ?thesis by blast
qed

lemma valid_utf8_split_on:
  assumes "byte sep < 128"
  shows "valid_utf8 s \<Longrightarrow> l \<in> set (split_on sep s) \<Longrightarrow> valid_utf8 l"
proof (induction "length s" arbitrary: s rule: less_induct)
  case less
  show ?case
  proof (cases "sep \<in> set s")
    case False
    with less.prems show ?thesis by (simp add: split_on_single)
  next
    case True
    then obtain p q where s: "s = p @ sep # q" "sep \<notin> set p" by (meson split_list_first)
    have "valid_utf8 p" "valid_utf8 q"
      using less.prems(1) assms valid_utf8_split [of p sep q] by (auto simp: s)
    moreover have "length q < length s" by (simp add: s)
    ultimately show ?thesis
      using less.hyps [of q] less.prems(2) split_on_append_sep [OF s(2), of q] s(1) by auto
  qed
qed

lemma valid_utf8_join:
  assumes "valid_utf8 sep" and "\<forall>x \<in> set xs. valid_utf8 x"
  shows "valid_utf8 (join sep xs)"
  using assms by (induction sep xs rule: join.induct) (auto intro!: valid_utf8_append)

lemma trim_right_set_Cons:
  "trim_right_set cs s = p \<Longrightarrow> \<exists>q. s = p @ q \<and> set q \<subseteq> set cs"
  unfolding trim_right_set_def
  by (metis (no_types, lifting) rev_append rev_rev_ident set_rev set_takeWhileD subsetI
      takeWhile_dropWhile_id)

lemma valid_utf8_trim_right_set:
  assumes "valid_utf8 s" and "is_ascii cs"
  shows "valid_utf8 (trim_right_set cs s)"
proof -
  obtain q where q: "s = trim_right_set cs s @ q" "set q \<subseteq> set cs"
    using trim_right_set_Cons by blast
  show ?thesis
  proof (cases q)
    case (Cons c q')
    with q(2) assms(2) have "byte c < 128" by (auto simp: is_ascii_def list_all_iff)
    with assms(1) q(1) Cons show ?thesis
      using valid_utf8_split(1) [of "trim_right_set cs s" c q'] by simp
  qed (use q assms in auto)
qed

lemma trim_right_set_self: "trim_right_set cs s = s \<longleftrightarrow> s = [] \<or> last s \<notin> set cs"
proof (cases s rule: rev_cases)
  case (snoc p c)
  have "length (dropWhile (\<lambda>c. c \<in> set cs) (rev p)) < Suc (length p)"
    using length_dropWhile_le [of _ "rev p"] by (simp add: less_Suc_eq_le)
  then have "dropWhile (\<lambda>c. c \<in> set cs) (rev p) \<noteq> c # rev p" by auto
  then show ?thesis
    by (auto simp: trim_right_set_def snoc) (metis rev_rev_ident rev.simps(2))
qed (simp add: trim_right_set_def)

text \<open>On ASCII the trimming functions compute bytewise.\<close>

definition space_byte :: "char \<Rightarrow> bool" where
  "space_byte c \<longleftrightarrow> is_space (byte c)"

lemma ascii_encs:
  "is_ascii s \<Longrightarrow> list_all rune_enc (map (\<lambda>c. [c]) s)"
  "is_ascii s \<Longrightarrow> dropWhile space_enc (map (\<lambda>c. [c]) s) = map (\<lambda>c. [c]) (dropWhile space_byte s)"
  by (induction s)
    (simp_all add: space_enc_def space_byte_def del: decode_rune.simps)

lemma is_ascii_rev [simp]: "is_ascii (rev s) \<longleftrightarrow> is_ascii s"
  by (simp add: is_ascii_def list_all_iff)

lemma is_ascii_dropWhile: "is_ascii s \<Longrightarrow> is_ascii (dropWhile P s)"
  by (auto simp: is_ascii_def list_all_iff dest: set_dropWhileD)

lemma trim_space_ascii:
  "is_ascii s \<Longrightarrow> trim_space s = rev (dropWhile space_byte (rev (dropWhile space_byte s)))"
  using trim_space_encs [OF ascii_encs(1)] ascii_encs(2) [of s]
    ascii_encs(2) [of "rev (dropWhile space_byte s)"]
  by (simp add: rev_map is_ascii_dropWhile)

lemma runes_encs: "list_all rune_enc es \<Longrightarrow> runes (concat es) = map (\<lambda>e. fst (decode_rune e)) es"
proof (induction es)
  case (Cons e es)
  then have e: "rune_enc e" by simp
  show ?case
    using Cons rune_enc_append [OF e, of "concat es"] rune_enc_ne_Nil [OF e]
    by (subst runes.simps) simp
qed simp

text \<open>An ASCII byte of a valid string is one of its runes.\<close>

lemma ascii_byte_rune:
  assumes "valid_utf8 s" and "c \<in> set s" and "byte c < 128"
  shows "byte c \<in> set (runes s)"
proof -
  obtain es where es: "list_all rune_enc es" "s = concat es"
    using valid_utf8_encs [OF assms(1)] by blast
  then obtain e where e: "e \<in> set es" "c \<in> set e" "rune_enc e"
    using assms(2) by (auto simp: list_all_iff)
  then have "e = [c]"
    using rune_enc_shape [OF e(3)] assms(3) by (fastforce simp: cont_in_def)
  with e(1) have "byte c \<in> (\<lambda>e. fst (decode_rune e)) ` set es"
    using assms(3) by (intro image_eqI [of _ _ "[c]"]) (simp_all del: decode_rune.simps)
  with es show ?thesis by (simp add: runes_encs)
qed

text \<open>A text written line by line and trimmed is its lines joined.\<close>

lemma trim_right_space_LF: "trim_right_space (s @ [LF]) = trim_right_space s"
  by (subst trim_right_space.simps) (simp add: decode_last_rune_def is_space_def)

lemma valid_utf8_lines: "\<forall>l \<in> set ls. valid_utf8 l \<Longrightarrow> valid_utf8 (concat (map (\<lambda>l. l @ [LF]) ls))"
  by (induction ls) (auto intro!: valid_utf8_append)

lemma join_eq_concat: "ls \<noteq> [] \<Longrightarrow> join [LF] ls @ [LF] = concat (map (\<lambda>l. l @ [LF]) ls)"
  by (induction "[LF]" ls rule: join.induct) auto

lemma trim_space_lines:
  assumes "\<forall>l \<in> set ls. valid_utf8 l" and "ls = c # cs @ [l]" and "is_ascii c" and "c \<noteq> []"
    and "\<not> space_byte (hd c)" and "trim_right_space l = l" and "l \<noteq> []"
  shows "trim_space (concat (map (\<lambda>l. l @ [LF]) ls)) = join [LF] ls"
proof -
  let ?p = "concat (map (\<lambda>l. l @ [LF]) (c # cs))"
  have join: "join [LF] ls = ?p @ l"
    using join_eq_concat [of "c # cs"] join_snoc [of "c # cs" "[LF]" l] by (simp add: assms(2))
  have body: "concat (map (\<lambda>l. l @ [LF]) ls) = (?p @ l) @ [LF]" by (simp add: assms(2))
  obtain d ds where c: "c = d # ds" using assms(4) by (cases c) auto
  have left: "trim_left_space (concat (map (\<lambda>l. l @ [LF]) ls)) = (?p @ l) @ [LF]"
    unfolding body using assms(3,5)
    by (intro trim_left_space_id) (simp add: c space_byte_def)
  have "valid_utf8 ?p"
    using assms(1,2) by (auto intro!: valid_utf8_append valid_utf8_lines)
  then have "trim_right_space (?p @ l) = ?p @ l"
    using assms by (subst trim_right_space_append) auto
  then show ?thesis
    by (simp only: trim_space_def left trim_right_space_LF join)
qed

section \<open>Lower case\<close>

text \<open>
  \<open>strings.ToLower\<close>: bytewise on ASCII input; otherwise each rune is mapped and encoded
  again, which turns an invalid byte into the three bytes of U+FFFD. \<open>uc\<close> is
  \<open>unicode.ToLower\<close> above ASCII.
\<close>

definition encode_rune :: "nat \<Rightarrow> string" where
  "encode_rune r =
     (if r < 128 then [char_of r]
      else if r < 2048 then [char_of (192 + r div 64), char_of (128 + r mod 64)]
      else if r > 1114111 \<or> (55296 \<le> r \<and> r \<le> 57343)
        then [char_of (239::nat), char_of (191::nat), char_of (189::nat)]
      else if r < 65536
        then [char_of (224 + r div 4096), char_of (128 + r div 64 mod 64),
              char_of (128 + r mod 64)]
      else [char_of (240 + r div 262144), char_of (128 + r div 4096 mod 64),
            char_of (128 + r div 64 mod 64), char_of (128 + r mod 64)])"

definition lower_rune :: "(nat \<Rightarrow> nat) \<Rightarrow> nat \<Rightarrow> nat" where
  "lower_rune uc r = (if r < 128 then (if 65 \<le> r \<and> r \<le> 90 then r + 32 else r) else uc r)"

definition lower_byte :: "char \<Rightarrow> char" where
  "lower_byte c = (if 65 \<le> byte c \<and> byte c \<le> 90 then char_of (byte c + 32) else c)"

definition to_lower :: "(nat \<Rightarrow> nat) \<Rightarrow> string \<Rightarrow> string" where
  "to_lower uc s =
     (if is_ascii s then map lower_byte s
      else concat (map (\<lambda>r. encode_rune (lower_rune uc r)) (runes s)))"

lemma byte_lower_byte:
  "byte (lower_byte c) = (if 65 \<le> byte c \<and> byte c \<le> 90 then byte c + 32 else byte c)"
  by (simp add: lower_byte_def)

lemma lower_byte_idem [simp]: "lower_byte (lower_byte c) = lower_byte c"
  by (auto simp: lower_byte_def)

lemma is_ascii_map_lower_byte: "is_ascii s \<Longrightarrow> is_ascii (map lower_byte s)"
  by (induction s) (auto simp: byte_lower_byte)

lemma to_lower_ascii [simp]: "is_ascii s \<Longrightarrow> to_lower uc s = map lower_byte s"
  by (simp add: to_lower_def)

lemma to_lower_ascii_idem:
  "is_ascii s \<Longrightarrow> to_lower uc (to_lower uc s) = to_lower uc s"
  by (simp add: is_ascii_map_lower_byte)

section \<open>Decimal numbers\<close>

text \<open>\<open>strconv.FormatUint\<close> and \<open>%d\<close> of a non-negative number.\<close>

definition digit_char :: "nat \<Rightarrow> char" where
  "digit_char d = char_of (48 + d)"

fun show_nat :: "nat \<Rightarrow> string" where
  "show_nat n =
     (if n < 10 then [digit_char n] else show_nat (n div 10) @ [digit_char (n mod 10)])"

declare show_nat.simps [simp del]

definition digit_value :: "char \<Rightarrow> nat" where
  "digit_value c = byte c - 48"

definition is_digit_byte :: "char \<Rightarrow> bool" where
  "is_digit_byte c \<longleftrightarrow> 48 \<le> byte c \<and> byte c \<le> 57"

definition read_nat :: "string \<Rightarrow> nat" where
  "read_nat s = foldl (\<lambda>n c. 10 * n + digit_value c) 0 s"

lemma digit_value_char [simp]: "d < 10 \<Longrightarrow> digit_value (digit_char d) = d"
  by (simp add: digit_value_def digit_char_def)

lemma read_show_nat [simp]: "read_nat (show_nat n) = n"
proof (induction n rule: show_nat.induct)
  case (1 n)
  show ?case
  proof (cases "n < 10")
    case True
    then show ?thesis by (subst show_nat.simps) (simp add: read_nat_def)
  next
    case False
    with 1 have "read_nat (show_nat (n div 10)) = n div 10" by simp
    with False show ?thesis by (subst show_nat.simps) (simp add: read_nat_def)
  qed
qed

lemma show_nat_inj: "show_nat m = show_nat n \<longleftrightarrow> m = n"
  by (metis read_show_nat)

lemma show_nat_ne_Nil [simp]: "show_nat n \<noteq> []"
  by (subst show_nat.simps) simp

lemma show_nat_digits: "c \<in> set (show_nat n) \<Longrightarrow> is_digit_byte c"
proof (induction n rule: show_nat.induct)
  case (1 n)
  then show ?case
    by (subst (asm) (2) show_nat.simps) (auto simp: is_digit_byte_def digit_char_def split: if_splits)
qed

end
