(* ===== verification/Contracts.thy ===== *)
theory Contracts
  imports Go_Strings
begin

text \<open>
  The data of \<open>pkg/contracts/contracts.go\<close>: the frozen v1 requests, results and stable
  errors every component exchanges. A Go struct is a record with the struct's fields in
  order, prefixed by the struct's initials; a pointer field is an \<open>option\<close>. String-typed
  enumerations that arrive from outside (an execution policy, a phase) stay strings,
  because the program has to reject unknown values; enumerations the program only produces
  are datatypes.
\<close>

section \<open>Versions and enumerations\<close>

abbreviation SchemaVersion :: string where
  "SchemaVersion \<equiv> ''1.0.0''"

type_synonym execution_policy = string

abbreviation ExecutionPolicyImproveOnly :: execution_policy where
  "ExecutionPolicyImproveOnly \<equiv> ''improve_only''"
abbreviation ExecutionPolicyAskBeforeExecute :: execution_policy where
  "ExecutionPolicyAskBeforeExecute \<equiv> ''ask_before_execute''"
abbreviation ExecutionPolicyFollowUserIntent :: execution_policy where
  "ExecutionPolicyFollowUserIntent \<equiv> ''follow_user_intent''"

datatype policy_outcome =
    PolicyOutcomeReturnOnly
  | PolicyOutcomeApprovalRequired
  | PolicyOutcomeExecutionRecommended
  | PolicyOutcomeDenied

fun show_policy_outcome :: "policy_outcome \<Rightarrow> string" where
  "show_policy_outcome PolicyOutcomeReturnOnly = ''return_only''"
| "show_policy_outcome PolicyOutcomeApprovalRequired = ''approval_required''"
| "show_policy_outcome PolicyOutcomeExecutionRecommended = ''execution_recommended''"
| "show_policy_outcome PolicyOutcomeDenied = ''denied''"

section \<open>Stable errors\<close>

datatype error_code =
    ErrorCodeInvalidSchema
  | ErrorCodeSemanticInvalid
  | ErrorCodePermissionDenied
  | ErrorCodeApprovalRequired
  | ErrorCodeUnsupportedCapability
  | ErrorCodeUnknownCapability
  | ErrorCodeCoverageIncomplete
  | ErrorCodeSourceConflict
  | ErrorCodeBudgetExhausted
  | ErrorCodeSensitivePayload
  | ErrorCodeNotFound
  | ErrorCodeInternal

record stable_error =
  se_SchemaVersion :: string
  se_Code :: error_code
  se_Message :: string
  se_FieldPath :: "string option"
  se_Retryable :: bool
  se_EvidenceRefs :: "string list"

definition NewError :: "error_code \<Rightarrow> string \<Rightarrow> string \<Rightarrow> bool \<Rightarrow> stable_error" where
  "NewError code message field retryable =
     \<lparr>se_SchemaVersion = SchemaVersion, se_Code = code, se_Message = message,
      se_FieldPath = (if field \<noteq> '''' then Some field else None),
      se_Retryable = retryable, se_EvidenceRefs = []\<rparr>"

lemma NewError_sel [simp]:
  "se_Code (NewError c m f r) = c"
  "se_Message (NewError c m f r) = m"
  "se_Retryable (NewError c m f r) = r"
  "se_FieldPath (NewError c m f r) = (if f \<noteq> '''' then Some f else None)"
  by (simp_all add: NewError_def)

lemma NewError_code_eq: "NewError c m f r = NewError c' m' f' r' \<Longrightarrow> c = c' \<and> m = m'"
  by (simp add: NewError_def)

type_synonym 'a go_result = "stable_error + 'a"

section \<open>Prompt plans and budgets\<close>

record prompt_plan =
  pp_SchemaVersion :: string
  pp_Role :: string
  pp_Personality :: string
  pp_CollaborationStyle :: string
  pp_Goal :: string
  pp_SuccessCriteria :: "string list"
  pp_Invariants :: "string list"
  pp_DecisionRules :: "string list"
  pp_EvidenceRequirements :: "string list"
  pp_Tools :: "string list"
  pp_OutputContract :: string
  pp_OutputLanguage :: string
  pp_ApprovalBoundary :: string
  pp_PhaseScope :: string
  pp_StopRules :: "string list"
  pp_FallbackRules :: "string list"
  pp_AbstainRules :: "string list"
  pp_ValidationBar :: "string list"
  pp_ArtifactPriorities :: "string list"
  pp_StablePrefix :: "string option"
  pp_DynamicTail :: "string option"
  pp_Scope :: "string list"
  pp_NonGoals :: "string list"
  pp_Gates :: "string list"

record execution_budget =
  eb_SchemaVersion :: string
  eb_Enforcement :: string
  eb_MaxUsefulToolLoops :: "int option"
  eb_MaxRetries :: "int option"
  eb_MaxRetrievalExpansions :: "int option"
  eb_ActivePhases :: "string list"
  eb_DelegationPolicy :: string
  eb_MaxAgentDepth :: "int option"
  eb_MaxConcurrency :: "int option"
  eb_ContextMode :: string
  eb_ExhaustionOutcome :: string

section \<open>Boundary decisions\<close>

text \<open>\<open>Confidence\<close> is only compared and copied; a real number stands for the float64.\<close>

record boundary_decision =
  bd_Category :: string
  bd_Outcome :: string
  bd_Risk :: int
  bd_RiskLevel :: string
  bd_Confidence :: real
  bd_SourceRef :: string
  bd_PackID :: string
  bd_RuleID :: string
  bd_Version :: string
  bd_Explanation :: string
  bd_ConflictRefs :: "string list"

section \<open>Compiler requests and results\<close>

record improve_prompt_request =
  ipq_SchemaVersion :: string
  ipq_Kind :: string
  ipq_Intent :: string
  ipq_ExecutionPolicy :: execution_policy
  ipq_PromptPlan :: "prompt_plan option"
  ipq_Budget :: "execution_budget option"

record improve_prompt_result =
  ipr_SchemaVersion :: string
  ipr_Kind :: string
  ipr_ImprovedPrompt :: string
  ipr_PolicyOutcome :: policy_outcome
  ipr_Diagnostics :: "string list"
  ipr_BoundaryDecisions :: "boundary_decision list"

record create_goal_prompt_request =
  cgq_SchemaVersion :: string
  cgq_Kind :: string
  cgq_Objective :: string
  cgq_PromptPlan :: prompt_plan

record create_goal_prompt_result =
  cgr_SchemaVersion :: string
  cgr_Kind :: string
  cgr_GoalPrompt :: string
  cgr_CheckpointRequired :: bool

record create_review_fix_prompt_request =
  crq_SchemaVersion :: string
  crq_Kind :: string
  crq_Findings :: "string list"
  crq_ReviewHead :: string

record create_review_fix_prompt_result =
  crr_SchemaVersion :: string
  crr_Kind :: string
  crr_FixPrompt :: string
  crr_FailureClasses :: "string list"
  crr_SamePatternScanRequired :: bool

record lint_prompt_request =
  lpq_SchemaVersion :: string
  lpq_Kind :: string
  lpq_Candidate :: string

record diagnostic =
  dg_Code :: string
  dg_Severity :: string
  dg_Message :: string
  dg_Location :: string
  dg_Rationale :: string
  dg_Remediation :: string

record lint_prompt_result =
  lpr_SchemaVersion :: string
  lpr_Kind :: string
  lpr_Valid :: bool
  lpr_Diagnostics :: "diagnostic list"
  lpr_BoundaryDecisions :: "boundary_decision list"

record get_checkpoint_request =
  gcq_SchemaVersion :: string
  gcq_Kind :: string
  gcq_Reference :: string

record get_checkpoint_result =
  gcr_SchemaVersion :: string
  gcr_Kind :: string
  gcr_Objective :: string
  gcr_AcceptedDecisions :: "string list"
  gcr_Constraints :: "string list"
  gcr_EvidenceRefs :: "string list"
  gcr_Completed :: "string list"
  gcr_Validation :: "string list"
  gcr_Blockers :: "string list"
  gcr_NextAction :: string
  gcr_RemainingGates :: "string list"

section \<open>Audit requests and results\<close>

text \<open>A \<open>time.Time\<close> is its distance in nanoseconds from Go's zero time, so \<open>IsZero\<close> is 0.\<close>

type_synonym go_time = int

abbreviation AuditConsentGranted :: string where "AuditConsentGranted \<equiv> ''granted''"
abbreviation AuditConsentDenied :: string where "AuditConsentDenied \<equiv> ''denied''"

abbreviation CoverageStateComplete :: string where "CoverageStateComplete \<equiv> ''complete''"
abbreviation CoverageStatePartial :: string where "CoverageStatePartial \<equiv> ''partial''"
abbreviation CoverageStateMissing :: string where "CoverageStateMissing \<equiv> ''missing''"
abbreviation CoverageStateUnknown :: string where "CoverageStateUnknown \<equiv> ''unknown''"

record audit_session_request =
  asq_SchemaVersion :: string
  asq_Kind :: string
  asq_Reference :: string
  asq_Consent :: string
  asq_ConfiguredSources :: "string list"

record audit_session_result =
  asr_SchemaVersion :: string
  asr_Kind :: string
  asr_Coverage :: string
  asr_EvidenceRefs :: "string list"
  asr_Findings :: "string list"
  asr_RedactionApplied :: bool

record audit_project_request =
  apq_SchemaVersion :: string
  apq_Kind :: string
  apq_Scope :: string
  apq_Reference :: string
  apq_ConfiguredSources :: "string list"
  apq_StartsAt :: go_time
  apq_EndsAt :: go_time
  apq_AsOf :: go_time
  apq_Consent :: string

end
