(* ===== verification/Policy.thy ===== *)
theory Policy
  imports Contracts
begin

text \<open>
  \<open>internal/policy/policy.go\<close>: the effective execution outcome from the configured
  execution policy, the phase of the work and the host's permission.
\<close>

type_synonym host_permission = string

abbreviation HostPermitted :: host_permission where "HostPermitted \<equiv> ''permitted''"
abbreviation HostDenied :: host_permission where "HostDenied \<equiv> ''denied''"
abbreviation HostUnknown :: host_permission where "HostUnknown \<equiv> ''unknown''"

definition ValidExecutionPolicy :: "execution_policy \<Rightarrow> bool" where
  "ValidExecutionPolicy value \<longleftrightarrow>
     value = ExecutionPolicyImproveOnly \<or> value = ExecutionPolicyAskBeforeExecute \<or>
     value = ExecutionPolicyFollowUserIntent"

definition ValidHostPermission :: "host_permission \<Rightarrow> bool" where
  "ValidHostPermission value \<longleftrightarrow>
     value = HostPermitted \<or> value = HostDenied \<or> value = HostUnknown"

definition validPhase :: "string \<Rightarrow> bool" where
  "validPhase value \<longleftrightarrow>
     value = ''research'' \<or> value = ''design'' \<or> value = ''implementation'' \<or>
     value = ''review'' \<or> value = ''external_coordination''"

definition policy_Resolve ::
  "execution_policy \<Rightarrow> string \<Rightarrow> host_permission \<Rightarrow> policy_outcome go_result" where
  "policy_Resolve executionPolicy phase host =
     (if \<not> ValidExecutionPolicy executionPolicy then
        Inl (NewError ErrorCodeInvalidSchema ''unknown execution policy'' ''execution_policy'' False)
      else if \<not> ValidHostPermission host then
        Inl (NewError ErrorCodeInvalidSchema ''unknown host permission'' ''host_permission'' False)
      else if \<not> validPhase phase then
        Inl (NewError ErrorCodeInvalidSchema ''unknown phase'' ''phase'' False)
      else
        let execute = phase = ''implementation'' \<or> phase = ''external_coordination'' in
        if \<not> execute \<or> executionPolicy = ExecutionPolicyImproveOnly then
          Inr PolicyOutcomeReturnOnly
        else if host = HostDenied then Inr PolicyOutcomeDenied
        else if phase = ''external_coordination'' then Inr PolicyOutcomeApprovalRequired
        else if host = HostUnknown \<or> executionPolicy = ExecutionPolicyAskBeforeExecute then
          Inr PolicyOutcomeApprovalRequired
        else if executionPolicy = ExecutionPolicyFollowUserIntent \<and> host = HostPermitted then
          Inr PolicyOutcomeExecutionRecommended
        else
          Inl (NewError ErrorCodeInternal ''policy resolution failed'' ''execution_policy'' False))"

lemmas policy_valid_defs = ValidExecutionPolicy_def ValidHostPermission_def validPhase_def

text \<open>The outcome on valid inputs, as one table: the internal error cannot happen.\<close>

lemma policy_Resolve_valid:
  assumes "ValidExecutionPolicy ep" and "ValidHostPermission h" and "validPhase ph"
  shows "policy_Resolve ep ph h = Inr
     (if ep = ExecutionPolicyImproveOnly \<or> ph \<notin> {''implementation'', ''external_coordination''}
      then PolicyOutcomeReturnOnly
      else if h = HostDenied then PolicyOutcomeDenied
      else if ph = ''implementation'' \<and> ep = ExecutionPolicyFollowUserIntent \<and> h = HostPermitted
      then PolicyOutcomeExecutionRecommended
      else PolicyOutcomeApprovalRequired)"
  using assms unfolding policy_valid_defs policy_Resolve_def Let_def by auto

lemma policy_Resolve_ok_iff:
  "(\<exists>o1. policy_Resolve ep ph h = Inr o1) \<longleftrightarrow>
     ValidExecutionPolicy ep \<and> ValidHostPermission h \<and> validPhase ph"
proof
  assume "\<exists>o1. policy_Resolve ep ph h = Inr o1"
  then show "ValidExecutionPolicy ep \<and> ValidHostPermission h \<and> validPhase ph"
    by (auto simp: policy_Resolve_def split: if_splits)
qed (blast intro: policy_Resolve_valid)

end
