(* ===== verification/Go_Num.thy ===== *)
theory Go_Num
  imports Contracts
begin

text \<open>
  Fixed-width arithmetic of the Go runtime: \<open>int64\<close> addition wraps, \<open>time.Time.Sub\<close>
  saturates at the ends of \<open>time.Duration\<close> (an \<open>int64\<close> count of nanoseconds), and unsigned
  64-bit sums are exact as long as they fit.
\<close>

type_synonym uint64 = "64 word"
type_synonym go_duration = int

definition max_int64 :: int where
  "max_int64 = 2 ^ 63 - 1"

definition min_int64 :: int where
  "min_int64 = - (2 ^ 63)"

definition wrap64 :: "int \<Rightarrow> int" where
  "wrap64 x = (x + 2 ^ 63) mod 2 ^ 64 - 2 ^ 63"

definition time_Sub :: "go_time \<Rightarrow> go_time \<Rightarrow> go_duration" where
  "time_Sub t u = max min_int64 (min max_int64 (t - u))"

lemma wrap64_id: "min_int64 \<le> x \<Longrightarrow> x \<le> max_int64 \<Longrightarrow> wrap64 x = x"
  by (simp add: wrap64_def min_int64_def max_int64_def)

lemma wrap64_bounds: "min_int64 \<le> wrap64 x \<and> wrap64 x \<le> max_int64"
proof -
  have "0 \<le> (x + 2 ^ 63) mod (2 ^ 64 :: int)" "(x + 2 ^ 63) mod (2 ^ 64 :: int) < 2 ^ 64"
    by simp_all
  then show ?thesis
    by (simp add: wrap64_def min_int64_def max_int64_def)
qed

lemma time_Sub_exact: "0 \<le> t - u \<Longrightarrow> t - u \<le> max_int64 \<Longrightarrow> time_Sub t u = t - u"
  by (simp add: time_Sub_def min_int64_def max_int64_def)

lemma time_Sub_bounds: "min_int64 \<le> time_Sub t u \<and> time_Sub t u \<le> max_int64"
  by (simp add: time_Sub_def min_int64_def max_int64_def)

section \<open>Unsigned words and their natural values\<close>

lemma unat_add_exact:
  fixes a b :: uint64
  assumes "unat a + unat b < 2 ^ 64"
  shows "unat (a + b) = unat a + unat b"
  using assms by (simp add: unat_word_ariths)

lemma unat_lt64: "unat (w :: uint64) < 18446744073709551616"
  using unsigned_less [of w] by simp

lemma uint64_room_iff:
  fixes total n :: uint64
  shows "- 1 - total < n \<longleftrightarrow> 2 ^ 64 \<le> unat total + unat n"
proof -
  have "unat (- 1 - total) = unat (- 1 :: uint64) - unat total"
    by (rule unat_sub) simp
  then have "unat (- 1 - total) = 2 ^ 64 - 1 - unat total"
    by (simp add: unsigned_minus_1_eq_mask mask_eq_exp_minus_1)
  then show ?thesis
    using unat_lt64 [of total] unfolding word_less_nat_alt by (simp add: less_diff_conv) linarith
qed

section \<open>Hexadecimal and signed decimal text\<close>

definition hex_digit :: "nat \<Rightarrow> char" where
  "hex_digit d = char_of (if d < 10 then 48 + d else 87 + d)"

text \<open>\<open>hex.EncodeToString\<close>\<close>

definition hex_encode :: "string \<Rightarrow> string" where
  "hex_encode s = concat (map (\<lambda>c. [hex_digit (byte c div 16), hex_digit (byte c mod 16)]) s)"

definition is_hex :: "char \<Rightarrow> bool" where
  "is_hex c \<longleftrightarrow> 48 \<le> byte c \<and> byte c \<le> 57 \<or> 97 \<le> byte c \<and> byte c \<le> 102"

lemma hex_digit_is_hex: "d < 16 \<Longrightarrow> is_hex (hex_digit d)"
  by (auto simp: is_hex_def hex_digit_def)

lemma hex_encode_hex: "c \<in> set (hex_encode s) \<Longrightarrow> is_hex c"
proof -
  assume "c \<in> set (hex_encode s)"
  then obtain x where c: "c = hex_digit (byte x div 16) \<or> c = hex_digit (byte x mod 16)"
    by (auto simp: hex_encode_def)
  have "byte x < 256"
    by simp
  then have "byte x div 16 < 16"
    by (simp add: less_mult_imp_div_less)
  with c show "is_hex c"
    by (auto intro: hex_digit_is_hex)
qed

lemma length_hex_encode [simp]: "length (hex_encode s) = 2 * length s"
  by (induction s) (simp_all add: hex_encode_def)

text \<open>\<open>strconv.ParseInt(s, 10, 64)\<close>: None where it returns an error.\<close>

definition parse_digits :: "string \<Rightarrow> nat option" where
  "parse_digits s = (if s \<noteq> [] \<and> list_all is_digit_byte s then Some (read_nat s) else None)"

definition parse_int64 :: "string \<Rightarrow> int option" where
  "parse_int64 s =
     (let neg = (s \<noteq> [] \<and> hd s = CHR ''-'');
          body = (if s \<noteq> [] \<and> (hd s = CHR ''-'' \<or> hd s = CHR ''+'') then tl s else s)
      in case parse_digits body of
           None \<Rightarrow> None
         | Some n \<Rightarrow> if neg then (if n \<le> 2 ^ 63 then Some (- int n) else None)
                     else if n < 2 ^ 63 then Some (int n) else None)"

lemma parse_int64_bounds: "parse_int64 s = Some n \<Longrightarrow> min_int64 \<le> n \<and> n \<le> max_int64"
  by (auto simp: parse_int64_def Let_def min_int64_def max_int64_def split: option.splits if_splits)

end
