(* ===== verification/Config.thy ===== *)
theory Config
  imports Policy Go_Num
begin

text \<open>
  \<open>internal/config/config.go\<close>: the configuration of the command line, its defaults, its file and its
  validation. What the file system answers, the strict JSON decoder and \<open>time.ParseDuration\<close> are parameters.
\<close>

definition MaxAllowedInputBytes :: int where
  "MaxAllowedInputBytes = 2 ^ 20"

definition maxConfigBytes :: nat where
  "maxConfigBytes = 64 * 1024"

record config =
  cf_ExecutionPolicy :: execution_policy
  cf_HostPermission :: host_permission
  cf_MaxInputBytes :: int
  cf_Timeout :: int
  cf_TimeoutText :: string
  cf_Format :: string
  cf_Provenance :: "string \<Rightarrow> string option"

definition config_Default :: config where
  "config_Default = \<lparr> cf_ExecutionPolicy = ExecutionPolicyImproveOnly, cf_HostPermission = HostUnknown,
     cf_MaxInputBytes = 16 * 1024, cf_Timeout = 2 * 10 ^ 9, cf_TimeoutText = ''2s'', cf_Format = ''text'',
     cf_Provenance = [''execution_policy'' \<mapsto> ''default'', ''host_permission'' \<mapsto> ''default'', ''max_input_bytes'' \<mapsto> ''default'',
       ''timeout'' \<mapsto> ''default'', ''format'' \<mapsto> ''default''] \<rparr>"

text \<open>The fields of a configuration file, each of which may be missing.\<close>

record file_config =
  fc_ExecutionPolicy :: "string option"
  fc_HostPermission :: "string option"
  fc_MaxInputBytes :: "int option"
  fc_Timeout :: "string option"
  fc_Format :: "string option"

definition configError :: "error_code \<Rightarrow> string \<Rightarrow> bool \<Rightarrow> stable_error" where
  "configError code message retryable = NewError code message ''config'' retryable"

definition config_Validate :: "(string \<Rightarrow> int option) \<Rightarrow> config \<Rightarrow> config go_result" where
  "config_Validate parse_duration c =
     (if \<not> ValidExecutionPolicy (cf_ExecutionPolicy c) then
        Inl (NewError ErrorCodeInvalidSchema ''invalid execution policy'' ''execution_policy'' False)
      else if \<not> ValidHostPermission (cf_HostPermission c) then
        Inl (NewError ErrorCodeInvalidSchema ''invalid host permission'' ''host_permission'' False)
      else if cf_MaxInputBytes c < 1 \<or> cf_MaxInputBytes c > MaxAllowedInputBytes then
        Inl (NewError ErrorCodeInvalidSchema (''max_input_bytes must be between 1 and '' @ show_nat (nat MaxAllowedInputBytes))
          ''max_input_bytes'' False)
      else let bad = NewError ErrorCodeInvalidSchema ''timeout must be positive and at most 1m'' ''timeout'' False
           in case parse_duration (cf_TimeoutText c) of
                None \<Rightarrow> Inl bad
              | Some duration \<Rightarrow>
                  if duration \<le> 0 \<or> duration > 60 * 10 ^ 9 then Inl bad
                  else if cf_Format c \<noteq> ''text'' \<and> cf_Format c \<noteq> ''json'' then
                    Inl (NewError ErrorCodeInvalidSchema ''format must be text or json'' ''format'' False)
                  else Inr (c\<lparr> cf_Timeout := duration \<rparr>))"

section \<open>The file\<close>

datatype trailing = Trailing_End | Trailing_Value | Trailing_Garbage

record config_env =
  ce_cancelled :: "nat \<Rightarrow> bool"
  ce_stat :: "bool option"
  ce_open :: bool
  ce_content :: "string option"
  ce_close_fails :: bool
  ce_decode :: "string \<Rightarrow> (file_config \<times> trailing) option"
  ce_duration :: "string \<Rightarrow> int option"

definition set_field :: "string \<Rightarrow> 'v option \<Rightarrow> ('v \<Rightarrow> config \<Rightarrow> config) \<Rightarrow> config \<Rightarrow> config" where
  "set_field name v put c =
     (case v of None \<Rightarrow> c | Some x \<Rightarrow> (put x c)\<lparr> cf_Provenance := (cf_Provenance c)(name \<mapsto> ''file'') \<rparr>)"

definition merge_file :: "file_config \<Rightarrow> config \<Rightarrow> config" where
  "merge_file f c =
     set_field ''format'' (fc_Format f) (\<lambda>v c. c\<lparr> cf_Format := v \<rparr>)
    (set_field ''timeout'' (fc_Timeout f) (\<lambda>v c. c\<lparr> cf_TimeoutText := v \<rparr>)
    (set_field ''max_input_bytes'' (fc_MaxInputBytes f) (\<lambda>v c. c\<lparr> cf_MaxInputBytes := v \<rparr>)
    (set_field ''host_permission'' (fc_HostPermission f) (\<lambda>v c. c\<lparr> cf_HostPermission := v \<rparr>)
    (set_field ''execution_policy'' (fc_ExecutionPolicy f) (\<lambda>v c. c\<lparr> cf_ExecutionPolicy := v \<rparr>) c))))"

definition cancelled_read :: stable_error where
  "cancelled_read = configError ErrorCodeBudgetExhausted ''configuration read cancelled or timed out'' True"

definition config_decode :: "config_env \<Rightarrow> string \<Rightarrow> file_config go_result" where
  "config_decode env data =
     (case ce_decode env data of
        None \<Rightarrow> Inl (NewError ErrorCodeInvalidSchema ''invalid configuration'' ''config'' False)
      | Some (f, Trailing_Value) \<Rightarrow> Inl (configError ErrorCodeInvalidSchema ''configuration contains multiple values'' False)
      | Some (f, Trailing_Garbage) \<Rightarrow> Inl (configError ErrorCodeInvalidSchema ''invalid trailing configuration data'' False)
      | Some (f, Trailing_End) \<Rightarrow> Inr f)"

text \<open>At most one byte more than the limit is read.\<close>

definition LoadFile :: "config_env \<Rightarrow> config go_result" where
  "LoadFile env =
     (let missing = NewError ErrorCodeNotFound ''configuration file unavailable'' ''config'' False
      in if ce_cancelled env 0 then Inl cancelled_read
         else case ce_stat env of
             None \<Rightarrow> Inl missing
           | Some regular \<Rightarrow>
               if \<not> regular then Inl (configError ErrorCodeInvalidSchema ''configuration must be a regular file'' False)
               else if \<not> ce_open env then Inl missing
               else case ce_content env of
                   None \<Rightarrow> Inl (NewError ErrorCodeInternal ''configuration read failed'' ''config'' True)
                 | Some content \<Rightarrow>
                     let data = take (maxConfigBytes + 1) content
                     in if ce_close_fails env then Inl (NewError ErrorCodeInternal ''configuration close failed'' ''config'' True)
                        else if ce_cancelled env 1 then Inl cancelled_read
                        else if length data > maxConfigBytes
                          then Inl (configError ErrorCodeInvalidSchema ''configuration exceeds 65536 bytes'' False)
                        else bind_result (config_decode env data) (\<lambda>f.
                          config_Validate (ce_duration env) (merge_file f config_Default)))"

section \<open>Properties\<close>

lemma set_field_sel:
  "cf_ExecutionPolicy (set_field name v put c) = case_option (cf_ExecutionPolicy c) (\<lambda>x. cf_ExecutionPolicy (put x c)) v"
  "cf_HostPermission (set_field name v put c) = case_option (cf_HostPermission c) (\<lambda>x. cf_HostPermission (put x c)) v"
  "cf_MaxInputBytes (set_field name v put c) = case_option (cf_MaxInputBytes c) (\<lambda>x. cf_MaxInputBytes (put x c)) v"
  "cf_TimeoutText (set_field name v put c) = case_option (cf_TimeoutText c) (\<lambda>x. cf_TimeoutText (put x c)) v"
  "cf_Format (set_field name v put c) = case_option (cf_Format c) (\<lambda>x. cf_Format (put x c)) v"
  "cf_Provenance (set_field name v put c) = (if v = None then cf_Provenance c else (cf_Provenance c)(name \<mapsto> ''file''))"
  by (cases v; simp add: set_field_def)+

lemma case_option_same [simp]:
  "case_option x (\<lambda>_. x) v = x"
  by (cases v) simp_all

text \<open>A loaded configuration is safe and its provenance is true. The policy and the permission are known
  ones, the input limit lies between one byte and a mebibyte, the timeout is what the text says and at
  most a minute, the format is text or json; every field has the value the file gives it and the
  default where the file is silent, and its recorded origin says which; the whole file was read.\<close>

theorem loaded_config_valid:
  assumes "LoadFile env = Inr c"
  shows "\<exists>content f. ce_content env = Some content \<and> length content \<le> 65536 \<and> ce_decode env content = Some (f, Trailing_End) \<and>
    ValidExecutionPolicy (cf_ExecutionPolicy c) \<and> ValidHostPermission (cf_HostPermission c) \<and>
    1 \<le> cf_MaxInputBytes c \<and> cf_MaxInputBytes c \<le> 2 ^ 20 \<and> ce_duration env (cf_TimeoutText c) = Some (cf_Timeout c) \<and>
    0 < cf_Timeout c \<and> cf_Timeout c \<le> 60 * 10 ^ 9 \<and> cf_Format c \<in> {''text'', ''json''} \<and>
    cf_ExecutionPolicy c = case_option ExecutionPolicyImproveOnly id (fc_ExecutionPolicy f) \<and>
    cf_HostPermission c = case_option HostUnknown id (fc_HostPermission f) \<and>
    cf_MaxInputBytes c = case_option 16384 id (fc_MaxInputBytes f) \<and>
    cf_TimeoutText c = case_option ''2s'' id (fc_Timeout f) \<and> cf_Format c = case_option ''text'' id (fc_Format f) \<and>
    (cf_Provenance c ''execution_policy'' = Some (if fc_ExecutionPolicy f = None then ''default'' else ''file'')) \<and>
    (cf_Provenance c ''timeout'' = Some (if fc_Timeout f = None then ''default'' else ''file''))"
proof -
  obtain content f where f: "ce_content env = Some content" "\<not> length (take (maxConfigBytes + 1) content) > maxConfigBytes"
    "config_decode env (take (maxConfigBytes + 1) content) = Inr f"
    "config_Validate (ce_duration env) (merge_file f config_Default) = Inr c"
    using assms by (auto simp: LoadFile_def Let_def bind_result_eq_Inr split: if_splits option.splits)
  have len: "length content \<le> 65536"
    using f(2) by (simp add: maxConfigBytes_def min_def split: if_splits)
  then have "take (maxConfigBytes + 1) content = content"
    by (simp add: maxConfigBytes_def)
  then have decode: "ce_decode env content = Some (f, Trailing_End)"
    using f(3) by (auto simp: config_decode_def split: option.splits trailing.splits)
  have "\<exists>d. c = (merge_file f config_Default)\<lparr> cf_Timeout := d \<rparr>"
    and ok: "ValidExecutionPolicy (cf_ExecutionPolicy c)" "ValidHostPermission (cf_HostPermission c)"
      "1 \<le> cf_MaxInputBytes c" "cf_MaxInputBytes c \<le> 2 ^ 20" "ce_duration env (cf_TimeoutText c) = Some (cf_Timeout c)"
      "0 < cf_Timeout c" "cf_Timeout c \<le> 60 * 10 ^ 9" "cf_Format c \<in> {''text'', ''json''}"
    using f(4) by (auto simp: config_Validate_def MaxAllowedInputBytes_def Let_def split: if_splits option.splits)
  then obtain d where c: "c = (merge_file f config_Default)\<lparr> cf_Timeout := d \<rparr>"
    by blast
  have merged: "cf_ExecutionPolicy (merge_file f config_Default) = case_option ExecutionPolicyImproveOnly id (fc_ExecutionPolicy f)"
    "cf_HostPermission (merge_file f config_Default) = case_option HostUnknown id (fc_HostPermission f)"
    "cf_MaxInputBytes (merge_file f config_Default) = case_option 16384 id (fc_MaxInputBytes f)"
    "cf_TimeoutText (merge_file f config_Default) = case_option ''2s'' id (fc_Timeout f)"
    "cf_Format (merge_file f config_Default) = case_option ''text'' id (fc_Format f)"
    by (simp_all add: merge_file_def set_field_sel config_Default_def id_def cong: option.case_cong)
  have origins: "cf_Provenance (merge_file f config_Default) ''execution_policy'' =
      Some (if fc_ExecutionPolicy f = None then ''default'' else ''file'')"
    "cf_Provenance (merge_file f config_Default) ''host_permission'' = Some (if fc_HostPermission f = None then ''default'' else ''file'')"
    "cf_Provenance (merge_file f config_Default) ''max_input_bytes'' = Some (if fc_MaxInputBytes f = None then ''default'' else ''file'')"
    "cf_Provenance (merge_file f config_Default) ''timeout'' = Some (if fc_Timeout f = None then ''default'' else ''file'')"
    "cf_Provenance (merge_file f config_Default) ''format'' = Some (if fc_Format f = None then ''default'' else ''file'')"
    by (simp_all add: merge_file_def set_field_sel config_Default_def)
  have sel: "cf_ExecutionPolicy c = cf_ExecutionPolicy (merge_file f config_Default)"
    "cf_HostPermission c = cf_HostPermission (merge_file f config_Default)"
    "cf_MaxInputBytes c = cf_MaxInputBytes (merge_file f config_Default)"
    "cf_TimeoutText c = cf_TimeoutText (merge_file f config_Default)" "cf_Format c = cf_Format (merge_file f config_Default)"
    "cf_Provenance c = cf_Provenance (merge_file f config_Default)"
    by (simp_all add: c)
  show ?thesis
    using f(1) len decode ok merged origins unfolding sel by (intro exI [of _ content] exI [of _ f]) (intro conjI; assumption)
qed

definition sample_config_env :: config_env where
  "sample_config_env = \<lparr> ce_cancelled = (\<lambda>_. False), ce_stat = Some True, ce_open = True, ce_content = Some ''{}'',
     ce_close_fails = False, ce_decode = (\<lambda>_. Some (\<lparr> fc_ExecutionPolicy = None, fc_HostPermission = None, fc_MaxInputBytes = Some 10,
       fc_Timeout = None, fc_Format = None \<rparr>, Trailing_End)), ce_duration = (\<lambda>_. Some 2) \<rparr>"

theorem loaded_config_valid_witness:
  "\<exists>c. LoadFile sample_config_env = Inr c \<and> cf_MaxInputBytes c \<le> 2 ^ 20 \<and> cf_Format c \<in> {''text'', ''json''}"
proof -
  have "\<exists>c. LoadFile sample_config_env = Inr c"
    by (simp add: LoadFile_def sample_config_env_def maxConfigBytes_def config_decode_def config_Validate_def merge_file_def
        set_field_def config_Default_def ValidExecutionPolicy_def ValidHostPermission_def MaxAllowedInputBytes_def Let_def)
  then obtain c where c: "LoadFile sample_config_env = Inr c"
    by blast
  from loaded_config_valid [OF this] c show ?thesis
    by (intro exI [of _ c]) blast
qed

end
