(* ===== verification/Textutil.thy ===== *)
theory Textutil
  imports Contracts
begin

text \<open>
  \<open>internal/textutil/normalize.go\<close>: the normal form of every text a request carries. Line
  endings become LF, trailing blanks go, runs of blank lines collapse to one.
\<close>

section \<open>Model\<close>

text \<open>One pass of the loop over the lines: the flag \<open>blank\<close> and the slice \<open>out\<close>.\<close>

definition normalize_line :: "bool \<times> string list \<Rightarrow> string \<Rightarrow> bool \<times> string list" where
  "normalize_line st line =
     (let (blank, out) = st; line = trim_right_set [CHR '' '', TAB] line in
      if trim_space line = [] then
        if blank \<or> out = [] then st else (True, out @ [[]])
      else (False, out @ [line]))"

text \<open>The loop that drops empty lines at the end.\<close>

fun drop_trailing_empty :: "string list \<Rightarrow> string list" where
  "drop_trailing_empty out =
     (if out \<noteq> [] \<and> last out = [] then drop_trailing_empty (butlast out) else out)"

declare drop_trailing_empty.simps [simp del]

definition Normalize :: "string \<Rightarrow> string go_result" where
  "Normalize input =
     (if \<not> valid_utf8 input then
        Inl (NewError ErrorCodeInvalidSchema ''input must be valid UTF-8'' ''input'' False)
      else
        let input = crlf_to_lf input;
            input = replace_byte CR LF input;
            out = drop_trailing_empty
                    (snd (foldl normalize_line (False, []) (split_on LF input)));
            value = trim_space (join [LF] out)
        in if value = [] then
             Inl (NewError ErrorCodeInvalidSchema ''input must not be empty'' ''input'' False)
           else Inr value)"

section \<open>Library\<close>

lemma drop_trailing_empty_id: "ls = [] \<or> last ls \<noteq> [] \<Longrightarrow> drop_trailing_empty ls = ls"
  by (subst drop_trailing_empty.simps) auto

text \<open>The lines of a normal form.\<close>

definition no_double_blank :: "string list \<Rightarrow> bool" where
  "no_double_blank ls = successively (\<lambda>a b. a \<noteq> [] \<or> b \<noteq> []) ls"

definition clean_line :: "string \<Rightarrow> bool" where
  "clean_line l \<longleftrightarrow>
     valid_utf8 l \<and> CR \<notin> set l \<and> LF \<notin> set l \<and> trim_right_set [CHR '' '', TAB] l = l \<and>
     (trim_space l = [] \<longrightarrow> l = [])"

definition clean_lines :: "string list \<Rightarrow> bool" where
  "clean_lines ls \<longleftrightarrow> (\<forall>l \<in> set ls. clean_line l) \<and> no_double_blank ls \<and> (ls \<noteq> [] \<longrightarrow> hd ls \<noteq> [])"

definition normal_lines :: "string list \<Rightarrow> bool" where
  "normal_lines ls \<longleftrightarrow> clean_lines ls \<and> ls \<noteq> [] \<and> last ls \<noteq> []"

lemma no_double_blank_snoc:
  "no_double_blank (ls @ [l]) \<longleftrightarrow>
     no_double_blank ls \<and> (ls \<noteq> [] \<longrightarrow> last ls \<noteq> [] \<or> l \<noteq> [])"
  by (cases "ls = []") (auto simp: no_double_blank_def successively_append_iff)

lemma no_double_blank_short [simp]: "no_double_blank []" "no_double_blank [l]"
  by (simp_all add: no_double_blank_def)

lemma clean_lines_snoc:
  "clean_lines (ls @ [l]) \<longleftrightarrow> clean_lines ls \<and> clean_line l \<and>
     (if ls = [] then l \<noteq> [] else last ls \<noteq> [] \<or> l \<noteq> [])"
  by (cases "ls = []") (auto simp: clean_lines_def no_double_blank_snoc)

definition loop_inv :: "bool \<times> string list \<Rightarrow> bool" where
  "loop_inv st \<longleftrightarrow>
     clean_lines (snd st) \<and> (fst st \<longleftrightarrow> snd st \<noteq> [] \<and> last (snd st) = [])"

lemma clean_line_trim:
  assumes "valid_utf8 l" and "CR \<notin> set l" and "LF \<notin> set l"
    and "trim_space (trim_right_set [CHR '' '', TAB] l) \<noteq> []"
  shows "clean_line (trim_right_set [CHR '' '', TAB] l)"
  using assms set_trim_right_set [of "[CHR '' '', TAB]" l]
  by (auto simp: clean_line_def valid_utf8_trim_right_set)

lemma clean_line_Nil [simp]: "clean_line []"
  by (simp add: clean_line_def trim_right_set_def)

lemma normalize_line_inv:
  assumes "loop_inv st" and "valid_utf8 l" and "CR \<notin> set l" and "LF \<notin> set l"
  shows "loop_inv (normalize_line st l)"
proof -
  obtain blank out where st: "st = (blank, out)" by (cases st)
  show ?thesis
    using assms clean_line_trim [OF assms(2-4)]
    by (auto simp: st normalize_line_def loop_inv_def clean_lines_snoc Let_def)
qed

lemma foldl_normalize_line_inv:
  "loop_inv st \<Longrightarrow> \<forall>l \<in> set ls. valid_utf8 l \<and> CR \<notin> set l \<and> LF \<notin> set l \<Longrightarrow>
   loop_inv (foldl normalize_line st ls)"
  by (induction ls arbitrary: st) (auto simp: normalize_line_inv)

lemma drop_trailing_empty_normal:
  "clean_lines ls \<Longrightarrow> drop_trailing_empty ls = [] \<or> normal_lines (drop_trailing_empty ls)"
proof (induction ls rule: drop_trailing_empty.induct)
  case (1 ls)
  show ?case
  proof (cases "ls \<noteq> [] \<and> last ls = []")
    case True
    then obtain ms where "ls = ms @ [[]]" by (metis append_butlast_last_id)
    with 1 show ?thesis
      by (subst (1 2) drop_trailing_empty.simps) (simp add: clean_lines_snoc)
  next
    case False
    with 1(2) show ?thesis
      by (subst (1 2) drop_trailing_empty.simps) (auto simp: normal_lines_def)
  qed
qed

text \<open>The loop leaves normal lines alone.\<close>

lemma foldl_normalize_line_clean:
  "clean_lines ls \<Longrightarrow>
   foldl normalize_line (False, []) ls = (ls \<noteq> [] \<and> last ls = [], ls)"
proof (induction ls rule: rev_induct)
  case (snoc l ls)
  then have "clean_lines ls" "clean_line l" by (simp_all add: clean_lines_snoc)
  with snoc show ?case
    by (auto simp: normalize_line_def clean_lines_snoc clean_line_def split: if_splits)
qed simp

lemma Normalize_normal_lines:
  assumes "normal_lines ls" and "trim_space (join [LF] ls) = join [LF] ls"
  shows "Normalize (join [LF] ls) = Inr (join [LF] ls)"
proof -
  let ?v = "join [LF] ls"
  have ls: "\<forall>l \<in> set ls. valid_utf8 l \<and> CR \<notin> set l \<and> LF \<notin> set l" "ls \<noteq> []" "hd ls \<noteq> []"
    "last ls \<noteq> []" and clean: "clean_lines ls"
    using assms(1) by (auto simp: normal_lines_def clean_lines_def clean_line_def)
  have valid: "valid_utf8 ?v"
    using ls by (intro valid_utf8_join) auto
  have cr: "CR \<notin> set ?v"
    using ls(1) by (induction "[LF]" ls rule: join.induct) auto
  have ne: "?v \<noteq> []"
    using ls(2,3) by (cases ls; cases "tl ls") auto
  have "drop_trailing_empty ls = ls"
    using ls(4) by (simp add: drop_trailing_empty_id)
  then show ?thesis
    using valid cr ne ls assms(2)
    by (simp add: Normalize_def crlf_to_lf_id replace_byte_id split_on_join
        foldl_normalize_line_clean [OF clean])
qed

text \<open>Trimming the joined lines keeps them normal: only the first and the last line change.\<close>

lemma last_trim_right_space:
  assumes "trim_right_space l \<noteq> []"
  shows "last (trim_right_space l) \<notin> set [CHR '' '', TAB]"
  using trim_right_space_fix [of l] assms
  by (auto simp: decode_last_rune_def is_space_def)

lemma clean_line_trim_left:
  assumes "clean_line l" and "l \<noteq> []"
  shows "clean_line (trim_left_space l)" and "trim_left_space l \<noteq> []"
proof -
  have l: "valid_utf8 l" "trim_space l \<noteq> []" using assms by (auto simp: clean_line_def)
  show ne: "trim_left_space l \<noteq> []" using l trim_sides_blank(1) by simp
  have suf: "suffix (trim_left_space l) l" by (rule trim_left_space_suffix)
  then have "last (trim_left_space l) = last l"
    using ne by (metis last_append suffixE)
  moreover have "trim_space (trim_left_space l) \<noteq> []"
    using l ne trim_sides_blank(1) [OF valid_utf8_trim(1) [OF l(1)]] trim_left_space_fix
    by (metis trim_left_space_id)
  ultimately show "clean_line (trim_left_space l)"
    using assms set_mono_suffix [OF suf] l(1)
    by (auto simp: clean_line_def trim_right_set_self valid_utf8_trim)
qed

lemma clean_line_trim_right:
  assumes "clean_line l" and "l \<noteq> []"
  shows "clean_line (trim_right_space l)" and "trim_right_space l \<noteq> []"
proof -
  have l: "valid_utf8 l" "trim_space l \<noteq> []" using assms by (auto simp: clean_line_def)
  show ne: "trim_right_space l \<noteq> []" using l trim_sides_blank(2) by simp
  have "trim_space (trim_right_space l) \<noteq> []"
    using l ne trim_sides_blank(2) [OF valid_utf8_trim(2) [OF l(1)]] trim_right_space_fix
    by (metis trim_right_space_id)
  with ne show "clean_line (trim_right_space l)"
    using assms set_mono_prefix [OF trim_right_space_prefix [of l]] l(1)
      last_trim_right_space [OF ne]
    by (auto simp: clean_line_def trim_right_set_self valid_utf8_trim)
qed

lemma normal_lines_Cons:
  "normal_lines (l # ls) \<Longrightarrow> clean_line l' \<Longrightarrow> l' \<noteq> [] \<Longrightarrow> normal_lines (l' # ls)"
  by (cases ls) (auto simp: normal_lines_def clean_lines_def no_double_blank_def)

lemma normal_lines_snoc:
  "normal_lines (ls @ [l]) \<Longrightarrow> clean_line l' \<Longrightarrow> l' \<noteq> [] \<Longrightarrow> normal_lines (ls @ [l'])"
  by (cases "ls = []") (auto simp: normal_lines_def clean_lines_def no_double_blank_snoc)

lemma trim_left_normal:
  assumes "normal_lines ls"
  shows "\<exists>ms. normal_lines ms \<and> trim_left_space (join [LF] ls) = join [LF] ms"
proof -
  obtain l rest where ls: "ls = l # rest" using assms by (cases ls) (auto simp: normal_lines_def)
  with assms have l: "clean_line l" "l \<noteq> []" and rest: "\<forall>x \<in> set rest. valid_utf8 x"
    by (auto simp: normal_lines_def clean_lines_def clean_line_def)
  note left = clean_line_trim_left [OF l]
  have "trim_left_space (join [LF] ls) = join [LF] (trim_left_space l # rest)"
  proof (cases "rest = []")
    case False
    have "valid_utf8 (LF # join [LF] rest)"
      using rest valid_utf8_join [of "[LF]" rest] by simp
    then show ?thesis
      using False l left by (simp add: ls join_Cons trim_left_space_append clean_line_def)
  qed (simp add: ls)
  with normal_lines_Cons [OF assms [unfolded ls] left] show ?thesis by blast
qed

lemma trim_right_normal:
  assumes "normal_lines ls"
  shows "\<exists>ms. normal_lines ms \<and> trim_right_space (join [LF] ls) = join [LF] ms"
proof -
  obtain l rest where ls: "ls = rest @ [l]"
    using assms by (cases ls rule: rev_cases) (auto simp: normal_lines_def)
  with assms have l: "clean_line l" "l \<noteq> []" and rest: "\<forall>x \<in> set rest. valid_utf8 x"
    by (auto simp: normal_lines_def clean_lines_def clean_line_def)
  note right = clean_line_trim_right [OF l]
  have "trim_right_space (join [LF] ls) = join [LF] (rest @ [trim_right_space l])"
  proof (cases "rest = []")
    case False
    have "valid_utf8 (join [LF] rest @ [LF])"
      using rest valid_utf8_join [of "[LF]" rest] by (intro valid_utf8_append) auto
    with l right have "trim_right_space ((join [LF] rest @ [LF]) @ l)
        = (join [LF] rest @ [LF]) @ trim_right_space l"
      by (intro trim_right_space_append) (auto simp: clean_line_def)
    with False show ?thesis by (simp add: ls join_snoc)
  qed (simp add: ls)
  with normal_lines_snoc [OF assms [unfolded ls] right] show ?thesis by blast
qed

lemma Normalize_result:
  assumes "Normalize input = Inr v"
  shows "\<exists>ls. normal_lines ls \<and> v = join [LF] ls \<and> trim_space v = v"
proof -
  let ?text = "replace_byte CR LF (crlf_to_lf input)"
  let ?out = "snd (foldl normalize_line (False, []) (split_on LF ?text))"
  have valid: "valid_utf8 input" and v: "v = trim_space (join [LF] (drop_trailing_empty ?out))"
    and ne: "v \<noteq> []"
    using assms by (auto simp: Normalize_def Let_def split: if_splits)
  have "\<forall>l \<in> set (split_on LF ?text). valid_utf8 l \<and> CR \<notin> set l \<and> LF \<notin> set l"
  proof (intro ballI conjI)
    fix l assume l: "l \<in> set (split_on LF ?text)"
    show "valid_utf8 l" using valid_utf8_split_on [OF _ valid_utf8_crlf_to_lf [OF valid] l] by simp
    show "LF \<notin> set l" using l by (rule split_on_no_sep)
    have "set (join [LF] (split_on LF ?text)) = set ?text" by (simp add: join_split_on)
    moreover have "set l \<subseteq> set (join [LF] (split_on LF ?text))"
      using l by (rule set_join)
    moreover have "CR \<notin> set ?text" by (rule replace_byte_absent) simp
    ultimately show "CR \<notin> set l" by blast
  qed
  then have "clean_lines ?out"
    using foldl_normalize_line_inv [of "(False, [])" "split_on LF ?text"]
    by (simp add: loop_inv_def clean_lines_def no_double_blank_def)
  then have "normal_lines (drop_trailing_empty ?out)"
    using drop_trailing_empty_normal ne v by fastforce
  then obtain ms where "normal_lines ms" "trim_left_space (join [LF] (drop_trailing_empty ?out)) =
      join [LF] ms" using trim_left_normal by blast
  then show ?thesis
    using trim_right_normal [of ms] v by (auto simp: trim_space_def) (metis trim_space_def trim_space_idem)
qed

lemma split_on_append:
  "split_on sep (p @ sep # q) = split_on sep p @ split_on sep q"
proof (induction p)
  case (Cons c p)
  obtain l ls where "split_on sep p = l # ls" by (cases "split_on sep p") auto
  with Cons show ?case by auto
qed simp

lemma join_no_triple:
  assumes "normal_lines ls"
  shows "\<not> sublist [LF, LF, LF] (join [LF] ls)"
proof
  assume "sublist [LF, LF, LF] (join [LF] ls)"
  then obtain p q where "join [LF] ls = p @ LF # LF # LF # q"
    by (auto simp: sublist_def)
  moreover have "split_on LF (join [LF] ls) = ls"
    using assms
    by (intro split_on_join) (auto simp: normal_lines_def clean_lines_def clean_line_def)
  ultimately have "ls = split_on LF p @ [] # [] # split_on LF q"
    by (simp add: split_on_append)
  with assms show False
    by (auto simp: normal_lines_def clean_lines_def no_double_blank_def successively_append_iff)
qed

lemma Normalize_fix: "Normalize ''Fix'' = Inr ''Fix''"
  by (simp add: Normalize_def valid_utf8_ascii replace_byte_def normalize_line_def trim_right_set_def
      trim_space_ascii space_byte_def is_space_def drop_trailing_empty_id)

section \<open>Properties\<close>

text \<open>Normalisation reaches a normal form. A normalised text is not empty, valid
  UTF-8, free of carriage returns, of blank space at its ends and of two
  consecutive blank lines, and normalising it again changes nothing.\<close>

theorem normalize_canonical:
  assumes "Normalize input = Inr v"
  shows "Normalize v = Inr v \<and> v \<noteq> [] \<and> valid_utf8 v \<and> CR \<notin> set v \<and> trim_space v = v \<and>
    \<not> str_contains v [LF, LF, LF]"
proof -
  obtain ls where ls: "normal_lines ls" "v = join [LF] ls" "trim_space v = v"
    using Normalize_result [OF assms] by blast
  have idem: "Normalize v = Inr v" using ls Normalize_normal_lines by simp
  then have "valid_utf8 v" "v \<noteq> []" by (auto simp: Normalize_def Let_def split: if_splits)
  moreover have "CR \<notin> set v"
    using ls(1) by (auto simp: ls(2) normal_lines_def clean_lines_def clean_line_def dest!: in_set_join)
  moreover have "\<not> str_contains v [LF, LF, LF]"
    using join_no_triple [OF ls(1)] by (simp add: str_contains_iff ls(2))
  ultimately show ?thesis using idem ls(3) by blast
qed

theorem normalize_canonical_witness:
  "Normalize (''  Go'' @ [CR, LF, CHR ''a'', CHR '' '', CR, LF, LF, LF, CHR ''b'']) =
     Inr (''Go'' @ [LF, CHR ''a'', LF, LF, CHR ''b'']) \<and>
   Normalize (''Go'' @ [LF, CHR ''a'', LF, LF, CHR ''b'']) =
     Inr (''Go'' @ [LF, CHR ''a'', LF, LF, CHR ''b''])"
proof -
  have "Normalize (''  Go'' @ [CR, LF, CHR ''a'', CHR '' '', CR, LF, LF, LF, CHR ''b'']) =
      Inr (''Go'' @ [LF, CHR ''a'', LF, LF, CHR ''b''])"
    by (simp add: Normalize_def valid_utf8_ascii replace_byte_def normalize_line_def trim_right_set_def
        trim_space_ascii space_byte_def is_space_def drop_trailing_empty_id)
  with normalize_canonical [OF this] show ?thesis by blast
qed

end
