(* ===== verification/Compiler.thy ===== *)
theory Compiler
  imports Policy Textutil
begin

text \<open>
  \<open>internal/compiler/compiler.go\<close>: validation of plans and budgets, rendering of a plan into
  the sectioned prompt, recognition of prompts that are already compiled, and the three
  compiling entry points.

  A context is the sequence of answers its successive polls give: \<open>ctx n\<close> holds when the
  \<open>n\<close>-th poll of one call finds it cancelled. \<open>uc\<close> is \<open>unicode.ToLower\<close> above ASCII.
\<close>

type_synonym poll_context = "nat \<Rightarrow> bool"

section \<open>Errors and small validators\<close>

definition compiler_invalid :: "string \<Rightarrow> string \<Rightarrow> stable_error" where
  "compiler_invalid message field = NewError ErrorCodeInvalidSchema message field False"

definition semanticInvalid :: "string \<Rightarrow> string \<Rightarrow> stable_error" where
  "semanticInvalid message field = NewError ErrorCodeSemanticInvalid message field False"

definition checkContext :: "poll_context \<Rightarrow> nat \<Rightarrow> unit go_result" where
  "checkContext ctx n =
     guard_result (ctx n)
       (NewError ErrorCodeBudgetExhausted ''operation cancelled or timed out'' ''context'' True)"

definition pl_validText :: "string \<Rightarrow> nat \<Rightarrow> bool \<Rightarrow> bool" where
  "pl_validText value limit required =
     (if \<not> valid_utf8 value \<or> length value > limit then False
      else \<not> required \<or> trim_space value \<noteq> [])"

definition pl_validateList :: "string list \<Rightarrow> bool \<Rightarrow> unit go_result" where
  "pl_validateList values required =
     (if required \<and> length values = 0 \<or> length values > 50 then
        Inl (compiler_invalid ''invalid list size'' ''prompt_plan'')
      else check_each (\<lambda>value. guard_result (\<not> pl_validText value 1000 True)
        (compiler_invalid ''invalid list item'' ''prompt_plan'')) values)"

definition within_range :: "int option \<Rightarrow> int \<Rightarrow> int \<Rightarrow> bool" where
  "within_range value lo hi = (case value of None \<Rightarrow> True | Some v \<Rightarrow> v \<ge> lo \<and> v \<le> hi)"

definition oneOf :: "string \<Rightarrow> string list \<Rightarrow> bool" where
  "oneOf value allowed = list_ex (\<lambda>candidate. value = candidate) allowed"

section \<open>Plans\<close>

definition defaultPlan :: "string \<Rightarrow> prompt_plan" where
  "defaultPlan intent =
     \<lparr>pp_SchemaVersion = SchemaVersion, pp_Role = [], pp_Personality = [],
      pp_CollaborationStyle = [], pp_Goal = intent,
      pp_SuccessCriteria =
        [''Complete the requested outcome without dropping stated requirements.''],
      pp_Invariants =
        [''Preserve explicit facts, decisions, caveats, language, safety, privacy, and authorization boundaries.''],
      pp_DecisionRules = [''Ask only when material ambiguity prevents a safe result.''],
      pp_EvidenceRequirements =
        [''Use the evidence required by the request; do not invent support.''],
      pp_Tools = [''Use only task-relevant tools within granted permissions.''],
      pp_OutputContract = ''Return the requested artifact and material next action.'',
      pp_OutputLanguage = [],
      pp_ApprovalBoundary =
        ''Do not execute, expand scope, or take external action without applicable authorization.'',
      pp_PhaseScope = ''design'',
      pp_StopRules =
        [''Stop when the result is validated; if blocked, report the blocker and next safe action.''],
      pp_FallbackRules =
        [''Return the safest useful partial result with missing evidence identified.''],
      pp_AbstainRules = [''Abstain from unsafe, unauthorized, or unsupported claims.''],
      pp_ValidationBar =
        [''Check the artifact against the goal, constraints, evidence, and requested format.''],
      pp_ArtifactPriorities = [], pp_StablePrefix = None, pp_DynamicTail = None,
      pp_Scope = [], pp_NonGoals = [], pp_Gates = []\<rparr>"

definition NewPlan :: "string \<Rightarrow> prompt_plan" where
  "NewPlan intent = defaultPlan intent"

definition plan_required :: "prompt_plan \<Rightarrow> (string \<times> string list) list" where
  "plan_required plan =
     [(''success_criteria'', pp_SuccessCriteria plan),
      (''invariants'', pp_Invariants plan),
      (''decision_rules'', pp_DecisionRules plan),
      (''evidence_requirements'', pp_EvidenceRequirements plan),
      (''tools'', pp_Tools plan),
      (''stop_rules'', pp_StopRules plan),
      (''fallback_rules'', pp_FallbackRules plan),
      (''abstain_rules'', pp_AbstainRules plan),
      (''validation_bar'', pp_ValidationBar plan)]"

definition validatePlan :: "prompt_plan \<Rightarrow> unit go_result" where
  "validatePlan plan =
     (if pp_SchemaVersion plan \<noteq> SchemaVersion then
        Inl (compiler_invalid ''prompt plan must use schema 1.0.0'' ''prompt_plan.schema_version'')
      else if \<not> pl_validText (pp_Goal plan) 2000 True then
        Inl (compiler_invalid ''prompt plan goal is required'' ''prompt_plan.goal'')
      else bind_result
        (check_each (\<lambda>(name, values). guard_result (is_error (pl_validateList values True))
           (compiler_invalid (name @ '' is required'') (''prompt_plan.'' @ name)))
         (plan_required plan)) (\<lambda>_.
      bind_result
        (guard_result (length (pp_ArtifactPriorities plan) > 0 \<and>
           is_error (pl_validateList (pp_ArtifactPriorities plan) False))
           (compiler_invalid ''invalid artifact priorities'' ''prompt_plan.artifact_priorities'')) (\<lambda>_.
      bind_result
        (check_each (\<lambda>(name, values). guard_result
           (length values > 0 \<and> is_error (pl_validateList values False))
           (compiler_invalid (''invalid '' @ name) (''prompt_plan.'' @ name)))
         [(''scope'', pp_Scope plan), (''non_goals'', pp_NonGoals plan), (''gates'', pp_Gates plan)]) (\<lambda>_.
      if \<not> pl_validText (pp_OutputContract plan) 2000 True \<or>
         \<not> pl_validText (pp_ApprovalBoundary plan) 1000 True then
        Inl (compiler_invalid ''output, approval, and phase contracts are required'' ''prompt_plan'')
      else if \<not> validPhase (pp_PhaseScope plan) then
        Inl (compiler_invalid ''invalid phase scope'' ''prompt_plan.phase_scope'')
      else bind_result
        (check_each (\<lambda>(name, value). guard_result (\<not> pl_validText value 500 False)
           (compiler_invalid (name @ '' exceeds 500 bytes'') (''prompt_plan.'' @ name)))
         [(''role'', pp_Role plan), (''personality'', pp_Personality plan),
          (''collaboration_style'', pp_CollaborationStyle plan)]) (\<lambda>_.
      if \<not> pl_validText (pp_OutputLanguage plan) 80 False then
        Inl (compiler_invalid ''output language exceeds 80 bytes'' ''prompt_plan.output_language'')
      else if (case pp_StablePrefix plan of None \<Rightarrow> False | Some t \<Rightarrow> \<not> pl_validText t 4000 False) then
        Inl (compiler_invalid ''stable prefix exceeds 4000 bytes'' ''prompt_plan.stable_prefix'')
      else if (case pp_DynamicTail plan of None \<Rightarrow> False | Some t \<Rightarrow> \<not> pl_validText t 4000 False) then
        Inl (compiler_invalid ''dynamic tail exceeds 4000 bytes'' ''prompt_plan.dynamic_tail'')
      else Inr ())))))"

section \<open>Budgets\<close>

fun check_phases :: "string set \<Rightarrow> string list \<Rightarrow> unit go_result" where
  "check_phases seen [] = Inr ()"
| "check_phases seen (phase # phases) =
     (if \<not> validPhase phase \<or> phase \<in> seen then
        Inl (compiler_invalid ''invalid or duplicate active phase'' ''budget.active_phases'')
      else check_phases (insert phase seen) phases)"

definition validateBudget :: "execution_budget \<Rightarrow> unit go_result" where
  "validateBudget b =
     (if eb_SchemaVersion b \<noteq> SchemaVersion then
        Inl (compiler_invalid ''execution budget must use schema 1.0.0'' ''budget.schema_version'')
      else if eb_Enforcement b \<noteq> ''host_enforced'' \<and> eb_Enforcement b \<noteq> ''advisory'' \<and>
              eb_Enforcement b \<noteq> ''unknown'' then
        Inl (compiler_invalid ''invalid budget enforcement'' ''budget.enforcement'')
      else if length (eb_ActivePhases b) = 0 then
        Inl (compiler_invalid ''active phases are required'' ''budget.active_phases'')
      else bind_result (check_phases {} (eb_ActivePhases b)) (\<lambda>_.
      if eb_DelegationPolicy b \<noteq> ''none'' \<and> eb_DelegationPolicy b \<noteq> ''user_requested_only'' \<and>
         eb_DelegationPolicy b \<noteq> ''bounded'' then
        Inl (compiler_invalid ''invalid delegation policy'' ''budget.delegation_policy'')
      else if \<not> oneOf (eb_ExhaustionOutcome b)
                 [''stop'', ''fallback'', ''abstain'', ''approval_required''] then
        Inl (compiler_invalid ''invalid exhaustion outcome'' ''budget.exhaustion_outcome'')
      else if eb_ContextMode b \<noteq> '''' \<and>
              \<not> oneOf (eb_ContextMode b) [''none'', ''minimal'', ''selected'', ''full'', ''unknown''] then
        Inl (compiler_invalid ''invalid context mode'' ''budget.context_mode'')
      else if \<not> (within_range (eb_MaxUsefulToolLoops b) 0 1000 \<and> within_range (eb_MaxRetries b) 0 100 \<and>
                 within_range (eb_MaxRetrievalExpansions b) 0 100 \<and> within_range (eb_MaxAgentDepth b) 0 16 \<and>
                 within_range (eb_MaxConcurrency b) 1 64) then
        Inl (compiler_invalid ''budget value out of range'' ''budget'')
      else if eb_DelegationPolicy b = ''bounded'' \<and>
              (eb_MaxAgentDepth b = None \<or> eb_MaxConcurrency b = None) then
        Inl (compiler_invalid ''bounded delegation requires depth and concurrency''
          ''budget.delegation_policy'')
      else if eb_DelegationPolicy b \<noteq> ''bounded'' \<and>
              (eb_MaxAgentDepth b \<noteq> None \<or> eb_MaxConcurrency b \<noteq> None) then
        Inl (compiler_invalid ''unbounded fields forbidden for this delegation policy''
          ''budget.delegation_policy'')
      else Inr ()))"

section \<open>Rendering\<close>

definition addText :: "string \<Rightarrow> string \<Rightarrow> string list" where
  "addText title value =
     (if trim_space value \<noteq> [] then [title @ '':'' @ [LF] @ trim_space value] else [])"

definition addList :: "string \<Rightarrow> string list \<Rightarrow> string list" where
  "addList title values =
     (if length values = 0 then []
      else [trim_right_set [LF]
              (title @ '':'' @ [LF] @ concat (map (\<lambda>value. ''- '' @ trim_space value @ [LF]) values))])"

definition addOptional :: "string \<Rightarrow> string option \<Rightarrow> string list" where
  "addOptional title value = (case value of None \<Rightarrow> [] | Some t \<Rightarrow> addText title t)"

text \<open>The slice \<open>sections\<close> in the order the calls append to it.\<close>

definition plan_sections :: "prompt_plan \<Rightarrow> bool \<Rightarrow> string list" where
  "plan_sections plan includeGoal =
     addText ''Role'' (pp_Role plan) @
     addText ''Personality'' (pp_Personality plan) @
     addText ''Collaboration'' (pp_CollaborationStyle plan) @
     addOptional ''Stable prefix'' (pp_StablePrefix plan) @
     (if includeGoal then addText ''Goal'' (pp_Goal plan) else []) @
     addList ''Success criteria'' (pp_SuccessCriteria plan) @
     addList ''Constraints'' (pp_Invariants plan) @
     addList ''Scope'' (pp_Scope plan) @
     addList ''Non-goals'' (pp_NonGoals plan) @
     addList ''Decision rules'' (pp_DecisionRules plan) @
     addList ''Evidence'' (pp_EvidenceRequirements plan) @
     addList ''Tools'' (pp_Tools plan) @
     addText ''Approval boundary'' (pp_ApprovalBoundary plan) @
     addText ''Phase'' (pp_PhaseScope plan) @
     addOptional ''Dynamic context'' (pp_DynamicTail plan) @
     addList ''Validation'' (pp_ValidationBar plan) @
     addList ''Gates'' (pp_Gates plan) @
     addText ''Output'' (pp_OutputContract plan) @
     addText ''Output language'' (pp_OutputLanguage plan) @
     addList ''Artifact priorities'' (pp_ArtifactPriorities plan) @
     addList ''Stop'' (pp_StopRules plan) @
     addList ''Fallback'' (pp_FallbackRules plan) @
     addList ''Abstain'' (pp_AbstainRules plan)"

definition RenderPlan :: "prompt_plan \<Rightarrow> bool \<Rightarrow> string" where
  "RenderPlan plan includeGoal = join [LF, LF] (plan_sections plan includeGoal)"

section \<open>Recognising a compiled prompt\<close>

text \<open>\<open>sectionIndex\<close> returns \<open>None\<close> where the code returns -1.\<close>

definition sectionIndex :: "string \<Rightarrow> string \<Rightarrow> nat option" where
  "sectionIndex value title =
     (let heading = title @ '':'' @ [LF] in
      if prefix heading value then Some 0
      else map_option (\<lambda>index. index + 2) (str_index ([LF, LF] @ heading) value))"

definition sectionValue :: "string \<Rightarrow> string \<Rightarrow> string \<times> bool" where
  "sectionValue value title =
     (case sectionIndex value title of
        None \<Rightarrow> ([], False)
      | Some index \<Rightarrow>
          let start = index + length title + 2;
              rest = drop start value;
              body = (case str_index [LF, LF] rest of None \<Rightarrow> rest | Some n \<Rightarrow> take n rest);
              result = trim_space body
          in (result, result \<noteq> []))"

definition requiredTitles :: "string list" where
  "requiredTitles =
     [''Goal'', ''Success criteria'', ''Constraints'', ''Decision rules'', ''Evidence'', ''Tools'',
      ''Approval boundary'', ''Phase'', ''Validation'', ''Output'', ''Stop'', ''Fallback'', ''Abstain'']"

text \<open>The loop over the required titles; \<open>previous\<close> starts at -1.\<close>

fun ascending_sections :: "string \<Rightarrow> int \<Rightarrow> string list \<Rightarrow> bool" where
  "ascending_sections value previous [] = True"
| "ascending_sections value previous (title # titles) =
     (let index = (case sectionIndex value title of None \<Rightarrow> - 1 | Some i \<Rightarrow> int i) in
      if index \<le> previous then False else ascending_sections value index titles)"

definition looksCompiled :: "string \<Rightarrow> bool" where
  "looksCompiled value = ascending_sections value (- 1) requiredTitles"

section \<open>Entry points\<close>

definition prepareImproveRequest ::
  "improve_prompt_request \<Rightarrow> (string \<times> prompt_plan) go_result" where
  "prepareImproveRequest request =
     (if ipq_SchemaVersion request \<noteq> SchemaVersion \<or> ipq_Kind request \<noteq> ''request'' then
        Inl (compiler_invalid ''request must use schema 1.0.0 and kind request'' ''request'')
      else if \<not> ValidExecutionPolicy (ipq_ExecutionPolicy request) then
        Inl (compiler_invalid ''invalid execution policy'' ''execution_policy'')
      else if length (ipq_Intent request) > 8000 then
        Inl (compiler_invalid ''intent exceeds 8000 bytes'' ''intent'')
      else bind_result (Normalize (ipq_Intent request)) (\<lambda>intent.
      bind_result (case ipq_PromptPlan request of
            None \<Rightarrow> Inr (defaultPlan intent)
          | Some plan \<Rightarrow> bind_result (validatePlan plan) (\<lambda>_. Inr plan)) (\<lambda>plan.
      bind_result (case ipq_Budget request of
            None \<Rightarrow> Inr ()
          | Some budget \<Rightarrow> validateBudget budget) (\<lambda>_.
      Inr (intent, plan)))))"

definition ValidateImproveRequest :: "improve_prompt_request \<Rightarrow> unit go_result" where
  "ValidateImproveRequest request = bind_result (prepareImproveRequest request) (\<lambda>_. Inr ())"

definition improve ::
  "poll_context \<Rightarrow> improve_prompt_request \<Rightarrow> host_permission \<Rightarrow> string \<Rightarrow>
   improve_prompt_result go_result" where
  "improve ctx request host phaseOverride =
     bind_result (checkContext ctx 0) (\<lambda>_.
     bind_result (prepareImproveRequest request) (\<lambda>(intent, plan).
     bind_result (checkContext ctx 1) (\<lambda>_.
     let plan = (if phaseOverride \<noteq> [] then plan\<lparr>pp_PhaseScope := phaseOverride\<rparr> else plan);
         preserve = phaseOverride = [] \<and> ipq_PromptPlan request = None \<and> looksCompiled intent;
         (phase, ok) = sectionValue intent ''Phase'';
         preserveCompiled = preserve \<and> ok \<and> validPhase phase;
         plan = (if preserveCompiled then plan\<lparr>pp_PhaseScope := phase\<rparr> else plan);
         compiled = (if preserveCompiled then intent else RenderPlan plan True)
     in if length compiled > 16000 then
          Inl (semanticInvalid ''compiled prompt exceeds 16000 bytes'' ''improved_prompt'')
        else bind_result (policy_Resolve (ipq_ExecutionPolicy request) (pp_PhaseScope plan) host)
          (\<lambda>outcome.
             Inr \<lparr>ipr_SchemaVersion = SchemaVersion, ipr_Kind = ''result'',
                  ipr_ImprovedPrompt = compiled, ipr_PolicyOutcome = outcome,
                  ipr_Diagnostics = [], ipr_BoundaryDecisions = []\<rparr>))))"

definition Improve ::
  "poll_context \<Rightarrow> improve_prompt_request \<Rightarrow> host_permission \<Rightarrow> improve_prompt_result go_result" where
  "Improve ctx request host = improve ctx request host []"

definition ImproveWithPhase ::
  "poll_context \<Rightarrow> improve_prompt_request \<Rightarrow> host_permission \<Rightarrow> string \<Rightarrow>
   improve_prompt_result go_result" where
  "ImproveWithPhase ctx request host phase =
     (if \<not> validPhase phase then Inl (compiler_invalid ''invalid phase scope'' ''phase'')
      else improve ctx request host phase)"

definition CreateGoal ::
  "poll_context \<Rightarrow> create_goal_prompt_request \<Rightarrow> create_goal_prompt_result go_result" where
  "CreateGoal ctx request =
     bind_result (checkContext ctx 0) (\<lambda>_.
     if cgq_SchemaVersion request \<noteq> SchemaVersion \<or> cgq_Kind request \<noteq> ''request'' then
       Inl (compiler_invalid ''request must use schema 1.0.0 and kind request'' ''request'')
     else if length (cgq_Objective request) > 4000 then
       Inl (compiler_invalid ''objective exceeds 4000 bytes'' ''objective'')
     else bind_result (Normalize (cgq_Objective request)) (\<lambda>objective.
     bind_result (validatePlan (cgq_PromptPlan request)) (\<lambda>_.
     let body = RenderPlan (cgq_PromptPlan request) False;
         prompt = ''Take this as a new goal:'' @ [LF, LF] @ objective;
         prompt = (if body \<noteq> [] then prompt @ [LF, LF] @ body else prompt)
     in if length prompt > 16000 then
          Inl (compiler_invalid ''goal request or result exceeds contract limit'' ''objective'')
        else Inr \<lparr>cgr_SchemaVersion = SchemaVersion, cgr_Kind = ''result'',
                  cgr_GoalPrompt = prompt, cgr_CheckpointRequired = True\<rparr>)))"

definition CreateGoalFromObjective ::
  "poll_context \<Rightarrow> string \<Rightarrow> create_goal_prompt_result go_result" where
  "CreateGoalFromObjective ctx objective =
     CreateGoal ctx \<lparr>cgq_SchemaVersion = SchemaVersion, cgq_Kind = ''request'',
       cgq_Objective = objective,
       cgq_PromptPlan = defaultPlan ''Create the requested goal artifact.''\<rparr>"

section \<open>Review fixes\<close>

definition reviewHeadMatch :: "string \<Rightarrow> bool" where
  "reviewHeadMatch s \<longleftrightarrow>
     7 \<le> length s \<and> length s \<le> 64 \<and>
     list_all (\<lambda>c. (97 \<le> byte c \<and> byte c \<le> 102) \<or> (48 \<le> byte c \<and> byte c \<le> 57)) s"

definition reviewFixInstructions :: string where
  "reviewFixInstructions = join [LF]
     [[], ''For each finding:'',
      ''- State the violated invariant.'',
      ''- Scan directly analogous paths for the same failure class.'',
      ''- Add the smallest focused regression proof.'',
      ''- Apply the fix without scope expansion.'',
      ''- Run focused validation, then reply and resolve the review thread.'',
      [],
      ''Stop after all listed findings and same-pattern gaps are validated; do not start unrelated work.'']"

function truncateUTF8 :: "string \<Rightarrow> nat \<Rightarrow> string" where
  "truncateUTF8 value limit =
     (if length value > limit then
        truncateUTF8 (take (length value - snd (decode_last_rune value)) value) limit
      else value)"
  by pat_completeness auto
termination
proof (relation "measure (\<lambda>(value, limit). length value)")
  fix v :: string and limit
  assume "limit < length v"
  then have "v \<noteq> []" by auto
  then show "((take (length v - snd (decode_last_rune v)) v, limit), v, limit)
      \<in> measure (\<lambda>(value, limit). length value)"
    using decode_last_rune_width [of v] by (simp add: Suc_le_eq)
qed simp

declare truncateUTF8.simps [simp del]

definition failureClass :: "(nat \<Rightarrow> nat) \<Rightarrow> string \<Rightarrow> string" where
  "failureClass uc finding =
     (let value = to_lower uc (trim_space (hd (split_on LF finding)));
          value = trim_set ''.:; '' value;
          value = truncateUTF8 value 200
      in if value = [] then ''review finding'' else value)"

text \<open>The loop over the findings, with the slices \<open>findings\<close> and \<open>classes\<close>.\<close>

fun collect_findings ::
  "(nat \<Rightarrow> nat) \<Rightarrow> string list \<Rightarrow> string list \<Rightarrow> string list \<Rightarrow> (string list \<times> string list) go_result" where
  "collect_findings uc findings classes [] = Inr (findings, classes)"
| "collect_findings uc findings classes (item # items) =
     (if length item > 1000 then
        Inl (compiler_invalid ''finding exceeds 1000 bytes'' ''findings'')
      else case Normalize item of
          Inl e \<Rightarrow> Inl (compiler_invalid ''finding must not be empty'' ''findings'')
        | Inr value \<Rightarrow>
            let class = failureClass uc value in
            collect_findings uc (findings @ [value])
              (if class \<in> set classes then classes else classes @ [class]) items)"

definition CreateReviewFix ::
  "(nat \<Rightarrow> nat) \<Rightarrow> poll_context \<Rightarrow> create_review_fix_prompt_request \<Rightarrow>
   create_review_fix_prompt_result go_result" where
  "CreateReviewFix uc ctx request =
     bind_result (checkContext ctx 0) (\<lambda>_.
     if crq_SchemaVersion request \<noteq> SchemaVersion \<or> crq_Kind request \<noteq> ''request'' then
       Inl (compiler_invalid ''request must use schema 1.0.0 and kind request'' ''request'')
     else if length (crq_Findings request) = 0 \<or> length (crq_Findings request) > 100 then
       Inl (compiler_invalid ''findings must contain 1 to 100 items'' ''findings'')
     else if \<not> reviewHeadMatch (crq_ReviewHead request) then
       Inl (compiler_invalid ''review_head must be a commit hash'' ''review_head'')
     else bind_result (collect_findings uc [] [] (crq_Findings request)) (\<lambda>(findings, classes).
     let b = ''Fix review findings for head '' @ crq_ReviewHead request @ ''.'' @ [LF, LF] @
             ''Findings:'' @ [LF] @ concat (map (\<lambda>finding. ''- '' @ finding @ [LF]) findings) @
             reviewFixInstructions
     in if length b > 16000 then
          Inl (semanticInvalid ''review fix prompt exceeds 16000 bytes'' ''findings'')
        else Inr \<lparr>crr_SchemaVersion = SchemaVersion, crr_Kind = ''result'', crr_FixPrompt = b,
                  crr_FailureClasses = classes, crr_SamePatternScanRequired = True\<rparr>))"

end
