(* ===== verification/Compiler_Sections.thy ===== *)
theory Compiler_Sections
  imports Compiler
begin

text \<open>
  The sectioned text the compiler writes and recognises: paragraphs separated by empty lines,
  sections with headings, the sections of a plan, and the normal form of the default plan.
\<close>

section \<open>Library: paragraphs\<close>

text \<open>A tidy paragraph has no empty line inside and no line break at its ends.\<close>

definition tidy :: "string \<Rightarrow> bool" where
  "tidy s \<longleftrightarrow> s \<noteq> [] \<and> hd s \<noteq> LF \<and> last s \<noteq> LF \<and> \<not> sublist [LF, LF] s"

lemma not_sublist_inside: "\<not> sublist xs s \<Longrightarrow> s \<noteq> p @ xs @ q"
  by auto

text \<open>An empty line in a text of tidy paragraphs separates two of them.\<close>

lemma join_tidy_split:
  assumes "\<forall>s \<in> set ss. tidy s" and "join [LF, LF] ss = p @ LF # LF # q"
  shows "\<exists>ss1 ss2. ss = ss1 @ ss2 \<and> ss1 \<noteq> [] \<and> ss2 \<noteq> [] \<and>
    p = join [LF, LF] ss1 \<and> q = join [LF, LF] ss2"
  using assms
proof (induction "[LF, LF]" ss arbitrary: p rule: join.induct)
  case (2 s)
  then show ?case using not_sublist_inside [of "[LF, LF]" s p q] by (auto simp: tidy_def)
next
  case (3 s t ts)
  let ?rest = "join [LF, LF] (t # ts)"
  have s: "s \<noteq> []" "last s \<noteq> LF" "\<not> sublist [LF, LF] s" and t: "t \<noteq> []" "hd t \<noteq> LF"
    using 3(2) by (auto simp: tidy_def)
  have rest: "?rest \<noteq> []" "hd ?rest \<noteq> LF"
    using t by (cases ts; auto simp: hd_append)+
  have eq: "s @ LF # LF # ?rest = p @ LF # LF # q" using 3(3) by simp
  consider "p = s" | us where "us \<noteq> []" "s = p @ us" | us where "us \<noteq> []" "p = s @ us"
    using eq by (auto simp: append_eq_append_conv2)
  then show ?case
  proof cases
    case 1
    with eq show ?thesis by (intro exI [of _ "[s]"] exI [of _ "t # ts"]) simp
  next
    case (2 us)
    with eq have us: "us @ LF # LF # ?rest = LF # LF # q" by simp
    show ?thesis
    proof (cases "us = [LF]")
      case True
      with 2 s show ?thesis by simp
    next
      case False
      with us 2 obtain vs where "us = LF # LF # vs"
        by (cases us; cases "tl us") auto
      with 2 s show ?thesis using not_sublist_inside [of "[LF, LF]" s p vs] by simp
    qed
  next
    case (3 us)
    with eq have us: "LF # LF # ?rest = us @ LF # LF # q" by simp
    have "us \<noteq> [LF]" using us rest by auto
    with us 3 obtain vs where vs: "us = LF # LF # vs" by (cases us; cases "tl us") auto
    with us have "?rest = vs @ LF # LF # q" by simp
    then obtain ss1 ss2 where "t # ts = ss1 @ ss2" "ss1 \<noteq> []" "ss2 \<noteq> []"
      "vs = join [LF, LF] ss1" "q = join [LF, LF] ss2"
      using \<open>\<forall>s \<in> set (s # t # ts). tidy s\<close> "3.hyps" by (metis list.set_intros(2))
    with 3 vs show ?thesis
      by (intro exI [of _ "s # ss1"] exI [of _ ss2]) (simp add: join_Cons)
  qed
qed simp

lemma first_break:
  assumes "a @ LF # b = a' @ LF # b'" and "LF \<notin> set a" and "LF \<notin> set a'"
  shows "a = a' \<and> b = b'"
  using assms by (auto simp: append_eq_append_conv2 append_eq_Cons_conv Cons_eq_append_conv)

lemma first_occurrence:
  "ps1 @ ps = qs1 @ q # qs2 \<Longrightarrow> q \<notin> set ps1 \<Longrightarrow> \<exists>us. qs1 = ps1 @ us"
proof (induction ps1 arbitrary: qs1)
  case (Cons p ps1)
  then show ?case by (cases qs1) auto
qed simp

section \<open>Library: sections\<close>

text \<open>A section is a title and its content; a document is a list of sections.\<close>

type_synonym part = "string \<times> string"

definition show_part :: "part \<Rightarrow> string" where
  "show_part p = fst p @ '':'' @ [LF] @ snd p"

definition good_part :: "part \<Rightarrow> bool" where
  "good_part p \<longleftrightarrow> fst p \<noteq> [] \<and> LF \<notin> set (fst p) \<and> tidy (snd p)"

definition show_parts :: "part list \<Rightarrow> string" where
  "show_parts ps = join [LF, LF] (map show_part ps)"

definition offset :: "part list \<Rightarrow> nat" where
  "offset ps = (if ps = [] then 0 else length (show_parts ps) + 2)"

lemma show_parts_Nil [simp]: "show_parts [] = []"
  by (simp add: show_parts_def)

lemma show_parts_append:
  "ps \<noteq> [] \<Longrightarrow> qs \<noteq> [] \<Longrightarrow> show_parts (ps @ qs) = show_parts ps @ [LF, LF] @ show_parts qs"
proof (induction ps)
  case (Cons p ps)
  then show ?case by (cases "ps = []") (auto simp: show_parts_def join_Cons)
qed simp

lemma show_parts_Cons: "show_parts (p # qs) = show_part p @ (if qs = [] then [] else [LF, LF] @ show_parts qs)"
  by (cases qs) (simp_all add: show_parts_def)

lemma length_show_parts: "length (show_parts ps) \<le> length (show_parts (ps @ qs))"
  by (cases "ps = [] \<or> qs = []") (auto simp: show_parts_append)

lemma drop_offset: "qs \<noteq> [] \<Longrightarrow> drop (offset ps) (show_parts (ps @ qs)) = show_parts qs"
  by (cases "ps = []") (simp_all add: offset_def show_parts_append)

lemma tidy_show_part:
  assumes "good_part p"
  shows "tidy (show_part p)"
proof -
  obtain t c where p: "p = (t, c)" by (cases p)
  have t: "t \<noteq> []" "LF \<notin> set t" and c: "tidy c" using assms by (auto simp: p good_part_def)
  have "\<not> sublist [LF, LF] (t @ '':'' @ [LF] @ c)"
  proof
    assume "sublist [LF, LF] (t @ '':'' @ [LF] @ c)"
    then obtain a b where "(t @ '':'') @ LF # c = a @ LF # LF # b" by (auto simp: sublist_def)
    then consider "c = LF # b" | us where "c = us @ LF # LF # b"
      using t(2) by (auto simp: append_eq_append_conv2 append_eq_Cons_conv Cons_eq_append_conv)
    then show False
      using c not_sublist_inside [of "[LF, LF]" c] by cases (auto simp: tidy_def)
  qed
  moreover have "hd t \<noteq> LF" using t by (metis hd_in_set)
  ultimately show ?thesis using t c by (simp add: p show_part_def tidy_def)
qed

lemma heading_unique:
  assumes "prefix (t @ '':'' @ [LF]) (show_parts (p # qs))" and "LF \<notin> set t" and "good_part p"
  shows "fst p = t"
proof -
  obtain r where "(t @ '':'') @ LF # r = show_parts (p # qs)"
    using assms(1) by (auto simp: prefix_def)
  then have "(t @ '':'') @ LF # r =
      (fst p @ '':'') @ LF # (snd p @ (if qs = [] then [] else [LF, LF] @ show_parts qs))"
    by (simp add: show_parts_Cons show_part_def)
  from first_break [OF this] assms(2,3) show ?thesis by (simp add: good_part_def)
qed

lemma heading_split:
  assumes "\<forall>p \<in> set ps. good_part p" and "LF \<notin> set t"
    and "show_parts ps = a @ LF # LF # t @ '':'' @ LF # b"
  shows "\<exists>ps1 c ps2. ps = ps1 @ (t, c) # ps2 \<and> ps1 \<noteq> [] \<and> a = show_parts ps1"
proof -
  have "\<forall>s \<in> set (map show_part ps). tidy s" using assms(1) tidy_show_part by auto
  then obtain ss1 ss2 where ss: "map show_part ps = ss1 @ ss2" "ss1 \<noteq> []" "ss2 \<noteq> []"
    "a = join [LF, LF] ss1" "t @ '':'' @ LF # b = join [LF, LF] ss2"
    using join_tidy_split [OF _ assms(3) [unfolded show_parts_def]] by blast
  from ss(1) obtain ps1 ps2 where ps: "ps = ps1 @ ps2" "ss1 = map show_part ps1" "ss2 = map show_part ps2"
    by (auto simp: map_eq_append_conv)
  with ss(3) obtain p qs where p: "ps2 = p # qs" by (cases ps2) auto
  have "prefix (t @ '':'' @ [LF]) (show_parts (p # qs))"
    using ss(5) ps p unfolding show_parts_def by (metis append_Cons append_Nil append_assoc prefixI)
  then have "fst p = t" using assms p ps by (intro heading_unique) auto
  with ps p ss show ?thesis
    by (intro exI [of _ ps1] exI [of _ "snd p"] exI [of _ qs]) (auto simp: show_parts_def)
qed

text \<open>The index of a section is the offset of the first part with that title.\<close>

lemma sectionIndex_present:
  assumes good: "\<forall>p \<in> set (ps1 @ (t, c) # ps2). good_part p" and t: "LF \<notin> set t"
    and first: "t \<notin> fst ` set ps1"
  shows "sectionIndex (show_parts (ps1 @ (t, c) # ps2)) t = Some (offset ps1)"
proof (cases ps1)
  case Nil
  then show ?thesis
    by (simp add: sectionIndex_def show_parts_Cons show_part_def offset_def)
next
  case (Cons p ps)
  let ?v = "show_parts (ps1 @ (t, c) # ps2)" and ?h = "[LF, LF] @ t @ '':'' @ [LF]"
  have not_first: "\<not> prefix (t @ '':'' @ [LF]) ?v"
    using heading_unique [of t p "ps @ (t, c) # ps2"] good t first by (auto simp: Cons)
  have v: "?v = show_parts ps1 @ [LF, LF] @ show_parts ((t, c) # ps2)"
    by (rule show_parts_append) (simp_all add: Cons)
  have "str_index ?h ?v = Some (length (show_parts ps1))"
  proof (rule str_indexI)
    show "prefix ?h (drop (length (show_parts ps1)) ?v)"
      unfolding v by (simp add: show_parts_Cons show_part_def)
    show "length (show_parts ps1) \<le> length ?v" unfolding v by simp
  next
    fix j assume j: "j < length (show_parts ps1)"
    show "\<not> prefix ?h (drop j ?v)"
    proof
      assume "prefix ?h (drop j ?v)"
      then obtain b where "drop j ?v = ?h @ b" by (auto simp: prefix_def)
      then have "?v = take j ?v @ LF # LF # t @ '':'' @ LF # b"
        by (metis append_Cons append_Nil append_assoc append_take_drop_id)
      then obtain qs1 c' qs2 where qs: "ps1 @ (t, c) # ps2 = qs1 @ (t, c') # qs2"
        "qs1 \<noteq> []" "take j ?v = show_parts qs1"
        using heading_split [OF good t] by blast
      have "(t, c') \<notin> set ps1" using first by force
      from first_occurrence [OF qs(1) this] obtain us where us: "qs1 = ps1 @ us" by blast
      have "length (show_parts ps1) \<le> length (show_parts qs1)"
        unfolding us by (rule length_show_parts)
      moreover have "length (show_parts qs1) \<le> j" unfolding qs(3) [symmetric] by simp
      ultimately show False using j by simp
    qed
  qed
  with not_first show ?thesis
    by (simp add: sectionIndex_def offset_def Cons)
qed

lemma sectionIndex_absent:
  assumes good: "\<forall>p \<in> set ps. good_part p" and t: "LF \<notin> set t" and absent: "t \<notin> fst ` set ps"
  shows "sectionIndex (show_parts ps) t = None"
proof -
  have "\<not> prefix (t @ '':'' @ [LF]) (show_parts ps)"
  proof (cases ps)
    case (Cons p qs)
    then show ?thesis using heading_unique [of t p qs] assms by auto
  qed (simp add: show_parts_def)
  moreover have "str_index ([LF, LF] @ t @ '':'' @ [LF]) (show_parts ps) = None"
  proof (rule ccontr)
    assume "\<not> ?thesis"
    then have "sublist ([LF, LF] @ t @ '':'' @ [LF]) (show_parts ps)"
      using str_contains_iff [of "show_parts ps" "[LF, LF] @ t @ '':'' @ [LF]"]
      unfolding str_contains_def by blast
    then obtain a b where "show_parts ps = a @ LF # LF # t @ '':'' @ LF # b"
      by (auto simp: sublist_def)
    from heading_split [OF good t this] absent show False by force
  qed
  ultimately show ?thesis by (simp add: sectionIndex_def)
qed

lemma sectionValue_present:
  assumes good: "\<forall>p \<in> set (ps1 @ (t, c) # ps2). good_part p" and t: "LF \<notin> set t"
    and first: "t \<notin> fst ` set ps1"
  shows "sectionValue (show_parts (ps1 @ (t, c) # ps2)) t = (trim_space c, trim_space c \<noteq> [])"
proof -
  let ?v = "show_parts (ps1 @ (t, c) # ps2)"
  let ?rest = "c @ (if ps2 = [] then [] else [LF, LF] @ show_parts ps2)"
  have "drop (offset ps1) ?v = t @ '':'' @ [LF] @ ?rest"
    using drop_offset [of "(t, c) # ps2" ps1] by (simp add: show_parts_Cons show_part_def)
  then have rest: "drop (offset ps1 + length t + 2) ?v = ?rest"
    using drop_drop [of "length t + 2" "offset ps1" ?v] by (simp add: ac_simps)
  have c: "tidy c" using good by (simp add: good_part_def)
  have body: "(case str_index [LF, LF] ?rest of None \<Rightarrow> ?rest | Some n \<Rightarrow> take n ?rest) = c"
  proof (cases "ps2 = []")
    case True
    have "str_index [LF, LF] c = None"
      using c str_contains_iff [of c "[LF, LF]"] by (auto simp: tidy_def str_contains_def)
    with True show ?thesis by simp
  next
    case False
    have "str_index [LF, LF] ?rest = Some (length c)"
    proof (rule str_indexI)
      fix j assume j: "j < length c"
      show "\<not> prefix [LF, LF] (drop j ?rest)"
      proof
        assume "prefix [LF, LF] (drop j ?rest)"
        then obtain q where "drop j ?rest = LF # LF # q" by (auto simp: prefix_def)
        moreover have "?rest = take j ?rest @ drop j ?rest" by (rule append_take_drop_id [symmetric])
        moreover have "?rest = join [LF, LF] (c # map show_part ps2)"
          using False by (simp add: join_Cons show_parts_def)
        ultimately have "join [LF, LF] (c # map show_part ps2) = take j ?rest @ LF # LF # q"
          by metis
        moreover have "\<forall>s \<in> set (c # map show_part ps2). tidy s"
          using good c tidy_show_part by auto
        ultimately obtain ss1 ss2 where ss: "c # map show_part ps2 = ss1 @ ss2" "ss1 \<noteq> []"
          "take j ?rest = join [LF, LF] ss1" using join_tidy_split by blast
        then obtain ss where "ss1 = c # ss" by (cases ss1) auto
        then have "length c \<le> length (join [LF, LF] ss1)" by (cases ss) auto
        also have "\<dots> \<le> j" unfolding ss(3) [symmetric] by simp
        finally show False using j by simp
      qed
    qed (use False in simp_all)
    with False show ?thesis by simp
  qed
  show ?thesis
    unfolding sectionValue_def sectionIndex_present [OF assms] Let_def option.case rest body ..
qed

lemma offset_less: "offset ps < offset (ps @ p # qs)"
proof (cases "ps = []")
  case False
  then show ?thesis by (simp add: offset_def show_parts_append)
qed (simp add: offset_def)

lemma ascending_sections_parts:
  assumes "\<forall>p \<in> set (ps @ qs). good_part p" and "distinct (map fst (ps @ qs))"
    and "subseq ts (map fst qs)" and "previous < int (offset ps)"
  shows "ascending_sections (show_parts (ps @ qs)) previous ts"
  using assms
proof (induction qs arbitrary: ps previous ts)
  case (Cons q qs)
  obtain t c where q: "q = (t, c)" by (cases q)
  have more: "previous < int (offset (ps @ [q]))"
    using Cons.prems(4) offset_less [of ps q "[]"] by linarith
  show ?case
  proof (cases "ts \<noteq> [] \<and> hd ts = t")
    case True
    then obtain us where ts: "ts = t # us" by (cases ts) auto
    then have us: "subseq us (map fst qs)" using Cons.prems(3) by (simp add: q)
    have "sectionIndex (show_parts (ps @ q # qs)) t = Some (offset ps)"
      using Cons.prems(1,2) unfolding q by (intro sectionIndex_present) (auto simp: good_part_def)
    moreover have "ascending_sections (show_parts ((ps @ [q]) @ qs)) (int (offset ps)) us"
      using Cons.prems us offset_less [of ps q "[]"] by (intro Cons.IH) auto
    ultimately show ?thesis using Cons.prems(4) by (simp add: ts)
  next
    case False
    then have "subseq ts (map fst qs)"
      using Cons.prems(3) by (cases ts) (auto simp: q)
    then show ?thesis
      using Cons.IH [of "ps @ [q]" ts previous] Cons.prems more by simp
  qed
qed (auto dest: list_emb_Nil2)

section \<open>Library: rendered plans\<close>

definition text_part :: "string \<Rightarrow> string \<Rightarrow> part list" where
  "text_part t v = (if trim_space v \<noteq> [] then [(t, trim_space v)] else [])"

definition list_part :: "string \<Rightarrow> string list \<Rightarrow> part list" where
  "list_part t vs = (if vs = [] then [] else [(t, join [LF] (map (\<lambda>v. ''- '' @ trim_space v) vs))])"

definition optional_part :: "string \<Rightarrow> string option \<Rightarrow> part list" where
  "optional_part t v = (case v of None \<Rightarrow> [] | Some x \<Rightarrow> text_part t x)"

text \<open>The sections of a plan before rendering.\<close>

definition plan_parts :: "prompt_plan \<Rightarrow> bool \<Rightarrow> part list" where
  "plan_parts plan includeGoal =
     text_part ''Role'' (pp_Role plan) @
     text_part ''Personality'' (pp_Personality plan) @
     text_part ''Collaboration'' (pp_CollaborationStyle plan) @
     optional_part ''Stable prefix'' (pp_StablePrefix plan) @
     (if includeGoal then text_part ''Goal'' (pp_Goal plan) else []) @
     list_part ''Success criteria'' (pp_SuccessCriteria plan) @
     list_part ''Constraints'' (pp_Invariants plan) @
     list_part ''Scope'' (pp_Scope plan) @
     list_part ''Non-goals'' (pp_NonGoals plan) @
     list_part ''Decision rules'' (pp_DecisionRules plan) @
     list_part ''Evidence'' (pp_EvidenceRequirements plan) @
     list_part ''Tools'' (pp_Tools plan) @
     text_part ''Approval boundary'' (pp_ApprovalBoundary plan) @
     text_part ''Phase'' (pp_PhaseScope plan) @
     optional_part ''Dynamic context'' (pp_DynamicTail plan) @
     list_part ''Validation'' (pp_ValidationBar plan) @
     list_part ''Gates'' (pp_Gates plan) @
     text_part ''Output'' (pp_OutputContract plan) @
     text_part ''Output language'' (pp_OutputLanguage plan) @
     list_part ''Artifact priorities'' (pp_ArtifactPriorities plan) @
     list_part ''Stop'' (pp_StopRules plan) @
     list_part ''Fallback'' (pp_FallbackRules plan) @
     list_part ''Abstain'' (pp_AbstainRules plan)"

lemma last_trim_space: "trim_space v \<noteq> [] \<Longrightarrow> last (trim_space v) \<noteq> LF"
  using trim_right_space_fix [of "trim_left_space v"]
  by (auto simp: trim_space_def decode_last_rune_def is_space_def)

lemma hd_trim_space: "trim_space v \<noteq> [] \<Longrightarrow> hd (trim_space v) \<noteq> LF"
proof
  assume ne: "trim_space v \<noteq> []" and lf: "hd (trim_space v) = LF"
  have "trim_left_space v \<noteq> []" using ne by (auto simp: trim_space_def)
  moreover have "hd (trim_left_space v) = hd (trim_space v)"
    using ne trim_right_space_prefix [of "trim_left_space v"]
    by (auto simp: trim_space_def prefix_def) (metis hd_append)
  ultimately obtain xs where "trim_left_space v = LF # xs" using lf by (cases "trim_left_space v") auto
  then show False using trim_left_space_fix [of v] by (simp add: is_space_def)
qed

lemma addText_part: "addText t v = map show_part (text_part t v)"
  by (simp add: addText_def text_part_def show_part_def)

lemma addOptional_part: "addOptional t v = map show_part (optional_part t v)"
  by (simp add: addOptional_def optional_part_def addText_part split: option.split)

lemma addList_part: "addList t vs = map show_part (list_part t vs)"
proof (cases "vs = []")
  case False
  let ?items = "map (\<lambda>v. ''- '' @ trim_space v) vs"
  have body: "t @ '':'' @ [LF] @ concat (map (\<lambda>v. ''- '' @ trim_space v @ [LF]) vs) =
      (t @ '':'' @ [LF] @ join [LF] ?items) @ [LF]"
    using join_eq_concat [of ?items] False by (simp add: comp_def)
  have "last (join [LF] ?items) = last (last ?items)"
    using False
  proof (induction vs rule: rev_induct)
    case (snoc v vs)
    then show ?case by (cases "vs = []") (simp_all add: join_snoc)
  qed simp
  also have "last (last ?items) \<noteq> LF"
    using last_trim_space [of "last vs"] False by (simp add: last_map)
  finally have "last (t @ '':'' @ [LF] @ join [LF] ?items) \<noteq> LF"
    using False by (cases vs; cases "tl vs") auto
  then have "trim_right_set [LF] ((t @ '':'' @ [LF] @ join [LF] ?items) @ [LF]) =
      t @ '':'' @ [LF] @ join [LF] ?items"
    using trim_right_set_self [of "[LF]" "t @ '':'' @ [LF] @ join [LF] ?items"]
    by (simp add: trim_right_set_def)
  with False show ?thesis
    unfolding addList_def body by (simp add: list_part_def show_part_def)
qed (simp add: addList_def list_part_def)

lemma RenderPlan_parts: "RenderPlan plan g = show_parts (plan_parts plan g)"
  unfolding RenderPlan_def plan_sections_def plan_parts_def show_parts_def
  by (simp add: addText_part addList_part addOptional_part)

definition plan_titles :: "string list" where
  "plan_titles =
     [''Role''] @ [''Personality''] @ [''Collaboration''] @ [''Stable prefix''] @ [''Goal''] @
     [''Success criteria''] @ [''Constraints''] @ [''Scope''] @ [''Non-goals''] @
     [''Decision rules''] @ [''Evidence''] @ [''Tools''] @ [''Approval boundary''] @ [''Phase''] @
     [''Dynamic context''] @ [''Validation''] @ [''Gates''] @ [''Output''] @ [''Output language''] @
     [''Artifact priorities''] @ [''Stop''] @ [''Fallback''] @ [''Abstain'']"

text \<open>All texts of a plan, and the plans none of whose texts contains an empty line.\<close>

definition plan_texts :: "prompt_plan \<Rightarrow> string list" where
  "plan_texts plan =
     [pp_Role plan, pp_Personality plan, pp_CollaborationStyle plan, pp_Goal plan,
      pp_ApprovalBoundary plan, pp_PhaseScope plan, pp_OutputContract plan, pp_OutputLanguage plan] @
     (case pp_StablePrefix plan of None \<Rightarrow> [] | Some t \<Rightarrow> [t]) @
     (case pp_DynamicTail plan of None \<Rightarrow> [] | Some t \<Rightarrow> [t]) @
     pp_SuccessCriteria plan @ pp_Invariants plan @ pp_Scope plan @ pp_NonGoals plan @
     pp_DecisionRules plan @ pp_EvidenceRequirements plan @ pp_Tools plan @
     pp_ValidationBar plan @ pp_Gates plan @ pp_ArtifactPriorities plan @
     pp_StopRules plan @ pp_FallbackRules plan @ pp_AbstainRules plan"

definition plain_text :: "string \<Rightarrow> bool" where
  "plain_text v \<longleftrightarrow> \<not> str_contains (trim_space v) [LF, LF]"

definition plain_plan :: "prompt_plan \<Rightarrow> bool" where
  "plain_plan plan \<longleftrightarrow> list_all plain_text (plan_texts plan)"

lemma subseq_parts:
  "subseq (map fst (text_part t v)) [t]" "subseq (map fst (list_part t vs)) [t]"
  "subseq (map fst (optional_part t ov)) [t]"
  by (auto simp: text_part_def list_part_def optional_part_def split: option.split)

lemma subseq_plan_titles: "subseq (map fst (plan_parts plan g)) plan_titles"
  unfolding plan_parts_def plan_titles_def map_append
  by (intro list_emb_append_mono subseq_parts) (simp add: subseq_parts)

lemma distinct_plan_titles: "distinct plan_titles" "LF \<notin> \<Union> (set ` set plan_titles)"
  "[] \<notin> set plan_titles"
  by (simp_all add: plan_titles_def)

lemma distinct_subseq: "subseq xs ys \<Longrightarrow> distinct ys \<Longrightarrow> distinct xs"
  by (induction rule: list_emb.induct) (auto dest: list_emb_set)

lemma distinct_plan_parts: "distinct (map fst (plan_parts plan g))"
  using distinct_subseq [OF subseq_plan_titles distinct_plan_titles(1)] .

lemma tidy_trim_space: "trim_space v \<noteq> [] \<Longrightarrow> plain_text v \<Longrightarrow> tidy (trim_space v)"
  by (simp add: tidy_def hd_trim_space last_trim_space str_contains_iff plain_text_def)

lemma join_LF_tidy:
  assumes "xs \<noteq> []" and "\<forall>x \<in> set xs. tidy x"
  shows "tidy (join [LF] xs)"
  using assms
proof (induction "[LF]" xs rule: join.induct)
  case (3 x y ys)
  then have x: "tidy x" and r: "tidy (join [LF] (y # ys))" by auto
  have "\<not> sublist [LF, LF] (x @ LF # join [LF] (y # ys))"
  proof
    assume "sublist [LF, LF] (x @ LF # join [LF] (y # ys))"
    then obtain a b where "x @ LF # join [LF] (y # ys) = a @ LF # LF # b"
      by (auto simp: sublist_def)
    then have "\<exists>us vs. x = us @ LF # LF # vs \<or> last x = LF \<or> hd (join [LF] (y # ys)) = LF \<or>
        join [LF] (y # ys) = us @ LF # LF # vs"
      using x by (auto simp: append_eq_append_conv2 append_eq_Cons_conv Cons_eq_append_conv tidy_def)
    then show False
      using x r not_sublist_inside [of "[LF, LF]"] by (auto simp: tidy_def)
  qed
  with x r show ?case by (auto simp: tidy_def)
qed auto

lemma tidy_item:
  assumes "plain_text v"
  shows "tidy (''- '' @ trim_space v)"
proof (cases "trim_space v = []")
  case False
  then have "tidy (trim_space v)" using assms by (rule tidy_trim_space)
  then show ?thesis by (simp add: tidy_def sublist_Cons_right)
qed (simp add: tidy_def sublist_Cons_right)

lemma good_parts:
  assumes "t \<noteq> []" and "LF \<notin> set t"
  shows "plain_text v \<Longrightarrow> list_all good_part (text_part t v)"
    and "list_all plain_text vs \<Longrightarrow> list_all good_part (list_part t vs)"
    and "list_all plain_text (case ov of None \<Rightarrow> [] | Some x \<Rightarrow> [x]) \<Longrightarrow>
      list_all good_part (optional_part t ov)"
proof -
  show *: "plain_text v \<Longrightarrow> list_all good_part (text_part t v)" for v
    using assms tidy_trim_space [of v] by (simp add: text_part_def good_part_def)
  show "list_all plain_text vs \<Longrightarrow> list_all good_part (list_part t vs)"
    using assms tidy_item join_LF_tidy [of "map (\<lambda>v. ''- '' @ trim_space v) vs"]
    by (auto simp: list_part_def good_part_def list_all_iff)
  show "list_all plain_text (case ov of None \<Rightarrow> [] | Some x \<Rightarrow> [x]) \<Longrightarrow>
      list_all good_part (optional_part t ov)"
    using * by (cases ov) (simp_all add: optional_part_def)
qed

lemma good_plan_parts: "plain_plan plan \<Longrightarrow> list_all good_part (plan_parts plan g)"
  unfolding plain_plan_def plan_texts_def plan_parts_def by (simp add: good_parts)

lemma distinct_split:
  "distinct (map fst ps) \<Longrightarrow> map_of ps t = Some c \<Longrightarrow>
   \<exists>ps1 ps2. ps = ps1 @ (t, c) # ps2 \<and> t \<notin> fst ` set ps1"
  by (induction ps) (auto split: if_splits, (metis append_Cons append_Nil image_empty empty_iff
      empty_set), (metis Cons_eq_appendI fst_conv image_insert insert_iff list.simps(15)))

text \<open>Reading a section back from a document with distinct titles.\<close>

lemma sectionValue_parts:
  assumes "list_all good_part ps" and "distinct (map fst ps)" and "LF \<notin> set t"
  shows "sectionValue (show_parts ps) t =
    (case map_of ps t of None \<Rightarrow> ([], False) | Some c \<Rightarrow> (trim_space c, trim_space c \<noteq> []))"
proof (cases "map_of ps t")
  case None
  then have "t \<notin> fst ` set ps" by (simp add: map_of_eq_None_iff)
  with None show ?thesis
    using assms sectionIndex_absent [of ps t] by (simp add: sectionValue_def list_all_iff)
next
  case (Some c)
  then obtain ps1 ps2 where "ps = ps1 @ (t, c) # ps2" "t \<notin> fst ` set ps1"
    using distinct_split [OF assms(2)] by blast
  with assms Some show ?thesis
    using sectionValue_present [of ps1 t c ps2] by (simp add: list_all_iff)
qed

section \<open>Library: complete plans\<close>

definition complete_plan :: "prompt_plan \<Rightarrow> bool" where
  "complete_plan plan \<longleftrightarrow>
     trim_space (pp_Goal plan) \<noteq> [] \<and> trim_space (pp_ApprovalBoundary plan) \<noteq> [] \<and>
     trim_space (pp_OutputContract plan) \<noteq> [] \<and> validPhase (pp_PhaseScope plan) \<and>
     list_all (\<lambda>(name, values). values \<noteq> []) (plan_required plan)"

lemma pl_validateList_ok:
  "\<not> is_error (pl_validateList values required) \<longleftrightarrow>
     (required \<longrightarrow> values \<noteq> []) \<and> length values \<le> 50 \<and> (\<forall>v \<in> set values. pl_validText v 1000 True)"
proof -
  have "\<not> is_error (pl_validateList values required) \<longleftrightarrow> pl_validateList values required = Inr ()"
    by (auto simp: not_is_error_iff)
  also have "\<dots> \<longleftrightarrow>
     (required \<longrightarrow> values \<noteq> []) \<and> length values \<le> 50 \<and> (\<forall>v \<in> set values. pl_validText v 1000 True)"
    by (auto simp: pl_validateList_def check_each_ok)
  finally show ?thesis .
qed

lemma pl_validText_required: "pl_validText v n True \<Longrightarrow> trim_space v \<noteq> []"
  by (simp add: pl_validText_def split: if_splits)

lemma validatePlan_complete:
  assumes "validatePlan plan = Inr u"
  shows "complete_plan plan"
proof -
  have req: "\<forall>(name, values) \<in> set (plan_required plan). \<not> is_error (pl_validateList values True)"
    and "pl_validText (pp_Goal plan) 2000 True" "pl_validText (pp_OutputContract plan) 2000 True"
    "pl_validText (pp_ApprovalBoundary plan) 1000 True" "validPhase (pp_PhaseScope plan)"
    using assms
    by (auto simp: validatePlan_def bind_result_eq_Inr check_each_ok split: if_splits)
  then show ?thesis
    by (auto simp: complete_plan_def pl_validateList_ok list_all_iff dest: pl_validText_required)
qed

lemma validPhase_trim:
  assumes "validPhase phase"
  shows "trim_space phase = phase" and "phase \<noteq> []" and "plain_text phase"
proof -
  have "is_ascii phase" using assms by (auto simp: validPhase_def)
  then have "trim_space phase = rev (dropWhile space_byte (rev (dropWhile space_byte phase)))"
    by (rule trim_space_ascii)
  then show trim: "trim_space phase = phase"
    using assms by (auto simp: validPhase_def space_byte_def is_space_def)
  show "phase \<noteq> []" using assms by (auto simp: validPhase_def)
  show "plain_text phase"
    unfolding plain_text_def trim using assms by (auto simp: validPhase_def str_contains_def)
qed

lemma complete_plan_titles:
  assumes "complete_plan plan"
  shows "subseq requiredTitles (map fst (plan_parts plan True))"
proof -
  have titles1: "map fst (text_part t v) = [t]" if "trim_space v \<noteq> []" for t v
    using that by (simp add: text_part_def)
  have titles2: "map fst (list_part t vs) = [t]" if "vs \<noteq> []" for t vs
    using that by (simp add: list_part_def)
  show ?thesis
    using assms validPhase_trim [of "pp_PhaseScope plan"]
    unfolding requiredTitles_def plan_parts_def complete_plan_def plan_required_def
    by (simp add: titles1 titles2)
       (intro list_emb_append2 list_emb_Cons2 refl list_emb_Nil)
qed

lemma looksCompiled_RenderPlan:
  assumes "complete_plan plan" and "plain_plan plan"
  shows "looksCompiled (RenderPlan plan True)"
proof -
  have "ascending_sections (show_parts ([] @ plan_parts plan True)) (- 1) requiredTitles"
    using good_plan_parts [OF assms(2)] distinct_plan_parts complete_plan_titles [OF assms(1)]
    by (intro ascending_sections_parts) (simp_all add: list_all_iff offset_def)
  then show ?thesis by (simp add: looksCompiled_def RenderPlan_parts)
qed

section \<open>Library: the default plan\<close>

definition default_tail :: "part list" where
  "default_tail =
     [(''Success criteria'', ''- Complete the requested outcome without dropping stated requirements.''),
      (''Constraints'', ''- Preserve explicit facts, decisions, caveats, language, safety, privacy, and authorization boundaries.''),
      (''Decision rules'', ''- Ask only when material ambiguity prevents a safe result.''),
      (''Evidence'', ''- Use the evidence required by the request; do not invent support.''),
      (''Tools'', ''- Use only task-relevant tools within granted permissions.''),
      (''Approval boundary'', ''Do not execute, expand scope, or take external action without applicable authorization.''),
      (''Phase'', ''design''),
      (''Validation'', ''- Check the artifact against the goal, constraints, evidence, and requested format.''),
      (''Output'', ''Return the requested artifact and material next action.''),
      (''Stop'', ''- Stop when the result is validated; if blocked, report the blocker and next safe action.''),
      (''Fallback'', ''- Return the safest useful partial result with missing evidence identified.''),
      (''Abstain'', ''- Abstain from unsafe, unauthorized, or unsupported claims.'')]"

text \<open>A text that starts and ends with a visible ASCII character is not trimmed.\<close>

lemma trim_space_visible:
  assumes "s \<noteq> []" and "byte (hd s) < 128" and "\<not> space_byte (hd s)"
    and "byte (last s) < 128" and "\<not> space_byte (last s)"
  shows "trim_space s = s"
proof -
  obtain c cs where s: "s = c # cs" using assms(1) by (cases s) auto
  have "trim_left_space s = s"
    using assms(2,3) by (intro trim_left_space_id) (simp add: s space_byte_def)
  moreover have "trim_right_space s = s"
    using assms(1,4,5) by (intro trim_right_space_id) (simp add: decode_last_rune_def space_byte_def)
  ultimately show ?thesis by (simp add: trim_space_def)
qed

lemma plan_parts_default: "plan_parts (defaultPlan intent) True = text_part ''Goal'' intent @ default_tail"
  by (simp add: plan_parts_def defaultPlan_def default_tail_def text_part_def list_part_def
      optional_part_def trim_space_visible space_byte_def is_space_def)

lemma complete_defaultPlan: "trim_space intent \<noteq> [] \<Longrightarrow> complete_plan (defaultPlan intent)"
  by (simp add: complete_plan_def defaultPlan_def plan_required_def trim_space_visible
      space_byte_def is_space_def validPhase_def)

lemma length_RenderPlan_default:
  "length (RenderPlan (defaultPlan intent) True) \<le> length intent + 2000"
  using trim_space_length [of intent]
  by (simp add: RenderPlan_parts plan_parts_default text_part_def default_tail_def show_parts_Cons
      show_part_def)

text \<open>A rendered document in lines.\<close>

definition part_lines :: "part \<Rightarrow> string list" where
  "part_lines p = (fst p @ '':'') # split_on LF (snd p)"

fun parts_lines :: "part list \<Rightarrow> string list" where
  "parts_lines [] = []"
| "parts_lines [p] = part_lines p"
| "parts_lines (p # q # ps) = part_lines p @ [] # parts_lines (q # ps)"

lemma join_append:
  "xs \<noteq> [] \<Longrightarrow> ys \<noteq> [] \<Longrightarrow> join sep (xs @ ys) = join sep xs @ sep @ join sep ys"
  by (induction sep xs rule: join.induct) (auto simp: join_Cons)

lemma parts_lines_ne_Nil: "ps \<noteq> [] \<Longrightarrow> parts_lines ps \<noteq> []"
  by (induction ps rule: parts_lines.induct) (auto simp: part_lines_def)

lemma join_part_lines: "join [LF] (part_lines p) = show_part p"
  by (simp add: part_lines_def show_part_def join_Cons join_split_on)

lemma join_parts_lines: "join [LF] (parts_lines ps) = show_parts ps"
proof (induction ps rule: parts_lines.induct)
  case (3 p q ps)
  have "join [LF] (part_lines p @ [] # parts_lines (q # ps)) =
      show_part p @ [LF] @ join [LF] ([] # parts_lines (q # ps))"
    by (subst join_append) (simp_all add: join_part_lines, simp add: part_lines_def)
  with 3 show ?case by (simp add: join_Cons parts_lines_ne_Nil show_parts_Cons)
qed (simp_all add: show_parts_def join_part_lines)

lemma normal_lines_append:
  assumes "normal_lines xs" and "normal_lines ys"
  shows "normal_lines (xs @ [] # ys)"
  using assms by (auto simp: normal_lines_def clean_lines_def no_double_blank_def successively_append_iff
      successively_Cons)

definition normal_part :: "part \<Rightarrow> bool" where
  "normal_part p \<longleftrightarrow> is_ascii (fst p) \<and> LF \<notin> set (fst p) \<and> CR \<notin> set (fst p) \<and>
     normal_lines (split_on LF (snd p))"

lemma normal_part_lines:
  assumes "normal_part p"
  shows "normal_lines (part_lines p)"
proof -
  have title: "clean_line (fst p @ '':'')"
    using assms valid_utf8_ascii [of "fst p @ '':''"] trim_right_space_id [of "fst p @ '':''"]
      trim_sides_blank(2) [of "fst p @ '':''"]
    by (auto simp: normal_part_def clean_line_def trim_right_set_self decode_last_rune_def is_space_def)
  have "split_on LF (snd p) \<noteq> []" "normal_lines (split_on LF (snd p))"
    using assms by (simp_all add: normal_part_def)
  with title show ?thesis
    by (cases "split_on LF (snd p)")
       (auto simp: part_lines_def normal_lines_def clean_lines_def no_double_blank_def)
qed

lemma normal_parts_lines:
  "ps \<noteq> [] \<Longrightarrow> list_all normal_part ps \<Longrightarrow> normal_lines (parts_lines ps)"
  by (induction ps rule: parts_lines.induct)
     (auto simp: normal_part_lines intro: normal_lines_append)

lemma normal_line_part:
  assumes "is_ascii t" and "LF \<notin> set t" and "CR \<notin> set t" and "is_ascii c" and "c \<noteq> []"
    and "LF \<notin> set c" and "CR \<notin> set c" and "\<not> space_byte (hd c)" and "\<not> space_byte (last c)"
  shows "normal_part (t, c)"
proof -
  have "byte (hd c) < 128" "byte (last c) < 128"
    using assms(4,5) by (auto simp: is_ascii_def list_all_iff)
  with assms have "trim_space c = c" by (intro trim_space_visible) auto
  moreover have "last c \<noteq> CHR '' ''" "last c \<noteq> TAB"
    using assms(9) by (auto simp: space_byte_def is_space_def)
  ultimately have "clean_line c"
    using assms by (auto simp: clean_line_def valid_utf8_ascii trim_right_set_self)
  with assms show ?thesis
    by (simp add: normal_part_def split_on_single normal_lines_def clean_lines_def)
qed

lemma normal_default_tail: "list_all normal_part default_tail"
  unfolding default_tail_def
  by (simp add: normal_line_part space_byte_def is_space_def)

lemma last_show_parts:
  "ps \<noteq> [] \<Longrightarrow> snd (last ps) \<noteq> [] \<Longrightarrow> last (show_parts ps) = last (snd (last ps))"
proof (induction ps rule: rev_induct)
  case (snoc p ps)
  then show ?case
    by (cases "ps = []") (simp_all add: show_parts_append show_parts_Cons show_part_def)
qed simp

lemma Normalize_RenderPlan_default:
  assumes "Normalize input = Inr intent"
  shows "Normalize (RenderPlan (defaultPlan intent) True) = Inr (RenderPlan (defaultPlan intent) True)"
proof -
  obtain ls where ls: "normal_lines ls" "intent = join [LF] ls" "trim_space intent = intent"
    using Normalize_result [OF assms] by blast
  have lines: "split_on LF intent = ls"
    unfolding ls(2) using ls(1)
    by (intro split_on_join) (auto simp: normal_lines_def clean_lines_def clean_line_def)
  have ne: "intent \<noteq> []" using assms by (auto simp: Normalize_def Let_def split: if_splits)
  let ?ps = "(''Goal'', intent) # default_tail"
  have render: "RenderPlan (defaultPlan intent) True = show_parts ?ps"
    using ne ls(3) by (simp add: RenderPlan_parts plan_parts_default text_part_def)
  have "normal_part (''Goal'', intent)" using ls(1) lines by (simp add: normal_part_def)
  then have normal: "normal_lines (parts_lines ?ps)"
    using normal_default_tail by (intro normal_parts_lines) simp_all
  have "last (show_parts ?ps) = CHR ''.''"
    by (subst last_show_parts) (simp_all add: default_tail_def)
  moreover have "show_parts ?ps \<noteq> []" "hd (show_parts ?ps) = CHR ''G''"
    by (simp_all add: show_parts_Cons show_part_def)
  ultimately have "trim_space (show_parts ?ps) = show_parts ?ps"
    by (intro trim_space_visible) (simp_all add: space_byte_def is_space_def)
  with Normalize_normal_lines [OF normal] show ?thesis
    by (simp add: render join_parts_lines)
qed

end
