(* ===== verification/Compiler_Props.thy ===== *)
theory Compiler_Props
  imports Compiler_Sections
begin

text \<open>
  Properties of \<open>internal/compiler/compiler.go\<close>: round trips of rendered plans, the policy
  outcome of an improved prompt, idempotence and totality, and the review fix prompt.
\<close>

section \<open>Properties\<close>

lemma Normalize_plain:
  assumes "Normalize input = Inr v"
  shows "v \<noteq> []" and "trim_space v = v" and "Normalize v = Inr v" and "valid_utf8 v"
proof -
  obtain ls where ls: "normal_lines ls" "v = join [LF] ls" "trim_space v = v"
    using Normalize_result [OF assms] by blast
  then show "Normalize v = Inr v" "trim_space v = v" using Normalize_normal_lines by auto
  then show "v \<noteq> []" "valid_utf8 v" by (auto simp: Normalize_def Let_def split: if_splits)
qed

text \<open>C7: a rendered plan can be read back. If none of the texts of a validated plan contains an
  empty line, the rendered prompt is recognised as compiled, every section heading finds
  exactly the content the plan gave it, and absent sections are reported absent.\<close>

theorem render_plan_roundtrip:
  assumes "validatePlan plan = Inr ()" and "plain_plan plan"
  shows "looksCompiled (RenderPlan plan True) \<and>
    sectionValue (RenderPlan plan True) ''Phase'' = (pp_PhaseScope plan, True) \<and>
    sectionValue (RenderPlan plan True) ''Goal'' = (trim_space (pp_Goal plan), True) \<and>
    (\<forall>t. LF \<notin> set t \<longrightarrow> sectionValue (RenderPlan plan True) t =
       (case map_of (plan_parts plan True) t of
          None \<Rightarrow> ([], False)
        | Some c \<Rightarrow> (trim_space c, trim_space c \<noteq> [])))"
proof -
  have complete: "complete_plan plan" using assms(1) by (rule validatePlan_complete)
  note read = sectionValue_parts [OF good_plan_parts [OF assms(2)] distinct_plan_parts,
      folded RenderPlan_parts]
  have "text_part ''Phase'' (pp_PhaseScope plan) = [(''Phase'', pp_PhaseScope plan)]"
    "text_part ''Goal'' (pp_Goal plan) = [(''Goal'', trim_space (pp_Goal plan))]"
    using complete validPhase_trim [of "pp_PhaseScope plan"]
    by (simp_all add: complete_plan_def text_part_def)
  then have "(''Phase'', pp_PhaseScope plan) \<in> set (plan_parts plan True)"
    "(''Goal'', trim_space (pp_Goal plan)) \<in> set (plan_parts plan True)"
    by (simp_all add: plan_parts_def)
  note parts = this [THEN map_of_is_SomeI [OF distinct_plan_parts]]
  have "trim_space (pp_PhaseScope plan) = pp_PhaseScope plan" "pp_PhaseScope plan \<noteq> []"
    "trim_space (pp_Goal plan) \<noteq> []"
    using complete validPhase_trim by (auto simp: complete_plan_def)
  with read parts looksCompiled_RenderPlan [OF complete assms(2)] show ?thesis by simp
qed

text \<open>What a successful \<open>improve\<close> without an explicit plan computed.\<close>

definition kept_phase :: "string \<Rightarrow> string option" where
  "kept_phase intent =
     (let (phase, ok) = sectionValue intent ''Phase'' in
      if looksCompiled intent \<and> ok \<and> validPhase phase then Some phase else None)"

text \<open>The part of \<open>improve\<close> after the checks, as one equation.\<close>

definition compile_plan ::
  "improve_prompt_request \<Rightarrow> host_permission \<Rightarrow> string \<Rightarrow> prompt_plan \<Rightarrow> improve_prompt_result go_result" where
  "compile_plan request host compiled plan =
     (if length compiled > 16000 then
        Inl (semanticInvalid ''compiled prompt exceeds 16000 bytes'' ''improved_prompt'')
      else bind_result (policy_Resolve (ipq_ExecutionPolicy request) (pp_PhaseScope plan) host)
        (\<lambda>outcome.
           Inr \<lparr>ipr_SchemaVersion = SchemaVersion, ipr_Kind = ''result'',
                ipr_ImprovedPrompt = compiled, ipr_PolicyOutcome = outcome,
                ipr_Diagnostics = [], ipr_BoundaryDecisions = []\<rparr>))"

lemma improve_eq:
  assumes "\<not> ctx 0" and "\<not> ctx 1" and "prepareImproveRequest request = Inr (intent, plan)"
  shows "improve ctx request host [] =
    (case if ipq_PromptPlan request = None then kept_phase intent else None of
       Some phase \<Rightarrow> compile_plan request host intent (plan\<lparr>pp_PhaseScope := phase\<rparr>)
     | None \<Rightarrow> compile_plan request host (RenderPlan plan True) plan)"
  using assms
  by (cases "sectionValue intent ''Phase''"; cases "ipq_PromptPlan request")
     (simp_all add: improve_def checkContext_def kept_phase_def compile_plan_def Let_def)

lemma improve_Inr:
  assumes "improve ctx request host phase = Inr r"
  obtains intent plan where "\<not> ctx 0" and "\<not> ctx 1" and
    "prepareImproveRequest request = Inr (intent, plan)"
  using assms
  by (cases "ctx 0"; cases "ctx 1"; cases "prepareImproveRequest request")
     (auto simp: improve_def checkContext_def)

lemma prepare_noplan:
  assumes "ipq_PromptPlan request = None" and "prepareImproveRequest request = Inr (intent, plan)"
  shows "Normalize (ipq_Intent request) = Inr intent" and "plan = defaultPlan intent"
  using assms by (auto simp: prepareImproveRequest_def bind_result_eq_Inr split: if_splits)

lemma compile_plan_Inr:
  "compile_plan request host compiled plan = Inr r \<longleftrightarrow>
     length compiled \<le> 16000 \<and> ipr_ImprovedPrompt r = compiled \<and>
     policy_Resolve (ipq_ExecutionPolicy request) (pp_PhaseScope plan) host = Inr (ipr_PolicyOutcome r) \<and>
     ipr_SchemaVersion r = SchemaVersion \<and> ipr_Kind r = ''result'' \<and> ipr_Diagnostics r = [] \<and>
     ipr_BoundaryDecisions r = []"
  by (auto simp: compile_plan_def bind_result_eq_Inr)

lemma improve_noplan:
  assumes "improve ctx request host [] = Inr r" and "ipq_PromptPlan request = None"
    and "Normalize (ipq_Intent request) = Inr intent"
  shows "ipr_ImprovedPrompt r =
      (case kept_phase intent of Some _ \<Rightarrow> intent | None \<Rightarrow> RenderPlan (defaultPlan intent) True)"
    and "policy_Resolve (ipq_ExecutionPolicy request)
      (case kept_phase intent of Some phase \<Rightarrow> phase | None \<Rightarrow> ''design'') host =
        Inr (ipr_PolicyOutcome r)"
proof -
  obtain i plan where p: "\<not> ctx 0" "\<not> ctx 1" "prepareImproveRequest request = Inr (i, plan)"
    using improve_Inr [OF assms(1)] by metis
  have i: "i = intent" "plan = defaultPlan intent"
    using prepare_noplan [OF assms(2) p(3)] assms(3) by simp_all
  have "pp_PhaseScope (defaultPlan intent) = ''design''" by (simp add: defaultPlan_def)
  then show "ipr_ImprovedPrompt r =
      (case kept_phase intent of Some _ \<Rightarrow> intent | None \<Rightarrow> RenderPlan (defaultPlan intent) True)"
    "policy_Resolve (ipq_ExecutionPolicy request)
      (case kept_phase intent of Some phase \<Rightarrow> phase | None \<Rightarrow> ''design'') host =
        Inr (ipr_PolicyOutcome r)"
    using assms(1,2) unfolding improve_eq [OF p] i
    by (auto simp: compile_plan_Inr split: option.splits)
qed

lemma improve_length:
  assumes "improve ctx request host [] = Inr r"
  shows "length (ipr_ImprovedPrompt r) \<le> 16000"
proof -
  obtain intent plan where p: "\<not> ctx 0" "\<not> ctx 1" "prepareImproveRequest request = Inr (intent, plan)"
    using improve_Inr [OF assms] by metis
  show ?thesis
    using assms unfolding improve_eq [OF p] by (auto simp: compile_plan_Inr split: option.splits)
qed

text \<open>Free text is never a licence to act. Without an explicit plan, execution is
  recommended exactly when the text itself is a compiled prompt whose phase section says
  implementation, the policy is follow_user_intent and the host permits it.\<close>

theorem improve_recommends_iff:
  assumes "Improve ctx request host = Inr r" and "ipq_PromptPlan request = None"
    and "Normalize (ipq_Intent request) = Inr intent"
  shows "ipr_PolicyOutcome r = PolicyOutcomeExecutionRecommended \<longleftrightarrow>
    looksCompiled intent \<and> sectionValue intent ''Phase'' = (''implementation'', True) \<and>
    ipq_ExecutionPolicy request = ExecutionPolicyFollowUserIntent \<and> host = HostPermitted"
proof -
  define phase where "phase = (case kept_phase intent of Some phase \<Rightarrow> phase | None \<Rightarrow> ''design'')"
  have pol: "policy_Resolve (ipq_ExecutionPolicy request) phase host = Inr (ipr_PolicyOutcome r)"
    using improve_noplan(2) [OF assms(1) [unfolded Improve_def] assms(2,3)] by (simp add: phase_def)
  then have valid: "ValidExecutionPolicy (ipq_ExecutionPolicy request)" "ValidHostPermission host"
    "validPhase phase" using policy_Resolve_ok_iff by blast+
  have "ipr_PolicyOutcome r = PolicyOutcomeExecutionRecommended \<longleftrightarrow>
      phase = ''implementation'' \<and> ipq_ExecutionPolicy request = ExecutionPolicyFollowUserIntent \<and>
      host = HostPermitted"
    using policy_Resolve_valid [OF valid] pol by (auto split: if_splits)
  moreover have "phase = ''implementation'' \<longleftrightarrow>
      looksCompiled intent \<and> sectionValue intent ''Phase'' = (''implementation'', True)"
    unfolding phase_def kept_phase_def
    by (cases "sectionValue intent ''Phase''") (auto simp: validPhase_def split: if_splits)
  ultimately show ?thesis by blast
qed

lemma default_plan_plain: "plain_text intent \<Longrightarrow> plain_plan (defaultPlan intent)"
  by (simp add: plain_plan_def plan_texts_def defaultPlan_def plain_text_def str_contains_def
      trim_space_visible space_byte_def is_space_def)

lemma kept_phase_default:
  assumes "plain_plan (defaultPlan intent)" and "complete_plan (defaultPlan intent)"
  shows "kept_phase (RenderPlan (defaultPlan intent) True) = Some ''design''"
proof -
  have "map_of (plan_parts (defaultPlan intent) True) ''Phase'' = Some ''design''"
    by (intro map_of_is_SomeI distinct_plan_parts) (simp add: plan_parts_default default_tail_def)
  then have "sectionValue (RenderPlan (defaultPlan intent) True) ''Phase'' = (''design'', True)"
    using sectionValue_parts [OF good_plan_parts [OF assms(1)] distinct_plan_parts, of "''Phase''" True]
    by (simp add: RenderPlan_parts trim_space_visible space_byte_def is_space_def)
  with looksCompiled_RenderPlan [OF assms(2,1)] show ?thesis
    by (simp add: kept_phase_def validPhase_def)
qed

text \<open>A text of one paragraph has at most one heading, so it does not look compiled.\<close>

lemma kept_phase_single:
  assumes "\<not> str_contains intent [LF, LF]"
  shows "kept_phase intent = None"
proof -
  have "str_index ([LF, LF] @ h) intent = None" for h
  proof (rule ccontr)
    assume "str_index ([LF, LF] @ h) intent \<noteq> None"
    then have "sublist ([LF, LF] @ h) intent"
      using str_contains_iff [of intent "[LF, LF] @ h"] by (simp add: str_contains_def)
    then obtain ps ss where "intent = ps @ [LF, LF] @ (h @ ss)" by (auto simp: sublist_def)
    with assms show False by (metis str_contains_iff sublist_appendI)
  qed
  then have index: "sectionIndex intent t = (if prefix (t @ '':'' @ [LF]) intent then Some 0 else None)" for t
    by (simp add: sectionIndex_def)
  have "\<not> looksCompiled intent"
    by (simp add: looksCompiled_def requiredTitles_def index)
  then show ?thesis by (simp add: kept_phase_def case_prod_beta)
qed

text \<open>A request for plain text, used by the witnesses.\<close>

definition plain_request :: "string \<Rightarrow> execution_policy \<Rightarrow> improve_prompt_request" where
  "plain_request intent ep =
     \<lparr>ipq_SchemaVersion = SchemaVersion, ipq_Kind = ''request'', ipq_Intent = intent,
      ipq_ExecutionPolicy = ep, ipq_PromptPlan = None, ipq_Budget = None\<rparr>"

lemma prepare_total:
  assumes "ipq_SchemaVersion request = SchemaVersion" and "ipq_Kind request = ''request''"
    and "ValidExecutionPolicy (ipq_ExecutionPolicy request)" and "length (ipq_Intent request) \<le> 8000"
    and "Normalize (ipq_Intent request) = Inr intent" and "ipq_PromptPlan request = None"
    and "ipq_Budget request = None"
  shows "prepareImproveRequest request = Inr (intent, defaultPlan intent)"
  using assms by (simp add: prepareImproveRequest_def)

lemma kept_phase_valid: "kept_phase intent = Some phase \<Longrightarrow> validPhase phase"
  by (auto simp: kept_phase_def Let_def split: prod.splits if_splits)

text \<open>Plain text always compiles. A well-formed request of at most 8000 bytes of valid,
  non-blank text without plan and budget is never refused: it yields a prompt of at most 16000
  bytes whose policy outcome is the one the policy table gives.\<close>

theorem improve_plain_total:
  assumes "ipq_SchemaVersion request = SchemaVersion" and "ipq_Kind request = ''request''"
    and "ValidExecutionPolicy (ipq_ExecutionPolicy request)" and "ValidHostPermission host"
    and "length (ipq_Intent request) \<le> 8000"
    and "Normalize (ipq_Intent request) = Inr intent" and "length intent \<le> 8000"
    and "ipq_PromptPlan request = None" and "ipq_Budget request = None"
    and "\<not> ctx 0" and "\<not> ctx 1"
  shows "\<exists>r. Improve ctx request host = Inr r \<and> length (ipr_ImprovedPrompt r) \<le> 16000 \<and>
    (ipr_ImprovedPrompt r = intent \<or> ipr_ImprovedPrompt r = RenderPlan (defaultPlan intent) True)"
proof -
  have prep: "prepareImproveRequest request = Inr (intent, defaultPlan intent)"
    using assms by (intro prepare_total)
  have len: "length (RenderPlan (defaultPlan intent) True) \<le> 16000"
    using length_RenderPlan_default [of intent] assms(7) by linarith
  have pol: "\<exists>oc. policy_Resolve (ipq_ExecutionPolicy request) phase host = Inr oc"
    if "validPhase phase" for phase
    using policy_Resolve_valid [OF assms(3,4) that] by blast
  have design: "validPhase (pp_PhaseScope (defaultPlan intent))"
    by (simp add: defaultPlan_def validPhase_def)
  show ?thesis
  proof (cases "kept_phase intent")
    case None
    with pol [OF design] len show ?thesis
      unfolding Improve_def improve_eq [OF assms(10,11) prep]
      by (auto simp: compile_plan_def)
  next
    case (Some phase)
    from pol [OF kept_phase_valid [OF this]] Some assms(7,8) show ?thesis
      unfolding Improve_def improve_eq [OF assms(10,11) prep]
      by (auto simp: compile_plan_def)
  qed
qed

lemma plain_request_improves:
  assumes "ValidExecutionPolicy ep" and "ValidHostPermission host"
  shows "\<exists>r. Improve (\<lambda>_. False) (plain_request ''Fix'' ep) host = Inr r"
proof -
  have prep: "prepareImproveRequest (plain_request ''Fix'' ep) = Inr (''Fix'', defaultPlan ''Fix'')"
    using assms Normalize_fix by (intro prepare_total) (simp_all add: plain_request_def)
  have none: "kept_phase ''Fix'' = None" by (rule kept_phase_single) (simp add: str_contains_def)
  have "validPhase ''design''" by (simp add: validPhase_def)
  from policy_Resolve_valid [OF assms this] length_RenderPlan_default [of "''Fix''"] none show ?thesis
    unfolding Improve_def
    by (subst improve_eq [OF _ _ prep]) (auto simp: compile_plan_def plain_request_def defaultPlan_def)
qed

theorem improve_plain_total_witness:
  "\<exists>r. Improve (\<lambda>_. False) (plain_request ''Fix'' ExecutionPolicyImproveOnly) HostUnknown = Inr r \<and>
     length (ipr_ImprovedPrompt r) \<le> 16000"
  using improve_plain_total [of "plain_request ''Fix'' ExecutionPolicyImproveOnly" HostUnknown "''Fix''"
      "\<lambda>_. False"] Normalize_fix
  by (auto simp: plain_request_def policy_valid_defs)

text \<open>C8: improving is idempotent up to the limit of its input. When a request without a plan of its own,
  whose normalised intent has no empty line, was compiled, compiling the result once more gives back the
  identical result, prompt and policy outcome, as long as the prompt has at most 8000 bytes; a longer
  prompt is refused as an intent that is too long.\<close>

theorem improve_idempotent:
  assumes "Improve ctx request host = Inr r" and "ipq_PromptPlan request = None"
    and "Normalize (ipq_Intent request) = Inr intent" and "\<not> str_contains intent [LF, LF]"
  shows "Improve ctx (request\<lparr>ipq_Intent := ipr_ImprovedPrompt r\<rparr>) host =
    (if length (ipr_ImprovedPrompt r) \<le> 8000 then Inr r
     else Inl (compiler_invalid ''intent exceeds 8000 bytes'' ''intent''))"
proof (cases "length (ipr_ImprovedPrompt r) \<le> 8000")
  case False
  obtain i plan where p: "\<not> ctx 0" "prepareImproveRequest request = Inr (i, plan)"
    using improve_Inr [OF assms(1) [unfolded Improve_def]] by metis
  have "prepareImproveRequest (request\<lparr>ipq_Intent := ipr_ImprovedPrompt r\<rparr>) =
      Inl (compiler_invalid ''intent exceeds 8000 bytes'' ''intent'')"
    using p(2) False by (simp add: prepareImproveRequest_def split: if_splits)
  then show ?thesis
    using p(1) False by (simp add: Improve_def improve_def checkContext_def)
next
  case True
  let ?v = "RenderPlan (defaultPlan intent) True"
  let ?again = "request\<lparr>ipq_Intent := ipr_ImprovedPrompt r\<rparr>"
  note imp = assms(1) [unfolded Improve_def]
  obtain i plan where p: "\<not> ctx 0" "\<not> ctx 1" "prepareImproveRequest request = Inr (i, plan)"
    using improve_Inr [OF imp] by metis
  have i: "i = intent" "plan = defaultPlan intent"
    using prepare_noplan [OF assms(2) p(3)] assms(3) by simp_all
  note intent = Normalize_plain [OF assms(3)]
  have "plain_plan (defaultPlan intent)"
    using assms(4) intent(2) default_plan_plain [of intent] by (simp add: plain_text_def)
  moreover have "complete_plan (defaultPlan intent)"
    using intent(1,2) complete_defaultPlan by simp
  ultimately have kept: "kept_phase ?v = Some ''design''"
    by (rule kept_phase_default)
  have none: "kept_phase intent = None"
    using assms(4) by (rule kept_phase_single)
  then have v: "ipr_ImprovedPrompt r = ?v"
    using improve_noplan(1) [OF imp assms(2,3)] by simp
  have "prepareImproveRequest ?again = Inr (?v, defaultPlan ?v)"
    using p(3) Normalize_RenderPlan_default [OF assms(3)] assms(2) True
    by (auto simp: prepareImproveRequest_def v bind_result_eq_Inr split: if_splits option.splits)
  moreover have "pp_PhaseScope (defaultPlan intent) = ''design''" by (simp add: defaultPlan_def)
  ultimately show ?thesis
    using imp p(1,2) kept none assms(2) i True
    unfolding Improve_def improve_eq [OF p]
    by (simp add: improve_eq compile_plan_Inr)
qed

theorem improve_idempotent_witness:
  "\<exists>r. Improve (\<lambda>_. False) (plain_request ''Fix'' ExecutionPolicyImproveOnly) HostUnknown = Inr r \<and>
     Improve (\<lambda>_. False) (plain_request (ipr_ImprovedPrompt r) ExecutionPolicyImproveOnly) HostUnknown = Inr r"
proof -
  obtain r where r: "Improve (\<lambda>_. False) (plain_request ''Fix'' ExecutionPolicyImproveOnly) HostUnknown = Inr r"
    using plain_request_improves [of ExecutionPolicyImproveOnly HostUnknown]
    by (auto simp: policy_valid_defs)
  have n: "Normalize (ipq_Intent (plain_request ''Fix'' ExecutionPolicyImproveOnly)) = Inr ''Fix''"
    by (simp add: plain_request_def Normalize_fix)
  have single: "\<not> str_contains ''Fix'' [LF, LF]" by (simp add: str_contains_def)
  have "ipr_ImprovedPrompt r = RenderPlan (defaultPlan ''Fix'') True"
    using improve_noplan(1) [OF r [unfolded Improve_def] _ n] kept_phase_single [OF single]
    by (simp add: plain_request_def)
  then have len: "length (ipr_ImprovedPrompt r) \<le> 8000"
    using length_RenderPlan_default [of "''Fix''"] by simp
  have "Improve (\<lambda>_. False) ((plain_request ''Fix'' ExecutionPolicyImproveOnly)\<lparr>ipq_Intent := ipr_ImprovedPrompt r\<rparr>)
      HostUnknown = Inr r"
    using improve_idempotent [OF r _ n single] len by (simp add: plain_request_def)
  with r show ?thesis by (auto simp: plain_request_def)
qed

section \<open>Review fixes\<close>

lemma list_all2_member: "list_all2 P xs ys \<Longrightarrow> x \<in> set xs \<Longrightarrow> \<exists>y \<in> set ys. P x y"
  by (induction rule: list_all2_induct) auto

lemma sublist_appends: "sublist s t \<Longrightarrow> sublist s (u @ t)" "sublist s t \<Longrightarrow> sublist s (t @ u)"
  unfolding sublist_def by (metis append_assoc)+

lemma sublist_concat: "s \<in> set xs \<Longrightarrow> sublist s (concat xs)"
  by (induction xs) (auto intro: sublist_appends)

lemma truncateUTF8_bounds: "length (truncateUTF8 v limit) \<le> limit \<and> prefix (truncateUTF8 v limit) v"
proof (induction v limit rule: truncateUTF8.induct)
  case (1 v limit)
  show ?case
  proof (cases "length v > limit")
    case True
    with 1 have "length (truncateUTF8 v limit) \<le> limit"
      "prefix (truncateUTF8 v limit) (take (length v - snd (decode_last_rune v)) v)"
      by (simp_all add: truncateUTF8.simps [of v])
    then show ?thesis using take_is_prefix prefix_order.trans by blast
  qed (simp add: truncateUTF8.simps)
qed

lemma failureClass_bounds: "failureClass uc f \<noteq> [] \<and> length (failureClass uc f) \<le> 200"
  using truncateUTF8_bounds by (simp add: failureClass_def Let_def)

lemma collect_findings_spec:
  assumes "collect_findings uc fs cs items = Inr (fs', cs')"
  shows "\<exists>vs. list_all2 (\<lambda>i v. Normalize i = Inr v \<and> length i \<le> 1000) items vs \<and> fs' = fs @ vs \<and>
    set cs' = set cs \<union> failureClass uc ` set vs \<and> (distinct cs \<longrightarrow> distinct cs') \<and>
    length cs' \<le> length cs + length items"
  using assms
proof (induction items arbitrary: fs cs)
  case (Cons i items)
  then obtain v where v: "Normalize i = Inr v" "length i \<le> 1000"
    and rec: "collect_findings uc (fs @ [v])
      (if failureClass uc v \<in> set cs then cs else cs @ [failureClass uc v]) items = Inr (fs', cs')"
    by (auto simp: Let_def split: if_splits sum.splits)
  let ?cs = "if failureClass uc v \<in> set cs then cs else cs @ [failureClass uc v]"
  from Cons.IH [OF rec] obtain vs where
    "list_all2 (\<lambda>i v. Normalize i = Inr v \<and> length i \<le> 1000) items vs" "fs' = (fs @ [v]) @ vs"
    "set cs' = set ?cs \<union> failureClass uc ` set vs"
    "distinct ?cs \<longrightarrow> distinct cs'" "length cs' \<le> length ?cs + length items"
    by blast
  with v show ?case by (intro exI [of _ "v # vs"]) (auto split: if_splits)
qed simp

text \<open>A review fix prompt covers every finding. It is bounded by 16000 bytes, lists each
  normalised finding, and its failure classes are distinct, non-empty, at most 200 bytes long
  and exactly the classes of the findings.\<close>

theorem review_fix_covers:
  assumes "CreateReviewFix uc ctx request = Inr r"
  shows "length (crr_FixPrompt r) \<le> 16000 \<and> reviewHeadMatch (crq_ReviewHead request) \<and>
    distinct (crr_FailureClasses r) \<and> crr_FailureClasses r \<noteq> [] \<and>
    length (crr_FailureClasses r) \<le> length (crq_Findings request) \<and>
    (\<forall>c \<in> set (crr_FailureClasses r). c \<noteq> [] \<and> length c \<le> 200) \<and>
    (\<forall>f \<in> set (crq_Findings request). \<exists>v. Normalize f = Inr v \<and>
       failureClass uc v \<in> set (crr_FailureClasses r) \<and>
       str_contains (crr_FixPrompt r) (''- '' @ v @ [LF]))"
proof -
  obtain fs cs where coll: "collect_findings uc [] [] (crq_Findings request) = Inr (fs, cs)"
    and len: "length (crr_FixPrompt r) \<le> 16000" and hd: "reviewHeadMatch (crq_ReviewHead request)"
    and ne: "crq_Findings request \<noteq> []" and cs: "crr_FailureClasses r = cs"
    and prompt: "crr_FixPrompt r = ''Fix review findings for head '' @ crq_ReviewHead request @ ''.'' @ [LF, LF] @
             ''Findings:'' @ [LF] @ concat (map (\<lambda>finding. ''- '' @ finding @ [LF]) fs) @
             reviewFixInstructions"
    using assms
    by (auto simp: CreateReviewFix_def bind_result_eq_Inr Let_def split: if_splits)
  from collect_findings_spec [OF coll] have
    fs: "list_all2 (\<lambda>i v. Normalize i = Inr v \<and> length i \<le> 1000) (crq_Findings request) fs"
    and set_cs: "set cs = failureClass uc ` set fs" and dist: "distinct cs"
    and len_cs: "length cs \<le> length (crq_Findings request)" by auto
  have "fs \<noteq> []" using fs ne by auto
  then have "cs \<noteq> []" using set_cs by (cases cs) auto
  moreover have "\<exists>v. Normalize f = Inr v \<and> failureClass uc v \<in> set cs \<and>
      str_contains (crr_FixPrompt r) (''- '' @ v @ [LF])" if f: "f \<in> set (crq_Findings request)" for f
  proof -
    obtain v where v: "v \<in> set fs" "Normalize f = Inr v"
      using list_all2_member [OF fs f] by blast
    have "sublist (''- '' @ v @ [LF]) (concat (map (\<lambda>finding. ''- '' @ finding @ [LF]) fs))"
      by (rule sublist_concat) (use v in simp)
    then have "sublist (''- '' @ v @ [LF]) (crr_FixPrompt r)"
      unfolding prompt by (blast intro: sublist_appends)
    with v set_cs show ?thesis by (auto simp: str_contains_iff)
  qed
  ultimately show ?thesis
    using len hd dist len_cs cs set_cs failureClass_bounds by auto
qed

theorem review_fix_covers_witness:
  "\<exists>r. CreateReviewFix id (\<lambda>_. False) \<lparr>crq_SchemaVersion = SchemaVersion, crq_Kind = ''request'',
      crq_Findings = [''Fix''], crq_ReviewHead = ''abcdef0''\<rparr> = Inr r \<and>
    length (crr_FailureClasses r) \<le> 1 \<and> crr_FailureClasses r \<noteq> []"
proof -
  have "\<exists>r. CreateReviewFix id (\<lambda>_. False) \<lparr>crq_SchemaVersion = SchemaVersion, crq_Kind = ''request'',
      crq_Findings = [''Fix''], crq_ReviewHead = ''abcdef0''\<rparr> = Inr r"
    by (simp add: CreateReviewFix_def checkContext_def reviewHeadMatch_def Normalize_fix
        reviewFixInstructions_def)
  then show ?thesis using review_fix_covers by fastforce
qed

theorem render_plan_roundtrip_witness:
  "looksCompiled (RenderPlan (defaultPlan ''Fix'') True) \<and>
   sectionValue (RenderPlan (defaultPlan ''Fix'') True) ''Phase'' = (''design'', True)"
proof -
  have "validatePlan (defaultPlan ''Fix'') = Inr ()"
    by (simp add: validatePlan_def defaultPlan_def plan_required_def pl_validText_def pl_validateList_def
        valid_utf8_ascii trim_space_visible space_byte_def is_space_def validPhase_def)
  moreover have "plain_plan (defaultPlan ''Fix'')"
    by (rule default_plan_plain)
       (simp add: plain_text_def trim_space_visible space_byte_def is_space_def str_contains_def)
  ultimately show ?thesis
    using render_plan_roundtrip [of "defaultPlan ''Fix''"] by (simp add: defaultPlan_def)
qed

theorem improve_recommends_iff_witness:
  "\<exists>r. Improve (\<lambda>_. False) (plain_request ''Fix'' ExecutionPolicyFollowUserIntent) HostPermitted = Inr r \<and>
     ipr_PolicyOutcome r \<noteq> PolicyOutcomeExecutionRecommended"
proof -
  obtain r where r: "Improve (\<lambda>_. False) (plain_request ''Fix'' ExecutionPolicyFollowUserIntent) HostPermitted = Inr r"
    using plain_request_improves [of ExecutionPolicyFollowUserIntent HostPermitted]
    by (auto simp: policy_valid_defs)
  have n: "Normalize (ipq_Intent (plain_request ''Fix'' ExecutionPolicyFollowUserIntent)) = Inr ''Fix''"
    by (simp add: plain_request_def Normalize_fix)
  have "\<not> looksCompiled ''Fix''"
    by (simp add: looksCompiled_def requiredTitles_def sectionIndex_def Let_def)
  then show ?thesis
    using improve_recommends_iff [OF r _ n] r by (simp add: plain_request_def)
qed

end
