(* ===== verification/Go_Regexp.thy ===== *)
theory Go_Regexp
  imports Go_Strings
begin

text \<open>
  The fragment of Go's \<open>regexp\<close> package the program's patterns use: rune classes, sequences,
  alternatives, repeated classes and the ASCII word boundary, matched anywhere in the runes of
  a string. Case-insensitive literals follow \<open>unicode.SimpleFold\<close>, under which \<open>k\<close> and \<open>s\<close>
  also match U+212A and U+017F.
\<close>

section \<open>Model\<close>

datatype regex =
    REps
  | RSet "nat \<Rightarrow> bool"
  | RSeq regex regex
  | RAlt regex regex
  | RRep "nat \<Rightarrow> bool"
  | RBound

definition word_rune :: "nat \<Rightarrow> bool" where
  "word_rune r \<longleftrightarrow> 48 \<le> r \<and> r \<le> 57 \<or> 65 \<le> r \<and> r \<le> 90 \<or> r = 95 \<or> 97 \<le> r \<and> r \<le> 122"

definition word_boundary :: "nat list \<Rightarrow> nat \<Rightarrow> bool" where
  "word_boundary s i \<longleftrightarrow>
     (0 < i \<and> i \<le> length s \<and> word_rune (s ! (i - 1))) \<noteq> (i < length s \<and> word_rune (s ! i))"

text \<open>The positions where a match that starts at \<open>i\<close> can end.\<close>

fun rx_ends :: "regex \<Rightarrow> nat list \<Rightarrow> nat \<Rightarrow> nat list" where
  "rx_ends REps s i = [i]"
| "rx_ends (RSet p) s i = (if i < length s \<and> p (s ! i) then [Suc i] else [])"
| "rx_ends (RSeq a b) s i = concat (map (rx_ends b s) (rx_ends a s i))"
| "rx_ends (RAlt a b) s i = rx_ends a s i @ rx_ends b s i"
| "rx_ends (RRep p) s i = [i ..< Suc (i + length (takeWhile p (drop i s)))]"
| "rx_ends RBound s i = (if word_boundary s i then [i] else [])"

definition rx_search :: "regex \<Rightarrow> nat list \<Rightarrow> bool" where
  "rx_search r s = list_ex (\<lambda>i. rx_ends r s i \<noteq> []) [0 ..< Suc (length s)]"

definition MatchString :: "regex \<Rightarrow> string \<Rightarrow> bool" where
  "MatchString r s = rx_search r (runes s)"

section \<open>Building patterns\<close>

definition fold_class :: "char \<Rightarrow> nat \<Rightarrow> bool" where
  "fold_class c r \<longleftrightarrow>
     (let b = byte c; l = (if 65 \<le> b \<and> b \<le> 90 then b + 32 else b) in
      r = b \<or> (97 \<le> l \<and> l \<le> 122 \<and> (r = l \<or> r + 32 = l)) \<or> (l = 107 \<and> r = 8490) \<or> (l = 115 \<and> r = 383))"

definition rx_lit :: "string \<Rightarrow> regex" where
  "rx_lit s = foldr (\<lambda>c r. RSeq (RSet (\<lambda>x. x = byte c)) r) s REps"

definition rx_fold :: "string \<Rightarrow> regex" where
  "rx_fold s = foldr (\<lambda>c r. RSeq (RSet (fold_class c)) r) s REps"

definition rx_seq :: "regex list \<Rightarrow> regex" where
  "rx_seq rs = foldr RSeq rs REps"

fun rx_alt :: "regex list \<Rightarrow> regex" where
  "rx_alt [] = RSet (\<lambda>_. False)"
| "rx_alt [r] = r"
| "rx_alt (r # rs) = RAlt r (rx_alt rs)"

definition rx_opt :: "regex \<Rightarrow> regex" where
  "rx_opt r = RAlt r REps"

definition rx_any :: regex where
  "rx_any = RRep (\<lambda>r. r \<noteq> 10)"

definition digit_rune :: "nat \<Rightarrow> bool" where
  "digit_rune r \<longleftrightarrow> 48 \<le> r \<and> r \<le> 57"

text \<open>\<open>strings.EqualFold\<close> against an ASCII literal.\<close>

definition equal_fold :: "string \<Rightarrow> string \<Rightarrow> bool" where
  "equal_fold s lit = list_all2 (\<lambda>r c. fold_class c r) (runes s) lit"

section \<open>Library\<close>

text \<open>The matcher is sound and complete for the usual semantics of patterns.\<close>

inductive rx_matches :: "nat list \<Rightarrow> regex \<Rightarrow> nat \<Rightarrow> nat \<Rightarrow> bool" for s where
  "rx_matches s REps i i"
| "i < length s \<Longrightarrow> p (s ! i) \<Longrightarrow> rx_matches s (RSet p) i (Suc i)"
| "rx_matches s a i j \<Longrightarrow> rx_matches s b j k \<Longrightarrow> rx_matches s (RSeq a b) i k"
| "rx_matches s a i j \<Longrightarrow> rx_matches s (RAlt a b) i j"
| "rx_matches s b i j \<Longrightarrow> rx_matches s (RAlt a b) i j"
| "i \<le> j \<Longrightarrow> j \<le> length s \<or> j = i \<Longrightarrow> (\<And>k. i \<le> k \<Longrightarrow> k < j \<Longrightarrow> p (s ! k)) \<Longrightarrow> rx_matches s (RRep p) i j"
| "word_boundary s i \<Longrightarrow> rx_matches s RBound i i"

inductive_cases rx_matches_elims:
  "rx_matches s REps i j" "rx_matches s (RSet p) i j" "rx_matches s (RSeq a b) i j"
  "rx_matches s (RAlt a b) i j" "rx_matches s (RRep p) i j" "rx_matches s RBound i j"

lemma takeWhile_run:
  "j \<le> i + length (takeWhile p (drop i s)) \<and> i \<le> j \<longleftrightarrow>
   i \<le> j \<and> (j \<le> length s \<or> j = i) \<and> (\<forall>k. i \<le> k \<longrightarrow> k < j \<longrightarrow> p (s ! k))"
proof (cases "i \<le> j")
  case True
  let ?t = "takeWhile p (drop i s)"
  have len: "length ?t \<le> length s - i" using length_takeWhile_le [of p "drop i s"] by simp
  have run: "p (s ! k)" if "i \<le> k" "k < i + length ?t" for k
  proof -
    have "?t ! (k - i) = drop i s ! (k - i)" using that by (intro takeWhile_nth) simp
    moreover have "?t ! (k - i) \<in> set ?t" using that by simp
    ultimately show ?thesis using that len by (auto dest!: set_takeWhileD)
  qed
  have stop: "length ?t < length s - i \<Longrightarrow> \<not> p (s ! (i + length ?t))"
    using nth_length_takeWhile [of p "drop i s"] by simp
  show ?thesis
  proof
    assume "j \<le> i + length ?t \<and> i \<le> j"
    then show "i \<le> j \<and> (j \<le> length s \<or> j = i) \<and> (\<forall>k. i \<le> k \<longrightarrow> k < j \<longrightarrow> p (s ! k))"
      using run len by (auto) 
  next
    assume r: "i \<le> j \<and> (j \<le> length s \<or> j = i) \<and> (\<forall>k. i \<le> k \<longrightarrow> k < j \<longrightarrow> p (s ! k))"
    show "j \<le> i + length ?t \<and> i \<le> j"
    proof (rule ccontr)
      assume "\<not> ?thesis"
      with r have "i + length ?t < j" "j \<le> length s" by auto
      then have "length ?t < length s - i" by linarith
      then have "\<not> p (s ! (i + length ?t))" by (rule stop)
      with r \<open>i + length ?t < j\<close> show False by simp
    qed
  qed
qed simp

lemma rx_ends_correct: "j \<in> set (rx_ends r s i) \<longleftrightarrow> rx_matches s r i j"
proof (induction r arbitrary: i j)
  case (RSet p)
  then show ?case by (auto intro: rx_matches.intros elim!: rx_matches_elims)
next
  case (RRep p)
  have "j \<in> set (rx_ends (RRep p) s i) \<longleftrightarrow> j \<le> i + length (takeWhile p (drop i s)) \<and> i \<le> j" by auto
  also have "\<dots> \<longleftrightarrow> rx_matches s (RRep p) i j"
    unfolding takeWhile_run by (auto intro: rx_matches.intros elim!: rx_matches_elims)
  finally show ?case .
qed (auto intro: rx_matches.intros elim!: rx_matches_elims)

lemma MatchString_iff: "MatchString r s \<longleftrightarrow> (\<exists>i \<le> length (runes s). \<exists>j. rx_matches (runes s) r i j)"
proof -
  have "rx_ends r t i \<noteq> [] \<longleftrightarrow> (\<exists>j. rx_matches t r i j)" for t i
    using rx_ends_correct [of _ r t i] by (metis list.set_intros(1) neq_Nil_conv set_empty ex_in_conv)
  then show ?thesis
    unfolding MatchString_def rx_search_def list_ex_iff set_upt
    by (simp only: Bex_def atLeastLessThan_iff less_Suc_eq_le) simp
qed

end
