(* ===== verification/Lint.thy ===== *)
theory Lint
  imports Go_Regexp Textutil
begin

text \<open>
  \<open>internal/lint/lint.go\<close>: the deterministic prompt linter. \<open>uc\<close> is \<open>unicode.ToLower\<close> above
  ASCII.
\<close>

section \<open>Rules\<close>

record lint_rule =
  lr_code :: string
  lr_severity :: string
  lr_message :: string
  lr_rationale :: string
  lr_remediation :: string
  lr_pattern :: regex

definition words :: "string list \<Rightarrow> regex" where
  "words ws = rx_alt (map rx_fold ws)"

definition lineRules :: "lint_rule list" where
  "lineRules =
    [\<lparr>lr_code = ''unbounded-persistence'', lr_severity = ''error'',
      lr_message = ''Unbounded persistence or delegation request.'',
      lr_rationale = ''Work without measurable completion or limits can overrun scope and budget.'',
      lr_remediation = ''Add measurable completion, retry or fanout limits, and an observable stop rule.'',
      lr_pattern = rx_seq [RBound,
        words [''keep going'', ''until happy'', ''babysit'', ''do everything'', ''never stop'',
               ''recursive delegation''], RBound]\<rparr>,
     \<lparr>lr_code = ''chain-of-thought'', lr_severity = ''error'',
      lr_message = ''Private reasoning or chain-of-thought requested.'',
      lr_rationale = ''The task should request conclusions and evidence, not hidden reasoning.'',
      lr_remediation = ''Ask for a concise rationale, evidence, or verification summary.'',
      lr_pattern = rx_seq [RBound,
        rx_alt [rx_seq [rx_fold ''chain'', RSet (\<lambda>r. r = 45 \<or> r = 32), rx_fold ''of'',
                        RSet (\<lambda>r. r = 45 \<or> r = 32), rx_fold ''thought''],
                rx_seq [rx_fold ''show '', words [''all'', ''your''], rx_fold '' reasoning''],
                rx_fold ''hidden reasoning''], RBound]\<rparr>,
     \<lparr>lr_code = ''broad-absolute'', lr_severity = ''warning'',
      lr_message = ''Broad ALWAYS/NEVER instruction.'',
      lr_rationale = ''Absolute wording is brittle unless it protects a true invariant.'',
      lr_remediation = ''Replace with a scoped decision rule or state why this is an invariant.'',
      lr_pattern = rx_seq [RBound, rx_alt [rx_lit ''ALWAYS'', rx_lit ''NEVER''], RBound]\<rparr>,
     \<lparr>lr_code = ''unsupported-host-setting'', lr_severity = ''warning'',
      lr_message = ''Host setting claim may be unsupported.'',
      lr_rationale = ''Prompt Better must not invent or change model, effort, verbosity, fast, Ultra, or hidden settings.'',
      lr_remediation = ''Capability-tag the advice and require current evidence, or remove it.'',
      lr_pattern = rx_seq [RBound, words [''set'', ''switch'', ''force'', ''guarantee''], rx_any,
        words [''model'', ''reasoning effort'', ''verbosity'', ''fast mode'', ''ultra mode'', ''hidden flag''],
        RBound]\<rparr>,
     \<lparr>lr_code = ''accounting-conflation'', lr_severity = ''warning'',
      lr_message = ''API and subscription accounting may be conflated.'',
      lr_rationale = ''API token or cache fields do not establish Codex subscription usage or cost.'',
      lr_remediation = ''Name the product surface and accounting regime; mark unknowns explicitly.'',
      lr_pattern = RAlt
        (rx_seq [RBound, words [''api'', ''cache''], rx_any,
           words [''subscription'', ''usage unit'', ''price'', ''cost''], RBound])
        (rx_seq [RBound, rx_fold ''subscription'', rx_any, words [''token'', ''cache'', ''api''], RBound])\<rparr>,
     \<lparr>lr_code = ''blanket-brevity'', lr_severity = ''warning'',
      lr_message = ''Blanket brevity may drop required content.'',
      lr_rationale = ''Facts, decisions, caveats, evidence, and next actions take priority over generic brevity.'',
      lr_remediation = ''State a concrete length or format while preserving required content.'',
      lr_pattern = rx_seq [RBound,
        rx_alt [rx_seq [rx_fold ''be '', rx_opt (rx_fold ''extremely ''), words [''brief'', ''concise'']],
                rx_seq [rx_fold ''sacrifice '', rx_any, rx_fold '' for brevity'']], RBound]\<rparr>,
     \<lparr>lr_code = ''vague-role'', lr_severity = ''warning'',
      lr_message = ''Role is too vague to change behavior reliably.'',
      lr_rationale = ''Generic expert or helpful roles add tokens without defining responsibility.'',
      lr_remediation = ''Name the concrete responsibility or remove the role.'',
      lr_pattern = rx_seq [RBound, rx_fold ''you are '', rx_opt (words [''a '', ''an '']),
        rx_alt [rx_fold ''helpful'', rx_fold ''expert'',
                rx_seq [rx_fold ''world'', RSet (\<lambda>r. r = 45 \<or> r = 32), rx_fold ''class'']],
        rx_fold '' '', words [''assistant'', ''ai'', ''agent''], RBound]\<rparr>,
     \<lparr>lr_code = ''keyword-semantic-map'', lr_severity = ''warning'',
      lr_message = ''Keyword-only semantic routing may be brittle.'',
      lr_rationale = ''Keywords do not reliably establish user intent, authorization, or phase.'',
      lr_remediation = ''Use an explicit decision rule with context and fallback behavior.'',
      lr_pattern = rx_seq [RBound, rx_fold ''if '', rx_opt (rx_fold ''the ''),
        words [''prompt'', ''request''], rx_fold '' '', words [''contains'', ''has''], rx_fold '' '',
        rx_opt (rx_fold ''the ''), words [''word'', ''keyword''], RBound]\<rparr>,
     \<lparr>lr_code = ''blanket-language-switch'', lr_severity = ''warning'',
      lr_message = ''Blanket language switching may drop user intent.'',
      lr_rationale = ''Output language should change only under an explicit request or product rule.'',
      lr_remediation = ''Preserve the requested language or state the scoped language rule.'',
      lr_pattern = rx_seq [RBound,
        rx_opt (rx_alt [rx_fold ''always '',
          rx_seq [rx_fold ''regardless'', rx_any, rx_opt (rx_fold '',''), rx_fold '' '']]),
        words [''respond'', ''answer'', ''output''], rx_fold '' in english'', RBound]\<rparr>,
     \<lparr>lr_code = ''fixed-context-threshold'', lr_severity = ''warning'',
      lr_message = ''Fixed cache, context, or compaction threshold may be unsupported.'',
      lr_rationale = ''Host thresholds and accounting behavior are capability- and version-dependent.'',
      lr_remediation = ''Treat the number as source-qualified evidence or remove the universal claim.'',
      lr_pattern = rx_seq [RBound, RSet digit_rune, RRep digit_rune, rx_opt (rx_fold ''k''), rx_fold '' '',
        rx_alt [rx_seq [rx_fold ''token'', rx_opt (rx_fold ''s'')], rx_fold ''context'',
                rx_fold ''compaction'', rx_fold ''cache''], rx_any,
        words [''always'', ''threshold'', ''limit''], RBound]\<rparr>]"

definition dynamicDatePattern :: regex where
  "dynamicDatePattern = rx_seq [RBound, rx_lit ''20'', RSet digit_rune, RSet digit_rune,
     RSet (\<lambda>r. r = 45 \<or> r = 47)]"

record required_section =
  rq_name :: string
  rq_code :: string
  rq_message :: string
  rq_rationale :: string
  rq_remediation :: string

definition requiredSections :: "required_section list" where
  "requiredSections =
    [\<lparr>rq_name = ''goal'', rq_code = ''missing-goal'', rq_message = ''Missing explicit outcome.'',
      rq_rationale = ''Without an outcome, transformations cannot be checked for success.'',
      rq_remediation = ''Add a Goal section or a direct outcome-first instruction.''\<rparr>,
     \<lparr>rq_name = ''success criteria'', rq_code = ''missing-success'', rq_message = ''Missing success criteria.'',
      rq_rationale = ''Completion is ambiguous without observable success criteria.'',
      rq_remediation = ''Add measurable success criteria.''\<rparr>,
     \<lparr>rq_name = ''evidence'', rq_code = ''missing-evidence'', rq_message = ''Missing evidence requirement.'',
      rq_rationale = ''Claims and completion cannot be verified without required evidence.'',
      rq_remediation = ''State the evidence needed or explicitly say none is required.''\<rparr>,
     \<lparr>rq_name = ''validation'', rq_code = ''missing-validation'', rq_message = ''Missing validation requirement.'',
      rq_rationale = ''A result can look complete without evidence that it works.'',
      rq_remediation = ''State the checks or evidence required before completion.''\<rparr>,
     \<lparr>rq_name = ''stop'', rq_code = ''missing-stop'', rq_message = ''Missing stop rule.'',
      rq_rationale = ''Open-ended work can drift into later phases or excessive retries.'',
      rq_remediation = ''Add an observable completion and blocked/budget stop rule.''\<rparr>,
     \<lparr>rq_name = ''approval boundary'', rq_code = ''missing-authorization'',
      rq_message = ''Missing authorization boundary.'',
      rq_rationale = ''The prompt may silently advance from planning to implementation or external action.'',
      rq_remediation = ''State what requires user or host approval.''\<rparr>]"

section \<open>Helpers\<close>

definition lint_invalid :: "string \<Rightarrow> string \<Rightarrow> stable_error" where
  "lint_invalid message field = NewError ErrorCodeInvalidSchema message field False"

text \<open>The digit loop of \<open>itoa\<close>, which fills the buffer from its end.\<close>

fun itoa_digits :: "nat \<Rightarrow> string \<Rightarrow> string" where
  "itoa_digits v digits =
     (if v > 0 then itoa_digits (v div 10) (char_of (48 + v mod 10) # digits) else digits)"

declare itoa_digits.simps [simp del]

definition itoa :: "nat \<Rightarrow> string" where
  "itoa v = (if v = 0 then ''0'' else itoa_digits v [])"

definition hasSection :: "(nat \<Rightarrow> nat) \<Rightarrow> string list \<Rightarrow> string \<Rightarrow> bool" where
  "hasSection uc lines name =
     (let want = to_lower uc name @ '':'' in
      list_ex (\<lambda>line.
        let v = to_lower uc (trim_space line) in
        v = want \<or> (name = ''goal'' \<and> v = ''take this as a new goal:'')) lines)"

fun first_prefix :: "string list \<Rightarrow> string \<Rightarrow> string option" where
  "first_prefix [] v = None"
| "first_prefix (p # ps) v = (if prefix p v then Some (drop (length p) v) else first_prefix ps v)"

text \<open>\<open>directive\<close>: the key and whether it is negative, or \<open>None\<close> where the code returns false.\<close>

definition directive :: "(nat \<Rightarrow> nat) \<Rightarrow> string \<Rightarrow> (string \<times> bool) option" where
  "directive uc line =
     (let v = to_lower uc (trim_space (trim_left_set ''-* '' line)) in
      case first_prefix [''do not '', ''never ''] v of
        Some rest \<Rightarrow> Some (trim_space rest, True)
      | None \<Rightarrow>
          (case first_prefix [''do '', ''always ''] v of
             Some rest \<Rightarrow> Some (trim_space rest, False)
           | None \<Rightarrow> None))"

definition isSectionBoundary :: "string \<Rightarrow> bool" where
  "isSectionBoundary v =
     (if v = [] \<or> \<not> suffix '':'' v then False else \<not> MatchString dynamicDatePattern v)"

text \<open>One pass of the inner loop of \<open>capDiagnostics\<close>: append until the limit is reached.\<close>

fun cap_pass :: "bool \<Rightarrow> nat \<Rightarrow> diagnostic list \<Rightarrow> diagnostic list \<Rightarrow> diagnostic list \<times> bool" where
  "cap_pass errorsFirst limit acc [] = (acc, False)"
| "cap_pass errorsFirst limit acc (d # ds) =
     (if (dg_Severity d = ''error'') = errorsFirst then
        (if length (acc @ [d]) = limit then (acc @ [d], True)
         else cap_pass errorsFirst limit (acc @ [d]) ds)
      else cap_pass errorsFirst limit acc ds)"

definition capDiagnostics :: "diagnostic list \<Rightarrow> nat \<Rightarrow> diagnostic list" where
  "capDiagnostics diagnostics limit =
     (if length diagnostics \<le> limit then diagnostics
      else case cap_pass True limit [] diagnostics of
          (acc, full) \<Rightarrow> if full then acc else fst (cap_pass False limit acc diagnostics))"

section \<open>The linter\<close>

definition mk_diagnostic ::
  "string \<Rightarrow> string \<Rightarrow> string \<Rightarrow> string \<Rightarrow> string \<Rightarrow> string \<Rightarrow> diagnostic" where
  "mk_diagnostic code severity message location rationale remediation =
     \<lparr>dg_Code = code, dg_Severity = severity, dg_Message = message, dg_Location = location,
      dg_Rationale = rationale, dg_Remediation = remediation\<rparr>"

definition section_diagnostics :: "(nat \<Rightarrow> nat) \<Rightarrow> string list \<Rightarrow> diagnostic list" where
  "section_diagnostics uc lines =
     map (\<lambda>q. mk_diagnostic (rq_code q) ''warning'' (rq_message q) ''document'' (rq_rationale q)
               (rq_remediation q))
       (filter (\<lambda>q. \<not> hasSection uc lines (rq_name q)) requiredSections)"

record lint_state =
  ls_diagnostics :: "diagnostic list"
  ls_seen :: "string \<Rightarrow> nat option"
  ls_directives :: "string \<Rightarrow> (bool \<times> nat) option"

definition check_duplicate :: "(nat \<Rightarrow> nat) \<Rightarrow> nat \<Rightarrow> string \<Rightarrow> lint_state \<Rightarrow> lint_state" where
  "check_duplicate uc index line st =
     (let trimmed = trim_space line; key = to_lower uc trimmed in
      if trimmed = [] then st
      else case ls_seen st key of
          Some prior \<Rightarrow> st\<lparr>ls_diagnostics := ls_diagnostics st @
            [mk_diagnostic ''duplicate-instruction'' ''warning''
               (''Instruction duplicates line '' @ itoa prior @ ''.'') (''line '' @ itoa (index + 1))
               ''Repeated instructions add noise and can destabilize reusable prefixes.''
               ''Keep one authoritative copy.'']\<rparr>
        | None \<Rightarrow> st\<lparr>ls_seen := (ls_seen st)(key \<mapsto> index + 1)\<rparr>)"

definition check_rules :: "nat \<Rightarrow> string \<Rightarrow> lint_state \<Rightarrow> lint_state" where
  "check_rules index line st =
     st\<lparr>ls_diagnostics := ls_diagnostics st @
        map (\<lambda>rl. mk_diagnostic (lr_code rl) (lr_severity rl) (lr_message rl)
                   (''line '' @ itoa (index + 1)) (lr_rationale rl) (lr_remediation rl))
          (filter (\<lambda>rl. MatchString (lr_pattern rl) line) lineRules)\<rparr>"

definition check_directive :: "(nat \<Rightarrow> nat) \<Rightarrow> nat \<Rightarrow> string \<Rightarrow> lint_state \<Rightarrow> lint_state" where
  "check_directive uc index line st =
     (case directive uc line of
        None \<Rightarrow> st
      | Some (key, negative) \<Rightarrow>
          (case ls_directives st key of
             Some (isNegative, prior) \<Rightarrow>
               if isNegative \<noteq> negative then
                 st\<lparr>ls_diagnostics := ls_diagnostics st @
                   [mk_diagnostic ''contradictory-instructions'' ''error''
                     (''Instruction contradicts line '' @ itoa prior @ ''.'') (''line '' @ itoa (index + 1))
                     ''Opposing directives make the required behavior undefined.''
                     ''Keep one scoped authoritative directive or add an explicit precedence rule.'']\<rparr>
               else st
           | None \<Rightarrow> st\<lparr>ls_directives := (ls_directives st)(key \<mapsto> (negative, index + 1))\<rparr>))"

fun check_lines :: "(nat \<Rightarrow> nat) \<Rightarrow> nat \<Rightarrow> string list \<Rightarrow> lint_state \<Rightarrow> lint_state" where
  "check_lines uc index [] st = st"
| "check_lines uc index (line # lines) st =
     check_lines uc (Suc index) lines
       (check_directive uc index line (check_rules index line (check_duplicate uc index line st)))"

text \<open>The pass over the stable prefix, with the flag \<open>inPrefix\<close>.\<close>

fun prefix_diagnostics :: "bool \<Rightarrow> nat \<Rightarrow> string list \<Rightarrow> diagnostic list" where
  "prefix_diagnostics inPrefix index [] = []"
| "prefix_diagnostics inPrefix index (line # lines) =
     (let trimmed = trim_space line in
      if equal_fold trimmed ''Stable prefix:'' then prefix_diagnostics True (Suc index) lines
      else
        let inPrefix = (if inPrefix \<and> isSectionBoundary trimmed then False else inPrefix) in
        (if inPrefix \<and> MatchString dynamicDatePattern line then
           [mk_diagnostic ''unstable-prefix-dynamic-content'' ''warning''
              ''Dated dynamic content appears in the stable prefix.'' (''line '' @ itoa (index + 1))
              ''Volatile content churns a reusable prefix without changing its durable contract.''
              ''Move dated task evidence to dynamic context unless ordering authority requires otherwise.'']
         else []) @ prefix_diagnostics inPrefix (Suc index) lines)"

definition all_diagnostics :: "(nat \<Rightarrow> nat) \<Rightarrow> string \<Rightarrow> diagnostic list" where
  "all_diagnostics uc candidate =
     (let lines = split_on LF candidate;
          lower = to_lower uc candidate;
          st = check_lines uc 0 lines
                 \<lparr>ls_diagnostics = section_diagnostics uc lines, ls_seen = Map.empty,
                  ls_directives = Map.empty\<rparr>
      in ls_diagnostics st @
         (if str_contains lower ''stable prefix:'' then prefix_diagnostics False 0 lines else []))"

definition CheckPrompt :: "(nat \<Rightarrow> nat) \<Rightarrow> lint_prompt_request \<Rightarrow> lint_prompt_result go_result" where
  "CheckPrompt uc request =
     (if lpq_SchemaVersion request \<noteq> SchemaVersion \<or> lpq_Kind request \<noteq> ''request'' then
        Inl (lint_invalid ''request must use schema 1.0.0 and kind request'' ''request'')
      else if length (lpq_Candidate request) > 16000 then
        Inl (lint_invalid ''candidate exceeds 16000 bytes'' ''candidate'')
      else bind_result (Normalize (lpq_Candidate request)) (\<lambda>candidate.
        let diagnostics = all_diagnostics uc candidate;
            valid = \<not> list_ex (\<lambda>d. dg_Severity d = ''error'') diagnostics;
            diagnostics = capDiagnostics diagnostics 100
        in Inr \<lparr>lpr_SchemaVersion = SchemaVersion, lpr_Kind = ''result'', lpr_Valid = valid,
                lpr_Diagnostics = diagnostics, lpr_BoundaryDecisions = []\<rparr>))"

section \<open>Library\<close>

lemma itoa_digits_show: "v > 0 \<Longrightarrow> itoa_digits v digits = show_nat v @ digits"
proof (induction v arbitrary: digits rule: less_induct)
  case (less v)
  have digit: "char_of (48 + v mod 10) = digit_char (v mod 10)"
    by (simp add: digit_char_def)
  show ?case
  proof (cases "v div 10 = 0")
    case True
    with less.prems digit show ?thesis
      by (subst itoa_digits.simps, subst itoa_digits.simps, subst show_nat.simps) auto
  next
    case False
    with less digit show ?thesis
      by (subst itoa_digits.simps, subst show_nat.simps) auto
  qed
qed

lemma itoa_show_nat: "itoa v = show_nat v"
proof (cases "v = 0")
  case True
  have "char_of (48 :: nat) = CHR ''0''" by code_simp
  with True show ?thesis by (simp add: itoa_def show_nat.simps digit_char_def)
qed (simp add: itoa_def itoa_digits_show)

abbreviation is_err :: "diagnostic \<Rightarrow> bool" where
  "is_err d \<equiv> dg_Severity d = ''error''"

lemma cap_pass_eq:
  "length acc < limit \<Longrightarrow> cap_pass b limit acc ds =
     (take limit (acc @ filter (\<lambda>d. is_err d = b) ds),
      limit \<le> length (acc @ filter (\<lambda>d. is_err d = b) ds))"
proof (induction ds arbitrary: acc)
  case (Cons d ds)
  show ?case
  proof (cases "is_err d = b \<and> length (acc @ [d]) = limit")
    case True
    then show ?thesis by auto
  next
    case False
    with Cons show ?thesis by (auto simp: less_Suc_eq take_Cons')
  qed
qed simp

text \<open>The cap keeps errors before warnings, each group in its order.\<close>

lemma capDiagnostics_eq:
  assumes "0 < limit"
  shows "capDiagnostics ds limit =
    (if length ds \<le> limit then ds else take limit (filter is_err ds @ filter (\<lambda>d. \<not> is_err d) ds))"
proof -
  let ?e = "filter is_err ds" and ?w = "filter (\<lambda>d. \<not> is_err d) ds"
  have first: "cap_pass True limit [] ds = (take limit ?e, limit \<le> length ?e)"
    using assms cap_pass_eq [of "[]" limit True ds] by simp
  have "cap_pass False limit ?e ds = (take limit (?e @ ?w), limit \<le> length (?e @ ?w))"
    if "length ?e < limit" using cap_pass_eq [OF that, of False ds] by simp
  with first show ?thesis by (auto simp: capDiagnostics_def)
qed

lemma capDiagnostics_props:
  assumes "0 < limit"
  shows "length (capDiagnostics ds limit) \<le> limit" and "set (capDiagnostics ds limit) \<subseteq> set ds"
    and "(\<exists>d \<in> set (capDiagnostics ds limit). is_err d) \<longleftrightarrow> (\<exists>d \<in> set ds. is_err d)"
proof -
  show "length (capDiagnostics ds limit) \<le> limit"
    by (cases "length ds \<le> limit")
       (simp_all only: capDiagnostics_eq [OF assms] if_True if_False length_take min.cobounded2)
  show sub: "set (capDiagnostics ds limit) \<subseteq> set ds"
    by (auto simp: capDiagnostics_eq [OF assms] dest!: in_set_takeD)
  show "(\<exists>d \<in> set (capDiagnostics ds limit). is_err d) \<longleftrightarrow> (\<exists>d \<in> set ds. is_err d)"
  proof
    assume "\<exists>d \<in> set ds. is_err d"
    then obtain e es where e: "filter is_err ds = e # es"
      by (cases "filter is_err ds") (auto simp: filter_empty_conv)
    then have "e \<in> set (filter is_err ds)" by simp
    then have "is_err e" by simp
    then show "\<exists>d \<in> set (capDiagnostics ds limit). is_err d"
      using e assms \<open>\<exists>d \<in> set ds. is_err d\<close>
      by (cases limit) (auto simp: capDiagnostics_eq)
  qed (use sub in blast)
qed

lemma check_steps_mono:
  "\<exists>ds. ls_diagnostics (check_duplicate uc i l st) = ls_diagnostics st @ ds"
  "\<exists>ds. ls_diagnostics (check_rules i l st) = ls_diagnostics st @ ds"
  "\<exists>ds. ls_diagnostics (check_directive uc i l st) = ls_diagnostics st @ ds"
  by (auto simp: check_duplicate_def check_rules_def check_directive_def Let_def
      split: option.split prod.split)

lemma check_lines_mono: "\<exists>ds. ls_diagnostics (check_lines uc i ls st) = ls_diagnostics st @ ds"
proof (induction uc i ls st rule: check_lines.induct)
  case (2 uc i l ls st)
  then show ?case
    using check_steps_mono(1) [of uc i l st] check_steps_mono(2) [of i l "check_duplicate uc i l st"]
      check_steps_mono(3) [of uc i l "check_rules i l (check_duplicate uc i l st)"]
    by auto
qed simp

lemma check_steps_directives [simp]:
  "ls_directives (check_duplicate uc i l st) = ls_directives st"
  "ls_directives (check_rules i l st) = ls_directives st"
  by (auto simp: check_duplicate_def check_rules_def Let_def split: option.split)

lemma check_directive_keeps:
  "ls_directives st key = Some v \<Longrightarrow> ls_directives (check_directive uc i l st) key = Some v"
  by (auto simp: check_directive_def split: option.split prod.split)

lemma check_lines_keeps:
  "ls_directives st key = Some v \<Longrightarrow> ls_directives (check_lines uc i ls st) key = Some v"
  by (induction uc i ls st rule: check_lines.induct) (auto simp: check_directive_keeps)

lemma check_directive_records:
  assumes "directive uc l = Some (key, neg)"
    and "\<not> (\<exists>d \<in> set (ls_diagnostics (check_directive uc i l st)). is_err d)"
  shows "\<exists>n. ls_directives (check_directive uc i l st) key = Some (neg, n)"
  using assms
  by (auto simp: check_directive_def mk_diagnostic_def split: option.splits prod.splits if_splits)

text \<open>Without an error every directive agrees with the sign recorded for its key.\<close>

lemma check_lines_directives:
  assumes "\<not> (\<exists>d \<in> set (ls_diagnostics (check_lines uc i ls st)). is_err d)"
    and "l \<in> set ls" and "directive uc l = Some (key, neg)"
  shows "\<exists>n. ls_directives (check_lines uc i ls st) key = Some (neg, n)"
  using assms
proof (induction uc i ls st rule: check_lines.induct)
  case (2 uc i l' ls st)
  let ?st = "check_directive uc i l' (check_rules i l' (check_duplicate uc i l' st))"
  show ?case
  proof (cases "l \<in> set ls")
    case True
    with 2 show ?thesis by simp
  next
    case False
    with 2 have l: "l' = l" by simp
    obtain ds where "ls_diagnostics (check_lines uc (Suc i) ls ?st) = ls_diagnostics ?st @ ds"
      using check_lines_mono by blast
    with 2 have "\<not> (\<exists>d \<in> set (ls_diagnostics ?st). is_err d)" by simp
    then show ?thesis
      using check_directive_records 2(4) check_lines_keeps unfolding l check_lines.simps by metis
  qed
qed simp

lemma CheckPrompt_Inr:
  assumes "CheckPrompt uc request = Inr r"
  shows "\<exists>candidate. Normalize (lpq_Candidate request) = Inr candidate \<and>
    lpr_Valid r = (\<not> (\<exists>d \<in> set (all_diagnostics uc candidate). is_err d)) \<and>
    lpr_Diagnostics r = capDiagnostics (all_diagnostics uc candidate) 100"
proof -
  obtain candidate where "Normalize (lpq_Candidate request) = Inr candidate"
    using assms by (auto simp: CheckPrompt_def bind_result_eq_Inr split: if_splits)
  moreover from this assms have "r = \<lparr>lpr_SchemaVersion = SchemaVersion, lpr_Kind = ''result'',
      lpr_Valid = (\<not> list_ex is_err (all_diagnostics uc candidate)),
      lpr_Diagnostics = capDiagnostics (all_diagnostics uc candidate) 100, lpr_BoundaryDecisions = []\<rparr>"
    by (simp add: CheckPrompt_def Let_def split: if_splits)
  ultimately show ?thesis by (simp add: list_ex_iff)
qed

section \<open>Properties\<close>

text \<open>The lint verdict is sound. At most 100 diagnostics are returned, all of them raised by
  the checks, the complete list when it fits, and the prompt is reported valid exactly when no
  returned diagnostic is an error: the cap never hides the reason for a rejection.\<close>

theorem lint_verdict:
  assumes "CheckPrompt uc request = Inr r"
  shows "\<exists>candidate. Normalize (lpq_Candidate request) = Inr candidate \<and>
    length (lpr_Diagnostics r) \<le> 100 \<and>
    set (lpr_Diagnostics r) \<subseteq> set (all_diagnostics uc candidate) \<and>
    (length (all_diagnostics uc candidate) \<le> 100 \<longrightarrow> lpr_Diagnostics r = all_diagnostics uc candidate) \<and>
    (lpr_Valid r \<longleftrightarrow> (\<forall>d \<in> set (lpr_Diagnostics r). dg_Severity d \<noteq> ''error''))"
proof -
  obtain candidate where c: "Normalize (lpq_Candidate request) = Inr candidate"
    and v: "lpr_Valid r \<longleftrightarrow> \<not> (\<exists>d \<in> set (all_diagnostics uc candidate). is_err d)"
    and ds: "lpr_Diagnostics r = capDiagnostics (all_diagnostics uc candidate) 100"
    using CheckPrompt_Inr [OF assms] by blast
  note cap = capDiagnostics_props [of 100 "all_diagnostics uc candidate", folded ds]
  have "length (all_diagnostics uc candidate) \<le> 100 \<longrightarrow>
      lpr_Diagnostics r = all_diagnostics uc candidate"
    unfolding ds by (simp add: capDiagnostics_eq del: length_0_conv)
  with cap c v show ?thesis by auto
qed

theorem lint_verdict_witness:
  "\<exists>r. CheckPrompt id \<lparr>lpq_SchemaVersion = SchemaVersion, lpq_Kind = ''request'', lpq_Candidate = ''Fix''\<rparr> = Inr r \<and>
     length (lpr_Diagnostics r) \<le> 100"
proof -
  obtain r where r: "CheckPrompt id \<lparr>lpq_SchemaVersion = SchemaVersion, lpq_Kind = ''request'',
      lpq_Candidate = ''Fix''\<rparr> = Inr r"
    by (simp add: CheckPrompt_def Normalize_fix Let_def)
  with lint_verdict [OF r] show ?thesis by blast
qed

text \<open>Contradictions are always caught. A prompt in which one line demands what another line
  forbids, in whatever order and however many lines apart, is never reported valid.\<close>

theorem lint_contradiction_rejected:
  assumes "CheckPrompt uc request = Inr r" and "Normalize (lpq_Candidate request) = Inr candidate"
    and "l1 \<in> set (split_on LF candidate)" and "l2 \<in> set (split_on LF candidate)"
    and "directive uc l1 = Some (key, True)" and "directive uc l2 = Some (key, False)"
  shows "\<not> lpr_Valid r \<and> (\<exists>d \<in> set (lpr_Diagnostics r). dg_Severity d = ''error'')"
proof -
  let ?st = "check_lines uc 0 (split_on LF candidate)
     \<lparr>ls_diagnostics = section_diagnostics uc (split_on LF candidate), ls_seen = Map.empty,
      ls_directives = Map.empty\<rparr>"
  have "\<exists>d \<in> set (ls_diagnostics ?st). is_err d"
  proof (rule ccontr)
    assume none: "\<not> ?thesis"
    from check_lines_directives [OF none assms(3,5)] check_lines_directives [OF none assms(4,6)]
    show False by auto
  qed
  then have err: "\<exists>d \<in> set (all_diagnostics uc candidate). is_err d"
    by (auto simp: all_diagnostics_def Let_def)
  moreover have "lpr_Valid r \<longleftrightarrow> \<not> (\<exists>d \<in> set (all_diagnostics uc candidate). is_err d)"
    "lpr_Diagnostics r = capDiagnostics (all_diagnostics uc candidate) 100"
    using CheckPrompt_Inr [OF assms(1)] assms(2) by simp_all
  ultimately show ?thesis using capDiagnostics_props(3) [of 100] by auto
qed

theorem lint_contradiction_rejected_witness:
  "\<exists>r. CheckPrompt id \<lparr>lpq_SchemaVersion = SchemaVersion, lpq_Kind = ''request'',
       lpq_Candidate = ''do x'' @ [LF] @ ''- Never x''\<rparr> = Inr r \<and> \<not> lpr_Valid r"
proof -
  let ?c = "''do x'' @ [LF] @ ''- Never x''"
  have n: "Normalize ?c = Inr ?c"
    by (simp add: Normalize_def valid_utf8_ascii replace_byte_def normalize_line_def trim_right_set_def
        trim_space_ascii space_byte_def is_space_def drop_trailing_empty_id)
  obtain r where r: "CheckPrompt id \<lparr>lpq_SchemaVersion = SchemaVersion, lpq_Kind = ''request'',
      lpq_Candidate = ?c\<rparr> = Inr r"
    using n by (simp add: CheckPrompt_def Let_def)
  have lower: "lower_byte c = c" if "\<not> (65 \<le> byte c \<and> byte c \<le> 90)" for c
    using that by (auto simp: lower_byte_def)
  have "lower_byte CHR ''N'' = CHR ''n''" by code_simp
  note compute = directive_def Let_def trim_left_set_def trim_space_ascii space_byte_def is_space_def
    to_lower_ascii lower this
  have "directive id ''- Never x'' = Some (''x'', True)" "directive id ''do x'' = Some (''x'', False)"
    by (simp_all add: compute)
  from lint_contradiction_rejected [OF r _ _ _ this] n r show ?thesis by simp
qed

end
