(* ===== verification/Compile_Lint.thy ===== *)
theory Compile_Lint
  imports Compiler_Props Lint
begin

text \<open>
  The compiler against the linter: prompts that \<open>internal/compiler\<close> produces carry every section
  \<open>internal/lint\<close> asks for.
\<close>

section \<open>Library\<close>

definition missing :: "diagnostic \<Rightarrow> bool" where
  "missing d \<longleftrightarrow> prefix ''missing-'' (dg_Code d)"

lemma check_duplicate_missing:
  "d \<in> set (ls_diagnostics (check_duplicate uc i l st)) \<Longrightarrow> missing d \<Longrightarrow> d \<in> set (ls_diagnostics st)"
  by (auto simp: check_duplicate_def Let_def missing_def mk_diagnostic_def split: option.splits if_splits)

lemma check_directive_missing:
  "d \<in> set (ls_diagnostics (check_directive uc i l st)) \<Longrightarrow> missing d \<Longrightarrow> d \<in> set (ls_diagnostics st)"
  by (auto simp: check_directive_def missing_def mk_diagnostic_def
      split: option.splits if_splits prod.splits)

lemma lineRules_codes: "list_all (\<lambda>rl. \<not> prefix ''missing-'' (lr_code rl)) lineRules"
  by (simp add: lineRules_def)

lemma check_rules_missing:
  "d \<in> set (ls_diagnostics (check_rules i l st)) \<Longrightarrow> missing d \<Longrightarrow> d \<in> set (ls_diagnostics st)"
  using lineRules_codes by (auto simp: check_rules_def missing_def mk_diagnostic_def list_all_iff)

lemma check_lines_missing:
  "d \<in> set (ls_diagnostics (check_lines uc i ls st)) \<Longrightarrow> missing d \<Longrightarrow> d \<in> set (ls_diagnostics st)"
  by (induction uc i ls st rule: check_lines.induct) (simp, metis check_lines.simps(2) check_directive_missing
      check_rules_missing check_duplicate_missing)

lemma prefix_diagnostics_not_missing: "d \<in> set (prefix_diagnostics b i ls) \<Longrightarrow> \<not> missing d"
  by (induction b i ls rule: prefix_diagnostics.induct)
     (auto simp: Let_def missing_def mk_diagnostic_def split: if_splits)

lemma all_diagnostics_missing:
  assumes "d \<in> set (all_diagnostics uc candidate)" and "missing d"
  shows "d \<in> set (section_diagnostics uc (split_on LF candidate))"
  using assms
  by (auto simp: all_diagnostics_def Let_def split: if_splits
      dest: check_lines_missing prefix_diagnostics_not_missing)

definition lint_titles :: "string list" where
  "lint_titles = [''Goal'', ''Success criteria'', ''Evidence'', ''Validation'', ''Stop'', ''Approval boundary'']"

text \<open>A heading line satisfies the section check of its lower-case name.\<close>

lemma lower_byte_letter: "\<not> (65 \<le> byte c \<and> byte c \<le> 90) \<Longrightarrow> lower_byte c = c"
  by (auto simp: lower_byte_def)

lemma lower_capitals:
  "lower_byte CHR ''G'' = CHR ''g''" "lower_byte CHR ''S'' = CHR ''s''" "lower_byte CHR ''E'' = CHR ''e''"
  "lower_byte CHR ''V'' = CHR ''v''" "lower_byte CHR ''A'' = CHR ''a''"
  by code_simp+

lemma section_diagnostics_none:
  assumes "\<forall>t \<in> set lint_titles. t @ '':'' \<in> set lines"
  shows "section_diagnostics uc lines = []"
proof -
  have has: "hasSection uc lines name"
    if "t @ '':'' \<in> set lines" "to_lower uc (trim_space (t @ '':'')) = to_lower uc name @ '':''" for t name
    using that unfolding hasSection_def Let_def list_ex_iff by blast
  note compute = to_lower_ascii trim_space_visible space_byte_def is_space_def lower_byte_letter lower_capitals
  have "hasSection uc lines ''goal''" by (rule has [of "''Goal''"]) (use assms in \<open>simp_all add: lint_titles_def compute\<close>)
  moreover have "hasSection uc lines ''success criteria''"
    by (rule has [of "''Success criteria''"]) (use assms in \<open>simp_all add: lint_titles_def compute\<close>)
  moreover have "hasSection uc lines ''evidence''"
    by (rule has [of "''Evidence''"]) (use assms in \<open>simp_all add: lint_titles_def compute\<close>)
  moreover have "hasSection uc lines ''validation''"
    by (rule has [of "''Validation''"]) (use assms in \<open>simp_all add: lint_titles_def compute\<close>)
  moreover have "hasSection uc lines ''stop''"
    by (rule has [of "''Stop''"]) (use assms in \<open>simp_all add: lint_titles_def compute\<close>)
  moreover have "hasSection uc lines ''approval boundary''"
    by (rule has [of "''Approval boundary''"]) (use assms in \<open>simp_all add: lint_titles_def compute\<close>)
  ultimately show ?thesis by (simp add: section_diagnostics_def requiredSections_def)
qed

lemma sectionIndex_line:
  assumes "sectionIndex v t = Some i" and "LF \<notin> set t"
  shows "t @ '':'' \<in> set (split_on LF v)"
proof -
  have head: "t @ '':'' \<in> set (split_on LF ((t @ '':'') @ LF # r))" for r
    using assms(2) split_on_append_sep [of LF "t @ '':''" r] by simp
  show ?thesis
  proof (cases "prefix (t @ '':'' @ [LF]) v")
    case True
    then obtain r where "v = (t @ '':'') @ LF # r" by (auto simp: prefix_def)
    then show ?thesis using head by simp
  next
    case False
    with assms(1) obtain j where "str_index ([LF, LF] @ t @ '':'' @ [LF]) v = Some j"
      by (auto simp: sectionIndex_def Let_def)
    then have "prefix ([LF, LF] @ t @ '':'' @ [LF]) (drop j v)" by (blast dest: str_index_Some)
    then obtain r where "drop j v = LF # LF # (t @ '':'') @ LF # r" by (auto simp: prefix_def)
    then have "v = take j v @ LF # LF # (t @ '':'') @ LF # r" by (metis append_take_drop_id)
    then have "split_on LF v = split_on LF (take j v) @ [] # split_on LF ((t @ '':'') @ LF # r)"
      by (metis split_on.simps(2) split_on_append)
    then show ?thesis using head by simp
  qed
qed

lemma ascending_sections_found:
  "ascending_sections v previous ts \<Longrightarrow> - 1 \<le> previous \<Longrightarrow> t \<in> set ts \<Longrightarrow> \<exists>i. sectionIndex v t = Some i"
proof (induction v previous ts rule: ascending_sections.induct)
  case (2 v previous u ts)
  then show ?case by (cases "sectionIndex v u") (auto simp: Let_def split: if_splits)
qed simp

lemma looksCompiled_lines:
  assumes "looksCompiled v"
  shows "\<forall>t \<in> set lint_titles. t @ '':'' \<in> set (split_on LF v)"
proof
  fix t assume t: "t \<in> set lint_titles"
  then have "t \<in> set requiredTitles" "LF \<notin> set t"
    by (auto simp: lint_titles_def requiredTitles_def)
  with assms show "t @ '':'' \<in> set (split_on LF v)"
    using ascending_sections_found [of v "- 1" requiredTitles t] sectionIndex_line
    by (auto simp: looksCompiled_def)
qed

lemma parts_lines_titles: "p \<in> set ps \<Longrightarrow> fst p @ '':'' \<in> set (parts_lines ps)"
  by (induction ps rule: parts_lines.induct) (auto simp: part_lines_def)

lemma default_render_lines:
  assumes "Normalize input = Inr intent"
  shows "\<forall>t \<in> set lint_titles. t @ '':'' \<in> set (split_on LF (RenderPlan (defaultPlan intent) True))"
proof -
  obtain ls where ls: "normal_lines ls" "intent = join [LF] ls" "trim_space intent = intent"
    using Normalize_result [OF assms] by blast
  have lines: "split_on LF intent = ls"
    unfolding ls(2) using ls(1)
    by (intro split_on_join) (auto simp: normal_lines_def clean_lines_def clean_line_def)
  let ?ps = "(''Goal'', intent) # default_tail"
  have render: "RenderPlan (defaultPlan intent) True = join [LF] (parts_lines ?ps)"
    using Normalize_plain(1) [OF assms] ls(3)
    by (simp add: RenderPlan_parts plan_parts_default text_part_def join_parts_lines)
  have "normal_lines (parts_lines ?ps)"
    using normal_default_tail ls(1) lines by (intro normal_parts_lines) (simp_all add: normal_part_def)
  then have "split_on LF (join [LF] (parts_lines ?ps)) = parts_lines ?ps"
    by (intro split_on_join) (auto simp: normal_lines_def clean_lines_def clean_line_def)
  moreover have "\<forall>t \<in> set lint_titles. \<exists>c. (t, c) \<in> set ?ps"
    by (simp add: lint_titles_def default_tail_def)
  ultimately show ?thesis
    unfolding render using parts_lines_titles [of _ ?ps] by fastforce
qed

section \<open>Properties\<close>

text \<open>C9: what the compiler produces, the linter accepts as complete. The prompt that improving a
  text without a plan returns is never refused by the linter, and no missing-section
  diagnostic is raised for it.\<close>

theorem improved_prompt_lints:
  assumes "Improve ctx request host = Inr r" and "ipq_PromptPlan request = None"
  shows "\<exists>result. CheckPrompt uc \<lparr>lpq_SchemaVersion = SchemaVersion, lpq_Kind = ''request'',
      lpq_Candidate = ipr_ImprovedPrompt r\<rparr> = Inr result \<and>
    (\<forall>d \<in> set (lpr_Diagnostics result). \<not> prefix ''missing-'' (dg_Code d))"
proof -
  let ?v = "ipr_ImprovedPrompt r"
  note imp = assms(1) [unfolded Improve_def]
  obtain intent plan where "prepareImproveRequest request = Inr (intent, plan)"
    using improve_Inr [OF imp] by metis
  then have n: "Normalize (ipq_Intent request) = Inr intent" using prepare_noplan(1) [OF assms(2)] by blast
  note v = improve_noplan(1) [OF imp assms(2) n]
  have norm: "Normalize ?v = Inr ?v" and lines: "\<forall>t \<in> set lint_titles. t @ '':'' \<in> set (split_on LF ?v)"
  proof -
    show "Normalize ?v = Inr ?v"
      using v Normalize_plain(3) [OF n] Normalize_RenderPlan_default [OF n] by (simp split: option.splits)
    show "\<forall>t \<in> set lint_titles. t @ '':'' \<in> set (split_on LF ?v)"
    proof (cases "kept_phase intent")
      case None
      with v default_render_lines [OF n] show ?thesis by simp
    next
      case (Some phase)
      then have "looksCompiled intent" by (auto simp: kept_phase_def Let_def split: prod.splits if_splits)
      with v Some looksCompiled_lines show ?thesis by simp
    qed
  qed
  have len: "length ?v \<le> 16000" using improve_length [OF imp] .
  define result where "result = \<lparr>lpr_SchemaVersion = SchemaVersion, lpr_Kind = ''result'',
    lpr_Valid = (\<not> list_ex (\<lambda>d. dg_Severity d = ''error'') (all_diagnostics uc ?v)),
    lpr_Diagnostics = capDiagnostics (all_diagnostics uc ?v) 100, lpr_BoundaryDecisions = []\<rparr>"
  have "CheckPrompt uc \<lparr>lpq_SchemaVersion = SchemaVersion, lpq_Kind = ''request'', lpq_Candidate = ?v\<rparr> = Inr result"
    using norm len by (simp add: CheckPrompt_def Let_def result_def)
  moreover have "\<not> missing d" if "d \<in> set (lpr_Diagnostics result)" for d
  proof
    assume "missing d"
    moreover have "d \<in> set (all_diagnostics uc ?v)"
      using that capDiagnostics_props(2) [of 100 "all_diagnostics uc ?v"] by (auto simp: result_def)
    ultimately have "d \<in> set (section_diagnostics uc (split_on LF ?v))" using all_diagnostics_missing by blast
    then show False using section_diagnostics_none [OF lines] by simp
  qed
  ultimately show ?thesis unfolding missing_def by blast
qed

theorem improved_prompt_lints_witness:
  "\<exists>r result. Improve (\<lambda>_. False) (plain_request ''Fix'' ExecutionPolicyImproveOnly) HostUnknown = Inr r \<and>
     CheckPrompt id \<lparr>lpq_SchemaVersion = SchemaVersion, lpq_Kind = ''request'',
      lpq_Candidate = ipr_ImprovedPrompt r\<rparr> = Inr result \<and>
     (\<forall>d \<in> set (lpr_Diagnostics result). \<not> prefix ''missing-'' (dg_Code d))"
proof -
  obtain r where r: "Improve (\<lambda>_. False) (plain_request ''Fix'' ExecutionPolicyImproveOnly) HostUnknown = Inr r"
    using plain_request_improves [of ExecutionPolicyImproveOnly HostUnknown] by (auto simp: policy_valid_defs)
  have none: "ipq_PromptPlan (plain_request ''Fix'' ExecutionPolicyImproveOnly) = None" by (simp add: plain_request_def)
  from improved_prompt_lints [OF r none] r show ?thesis by blast
qed

end
