(* ===== verification/Checkpoint.thy ===== *)
theory Checkpoint
  imports Contracts
begin

text \<open>
  \<open>internal/checkpoint/checkpoint.go\<close>: validation and rendering of a bounded continuation
  summary.
\<close>

section \<open>Model\<close>

record checkpoint =
  cp_Objective :: string
  cp_AcceptedDecisions :: "string list"
  cp_Constraints :: "string list"
  cp_EvidenceRefs :: "string list"
  cp_Completed :: "string list"
  cp_Validation :: "string list"
  cp_Blockers :: "string list"
  cp_NextAction :: string
  cp_RemainingGates :: "string list"

definition checkpointError :: "string \<Rightarrow> string \<Rightarrow> stable_error" where
  "checkpointError message field = NewError ErrorCodeInvalidSchema message field False"

definition cp_validText :: "string \<Rightarrow> nat \<Rightarrow> bool" where
  "cp_validText value limit =
     (if \<not> valid_utf8 value \<or> trim_space value = [] \<or> length value > limit then False
      else list_all (\<lambda>r. \<not> is_control r) (runes value))"

definition cp_validateList :: "string list \<Rightarrow> nat \<Rightarrow> unit go_result" where
  "cp_validateList values limit =
     (if length values > limit then
        Inl (NewError ErrorCodeInvalidSchema ''too many checkpoint items'' ''checkpoint'' False)
      else check_each (\<lambda>value. guard_result (\<not> cp_validText value 500)
        (NewError ErrorCodeInvalidSchema ''invalid checkpoint item'' ''checkpoint'' False)) values)"

definition writeList :: "string \<Rightarrow> string list \<Rightarrow> string" where
  "writeList title values =
     (if length values = 0 then []
      else [LF] @ title @ '':'' @ [LF] @
           concat (map (\<lambda>value. ''- '' @ trim_space value @ [LF]) values))"

definition checkpoint_lists :: "checkpoint \<Rightarrow> (string \<times> string list \<times> nat) list" where
  "checkpoint_lists value =
     [(''accepted_decisions'', cp_AcceptedDecisions value, 50),
      (''constraints'', cp_Constraints value, 50),
      (''evidence_refs'', cp_EvidenceRefs value, 50),
      (''completed'', cp_Completed value, 50),
      (''validation'', cp_Validation value, 50),
      (''blockers'', cp_Blockers value, 20),
      (''remaining_gates'', cp_RemainingGates value, 50)]"

definition checkpoint_Render :: "checkpoint \<Rightarrow> string go_result" where
  "checkpoint_Render value =
     (if \<not> cp_validText (cp_Objective value) 1000 \<or> \<not> cp_validText (cp_NextAction value) 500 then
        Inl (checkpointError ''checkpoint objective and next action are required'' ''checkpoint'')
      else case check_each (\<lambda>(name, values, limit). guard_result (is_error (cp_validateList values limit))
          (checkpointError ''invalid checkpoint list'' (''checkpoint.'' @ name)))
        (checkpoint_lists value) of
        Inl e \<Rightarrow> Inl e
      | Inr _ \<Rightarrow>
          Inr (trim_space
            (''Checkpoint'' @ [LF, LF] @ ''Objective:'' @ [LF] @ trim_space (cp_Objective value) @ [LF] @
             writeList ''Accepted decisions'' (cp_AcceptedDecisions value) @
             writeList ''Constraints'' (cp_Constraints value) @
             writeList ''Evidence'' (cp_EvidenceRefs value) @
             writeList ''Completed'' (cp_Completed value) @
             writeList ''Validation'' (cp_Validation value) @
             writeList ''Blockers'' (cp_Blockers value) @
             [LF] @ ''Next action:'' @ [LF] @ trim_space (cp_NextAction value) @ [LF] @
             writeList ''Remaining gates'' (cp_RemainingGates value))))"

section \<open>Library\<close>

definition valid_checkpoint :: "checkpoint \<Rightarrow> bool" where
  "valid_checkpoint value \<longleftrightarrow>
     cp_validText (cp_Objective value) 1000 \<and> cp_validText (cp_NextAction value) 500 \<and>
     (\<forall>(name, values, limit) \<in> set (checkpoint_lists value).
        length values \<le> limit \<and> (\<forall>x \<in> set values. cp_validText x 500))"

text \<open>The lines a rendered checkpoint consists of.\<close>

definition list_lines :: "string \<Rightarrow> string list \<Rightarrow> string list" where
  "list_lines title values =
     (if values = [] then [] else [] # (title @ '':'') # map (\<lambda>v. ''- '' @ trim_space v) values)"

definition checkpoint_lines :: "checkpoint \<Rightarrow> string list" where
  "checkpoint_lines value =
     [''Checkpoint'', [], ''Objective:'', trim_space (cp_Objective value)] @
     list_lines ''Accepted decisions'' (cp_AcceptedDecisions value) @
     list_lines ''Constraints'' (cp_Constraints value) @
     list_lines ''Evidence'' (cp_EvidenceRefs value) @
     list_lines ''Completed'' (cp_Completed value) @
     list_lines ''Validation'' (cp_Validation value) @
     list_lines ''Blockers'' (cp_Blockers value) @
     [[], ''Next action:'', trim_space (cp_NextAction value)] @
     list_lines ''Remaining gates'' (cp_RemainingGates value)"

lemma cp_validateList_ok:
  "is_error (cp_validateList values limit) \<longleftrightarrow>
     \<not> (length values \<le> limit \<and> (\<forall>x \<in> set values. cp_validText x 500))"
proof -
  have "\<not> is_error (cp_validateList values limit) \<longleftrightarrow> cp_validateList values limit = Inr ()"
    by (auto simp: not_is_error_iff)
  also have "\<dots> \<longleftrightarrow> length values \<le> limit \<and> (\<forall>x \<in> set values. cp_validText x 500)"
    by (auto simp: cp_validateList_def check_each_ok)
  finally show ?thesis by blast
qed

lemma writeList_lines: "writeList title values = concat (map (\<lambda>l. l @ [LF]) (list_lines title values))"
  by (simp add: writeList_def list_lines_def comp_def)

lemma checkpoint_Render_ok:
  "checkpoint_Render value = Inr s \<longleftrightarrow> valid_checkpoint value \<and>
     s = trim_space (concat (map (\<lambda>l. l @ [LF]) (checkpoint_lines value)))"
  by (auto simp: checkpoint_Render_def valid_checkpoint_def check_each_ok cp_validateList_ok
      writeList_lines checkpoint_lines_def case_unit_ok split: sum.splits)

lemma cp_validText_line:
  assumes "cp_validText x n"
  shows "valid_utf8 (trim_space x)" and "trim_space x \<noteq> []" and "LF \<notin> set (trim_space x)"
    and "trim_right_space (trim_space x) = trim_space x"
proof -
  have x: "valid_utf8 x" "trim_space x \<noteq> []" "list_all (\<lambda>r. \<not> is_control r) (runes x)"
    using assms by (auto simp: cp_validText_def split: if_splits)
  show "valid_utf8 (trim_space x)" "trim_space x \<noteq> []" using x valid_utf8_trim by auto
  have "LF \<notin> set x"
    using ascii_byte_rune [OF x(1), of LF] x(3) by (fastforce simp: list_all_iff is_control_def)
  then show "LF \<notin> set (trim_space x)" using set_trim_space by blast
  show "trim_right_space (trim_space x) = trim_space x"
    unfolding trim_space_def using trim_right_space_fix by (rule trim_right_space_id)
qed

text \<open>An item line: the dash is part of it, so no item can look like a heading.\<close>

lemma item_line:
  assumes "cp_validText x n"
  shows "valid_utf8 (''- '' @ trim_space x)" and "LF \<notin> set (''- '' @ trim_space x)"
    and "trim_right_space (''- '' @ trim_space x) = ''- '' @ trim_space x"
  using cp_validText_line [OF assms] trim_right_space_append [of "trim_space x" "''- ''"]
  by auto

definition single_line :: "string \<Rightarrow> bool" where
  "single_line l \<longleftrightarrow> valid_utf8 l \<and> LF \<notin> set l"

lemma single_line_ascii: "is_ascii l \<Longrightarrow> LF \<notin> set l \<Longrightarrow> single_line l"
  by (simp add: single_line_def valid_utf8_ascii)

lemma single_line_text: "cp_validText x n \<Longrightarrow> single_line (trim_space x)"
  by (simp add: single_line_def cp_validText_line)

lemma list_lines_valid:
  assumes "\<forall>x \<in> set values. cp_validText x n" and "is_ascii title" and "LF \<notin> set title"
  shows "list_all single_line (list_lines title values)"
  using assms item_line single_line_ascii [of "title @ '':''"]
  by (auto simp: list_lines_def list_all_iff single_line_def)

lemma checkpoint_lines_valid:
  assumes "valid_checkpoint value"
  shows "list_all single_line (checkpoint_lines value)"
  using assms
  by (simp add: valid_checkpoint_def checkpoint_lists_def checkpoint_lines_def single_line_ascii
      single_line_text [of _ 1000] single_line_text [of _ 500] list_lines_valid [of _ 500])

lemma last_checkpoint_line:
  assumes "valid_checkpoint value"
  shows "\<exists>cs l. checkpoint_lines value = ''Checkpoint'' # cs @ [l] \<and> l \<noteq> [] \<and> trim_right_space l = l"
proof -
  have next_action: "cp_validText (cp_NextAction value) 500"
    and gates: "\<forall>x \<in> set (cp_RemainingGates value). cp_validText x 500"
    using assms by (auto simp: valid_checkpoint_def checkpoint_lists_def)
  have last_list: "last (list_lines t (xs @ [x])) = ''- '' @ trim_space x" for t xs x
    by (simp add: list_lines_def)
  have "last (checkpoint_lines value) \<noteq> [] \<and>
      trim_right_space (last (checkpoint_lines value)) = last (checkpoint_lines value)"
  proof (cases "cp_RemainingGates value" rule: rev_cases)
    case Nil
    then have "last (checkpoint_lines value) = trim_space (cp_NextAction value)"
      by (simp add: checkpoint_lines_def) (simp add: list_lines_def)
    then show ?thesis using cp_validText_line [OF next_action] by simp
  next
    case (snoc gs g)
    have "list_lines t (gs @ [g]) \<noteq> []" for t by (simp add: list_lines_def)
    then have "last (checkpoint_lines value) = ''- '' @ trim_space g"
      by (simp add: checkpoint_lines_def snoc last_list)
    moreover have "cp_validText g 500" using gates snoc by simp
    ultimately show ?thesis using item_line by simp
  qed
  moreover have "checkpoint_lines value = ''Checkpoint'' # tl (checkpoint_lines value)"
    "tl (checkpoint_lines value) \<noteq> []" by (simp_all add: checkpoint_lines_def)
  ultimately show ?thesis by (metis append_butlast_last_id last_ConsR)
qed

lemma valid_checkpoint_join:
  assumes "valid_checkpoint value"
  shows "trim_space (concat (map (\<lambda>l. l @ [LF]) (checkpoint_lines value))) =
    join [LF] (checkpoint_lines value)"
proof -
  obtain cs l where "checkpoint_lines value = ''Checkpoint'' # cs @ [l]" "l \<noteq> []"
    "trim_right_space l = l" using last_checkpoint_line [OF assms] by blast
  then show ?thesis
    using checkpoint_lines_valid [OF assms]
    by (intro trim_space_lines [of _ "''Checkpoint''" cs l])
       (simp_all add: list_all_iff single_line_def space_byte_def is_space_def)
qed

section \<open>Properties\<close>

text \<open>A checkpoint renders exactly when its objective, next action and items are valid
  texts within their limits, and then line by line: the text splits into the fixed headings
  and one line per field or item, so no field can add, hide or fake a line of the summary.\<close>

theorem checkpoint_render_lines:
  "(case checkpoint_Render value of
      Inr s \<Rightarrow> valid_checkpoint value \<and> split_on LF s = checkpoint_lines value
    | Inl e \<Rightarrow> \<not> valid_checkpoint value \<and> se_Code e = ErrorCodeInvalidSchema \<and> \<not> se_Retryable e)"
proof (cases "valid_checkpoint value")
  case True
  then have "checkpoint_Render value = Inr (join [LF] (checkpoint_lines value))"
    by (simp add: checkpoint_Render_ok valid_checkpoint_join)
  moreover have "split_on LF (join [LF] (checkpoint_lines value)) = checkpoint_lines value"
    using checkpoint_lines_valid [OF True]
    by (intro split_on_join) (simp_all add: list_all_iff single_line_def checkpoint_lines_def)
  ultimately show ?thesis using True by simp
next
  case False
  then obtain e where e: "checkpoint_Render value = Inl e"
    by (cases "checkpoint_Render value") (auto simp: checkpoint_Render_ok)
  then have "se_Code e = ErrorCodeInvalidSchema \<and> \<not> se_Retryable e"
    by (auto simp: checkpoint_Render_def checkpointError_def split: if_splits sum.splits
        dest!: check_each_Inl)
  with e False show ?thesis by simp
qed

end
