(* ===== verification/Tools.thy ===== *)
theory Tools
  imports Checkpoint Compiler_Props Lint "HOL-Library.AList"
begin

text \<open>
  \<open>internal/tools/service.go\<close>: the tool handlers and the per-session state they share. Each
  handler changes the state in one critical section, so it is one transition of the service.
  The set of connected sessions the SDK reports is an argument of every transition.
\<close>

section \<open>State\<close>

text \<open>
  The fields of a project audit the handlers inspect; the rest of the result is only stored and
  returned, so it is a type parameter.
\<close>

record 'p audit_project_result =
  apr_SchemaVersion :: string
  apr_Kind :: string
  apr_AuditReference :: string
  apr_Scope :: string
  apr_RevisionHash :: string
  apr_Coverage :: string
  apr_ReportFactsVersion :: "string option"
  apr_Body :: 'p

record 'p session_state =
  ss_checkpoint :: "get_checkpoint_result option"
  ss_auditRef :: string
  ss_audit :: "audit_session_result option"
  ss_provenance :: "string list"
  ss_projectAudits :: "string \<Rightarrow> 'p audit_project_result option"
  ss_projectOrder :: "string list"

record 'p service =
  sv_executionPolicy :: execution_policy
  sv_allowedSources :: "string set option"
  sv_processEnabled :: bool
  sv_state :: "(string \<times> 'p session_state) list"

definition empty_session :: "'p session_state" where
  "empty_session = \<lparr>ss_checkpoint = None, ss_auditRef = [], ss_audit = None, ss_provenance = [],
     ss_projectAudits = Map.empty, ss_projectOrder = []\<rparr>"

abbreviation maxProjectAuditsPerSession :: nat where "maxProjectAuditsPerSession \<equiv> 8"
abbreviation maxCheckpointItems :: nat where "maxCheckpointItems \<equiv> 50"
abbreviation maxCheckpointItem :: nat where "maxCheckpointItem \<equiv> 500"

definition pruneDisconnectedLocked ::
  "string set \<Rightarrow> (string \<times> 'p session_state) list \<Rightarrow> (string \<times> 'p session_state) list" where
  "pruneDisconnectedLocked active state =
     (if active = {} then state else filter (\<lambda>(key, _). key \<in> active) state)"

text \<open>The session's state and the map that holds it.\<close>

definition sessionStateLocked ::
  "string set \<Rightarrow> string \<Rightarrow> (string \<times> 'p session_state) list \<Rightarrow>
   'p session_state \<times> (string \<times> 'p session_state) list" where
  "sessionStateLocked active session state =
     (let state = pruneDisconnectedLocked active state in
      case map_of state session of
        Some st \<Rightarrow> (st, state)
      | None \<Rightarrow>
          let state = (if length state \<ge> 8 then [] else state)
          in (empty_session, AList.update session empty_session state))"

text \<open>Changing the state behind the pointer \<open>sessionStateLocked\<close> returned.\<close>

definition update_session ::
  "string set \<Rightarrow> string \<Rightarrow> ('p session_state \<Rightarrow> 'p session_state) \<Rightarrow> 'p service \<Rightarrow> 'p service" where
  "update_session active session f sv =
     (let (st, state) = sessionStateLocked active session (sv_state sv)
      in sv\<lparr>sv_state := AList.update session (f st) state\<rparr>)"

definition saveCheckpoint ::
  "string set \<Rightarrow> string \<Rightarrow> get_checkpoint_result \<Rightarrow> 'p service \<Rightarrow> 'p service" where
  "saveCheckpoint active session v sv =
     update_session active session (\<lambda>st. st\<lparr>ss_checkpoint := Some v\<rparr>) sv"

section \<open>Bounded texts\<close>

function shrink_valid :: "string \<Rightarrow> nat \<Rightarrow> nat" where
  "shrink_valid v limit =
     (if limit > 0 \<and> \<not> valid_utf8 (take limit v) then shrink_valid v (limit - 1) else limit)"
  by pat_completeness auto
termination by (relation "measure (\<lambda>(v, limit). limit)") auto

declare shrink_valid.simps [simp del]

definition bounded :: "string \<Rightarrow> nat \<Rightarrow> string" where
  "bounded v limit = (if length v \<le> limit then v else take (shrink_valid v limit) v)"

definition boundedCheckpointList :: "string list \<Rightarrow> string list" where
  "boundedCheckpointList vs =
     map (\<lambda>v. bounded v maxCheckpointItem)
       (if length vs > maxCheckpointItems then take maxCheckpointItems vs else vs)"

definition executionPolicyRank :: "execution_policy \<Rightarrow> int" where
  "executionPolicyRank v =
     (if v = ExecutionPolicyImproveOnly then 1
      else if v = ExecutionPolicyAskBeforeExecute then 2
      else if v = ExecutionPolicyFollowUserIntent then 3
      else 0)"

section \<open>Compiler and lint tools\<close>

definition checkpointForImprove ::
  "improve_prompt_request \<Rightarrow> improve_prompt_result \<Rightarrow> prompt_plan \<Rightarrow> get_checkpoint_result" where
  "checkpointForImprove request result plan =
     (let validation = ipr_Diagnostics result;
          validation = (if length validation = 0
            then [''Frozen v1 request and policy validation passed.''] else validation)
      in \<lparr>gcr_SchemaVersion = SchemaVersion, gcr_Kind = ''result'',
          gcr_Objective = bounded (ipq_Intent request) 1000,
          gcr_AcceptedDecisions =
            [''Execution policy outcome: '' @ show_policy_outcome (ipr_PolicyOutcome result) @ ''.''],
          gcr_Constraints = boundedCheckpointList (pp_Invariants plan), gcr_EvidenceRefs = [],
          gcr_Completed = [''Improved prompt compiled.''],
          gcr_Validation = boundedCheckpointList validation, gcr_Blockers = [],
          gcr_NextAction = ''Use the improved prompt at the authorized boundary.'',
          gcr_RemainingGates = boundedCheckpointList (pp_Gates plan)\<rparr>)"

definition improvePrompt ::
  "string set \<Rightarrow> poll_context \<Rightarrow> string \<Rightarrow> improve_prompt_request \<Rightarrow> 'p service \<Rightarrow>
   improve_prompt_result go_result \<times> 'p service" where
  "improvePrompt active ctx session request sv =
     (if executionPolicyRank (ipq_ExecutionPolicy request) > executionPolicyRank (sv_executionPolicy sv) then
        (Inl (NewError ErrorCodePermissionDenied
           ''requested execution policy exceeds configured policy'' ''execution_policy'' False), sv)
      else case Improve ctx request HostUnknown of
          Inl e \<Rightarrow> (Inl e, sv)
        | Inr result \<Rightarrow>
            let plan = (case ipq_PromptPlan request of
                          None \<Rightarrow> NewPlan (ipq_Intent request) | Some plan \<Rightarrow> plan)
            in (Inr result, saveCheckpoint active session (checkpointForImprove request result plan) sv))"

definition goal_checkpoint :: "create_goal_prompt_request \<Rightarrow> get_checkpoint_result" where
  "goal_checkpoint request =
     \<lparr>gcr_SchemaVersion = SchemaVersion, gcr_Kind = ''result'',
      gcr_Objective = bounded (cgq_Objective request) 1000,
      gcr_AcceptedDecisions = [''House goal format selected.''],
      gcr_Constraints = boundedCheckpointList (pp_Invariants (cgq_PromptPlan request)),
      gcr_EvidenceRefs = [], gcr_Completed = [''Goal prompt compiled.''],
      gcr_Validation = [''Frozen v1 goal contract passed.''], gcr_Blockers = [],
      gcr_NextAction = ''Start the goal only when the requested boundary permits it.'',
      gcr_RemainingGates = boundedCheckpointList (pp_Gates (cgq_PromptPlan request))\<rparr>"

definition createGoalPrompt ::
  "string set \<Rightarrow> poll_context \<Rightarrow> string \<Rightarrow> create_goal_prompt_request \<Rightarrow> 'p service \<Rightarrow>
   create_goal_prompt_result go_result \<times> 'p service" where
  "createGoalPrompt active ctx session request sv =
     (case CreateGoal ctx request of
        Inl e \<Rightarrow> (Inl e, sv)
      | Inr result \<Rightarrow> (Inr result, saveCheckpoint active session (goal_checkpoint request) sv))"

definition review_checkpoint ::
  "create_review_fix_prompt_request \<Rightarrow> create_review_fix_prompt_result \<Rightarrow> get_checkpoint_result" where
  "review_checkpoint request result =
     \<lparr>gcr_SchemaVersion = SchemaVersion, gcr_Kind = ''result'',
      gcr_Objective = ''Fix review findings for head '' @ crq_ReviewHead request @ ''.'',
      gcr_AcceptedDecisions = boundedCheckpointList (crr_FailureClasses result),
      gcr_Constraints = [''Scan directly analogous paths for every failure class.''],
      gcr_EvidenceRefs = [], gcr_Completed = [''Review-fix prompt compiled.''],
      gcr_Validation = [''Review head and bounded findings passed validation.''], gcr_Blockers = [],
      gcr_NextAction = ''Apply and validate the review fixes at the exact reviewed head.'',
      gcr_RemainingGates = [''Focused regression proof'', ''Same-pattern scan'', ''Latest-head validation'']\<rparr>"

definition createReviewFixPrompt ::
  "(nat \<Rightarrow> nat) \<Rightarrow> string set \<Rightarrow> poll_context \<Rightarrow> string \<Rightarrow> create_review_fix_prompt_request \<Rightarrow>
   'p service \<Rightarrow> create_review_fix_prompt_result go_result \<times> 'p service" where
  "createReviewFixPrompt uc active ctx session request sv =
     (case CreateReviewFix uc ctx request of
        Inl e \<Rightarrow> (Inl e, sv)
      | Inr result \<Rightarrow> (Inr result, saveCheckpoint active session (review_checkpoint request result) sv))"

fun lint_validation :: "string list \<Rightarrow> diagnostic list \<Rightarrow> string list" where
  "lint_validation validation [] = validation"
| "lint_validation validation (d # ds) =
     (let validation = validation @ [dg_Severity d @ '':'' @ dg_Code d] in
      if length validation = 50 then validation else lint_validation validation ds)"

definition lint_checkpoint :: "lint_prompt_result \<Rightarrow> get_checkpoint_result" where
  "lint_checkpoint result =
     \<lparr>gcr_SchemaVersion = SchemaVersion, gcr_Kind = ''result'',
      gcr_Objective = ''Review a prompt candidate.'',
      gcr_AcceptedDecisions =
        [''Prompt validity: '' @ (if lpr_Valid result then ''true'' else ''false'') @ ''.''],
      gcr_Constraints = [''Preserve authorization, evidence, validation, and stop boundaries.''],
      gcr_EvidenceRefs = [], gcr_Completed = [''Prompt lint completed.''],
      gcr_Validation = lint_validation
        (if length (lpr_Diagnostics result) = 0 then [''No prompt lint findings.''] else [])
        (lpr_Diagnostics result),
      gcr_Blockers = [], gcr_NextAction = ''Address material diagnostics before using the prompt.'',
      gcr_RemainingGates = []\<rparr>"

definition lintPrompt ::
  "(nat \<Rightarrow> nat) \<Rightarrow> string set \<Rightarrow> string \<Rightarrow> lint_prompt_request \<Rightarrow> 'p service \<Rightarrow>
   lint_prompt_result go_result \<times> 'p service" where
  "lintPrompt uc active session request sv =
     (case CheckPrompt uc request of
        Inl e \<Rightarrow> (Inl e, sv)
      | Inr result \<Rightarrow> (Inr result, saveCheckpoint active session (lint_checkpoint result) sv))"

definition to_checkpoint :: "get_checkpoint_result \<Rightarrow> checkpoint" where
  "to_checkpoint result =
     \<lparr>cp_Objective = gcr_Objective result, cp_AcceptedDecisions = gcr_AcceptedDecisions result,
      cp_Constraints = gcr_Constraints result, cp_EvidenceRefs = gcr_EvidenceRefs result,
      cp_Completed = gcr_Completed result, cp_Validation = gcr_Validation result,
      cp_Blockers = gcr_Blockers result, cp_NextAction = gcr_NextAction result,
      cp_RemainingGates = gcr_RemainingGates result\<rparr>"

definition getCheckpoint ::
  "string set \<Rightarrow> string \<Rightarrow> get_checkpoint_request \<Rightarrow> 'p service \<Rightarrow>
   get_checkpoint_result go_result \<times> 'p service" where
  "getCheckpoint active session request sv =
     (if gcq_SchemaVersion request \<noteq> SchemaVersion \<or> gcq_Kind request \<noteq> ''request'' \<or>
         length (gcq_Reference request) < 1 \<or> length (gcq_Reference request) > 128 then
        (Inl (NewError ErrorCodeInvalidSchema ''invalid checkpoint request'' ''request'' False), sv)
      else if gcq_Reference request \<noteq> ''latest'' then
        (Inl (NewError ErrorCodeNotFound ''checkpoint reference unavailable'' ''reference'' False), sv)
      else
        let state = pruneDisconnectedLocked active (sv_state sv);
            sv = sv\<lparr>sv_state := state\<rparr>
        in case Option.bind (map_of state session) ss_checkpoint of
             None \<Rightarrow>
               (Inl (NewError ErrorCodeNotFound ''checkpoint reference unavailable'' ''reference'' False), sv)
           | Some result \<Rightarrow>
               (bind_result (checkpoint_Render (to_checkpoint result)) (\<lambda>_. Inr result), sv))"

section \<open>Audit tools\<close>

definition hex_lower :: "char \<Rightarrow> bool" where
  "hex_lower c \<longleftrightarrow> (97 \<le> byte c \<and> byte c \<le> 102) \<or> (48 \<le> byte c \<and> byte c \<le> 57)"

definition sessionReference :: "string \<Rightarrow> bool" where
  "sessionReference s =
     (case split_on (CHR ''-'') s of
        [a, b, c, d, e] \<Rightarrow>
          length a = 8 \<and> length b = 4 \<and> length c = 4 \<and> length d = 4 \<and> length e = 12 \<and>
          list_all hex_lower (a @ b @ c @ d @ e) \<and>
          hd c \<in> set ''12345'' \<and> hd d \<in> set ''89ab''
      | _ \<Rightarrow> False)"

definition revisionHash :: "string \<Rightarrow> bool" where
  "revisionHash s \<longleftrightarrow> length s = 64 \<and> list_all hex_lower s"

fun check_source_items :: "stable_error \<Rightarrow> string set \<Rightarrow> string list \<Rightarrow> unit go_result" where
  "check_source_items e seen [] = Inr ()"
| "check_source_items e seen (source # sources) =
     (if length source = 0 \<or> length source > 80 \<or> source \<in> seen then Inl e
      else check_source_items e (insert source seen) sources)"

definition validateSources :: "string list \<Rightarrow> unit go_result" where
  "validateSources sources =
     (if length sources = 0 \<or> length sources > 20 then
        Inl (NewError ErrorCodeInvalidSchema ''configured_sources must contain 1 to 20 items''
          ''configured_sources'' False)
      else check_source_items (NewError ErrorCodeInvalidSchema
        ''configured_sources contains an invalid item'' ''configured_sources'' False) {} sources)"

text \<open>The index of the last separator, and the parser of audit references; \<open>parse_time\<close> is
  \<open>time.Parse\<close> with the RFC 3339 layout.\<close>

definition last_index :: "char \<Rightarrow> string \<Rightarrow> nat option" where
  "last_index c s =
     (if c \<in> set s then Some (length s - 1 - length (takeWhile (\<lambda>x. x \<noteq> c) (rev s))) else None)"

definition parseAuditReference ::
  "(string \<Rightarrow> go_time option) \<Rightarrow> string \<Rightarrow> (string \<times> go_time option) go_result" where
  "parseAuditReference parse_time reference =
     (let reference = (if prefix ''current:'' reference then drop 8 reference else reference);
          bad = NewError ErrorCodeInvalidSchema ''invalid as-of audit reference'' ''reference'' False
      in if prefix ''as-of:'' reference then
           let v = drop 6 reference in
           case last_index (CHR ''@'') v of
             None \<Rightarrow> Inl bad
           | Some separator \<Rightarrow>
               if separator < 1 then Inl bad
               else (case parse_time (take separator v) of
                   None \<Rightarrow> Inl bad
                 | Some time \<Rightarrow>
                     if \<not> sessionReference (drop (Suc separator) v) then Inl bad
                     else Inr (drop (Suc separator) v, Some time))
         else if \<not> sessionReference reference then
           Inl (NewError ErrorCodeInvalidSchema ''invalid audit reference'' ''reference'' False)
         else Inr (reference, None))"

text \<open>The allow-list check both audit tools run; a nil allow-list allows every source.\<close>

definition check_allowed :: "'p service \<Rightarrow> string list \<Rightarrow> unit go_result" where
  "check_allowed sv sources =
     (case sv_allowedSources sv of
        None \<Rightarrow> Inr ()
      | Some allowed \<Rightarrow> check_each (\<lambda>source.
          if source \<notin> allowed then
            Inl (NewError ErrorCodePermissionDenied ''audit source is not configured''
              ''configured_sources'' False)
          else if source = ''process'' \<and> \<not> sv_processEnabled sv then
            Inl (NewError ErrorCodePermissionDenied ''process audit purpose is not configured''
              ''configured_sources'' False)
          else Inr ()) sources)"

type_synonym session_store =
  "string \<Rightarrow> string list \<Rightarrow> go_time option \<Rightarrow> (audit_session_result \<times> string list) go_result"

definition auditSession ::
  "(string \<Rightarrow> go_time option) \<Rightarrow> session_store option \<Rightarrow> string set \<Rightarrow> string \<Rightarrow>
   audit_session_request \<Rightarrow> 'p service \<Rightarrow> audit_session_result go_result \<times> 'p service" where
  "auditSession parse_time audits active session request sv =
     (if asq_SchemaVersion request \<noteq> SchemaVersion \<or> asq_Kind request \<noteq> ''request'' \<or>
         length (asq_Reference request) < 1 \<or> length (asq_Reference request) > 128 then
        (Inl (NewError ErrorCodeInvalidSchema ''invalid audit request'' ''request'' False), sv)
      else if asq_Consent request = AuditConsentDenied then
        (Inl (NewError ErrorCodePermissionDenied ''audit consent denied'' ''consent'' False), sv)
      else if asq_Consent request \<noteq> AuditConsentGranted then
        (Inl (NewError ErrorCodeApprovalRequired ''explicit audit consent required'' ''consent'' False), sv)
      else case bind_result (validateSources (asq_ConfiguredSources request)) (\<lambda>_.
             bind_result (check_allowed sv (asq_ConfiguredSources request)) (\<lambda>_.
             bind_result (parseAuditReference parse_time (asq_Reference request)) (\<lambda>(sessionID, asOf).
             case audits of
               None \<Rightarrow> Inl (NewError ErrorCodeCoverageIncomplete ''audit store unavailable'' ''reference'' True)
             | Some store \<Rightarrow> store sessionID (asq_ConfiguredSources request) asOf))) of
          Inl e \<Rightarrow> (Inl e, sv)
        | Inr (result, provenance) \<Rightarrow>
            (Inr result, update_session active session (\<lambda>st. st\<lparr>ss_auditRef := asq_Reference request,
               ss_audit := Some result, ss_provenance := provenance\<rparr>) sv))"

text \<open>\<open>internal/audit/audit.go\<close>, \<open>ValidateRequest\<close>.\<close>

definition uuidReference :: "string \<Rightarrow> bool" where
  "uuidReference s =
     (case split_on (CHR ''-'') s of
        [a, b, c, d, e] \<Rightarrow>
          length a = 8 \<and> length b = 4 \<and> length c = 4 \<and> length d = 4 \<and> length e = 12 \<and>
          list_all (\<lambda>x. hex_lower x \<or> (65 \<le> byte x \<and> byte x \<le> 70)) (a @ b @ c @ d @ e)
      | _ \<Rightarrow> False)"

definition audit_ValidateRequest :: "audit_project_request \<Rightarrow> unit go_result" where
  "audit_ValidateRequest request =
     (if apq_SchemaVersion request \<noteq> SchemaVersion \<or> apq_Kind request \<noteq> ''request'' \<or>
         apq_Scope request \<notin> set [''portfolio'', ''project'', ''task'', ''trajectory''] \<or>
         apq_Reference request = [] \<or> length (apq_Reference request) > 128 \<or>
         length (apq_ConfiguredSources request) = 0 \<or> length (apq_ConfiguredSources request) > 20 then
        Inl (NewError ErrorCodeInvalidSchema ''invalid project audit request'' ''request'' False)
      else bind_result (check_source_items (NewError ErrorCodeInvalidSchema
             ''invalid project audit sources'' ''configured_sources'' False) {}
             (apq_ConfiguredSources request)) (\<lambda>_.
      if apq_Scope request = ''portfolio'' \<and> apq_Reference request \<noteq> ''all'' then
        Inl (NewError ErrorCodeInvalidSchema ''portfolio reference must be all'' ''reference'' False)
      else if apq_Scope request \<noteq> ''portfolio'' \<and> \<not> uuidReference (apq_Reference request) then
        Inl (NewError ErrorCodeInvalidSchema ''scope reference must be a UUID'' ''reference'' False)
      else if apq_Consent request = AuditConsentDenied then
        Inl (NewError ErrorCodePermissionDenied ''audit consent denied'' ''consent'' False)
      else if apq_Consent request \<noteq> AuditConsentGranted then
        Inl (NewError ErrorCodeApprovalRequired ''explicit audit consent required'' ''consent'' False)
      else if apq_StartsAt request = 0 \<or> \<not> apq_StartsAt request < apq_EndsAt request \<or>
              apq_AsOf request < apq_StartsAt request then
        Inl (NewError ErrorCodeInvalidSchema ''invalid audit window'' ''starts_at'' False)
      else Inr ()))"

text \<open>The eviction loop over \<open>projectOrder\<close>.\<close>

fun evict_projects ::
  "(string \<Rightarrow> 'a option) \<Rightarrow> string list \<Rightarrow> (string \<Rightarrow> 'a option) \<times> string list" where
  "evict_projects audits [] = (audits, [])"
| "evict_projects audits (h # hs) =
     (if length (h # hs) > maxProjectAuditsPerSession then evict_projects (audits(h := None)) hs
      else (audits, h # hs))"

definition cache_project :: "'p audit_project_result \<Rightarrow> string \<Rightarrow> 'p session_state \<Rightarrow> 'p session_state" where
  "cache_project cached revision st =
     (let order = (if ss_projectAudits st revision = None then ss_projectOrder st @ [revision]
                   else ss_projectOrder st);
          (audits, order) = evict_projects ((ss_projectAudits st)(revision \<mapsto> cached)) order
      in st\<lparr>ss_projectAudits := audits, ss_projectOrder := order\<rparr>)"

text \<open>\<open>clone\<close> is the JSON round trip of \<open>cloneProjectAudit\<close>.\<close>

definition auditProject ::
  "('p audit_project_result \<Rightarrow> 'p audit_project_result option) \<Rightarrow>
   (audit_project_request \<Rightarrow> 'p audit_project_result go_result) option \<Rightarrow> string set \<Rightarrow> string \<Rightarrow>
   audit_project_request \<Rightarrow> 'p service \<Rightarrow> 'p audit_project_result go_result \<times> 'p service" where
  "auditProject clone audits active session request sv =
     (case bind_result (audit_ValidateRequest request) (\<lambda>_.
           bind_result (check_allowed sv (apq_ConfiguredSources request)) (\<lambda>_.
           bind_result (case audits of
               None \<Rightarrow> Inl (NewError ErrorCodeCoverageIncomplete ''project audit store unavailable''
                 ''reference'' True)
             | Some store \<Rightarrow> store request) (\<lambda>result.
           if apr_SchemaVersion result \<noteq> SchemaVersion \<or> apr_Kind result \<noteq> ''result'' \<or>
              apr_AuditReference result \<noteq> apq_Reference request \<or>
              apr_Scope result \<noteq> apq_Scope request \<or> \<not> revisionHash (apr_RevisionHash result) \<or>
              apr_ReportFactsVersion result \<noteq> Some ''report-facts-v1'' then
             Inl (NewError ErrorCodeCoverageIncomplete ''governance report facts unavailable''
               ''report_facts'' True)
           else case clone result of
               None \<Rightarrow> Inl (NewError ErrorCodeCoverageIncomplete ''governance report result invalid''
                 ''result'' True)
             | Some cached \<Rightarrow> Inr (result, cached)))) of
        Inl e \<Rightarrow> (Inl e, sv)
      | Inr (result, cached) \<Rightarrow>
          (Inr result, update_session active session (cache_project cached (apr_RevisionHash result)) sv))"

section \<open>Steps of the service\<close>

text \<open>One tool call of one session, whatever its arguments and its outcome.\<close>

inductive tool_step :: "'p service \<Rightarrow> 'p service \<Rightarrow> bool" where
  improve: "improvePrompt active ctx session request sv = (r, sv') \<Longrightarrow> tool_step sv sv'"
| goal: "createGoalPrompt active ctx session greq sv = (gr, sv') \<Longrightarrow> tool_step sv sv'"
| review: "createReviewFixPrompt uc active ctx session rreq sv = (rr, sv') \<Longrightarrow> tool_step sv sv'"
| lint: "lintPrompt uc active session lreq sv = (lr, sv') \<Longrightarrow> tool_step sv sv'"
| checkpoint: "getCheckpoint active session creq sv = (cr, sv') \<Longrightarrow> tool_step sv sv'"
| audit_session: "auditSession pt audits active session areq sv = (ar, sv') \<Longrightarrow> tool_step sv sv'"
| audit_project: "auditProject clone paudits active session preq sv = (pr, sv') \<Longrightarrow> tool_step sv sv'"

definition fresh_service :: "execution_policy \<Rightarrow> string set option \<Rightarrow> bool \<Rightarrow> 'p service" where
  "fresh_service ep allowed process =
     \<lparr>sv_executionPolicy = ep, sv_allowedSources = allowed, sv_processEnabled = process, sv_state = []\<rparr>"

section \<open>Library: the state invariant\<close>

definition session_inv :: "'p session_state \<Rightarrow> bool" where
  "session_inv st \<longleftrightarrow>
     distinct (ss_projectOrder st) \<and> length (ss_projectOrder st) \<le> maxProjectAuditsPerSession \<and>
     dom (ss_projectAudits st) = set (ss_projectOrder st)"

definition state_inv :: "(string \<times> 'p session_state) list \<Rightarrow> bool" where
  "state_inv state \<longleftrightarrow>
     distinct (map fst state) \<and> length state \<le> 8 \<and> (\<forall>(key, st) \<in> set state. session_inv st)"

lemma session_inv_empty [simp]: "session_inv empty_session"
  by (simp add: session_inv_def empty_session_def)

lemma prune_inv:
  assumes "state_inv state"
  shows "state_inv (pruneDisconnectedLocked active state)"
proof -
  have "length (filter (\<lambda>(key, _). key \<in> active) state) \<le> 8"
    by (rule le_trans [OF length_filter_le]) (use assms in \<open>simp add: state_inv_def\<close>)
  with assms show ?thesis
    by (auto simp: state_inv_def pruneDisconnectedLocked_def distinct_map_filter)
qed

lemma length_alist_update:
  "length (AList.update k v xs) = (if k \<in> fst ` set xs then length xs else Suc (length xs))"
  by (induction xs) auto

lemma state_inv_update:
  assumes "state_inv state" and "session_inv st" and "k \<in> fst ` set state \<or> length state < 8"
  shows "state_inv (AList.update k st state)"
proof -
  have "x \<in> set (AList.update k st state) \<Longrightarrow> x = (k, st) \<or> x \<in> set state" for x
    by (induction state) (auto split: if_splits)
  then have "\<forall>(key, s) \<in> set (AList.update k st state). session_inv s"
    using assms(1,2) unfolding state_inv_def by blast
  moreover have "length (AList.update k st state) \<le> 8"
    using assms(1,3) by (auto simp: length_alist_update state_inv_def)
  ultimately show ?thesis using assms(1) by (simp add: state_inv_def distinct_update)
qed

lemma sessionStateLocked_inv:
  assumes "state_inv state" and "sessionStateLocked active session state = (st, state')"
  shows "session_inv st \<and> state_inv state' \<and> map_of state' session = Some st"
proof -
  let ?p = "pruneDisconnectedLocked active state"
  have p: "state_inv ?p" using assms(1) by (rule prune_inv)
  show ?thesis
  proof (cases "map_of ?p session")
    case None
    have "state_inv (AList.update session empty_session (if length ?p \<ge> 8 then [] else ?p))"
      using p by (intro state_inv_update) (auto simp: state_inv_def)
    with None assms(2) show ?thesis
      by (auto simp: sessionStateLocked_def Let_def update_conv' split: if_splits)
  next
    case (Some s)
    with p have "session_inv s" by (auto simp: state_inv_def dest!: map_of_SomeD)
    with p Some assms(2) show ?thesis by (simp add: sessionStateLocked_def Let_def)
  qed
qed

lemma update_session_inv:
  assumes "state_inv (sv_state sv)" and "\<And>st. session_inv st \<Longrightarrow> session_inv (f st)"
  shows "state_inv (sv_state (update_session active session f sv))"
proof -
  obtain st state where s: "sessionStateLocked active session (sv_state sv) = (st, state)"
    by fastforce
  from sessionStateLocked_inv [OF assms(1) s] have "state_inv (AList.update session (f st) state)"
    using assms(2) by (intro state_inv_update) (auto dest!: map_of_SomeD simp: image_iff, force)
  with s show ?thesis by (simp add: update_session_def)
qed

lemma evict_projects_inv:
  assumes "distinct order" and "dom audits = set order"
    and "evict_projects audits order = (audits', order')"
  shows "distinct order' \<and> length order' \<le> 8 \<and> dom audits' = set order' \<and> suffix order' order"
  using assms
proof (induction audits order rule: evict_projects.induct)
  case (2 audits h hs)
  show ?case
  proof (cases "length (h # hs) > 8")
    case True
    then have "evict_projects (audits(h := None)) hs = (audits', order')" using 2(4) by simp
    moreover have "dom (audits(h := None)) = set hs" using 2(2,3) by auto
    moreover have "distinct hs" using 2(2) by simp
    ultimately have "distinct order' \<and> length order' \<le> 8 \<and> dom audits' = set order' \<and>
        suffix order' hs" using 2(1) [OF True] by blast
    then show ?thesis by (blast intro: suffix_ConsI)
  qed (use 2 in auto)
qed simp

lemma cache_project_inv:
  assumes "session_inv st"
  shows "session_inv (cache_project cached revision st)"
proof -
  let ?order = "if ss_projectAudits st revision = None then ss_projectOrder st @ [revision]
    else ss_projectOrder st"
  obtain audits order where e:
    "evict_projects ((ss_projectAudits st)(revision \<mapsto> cached)) ?order = (audits, order)" by fastforce
  have "distinct ?order" "dom ((ss_projectAudits st)(revision \<mapsto> cached)) = set ?order"
    using assms by (auto simp: session_inv_def)
  from evict_projects_inv [OF this e] e show ?thesis
    by (simp add: cache_project_def session_inv_def Let_def)
qed

lemma session_inv_checkpoint [simp]:
  "session_inv (st\<lparr>ss_checkpoint := c\<rparr>) \<longleftrightarrow> session_inv st"
  "session_inv (st\<lparr>ss_auditRef := a, ss_audit := b, ss_provenance := p\<rparr>) \<longleftrightarrow> session_inv st"
  by (simp_all add: session_inv_def)

definition service_inv :: "'p service \<Rightarrow> 'p service \<Rightarrow> bool" where
  "service_inv sv0 sv \<longleftrightarrow>
     state_inv (sv_state sv) \<and> sv_executionPolicy sv = sv_executionPolicy sv0 \<and>
     sv_allowedSources sv = sv_allowedSources sv0 \<and> sv_processEnabled sv = sv_processEnabled sv0"

lemma update_session_config [simp]:
  "sv_executionPolicy (update_session active session f sv) = sv_executionPolicy sv"
  "sv_allowedSources (update_session active session f sv) = sv_allowedSources sv"
  "sv_processEnabled (update_session active session f sv) = sv_processEnabled sv"
  by (simp_all add: update_session_def case_prod_beta Let_def)

lemma service_inv_update:
  "service_inv sv0 sv \<Longrightarrow> (\<And>st. session_inv st \<Longrightarrow> session_inv (f st)) \<Longrightarrow>
   service_inv sv0 (update_session active session f sv)"
  by (simp add: service_inv_def update_session_inv)

lemma service_inv_save:
  "service_inv sv0 sv \<Longrightarrow> service_inv sv0 (saveCheckpoint active session v sv)"
  unfolding saveCheckpoint_def by (rule service_inv_update) simp_all

inductive_cases tool_step_cases: "tool_step sv sv'"

lemma tool_step_inv:
  assumes "tool_step sv sv'" and "service_inv sv0 sv"
  shows "service_inv sv0 sv'"
  using assms(1)
proof cases
  case improve
  then show ?thesis using assms(2)
    by (auto simp: improvePrompt_def Let_def service_inv_save split: if_splits sum.splits)
next
  case goal
  then show ?thesis using assms(2)
    by (auto simp: createGoalPrompt_def service_inv_save split: sum.splits)
next
  case review
  then show ?thesis using assms(2)
    by (auto simp: createReviewFixPrompt_def service_inv_save split: sum.splits)
next
  case lint
  then show ?thesis using assms(2)
    by (auto simp: lintPrompt_def service_inv_save split: sum.splits)
next
  case checkpoint
  then show ?thesis using assms(2)
    by (auto simp: getCheckpoint_def Let_def service_inv_def prune_inv split: if_splits option.splits)
next
  case audit_session
  then show ?thesis using assms(2)
    by (auto simp: auditSession_def split: if_splits sum.splits intro: service_inv_update)
next
  case audit_project
  then show ?thesis using assms(2)
    by (auto simp: auditProject_def split: sum.splits intro: service_inv_update cache_project_inv)
qed

lemma map_of_prune:
  "map_of (pruneDisconnectedLocked active state) k =
     (if active = {} \<or> k \<in> active then map_of state k else None)"
proof (cases "active = {}")
  case False
  have "map_of (filter (\<lambda>(key, _). key \<in> active) state) k = (if k \<in> active then map_of state k else None)"
    by (induction state) auto
  with False show ?thesis by (simp add: pruneDisconnectedLocked_def)
qed (simp add: pruneDisconnectedLocked_def)

lemma map_of_update_session:
  "map_of (sv_state (update_session active s f sv)) s =
     Some (f (fst (sessionStateLocked active s (sv_state sv))))"
  by (simp add: update_session_def case_prod_beta update_conv')

text \<open>Another session keeps its state or loses all of it.\<close>

lemma map_of_update_session_other:
  assumes "t \<noteq> s"
  shows "map_of (sv_state (update_session active s f sv)) t \<in> {map_of (sv_state sv) t, None}"
  using assms
  by (auto simp: update_session_def case_prod_beta sessionStateLocked_def Let_def update_conv'
      map_of_prune split: option.split)

definition latest_request :: get_checkpoint_request where
  "latest_request = \<lparr>gcq_SchemaVersion = SchemaVersion, gcq_Kind = ''request'', gcq_Reference = ''latest''\<rparr>"

lemma getCheckpoint_latest:
  assumes "Option.bind (map_of (pruneDisconnectedLocked active (sv_state sv)) session) ss_checkpoint = Some v"
  shows "fst (getCheckpoint active session latest_request sv) =
    bind_result (checkpoint_Render (to_checkpoint v)) (\<lambda>_. Inr v)"
  using assms by (simp add: getCheckpoint_def latest_request_def Let_def)

lemma getCheckpoint_saved:
  assumes "active = {} \<or> session \<in> active"
  shows "fst (getCheckpoint active session latest_request (saveCheckpoint active session v sv)) =
    bind_result (checkpoint_Render (to_checkpoint v)) (\<lambda>_. Inr v)"
  using assms
  by (intro getCheckpoint_latest) (simp add: map_of_prune saveCheckpoint_def map_of_update_session)

section \<open>Library: valid checkpoint texts\<close>

definition printable :: "string \<Rightarrow> bool" where
  "printable s \<longleftrightarrow> s \<noteq> [] \<and> list_all (\<lambda>c. 32 \<le> byte c \<and> byte c < 127) s \<and> \<not> space_byte (hd s) \<and>
     \<not> space_byte (last s)"

lemma cp_validText_printable:
  assumes "printable s" and "length s \<le> n"
  shows "cp_validText s n"
proof -
  have asc: "is_ascii s" using assms(1) by (fastforce simp: printable_def is_ascii_def list_all_iff)
  have "byte (hd s) < 128" "byte (last s) < 128"
    using assms(1) asc by (simp_all add: printable_def is_ascii_def list_all_iff)
  then have "trim_space s = s"
    using assms(1) by (intro trim_space_visible) (auto simp: printable_def)
  moreover have "list_all (\<lambda>r. \<not> is_control r) (runes s)"
    using assms(1) by (auto simp: runes_ascii [OF asc] printable_def list_all_iff is_control_def)
  ultimately show ?thesis
    using assms by (simp add: cp_validText_def valid_utf8_ascii [OF asc] printable_def)
qed

lemma shrink_valid_spec: "shrink_valid v limit \<le> limit \<and> valid_utf8 (take (shrink_valid v limit) v)"
proof (induction v limit rule: shrink_valid.induct)
  case (1 v limit)
  then show ?case
    by (cases "limit > 0 \<and> \<not> valid_utf8 (take limit v)") (auto simp: shrink_valid.simps [of v limit])
qed

lemma bounded_spec:
  assumes "valid_utf8 v"
  shows "length (bounded v limit) \<le> limit \<and> valid_utf8 (bounded v limit) \<and> prefix (bounded v limit) v"
  using assms shrink_valid_spec [of v limit]
  by (auto simp: bounded_def take_is_prefix)

lemma bounded_short: "length v \<le> limit \<Longrightarrow> bounded v limit = v"
  by (simp add: bounded_def)

lemma valid_checkpoint_improve:
  assumes "ipr_Diagnostics result = []"
  shows "valid_checkpoint (to_checkpoint (checkpointForImprove request result (NewPlan intent))) \<longleftrightarrow>
    cp_validText (bounded (ipq_Intent request) 1000) 1000"
proof -
  have "cp_validText (''Execution policy outcome: '' @ show_policy_outcome oc @ ''.'') 500" for oc
    by (cases oc) (auto intro!: cp_validText_printable simp: printable_def space_byte_def is_space_def)
  moreover have "cp_validText ''Use the improved prompt at the authorized boundary.'' 500"
    "cp_validText ''Improved prompt compiled.'' 500"
    "cp_validText ''Frozen v1 request and policy validation passed.'' 500"
    "cp_validText ''Preserve explicit facts, decisions, caveats, language, safety, privacy, and authorization boundaries.'' 500"
    by (auto intro!: cp_validText_printable simp: printable_def space_byte_def is_space_def)
  ultimately show ?thesis
    using assms
    by (simp add: valid_checkpoint_def checkpoint_lists_def to_checkpoint_def checkpointForImprove_def
        NewPlan_def defaultPlan_def boundedCheckpointList_def bounded_short)
qed

text \<open>Every result of \<open>improve\<close> carries the outcome the policy table gives some phase.\<close>

lemma improve_policy:
  assumes "improve ctx request host [] = Inr r"
  shows "(\<exists>phase. policy_Resolve (ipq_ExecutionPolicy request) phase host = Inr (ipr_PolicyOutcome r)) \<and>
    (\<exists>intent. Normalize (ipq_Intent request) = Inr intent) \<and> ipr_Diagnostics r = []"
proof -
  obtain intent plan where p: "\<not> ctx 0" "\<not> ctx 1" "prepareImproveRequest request = Inr (intent, plan)"
    using improve_Inr [OF assms] by metis
  have "\<exists>intent. Normalize (ipq_Intent request) = Inr intent"
    using p(3) by (auto simp: prepareImproveRequest_def bind_result_eq_Inr split: if_splits)
  with assms show ?thesis
    unfolding improve_eq [OF p]
    by (auto simp: compile_plan_Inr split: option.splits)
qed

lemma check_source_items_ok:
  "check_source_items e seen xs = Inr u \<Longrightarrow> distinct xs \<and> seen \<inter> set xs = {}"
  by (induction e seen xs rule: check_source_items.induct) (auto split: if_splits)

lemma validateSources_ok:
  assumes "validateSources xs = Inr u"
  shows "distinct xs \<and> xs \<noteq> [] \<and> length xs \<le> 20"
  using assms check_source_items_ok
  by (fastforce simp: validateSources_def split: if_splits)

lemma check_allowed_ok:
  assumes "check_allowed sv xs = Inr u"
  shows "case sv_allowedSources sv of None \<Rightarrow> True
    | Some allowed \<Rightarrow> set xs \<subseteq> allowed \<and> (\<not> sv_processEnabled sv \<longrightarrow> ''process'' \<notin> set xs)"
  using assms by (auto simp: check_allowed_def check_each_ok split: option.splits if_splits)

section \<open>Properties\<close>

text \<open>The session state stays bounded. From a fresh service, after any sequence of the seven kinds of step
  by any sessions, at most eight sessions are held, each under one key; every session
  caches at most eight project audits, exactly those its eviction order lists, each once; and
  the configured policy, source allow-list and process switch never change.\<close>

theorem tool_state_invariant:
  assumes "tool_step\<^sup>*\<^sup>* (fresh_service ep allowed process) sv"
  shows "length (sv_state sv) \<le> 8 \<and> distinct (map fst (sv_state sv)) \<and>
    (\<forall>(key, st) \<in> set (sv_state sv). distinct (ss_projectOrder st) \<and> length (ss_projectOrder st) \<le> 8 \<and>
       dom (ss_projectAudits st) = set (ss_projectOrder st)) \<and>
    sv_executionPolicy sv = ep \<and> sv_allowedSources sv = allowed \<and> sv_processEnabled sv = process"
proof -
  let ?sv0 = "fresh_service ep allowed process :: 'a service"
  have "service_inv ?sv0 sv"
    using assms
  proof (induction rule: rtranclp_induct)
    case base
    show ?case by (simp add: service_inv_def state_inv_def fresh_service_def)
  qed (rule tool_step_inv)
  then show ?thesis
    by (simp add: service_inv_def state_inv_def session_inv_def fresh_service_def)
qed

theorem tool_state_invariant_witness:
  "\<exists>sv :: unit service. tool_step\<^sup>*\<^sup>* (fresh_service ExecutionPolicyImproveOnly None False) sv \<and>
     length (sv_state sv) \<le> 8"
proof -
  let ?sv = "fresh_service ExecutionPolicyImproveOnly None False :: unit service"
  have "tool_step ?sv (snd (getCheckpoint {} ''stdio'' latest_request ?sv))"
    by (rule tool_step.checkpoint [where active = "{}"]) (rule prod.collapse [symmetric])
  then have "tool_step\<^sup>*\<^sup>* ?sv (snd (getCheckpoint {} ''stdio'' latest_request ?sv))" by blast
  with tool_state_invariant [OF this] show ?thesis by blast
qed

text \<open>The improve tool never authorises execution. It runs with an unknown host permission,
  so whatever the request says its result is not an execution recommendation, and a request
  whose policy outranks the configured one is refused without touching the state.\<close>

theorem improve_tool_never_executes:
  assumes "improvePrompt active ctx session request sv = (res, sv')"
  shows "(case res of
      Inr r \<Rightarrow> ipr_PolicyOutcome r \<noteq> PolicyOutcomeExecutionRecommended \<and>
        executionPolicyRank (ipq_ExecutionPolicy request) \<le> executionPolicyRank (sv_executionPolicy sv)
    | Inl e \<Rightarrow> sv' = sv)"
proof (cases res)
  case (Inl e)
  with assms show ?thesis by (auto simp: improvePrompt_def Let_def split: if_splits sum.splits)
next
  case (Inr r)
  with assms have rank: "executionPolicyRank (ipq_ExecutionPolicy request) \<le> executionPolicyRank (sv_executionPolicy sv)"
    and imp: "Improve ctx request HostUnknown = Inr r"
    by (auto simp: improvePrompt_def Let_def split: if_splits sum.splits)
  obtain phase where "policy_Resolve (ipq_ExecutionPolicy request) phase HostUnknown = Inr (ipr_PolicyOutcome r)"
    using improve_policy [OF imp [unfolded Improve_def]] by blast
  then have "ipr_PolicyOutcome r \<noteq> PolicyOutcomeExecutionRecommended"
    by (auto simp: policy_Resolve_def Let_def split: if_splits)
  with rank Inr show ?thesis by simp
qed

text \<open>Checkpoints do not leak between sessions. A checkpoint saved for one session is what
  that session reads back, if it renders; another session's stored state is unchanged or
  dropped as a whole, never replaced by foreign data.\<close>

theorem checkpoint_isolated:
  assumes "active = {} \<or> session \<in> active" and "other \<noteq> session"
  shows "fst (getCheckpoint active session latest_request (saveCheckpoint active session v sv)) =
      bind_result (checkpoint_Render (to_checkpoint v)) (\<lambda>_. Inr v) \<and>
    map_of (sv_state (saveCheckpoint active session v sv)) other \<in> {map_of (sv_state sv) other, None}"
  using getCheckpoint_saved [OF assms(1)]
    map_of_update_session_other [OF assms(2), of active "\<lambda>st. st\<lparr>ss_checkpoint := Some v\<rparr>" sv]
  unfolding saveCheckpoint_def by blast

text \<open>C11: What the improve tool saved for a request without a plan of its own, in a session that is not
  disconnected, can be read back exactly when the bounded intent is one visible line. If its first
  1000 bytes contain a line break or another control character, or are blank, the checkpoint just
  stored is refused as an invalid one.\<close>

theorem improve_then_checkpoint:
  assumes "improvePrompt active ctx session request sv = (Inr r, sv')"
    and "ipq_PromptPlan request = None" and "active = {} \<or> session \<in> active"
  shows "fst (getCheckpoint active session latest_request sv') =
    (if trim_space (bounded (ipq_Intent request) 1000) \<noteq> [] \<and>
        list_all (\<lambda>c. \<not> is_control c) (runes (bounded (ipq_Intent request) 1000))
     then Inr (checkpointForImprove request r (NewPlan (ipq_Intent request)))
     else Inl (checkpointError ''checkpoint objective and next action are required'' ''checkpoint''))"
proof -
  let ?cp = "checkpointForImprove request r (NewPlan (ipq_Intent request))"
  let ?b = "bounded (ipq_Intent request) 1000"
  have imp: "Improve ctx request HostUnknown = Inr r" and sv': "sv' = saveCheckpoint active session ?cp sv"
    using assms(1,2) by (auto simp: improvePrompt_def Let_def split: if_splits sum.splits)
  obtain intent where "Normalize (ipq_Intent request) = Inr intent" and diag: "ipr_Diagnostics r = []"
    using improve_policy [OF imp [unfolded Improve_def]] by blast
  then have "valid_utf8 (ipq_Intent request)" by (auto simp: Normalize_def split: if_splits)
  then have b: "length ?b \<le> 1000" "valid_utf8 ?b" using bounded_spec by auto
  have ok: "cp_validText ?b 1000 \<longleftrightarrow> trim_space ?b \<noteq> [] \<and> list_all (\<lambda>c. \<not> is_control c) (runes ?b)"
    using b by (simp add: cp_validText_def)
  show ?thesis
  proof (cases "cp_validText ?b 1000")
    case True
    with valid_checkpoint_improve [OF diag, of request "ipq_Intent request"]
    obtain s where "checkpoint_Render (to_checkpoint ?cp) = Inr s"
      using checkpoint_Render_ok by blast
    with True ok show ?thesis by (simp add: sv' getCheckpoint_saved [OF assms(3)])
  next
    case False
    then have "checkpoint_Render (to_checkpoint ?cp) =
        Inl (checkpointError ''checkpoint objective and next action are required'' ''checkpoint'')"
      by (simp add: checkpoint_Render_def to_checkpoint_def checkpointForImprove_def Let_def)
    with False ok show ?thesis by (simp add: sv' getCheckpoint_saved [OF assms(3)])
  qed
qed

text \<open>Evidence is read only with consent and within the allow-list. A successful session
  audit had granted consent, asked for 1 to 20 distinct sources, all of them allowed (and the
  process source only when enabled), and returned what the store answered for exactly these
  sources; in every other case the state is untouched.\<close>

theorem audit_session_guarded:
  assumes "auditSession parse_time audits active session request sv = (res, sv')"
  shows "(case res of
      Inl e \<Rightarrow> sv' = sv
    | Inr r \<Rightarrow> asq_Consent request = AuditConsentGranted \<and>
        distinct (asq_ConfiguredSources request) \<and> asq_ConfiguredSources request \<noteq> [] \<and>
        length (asq_ConfiguredSources request) \<le> 20 \<and>
        (case sv_allowedSources sv of None \<Rightarrow> True
         | Some allowed \<Rightarrow> set (asq_ConfiguredSources request) \<subseteq> allowed \<and>
             (\<not> sv_processEnabled sv \<longrightarrow> ''process'' \<notin> set (asq_ConfiguredSources request))) \<and>
        (\<exists>store sid asOf prov. audits = Some store \<and> sessionReference sid \<and>
           store sid (asq_ConfiguredSources request) asOf = Inr (r, prov)))"
proof (cases res)
  case (Inl e)
  with assms show ?thesis by (auto simp: auditSession_def split: if_splits sum.splits)
next
  case (Inr r)
  let ?srcs = "asq_ConfiguredSources request"
  from Inr assms have consent: "asq_Consent request = AuditConsentGranted"
    and "\<exists>prov. bind_result (validateSources ?srcs) (\<lambda>_.
             bind_result (check_allowed sv ?srcs) (\<lambda>_.
             bind_result (parseAuditReference parse_time (asq_Reference request)) (\<lambda>(sessionID, asOf).
             case audits of
               None \<Rightarrow> Inl (NewError ErrorCodeCoverageIncomplete ''audit store unavailable'' ''reference'' True)
             | Some store \<Rightarrow> store sessionID ?srcs asOf))) = Inr (r, prov)"
    by (auto simp: auditSession_def split: if_splits sum.splits)
  then obtain prov sid asOf store where v: "validateSources ?srcs = Inr ()" and a: "check_allowed sv ?srcs = Inr ()"
    and p: "parseAuditReference parse_time (asq_Reference request) = Inr (sid, asOf)"
    and s: "audits = Some store" "store sid ?srcs asOf = Inr (r, prov)"
    by (auto simp: bind_result_eq_Inr split: option.splits)
  have "sessionReference sid"
    using p by (auto simp: parseAuditReference_def Let_def split: if_splits option.splits)
  with consent s validateSources_ok [OF v] check_allowed_ok [OF a] Inr show ?thesis
    by (auto split: option.splits)
qed

section \<open>Witnesses\<close>

definition sample_service :: "unit service" where
  "sample_service = fresh_service ExecutionPolicyFollowUserIntent (Some {''rollout''}) False"

lemma sample_improve:
  "\<exists>r. improvePrompt {} (\<lambda>_. False) ''stdio'' (plain_request ''Fix'' ExecutionPolicyImproveOnly) sample_service =
     (Inr r, saveCheckpoint {} ''stdio''
        (checkpointForImprove (plain_request ''Fix'' ExecutionPolicyImproveOnly) r (NewPlan ''Fix'')) sample_service)"
proof -
  obtain r where "Improve (\<lambda>_. False) (plain_request ''Fix'' ExecutionPolicyImproveOnly) HostUnknown = Inr r"
    using plain_request_improves [of ExecutionPolicyImproveOnly HostUnknown]
    by (auto simp: policy_valid_defs)
  then show ?thesis
    by (intro exI [of _ r])
       (simp add: improvePrompt_def sample_service_def fresh_service_def executionPolicyRank_def
          plain_request_def)
qed

theorem improve_tool_never_executes_witness:
  "\<exists>r sv'. improvePrompt {} (\<lambda>_. False) ''stdio'' (plain_request ''Fix'' ExecutionPolicyImproveOnly)
      sample_service = (Inr r, sv') \<and> ipr_PolicyOutcome r \<noteq> PolicyOutcomeExecutionRecommended"
proof -
  obtain r sv' where r: "improvePrompt {} (\<lambda>_. False) ''stdio'' (plain_request ''Fix'' ExecutionPolicyImproveOnly)
      sample_service = (Inr r, sv')" using sample_improve by blast
  with improve_tool_never_executes [OF r] show ?thesis by auto
qed

theorem improve_then_checkpoint_witness:
  "\<exists>r sv'. improvePrompt {} (\<lambda>_. False) ''stdio'' (plain_request ''Fix'' ExecutionPolicyImproveOnly)
      sample_service = (Inr r, sv') \<and>
    fst (getCheckpoint {} ''stdio'' latest_request sv') =
      Inr (checkpointForImprove (plain_request ''Fix'' ExecutionPolicyImproveOnly) r (NewPlan ''Fix''))"
proof -
  obtain r sv' where r: "improvePrompt {} (\<lambda>_. False) ''stdio'' (plain_request ''Fix'' ExecutionPolicyImproveOnly)
      sample_service = (Inr r, sv')" using sample_improve by blast
  have "bounded ''Fix'' 1000 = ''Fix''" by (simp add: bounded_short)
  with improve_then_checkpoint [OF r] r show ?thesis
    by (auto simp: plain_request_def trim_space_ascii space_byte_def is_space_def runes_ascii is_control_def)
qed

theorem checkpoint_isolated_witness:
  "fst (getCheckpoint {} ''a'' latest_request (saveCheckpoint {} ''a'' (goal_checkpoint
        \<lparr>cgq_SchemaVersion = [], cgq_Kind = [], cgq_Objective = ''Fix'', cgq_PromptPlan = NewPlan ''Fix''\<rparr>)
      sample_service)) =
    bind_result (checkpoint_Render (to_checkpoint (goal_checkpoint
        \<lparr>cgq_SchemaVersion = [], cgq_Kind = [], cgq_Objective = ''Fix'', cgq_PromptPlan = NewPlan ''Fix''\<rparr>)))
      (\<lambda>_. Inr (goal_checkpoint
        \<lparr>cgq_SchemaVersion = [], cgq_Kind = [], cgq_Objective = ''Fix'', cgq_PromptPlan = NewPlan ''Fix''\<rparr>))"
  using checkpoint_isolated [of "{}" "''a''" "''b''"] by blast

definition sample_audit :: audit_session_result where
  "sample_audit = \<lparr>asr_SchemaVersion = SchemaVersion, asr_Kind = ''result'', asr_Coverage = CoverageStateComplete,
     asr_EvidenceRefs = [], asr_Findings = [], asr_RedactionApplied = True\<rparr>"

theorem audit_session_guarded_witness:
  "\<exists>sv'. auditSession (\<lambda>_. None) (Some (\<lambda>_ _ _. Inr (sample_audit, []))) {} ''stdio''
     \<lparr>asq_SchemaVersion = SchemaVersion, asq_Kind = ''request'',
      asq_Reference = ''00000000-0000-1000-8000-000000000000'', asq_Consent = AuditConsentGranted,
      asq_ConfiguredSources = [''rollout'']\<rparr> sample_service = (Inr sample_audit, sv') \<and>
    set [''rollout''] \<subseteq> the (sv_allowedSources sample_service)"
proof -
  let ?req = "\<lparr>asq_SchemaVersion = SchemaVersion, asq_Kind = ''request'',
      asq_Reference = ''00000000-0000-1000-8000-000000000000'', asq_Consent = AuditConsentGranted,
      asq_ConfiguredSources = [''rollout'']\<rparr>"
  obtain sv' where r: "auditSession (\<lambda>_. None) (Some (\<lambda>_ _ _. Inr (sample_audit, []))) {} ''stdio'' ?req
      sample_service = (Inr sample_audit, sv')"
    by (simp add: auditSession_def validateSources_def check_allowed_def sample_service_def fresh_service_def
        parseAuditReference_def sessionReference_def hex_lower_def)
  with audit_session_guarded [OF r] show ?thesis
    by (auto simp: sample_service_def fresh_service_def)
qed

end
