(* ===== verification/Tokens.thy ===== *)
theory Tokens
  imports Go_Num
begin

text \<open>
  \<open>internal/tokens\<close>: the difference of two observations of one native counter, with the
  wrap of a counter of a known maximum and the reset of one without. \<open>Derive\<close> returns its
  delta together with an error, so the model returns the pair.
\<close>

record observation =
  ob_CounterType :: string
  ob_Unit :: string
  ob_Value :: uint64
  ob_Sequence :: uint64
  ob_Source :: string

record delta =
  dl_CounterType :: string
  dl_Unit :: string
  dl_Value :: uint64
  dl_Start :: observation
  dl_End :: observation
  dl_State :: string
  dl_Confidence :: string
  dl_AlgorithmVersion :: string

definition unlike_counters :: "observation \<Rightarrow> observation \<Rightarrow> bool" where
  "unlike_counters s e \<longleftrightarrow>
     ob_CounterType s = '''' \<or> ob_CounterType s \<noteq> ob_CounterType e \<or>
     ob_Unit s = '''' \<or> ob_Unit s \<noteq> ob_Unit e \<or> ob_Source s \<noteq> ob_Source e"

definition Derive :: "observation \<Rightarrow> observation \<Rightarrow> uint64 \<Rightarrow> delta \<times> string option" where
  "Derive s e wrapAt =
     (let result = \<lparr> dl_CounterType = ob_CounterType e, dl_Unit = ob_Unit e, dl_Value = 0,
                     dl_Start = s, dl_End = e, dl_State = ''unknown'', dl_Confidence = ''low'',
                     dl_AlgorithmVersion = ''counter-delta-v1'' \<rparr>
      in if unlike_counters s e then (result, Some ''unlike counters cannot be combined'')
         else if ob_Sequence e \<le> ob_Sequence s
         then (result\<lparr> dl_State := ''duplicate_or_out_of_order'' \<rparr>, None)
         else if ob_Value s \<le> ob_Value e
         then (result\<lparr> dl_Value := ob_Value e - ob_Value s, dl_State := ''derived'',
                       dl_Confidence := ''high'' \<rparr>, None)
         else if 0 < wrapAt \<and> ob_Value s \<le> wrapAt \<and> ob_Value e \<le> wrapAt
         then (result\<lparr> dl_Value := wrapAt - ob_Value s + ob_Value e + 1, dl_State := ''wrap'',
                       dl_Confidence := ''medium'' \<rparr>, None)
         else (result\<lparr> dl_State := ''reset'', dl_Confidence := ''medium'' \<rparr>, None))"

section \<open>The wrapped difference\<close>

text \<open>The three machine operations of the wrap branch never overflow.\<close>

lemma wrap_value_exact:
  fixes w s e :: uint64
  assumes "s \<le> w" and "e < s"
  shows "unat (w - s + e + 1) = unat w + 1 - unat s + unat e"
proof -
  have le: "unat s \<le> unat w" and lt: "unat e < unat s"
    using assms by (simp_all add: word_le_nat_alt word_less_nat_alt)
  have 1: "unat (w - s) = unat w - unat s"
    using assms(1) by (rule unat_sub)
  have 2: "unat (w - s + e) = unat w - unat s + unat e"
    using le lt unat_lt64 [of w] by (subst unat_add_exact) (auto simp: 1)
  have "unat (w - s + e + 1) = unat (w - s + e) + unat (1 :: uint64)"
    using le lt unat_lt64 [of w] by (intro unat_add_exact) (auto simp: 2)
  then show ?thesis
    using le 2 by simp
qed

lemma mod_increment_split:
  fixes t n m :: nat
  assumes "n < m"
  shows "(t + n) mod m = (if t mod m + n < m then t mod m + n else t mod m + n - m)"
proof -
  have "(t + n) mod m = (t mod m + n) mod m"
    by (simp add: mod_add_left_eq)
  moreover have "t mod m < m"
    using assms by simp
  ultimately show ?thesis
    using assms by (cases "t mod m + n < m") (simp_all add: le_mod_geq not_less)
qed

text \<open>Derive recovers the work a counter counted. Take a counter that stands at t and then
  advances by n, of which only the value modulo wrapAt + 1 is visible, observed twice by the same
  source in sequence: as long as the advance is smaller than one revolution, the delta is exactly
  n, derived when the counter did not pass its maximum and wrapped when it did, and no machine
  operation of the computation overflows, even at the maximum of the 64-bit range.\<close>
theorem derive_recovers_increment:
  assumes like: "\<not> unlike_counters s e"
    and order: "ob_Sequence s < ob_Sequence e"
    and wrap: "0 < wrapAt"
    and start: "unat (ob_Value s) = t mod (unat wrapAt + 1)"
    and ending: "unat (ob_Value e) = (t + n) mod (unat wrapAt + 1)"
    and small: "n \<le> unat wrapAt"
  shows "unat (dl_Value (fst (Derive s e wrapAt))) = n \<and> snd (Derive s e wrapAt) = None
    \<and> dl_State (fst (Derive s e wrapAt)) =
        (if t mod (unat wrapAt + 1) + n \<le> unat wrapAt then ''derived'' else ''wrap'')"
proof -
  let ?m = "unat wrapAt + 1"
  have split: "unat (ob_Value e) =
      (if unat (ob_Value s) + n < ?m then unat (ob_Value s) + n else unat (ob_Value s) + n - ?m)"
    unfolding ending start using small by (intro mod_increment_split) simp
  have s_le: "ob_Value s \<le> wrapAt" and e_le: "ob_Value e \<le> wrapAt"
    unfolding word_le_nat_alt start ending by (simp_all flip: less_Suc_eq_le)
  show ?thesis
  proof (cases "unat (ob_Value s) + n < ?m")
    case True
    then have "ob_Value s \<le> ob_Value e"
      using split by (simp add: word_le_nat_alt)
    then show ?thesis
      using like order split True start by (simp add: Derive_def Let_def unat_sub not_le)
  next
    case False
    then have lt: "ob_Value e < ob_Value s"
      using split small by (simp add: word_less_nat_alt)
    then have "unat (wrapAt - ob_Value s + ob_Value e + 1) = n"
      using wrap_value_exact [OF s_le lt] split False s_le by (simp add: word_le_nat_alt)
    then show ?thesis
      using like order lt wrap s_le e_le False start by (simp add: Derive_def Let_def not_le)
  qed
qed

abbreviation sample_counter :: "uint64 \<Rightarrow> uint64 \<Rightarrow> observation" where
  "sample_counter v n \<equiv> \<lparr> ob_CounterType = ''input_tokens'', ob_Unit = ''tokens'', ob_Value = v,
     ob_Sequence = n, ob_Source = ''codex_jsonl'' \<rparr>"

theorem derive_recovers_increment_witness:
  "unat (dl_Value (fst (Derive (sample_counter 14 1) (sample_counter 2 2) 15))) = 4"
  using derive_recovers_increment
    [of "sample_counter 14 1" "sample_counter 2 2" "15" 14 4]
  by (simp add: unlike_counters_def)

lemma derive_outcomes:
  "snd (Derive s e w) \<noteq> None \<longleftrightarrow> unlike_counters s e"
  "dl_State (fst (Derive s e w)) \<in>
     {''unknown'', ''duplicate_or_out_of_order'', ''derived'', ''wrap'', ''reset''}"
  "dl_State (fst (Derive s e w)) \<notin> {''derived'', ''wrap''} \<Longrightarrow> dl_Value (fst (Derive s e w)) = 0"
  by (auto simp: Derive_def Let_def split: if_splits)

end
