(* ===== verification/Runtime.thy ===== *)
theory Runtime
  imports Go_Num
begin

text \<open>
  \<open>internal/runtime\<close>: the wall-clock time covered by a set of possibly overlapping execution
  intervals, and the token total of the text outputs of a run.
\<close>

record interval =
  iv_Start :: go_time
  iv_End :: go_time
  iv_Class :: string

definition start_before :: "interval \<Rightarrow> interval \<Rightarrow> bool" where
  "start_before a b \<longleftrightarrow> iv_Start a < iv_Start b"

interpretation start_order: slice_key start_before iv_Start
  by unfold_locales (simp add: start_before_def)

definition selected_intervals ::
  "(string \<Rightarrow> bool option) \<Rightarrow> interval list \<Rightarrow> interval list" where
  "selected_intervals included intervals =
     filter (\<lambda>i. lookup_or False included (iv_Class i) \<and> iv_Start i < iv_End i) intervals"

fun merge_intervals :: "go_time \<Rightarrow> go_time \<Rightarrow> go_duration \<Rightarrow> interval list \<Rightarrow> go_duration" where
  "merge_intervals s e tot [] = wrap64 (tot + time_Sub e s)"
| "merge_intervals s e tot (i # is) =
     (if e < iv_Start i
      then merge_intervals (iv_Start i) (iv_End i) (wrap64 (tot + time_Sub e s)) is
      else merge_intervals s (if e < iv_End i then iv_End i else e) tot is)"

definition UnionDuration ::
  "interval list \<Rightarrow> (string \<Rightarrow> bool option) \<Rightarrow> go_duration" where
  "UnionDuration intervals included =
     (case sort_slice start_before (selected_intervals included intervals) of
        [] \<Rightarrow> 0
      | i # is \<Rightarrow> merge_intervals (iv_Start i) (iv_End i) 0 is)"

record run_output =
  ro_Modality :: string
  ro_Bytes :: uint64
  ro_Tokens :: "uint64 option"

definition max_uint64 :: uint64 where
  "max_uint64 = - 1"

fun text_tokens_loop :: "uint64 \<Rightarrow> bool \<Rightarrow> run_output list \<Rightarrow> uint64 \<times> bool" where
  "text_tokens_loop tot known [] = (tot, known)"
| "text_tokens_loop tot known (out # outs) =
     (if ro_Modality out \<noteq> ''text'' \<and> ro_Modality out \<noteq> ''context''
      then text_tokens_loop tot known outs
      else case ro_Tokens out of
          None \<Rightarrow> text_tokens_loop tot False outs
        | Some n \<Rightarrow> if max_uint64 - tot < n then (0, False)
                    else text_tokens_loop (tot + n) known outs)"

definition TextTokens :: "run_output list \<Rightarrow> uint64 \<times> bool" where
  "TextTokens outputs = text_tokens_loop 0 True outputs"

section \<open>The union of the intervals\<close>

text \<open>The instants (nanoseconds) an interval covers, its end excluded.\<close>

definition instants :: "interval \<Rightarrow> go_time set" where
  "instants i = {iv_Start i..<iv_End i}"

lemma finite_instants [simp]: "finite (instants i)"
  by (simp add: instants_def)

lemma finite_UN_instants [simp]: "finite (\<Union>i \<in> set is. instants i)"
  by simp

lemma sorted_starts_Cons:
  "sorted_wrt (\<lambda>a b. iv_Start a \<le> iv_Start b) (i # is) \<longleftrightarrow>
     (\<forall>j \<in> set is. iv_Start i \<le> iv_Start j) \<and> sorted_wrt (\<lambda>a b. iv_Start a \<le> iv_Start b) is"
  by simp

text \<open>
  The loop adds to the closed total the number of instants of the open interval and of the
  remaining ones; no addition wraps while the sum fits a duration.
\<close>

lemma merge_intervals_measure:
  assumes "s < e" and "0 \<le> tot"
    and "sorted_wrt (\<lambda>a b. iv_Start a \<le> iv_Start b) is"
    and "\<forall>i \<in> set is. s \<le> iv_Start i \<and> iv_Start i < iv_End i"
    and "tot + int (card ({s..<e} \<union> (\<Union>i \<in> set is. instants i))) \<le> max_int64"
  shows "merge_intervals s e tot is =
     tot + int (card ({s..<e} \<union> (\<Union>i \<in> set is. instants i)))"
  using assms
proof (induction s e tot "is" rule: merge_intervals.induct)
  case (1 s e tot)
  then have "time_Sub e s = e - s"
    by (intro time_Sub_exact) auto
  with 1 show ?case
    by (simp add: wrap64_id min_int64_def)
next
  case (2 s e tot i "is")
  let ?rest = "\<Union>j \<in> set is. instants j"
  show ?case
  proof (cases "e < iv_Start i")
    case True
    let ?open = "{iv_Start i..<iv_End i} \<union> ?rest"
    have after: "\<forall>j \<in> set is. iv_Start i \<le> iv_Start j"
      using "2.prems"(3) by simp
    have disjoint: "{s..<e} \<inter> ?open = {}"
      using True after by (fastforce simp: instants_def)
    have "{s..<e} \<union> (\<Union>j \<in> set (i # is). instants j) = {s..<e} \<union> ?open"
      by (simp add: instants_def)
    then have card: "card ({s..<e} \<union> (\<Union>j \<in> set (i # is). instants j)) = nat (e - s) + card ?open"
      using disjoint by (simp add: card_Un_disjoint)
    have "time_Sub e s = e - s"
      using "2.prems"(1,2,5) card by (intro time_Sub_exact) auto
    moreover have "wrap64 (tot + (e - s)) = tot + (e - s)"
      using "2.prems"(1,2,5) card by (intro wrap64_id) (auto simp: min_int64_def)
    moreover have "merge_intervals (iv_Start i) (iv_End i) (tot + (e - s)) is
        = tot + (e - s) + int (card ?open)"
      using "2.IH"(1) [OF True] "2.prems" card calculation after by auto
    ultimately show ?thesis
      using True card "2.prems"(1) by simp
  next
    case False
    define e' where "e' = (if e < iv_End i then iv_End i else e)"
    have start: "s \<le> iv_Start i"
      using "2.prems"(4) by simp
    have merged: "{s..<e} \<union> instants i = {s..<e'}"
      using False start "2.prems"(1) by (auto simp: e'_def instants_def)
    then have eq: "{s..<e} \<union> (\<Union>j \<in> set (i # is). instants j) = {s..<e'} \<union> ?rest"
      by auto
    have "s < e'"
      using "2.prems"(1) by (auto simp: e'_def)
    then have "merge_intervals s e' tot is = tot + int (card ({s..<e'} \<union> ?rest))"
      using "2.IH"(2) [OF False] "2.prems" eq by (auto simp: e'_def)
    then show ?thesis
      using False eq by (simp add: e'_def)
  qed
qed

lemma sorted_starts:
  "sorted_wrt (\<lambda>a b. iv_Start a \<le> iv_Start b) (sort_slice start_before is)"
  using start_order.sorted_sort_slice [of "is"] by (simp add: sorted_map)

text \<open>UnionDuration returns the exact number of nanoseconds covered by at least one non-empty
  interval of an included class, each instant counted once however many intervals overlap there
  and whatever order they arrive in, provided that number fits a Duration.\<close>
theorem union_duration_measure:
  assumes "int (card (\<Union>i \<in> set (selected_intervals included intervals). instants i)) \<le> max_int64"
  shows "UnionDuration intervals included =
    int (card (\<Union>i \<in> set (selected_intervals included intervals). instants i))"
proof (cases "sort_slice start_before (selected_intervals included intervals)")
  case Nil
  then show ?thesis
    by (simp add: UnionDuration_def)
next
  case (Cons i "is")
  have set: "set (selected_intervals included intervals) = set (i # is)"
    using Cons set_sort_slice by metis
  have proper: "\<forall>j \<in> set (i # is). iv_Start j < iv_End j"
    unfolding set [symmetric] by (simp add: selected_intervals_def)
  have sorted: "sorted_wrt (\<lambda>a b. iv_Start a \<le> iv_Start b) (i # is)"
    using sorted_starts [of "selected_intervals included intervals"] Cons by simp
  have "(\<Union>j \<in> set (i # is). instants j) = {iv_Start i..<iv_End i} \<union> (\<Union>j \<in> set is. instants j)"
    by (simp add: instants_def)
  moreover have "merge_intervals (iv_Start i) (iv_End i) 0 is
      = 0 + int (card ({iv_Start i..<iv_End i} \<union> (\<Union>j \<in> set is. instants j)))"
    using proper sorted assms calculation unfolding set
    by (intro merge_intervals_measure) auto
  ultimately show ?thesis
    unfolding UnionDuration_def Cons set by simp
qed

theorem union_duration_measure_witness:
  "UnionDuration [\<lparr> iv_Start = 0, iv_End = 10, iv_Class = ''active'' \<rparr>,
      \<lparr> iv_Start = 5, iv_End = 15, iv_Class = ''active'' \<rparr>,
      \<lparr> iv_Start = 0, iv_End = 60, iv_Class = ''blocked'' \<rparr>] [''active'' \<mapsto> True] = 15"
proof -
  let ?is = "[\<lparr> iv_Start = 0, iv_End = 10, iv_Class = ''active'' \<rparr>,
      \<lparr> iv_Start = 5, iv_End = 15, iv_Class = ''active'' \<rparr>,
      \<lparr> iv_Start = 0, iv_End = 60, iv_Class = ''blocked'' \<rparr>]"
  have "(\<Union>i \<in> set (selected_intervals [''active'' \<mapsto> True] ?is). instants i) = {0..<15}"
    by (auto simp: selected_intervals_def instants_def lookup_or_def)
  then show ?thesis
    using union_duration_measure [of "[''active'' \<mapsto> True]" ?is] by (simp add: max_int64_def)
qed

section \<open>Token totals\<close>

definition counted_tokens :: "run_output list \<Rightarrow> nat list" where
  "counted_tokens outs = map (\<lambda>out. unat (the (ro_Tokens out)))
     (filter (\<lambda>out. ro_Modality out \<in> {''text'', ''context''} \<and> ro_Tokens out \<noteq> None) outs)"

definition all_counted :: "run_output list \<Rightarrow> bool" where
  "all_counted outs \<longleftrightarrow>
     (\<forall>out \<in> set outs. ro_Modality out \<in> {''text'', ''context''} \<longrightarrow> ro_Tokens out \<noteq> None)"

lemma text_tokens_loop_exact:
  "text_tokens_loop tot known outs =
     (if unat tot + sum_list (counted_tokens outs) < 2 ^ 64
      then (of_nat (unat tot + sum_list (counted_tokens outs)), known \<and> all_counted outs)
      else (0, False))"
proof (induction tot known outs rule: text_tokens_loop.induct)
  case (1 tot known)
  then show ?case
    by (simp add: counted_tokens_def all_counted_def unat_lt64)
next
  case (2 tot known out outs)
  show ?case
  proof (cases "ro_Modality out = ''text'' \<or> ro_Modality out = ''context''")
    case False
    then show ?thesis
      using "2.IH"(1) by (simp add: counted_tokens_def all_counted_def)
  next
    case counted: True
    show ?thesis
    proof (cases "ro_Tokens out")
      case None
      then show ?thesis
        using counted "2.IH"(2) by (auto simp: counted_tokens_def all_counted_def)
    next
      case (Some n)
      then have sum: "sum_list (counted_tokens (out # outs)) =
          unat n + sum_list (counted_tokens outs)"
        and all: "all_counted (out # outs) = all_counted outs"
        using counted by (auto simp: counted_tokens_def all_counted_def)
      show ?thesis
      proof (cases "max_uint64 - tot < n")
        case True
        then have "2 ^ 64 \<le> unat tot + unat n"
          by (simp add: max_uint64_def uint64_room_iff)
        then show ?thesis
          using counted Some True sum by auto
      next
        case False
        then have "unat (tot + n) = unat tot + unat n"
          unfolding max_uint64_def uint64_room_iff by (intro unat_add_exact) simp
        then show ?thesis
          using counted Some False sum all "2.IH"(3) by (auto simp: add.assoc)
      qed
    qed
  qed
qed

text \<open>TextTokens returns the exact sum of the token counts of the text and context outputs
  and whether each of them had a count, when that sum fits 64 bits; otherwise it returns zero and
  unknown, never a wrapped total. Outputs of other modalities change nothing.\<close>
theorem text_tokens_exact:
  "TextTokens outs =
     (if sum_list (counted_tokens outs) < 2 ^ 64
      then (of_nat (sum_list (counted_tokens outs)), all_counted outs)
      else (0, False))"
  by (simp add: TextTokens_def text_tokens_loop_exact)

end
