(* ===== verification/Normalize_Ordering.thy ===== *)
theory Normalize_Ordering
  imports Go_Num
begin

text \<open>
  \<open>internal/normalize\<close>: one field asserted by several sources is resolved by precedence, then
  source sequence, monotonic clock and wall clock.
\<close>

record assertion =
  as_Field :: string
  as_Value :: string
  as_SourceKind :: string
  as_SourceSequence :: uint64
  as_MonotonicNanos :: int
  as_ObservedAt :: go_time
  as_Precedence :: int

record resolution =
  rs_Field :: string
  rs_Value :: string
  rs_WinningSource :: string
  rs_Conflicts :: "assertion list"
  rs_OrderingUncertain :: bool

definition assertion_before :: "assertion \<Rightarrow> assertion \<Rightarrow> bool" where
  "assertion_before a b \<longleftrightarrow>
     (if as_Precedence a \<noteq> as_Precedence b then as_Precedence b < as_Precedence a
      else if as_SourceSequence a \<noteq> as_SourceSequence b
      then as_SourceSequence b < as_SourceSequence a
      else if as_MonotonicNanos a \<noteq> as_MonotonicNanos b
      then as_MonotonicNanos b < as_MonotonicNanos a
      else as_ObservedAt b < as_ObservedAt a)"

definition same_rank :: "assertion \<Rightarrow> assertion \<Rightarrow> bool" where
  "same_rank a w \<longleftrightarrow> as_Precedence a = as_Precedence w \<and>
     as_SourceSequence a = as_SourceSequence w \<and>
     as_MonotonicNanos a = as_MonotonicNanos w \<and> as_ObservedAt a = as_ObservedAt w"

fun resolve_loop :: "assertion \<Rightarrow> resolution \<Rightarrow> bool \<Rightarrow> assertion list \<Rightarrow> resolution \<times> bool" where
  "resolve_loop winner result tie [] = (result, tie)"
| "resolve_loop winner result tie (a # as) =
     (let r = (if as_Value a \<noteq> as_Value winner
               then result\<lparr> rs_Conflicts := rs_Conflicts result @ [a] \<rparr> else result)
      in if same_rank a winner
         then resolve_loop winner (r\<lparr> rs_OrderingUncertain := True \<rparr>)
                (tie \<or> as_Value a \<noteq> as_Value winner) as
         else resolve_loop winner r tie as)"

definition empty_resolution :: resolution where
  "empty_resolution = \<lparr> rs_Field = '''', rs_Value = '''', rs_WinningSource = '''',
     rs_Conflicts = [], rs_OrderingUncertain = False \<rparr>"

definition normalize_Resolve :: "assertion list \<Rightarrow> resolution" where
  "normalize_Resolve assertions =
     (case sort_slice assertion_before assertions of
        [] \<Rightarrow> empty_resolution
      | winner # others \<Rightarrow>
          (let (result, tie) = resolve_loop winner
                 (empty_resolution\<lparr> rs_Field := as_Field winner, rs_Value := as_Value winner,
                    rs_WinningSource := as_SourceKind winner \<rparr>) False others
           in if tie then result\<lparr> rs_Value := '''', rs_WinningSource := '''' \<rparr> else result))"

section \<open>The order of assertions\<close>

type_synonym assertion_rank = "int \<times> int \<times> int \<times> int"

definition rank_key :: "assertion \<Rightarrow> assertion_rank" where
  "rank_key a = (- as_Precedence a, - uint (as_SourceSequence a), - as_MonotonicNanos a,
                 - as_ObservedAt a)"

interpretation assertion_order: slice_key assertion_before rank_key
  by unfold_locales (auto simp: assertion_before_def rank_key_def word_less_def word_uint_eq_iff)

lemma same_rank_iff: "same_rank a b \<longleftrightarrow> rank_key a = rank_key b"
  by (auto simp: same_rank_def rank_key_def word_uint_eq_iff)

text \<open>The assertions no other one outranks.\<close>

definition top_assertions :: "assertion list \<Rightarrow> assertion list" where
  "top_assertions as = filter (\<lambda>a. \<forall>b \<in> set as. rank_key a \<le> rank_key b) as"

definition agreed_value :: "assertion list \<Rightarrow> string" where
  "agreed_value tops = (if tops \<noteq> [] \<and> (\<forall>a \<in> set tops. as_Value a = as_Value (hd tops))
     then as_Value (hd tops) else '''')"

lemma agreed_value_member:
  assumes "a \<in> set tops"
  shows "agreed_value tops = (if \<forall>b \<in> set tops. as_Value b = as_Value a then as_Value a else '''')"
proof -
  have ne: "tops \<noteq> []"
    using assms by auto
  have "(\<forall>b \<in> set tops. as_Value b = as_Value (hd tops)) \<longleftrightarrow>
      (\<forall>b \<in> set tops. as_Value b = as_Value a)"
    using assms hd_in_set [OF ne] by metis
  moreover have "as_Value (hd tops) = as_Value a" if "\<forall>b \<in> set tops. as_Value b = as_Value a"
    using that hd_in_set [OF ne] by blast
  ultimately show ?thesis
    using ne by (simp add: agreed_value_def)
qed

lemma agreed_value_cong:
  assumes "set xs = set ys"
  shows "agreed_value xs = agreed_value ys"
proof (cases "xs = []")
  case False
  then have "hd xs \<in> set xs"
    by simp
  then show ?thesis
    using agreed_value_member [of "hd xs" xs] agreed_value_member [of "hd xs" ys] assms by simp
qed (use assms in simp)

lemma resolve_loop_eq:
  "resolve_loop w r tie as =
     (r\<lparr> rs_Conflicts := rs_Conflicts r @ filter (\<lambda>a. as_Value a \<noteq> as_Value w) as,
         rs_OrderingUncertain := rs_OrderingUncertain r \<or> (\<exists>a \<in> set as. same_rank a w) \<rparr>,
      tie \<or> (\<exists>a \<in> set as. same_rank a w \<and> as_Value a \<noteq> as_Value w))"
  by (induction w r tie as rule: resolve_loop.induct) (auto simp: Let_def)

lemma sorted_head_top:
  assumes "sort_slice assertion_before as = w # ws"
  shows "\<forall>b \<in> set as. rank_key w \<le> rank_key b"
proof -
  have "sorted (map rank_key (w # ws))"
    using assertion_order.sorted_sort_slice [of as] assms by simp
  moreover have "set as = set (w # ws)"
    using set_sort_slice [of assertion_before as] assms by simp
  ultimately show ?thesis
    by auto
qed

lemma sorted_tops:
  assumes "sort_slice assertion_before as = w # ws"
  shows "set (top_assertions as) = insert w {a \<in> set ws. same_rank a w}"
proof -
  have set: "set as = insert w (set ws)"
    using set_sort_slice [of assertion_before as] assms by simp
  have top: "\<forall>b \<in> set as. rank_key w \<le> rank_key b"
    using assms by (rule sorted_head_top)
  show ?thesis
  proof (rule set_eqI)
    fix a
    have "a \<in> set (top_assertions as) \<longleftrightarrow> a \<in> set as \<and> rank_key a = rank_key w"
      using top set unfolding top_assertions_def by (auto intro: antisym)
    then show "a \<in> set (top_assertions as) \<longleftrightarrow> a \<in> insert w {a \<in> set ws. same_rank a w}"
      using set by (auto simp: same_rank_iff)
  qed
qed

lemma length_tops:
  assumes "sort_slice assertion_before as = w # ws"
  shows "length (top_assertions as) = Suc (length (filter (\<lambda>a. same_rank a w) ws))"
proof -
  have m: "mset as = mset (w # ws)"
    using mset_sort_slice [of assertion_before as] assms by simp
  have top: "\<forall>b \<in> set as. rank_key w \<le> rank_key b"
    using assms by (rule sorted_head_top)
  have w: "w \<in> set as"
    using m by (metis list.set_intros(1) set_mset_mset)
  have "top_assertions as = filter (\<lambda>a. same_rank a w) as"
    unfolding top_assertions_def
    by (rule filter_cong [OF refl]) (use top w in \<open>auto simp: same_rank_iff intro: antisym\<close>)
  then have "mset (top_assertions as) = filter_mset (\<lambda>a. same_rank a w) (mset (w # ws))"
    using m by simp
  then have "mset (top_assertions as) = mset (w # filter (\<lambda>a. same_rank a w) ws)"
    by (simp add: same_rank_iff)
  then have "length (top_assertions as) = length (w # filter (\<lambda>a. same_rank a w) ws)"
    by (rule mset_eq_length)
  then show ?thesis
    by simp
qed

lemma resolve_value: "rs_Value (normalize_Resolve as) = agreed_value (top_assertions as)"
proof (cases "sort_slice assertion_before as")
  case Nil
  then show ?thesis
    by (simp add: normalize_Resolve_def empty_resolution_def agreed_value_def top_assertions_def)
next
  case (Cons w ws)
  have "agreed_value (top_assertions as) = agreed_value (w # filter (\<lambda>a. same_rank a w) ws)"
    by (rule agreed_value_cong) (simp add: sorted_tops [OF Cons])
  then show ?thesis
    by (auto simp: normalize_Resolve_def Cons resolve_loop_eq empty_resolution_def agreed_value_def)
qed

lemma resolve_uncertain:
  "rs_OrderingUncertain (normalize_Resolve as) \<longleftrightarrow> 1 < length (top_assertions as)"
proof (cases "sort_slice assertion_before as")
  case Nil
  then show ?thesis
    by (simp add: normalize_Resolve_def empty_resolution_def top_assertions_def)
next
  case (Cons w ws)
  show ?thesis
    unfolding length_tops [OF Cons]
    by (auto simp: normalize_Resolve_def Cons resolve_loop_eq empty_resolution_def filter_empty_conv
      split: if_splits)
qed

lemma top_assertions_mset:
  assumes "mset xs = mset ys"
  shows "mset (top_assertions xs) = mset (top_assertions ys)"
  using assms mset_eq_setD [OF assms] by (simp add: top_assertions_def)

text \<open>Resolve is deterministic in the evidence, not in its arrival order. The resolved value
  is the one on which all the assertions of highest precedence, sequence, monotonic and wall clock
  agree, and blank when two of them disagree; the ordering is reported uncertain exactly when more
  than one assertion is highest; and every permutation of the same assertions gives the same value
  and the same uncertainty.\<close>
theorem resolve_deterministic:
  assumes "mset ys = mset xs"
  shows "rs_Value (normalize_Resolve ys) = agreed_value (top_assertions xs)
    \<and> (rs_OrderingUncertain (normalize_Resolve ys) \<longleftrightarrow> 1 < length (top_assertions xs))"
proof -
  have m: "mset (top_assertions ys) = mset (top_assertions xs)"
    using assms by (rule top_assertions_mset)
  show ?thesis
    unfolding resolve_value resolve_uncertain mset_eq_length [OF m]
      agreed_value_cong [OF mset_eq_setD [OF m]] by simp
qed

abbreviation sample_assertion :: "string \<Rightarrow> string \<Rightarrow> uint64 \<Rightarrow> assertion" where
  "sample_assertion v src n \<equiv> \<lparr> as_Field = ''state'', as_Value = v, as_SourceKind = src,
     as_SourceSequence = n, as_MonotonicNanos = 1, as_ObservedAt = 7, as_Precedence = 10 \<rparr>"

theorem resolve_deterministic_witness:
  "rs_Value (normalize_Resolve [sample_assertion ''two'' ''b'' 1, sample_assertion ''one'' ''a'' 1])
     = ''''
   \<and> rs_Value (normalize_Resolve [sample_assertion ''new'' ''b'' 2, sample_assertion ''old'' ''a'' 1])
     = ''new''"
proof
  let ?x = "sample_assertion ''one'' ''a'' 1" and ?y = "sample_assertion ''two'' ''b'' 1"
  have "mset [?y, ?x] = mset [?x, ?y]"
    by simp
  moreover have "agreed_value (top_assertions [?x, ?y]) = ''''"
    by (simp add: top_assertions_def agreed_value_def rank_key_def)
  ultimately show "rs_Value (normalize_Resolve [?y, ?x]) = ''''"
    using resolve_deterministic [of "[?y, ?x]" "[?x, ?y]"] by metis
next
  let ?x = "sample_assertion ''old'' ''a'' 1" and ?y = "sample_assertion ''new'' ''b'' 2"
  have "mset [?y, ?x] = mset [?x, ?y]"
    by simp
  moreover have "agreed_value (top_assertions [?x, ?y]) = ''new''"
    by (simp add: top_assertions_def agreed_value_def rank_key_def)
  ultimately show "rs_Value (normalize_Resolve [?y, ?x]) = ''new''"
    using resolve_deterministic [of "[?y, ?x]" "[?x, ?y]"] by metis
qed

text \<open>The conflicts reported are the losing assertions with another value than the winner's.\<close>

lemma resolve_conflicts:
  assumes "sort_slice assertion_before as = w # ws"
  shows "rs_Conflicts (normalize_Resolve as) = filter (\<lambda>a. as_Value a \<noteq> as_Value w) ws"
  by (simp add: normalize_Resolve_def assms resolve_loop_eq empty_resolution_def)

end
