(* ===== verification/Lineage.thy ===== *)
theory Lineage
  imports Go_Num
begin

text \<open>
  \<open>internal/lineage\<close>: the events of several sources are folded into one invocation per logical
  call. The map from call ids to pointers of invocations is an association list in the order of
  insertion; every pointer is reachable through the map only, so an update through the pointer is
  an update of the entry. The two final loops range over the map in an unspecified order:
  \<open>lineage_summary_permute\<close> shows that their result does not depend on it.
\<close>

record lineage_event =
  le_Source :: string
  le_SourceEventID :: string
  le_LogicalCallID :: string
  le_ParentCallID :: string
  le_Kind :: string
  le_Role :: string
  le_Attempt :: int
  le_Result :: bool
  le_LateRevision :: bool

record invocation =
  in_LogicalCallID :: string
  in_ParentCallID :: string
  in_Kinds :: "string list"
  in_Sources :: "string list"
  in_Attempts :: int
  in_HasResult :: bool
  in_Revised :: bool
  in_ParentConflict :: bool

record lineage_summary =
  ls_Invocations :: "invocation list"
  ls_HostCount :: nat
  ls_LeafCount :: nat

definition appendUnique :: "string list \<Rightarrow> string \<Rightarrow> string list" where
  "appendUnique vs v = (if v \<in> set vs then vs else vs @ [v])"

definition event_identity :: "lineage_event \<Rightarrow> string" where
  "event_identity e = le_Source e @ [CHR 0x00] @ le_SourceEventID e"

definition new_invocation :: "lineage_event \<Rightarrow> invocation" where
  "new_invocation e = \<lparr> in_LogicalCallID = le_LogicalCallID e, in_ParentCallID = le_ParentCallID e,
     in_Kinds = [], in_Sources = [], in_Attempts = 0, in_HasResult = False, in_Revised = False,
     in_ParentConflict = False \<rparr>"

definition parent_event :: "lineage_event \<Rightarrow> invocation \<Rightarrow> invocation" where
  "parent_event e i = (if in_ParentCallID i \<noteq> le_ParentCallID e
     then i\<lparr> in_ParentCallID := '''', in_ParentConflict := True \<rparr> else i)"

definition record_event :: "lineage_event \<Rightarrow> invocation \<Rightarrow> invocation" where
  "record_event e i = i\<lparr>
     in_Kinds := appendUnique (in_Kinds i) (le_Kind e),
     in_Sources := appendUnique (in_Sources i) (le_Source e),
     in_Attempts := (if in_Attempts i < le_Attempt e then le_Attempt e else in_Attempts i),
     in_HasResult := in_HasResult i \<or> le_Result e,
     in_Revised := in_Revised i \<or> le_LateRevision e \<rparr>"

type_synonym call_map = "(string \<times> invocation) list"

fun update_call :: "lineage_event \<Rightarrow> call_map \<Rightarrow> call_map" where
  "update_call e [] = [(le_LogicalCallID e, record_event e (new_invocation e))]"
| "update_call e ((k, i) # m) =
     (if k = le_LogicalCallID e then (k, record_event e (parent_event e i)) # m
      else (k, i) # update_call e m)"

fun correlate_events :: "string set \<Rightarrow> call_map \<Rightarrow> lineage_event list \<Rightarrow> call_map" where
  "correlate_events seen byCall [] = byCall"
| "correlate_events seen byCall (e # es) =
     (if le_LogicalCallID e = '''' \<or> le_SourceEventID e = '''' then correlate_events seen byCall es
      else if event_identity e \<in> seen then correlate_events seen byCall es
      else correlate_events (insert (event_identity e) seen) (update_call e byCall) es)"

definition call_before :: "invocation \<Rightarrow> invocation \<Rightarrow> bool" where
  "call_before a b \<longleftrightarrow> in_LogicalCallID a < in_LogicalCallID b"

definition called_parents :: "invocation list \<Rightarrow> string set" where
  "called_parents is = set (filter (\<lambda>p. p \<noteq> '''') (map in_ParentCallID is))"

definition summarize_calls :: "invocation list \<Rightarrow> lineage_summary" where
  "summarize_calls is = \<lparr>
     ls_Invocations = sort_slice call_before is,
     ls_HostCount = length (filter (\<lambda>i. in_ParentCallID i = '''') is),
     ls_LeafCount = length (filter (\<lambda>i. in_LogicalCallID i \<notin> called_parents is) is) \<rparr>"

definition Correlate :: "lineage_event list \<Rightarrow> lineage_summary" where
  "Correlate events = summarize_calls (map snd (correlate_events {} [] events))"

interpretation call_order: slice_key call_before in_LogicalCallID
  by unfold_locales (simp add: call_before_def)

lemma lineage_summary_permute:
  assumes "mset ys = mset xs" and "inj_on in_LogicalCallID (set xs)"
  shows "summarize_calls ys = summarize_calls xs"
proof -
  have "called_parents ys = called_parents xs"
    using mset_eq_setD [OF assms(1)] by (simp add: called_parents_def)
  moreover have "length (filter P ys) = length (filter P xs)" for P
    by (rule mset_eq_length) (simp add: assms(1))
  ultimately show ?thesis
    unfolding summarize_calls_def call_order.sort_slice_permute [OF assms] by simp
qed

section \<open>The specification\<close>

text \<open>
  The events that count: those with both ids, and of the deliveries with one identity the first.
\<close>

fun counted_events :: "string set \<Rightarrow> lineage_event list \<Rightarrow> lineage_event list" where
  "counted_events seen [] = []"
| "counted_events seen (e # es) =
     (if le_LogicalCallID e = '''' \<or> le_SourceEventID e = '''' \<or> event_identity e \<in> seen
      then counted_events seen es
      else e # counted_events (insert (event_identity e) seen) es)"

definition first_occurrences :: "string list \<Rightarrow> string list" where
  "first_occurrences vs = rev (remdups (rev vs))"

definition agreed_parent :: "lineage_event list \<Rightarrow> string option" where
  "agreed_parent es = (if \<forall>e \<in> set es. le_ParentCallID e = le_ParentCallID (hd es)
     then Some (le_ParentCallID (hd es)) else None)"

definition greatest_attempt :: "lineage_event list \<Rightarrow> int" where
  "greatest_attempt es = Max (insert 0 (le_Attempt ` set es))"

definition call_of :: "string \<Rightarrow> lineage_event list \<Rightarrow> invocation" where
  "call_of c mine = \<lparr> in_LogicalCallID = c,
     in_ParentCallID = (case agreed_parent mine of Some p \<Rightarrow> p | None \<Rightarrow> ''''),
     in_Kinds = first_occurrences (map le_Kind mine),
     in_Sources = first_occurrences (map le_Source mine),
     in_Attempts = greatest_attempt mine,
     in_HasResult = (\<exists>e \<in> set mine. le_Result e),
     in_Revised = (\<exists>e \<in> set mine. le_LateRevision e),
     in_ParentConflict = (agreed_parent mine = None) \<rparr>"

definition invocation_of :: "lineage_event list \<Rightarrow> string \<Rightarrow> invocation" where
  "invocation_of es c = call_of c (filter (\<lambda>e. le_LogicalCallID e = c) es)"

abbreviation call_ids :: "lineage_event list \<Rightarrow> string list" where
  "call_ids es \<equiv> first_occurrences (map le_LogicalCallID es)"

lemma correlate_events_counted:
  "correlate_events seen m es = foldl (\<lambda>m e. update_call e m) m (counted_events seen es)"
  by (induction seen m es rule: correlate_events.induct) auto

lemma first_occurrences_snoc [simp]:
  "first_occurrences (vs @ [v]) = appendUnique (first_occurrences vs) v"
  by (simp add: first_occurrences_def appendUnique_def)

lemma first_occurrences_Nil [simp]: "first_occurrences [] = []"
  by (simp add: first_occurrences_def)

lemma set_first_occurrences [simp]: "set (first_occurrences vs) = set vs"
  by (simp add: first_occurrences_def)

lemma distinct_first_occurrences [simp]: "distinct (first_occurrences vs)"
  by (simp add: first_occurrences_def)

lemma update_call_map:
  assumes "distinct cs"
  shows "update_call e (map (\<lambda>c. (c, f c)) cs) =
    (if le_LogicalCallID e \<in> set cs
     then map (\<lambda>c. (c, if c = le_LogicalCallID e then record_event e (parent_event e (f c)) else f c)) cs
     else map (\<lambda>c. (c, f c)) cs @ [(le_LogicalCallID e, record_event e (new_invocation e))])"
  using assms by (induction cs) auto

lemma agreed_parent_snoc:
  assumes "es \<noteq> []"
  shows "agreed_parent (es @ [e]) =
    (if agreed_parent es = Some (le_ParentCallID e) then agreed_parent es else None)"
proof -
  obtain x xs where "es = x # xs"
    using assms by (cases es) auto
  then show ?thesis
    by (simp add: agreed_parent_def)
qed

lemma greatest_attempt_snoc:
  "greatest_attempt (es @ [e]) =
     (if greatest_attempt es < le_Attempt e then le_Attempt e else greatest_attempt es)"
proof -
  have "insert 0 (le_Attempt ` set (es @ [e])) = insert (le_Attempt e) (insert 0 (le_Attempt ` set es))"
    by auto
  then have "greatest_attempt (es @ [e]) = max (le_Attempt e) (greatest_attempt es)"
    unfolding greatest_attempt_def by (simp only: Max_insert finite_insert finite_imageI
      finite_set insert_not_empty not_False_eq_True)
  then show ?thesis
    by simp
qed

lemma call_of_single:
  "call_of (le_LogicalCallID e) [e] = record_event e (new_invocation e)"
  by (simp add: call_of_def record_event_def new_invocation_def agreed_parent_def
      first_occurrences_def appendUnique_def greatest_attempt_def max_def)

lemma call_of_snoc:
  assumes "mine \<noteq> []"
  shows "call_of c (mine @ [e]) = record_event e (parent_event e (call_of c mine))"
proof (cases "agreed_parent mine")
  case None
  then show ?thesis
    by (simp add: call_of_def record_event_def parent_event_def agreed_parent_snoc [OF assms]
        greatest_attempt_snoc disj_commute)
next
  case (Some p)
  then show ?thesis
    by (simp add: call_of_def record_event_def parent_event_def agreed_parent_snoc [OF assms]
        greatest_attempt_snoc disj_commute)
qed

lemma invocation_of_other:
  "c \<noteq> le_LogicalCallID e \<Longrightarrow> invocation_of (es @ [e]) c = invocation_of es c"
  by (simp add: invocation_of_def)

lemma invocation_of_new:
  assumes "le_LogicalCallID e \<notin> le_LogicalCallID ` set es"
  shows "invocation_of (es @ [e]) (le_LogicalCallID e) = record_event e (new_invocation e)"
proof -
  have "filter (\<lambda>x. le_LogicalCallID x = le_LogicalCallID e) es = []"
    using assms unfolding filter_empty_conv by (metis imageI)
  then show ?thesis
    by (simp add: invocation_of_def call_of_single)
qed

lemma invocation_of_known:
  assumes "le_LogicalCallID e \<in> le_LogicalCallID ` set es"
  shows "invocation_of (es @ [e]) (le_LogicalCallID e) =
    record_event e (parent_event e (invocation_of es (le_LogicalCallID e)))"
proof -
  have "filter (\<lambda>x. le_LogicalCallID x = le_LogicalCallID e) es \<noteq> []"
    using assms unfolding filter_empty_conv by (metis imageE)
  then show ?thesis
    by (simp add: invocation_of_def call_of_snoc)
qed

lemma foldl_update_call:
  "foldl (\<lambda>m e. update_call e m) [] es = map (\<lambda>c. (c, invocation_of es c)) (call_ids es)"
proof (induction es rule: rev_induct)
  case (snoc e es)
  show ?case
  proof (cases "le_LogicalCallID e \<in> le_LogicalCallID ` set es")
    case True
    then show ?thesis
      by (auto simp: snoc update_call_map appendUnique_def invocation_of_other invocation_of_known)
  next
    case False
    then have "invocation_of (es @ [e]) c = invocation_of es c" if "c \<in> set (call_ids es)" for c
      using that by (intro invocation_of_other) (metis set_first_occurrences set_map)
    then show ?thesis
      using False by (simp add: snoc update_call_map appendUnique_def invocation_of_new)
  qed
qed simp

lemma invocation_of_id [simp]: "in_LogicalCallID (invocation_of es c) = c"
  by (simp add: invocation_of_def call_of_def)

text \<open>C16: Correlate counts every logical call exactly once. Its invocations are one per call id of
  the counted events (both ids present, first delivery of each source event), in the order of the
  ids; each carries the parent its events agree on or a parent conflict, the kinds and sources in
  order of first appearance, the greatest attempt, and whether a result or a revision was seen;
  the hosts are the calls without an agreed parent and the leaves the calls no invocation names
  as its parent.\<close>
theorem correlate_refines_spec:
  "Correlate events =
    (let es = counted_events {} events;
         ids = call_ids es;
         parents = {p. p \<noteq> '''' \<and> (\<exists>c \<in> set ids. in_ParentCallID (invocation_of es c) = p)}
     in \<lparr> ls_Invocations = map (invocation_of es) (sort_strings ids),
          ls_HostCount = card {c \<in> set ids. in_ParentCallID (invocation_of es c) = ''''},
          ls_LeafCount = card (set ids - parents) \<rparr>)"
proof -
  define es where "es = counted_events {} events"
  have calls: "map snd (correlate_events {} [] events) = map (invocation_of es) (call_ids es)"
    by (simp add: correlate_events_counted foldl_update_call es_def comp_def)
  have "mset (map (invocation_of es) (sort_strings (call_ids es))) =
      mset (map (invocation_of es) (call_ids es))"
    by (simp add: sort_strings_def)
  then have sorted: "sort_slice call_before (map (invocation_of es) (call_ids es)) =
      map (invocation_of es) (sort_strings (call_ids es))"
    by (intro call_order.sort_slice_unique) (auto simp: comp_def inj_on_def)
  have count: "length (filter P (map (invocation_of es) (call_ids es))) =
      card {c \<in> set (call_ids es). P (invocation_of es c)}" for P
    by (simp add: filter_map distinct_card [symmetric])
  have "called_parents (map (invocation_of es) (call_ids es)) =
      {p. p \<noteq> '''' \<and> (\<exists>c \<in> set (call_ids es). in_ParentCallID (invocation_of es c) = p)}"
    by (auto simp: called_parents_def)
  then show ?thesis
    unfolding Correlate_def calls summarize_calls_def sorted count
    by (auto simp: Let_def simp flip: es_def intro!: arg_cong [where f = card])
qed

section \<open>Redelivery\<close>

lemma counted_events_append:
  "counted_events seen (xs @ ys) =
     counted_events seen xs @
     counted_events (seen \<union> event_identity ` set (counted_events seen xs)) ys"
  by (induction seen xs rule: counted_events.induct) (auto simp: Un_insert_left)

lemma counted_events_covers:
  "e \<in> set es \<Longrightarrow> le_LogicalCallID e \<noteq> '''' \<Longrightarrow> le_SourceEventID e \<noteq> '''' \<Longrightarrow>
     event_identity e \<in> seen \<union> event_identity ` set (counted_events seen es)"
  by (induction seen es rule: counted_events.induct) auto

lemma counted_events_Nil:
  "\<forall>e \<in> set es. le_LogicalCallID e = '''' \<or> le_SourceEventID e = '''' \<or> event_identity e \<in> seen \<Longrightarrow>
     counted_events seen es = []"
  by (induction seen es rule: counted_events.induct) auto

lemma correlate_redelivery:
  assumes "set again \<subseteq> set events"
  shows "Correlate (events @ again) = Correlate events"
proof -
  have "counted_events ({} \<union> event_identity ` set (counted_events {} events)) again = []"
    using assms counted_events_covers [of _ events "{}"] by (intro counted_events_Nil) blast
  then have "counted_events {} (events @ again) = counted_events {} events"
    using counted_events_append [of "{}" events again] by simp
  then show ?thesis
    by (simp add: Correlate_def correlate_events_counted)
qed

end
