(* ===== verification/Evidence.thy ===== *)
theory Evidence
  imports Go_Num
begin

text \<open>
  \<open>internal/evidence\<close>: the content-free records the collector stores. A Go map of attributes is
  an association list with distinct keys, in the order the \<open>range\<close> loop visits it; the order
  is left open, since the list is arbitrary. HMAC-SHA256 and the Unicode tables for runes outside
  ASCII are arguments.
\<close>

type_synonym attributes = "(string \<times> string) list"

record unicode_tables =
  ut_lower :: "nat \<Rightarrow> nat"
  ut_letter :: "nat \<Rightarrow> bool"
  ut_digit :: "nat \<Rightarrow> bool"

type_synonym hmac_fun = "string \<Rightarrow> string \<Rightarrow> string"

datatype evidence_error = ErrSensitive | EvidenceError string

record lineage =
  li_SessionID :: string
  li_TrajectoryID :: string
  li_ParentTrajectoryID :: string
  li_TaskID :: string
  li_TurnID :: string
  li_TurnOrdinal :: "int option"
  li_ResponseID :: string
  li_ParentResponseID :: string
  li_ToolCallID :: string
  li_CallerToolCallID :: string
  li_ToolKind :: string
  li_CallPath :: string

record evidence_record =
  ev_ID :: string
  ev_SourceKind :: string
  ev_SourceVersion :: string
  ev_Sequence :: nat
  ev_EventAt :: "go_time option"
  ev_IngestedAt :: go_time
  ev_ObservedAt :: go_time
  ev_MonotonicNanos :: int
  ev_Classification :: string
  ev_Coverage :: string
  ev_CoverageReason :: string
  ev_ProductSurface :: string
  ev_ContentSHA256 :: string
  ev_RedactedFields :: "string list option"
  ev_Attributes :: "attributes option"
  ev_LateRevision :: bool
  ev_OrderingUncertain :: bool
  ev_GovernanceOverhead :: bool
  ev_Lineage :: lineage

definition Incomplete :: "lineage \<Rightarrow> bool" where
  "Incomplete l \<longleftrightarrow>
     (if li_TrajectoryID l \<noteq> '''' \<and> li_SessionID l = '''' then True
      else if li_TurnID l \<noteq> '''' \<and> (li_TrajectoryID l = '''' \<or> li_TurnOrdinal l = None) then True
      else if li_ResponseID l \<noteq> '''' \<and> li_TurnID l = '''' then True
      else li_ToolCallID l \<noteq> '''' \<and> li_ResponseID l = '''')"

definition OpaqueID :: "hmac_fun \<Rightarrow> string \<Rightarrow> string list \<Rightarrow> evidence_error + string" where
  "OpaqueID hmac key parts =
     (if length key < 32 then Inl (EvidenceError ''identity key must be at least 32 bytes'')
      else Inr (hex_encode (hmac key (concat (map (\<lambda>part. CHR 0x00 # part) parts)))))"

definition sensitive_fragments :: "string list" where
  "sensitive_fragments =
     [''prompt'', ''response_body'', ''reasoning'', ''payload'', ''program_body'',
      ''database_row'', ''token_value'', ''secret'', ''username'', ''host_path'',
      ''safety_identifier'',
      ''authorization'', ''cookie'', ''cwd'', ''path'', ''content'', ''text'', ''user'']"

definition sensitiveKey :: "unicode_tables \<Rightarrow> string \<Rightarrow> bool" where
  "sensitiveKey ut key \<longleftrightarrow>
     list_ex (\<lambda>fragment. str_contains (to_lower (ut_lower ut) key) fragment) sensitive_fragments"

definition secretLike :: "unicode_tables \<Rightarrow> string \<Rightarrow> bool" where
  "secretLike ut v \<longleftrightarrow>
     (let lower = to_lower (ut_lower ut) v
      in str_contains lower ''-----begin private key-----'' \<or>
         prefix ''ghp_'' lower \<or> prefix ''sk-'' lower \<or>
         str_contains lower ''op://'' \<or> prefix ''github_pat_'' lower \<or>
         prefix ''eyj'' lower)"

definition evidence_Validate :: "unicode_tables \<Rightarrow> evidence_record \<Rightarrow> evidence_error option" where
  "evidence_Validate ut r =
     (if ev_ID r = '''' \<or> ev_SourceKind r = '''' \<or> ev_IngestedAt r = 0 \<or> ev_ObservedAt r = 0
      then Some (EvidenceError ''incomplete evidence metadata'')
      else case (ev_Attributes r, ev_RedactedFields r) of
          (Some attrs, Some redacted) \<Rightarrow>
            if list_ex (\<lambda>(k, v). sensitiveKey ut k \<or> secretLike ut v) attrs
            then Some ErrSensitive else None
        | _ \<Rightarrow> Some (EvidenceError ''evidence collections must be initialized''))"

definition allowedAttributes :: "string \<Rightarrow> string list" where
  "allowedAttributes kind =
     (if kind = ''configuration'' then
        [''execution_policy'', ''host_permission'', ''max_input_bytes'', ''timeout'', ''format'',
         ''activity_class'', ''policy_schema_version'', ''policy_hash'', ''raw_prompt_retention'',
         ''telemetry'']
      else if kind = ''git'' then
        [''repository_alias'', ''worktree_alias'', ''branch_alias'', ''head_alias'',
         ''activity_class'']
      else if kind = ''github'' then
        [''event_kind'', ''state'', ''repository_alias'', ''pull_request_alias'', ''check_alias'',
         ''activity_class'']
      else if kind = ''codex_jsonl'' then
        [''session_alias'', ''trajectory_alias'', ''task_alias'', ''task_attribution_state'',
         ''turn_alias'', ''turn_ordinal'', ''phase'', ''phase_event'', ''response_lineage'',
         ''parent_response_alias'', ''response_event'', ''tool_call_alias'', ''caller_alias'',
         ''tool_kind'', ''call_path'', ''tool_outcome'', ''result_state'', ''canonical_call'',
         ''state_epoch'', ''mutation_state'', ''output_modality'', ''output_size_bytes'',
         ''wait_state'', ''model_variant'', ''reasoning_effort'', ''reasoning_mode'',
         ''effective_context'', ''verbosity'', ''service_mode'', ''cache_mode'', ''cache_ttl'',
         ''usage_kind'', ''usage_value'', ''usage_unit'', ''accounting_regime'', ''cache_kind'',
         ''cache_value'', ''image_detail'', ''safeguard_outcome'',
         ''safety_identifier_presence'', ''checkpoint_event'', ''boundary_event'',
         ''delegation_event'', ''stop_event'', ''compaction_event'', ''activity_class'',
         ''plan_hash'', ''plan_phase_scope'', ''approval_boundary_class'',
         ''budget_enforcement'', ''budget_max_tool_loops'', ''budget_max_retries'',
         ''budget_max_retrieval_expansions'', ''budget_delegation_policy'',
         ''budget_max_agent_depth'', ''budget_max_concurrency'', ''budget_context_mode'',
         ''budget_exhaustion_outcome'', ''policy_schema_version'', ''policy_hash'',
         ''raw_prompt_retention'', ''telemetry'', ''host_kind'', ''host_version'',
         ''host_capability_name'', ''host_capability_state'',
         ''project_attribution_confidence'', ''project_attribution_valid_to'']
      else if kind = ''codex_state_sqlite'' then
        [''thread_alias'', ''trajectory_alias'', ''state'', ''model_variant'',
         ''reasoning_effort'', ''activity_class'']
      else if kind = ''rollout_summary'' then
        [''session_alias'', ''trajectory_alias'', ''compaction_state'', ''delegation_parent'',
         ''delegation_depth'', ''context_mode'', ''activity_class'']
      else if kind = ''process'' then [''purpose'', ''state'', ''activity_class'']
      else [])"

definition safe_rune :: "unicode_tables \<Rightarrow> nat \<Rightarrow> bool" where
  "safe_rune ut r \<longleftrightarrow>
     (if r < 128 then 65 \<le> r \<and> r \<le> 90 \<or> 97 \<le> r \<and> r \<le> 122 \<or> 48 \<le> r \<and> r \<le> 57 \<or>
        r \<in> byte ` set ''._:+-''
      else ut_letter ut r \<or> ut_digit ut r)"

definition safeMetadataValue :: "unicode_tables \<Rightarrow> string \<Rightarrow> bool" where
  "safeMetadataValue ut v \<longleftrightarrow>
     \<not> (v = '''' \<or> 128 < length v) \<and> list_all (safe_rune ut) (runes v)"

definition keyedAttribute :: "string \<Rightarrow> bool" where
  "keyedAttribute field \<longleftrightarrow>
     suffix ''_alias'' field \<or> str_contains field ''lineage'' \<or> suffix ''_parent'' field \<or>
     field = ''canonical_call'' \<or> field = ''state_epoch''"

definition aliasDomain :: "string \<Rightarrow> string \<Rightarrow> string" where
  "aliasDomain kind field =
     (if field \<in> {''session_alias'', ''thread_alias''} then ''session''
      else if field \<in> {''trajectory_alias'', ''delegation_parent''} then ''trajectory''
      else if field = ''task_alias'' then ''task''
      else if field \<in> {''response_lineage'', ''parent_response_alias''} then ''response''
      else if field \<in> {''tool_call_alias'', ''caller_alias''} then ''tool_call''
      else if field = ''canonical_call'' then ''canonical_call''
      else if field = ''state_epoch'' then ''state_epoch''
      else kind @ '':'' @ field)"

fun sanitize_loop ::
  "unicode_tables \<Rightarrow> hmac_fun \<Rightarrow> string \<Rightarrow> string \<Rightarrow> attributes \<Rightarrow> string list \<Rightarrow> attributes \<Rightarrow>
     evidence_error + attributes \<times> string list" where
  "sanitize_loop ut hmac kind key clean redacted [] = Inr (clean, redacted)"
| "sanitize_loop ut hmac kind key clean redacted ((field, v) # attrs) =
     (if field \<notin> set (allowedAttributes kind) \<or> sensitiveKey ut field
      then sanitize_loop ut hmac kind key clean (redacted @ [field]) attrs
      else if secretLike ut v then Inl ErrSensitive
      else if keyedAttribute field
      then (if trim_space v = ''''
            then sanitize_loop ut hmac kind key (clean @ [(field, '''')]) redacted attrs
            else bind_result (OpaqueID hmac key [aliasDomain kind field, v])
                   (\<lambda>opaque. sanitize_loop ut hmac kind key (clean @ [(field, opaque)]) redacted attrs))
      else if \<not> safeMetadataValue ut v then Inl ErrSensitive
      else sanitize_loop ut hmac kind key (clean @ [(field, v)]) redacted attrs)"

definition Sanitize ::
  "unicode_tables \<Rightarrow> hmac_fun \<Rightarrow> string \<Rightarrow> string \<Rightarrow> attributes \<Rightarrow>
     evidence_error + attributes \<times> string list" where
  "Sanitize ut hmac kind key attrs =
     bind_result (sanitize_loop ut hmac kind key [] [] attrs)
       (\<lambda>(clean, redacted). Inr (clean, sort_strings redacted))"

definition attr :: "attributes \<Rightarrow> string \<Rightarrow> string" where
  "attr attrs = lookup_or '''' (map_of attrs)"

definition ParseLineage :: "attributes \<Rightarrow> lineage" where
  "ParseLineage attrs =
     \<lparr> li_SessionID = (if attr attrs ''session_alias'' = '''' then attr attrs ''thread_alias''
                       else attr attrs ''session_alias''),
       li_TrajectoryID = attr attrs ''trajectory_alias'',
       li_ParentTrajectoryID = attr attrs ''delegation_parent'',
       li_TaskID = attr attrs ''task_alias'',
       li_TurnID = attr attrs ''turn_alias'',
       li_TurnOrdinal = (case parse_int64 (attr attrs ''turn_ordinal'') of
                           Some ordinal \<Rightarrow> if 0 \<le> ordinal then Some ordinal else None
                         | None \<Rightarrow> None),
       li_ResponseID = attr attrs ''response_lineage'',
       li_ParentResponseID = attr attrs ''parent_response_alias'',
       li_ToolCallID = attr attrs ''tool_call_alias'',
       li_CallerToolCallID = attr attrs ''caller_alias'',
       li_ToolKind = attr attrs ''tool_kind'',
       li_CallPath = attr attrs ''call_path'' \<rparr>"

section \<open>What sanitising keeps\<close>

text \<open>An attribute the loop keeps, with the value it keeps for it.\<close>

definition kept_value :: "unicode_tables \<Rightarrow> hmac_fun \<Rightarrow> string \<Rightarrow> string \<Rightarrow> string \<Rightarrow> string \<Rightarrow> string option"
  where
  "kept_value ut hmac kind key field v =
     (if field \<notin> set (allowedAttributes kind) \<or> sensitiveKey ut field then None
      else if keyedAttribute field
      then Some (if trim_space v = '''' then ''''
             else hex_encode (hmac key (CHR 0x00 # aliasDomain kind field @ CHR 0x00 # v)))
      else Some v)"

definition kept_attributes ::
  "unicode_tables \<Rightarrow> hmac_fun \<Rightarrow> string \<Rightarrow> string \<Rightarrow> attributes \<Rightarrow> attributes" where
  "kept_attributes ut hmac kind key attrs =
     List.map_filter (\<lambda>(f, v). map_option (Pair f) (kept_value ut hmac kind key f v)) attrs"

definition admissible :: "unicode_tables \<Rightarrow> string \<Rightarrow> string \<Rightarrow> string \<times> string \<Rightarrow> bool" where
  "admissible ut kind key = (\<lambda>(f, v).
     f \<notin> set (allowedAttributes kind) \<or> sensitiveKey ut f \<or>
     \<not> secretLike ut v \<and>
     (if keyedAttribute f then trim_space v = '''' \<or> 32 \<le> length key else safeMetadataValue ut v))"

lemma sanitize_loop_ok:
  "sanitize_loop ut hmac kind key clean redacted attrs = Inr r \<longleftrightarrow>
     list_all (admissible ut kind key) attrs \<and>
     r = (clean @ kept_attributes ut hmac kind key attrs,
          redacted @ map fst (filter (\<lambda>(f, v). kept_value ut hmac kind key f v = None) attrs))"
proof (induction attrs arbitrary: clean redacted)
  case Nil
  then show ?case
    by (auto simp: kept_attributes_def map_filter_simps)
next
  case (Cons a attrs)
  obtain f v where a: "a = (f, v)"
    by (cases a)
  show ?case
    unfolding a
    by (simp add: Cons.IH admissible_def kept_attributes_def map_filter_simps kept_value_def
        OpaqueID_def)
qed

lemma hex_encode_ascii: "is_ascii (hex_encode s)"
  unfolding is_ascii_def list_all_iff using hex_encode_hex by (force simp: is_hex_def)

lemma lower_byte_hex: "is_hex c \<Longrightarrow> lower_byte c = c"
  by (auto simp: lower_byte_def is_hex_def)

lemma to_lower_hex: "to_lower uc (hex_encode s) = hex_encode s"
  using hex_encode_hex [of _ s] by (simp add: hex_encode_ascii map_idI lower_byte_hex)

lemma set_prefix: "prefix p s \<Longrightarrow> set p \<subseteq> set s"
  by (auto simp: prefix_def)

lemma set_str_contains: "str_contains s sub \<Longrightarrow> set sub \<subseteq> set s"
  unfolding str_contains_iff by (auto simp: sublist_def)

lemma opaque_not_secret: "\<not> secretLike ut (hex_encode s)"
proof -
  have outside: "\<not> set p \<subseteq> set (hex_encode s)" if "list_ex (\<lambda>c. \<not> is_hex c) p" for p
    using that hex_encode_hex [of _ s] by (auto simp: list_ex_iff)
  have no_prefix: "\<not> prefix p (hex_encode s)" if "list_ex (\<lambda>c. \<not> is_hex c) p" for p
    using outside [OF that] set_prefix by blast
  have no_sub: "\<not> str_contains (hex_encode s) p" if "list_ex (\<lambda>c. \<not> is_hex c) p" for p
    using outside [OF that] set_str_contains by blast
  show ?thesis
    unfolding secretLike_def to_lower_hex Let_def by (simp add: no_prefix no_sub is_hex_def)
qed

lemma empty_not_secret: "\<not> secretLike ut []"
  by (simp add: secretLike_def Let_def str_contains_def is_ascii_def)

lemma kept_attributes_iff:
  "(f, w) \<in> set (kept_attributes ut hmac kind key attrs) \<longleftrightarrow>
     (\<exists>v. (f, v) \<in> set attrs \<and> kept_value ut hmac kind key f v = Some w)"
  by (induction attrs) (auto simp: kept_attributes_def map_filter_simps split: option.splits)

lemma kept_value_safe:
  assumes "kept_value ut hmac kind key f v = Some w" and "admissible ut kind key (f, v)"
  shows "f \<in> set (allowedAttributes kind) \<and> \<not> sensitiveKey ut f \<and> \<not> secretLike ut w \<and>
    (if keyedAttribute f then w = '''' \<or> (\<exists>digest. w = hex_encode digest)
     else w = v \<and> safeMetadataValue ut v)"
  using assms
  by (auto simp: kept_value_def admissible_def opaque_not_secret empty_not_secret split: if_splits)

lemma sanitize_exact:
  "Sanitize ut hmac kind key attrs = Inr (clean, redacted) \<longleftrightarrow>
     list_all (admissible ut kind key) attrs \<and>
     clean = kept_attributes ut hmac kind key attrs \<and>
     redacted = sort_strings
       (map fst (filter (\<lambda>(f, v). kept_value ut hmac kind key f v = None) attrs))"
  by (auto simp: Sanitize_def bind_result_eq_Inr sanitize_loop_ok)

lemma sanitized_attribute:
  assumes "Sanitize ut hmac kind key attrs = Inr (clean, redacted)" and "(f, w) \<in> set clean"
  shows "f \<in> set (allowedAttributes kind) \<and> \<not> sensitiveKey ut f \<and> \<not> secretLike ut w \<and>
    (if keyedAttribute f then w = '''' \<or> (\<exists>digest. w = hex_encode digest)
     else safeMetadataValue ut w)"
proof -
  obtain v where "(f, v) \<in> set attrs" and "kept_value ut hmac kind key f v = Some w"
    using assms by (auto simp: sanitize_exact kept_attributes_iff)
  moreover have "admissible ut kind key (f, v)"
    using calculation assms(1) by (simp add: sanitize_exact list_all_iff)
  ultimately show ?thesis
    using kept_value_safe by (metis (full_types))
qed

lemma fst_image_iff: "f \<in> fst ` S \<longleftrightarrow> (\<exists>w. (f, w) \<in> S)"
  by force

lemma sanitized_fields:
  assumes "Sanitize ut hmac kind key attrs = Inr (clean, redacted)"
  shows "fst ` set clean \<union> set redacted = fst ` set attrs"
proof -
  have "fst ` set (kept_attributes ut hmac kind key attrs) =
      {f. \<exists>v. (f, v) \<in> set attrs \<and> kept_value ut hmac kind key f v \<noteq> None}"
    unfolding set_eq_iff mem_Collect_eq fst_image_iff kept_attributes_iff by auto
  then show ?thesis
    using assms by (force simp: sanitize_exact)
qed

lemma sanitized_validates:
  assumes "Sanitize ut hmac kind key attrs = Inr (clean, redacted)"
    and "ev_Attributes r = Some clean" and "ev_RedactedFields r = Some redacted"
  shows "evidence_Validate ut r \<noteq> Some ErrSensitive"
  using assms sanitized_attribute [OF assms(1)]
  by (auto simp: evidence_Validate_def list_ex_iff)

text \<open>Where a kept attribute comes from.\<close>

definition sanitized_from :: "hmac_fun \<Rightarrow> string \<Rightarrow> string \<Rightarrow> string \<Rightarrow> string \<Rightarrow> string \<Rightarrow> bool" where
  "sanitized_from hmac kind key f v w \<longleftrightarrow>
     (if keyedAttribute f
      then (if trim_space v = '''' then w = ''''
            else 32 \<le> length key \<and> w = hex_encode (hmac key (CHR 0x00 # aliasDomain kind f @ CHR 0x00 # v)))
      else w = v)"

lemma sanitized_origin:
  assumes "Sanitize ut hmac kind key attrs = Inr (clean, redacted)" and "(f, w) \<in> set clean"
  shows "\<exists>v. (f, v) \<in> set attrs \<and> sanitized_from hmac kind key f v w"
proof -
  obtain v where v: "(f, v) \<in> set attrs" "kept_value ut hmac kind key f v = Some w"
    using assms by (auto simp: sanitize_exact kept_attributes_iff)
  moreover have "admissible ut kind key (f, v)"
    using v(1) assms(1) by (simp add: sanitize_exact list_all_iff)
  ultimately show ?thesis
    by (intro exI [of _ v]) (auto simp: sanitized_from_def kept_value_def admissible_def split: if_splits)
qed

text \<open>C14: sanitised evidence carries no content. When Sanitize succeeds, every attribute it keeps is
  on the allow list of its source and has no sensitive name; an identifying attribute is the
  hexadecimal HMAC, under the key of at least 32 bytes, of its domain and its value (or blank when the value
  was blank); every other value is the one passed in, short and drawn from the metadata alphabet; no
  value looks like a credential; and every field that was passed in is either kept or listed as
  redacted; so a record built from the result is never rejected as sensitive by Validate.\<close>
theorem sanitize_content_free:
  assumes "Sanitize ut hmac kind key attrs = Inr (clean, redacted)"
    and "ev_Attributes r = Some clean" and "ev_RedactedFields r = Some redacted"
  shows "(\<forall>(f, w) \<in> set clean. f \<in> set (allowedAttributes kind) \<and> \<not> sensitiveKey ut f \<and>
      \<not> secretLike ut w \<and> (\<not> keyedAttribute f \<longrightarrow> safeMetadataValue ut w) \<and>
      (\<exists>v. (f, v) \<in> set attrs \<and>
         (if keyedAttribute f
          then (if trim_space v = '''' then w = ''''
                else 32 \<le> length key \<and> w = hex_encode (hmac key (CHR 0x00 # aliasDomain kind f @ CHR 0x00 # v)))
          else w = v)))
    \<and> fst ` set clean \<union> set redacted = fst ` set attrs
    \<and> evidence_Validate ut r \<noteq> Some ErrSensitive"
proof (intro conjI ballI)
  fix p
  assume p: "p \<in> set clean"
  obtain f w where fw: "p = (f, w)"
    by (cases p)
  show "case p of (f, w) \<Rightarrow> f \<in> set (allowedAttributes kind) \<and> \<not> sensitiveKey ut f \<and>
      \<not> secretLike ut w \<and> (\<not> keyedAttribute f \<longrightarrow> safeMetadataValue ut w) \<and>
      (\<exists>v. (f, v) \<in> set attrs \<and>
         (if keyedAttribute f
          then (if trim_space v = '''' then w = ''''
                else 32 \<le> length key \<and> w = hex_encode (hmac key (CHR 0x00 # aliasDomain kind f @ CHR 0x00 # v)))
          else w = v))"
    using sanitized_attribute [OF assms(1), of f w] sanitized_origin [OF assms(1), of f w] p
    unfolding fw sanitized_from_def by simp
qed (use sanitized_fields [OF assms(1)] sanitized_validates [OF assms] in auto)

abbreviation ascii_tables :: unicode_tables where
  "ascii_tables \<equiv> \<lparr> ut_lower = (\<lambda>r. r), ut_letter = (\<lambda>r. False), ut_digit = (\<lambda>r. False) \<rparr>"

abbreviation blank_lineage :: lineage where
  "blank_lineage \<equiv> ParseLineage []"

abbreviation sample_evidence :: "attributes \<Rightarrow> string list \<Rightarrow> evidence_record" where
  "sample_evidence attrs redacted \<equiv>
     \<lparr> ev_ID = ''id'', ev_SourceKind = ''git'', ev_SourceVersion = ''1'', ev_Sequence = 1,
       ev_EventAt = None, ev_IngestedAt = 1, ev_ObservedAt = 1, ev_MonotonicNanos = 1,
       ev_Classification = ''internal'', ev_Coverage = ''complete'', ev_CoverageReason = '''',
       ev_ProductSurface = ''local'', ev_ContentSHA256 = '''', ev_RedactedFields = Some redacted,
       ev_Attributes = Some attrs, ev_LateRevision = False, ev_OrderingUncertain = False,
       ev_GovernanceOverhead = False, ev_Lineage = blank_lineage \<rparr>"

lemma sensitiveKey_ascii:
  "is_ascii key \<Longrightarrow> sensitiveKey ut key \<longleftrightarrow>
     list_ex (\<lambda>fragment. str_contains (map lower_byte key) fragment) sensitive_fragments"
  by (simp add: sensitiveKey_def)

lemmas evidence_eval = sensitiveKey_ascii sensitive_fragments_def str_contains_def lower_byte_def

theorem sanitize_content_free_witness:
  "evidence_Validate ascii_tables
     (sample_evidence [(''activity_class'', ''work'')] [''remote_url'']) \<noteq> Some ErrSensitive"
proof -
  let ?attrs = "[(''activity_class'', ''work''), (''remote_url'', ''https://host/x'')]"
  have a: "\<not> sensitiveKey ascii_tables ''activity_class''"
    by (simp add: evidence_eval)
  have "Sanitize ascii_tables (\<lambda>k m. m) ''git'' [] ?attrs =
      Inr ([(''activity_class'', ''work'')], [''remote_url''])"
    using a
    by (simp add: Sanitize_def allowedAttributes_def keyedAttribute_def secretLike_def
        str_contains_def lower_byte_def safeMetadataValue_def safe_rune_def runes_ascii
        sort_strings_def suffix_to_prefix)
  then show ?thesis
    using sanitize_content_free [of ascii_tables "\<lambda>k m. m" "''git''" "[]" ?attrs
        "[(''activity_class'', ''work'')]" "[''remote_url'']"
        "sample_evidence [(''activity_class'', ''work'')] [''remote_url'']"]
    by simp
qed

section \<open>Allow-listed attributes the key filter removes\<close>

definition shadowed_attributes :: "string list" where
  "shadowed_attributes = [''call_path'', ''reasoning_effort'', ''reasoning_mode'',
     ''effective_context'', ''context_mode'', ''budget_context_mode'',
     ''safety_identifier_presence'', ''raw_prompt_retention'']"

lemma shadowed_sensitive: "list_all (sensitiveKey ut) shadowed_attributes"
  by (simp add: shadowed_attributes_def evidence_eval)

lemma attr_absent: "f \<notin> fst ` set attrs \<Longrightarrow> attr attrs f = ''''"
  by (simp add: attr_def lookup_or_def map_of_eq_None_iff [THEN iffD2])

text \<open>The allow list promises attributes that the key filter never lets through. The call path,
  the reasoning effort and mode, the context modes, the safety identifier presence and the prompt
  retention setting are all on the allow list of some source, but each name contains a fragment
  that sensitiveKey rejects, so no successful Sanitize keeps any of them and the lineage parsed
  from sanitised attributes never has a call path.\<close>
theorem sanitize_drops_allowed:
  "list_all (\<lambda>f. list_ex (\<lambda>kind. f \<in> set (allowedAttributes kind))
       [''configuration'', ''codex_jsonl'', ''codex_state_sqlite'', ''rollout_summary''])
     shadowed_attributes
   \<and> (case Sanitize ut hmac kind key attrs of
        Inl e \<Rightarrow> True
      | Inr (clean, redacted) \<Rightarrow>
          fst ` set clean \<inter> set shadowed_attributes = {} \<and> li_CallPath (ParseLineage clean) = '''')"
proof
  show "list_all (\<lambda>f. list_ex (\<lambda>kind. f \<in> set (allowedAttributes kind))
       [''configuration'', ''codex_jsonl'', ''codex_state_sqlite'', ''rollout_summary''])
     shadowed_attributes"
    by (simp add: shadowed_attributes_def allowedAttributes_def)
next
  have disjoint: "fst ` set clean \<inter> set shadowed_attributes = {}"
    if "Sanitize ut hmac kind key attrs = Inr (clean, redacted)" for clean redacted
    using sanitized_attribute [OF that] shadowed_sensitive [of ut] by (auto simp: list_all_iff)
  moreover have "''call_path'' \<in> set shadowed_attributes"
    by (simp add: shadowed_attributes_def)
  ultimately have "li_CallPath (ParseLineage clean) = ''''"
    if "Sanitize ut hmac kind key attrs = Inr (clean, redacted)" for clean redacted
    using that unfolding ParseLineage_def by (auto intro!: attr_absent)
  with disjoint show "case Sanitize ut hmac kind key attrs of
        Inl e \<Rightarrow> True
      | Inr (clean, redacted) \<Rightarrow>
          fst ` set clean \<inter> set shadowed_attributes = {} \<and> li_CallPath (ParseLineage clean) = ''''"
    by (simp split: sum.splits prod.splits)
qed

end
