(* ===== verification/Adapters.thy ===== *)
theory Adapters
  imports Evidence
begin

text \<open>
  \<open>internal/adapters\<close>: the line-oriented evidence sources and their incremental cursor. The
  \<open>uint64\<close> cursor and sequence numbers are natural numbers: they are only compared, and never
  exceed the number of lines of the 64 MiB a source may hold. JSON coding, RFC 3339 parsing,
  HMAC-SHA256 and the Unicode tables are the fields of an environment; the reader is the bytes it
  delivers, and the context is the error it reports at each check.
\<close>

datatype adapter_error =
    ErrDisabled
  | ErrUnsupported
  | ErrMalformed
  | ErrTruncated
  | ErrPurposeRequired
  | ErrEvidence evidence_error
  | ErrContext string

record source_line =
  sl_Version :: string
  sl_ObservedAt :: string
  sl_Attributes :: attributes

record adapter_env =
  ae_tables :: unicode_tables
  ae_hmac :: hmac_fun
  ae_unmarshal :: "string \<Rightarrow> source_line option"
  ae_marshal :: "source_line \<Rightarrow> string"
  ae_parse_time :: "string \<Rightarrow> go_time option"

record adapter_request =
  rq_Cursor :: nat
  rq_CursorGeneration :: string
  rq_CursorDigest :: string
  rq_Limit :: int
  rq_SourceVersion :: string
  rq_ObservedAt :: go_time
  rq_MonotonicNanos :: int

record adapter_result =
  rr_Records :: "evidence_record list"
  rr_NextCursor :: nat
  rr_Generation :: string
  rr_CursorDigest :: string
  rr_Coverage :: string
  rr_Reason :: string

record jsonl =
  jl_kind :: string
  jl_data :: string
  jl_key :: string
  jl_identity :: string
  jl_enabled :: bool
  jl_supported :: bool
  jl_maxRecordBytes :: nat

record parsed_record =
  pr_version :: string
  pr_canonical :: string
  pr_observedAt :: go_time
  pr_eventAt :: "go_time option"
  pr_attributes :: attributes
  pr_redacted :: "string list"

definition DefaultMaxRecordBytes :: nat where
  "DefaultMaxRecordBytes = 256 * 1024"

definition NewJSONLWithIdentity ::
  "string \<Rightarrow> string \<Rightarrow> string option \<Rightarrow> string \<Rightarrow> bool \<Rightarrow> bool \<Rightarrow> jsonl" where
  "NewJSONLWithIdentity kind identity reader key enabled supported =
     \<lparr> jl_kind = kind,
       jl_data = (case reader of None \<Rightarrow> [] | Some bytes \<Rightarrow> take (64 * 1024 * 1024 + 1) bytes),
       jl_key = key, jl_identity = identity, jl_enabled = enabled, jl_supported = supported,
       jl_maxRecordBytes = DefaultMaxRecordBytes \<rparr>"

definition unavailable :: "string \<Rightarrow> string \<Rightarrow> adapter_result" where
  "unavailable coverage reason = \<lparr> rr_Records = [], rr_NextCursor = 0, rr_Generation = '''',
     rr_CursorDigest = '''', rr_Coverage = coverage, rr_Reason = reason \<rparr>"

definition adapter_partial :: "adapter_result \<Rightarrow> string \<Rightarrow> adapter_result" where
  "adapter_partial result reason =
     result\<lparr> rr_Coverage := CoverageStatePartial, rr_Reason := reason \<rparr>"

definition surface :: "string \<Rightarrow> string" where
  "surface kind =
     (if kind = ''github'' then ''local''
      else if kind = ''codex_jsonl'' \<or> kind = ''codex_state_sqlite'' \<or> kind = ''rollout_summary''
      then ''codex_subscription''
      else ''local'')"

definition IdentityVersion :: string where
  "IdentityVersion = ''identity-v2''"

definition digestPrefix :: "hmac_fun \<Rightarrow> string \<Rightarrow> parsed_record list \<Rightarrow> nat \<Rightarrow> string" where
  "digestPrefix hmac key records cursor =
     hex_encode (hmac key (IdentityVersion @ [NUL] @
       concat (map (\<lambda>r. pr_canonical r @ [NUL]) (take (min cursor (length records)) records))))"

text \<open>
  \<open>bufio.Scanner\<close> with \<open>ScanLines\<close> and a buffer limit: the lines in order, each without its
  line feed and one trailing carriage return, up to the first line that does not fit the buffer;
  the flag says whether there was one.
\<close>

definition drop_cr :: "string \<Rightarrow> string" where
  "drop_cr l = (if l \<noteq> [] \<and> last l = CR then butlast l else l)"

definition data_lines :: "string \<Rightarrow> string list" where
  "data_lines data = (let ls = split_on LF data in if last ls = [] then butlast ls else ls)"

definition scan_lines :: "nat \<Rightarrow> string \<Rightarrow> string list \<times> bool" where
  "scan_lines limit data =
     (let ls = data_lines data
      in (map drop_cr (takeWhile (\<lambda>l. length l < limit) ls), list_ex (\<lambda>l. limit \<le> length l) ls))"

definition parse_line ::
  "adapter_env \<Rightarrow> jsonl \<Rightarrow> go_time \<Rightarrow> string \<Rightarrow> (string \<times> adapter_error) + parsed_record" where
  "parse_line env a now line =
     (case ae_unmarshal env line of
        None \<Rightarrow> Inl (''malformed'', ErrMalformed)
      | Some source \<Rightarrow>
          bind_result
            (if sl_ObservedAt source \<noteq> ''''
             then (case ae_parse_time env (sl_ObservedAt source) of
                     None \<Rightarrow> Inl (''malformed_time'', ErrMalformed)
                   | Some t \<Rightarrow> Inr (t, Some t))
             else Inr (now, None))
            (\<lambda>(observedAt, eventAt).
               case Sanitize (ae_tables env) (ae_hmac env) (jl_kind a) (jl_key a) (sl_Attributes source) of
                 Inl e \<Rightarrow> Inl (''sensitive'', ErrEvidence e)
               | Inr (clean, redacted) \<Rightarrow>
                   Inr \<lparr> pr_version = sl_Version source,
                         pr_canonical = ae_marshal env (source\<lparr> sl_Attributes := clean \<rparr>),
                         pr_observedAt = observedAt, pr_eventAt = eventAt,
                         pr_attributes = clean, pr_redacted = redacted \<rparr>))"

fun parse_lines ::
  "adapter_env \<Rightarrow> jsonl \<Rightarrow> (nat \<Rightarrow> string option) \<Rightarrow> go_time \<Rightarrow> adapter_result \<Rightarrow> nat \<Rightarrow> string list \<Rightarrow>
     (adapter_result \<times> adapter_error) + parsed_record list" where
  "parse_lines env a ctx now result i [] = Inr []"
| "parse_lines env a ctx now result i (line # lines) =
     (case ctx i of
        Some err \<Rightarrow> Inl (result, ErrContext err)
      | None \<Rightarrow>
          (case parse_line env a now line of
             Inl (reason, err) \<Rightarrow> Inl (adapter_partial result reason, err)
           | Inr item \<Rightarrow>
               bind_result (parse_lines env a ctx now result (Suc i) lines)
                 (\<lambda>items. Inr (item # items))))"

definition baseGeneration :: "adapter_env \<Rightarrow> jsonl \<Rightarrow> string" where
  "baseGeneration env a = hex_encode (ae_hmac env (jl_key a)
     (IdentityVersion @ [NUL] @ jl_kind a @ [NUL] @ jl_identity a))"

definition revisionGeneration :: "adapter_env \<Rightarrow> jsonl \<Rightarrow> parsed_record list \<Rightarrow> string" where
  "revisionGeneration env a items = hex_encode (ae_hmac env (jl_key a)
     (baseGeneration env a @ [NUL] @ digestPrefix (ae_hmac env) (jl_key a) items (length items)))"

definition prefixMatches :: "adapter_env \<Rightarrow> jsonl \<Rightarrow> adapter_request \<Rightarrow> parsed_record list \<Rightarrow> bool" where
  "prefixMatches env a req items \<longleftrightarrow>
     rq_CursorDigest req = '''' \<or>
     rq_CursorDigest req = digestPrefix (ae_hmac env) (jl_key a) items (rq_Cursor req)"

definition source_rotated :: "adapter_env \<Rightarrow> jsonl \<Rightarrow> adapter_request \<Rightarrow> parsed_record list \<Rightarrow> bool" where
  "source_rotated env a req items \<longleftrightarrow>
     \<not> prefixMatches env a req items \<or> length items < rq_Cursor req"

definition current_generation ::
  "adapter_env \<Rightarrow> jsonl \<Rightarrow> adapter_request \<Rightarrow> parsed_record list \<Rightarrow> string" where
  "current_generation env a req items =
     (if source_rotated env a req items then revisionGeneration env a items
      else if rq_CursorGeneration req \<noteq> '''' \<and> prefixMatches env a req items
              \<and> rq_Cursor req \<le> length items
      then rq_CursorGeneration req
      else baseGeneration env a)"

definition set_attr :: "string \<Rightarrow> string \<Rightarrow> attributes \<Rightarrow> attributes" where
  "set_attr k v attrs = filter (\<lambda>p. fst p \<noteq> k) attrs @ [(k, v)]"

definition make_record ::
  "adapter_env \<Rightarrow> jsonl \<Rightarrow> adapter_request \<Rightarrow> bool \<Rightarrow> nat \<Rightarrow> string \<Rightarrow> parsed_record \<Rightarrow> evidence_record" where
  "make_record env a req rotated sequence rid item =
     (let overhead = (attr (pr_attributes item) ''activity_class'' = ''governance_overhead'');
          lin = ParseLineage (pr_attributes item)
      in \<lparr> ev_ID = rid, ev_SourceKind = jl_kind a, ev_SourceVersion = pr_version item,
           ev_Sequence = sequence, ev_EventAt = pr_eventAt item,
           ev_IngestedAt = rq_ObservedAt req, ev_ObservedAt = pr_observedAt item,
           ev_MonotonicNanos = rq_MonotonicNanos req, ev_Classification = ''internal'',
           ev_Coverage = (if Incomplete lin then CoverageStatePartial else CoverageStateComplete),
           ev_CoverageReason = (if Incomplete lin then ''lineage_incomplete'' else ''''),
           ev_ProductSurface = surface (jl_kind a),
           ev_ContentSHA256 = hex_encode (ae_hmac env (jl_key a) (pr_canonical item)),
           ev_RedactedFields = Some (pr_redacted item),
           ev_Attributes = Some (if overhead
             then set_attr ''collection_trigger'' ''suppressed'' (pr_attributes item)
             else pr_attributes item),
           ev_LateRevision = rotated, ev_OrderingUncertain = False,
           ev_GovernanceOverhead = overhead, ev_Lineage = lin \<rparr>)"

definition lineage_coverage :: "evidence_record \<Rightarrow> adapter_result \<Rightarrow> adapter_result" where
  "lineage_coverage r result =
     (if Incomplete (ev_Lineage r) then adapter_partial result ''lineage_incomplete'' else result)"

fun emit_records ::
  "adapter_env \<Rightarrow> jsonl \<Rightarrow> adapter_request \<Rightarrow> bool \<Rightarrow> nat \<Rightarrow> nat \<Rightarrow> adapter_result \<Rightarrow> parsed_record list \<Rightarrow>
     adapter_result \<times> adapter_error option" where
  "emit_records env a req rotated cursor index result [] = (result, None)"
| "emit_records env a req rotated cursor index result (item # items) =
     (if index + 1 \<le> cursor
      then emit_records env a req rotated cursor (index + 1) result items
      else case OpaqueID (ae_hmac env) (jl_key a)
                  [jl_kind a, rr_Generation result, show_nat (index + 1)] of
          Inl e \<Rightarrow> (result, Some (ErrEvidence e))
        | Inr rid \<Rightarrow>
            (let r = make_record env a req rotated (index + 1) rid item;
                 covered = lineage_coverage r result
             in case evidence_Validate (ae_tables env) r of
                  Some e \<Rightarrow> (adapter_partial covered ''invalid'', Some (ErrEvidence e))
                | None \<Rightarrow>
                    (let added = covered\<lparr> rr_Records := rr_Records covered @ [r],
                                          rr_NextCursor := index + 1 \<rparr>
                     in if int (length (rr_Records added)) = rq_Limit req then (added, None)
                        else emit_records env a req rotated cursor (index + 1) added items)))"

definition initial_result :: "adapter_request \<Rightarrow> adapter_result" where
  "initial_result req = \<lparr> rr_Records = [], rr_NextCursor = rq_Cursor req, rr_Generation = '''',
     rr_CursorDigest = '''', rr_Coverage = CoverageStateComplete, rr_Reason = '''' \<rparr>"

definition collect_parsed ::
  "adapter_env \<Rightarrow> jsonl \<Rightarrow> adapter_request \<Rightarrow> parsed_record list \<Rightarrow> adapter_result \<times> adapter_error option"
  where
  "collect_parsed env a req items =
     (let rotated = source_rotated env a req items;
          result = (initial_result req)\<lparr> rr_Generation := current_generation env a req items \<rparr>;
          started = (if rotated then adapter_partial result ''source_replaced'' else result);
          cursor = (if rotated then 0 else rq_Cursor req)
      in case emit_records env a req rotated cursor 0 started items of
           (r, Some e) \<Rightarrow> (r, Some e)
         | (r, None) \<Rightarrow> (r\<lparr> rr_CursorDigest :=
             digestPrefix (ae_hmac env) (jl_key a) items (rr_NextCursor r) \<rparr>, None))"

definition jsonl_Collect ::
  "adapter_env \<Rightarrow> jsonl \<Rightarrow> (nat \<Rightarrow> string option) \<Rightarrow> adapter_request \<Rightarrow>
     adapter_result \<times> adapter_error option" where
  "jsonl_Collect env a ctx req =
     (if \<not> jl_enabled a then (unavailable CoverageStateMissing ''disabled'', Some ErrDisabled)
      else if \<not> jl_supported a
      then (unavailable CoverageStateUnknown ''unsupported'', Some ErrUnsupported)
      else if jl_data a = [] \<or> rq_Limit req < 1 then (unavailable CoverageStateMissing ''missing'', None)
      else (let (lines, oversized) = scan_lines (jl_maxRecordBytes a) (jl_data a)
            in case parse_lines env a ctx (rq_ObservedAt req) (initial_result req) 0 lines of
                 Inl (r, e) \<Rightarrow> (r, Some e)
               | Inr items \<Rightarrow>
                   if oversized
                   then (adapter_partial (initial_result req) ''truncated_or_oversized'', Some ErrTruncated)
                   else collect_parsed env a req items))"

section \<open>Source adapters\<close>

record contract_adapter =
  ca_base :: jsonl
  ca_requiredAny :: "string list"

record source_options =
  so_Reader :: "string option"
  so_Key :: string
  so_Enabled :: bool
  so_Supported :: bool
  so_Purpose :: string
  so_Identity :: string

definition record_matches :: "string list \<Rightarrow> evidence_record \<Rightarrow> bool" where
  "record_matches required r \<longleftrightarrow>
     required = [] \<or>
     list_ex (\<lambda>field. attr (case ev_Attributes r of None \<Rightarrow> [] | Some m \<Rightarrow> m) field \<noteq> '''') required"

definition contract_Collect ::
  "adapter_env \<Rightarrow> contract_adapter \<Rightarrow> (nat \<Rightarrow> string option) \<Rightarrow> adapter_request \<Rightarrow>
     adapter_result \<times> adapter_error option" where
  "contract_Collect env a ctx req =
     (case jsonl_Collect env (ca_base a) ctx req of
        (result, Some e) \<Rightarrow> (result, Some e)
      | (result, None) \<Rightarrow>
          if list_all (record_matches (ca_requiredAny a)) (rr_Records result) then (result, None)
          else (adapter_partial result ''schema_drift'', Some ErrMalformed))"

definition source :: "string \<Rightarrow> source_options \<Rightarrow> string list \<Rightarrow> contract_adapter" where
  "source kind options requiredAny =
     (let identity = (if so_Identity options = '''' then kind else so_Identity options)
      in \<lparr> ca_base = NewJSONLWithIdentity kind identity (so_Reader options) (so_Key options)
             (so_Enabled options) (so_Supported options),
           ca_requiredAny = requiredAny \<rparr>)"

definition Configuration :: "source_options \<Rightarrow> contract_adapter" where
  "Configuration options = source ''configuration'' options [''execution_policy'', ''activity_class'']"

definition Git :: "source_options \<Rightarrow> contract_adapter" where
  "Git options = source ''git'' options [''repository_alias'', ''worktree_alias'']"

definition GitHub :: "source_options \<Rightarrow> contract_adapter" where
  "GitHub options = source ''github'' options [''event_kind'', ''repository_alias'']"

definition CodexJSONL :: "source_options \<Rightarrow> contract_adapter" where
  "CodexJSONL options = source ''codex_jsonl'' options [''phase'', ''response_lineage'']"

definition CodexState :: "source_options \<Rightarrow> contract_adapter" where
  "CodexState options = source ''codex_state_sqlite'' options [''thread_alias'', ''state'']"

definition Rollout :: "source_options \<Rightarrow> contract_adapter" where
  "Rollout options = source ''rollout_summary'' options [''trajectory_alias'', ''compaction_state'']"

definition Process :: "source_options \<Rightarrow> adapter_error + contract_adapter" where
  "Process options =
     (if so_Enabled options \<and> so_Purpose options = '''' then Inl ErrPurposeRequired
      else Inr (source ''process'' options [''purpose'']))"

end
