(* ===== verification/Adapters_Props.thy ===== *)
theory Adapters_Props
  imports Adapters
begin

text \<open>
  The incremental collection of one source: what one batch returns, that a batch resumes where
  the last one stopped, and that repeated batches deliver every record of a growing source
  exactly once.
\<close>

section \<open>Records that validate\<close>

definition good_item :: "adapter_env \<Rightarrow> jsonl \<Rightarrow> parsed_record \<Rightarrow> bool" where
  "good_item env a item \<longleftrightarrow> pr_observedAt item \<noteq> 0 \<and>
     (\<exists>attrs. Sanitize (ae_tables env) (ae_hmac env) (jl_kind a) (jl_key a) attrs
        = Inr (pr_attributes item, pr_redacted item))"

definition good_source :: "adapter_env \<Rightarrow> jsonl \<Rightarrow> adapter_request \<Rightarrow> bool" where
  "good_source env a req \<longleftrightarrow> 32 \<le> length (jl_key a) \<and> jl_kind a \<noteq> '''' \<and>
     (\<forall>m. ae_hmac env (jl_key a) m \<noteq> []) \<and> rq_ObservedAt req \<noteq> 0 \<and> 1 \<le> rq_Limit req"

lemma hex_encode_eq_Nil [simp]: "hex_encode s = [] \<longleftrightarrow> s = []"
  by (cases s) (simp_all add: hex_encode_def)

lemma trigger_not_sensitive: "\<not> sensitiveKey ut ''collection_trigger''"
  by (simp add: evidence_eval)

lemma suppressed_not_secret: "\<not> secretLike ut ''suppressed''"
  by (simp add: secretLike_def str_contains_def lower_byte_def)

lemma make_record_validates:
  assumes "good_item env a item" and "jl_kind a \<noteq> ''''" and "rq_ObservedAt req \<noteq> 0" and "rid \<noteq> ''''"
  shows "evidence_Validate (ae_tables env) (make_record env a req rotated n rid item) = None"
proof -
  obtain attrs where s: "Sanitize (ae_tables env) (ae_hmac env) (jl_kind a) (jl_key a) attrs
      = Inr (pr_attributes item, pr_redacted item)"
    using assms(1) by (auto simp: good_item_def)
  have clean: "\<not> list_ex (\<lambda>(k, v). sensitiveKey (ae_tables env) k \<or> secretLike (ae_tables env) v)
      (pr_attributes item)"
    using sanitized_attribute [OF s] by (auto simp: list_ex_iff)
  then have "\<not> list_ex (\<lambda>(k, v). sensitiveKey (ae_tables env) k \<or> secretLike (ae_tables env) v)
      (set_attr ''collection_trigger'' ''suppressed'' (pr_attributes item))"
    by (auto simp: set_attr_def list_ex_iff trigger_not_sensitive suppressed_not_secret)
  with clean show ?thesis
    using assms by (simp add: make_record_def Let_def evidence_Validate_def good_item_def)
qed

section \<open>One batch\<close>

definition record_id :: "adapter_env \<Rightarrow> jsonl \<Rightarrow> string \<Rightarrow> nat \<Rightarrow> string" where
  "record_id env a g n = hex_encode (ae_hmac env (jl_key a)
     (concat (map (\<lambda>part. CHR 0x00 # part) [jl_kind a, g, show_nat n])))"

definition record_at ::
  "adapter_env \<Rightarrow> jsonl \<Rightarrow> adapter_request \<Rightarrow> bool \<Rightarrow> string \<Rightarrow> nat \<times> parsed_record \<Rightarrow> evidence_record" where
  "record_at env a req rotated g = (\<lambda>(i, item).
     make_record env a req rotated (i + 1) (record_id env a g (i + 1)) item)"

definition pending :: "nat \<Rightarrow> nat \<Rightarrow> parsed_record list \<Rightarrow> (nat \<times> parsed_record) list" where
  "pending cursor index items = filter (\<lambda>(i, item). cursor \<le> i) (List.enumerate index items)"

lemma pending_Cons:
  "pending cursor index (item # items) =
     (if cursor \<le> index then (index, item) # pending cursor (Suc index) items
      else pending cursor (Suc index) items)"
  by (simp add: pending_def)

lemma lineage_coverage_simps [simp]:
  "rr_Records (lineage_coverage r result) = rr_Records result"
  "rr_Generation (lineage_coverage r result) = rr_Generation result"
  "rr_NextCursor (lineage_coverage r result) = rr_NextCursor result"
  by (simp_all add: lineage_coverage_def adapter_partial_def)

lemma emit_records_good:
  assumes "good_source env a req" and "\<forall>item \<in> set items. good_item env a item"
    and "length (rr_Records result) < nat (rq_Limit req)"
  shows "\<exists>r. emit_records env a req rotated cursor index result items = (r, None) \<and>
    (let batch = take (nat (rq_Limit req) - length (rr_Records result)) (pending cursor index items)
     in rr_Records r = rr_Records result @ map (record_at env a req rotated (rr_Generation result)) batch
      \<and> rr_NextCursor r = (if batch = [] then rr_NextCursor result else Suc (fst (last batch)))
      \<and> rr_Generation r = rr_Generation result)"
  using assms(2,3)
proof (induction items arbitrary: index result)
  case Nil
  then show ?case
    by (simp add: pending_def)
next
  case (Cons item items)
  let ?limit = "nat (rq_Limit req)"
  show ?case
  proof (cases "Suc index \<le> cursor")
    case True
    then show ?thesis
      using Cons.IH [of result "Suc index"] Cons.prems by (simp add: pending_Cons)
  next
    case False
    define rid where "rid = record_id env a (rr_Generation result) (Suc index)"
    define r where "r = make_record env a req rotated (Suc index) rid item"
    define added where "added = (lineage_coverage r result)
      \<lparr> rr_Records := rr_Records result @ [r], rr_NextCursor := Suc index \<rparr>"
    have opaque: "OpaqueID (ae_hmac env) (jl_key a)
        [jl_kind a, rr_Generation result, show_nat (Suc index)] = Inr rid"
      using assms(1) by (simp add: OpaqueID_def rid_def record_id_def good_source_def)
    have "rid \<noteq> ''''"
      using assms(1) by (simp add: rid_def record_id_def good_source_def)
    then have valid: "evidence_Validate (ae_tables env) r = None"
      unfolding r_def using assms(1) Cons.prems(1)
      by (intro make_record_validates) (auto simp: good_source_def)
    have step: "emit_records env a req rotated cursor index result (item # items) =
        (if length (rr_Records result) + 1 = ?limit then (added, None)
         else emit_records env a req rotated cursor (Suc index) added items)"
      using False opaque valid assms(1)
      by (auto simp: added_def r_def good_source_def Let_def)
    have at: "record_at env a req rotated (rr_Generation result) (index, item) = r"
      by (simp add: record_at_def r_def rid_def)
    show ?thesis
    proof (cases "length (rr_Records result) + 1 = ?limit")
      case True
      then have "?limit - length (rr_Records result) = Suc 0"
        by simp
      then show ?thesis
        using True step at False by (simp add: pending_Cons added_def)
    next
      case more: False
      have len: "length (rr_Records added) = Suc (length (rr_Records result))"
        by (simp add: added_def)
      then have room: "length (rr_Records added) < ?limit"
        using more Cons.prems(2) by simp
      have split: "?limit - length (rr_Records result) = Suc (?limit - length (rr_Records added))"
        using room len by simp
      have gen: "rr_Generation added = rr_Generation result"
        by (simp add: added_def)
      obtain r' where r': "emit_records env a req rotated cursor (Suc index) added items = (r', None)"
        and spec: "let batch = take (?limit - length (rr_Records added)) (pending cursor (Suc index) items)
          in rr_Records r' = rr_Records added @ map (record_at env a req rotated (rr_Generation added)) batch
           \<and> rr_NextCursor r' = (if batch = [] then rr_NextCursor added else Suc (fst (last batch)))
           \<and> rr_Generation r' = rr_Generation added"
        using Cons.IH [OF _ room] Cons.prems(1) by (metis list.set_intros(2))
      show ?thesis
      proof (intro exI conjI)
        show "emit_records env a req rotated cursor index result (item # items) = (r', None)"
          using step more r' by simp
        show "let batch = take (?limit - length (rr_Records result)) (pending cursor index (item # items))
          in rr_Records r' = rr_Records result @ map (record_at env a req rotated (rr_Generation result)) batch
           \<and> rr_NextCursor r' = (if batch = [] then rr_NextCursor result else Suc (fst (last batch)))
           \<and> rr_Generation r' = rr_Generation result"
          unfolding split using spec False at gen by (auto simp: pending_Cons Let_def added_def)
      qed
    qed
  qed
qed

lemma pending_start: "pending cursor 0 items = List.enumerate cursor (drop cursor items)"
proof (cases "cursor \<le> length items")
  case True
  have "List.enumerate 0 items =
      List.enumerate 0 (take cursor items) @ List.enumerate cursor (drop cursor items)"
    using True enumerate_append_eq [of 0 "take cursor items" "drop cursor items"] by simp
  moreover have "filter (\<lambda>(i, item). cursor \<le> i) (List.enumerate 0 (take cursor items)) = []"
    using True by (auto simp: filter_empty_conv in_set_enumerate_eq)
  moreover have "filter (\<lambda>(i, item). cursor \<le> i) (List.enumerate cursor (drop cursor items)) =
      List.enumerate cursor (drop cursor items)"
    by (auto simp: filter_id_conv in_set_enumerate_eq)
  ultimately show ?thesis
    by (simp add: pending_def)
next
  case False
  then show ?thesis
    by (auto simp: pending_def filter_empty_conv in_set_enumerate_eq)
qed

text \<open>A request that continues a generation: its cursor lies in the source and its digest is the
  digest of the lines before it (or it is a first request).\<close>

definition in_step :: "adapter_env \<Rightarrow> jsonl \<Rightarrow> string \<Rightarrow> adapter_request \<Rightarrow> parsed_record list \<Rightarrow> bool" where
  "in_step env a g req items \<longleftrightarrow> rq_Cursor req \<le> length items \<and> prefixMatches env a req items \<and>
     g = (if rq_CursorGeneration req = '''' then baseGeneration env a else rq_CursorGeneration req)"

definition batch_of :: "adapter_request \<Rightarrow> parsed_record list \<Rightarrow> (nat \<times> parsed_record) list" where
  "batch_of req items =
     take (nat (rq_Limit req)) (List.enumerate (rq_Cursor req) (drop (rq_Cursor req) items))"

lemma last_batch_of:
  assumes "batch_of req items \<noteq> []"
  shows "Suc (fst (last (batch_of req items))) = rq_Cursor req + length (batch_of req items)"
proof -
  let ?b = "batch_of req items"
  have "fst (?b ! i) = rq_Cursor req + i" if "i < length ?b" for i
    using that by (simp add: batch_of_def nth_enumerate_eq)
  moreover have "last ?b = ?b ! (length ?b - 1)"
    using assms by (rule last_conv_nth)
  ultimately show ?thesis
    using assms by simp
qed

lemma collect_parsed_batch:
  assumes "good_source env a req" and "\<forall>item \<in> set items. good_item env a item"
    and "in_step env a g req items"
  shows "\<exists>r. collect_parsed env a req items = (r, None) \<and>
    rr_Records r = map (record_at env a req False g) (batch_of req items) \<and>
    rr_NextCursor r = rq_Cursor req + length (batch_of req items) \<and>
    rr_Generation r = g \<and>
    rr_CursorDigest r = digestPrefix (ae_hmac env) (jl_key a) items (rr_NextCursor r)"
proof -
  let ?start = "(initial_result req)\<lparr> rr_Generation := g \<rparr>"
  have fresh: "\<not> source_rotated env a req items"
    using assms(3) by (simp add: source_rotated_def in_step_def)
  have gen: "current_generation env a req items = g"
    using assms(3) fresh by (simp add: current_generation_def in_step_def)
  have "length (rr_Records ?start) < nat (rq_Limit req)"
    using assms(1) by (simp add: initial_result_def good_source_def)
  then obtain r where r: "emit_records env a req False (rq_Cursor req) 0 ?start items = (r, None)"
    and spec: "let batch = take (nat (rq_Limit req) - length (rr_Records ?start))
          (pending (rq_Cursor req) 0 items)
        in rr_Records r = rr_Records ?start @ map (record_at env a req False (rr_Generation ?start)) batch
         \<and> rr_NextCursor r = (if batch = [] then rr_NextCursor ?start else Suc (fst (last batch)))
         \<and> rr_Generation r = rr_Generation ?start"
    using emit_records_good [OF assms(1,2), of ?start False "rq_Cursor req" 0] by blast
  have batch: "take (nat (rq_Limit req) - length (rr_Records ?start)) (pending (rq_Cursor req) 0 items)
      = batch_of req items"
    by (simp add: initial_result_def batch_of_def pending_start)
  have fields: "rr_Records r = map (record_at env a req False g) (batch_of req items)"
    "rr_NextCursor r = rq_Cursor req + length (batch_of req items)" "rr_Generation r = g"
    using spec unfolding batch Let_def
    by (simp_all add: initial_result_def last_batch_of split: if_splits)
  show ?thesis
    unfolding collect_parsed_def Let_def using fresh gen r fields by simp
qed

section \<open>Repeated batches\<close>

definition resume :: "adapter_request \<Rightarrow> adapter_result \<Rightarrow> adapter_request" where
  "resume req r = req\<lparr> rq_Cursor := rr_NextCursor r, rq_CursorGeneration := rr_Generation r,
     rq_CursorDigest := rr_CursorDigest r \<rparr>"

fun collect_runs ::
  "adapter_env \<Rightarrow> jsonl \<Rightarrow> adapter_request \<Rightarrow> parsed_record list list \<Rightarrow>
     evidence_record list \<times> adapter_request" where
  "collect_runs env a req [] = ([], req)"
| "collect_runs env a req (items # rest) =
     (let r = fst (collect_parsed env a req items);
          (records, final) = collect_runs env a (resume req r) rest
      in (rr_Records r @ records, final))"

text \<open>What identifies a delivered record: its sequence number, its id and its content digest.\<close>

definition delivery :: "evidence_record \<Rightarrow> nat \<times> string \<times> string" where
  "delivery r = (ev_Sequence r, ev_ID r, ev_ContentSHA256 r)"

definition expected_delivery ::
  "adapter_env \<Rightarrow> jsonl \<Rightarrow> string \<Rightarrow> string list \<Rightarrow> nat \<Rightarrow> nat \<times> string \<times> string" where
  "expected_delivery env a g canon i =
     (i + 1, record_id env a g (i + 1), hex_encode (ae_hmac env (jl_key a) (canon ! i)))"

definition growing :: "string list \<Rightarrow> parsed_record list list \<Rightarrow> bool" where
  "growing canon snaps \<longleftrightarrow> sorted (map length snaps) \<and>
     (\<forall>s \<in> set snaps. prefix (map pr_canonical s) canon)"

lemma digestPrefix_cong:
  assumes "map pr_canonical (take n xs) = map pr_canonical (take n ys)"
  shows "digestPrefix hmac key xs n = digestPrefix hmac key ys n"
proof -
  have "take (min n (length zs)) zs = take n zs" for zs :: "parsed_record list"
    by (simp add: min_def)
  then show ?thesis
    using arg_cong [OF assms, of "\<lambda>cs. concat (map (\<lambda>c. c @ [NUL]) cs)"]
    by (simp add: digestPrefix_def comp_def)
qed

lemma take_of_prefix: "prefix xs ys \<Longrightarrow> n \<le> length xs \<Longrightarrow> take n xs = take n ys"
  by (auto simp: prefix_def)

lemma snapshots_agree:
  assumes "growing canon (s # snaps)" and "t \<in> set snaps" and "n \<le> length s"
  shows "map pr_canonical (take n s) = map pr_canonical (take n t)" and "n \<le> length t"
proof -
  have len: "length s \<le> length t"
    using assms(1,2) by (auto simp: growing_def)
  then show "n \<le> length t"
    using assms(3) by simp
  have "take n (map pr_canonical s) = take n canon" and "take n (map pr_canonical t) = take n canon"
    using assms len by (auto simp: growing_def intro!: take_of_prefix)
  then show "map pr_canonical (take n s) = map pr_canonical (take n t)"
    by (simp add: take_map)
qed

lemma batch_deliveries:
  assumes "prefix (map pr_canonical items) canon" and "rq_Cursor req \<le> length items"
  shows "map (\<lambda>p. delivery (record_at env a req False g p)) (batch_of req items) =
    map (expected_delivery env a g canon) [rq_Cursor req..<rq_Cursor req + length (batch_of req items)]"
proof (rule nth_equalityI)
  fix i
  assume "i < length (map (\<lambda>p. delivery (record_at env a req False g p)) (batch_of req items))"
  then have i: "i < length (batch_of req items)"
    by simp
  then have lt: "rq_Cursor req + i < length items"
    by (auto simp: batch_of_def)
  have at: "batch_of req items ! i = (rq_Cursor req + i, items ! (rq_Cursor req + i))"
    using i assms(2) by (simp add: batch_of_def nth_enumerate_eq)
  have "canon ! (rq_Cursor req + i) = pr_canonical (items ! (rq_Cursor req + i))"
    using assms(1) lt by (auto simp: prefix_def nth_append)
  then show "map (\<lambda>p. delivery (record_at env a req False g p)) (batch_of req items) ! i =
    map (expected_delivery env a g canon)
      [rq_Cursor req..<rq_Cursor req + length (batch_of req items)] ! i"
    using i at by (simp add: delivery_def record_at_def make_record_def Let_def expected_delivery_def)
qed simp

lemma length_batch_of:
  "rq_Cursor req \<le> length items \<Longrightarrow>
     rq_Cursor req + length (batch_of req items) = min (length items) (rq_Cursor req + nat (rq_Limit req))"
  by (simp add: batch_of_def)

lemma in_step_resume:
  assumes "collect_parsed env a req items = (r, None)" and "rr_Generation r = g" and "g \<noteq> ''''"
    and "rr_CursorDigest r = digestPrefix (ae_hmac env) (jl_key a) items (rr_NextCursor r)"
    and "rr_NextCursor r \<le> length items"
    and "growing canon (items # rest)" and "t \<in> set rest"
  shows "in_step env a g (resume req r) t"
  using assms(2,3,4) snapshots_agree(2) [OF assms(6,7,5)]
    digestPrefix_cong [OF snapshots_agree(1) [OF assms(6,7,5)], of "ae_hmac env" "jl_key a"]
  by (simp add: in_step_def resume_def prefixMatches_def)

lemma upt_split: "i \<le> j \<Longrightarrow> j \<le> k \<Longrightarrow> [i..<k] = [i..<j] @ [j..<k]"
  by (metis le_Suc_ex upt_add_eq_append)

lemma collect_runs_delivers:
  assumes "good_source env a req" and "\<forall>s \<in> set snaps. \<forall>item \<in> set s. good_item env a item"
    and "growing canon snaps" and "g \<noteq> ''''" and "\<forall>s \<in> set snaps. in_step env a g req s"
  shows "map delivery (fst (collect_runs env a req snaps)) =
      map (expected_delivery env a g canon) [rq_Cursor req..<rq_Cursor (snd (collect_runs env a req snaps))]
    \<and> rq_Cursor req \<le> rq_Cursor (snd (collect_runs env a req snaps))
    \<and> rq_Cursor (snd (collect_runs env a req snaps)) =
        foldl (\<lambda>c s. min (length s) (c + nat (rq_Limit req))) (rq_Cursor req) snaps"
  using assms
proof (induction snaps arbitrary: req)
  case Nil
  then show ?case
    by simp
next
  case (Cons items rest)
  have step: "in_step env a g req items"
    using Cons.prems(5) by simp
  then have cur: "rq_Cursor req \<le> length items"
    by (simp add: in_step_def)
  have good: "\<forall>item \<in> set items. good_item env a item"
    using Cons.prems(2) by simp
  obtain r where r: "collect_parsed env a req items = (r, None)"
    and recs: "rr_Records r = map (record_at env a req False g) (batch_of req items)"
    and nxt: "rr_NextCursor r = rq_Cursor req + length (batch_of req items)"
    and gen: "rr_Generation r = g"
    and dig: "rr_CursorDigest r = digestPrefix (ae_hmac env) (jl_key a) items (rr_NextCursor r)"
    using collect_parsed_batch [OF Cons.prems(1) good step] by blast
  let ?req = "resume req r"
  have bound: "rr_NextCursor r = min (length items) (rq_Cursor req + nat (rq_Limit req))"
    using nxt length_batch_of [OF cur] by simp
  have limit: "rq_Limit ?req = rq_Limit req" and cursor: "rq_Cursor ?req = rr_NextCursor r"
    by (simp_all add: resume_def)
  have grow: "growing canon rest"
    using Cons.prems(3) by (auto simp: growing_def)
  have "good_source env a ?req"
    using Cons.prems(1) by (simp add: good_source_def resume_def)
  moreover have "\<forall>s \<in> set rest. in_step env a g ?req s"
    using in_step_resume [OF r gen Cons.prems(4) dig _ Cons.prems(3)] bound by simp
  ultimately have ih: "map delivery (fst (collect_runs env a ?req rest)) =
      map (expected_delivery env a g canon) [rr_NextCursor r..<rq_Cursor (snd (collect_runs env a ?req rest))]
    \<and> rr_NextCursor r \<le> rq_Cursor (snd (collect_runs env a ?req rest))
    \<and> rq_Cursor (snd (collect_runs env a ?req rest)) =
        foldl (\<lambda>c s. min (length s) (c + nat (rq_Limit req))) (rr_NextCursor r) rest"
    using Cons.IH [of ?req] Cons.prems(2,4) grow unfolding limit cursor by simp
  have first: "map delivery (rr_Records r) =
      map (expected_delivery env a g canon) [rq_Cursor req..<rr_NextCursor r]"
    using batch_deliveries [OF _ cur, of canon env a g] Cons.prems(3)
    unfolding recs nxt by (simp add: growing_def comp_def)
  have runs: "collect_runs env a req (items # rest) =
      (rr_Records r @ fst (collect_runs env a ?req rest), snd (collect_runs env a ?req rest))"
    using r by (simp add: Let_def split_beta)
  have le: "rq_Cursor req \<le> rr_NextCursor r"
    using nxt by simp
  have "[rq_Cursor req..<rq_Cursor (snd (collect_runs env a ?req rest))] =
      [rq_Cursor req..<rr_NextCursor r] @
      [rr_NextCursor r..<rq_Cursor (snd (collect_runs env a ?req rest))]"
    using le ih by (intro upt_split) simp_all
  moreover have "rq_Cursor req \<le> rq_Cursor (snd (collect_runs env a ?req rest))"
    using ih le by simp
  ultimately show ?case
    unfolding runs using ih first bound by simp
qed

lemma foldl_cursor:
  assumes "sorted (map length snaps)" and "\<forall>s \<in> set snaps. c \<le> length s \<and> length s \<le> n" and "c \<le> n"
  shows "min n (c + L * length (filter (\<lambda>s. length s = n) snaps))
      \<le> foldl (\<lambda>c s. min (length s) (c + L)) c snaps
    \<and> foldl (\<lambda>c s. min (length s) (c + L)) c snaps \<le> n"
  using assms
proof (induction snaps arbitrary: c)
  case (Cons s snaps)
  let ?c = "min (length s) (c + L)"
  have "\<forall>t \<in> set snaps. ?c \<le> length t \<and> length t \<le> n"
    using Cons.prems by auto
  then have ih: "min n (?c + L * length (filter (\<lambda>s. length s = n) snaps))
      \<le> foldl (\<lambda>c s. min (length s) (c + L)) ?c snaps
    \<and> foldl (\<lambda>c s. min (length s) (c + L)) ?c snaps \<le> n"
    using Cons.IH [of ?c] Cons.prems by auto
  have "c \<le> ?c"
    using Cons.prems(2) by simp
  then show ?case
    using ih by (auto simp: min_def algebra_simps split: if_splits)
qed simp

lemma baseGeneration_nonempty: "good_source env a req \<Longrightarrow> baseGeneration env a \<noteq> ''''"
  by (simp add: baseGeneration_def good_source_def)

text \<open>C12: incremental collection delivers every line of a source exactly once. Take a source that
  only grows, seen at successive moments, and collect one bounded batch at each, every batch
  resuming from the cursor, generation and digest the last one returned. The records delivered are
  the lines in order from the first to the final cursor, each once, with one stable identity per
  line; and once the complete source has been seen often enough for the batch limit to cover it,
  the final cursor is the end of the source, so nothing is left behind.\<close>
theorem collect_exactly_once:
  assumes "good_source env a req" and "\<forall>s \<in> set snaps. \<forall>item \<in> set s. good_item env a item"
    and "growing canon snaps"
    and "rq_Cursor req = 0" and "rq_CursorGeneration req = ''''" and "rq_CursorDigest req = ''''"
  shows "map delivery (fst (collect_runs env a req snaps)) =
      map (expected_delivery env a (baseGeneration env a) canon)
        [0..<rq_Cursor (snd (collect_runs env a req snaps))]
    \<and> (if length canon \<le> nat (rq_Limit req) * length (filter (\<lambda>s. length s = length canon) snaps)
       then rq_Cursor (snd (collect_runs env a req snaps)) = length canon
       else rq_Cursor (snd (collect_runs env a req snaps)) \<le> length canon)"
proof -
  let ?g = "baseGeneration env a"
  have step: "\<forall>s \<in> set snaps. in_step env a ?g req s"
    using assms(4,5,6) by (simp add: in_step_def prefixMatches_def)
  have "\<forall>s \<in> set snaps. 0 \<le> length s \<and> length s \<le> length canon"
    using assms(3) prefix_length_le by (fastforce simp: growing_def)
  then have "min (length canon) (0 + nat (rq_Limit req) * length (filter (\<lambda>s. length s = length canon) snaps))
      \<le> foldl (\<lambda>c s. min (length s) (c + nat (rq_Limit req))) 0 snaps
    \<and> foldl (\<lambda>c s. min (length s) (c + nat (rq_Limit req))) 0 snaps \<le> length canon"
    using assms(3) by (intro foldl_cursor) (simp_all add: growing_def)
  then show ?thesis
    using collect_runs_delivers [OF assms(1,2,3) baseGeneration_nonempty [OF assms(1)] step] assms(4)
    by auto
qed

abbreviation sample_env :: adapter_env where
  "sample_env \<equiv> \<lparr> ae_tables = ascii_tables, ae_hmac = (\<lambda>k m. ''d''), ae_unmarshal = (\<lambda>l. None),
     ae_marshal = (\<lambda>l. ''x''), ae_parse_time = (\<lambda>t. None) \<rparr>"

abbreviation sample_source :: jsonl where
  "sample_source \<equiv> NewJSONLWithIdentity ''git'' ''git'' None (replicate 32 CHR ''k'') True True"

abbreviation sample_item :: "string \<Rightarrow> parsed_record" where
  "sample_item canonical \<equiv> \<lparr> pr_version = ''1'', pr_canonical = canonical, pr_observedAt = 5,
     pr_eventAt = None, pr_attributes = [], pr_redacted = [] \<rparr>"

abbreviation sample_request :: adapter_request where
  "sample_request \<equiv> \<lparr> rq_Cursor = 0, rq_CursorGeneration = '''', rq_CursorDigest = '''',
     rq_Limit = 1, rq_SourceVersion = ''1'', rq_ObservedAt = 9, rq_MonotonicNanos = 9 \<rparr>"

theorem collect_exactly_once_witness:
  "rq_Cursor (snd (collect_runs sample_env sample_source sample_request
     [[sample_item ''a''], [sample_item ''a'', sample_item ''b''],
      [sample_item ''a'', sample_item ''b'']])) = 2"
proof -
  let ?snaps = "[[sample_item ''a''], [sample_item ''a'', sample_item ''b''],
      [sample_item ''a'', sample_item ''b'']]"
  have "Sanitize ascii_tables (\<lambda>k m. ''d'') ''git'' (replicate 32 CHR ''k'') [] = Inr ([], [])"
    by (simp add: Sanitize_def sort_strings_def)
  then have item: "good_item sample_env sample_source (sample_item c)" for c
    unfolding good_item_def NewJSONLWithIdentity_def by (auto intro!: exI [of _ "[]"])
  have source: "good_source sample_env sample_source sample_request"
    by (simp add: good_source_def NewJSONLWithIdentity_def)
  have grow: "growing [''a'', ''b''] ?snaps"
    by (simp add: growing_def)
  show ?thesis
    using collect_exactly_once [OF source _ grow] item by simp
qed

section \<open>From the bytes of the source to its items\<close>

lemma parse_line_good:
  assumes "parse_line env a now line = Inr item"
  shows "\<exists>attrs. Sanitize (ae_tables env) (ae_hmac env) (jl_kind a) (jl_key a) attrs
      = Inr (pr_attributes item, pr_redacted item)"
proof -
  obtain source where source: "ae_unmarshal env line = Some source"
    using assms by (cases "ae_unmarshal env line") (simp_all add: parse_line_def)
  show ?thesis
  proof (cases "Sanitize (ae_tables env) (ae_hmac env) (jl_kind a) (jl_key a) (sl_Attributes source)")
    case (Inl e)
    then show ?thesis
      using assms source by (auto simp: parse_line_def bind_result_eq_Inr)
  next
    case (Inr p)
    then have "p = (pr_attributes item, pr_redacted item)"
      using assms source by (cases p) (auto simp: parse_line_def bind_result_eq_Inr)
    then show ?thesis
      using Inr by blast
  qed
qed

lemma parse_lines_good:
  assumes "parse_lines env a ctx now result i lines = Inr items" and "item \<in> set items"
  shows "\<exists>attrs. Sanitize (ae_tables env) (ae_hmac env) (jl_kind a) (jl_key a) attrs
      = Inr (pr_attributes item, pr_redacted item)"
  using assms
proof (induction lines arbitrary: i items)
  case (Cons l ls)
  then show ?case
    by (auto simp: bind_result_eq_Inr split: option.splits sum.splits dest: parse_line_good)
qed simp

lemma jsonl_Collect_parsed:
  assumes "jl_enabled a" and "jl_supported a" and "jl_data a \<noteq> []" and "1 \<le> rq_Limit req"
    and "scan_lines (jl_maxRecordBytes a) (jl_data a) = (lines, False)"
    and "parse_lines env a ctx (rq_ObservedAt req) (initial_result req) 0 lines = Inr items"
    and "\<forall>item \<in> set items. pr_observedAt item \<noteq> 0"
  shows "jsonl_Collect env a ctx req = collect_parsed env a req items \<and>
    (\<forall>item \<in> set items. good_item env a item)"
  using assms parse_lines_good [OF assms(6)] by (simp add: jsonl_Collect_def good_item_def)

end
