(* ===== verification/Collector.thy ===== *)
theory Collector
  imports Adapters
begin

text \<open>
  \<open>internal/collector/collector.go\<close>: one collection run of a source under a fenced lease. The
  store, the lease store, the clock and the wait are interfaces of the program; the model takes
  them as a record of operations over a world of arbitrary type, which each operation returns
  updated. Optional interfaces of the store (\<open>Generation\<close>, \<open>Digest\<close>) are optional fields. The
  quarantine of the collector is explicit state, and the deferred release is the last step of
  the run.
\<close>

datatype collector_error =
    CollectorError string
  | ErrLeaseHeld
  | ErrAdapter adapter_error
  | ErrWait string
  | ErrCommit string
  | ErrBatchID evidence_error

record collector_commit =
  cm_BatchID :: string
  cm_SourceKind :: string
  cm_Cursor :: nat
  cm_Generation :: string
  cm_CursorDigest :: string
  cm_Fence :: string
  cm_Records :: "evidence_record list"

record quarantine_entry =
  qe_SourceKind :: string
  qe_Code :: string
  qe_Attempt :: nat
  qe_At :: go_time

record collector_options =
  op_Owner :: string
  op_BatchLimit :: int
  op_MaxAttempts :: int
  op_LeaseDuration :: go_duration
  op_BaseBackoff :: go_duration

record 'w collector_ops =
  co_now :: "'w \<Rightarrow> go_time \<times> 'w"
  co_wait :: "go_duration \<Rightarrow> 'w \<Rightarrow> string option \<times> 'w"
  co_acquire :: "string \<Rightarrow> string \<Rightarrow> go_time \<Rightarrow> go_duration \<Rightarrow> 'w \<Rightarrow> (string + string \<times> bool) \<times> 'w"
  co_renew :: "string \<Rightarrow> string \<Rightarrow> string \<Rightarrow> go_time \<Rightarrow> go_duration \<Rightarrow> 'w \<Rightarrow> (string + bool) \<times> 'w"
  co_release :: "string \<Rightarrow> string \<Rightarrow> string \<Rightarrow> 'w \<Rightarrow> 'w"
  co_cursor :: "string \<Rightarrow> 'w \<Rightarrow> (string + nat) \<times> 'w"
  co_generation :: "(string \<Rightarrow> 'w \<Rightarrow> (string + string) \<times> 'w) option"
  co_digest :: "(string \<Rightarrow> 'w \<Rightarrow> (string + string) \<times> 'w) option"
  co_commit :: "collector_commit \<Rightarrow> 'w \<Rightarrow> (string + bool) \<times> 'w"

record 'w source_adapter =
  sa_Kind :: string
  sa_Collect :: "adapter_request \<Rightarrow> 'w \<Rightarrow> (adapter_result \<times> adapter_error option) \<times> 'w"

type_synonym run_result = "adapter_result \<times> collector_error option"

definition no_result :: adapter_result where
  "no_result = unavailable '''' ''''"

text \<open>\<open>New\<close> rejects options it cannot run with; a nil store or lease store is a flag.\<close>

definition collector_New :: "bool \<Rightarrow> bool \<Rightarrow> collector_options \<Rightarrow> string + collector_options \<times> quarantine_entry list"
  where
  "collector_New nil_store nil_leases opts =
     (if nil_store \<or> nil_leases \<or> op_Owner opts = '''' \<or> op_BatchLimit opts < 1 \<or>
         op_MaxAttempts opts < 1 \<or> op_LeaseDuration opts \<le> 0 \<or> op_BaseBackoff opts < 0
      then Inl ''invalid collector options''
      else Inr (opts, []))"

definition permanent :: "adapter_error \<Rightarrow> bool" where
  "permanent e \<longleftrightarrow> e = ErrMalformed \<or> e = ErrTruncated \<or> e = ErrEvidence ErrSensitive"

definition errorCode :: "adapter_error \<Rightarrow> string" where
  "errorCode e =
     (if e = ErrMalformed then ''malformed''
      else if e = ErrTruncated then ''truncated''
      else if e = ErrEvidence ErrSensitive then ''sensitive''
      else ''adapter_failure'')"

definition addQuarantine :: "quarantine_entry list \<Rightarrow> quarantine_entry \<Rightarrow> quarantine_entry list" where
  "addQuarantine q entry = q @ [entry]"

definition unix_epoch :: go_time where
  "unix_epoch = 62135596800 * 1000000000"

definition UnixNano :: "go_time \<Rightarrow> int" where
  "UnixNano t = wrap64 (t - unix_epoch)"

definition backoff :: "go_duration \<Rightarrow> nat \<Rightarrow> go_duration" where
  "backoff base attempt = wrap64 (base * wrap64 (2 ^ (attempt - 1)))"

fun collect_attempts ::
  "'w collector_ops \<Rightarrow> collector_options \<Rightarrow> 'w source_adapter \<Rightarrow> adapter_request \<Rightarrow> go_time \<Rightarrow> nat \<Rightarrow> nat \<Rightarrow>
     adapter_result \<times> adapter_error option \<Rightarrow> quarantine_entry list \<Rightarrow> 'w \<Rightarrow>
     (run_result + adapter_result \<times> adapter_error option) \<times> quarantine_entry list \<times> 'w" where
  "collect_attempts ops opts adapter req now attempt 0 prev q w = (Inr prev, q, w)"
| "collect_attempts ops opts adapter req now attempt (Suc n) prev q w =
     (case sa_Collect adapter req w of
        ((result, None), w1) \<Rightarrow> (Inr (result, None), q, w1)
      | ((result, Some err), w1) \<Rightarrow>
          if err = ErrDisabled \<or> err = ErrUnsupported then (Inr (result, Some err), q, w1)
          else if permanent err \<or> int attempt = op_MaxAttempts opts
          then (Inl (result, Some (CollectorError ''source collection failed'')),
                addQuarantine q \<lparr> qe_SourceKind = sa_Kind adapter, qe_Code = errorCode err,
                                  qe_Attempt = attempt, qe_At = now \<rparr>, w1)
          else (case co_wait ops (backoff (op_BaseBackoff opts) attempt) w1 of
                  (Some werr, w2) \<Rightarrow> (Inl (result, Some (ErrWait werr)), q, w2)
                | (None, w2) \<Rightarrow>
                    collect_attempts ops opts adapter req now (Suc attempt) n (result, Some err) q w2))"

definition batch_identity_key :: string where
  "batch_identity_key = ''collector-batch-identity-key-32!!''"

definition commit_batch ::
  "hmac_fun \<Rightarrow> 'w collector_ops \<Rightarrow> collector_options \<Rightarrow> string \<Rightarrow> string \<Rightarrow> nat \<Rightarrow>
     adapter_result \<Rightarrow> adapter_error option \<Rightarrow> 'w \<Rightarrow> run_result \<times> 'w" where
  "commit_batch hmac ops opts kind fence cursor result err w =
     (let (now, w1) = co_now ops w;
          (renewed, w2) = co_renew ops kind (op_Owner opts) fence now (op_LeaseDuration opts) w1
      in case renewed of
           Inl e \<Rightarrow> ((result, Some (CollectorError ''renew source lease'')), w2)
         | Inr False \<Rightarrow> ((result, Some ErrLeaseHeld), w2)
         | Inr True \<Rightarrow>
             (case OpaqueID hmac batch_identity_key
                     [kind, rr_Generation result, rr_CursorDigest result, show_nat cursor,
                      show_nat (rr_NextCursor result)] of
                Inl e \<Rightarrow> ((result, Some (ErrBatchID e)), w2)
              | Inr batchID \<Rightarrow>
                  (case co_commit ops \<lparr> cm_BatchID = batchID, cm_SourceKind = kind,
                          cm_Cursor = rr_NextCursor result, cm_Generation = rr_Generation result,
                          cm_CursorDigest = rr_CursorDigest result, cm_Fence = fence,
                          cm_Records = rr_Records result \<rparr> w2 of
                     (Inl e, w3) \<Rightarrow> ((result, Some (ErrCommit e)), w3)
                   | (Inr _, w3) \<Rightarrow> ((result, map_option ErrAdapter err), w3))))"

definition optional_read ::
  "(string \<Rightarrow> 'w \<Rightarrow> (string + string) \<times> 'w) option \<Rightarrow> string \<Rightarrow> 'w \<Rightarrow> (string + string) \<times> 'w" where
  "optional_read read kind w = (case read of None \<Rightarrow> (Inr '''', w) | Some f \<Rightarrow> f kind w)"

definition leased_run ::
  "hmac_fun \<Rightarrow> 'w collector_ops \<Rightarrow> collector_options \<Rightarrow> 'w source_adapter \<Rightarrow> go_time \<Rightarrow> string \<Rightarrow>
     quarantine_entry list \<Rightarrow> 'w \<Rightarrow> run_result \<times> quarantine_entry list \<times> 'w" where
  "leased_run hmac ops opts adapter now fence q w =
     (let kind = sa_Kind adapter in
      case co_cursor ops kind w of
        (Inl e, w1) \<Rightarrow> ((no_result, Some (CollectorError ''read source cursor'')), q, w1)
      | (Inr cursor, w1) \<Rightarrow>
      (case optional_read (co_generation ops) kind w1 of
        (Inl e, w2) \<Rightarrow> ((no_result, Some (CollectorError ''read source generation'')), q, w2)
      | (Inr generation, w2) \<Rightarrow>
      (case optional_read (co_digest ops) kind w2 of
        (Inl e, w3) \<Rightarrow> ((no_result, Some (CollectorError ''read source cursor digest'')), q, w3)
      | (Inr digest, w3) \<Rightarrow>
      (let req = \<lparr> rq_Cursor = cursor, rq_CursorGeneration = generation, rq_CursorDigest = digest,
                   rq_Limit = op_BatchLimit opts, rq_SourceVersion = '''', rq_ObservedAt = now,
                   rq_MonotonicNanos = UnixNano now \<rparr>
       in case collect_attempts ops opts adapter req now 1 (nat (op_MaxAttempts opts))
                 (no_result, None) q w3 of
            (Inl stopped, q4, w4) \<Rightarrow> (stopped, q4, w4)
          | (Inr (result, err), q4, w4) \<Rightarrow>
              if rr_Records result = [] then ((result, map_option ErrAdapter err), q4, w4)
              else (let (r, w5) = commit_batch hmac ops opts kind fence cursor result err w4
                    in (r, q4, w5))))))"

definition collector_Run ::
  "hmac_fun \<Rightarrow> 'w collector_ops \<Rightarrow> collector_options \<Rightarrow> 'w source_adapter \<Rightarrow> quarantine_entry list \<Rightarrow> 'w \<Rightarrow>
     run_result \<times> quarantine_entry list \<times> 'w" where
  "collector_Run hmac ops opts adapter q w =
     (let (now, w1) = co_now ops w in
      case co_acquire ops (sa_Kind adapter) (op_Owner opts) now (op_LeaseDuration opts) w1 of
        (Inl e, w2) \<Rightarrow> ((no_result, Some (CollectorError ''acquire source lease'')), q, w2)
      | (Inr (fence, False), w2) \<Rightarrow> ((no_result, Some ErrLeaseHeld), q, w2)
      | (Inr (fence, True), w2) \<Rightarrow>
          (let (r, q3, w3) = leased_run hmac ops opts adapter now fence q w2
           in (r, q3, co_release ops (sa_Kind adapter) (op_Owner opts) fence w3)))"

section \<open>Traces\<close>

text \<open>The calls a run makes, in order, recorded by wrapping every operation; a commit is recorded with what
  the store answered.\<close>

datatype run_event =
    EvAcquire "string option"
  | EvRead
  | EvCollect
  | EvWait go_duration
  | EvRenew string bool
  | EvCommit collector_commit "string + bool"
  | EvRelease string

type_synonym 'w traced = "'w \<times> run_event list"

definition logged :: "('a \<Rightarrow> run_event) \<Rightarrow> ('w \<Rightarrow> 'a \<times> 'w) \<Rightarrow> 'w traced \<Rightarrow> 'a \<times> 'w traced" where
  "logged ev f = (\<lambda>(w, tr). let (x, w1) = f w in (x, w1, tr @ [ev x]))"

definition traced_ops :: "'w collector_ops \<Rightarrow> 'w traced collector_ops" where
  "traced_ops ops =
     \<lparr> co_now = (\<lambda>(w, tr). let (t, w1) = co_now ops w in (t, w1, tr)),
       co_wait = (\<lambda>d. logged (\<lambda>_. EvWait d) (co_wait ops d)),
       co_acquire = (\<lambda>k own t d. logged (\<lambda>r. EvAcquire
          (case r of Inr (fence, True) \<Rightarrow> Some fence | _ \<Rightarrow> None)) (co_acquire ops k own t d)),
       co_renew = (\<lambda>k own fence t d. logged (\<lambda>r. EvRenew fence (r = Inr True))
          (co_renew ops k own fence t d)),
       co_release = (\<lambda>k own fence (w, tr). (co_release ops k own fence w, tr @ [EvRelease fence])),
       co_cursor = (\<lambda>k. logged (\<lambda>_. EvRead) (co_cursor ops k)),
       co_generation = map_option (\<lambda>f k. logged (\<lambda>_. EvRead) (f k)) (co_generation ops),
       co_digest = map_option (\<lambda>f k. logged (\<lambda>_. EvRead) (f k)) (co_digest ops),
       co_commit = (\<lambda>c. logged (EvCommit c) (co_commit ops c)) \<rparr>"

definition traced_adapter :: "'w source_adapter \<Rightarrow> 'w traced source_adapter" where
  "traced_adapter adapter =
     \<lparr> sa_Kind = sa_Kind adapter,
       sa_Collect = (\<lambda>req. logged (\<lambda>_. EvCollect) (sa_Collect adapter req)) \<rparr>"

lemmas traced_defs = traced_ops_def traced_adapter_def logged_def

fun waits_and_collects :: "run_event list \<Rightarrow> bool" where
  "waits_and_collects [] = True"
| "waits_and_collects (EvCollect # tr) = waits_and_collects tr"
| "waits_and_collects (EvWait d # tr) = waits_and_collects tr"
| "waits_and_collects (e # tr) = False"

lemma waits_and_collects_iff:
  "waits_and_collects tr \<longleftrightarrow> (\<forall>e \<in> set tr. e = EvCollect \<or> (\<exists>d. e = EvWait d))"
  by (induction tr rule: waits_and_collects.induct) auto

lemma collect_attempts_trace:
  "\<exists>mid. snd (snd (snd (collect_attempts (traced_ops ops) opts (traced_adapter adapter) req now
        attempt n prev q (w, tr)))) = tr @ mid \<and>
     waits_and_collects mid \<and> length (filter (\<lambda>e. e = EvCollect) mid) \<le> n"
proof (induction n arbitrary: attempt prev q w tr)
  case 0
  then show ?case
    by simp
next
  case (Suc n)
  obtain result oerr w1 where c: "sa_Collect adapter req w = ((result, oerr), w1)"
    by (metis prod.exhaust)
  have stop: "\<exists>mid. tr @ [EvCollect] = tr @ mid \<and> waits_and_collects mid \<and>
      length (filter (\<lambda>e. e = EvCollect) mid) \<le> Suc n"
    by (intro exI [of _ "[EvCollect]"]) simp
  show ?case
  proof (cases oerr)
    case None
    then show ?thesis
      using c stop by (simp add: traced_defs)
  next
    case (Some err)
    obtain werr w2 where wait: "co_wait ops (backoff (op_BaseBackoff opts) attempt) w1 = (werr, w2)"
      by (metis prod.exhaust)
    let ?d = "EvWait (backoff (op_BaseBackoff opts) attempt)"
    have waited: "\<exists>mid. tr @ [EvCollect, ?d] = tr @ mid \<and> waits_and_collects mid \<and>
        length (filter (\<lambda>e. e = EvCollect) mid) \<le> Suc n"
      by (intro exI [of _ "[EvCollect, ?d]"]) simp
    obtain mid where mid: "snd (snd (snd (collect_attempts (traced_ops ops) opts (traced_adapter adapter)
        req now (Suc attempt) n (result, Some err) q (w2, tr @ [EvCollect, ?d])))) =
          (tr @ [EvCollect, ?d]) @ mid"
      "waits_and_collects mid" "length (filter (\<lambda>e. e = EvCollect) mid) \<le> n"
      using Suc.IH by metis
    then have again: "\<exists>mid'. (tr @ [EvCollect, ?d]) @ mid = tr @ mid' \<and> waits_and_collects mid' \<and>
        length (filter (\<lambda>e. e = EvCollect) mid') \<le> Suc n"
      by (intro exI [of _ "EvCollect # ?d # mid"]) simp
    show ?thesis
      using c Some wait stop waited again mid(1)
      by (cases werr) (simp_all add: traced_defs)
  qed
qed

definition commit_of :: "hmac_fun \<Rightarrow> string \<Rightarrow> string \<Rightarrow> nat \<Rightarrow> adapter_result \<Rightarrow> collector_commit" where
  "commit_of hmac kind fence cursor result =
     \<lparr> cm_BatchID = hex_encode (hmac batch_identity_key (concat (map (\<lambda>part. CHR 0x00 # part)
         [kind, rr_Generation result, rr_CursorDigest result, show_nat cursor,
          show_nat (rr_NextCursor result)]))),
       cm_SourceKind = kind, cm_Cursor = rr_NextCursor result, cm_Generation = rr_Generation result,
       cm_CursorDigest = rr_CursorDigest result, cm_Fence = fence, cm_Records = rr_Records result \<rparr>"

lemma batch_identity_ok:
  "OpaqueID hmac batch_identity_key parts =
     Inr (hex_encode (hmac batch_identity_key (concat (map (\<lambda>part. CHR 0x00 # part) parts))))"
  by (simp add: OpaqueID_def batch_identity_key_def)

text \<open>An error of the store is the error of the run; after any other answer the run has no store error.\<close>

definition commit_answered :: "string + bool \<Rightarrow> collector_error option \<Rightarrow> bool" where
  "commit_answered answer e \<longleftrightarrow>
     (case answer of Inl msg \<Rightarrow> e = Some (ErrCommit msg) | Inr _ \<Rightarrow> \<forall>msg. e \<noteq> Some (ErrCommit msg))"

lemma commit_batch_trace:
  assumes "commit_batch hmac (traced_ops ops) opts kind fence cursor result err (w, tr) = ((r, e), w', tr')"
  shows "r = result \<and>
    (tr' = tr @ [EvRenew fence False] \<and> e \<noteq> None \<or>
     (\<exists>answer. tr' = tr @ [EvRenew fence True, EvCommit (commit_of hmac kind fence cursor result) answer] \<and>
        commit_answered answer e))"
proof -
  obtain now w1 where now: "co_now ops w = (now, w1)"
    by (metis prod.exhaust)
  obtain renewed w2 where renew:
    "co_renew ops kind (op_Owner opts) fence now (op_LeaseDuration opts) w1 = (renewed, w2)"
    by (metis prod.exhaust)
  obtain committed w3 where commit:
    "co_commit ops (commit_of hmac kind fence cursor result) w2 = (committed, w3)"
    by (metis prod.exhaust)
  consider (failed) e where "renewed = Inl e" | (lost) "renewed = Inr False"
    | (held) "renewed = Inr True"
    by (metis sum.exhaust)
  then show ?thesis
  proof cases
    case failed
    then show ?thesis
      using assms now renew by (auto simp: commit_batch_def traced_defs)
  next
    case lost
    then show ?thesis
      using assms now renew by (auto simp: commit_batch_def traced_defs)
  next
    case held
    then show ?thesis
      using assms now renew commit
      by (cases committed)
        (auto simp: commit_batch_def traced_defs batch_identity_ok commit_of_def commit_answered_def)
  qed
qed

definition reads_and_attempts :: "run_event list \<Rightarrow> bool" where
  "reads_and_attempts tr \<longleftrightarrow> (\<forall>e \<in> set tr. e = EvRead \<or> e = EvCollect \<or> (\<exists>d. e = EvWait d))"

text \<open>What a run does between taking the lease and releasing it.\<close>

definition leased_trace ::
  "hmac_fun \<Rightarrow> collector_options \<Rightarrow> string \<Rightarrow> string \<Rightarrow> run_result \<Rightarrow> run_event list \<Rightarrow> bool" where
  "leased_trace hmac opts kind fence out tr \<longleftrightarrow>
     (\<exists>pre. reads_and_attempts pre \<and>
        length (filter (\<lambda>e. e = EvCollect) pre) \<le> nat (op_MaxAttempts opts) \<and>
        (tr = pre \<and> (snd out \<noteq> None \<or> rr_Records (fst out) = []) \<or>
         tr = pre @ [EvRenew fence False] \<and> snd out \<noteq> None \<or>
         (\<exists>cursor answer. tr = pre @ [EvRenew fence True, EvCommit (commit_of hmac kind fence cursor (fst out)) answer]
            \<and> commit_answered answer (snd out) \<and> rr_Records (fst out) \<noteq> [])))"

lemma optional_read_traced:
  assumes "optional_read (map_option (\<lambda>f k. logged (\<lambda>_. EvRead) (f k)) read) kind (w, tr) = (x, w', tr')"
  shows "\<exists>rs. tr' = tr @ rs \<and> set rs \<subseteq> {EvRead}"
  using assms by (cases read) (auto simp: optional_read_def logged_def split: prod.splits)

lemma collect_attempts_stopped:
  "fst (collect_attempts ops opts adapter req now attempt n prev q w) = Inl (result, err) \<Longrightarrow> err \<noteq> None"
  by (induction ops opts adapter req now attempt n prev q w rule: collect_attempts.induct)
    (auto split: prod.splits option.splits if_splits)

lemma leased_trace_plain:
  assumes "reads_and_attempts pre \<and> length (filter (\<lambda>e. e = EvCollect) pre) \<le> nat (op_MaxAttempts opts)"
    and "snd out \<noteq> None \<or> rr_Records (fst out) = []"
  shows "leased_trace hmac opts kind fence out pre"
  using assms unfolding leased_trace_def by (intro exI [of _ pre]) simp

lemma leased_trace_renewed:
  assumes "reads_and_attempts pre \<and> length (filter (\<lambda>e. e = EvCollect) pre) \<le> nat (op_MaxAttempts opts)"
    and "rr_Records (fst out) \<noteq> []"
    and "tr = [EvRenew fence False] \<and> snd out \<noteq> None \<or>
      (\<exists>answer. tr = [EvRenew fence True, EvCommit (commit_of hmac kind fence cursor (fst out)) answer] \<and>
         commit_answered answer (snd out))"
  shows "leased_trace hmac opts kind fence out (pre @ tr)"
  using assms unfolding leased_trace_def by (intro exI [of _ pre]) auto

lemma leased_trace_stop:
  assumes "set rs \<subseteq> {EvRead}" and "snd out \<noteq> None"
  shows "leased_trace hmac opts kind fence out rs"
proof -
  have "filter (\<lambda>e. e = EvCollect) rs = []"
    using assms(1) by (auto simp: filter_empty_conv)
  then show ?thesis
    using assms by (intro leased_trace_plain) (auto simp: reads_and_attempts_def)
qed

lemma attempts_after_reads:
  assumes "set rs \<subseteq> {EvRead}" and "waits_and_collects mid"
    and "length (filter (\<lambda>e. e = EvCollect) mid) \<le> n"
  shows "reads_and_attempts (rs @ mid) \<and> length (filter (\<lambda>e. e = EvCollect) (rs @ mid)) \<le> n"
proof -
  have "filter (\<lambda>e. e = EvCollect) rs = []"
    using assms(1) by (auto simp: filter_empty_conv)
  then show ?thesis
    using assms by (auto simp: reads_and_attempts_def waits_and_collects_iff)
qed

text \<open>The run from its first attempt on.\<close>

lemma attempt_phase_trace:
  assumes "(case collect_attempts (traced_ops ops) opts (traced_adapter adapter) req now 1
        (nat (op_MaxAttempts opts)) (no_result, None) q (w, tr) of
      (Inl stopped, q4, w4) \<Rightarrow> (stopped, q4, w4)
    | (Inr (result, err), q4, w4) \<Rightarrow>
        if rr_Records result = [] then ((result, map_option ErrAdapter err), q4, w4)
        else (let (r, w5) = commit_batch hmac (traced_ops ops) opts kind fence cursor result err w4
              in (r, q4, w5))) = (out, q', w', tr')"
    and "set rs \<subseteq> {EvRead}"
  shows "\<exists>mid. tr' = tr @ mid \<and> leased_trace hmac opts kind fence out (rs @ mid)"
proof -
  obtain x q4 w4 tr4 where att: "collect_attempts (traced_ops ops) opts (traced_adapter adapter) req now 1
      (nat (op_MaxAttempts opts)) (no_result, None) q (w, tr) = (x, q4, w4, tr4)"
    by (metis prod.exhaust)
  obtain mid where mid: "tr4 = tr @ mid" "waits_and_collects mid"
    "length (filter (\<lambda>e. e = EvCollect) mid) \<le> nat (op_MaxAttempts opts)"
    using collect_attempts_trace [of ops opts adapter req now 1 "nat (op_MaxAttempts opts)"
        "(no_result, None)" q w tr] att by auto
  note pre = attempts_after_reads [OF assms(2) mid(2,3)]
  show ?thesis
  proof (cases x)
    case (Inl stopped)
    then have "snd out \<noteq> None" and "tr' = tr4"
      using assms(1) att collect_attempts_stopped [of "traced_ops ops" opts "traced_adapter adapter"
          req now 1 "nat (op_MaxAttempts opts)" "(no_result, None)" q "(w, tr)" "fst out" "snd out"]
      by auto
    then show ?thesis
      using mid(1) leased_trace_plain [OF pre] by blast
  next
    case (Inr p)
    obtain result err where p: "p = (result, err)"
      by (cases p)
    show ?thesis
    proof (cases "rr_Records result = []")
      case True
      then have "rr_Records (fst out) = []" and "tr' = tr4"
        using assms(1) att Inr p by auto
      then show ?thesis
        using mid(1) leased_trace_plain [OF pre] by blast
    next
      case False
      obtain r e w5 tr5 where c: "commit_batch hmac (traced_ops ops) opts kind fence cursor result err
          (w4, tr4) = ((r, e), w5, tr5)"
        by (metis prod.exhaust)
      have out: "out = (r, e)" and tr': "tr' = tr5"
        using assms(1) att Inr p c False by auto
      obtain tail where tail: "r = result" "tr5 = tr4 @ tail"
        "tail = [EvRenew fence False] \<and> e \<noteq> None \<or>
         (\<exists>answer. tail = [EvRenew fence True, EvCommit (commit_of hmac kind fence cursor result) answer] \<and>
            commit_answered answer e)"
        using commit_batch_trace [OF c] by blast
      then have "leased_trace hmac opts kind fence out ((rs @ mid) @ tail)"
        using leased_trace_renewed [OF pre, of out tail fence hmac kind cursor] False out by simp
      then show ?thesis
        using tr' tail(2) mid(1) by auto
    qed
  qed
qed

lemma leased_run_trace:
  assumes "leased_run hmac (traced_ops ops) opts (traced_adapter adapter) now fence q (w, tr)
      = (out, q', w', tr')"
  shows "\<exists>mid. tr' = tr @ mid \<and> leased_trace hmac opts (sa_Kind adapter) fence out mid"
proof -
  let ?kind = "sa_Kind adapter"
  have kind: "sa_Kind (traced_adapter adapter) = ?kind"
    by (simp add: traced_adapter_def)
  obtain c w1 where c: "co_cursor (traced_ops ops) ?kind (w, tr) = (c, w1, tr @ [EvRead])"
    by (cases "co_cursor ops ?kind w") (auto simp: traced_defs)
  obtain g w2 tr2 where g: "optional_read (co_generation (traced_ops ops)) ?kind (w1, tr @ [EvRead])
      = (g, w2, tr2)"
    by (metis prod.exhaust)
  obtain d w3 tr3 where d: "optional_read (co_digest (traced_ops ops)) ?kind (w2, tr2) = (d, w3, tr3)"
    by (metis prod.exhaust)
  obtain rs where rs: "tr2 = (tr @ [EvRead]) @ rs" "set rs \<subseteq> {EvRead}"
    using g optional_read_traced [of "co_generation ops" ?kind w1 "tr @ [EvRead]"]
    by (auto simp: traced_ops_def)
  obtain rs' where rs': "tr3 = tr2 @ rs'" "set rs' \<subseteq> {EvRead}"
    using d optional_read_traced [of "co_digest ops" ?kind w2 tr2] by (auto simp: traced_ops_def)
  have stop: "leased_trace hmac opts ?kind fence (no_result, Some e) reads" if "set reads \<subseteq> {EvRead}"
    for e reads
    using that by (intro leased_trace_stop) simp_all
  show ?thesis
  proof (cases c)
    case (Inl e)
    then show ?thesis
      using assms c stop [of "[EvRead]"] by (auto simp: leased_run_def kind)
  next
    case (Inr cursor)
    note c = c [unfolded Inr]
    show ?thesis
    proof (cases g)
      case (Inl e)
      then show ?thesis
        using assms c g rs stop [of "EvRead # rs"] by (auto simp: leased_run_def kind)
    next
      case (Inr generation)
      note g = g [unfolded Inr]
      show ?thesis
      proof (cases d)
        case (Inl e)
        then show ?thesis
          using assms c g d rs rs' stop [of "EvRead # rs @ rs'"] by (auto simp: leased_run_def kind)
      next
        case (Inr digest)
        note d = d [unfolded Inr]
        have reads: "set (EvRead # rs @ rs') \<subseteq> {EvRead}"
          using rs(2) rs'(2) by auto
        define req where "req = \<lparr> rq_Cursor = cursor, rq_CursorGeneration = generation,
          rq_CursorDigest = digest, rq_Limit = op_BatchLimit opts, rq_SourceVersion = '''',
          rq_ObservedAt = now, rq_MonotonicNanos = UnixNano now \<rparr>"
        have phase: "(case collect_attempts (traced_ops ops) opts (traced_adapter adapter) req now 1
              (nat (op_MaxAttempts opts)) (no_result, None) q (w3, tr3) of
            (Inl stopped, q4, w4) \<Rightarrow> (stopped, q4, w4)
          | (Inr (result, err), q4, w4) \<Rightarrow>
              if rr_Records result = [] then ((result, map_option ErrAdapter err), q4, w4)
              else (let (r, w5) = commit_batch hmac (traced_ops ops) opts ?kind fence cursor result err w4
                    in (r, q4, w5))) = (out, q', w', tr')"
          using assms unfolding leased_run_def kind Let_def c g d req_def
          by (simp only: prod.case sum.case c g d)
        obtain mid where "tr' = tr3 @ mid"
            "leased_trace hmac opts ?kind fence out ((EvRead # rs @ rs') @ mid)"
          using attempt_phase_trace [OF phase reads] by blast
        then show ?thesis
          using rs(1) rs'(1) by auto
      qed
    qed
  qed
qed

lemma leased_trace_stored:
  assumes "leased_trace hmac opts kind fence out tr" "snd out = None" "rr_Records (fst out) \<noteq> []"
  shows "\<exists>cursor stored. EvCommit (commit_of hmac kind fence cursor (fst out)) (Inr stored) \<in> set tr"
proof -
  obtain pre cursor answer where "tr = pre @ [EvRenew fence True, EvCommit (commit_of hmac kind fence cursor (fst out)) answer]"
    "commit_answered answer (snd out)"
    using assms by (auto simp: leased_trace_def)
  then show ?thesis
    using assms(2) by (cases answer) (auto simp: commit_answered_def)
qed

text \<open>C13: a collection run respects its lease on every path, whatever the store, the lease store,
  the clock and the adapter do. If the lease is not granted the run touches nothing else and
  reports an error. Otherwise the last call of the run releases the fence it was granted; in
  between it only reads, collects (at most MaxAttempts times) and waits, and commits at most once,
  immediately after a successful renewal of that fence, under that fence, with exactly the
  records, cursor, generation and digest of the result it returns; an error of that commit is the
  error of the run, so when a run returns records without an error, the store answered the commit
  of exactly these records without one.\<close>
theorem run_lease_discipline:
  assumes "collector_Run hmac (traced_ops ops) opts (traced_adapter adapter) q (w, []) = (out, q', w', tr)"
  shows "tr = [EvAcquire None] \<and> snd out \<noteq> None \<or>
    (\<exists>fence mid. tr = [EvAcquire (Some fence)] @ mid @ [EvRelease fence] \<and>
       leased_trace hmac opts (sa_Kind adapter) fence out mid \<and>
       (snd out = None \<and> rr_Records (fst out) \<noteq> [] \<longrightarrow>
          (\<exists>cursor stored. EvCommit (commit_of hmac (sa_Kind adapter) fence cursor (fst out)) (Inr stored) \<in> set mid)))"
proof -
  let ?kind = "sa_Kind adapter"
  have kind: "sa_Kind (traced_adapter adapter) = ?kind"
    by (simp add: traced_adapter_def)
  obtain now w1 where now: "co_now ops w = (now, w1)"
    by (metis prod.exhaust)
  obtain acquired w2 where acq:
    "co_acquire ops ?kind (op_Owner opts) now (op_LeaseDuration opts) w1 = (acquired, w2)"
    by (metis prod.exhaust)
  consider (failed) e where "acquired = Inl e" | (refused) fence where "acquired = Inr (fence, False)"
    | (granted) fence where "acquired = Inr (fence, True)"
    by (metis sum.exhaust prod.exhaust)
  then show ?thesis
  proof cases
    case failed
    then show ?thesis
      using assms now acq by (auto simp: collector_Run_def traced_defs)
  next
    case refused
    then show ?thesis
      using assms now acq by (auto simp: collector_Run_def traced_defs)
  next
    case (granted fence)
    obtain r q3 w3 tr3 where run: "leased_run hmac (traced_ops ops) opts (traced_adapter adapter) now fence q
        (w2, [EvAcquire (Some fence)]) = (r, q3, w3, tr3)"
      by (metis prod.exhaust)
    obtain mid where mid: "tr3 = [EvAcquire (Some fence)] @ mid"
      "leased_trace hmac opts ?kind fence r mid"
      using leased_run_trace [OF run] by blast
    have step: "co_now (traced_ops ops) (w, []) = (now, w1, [])"
      "co_acquire (traced_ops ops) ?kind (op_Owner opts) now (op_LeaseDuration opts) (w1, []) =
        (Inr (fence, True), w2, [EvAcquire (Some fence)])"
      "co_release (traced_ops ops) ?kind (op_Owner opts) fence (w3, tr3) =
        (co_release ops ?kind (op_Owner opts) fence w3, tr3 @ [EvRelease fence])"
      using now acq granted by (simp_all add: traced_ops_def logged_def)
    have "out = r" and "tr = tr3 @ [EvRelease fence]"
      using assms unfolding collector_Run_def kind Let_def step prod.case by (simp_all add: step run)
    then show ?thesis
      using mid leased_trace_stored [OF mid(2)] by auto
  qed
qed

text \<open>A world with nothing in it and a source of one record show a run that commits.\<close>

abbreviation sample_ops :: "unit collector_ops" where
  "sample_ops \<equiv> \<lparr> co_now = (\<lambda>w. (7, w)), co_wait = (\<lambda>d w. (None, w)),
     co_acquire = (\<lambda>k own t d w. (Inr (''fence'', True), w)),
     co_renew = (\<lambda>k own fence t d w. (Inr True, w)), co_release = (\<lambda>k own fence w. w),
     co_cursor = (\<lambda>k w. (Inr 0, w)), co_generation = None, co_digest = None,
     co_commit = (\<lambda>c w. (Inr True, w)) \<rparr>"

abbreviation sample_run_adapter :: "unit source_adapter" where
  "sample_run_adapter \<equiv> \<lparr> sa_Kind = ''git'', sa_Collect = (\<lambda>req w.
     ((no_result\<lparr> rr_Records := [sample_evidence [] []], rr_NextCursor := 1 \<rparr>, None), w)) \<rparr>"

abbreviation sample_options :: collector_options where
  "sample_options \<equiv> \<lparr> op_Owner = ''me'', op_BatchLimit = 10, op_MaxAttempts = 1,
     op_LeaseDuration = 5, op_BaseBackoff = 1 \<rparr>"

theorem run_lease_discipline_witness:
  "\<exists>c mid. snd (snd (snd (collector_Run (\<lambda>k m. ''d'') (traced_ops sample_ops) sample_options
       (traced_adapter sample_run_adapter) [] ((), [])))) =
     [EvAcquire (Some ''fence'')] @ mid @ [EvRelease ''fence''] \<and>
     (\<exists>stored. EvCommit c (Inr stored) \<in> set mid)"
proof -
  define hm :: hmac_fun where "hm = (\<lambda>k m. ''d'')"
  obtain out q' w' tr where run: "collector_Run hm (traced_ops sample_ops) sample_options
      (traced_adapter sample_run_adapter) [] ((), []) = (out, q', w', tr)"
    by (metis prod.exhaust)
  have "out = (no_result\<lparr> rr_Records := [sample_evidence [] []], rr_NextCursor := 1 \<rparr>, None)"
    and "hd tr = EvAcquire (Some ''fence'')"
    using run by (auto simp: collector_Run_def leased_run_def commit_batch_def traced_defs
      optional_read_def batch_identity_ok Let_def)
  note out = this(1) and start = this(2)
  obtain fence mid where tr: "tr = [EvAcquire (Some fence)] @ mid @ [EvRelease fence]"
    and stored: "snd out = None \<and> rr_Records (fst out) \<noteq> [] \<longrightarrow>
      (\<exists>cursor stored. EvCommit (commit_of hm (sa_Kind sample_run_adapter) fence cursor (fst out)) (Inr stored) \<in> set mid)"
  proof -
    have "tr \<noteq> [EvAcquire None]"
      using start by auto
    then show thesis
      using run_lease_discipline [OF run] that by blast
  qed
  have "fence = ''fence''"
    using start tr by simp
  note tr = tr [unfolded this]
  have "snd out = None" "rr_Records (fst out) \<noteq> []"
    by (simp_all add: out)
  then obtain c stored where "EvCommit c (Inr stored) \<in> set mid"
    using stored by blast
  then show ?thesis
    unfolding run [unfolded hm_def] prod.sel using tr by blast
qed

end
