(* ===== verification/Go_Float.thy ===== *)
theory Go_Float
  imports Go_Num
begin

text \<open>
  \<open>float64\<close>: the special values of IEEE 754 and the finite ones by their rational value, with the
  operations of the language, which round to the nearest representable value and to an even last
  digit on a tie. The sign of zero is not represented: the program divides only by values it has
  checked, and asks for a sign only of values other than zero.
\<close>

datatype f64 = NaN | PosInf | NegInf | Fin rat

section \<open>Rounding\<close>

fun bit_length :: "nat \<Rightarrow> nat" where
  "bit_length n = (if n = 0 then 0 else Suc (bit_length (n div 2)))"

declare bit_length.simps [simp del]

text \<open>The exponent of the leading binary digit of a positive rational.\<close>

definition floor_log2 :: "rat \<Rightarrow> int" where
  "floor_log2 x =
     (let (p, q) = quotient_of x;
          k = int (bit_length (nat p)) - int (bit_length (nat q))
      in if 2 powi k \<le> x then k else k - 1)"

definition round_half_even :: "rat \<Rightarrow> int" where
  "round_half_even x =
     (let n = \<lfloor>x\<rfloor>; d = x - of_int n
      in if d < 1 / 2 then n else if 1 / 2 < d then n + 1 else if even n then n else n + 1)"

text \<open>The weight of the last digit: 53 significant digits, or the weight of a subnormal.\<close>

definition f64_unit :: "rat \<Rightarrow> rat" where
  "f64_unit x = 2 powi (max (- 1074) (floor_log2 x - 52))"

definition f64_limit :: rat where
  "f64_limit = 2 ^ 1024"

definition f64_round :: "rat \<Rightarrow> f64" where
  "f64_round x =
     (if x = 0 then Fin 0
      else (let u = f64_unit \<bar>x\<bar>; y = of_int (round_half_even (x / u)) * u
            in if f64_limit \<le> y then PosInf
               else if y \<le> - f64_limit then NegInf else Fin y))"

section \<open>Operations\<close>

fun f64_less :: "f64 \<Rightarrow> f64 \<Rightarrow> bool" where
  "f64_less (Fin a) (Fin b) = (a < b)"
| "f64_less (Fin a) PosInf = True"
| "f64_less NegInf (Fin b) = True"
| "f64_less NegInf PosInf = True"
| "f64_less x y = False"

definition f64_eq :: "f64 \<Rightarrow> f64 \<Rightarrow> bool" where
  "f64_eq x y \<longleftrightarrow> x \<noteq> NaN \<and> x = y"

definition f64_le :: "f64 \<Rightarrow> f64 \<Rightarrow> bool" where
  "f64_le x y \<longleftrightarrow> f64_less x y \<or> f64_eq x y"

fun f64_finite :: "f64 \<Rightarrow> bool" where
  "f64_finite (Fin a) = True"
| "f64_finite x = False"

definition f64_IsNaN :: "f64 \<Rightarrow> bool" where
  "f64_IsNaN x \<longleftrightarrow> x = NaN"

definition f64_IsInf :: "f64 \<Rightarrow> bool" where
  "f64_IsInf x \<longleftrightarrow> x = PosInf \<or> x = NegInf"

definition f64_of_int :: "int \<Rightarrow> f64" where
  "f64_of_int n = f64_round (of_int n)"

text \<open>The arithmetic operations over a rounding function; the language rounds by \<open>f64_round\<close>.\<close>

fun add_with :: "(rat \<Rightarrow> f64) \<Rightarrow> f64 \<Rightarrow> f64 \<Rightarrow> f64" where
  "add_with rnd (Fin a) (Fin b) = rnd (a + b)"
| "add_with rnd NaN y = NaN"
| "add_with rnd x NaN = NaN"
| "add_with rnd PosInf NegInf = NaN"
| "add_with rnd NegInf PosInf = NaN"
| "add_with rnd (Fin a) y = y"
| "add_with rnd x y = x"

fun f64_neg :: "f64 \<Rightarrow> f64" where
  "f64_neg (Fin a) = Fin (- a)"
| "f64_neg PosInf = NegInf"
| "f64_neg NegInf = PosInf"
| "f64_neg NaN = NaN"

definition sub_with :: "(rat \<Rightarrow> f64) \<Rightarrow> f64 \<Rightarrow> f64 \<Rightarrow> f64" where
  "sub_with rnd x y = add_with rnd x (f64_neg y)"

definition signed_inf :: "bool \<Rightarrow> f64" where
  "signed_inf positive = (if positive then PosInf else NegInf)"

fun f64_positive :: "f64 \<Rightarrow> bool" where
  "f64_positive (Fin a) = (0 \<le> a)"
| "f64_positive NegInf = False"
| "f64_positive x = True"

definition mul_with :: "(rat \<Rightarrow> f64) \<Rightarrow> f64 \<Rightarrow> f64 \<Rightarrow> f64" where
  "mul_with rnd x y =
     (case (x, y) of
        (Fin a, Fin b) \<Rightarrow> rnd (a * b)
      | _ \<Rightarrow> if x = NaN \<or> y = NaN \<or> x = Fin 0 \<or> y = Fin 0 then NaN
             else signed_inf (f64_positive x = f64_positive y))"

definition div_with :: "(rat \<Rightarrow> f64) \<Rightarrow> f64 \<Rightarrow> f64 \<Rightarrow> f64" where
  "div_with rnd x y =
     (case (x, y) of
        (Fin a, Fin b) \<Rightarrow> if b \<noteq> 0 then rnd (a / b) else if a = 0 then NaN else signed_inf (0 < a)
      | (Fin a, _) \<Rightarrow> if y = NaN then NaN else Fin 0
      | (_, Fin b) \<Rightarrow> if x = NaN then NaN else signed_inf (f64_positive x = f64_positive y)
      | _ \<Rightarrow> NaN)"

abbreviation f64_add :: "f64 \<Rightarrow> f64 \<Rightarrow> f64" where "f64_add \<equiv> add_with f64_round"
abbreviation f64_sub :: "f64 \<Rightarrow> f64 \<Rightarrow> f64" where "f64_sub \<equiv> sub_with f64_round"
abbreviation f64_mul :: "f64 \<Rightarrow> f64 \<Rightarrow> f64" where "f64_mul \<equiv> mul_with f64_round"
abbreviation f64_div :: "f64 \<Rightarrow> f64 \<Rightarrow> f64" where "f64_div \<equiv> div_with f64_round"

fun f64_abs :: "f64 \<Rightarrow> f64" where
  "f64_abs (Fin a) = Fin \<bar>a\<bar>"
| "f64_abs NaN = NaN"
| "f64_abs x = PosInf"

lemma f64_finite_iff: "f64_finite x \<longleftrightarrow> \<not> f64_IsNaN x \<and> \<not> f64_IsInf x"
  by (cases x) (simp_all add: f64_IsNaN_def f64_IsInf_def)

lemma f64_finite_Fin: "f64_finite x \<longleftrightarrow> (\<exists>a. x = Fin a)"
  by (cases x) simp_all

section \<open>Exact values\<close>

lemma bit_length_bounds: "0 < n \<Longrightarrow> 2 ^ (bit_length n - 1) \<le> n \<and> n < 2 ^ bit_length n"
proof (induction n rule: bit_length.induct)
  case (1 n)
  show ?case
  proof (cases "n div 2 = 0")
    case True
    then have "n = 1"
      using 1 by simp
    then show ?thesis
      by (simp add: bit_length.simps)
  next
    case False
    then have ih: "2 ^ (bit_length (n div 2) - 1) \<le> n div 2 \<and> n div 2 < 2 ^ bit_length (n div 2)"
      using 1 by auto
    have step: "bit_length n = Suc (bit_length (n div 2))"
      using 1 by (subst bit_length.simps) simp
    have "0 < bit_length (n div 2)"
      using False by (subst bit_length.simps) simp
    then obtain m where m: "bit_length (n div 2) = Suc m"
      by (metis gr0_conv_Suc)
    show ?thesis
      using ih unfolding step m by simp arith
  qed
qed

lemma round_half_even_int [simp]: "round_half_even (of_int n) = n"
  by (simp add: round_half_even_def)

text \<open>An integral multiple of the unit of its own magnitude is not changed by rounding.\<close>

lemma f64_round_exact:
  assumes "x = of_int n * f64_unit \<bar>x\<bar>" and "\<bar>x\<bar> < f64_limit"
  shows "f64_round x = Fin x"
proof (cases "x = 0")
  case False
  have u: "0 < f64_unit \<bar>x\<bar>"
    by (simp add: f64_unit_def)
  then have "x / f64_unit \<bar>x\<bar> = of_int n"
    using assms(1) by (metis nonzero_mult_div_cancel_right less_irrefl)
  then have "of_int (round_half_even (x / f64_unit \<bar>x\<bar>)) * f64_unit \<bar>x\<bar> = x"
    using assms(1) by simp
  then show ?thesis
    using False assms(2) by (auto simp: f64_round_def Let_def)
qed (simp add: f64_round_def)

lemma powi_pred: "0 < n \<Longrightarrow> (2 :: rat) powi (int n - 1) = of_nat (2 ^ (n - 1))"
  by (cases n) simp_all

lemma powi_diff_nat: "n \<le> m \<Longrightarrow> (2 :: rat) powi (int n - int m) = 1 / 2 ^ (m - n)"
  by (simp add: power_int_diff power_diff)

lemma floor_log2_nat:
  assumes "0 < m"
  shows "floor_log2 (of_nat m) = int (bit_length m) - 1"
proof -
  have "quotient_of (of_nat m) = (int m, 1)"
    using quotient_of_int [of "int m"] by (simp add: Rat.of_int_def)
  moreover have "bit_length (nat 1) = 1"
    by (simp add: bit_length.simps)
  moreover have "(2 :: rat) powi (int (bit_length m) - 1) \<le> of_nat m"
  proof -
    have "0 < bit_length m"
      using assms by (subst bit_length.simps) simp
    then have "(2 :: rat) powi (int (bit_length m) - 1) = of_nat (2 ^ (bit_length m - 1))"
      by (rule powi_pred)
    also have "\<dots> \<le> of_nat m"
      using bit_length_bounds [OF assms] of_nat_le_iff by blast
    finally show ?thesis .
  qed
  ultimately show ?thesis
    by (simp add: floor_log2_def)
qed

lemma f64_of_int_exact:
  assumes "\<bar>n\<bar> < 2 ^ 53"
  shows "f64_of_int n = Fin (of_int n)"
proof (cases "n = 0")
  case False
  define m where "m = nat \<bar>n\<bar>"
  have m: "0 < m" "m < 2 ^ 53" and abs: "\<bar>of_int n :: rat\<bar> = of_nat m"
    using False assms by (auto simp: m_def)
  have len: "bit_length m \<le> 53"
  proof (rule ccontr)
    assume "\<not> bit_length m \<le> 53"
    then have "(2 :: nat) ^ 53 \<le> 2 ^ (bit_length m - 1)"
      by (intro power_increasing) auto
    then show False
      using bit_length_bounds [OF m(1)] m(2) by linarith
  qed
  then have unit: "f64_unit (of_nat m) = 2 powi (int (bit_length m) - 53)"
    using floor_log2_nat [OF m(1)] by (simp add: f64_unit_def)
  have "(2 :: rat) powi (int (bit_length m) - 53) = 1 / 2 ^ (53 - bit_length m)"
    using powi_diff_nat [OF len] by simp
  then have "(of_int n :: rat) = of_int (n * 2 ^ (53 - bit_length m)) * f64_unit \<bar>of_int n\<bar>"
    using unit abs by simp
  moreover have "\<bar>of_int n :: rat\<bar> < f64_limit"
  proof -
    have "(of_nat m :: rat) < 2 ^ 53"
      using m(2) by (metis of_nat_less_iff of_nat_numeral of_nat_power)
    also have "(2 :: rat) ^ 53 \<le> 2 ^ 1024"
      by (intro power_increasing) auto
    finally show ?thesis
      using abs by (simp add: f64_limit_def)
  qed
  ultimately show ?thesis
    unfolding f64_of_int_def by (rule f64_round_exact)
qed (simp add: f64_of_int_def f64_round_def)

section \<open>Rounding is monotone\<close>

lemma round_half_even_upper: "x \<le> of_int n \<Longrightarrow> round_half_even x \<le> n"
proof -
  assume le: "x \<le> of_int n"
  then have "\<lfloor>x\<rfloor> \<le> n"
    by (metis floor_mono floor_of_int)
  moreover have "x = of_int n" if "\<lfloor>x\<rfloor> = n"
    using le that of_int_floor_le [of x] by simp
  ultimately show "round_half_even x \<le> n"
    unfolding round_half_even_def Let_def by (cases "\<lfloor>x\<rfloor> = n") auto
qed

lemma round_half_even_lower: "of_int n \<le> x \<Longrightarrow> n \<le> round_half_even x"
proof -
  assume "of_int n \<le> x"
  then have "n \<le> \<lfloor>x\<rfloor>"
    by (simp add: le_floor_iff)
  then show "n \<le> round_half_even x"
    unfolding round_half_even_def Let_def by auto
qed

lemma round_half_even_mono:
  assumes "x \<le> y"
  shows "round_half_even x \<le> round_half_even y"
proof (cases "\<lfloor>x\<rfloor> = \<lfloor>y\<rfloor>")
  case True
  then show ?thesis
    using assms unfolding round_half_even_def Let_def by auto
next
  case False
  then have "\<lfloor>x\<rfloor> + 1 \<le> \<lfloor>y\<rfloor>"
    using floor_mono [OF assms] by simp
  moreover have "x \<le> of_int (\<lfloor>x\<rfloor> + 1)" and "of_int \<lfloor>y\<rfloor> \<le> y"
    by linarith+
  ultimately show ?thesis
    using round_half_even_upper round_half_even_lower by (meson order_trans)
qed

lemma round_half_even_minus: "round_half_even (- x) = - round_half_even x"
proof (cases "of_int \<lfloor>x\<rfloor> = x")
  case True
  then show ?thesis
    by (metis of_int_minus round_half_even_int)
next
  case False
  then have "\<lfloor>- x\<rfloor> = - \<lfloor>x\<rfloor> - 1"
    by linarith
  then show ?thesis
    unfolding round_half_even_def Let_def by auto
qed

lemma floor_log2_bounds:
  assumes "0 < x"
  shows "2 powi floor_log2 x \<le> x \<and> x < 2 powi (floor_log2 x + 1)"
proof -
  obtain p q where pq: "quotient_of x = (p, q)"
    by (cases "quotient_of x")
  then have q: "0 < q" and x: "x = of_int p / of_int q"
    using quotient_of_denom_pos quotient_of_div by blast+
  then have p: "0 < p"
    using assms by (simp add: zero_less_divide_iff)
  define a b where "a = bit_length (nat p)" and "b = bit_length (nat q)"
  have bounds: "2 powi (int (bit_length (nat n)) - 1) \<le> (of_int n :: rat) \<and> (of_int n :: rat) < 2 powi int (bit_length (nat n))"
    if "0 < n" for n :: int
  proof -
    have "0 < bit_length (nat n)"
      using that by (subst bit_length.simps) simp
    then have e: "(2 :: rat) powi (int (bit_length (nat n)) - 1) = of_nat (2 ^ (bit_length (nat n) - 1))"
      by (rule powi_pred)
    have "(of_nat (2 ^ (bit_length (nat n) - 1)) :: rat) \<le> of_nat (nat n)"
      and "(of_nat (nat n) :: rat) < of_nat (2 ^ bit_length (nat n))"
      using bit_length_bounds [of "nat n"] that by (metis of_nat_le_iff of_nat_less_iff zero_less_nat_eq)+
    then show ?thesis
      using that e by simp
  qed
  have below: "2 powi (int a - int b - 1) < x"
  proof -
    have "(2 :: rat) powi (int a - int b - 1) = 2 powi (int a - 1) / 2 powi int b"
      by (simp add: power_int_diff)
    also have "\<dots> < of_int p / of_int q"
      using bounds [OF p] bounds [OF q] q
      by (intro frac_less2) (auto simp: a_def b_def)
    finally show ?thesis
      using x by simp
  qed
  have above: "x < 2 powi (int a - int b + 1)"
  proof -
    have "x < 2 powi int a / 2 powi (int b - 1)"
      unfolding x using bounds [OF p] bounds [OF q] p by (intro frac_less) (auto simp: a_def b_def)
    also have "\<dots> = 2 powi (int a - int b + 1)"
      by (simp add: power_int_diff power_int_add)
    finally show ?thesis .
  qed
  show ?thesis
    using below above unfolding floor_log2_def pq by (simp add: a_def b_def Let_def)
qed

lemma floor_log2_mono:
  assumes "0 < x" and "x \<le> y"
  shows "floor_log2 x \<le> floor_log2 y"
proof (rule ccontr)
  assume "\<not> floor_log2 x \<le> floor_log2 y"
  then have "(2 :: rat) powi (floor_log2 y + 1) \<le> 2 powi floor_log2 x"
    by (intro power_int_increasing) auto
  then show False
    using floor_log2_bounds [of x] floor_log2_bounds [of y] assms by linarith
qed

text \<open>The rounded value before the check for overflow.\<close>

definition rounded :: "rat \<Rightarrow> rat" where
  "rounded x = of_int (round_half_even (x / f64_unit x)) * f64_unit x"

lemma f64_unit_pos [simp]: "0 < f64_unit x" "0 \<le> f64_unit x"
  by (simp_all add: f64_unit_def)

lemma f64_limit_pos [simp]: "0 < f64_limit"
  by (simp add: f64_limit_def)

lemma powi_multiple:
  assumes "(e :: int) \<le> k"
  shows "(2 :: rat) powi k / 2 powi e = of_int (2 ^ nat (k - e))"
proof -
  have "(2 :: rat) powi k / 2 powi e = 2 powi (k - e)"
    by (simp add: power_int_diff)
  then show ?thesis
    using assms by (simp add: power_int_def)
qed

lemma rounded_mono:
  assumes "0 < x" and "x \<le> y"
  shows "rounded x \<le> rounded y"
proof -
  define ex ey where "ex = max (- 1074) (floor_log2 x - 52)" and "ey = max (- 1074) (floor_log2 y - 52)"
  have units: "f64_unit x = 2 powi ex" "f64_unit y = 2 powi ey" and "ex \<le> ey"
    using floor_log2_mono [OF assms] by (auto simp: f64_unit_def ex_def ey_def)
  show ?thesis
  proof (cases "ex = ey")
    case True
    have "x / 2 powi ey \<le> y / 2 powi ey"
      using assms(2) by (simp add: divide_right_mono)
    then show ?thesis
      using round_half_even_mono by (simp add: rounded_def units True)
  next
    case False
    define B :: rat where "B = 2 powi floor_log2 y"
    have ey: "ey = floor_log2 y - 52" and less: "floor_log2 x < floor_log2 y"
      using False \<open>ex \<le> ey\<close> by (auto simp: ex_def ey_def split: if_splits)
    have "x \<le> B"
    proof -
      have "(2 :: rat) powi (floor_log2 x + 1) \<le> B"
        using less unfolding B_def by (intro power_int_increasing) auto
      then show ?thesis
        using floor_log2_bounds [OF assms(1)] by linarith
    qed
    have mult: "B / 2 powi e = of_int (2 ^ nat (floor_log2 y - e))" if "e \<le> ey" for e
      unfolding B_def using that ey by (intro powi_multiple) simp
    have restore: "of_int (2 ^ nat (floor_log2 y - e)) * 2 powi e = B" if "e \<le> ey" for e
      unfolding mult [OF that, symmetric] by simp
    have "x / 2 powi ex \<le> B / 2 powi ex"
      using \<open>x \<le> B\<close> by (simp add: divide_right_mono)
    then have "round_half_even (x / 2 powi ex) \<le> 2 ^ nat (floor_log2 y - ex)"
      unfolding mult [OF \<open>ex \<le> ey\<close>] by (rule round_half_even_upper)
    then have "(of_int (round_half_even (x / 2 powi ex)) :: rat) \<le> of_int (2 ^ nat (floor_log2 y - ex))"
      by (simp only: of_int_le_iff)
    then have "rounded x \<le> B"
      unfolding rounded_def units restore [OF \<open>ex \<le> ey\<close>, symmetric] by (rule mult_right_mono) simp
    moreover have "B \<le> rounded y"
    proof -
      have "B / 2 powi ey \<le> y / 2 powi ey"
        using floor_log2_bounds [of y] assms by (simp add: B_def divide_right_mono)
      then have "2 ^ nat (floor_log2 y - ey) \<le> round_half_even (y / 2 powi ey)"
        unfolding mult [OF order_refl] by (rule round_half_even_lower)
      then have "(of_int (2 ^ nat (floor_log2 y - ey)) :: rat) \<le> of_int (round_half_even (y / 2 powi ey))"
        by (simp only: of_int_le_iff)
      then show ?thesis
        unfolding rounded_def units restore [OF order_refl, symmetric] by (rule mult_right_mono) simp
    qed
    ultimately show ?thesis
      by simp
  qed
qed

text \<open>The values a \<open>float64\<close> can hold.\<close>

definition f64_rep :: "rat \<Rightarrow> bool" where
  "f64_rep a \<longleftrightarrow> f64_round a = Fin a"

lemma rounded_nonneg:
  assumes "0 < x"
  shows "0 \<le> rounded x"
proof -
  have "0 \<le> x / f64_unit x"
    using assms by (intro divide_nonneg_pos) simp_all
  then have "0 \<le> round_half_even (x / f64_unit x)"
    using round_half_even_lower [of 0] by simp
  then show ?thesis
    by (simp add: rounded_def)
qed

lemma f64_round_pos:
  "0 < x \<Longrightarrow> f64_round x = (if f64_limit \<le> rounded x then PosInf else Fin (rounded x))"
  using rounded_nonneg [of x] f64_limit_pos by (auto simp: f64_round_def rounded_def Let_def)

lemma f64_round_minus: "f64_round (- x) = f64_neg (f64_round x)"
proof -
  define y where "y = of_int (round_half_even (x / f64_unit \<bar>x\<bar>)) * f64_unit \<bar>x\<bar>"
  have "of_int (round_half_even (- x / f64_unit \<bar>x\<bar>)) * f64_unit \<bar>x\<bar> = - y"
    using round_half_even_minus [of "x / f64_unit \<bar>x\<bar>"] by (simp add: y_def)
  moreover have "\<not> (f64_limit \<le> y \<and> f64_limit \<le> - y)"
    using f64_limit_pos by linarith
  ultimately show ?thesis
    unfolding f64_round_def Let_def abs_minus_cancel y_def [symmetric] by (auto simp: y_def)
qed

lemma f64_rep_zero [simp]: "f64_rep 0"
  by (simp add: f64_rep_def f64_round_def)

lemma f64_rep_minus [simp]: "f64_rep (- a) \<longleftrightarrow> f64_rep a"
  by (cases "f64_round a") (auto simp: f64_rep_def f64_round_minus)

lemma f64_rep_int: "\<bar>n\<bar> < 2 ^ 53 \<Longrightarrow> f64_rep (of_int n)"
  using f64_of_int_exact by (simp add: f64_rep_def f64_of_int_def)

lemma rounded_between:
  assumes "0 < x" and "0 \<le> a" and "f64_rep a" and "f64_rep b" and "a \<le> x" and "x \<le> b"
  shows "a \<le> rounded x \<and> rounded x \<le> b \<and> rounded b = b \<and> rounded x < f64_limit"
proof -
  have b: "rounded b = b" "b < f64_limit"
    using assms f64_round_pos [of b] by (auto simp: f64_rep_def split: if_splits)
  have "a \<le> rounded x"
  proof (cases "a = 0")
    case False
    then have "rounded a = a"
      using assms f64_round_pos [of a] by (auto simp: f64_rep_def split: if_splits)
    then show ?thesis
      using rounded_mono [of a x] False assms by simp
  qed (use rounded_nonneg assms in simp)
  then show ?thesis
    using b rounded_mono [OF assms(1,6)] by linarith
qed

text \<open>A rounded value stays between representable bounds.\<close>

lemma f64_round_between:
  assumes "f64_rep a" and "f64_rep b" and "a \<le> x" and "x \<le> b"
  shows "\<exists>y. f64_round x = Fin y \<and> a \<le> y \<and> y \<le> b"
proof -
  have main: "\<exists>y. f64_round x = Fin y \<and> max a 0 \<le> y \<and> y \<le> b"
    if "f64_rep a" "f64_rep b" "a \<le> x" "x \<le> b" "0 < x" for a b x
  proof -
    have "f64_rep (max a 0)"
      using that by (auto simp: max_def)
    then show ?thesis
      using rounded_between [of x "max a 0" b] f64_round_pos [of x] that by auto
  qed
  consider "0 < x" | "x = 0" | "x < 0"
    by linarith
  then show ?thesis
  proof cases
    case 1
    then show ?thesis
      using main [OF assms] by auto
  next
    case 2
    then show ?thesis
      using assms by (simp add: f64_round_def)
  next
    case 3
    then obtain y where "f64_round (- x) = Fin y" and "- b \<le> y" and "y \<le> - a"
      using main [of "- b" "- a" "- x"] assms by auto
    then show ?thesis
      using f64_round_minus [of "- x"] by (intro exI [of _ "- y"]) auto
  qed
qed

section \<open>Counts and their ratios\<close>

lemma f64_rep_power:
  assumes "k < 1024"
  shows "f64_rep (2 ^ k)"
proof -
  have "floor_log2 (2 ^ k :: rat) = int k"
  proof -
    have "(2 :: rat) powi floor_log2 (2 ^ k) \<le> 2 powi int k" and
      "(2 :: rat) powi int k < 2 powi (floor_log2 (2 ^ k) + 1)"
      using floor_log2_bounds [of "2 ^ k"] by simp_all
    then have "\<not> int k + 1 \<le> floor_log2 (2 ^ k :: rat)" and "\<not> floor_log2 (2 ^ k :: rat) + 1 \<le> int k"
      using power_int_increasing [of "int k + 1" "floor_log2 (2 ^ k)" "2 :: rat"]
        power_int_increasing [of "floor_log2 (2 ^ k) + 1" "int k" "2 :: rat"]
      by (auto simp: power_int_add)
    then show ?thesis
      by simp
  qed
  then have unit: "f64_unit \<bar>2 ^ k\<bar> = 2 powi (int k - 52)"
    by (simp add: f64_unit_def)
  have "(2 ^ k :: rat) = of_int (2 ^ 52) * f64_unit \<bar>2 ^ k\<bar>"
    unfolding unit by (simp add: power_int_diff)
  moreover have "\<bar>2 ^ k :: rat\<bar> < f64_limit"
    unfolding f64_limit_def using power_strict_increasing [OF assms, of "2 :: rat"] by simp
  ultimately show ?thesis
    unfolding f64_rep_def by (rule f64_round_exact)
qed

lemma f64_of_int_mono:
  assumes "0 \<le> a" and "a \<le> b" and "b \<le> max_int64"
  shows "\<exists>x y. f64_of_int a = Fin x \<and> f64_of_int b = Fin y \<and> 0 \<le> x \<and> x \<le> y \<and> (0 < b \<longrightarrow> 1 \<le> y)"
proof (cases "a = 0")
  case True
  have "f64_rep (if 0 < b then 1 else 0)" and "f64_rep (2 ^ 63)"
    using f64_rep_int [of 1] f64_rep_power [of 63] by auto
  moreover have "(if 0 < b then 1 else 0) \<le> (of_int b :: rat)" and "of_int b \<le> (2 ^ 63 :: rat)"
    using assms by (auto simp: max_int64_def)
  ultimately obtain y where "f64_round (of_int b) = Fin y" and "(if 0 < b then 1 else 0) \<le> y"
    using f64_round_between by blast
  then show ?thesis
    using True by (auto simp: f64_of_int_def f64_round_def split: if_splits)
next
  case False
  have rep: "f64_rep 1" "f64_rep (2 ^ 63)"
    using f64_rep_int [of 1] f64_rep_power [of 63] by auto
  have ab: "1 \<le> (of_int a :: rat)" "(of_int a :: rat) \<le> of_int b" "(of_int b :: rat) \<le> 2 ^ 63"
    using assms False by (auto simp: max_int64_def)
  obtain x y where x: "f64_round (of_int a) = Fin x" "1 \<le> x" and y: "f64_round (of_int b) = Fin y" "1 \<le> y"
    using f64_round_between [OF rep, of "of_int a"] f64_round_between [OF rep, of "of_int b"] ab
    by (meson order_trans)
  moreover have "x \<le> y"
    using rounded_mono [of "of_int a" "of_int b"] f64_round_pos [of "of_int a"] f64_round_pos [of "of_int b"]
      x y ab by (auto split: if_splits)
  ultimately show ?thesis
    by (auto simp: f64_of_int_def)
qed

text \<open>The share of a part in a total lies between zero and one.\<close>

lemma f64_share:
  assumes "0 \<le> a" and "a \<le> b" and "0 < b" and "b \<le> max_int64"
  shows "\<exists>v. f64_div (f64_of_int a) (f64_of_int b) = Fin v \<and> 0 \<le> v \<and> v \<le> 1"
proof -
  obtain x y where xy: "f64_of_int a = Fin x" "f64_of_int b = Fin y" "0 \<le> x" "x \<le> y" "1 \<le> y"
    using f64_of_int_mono [OF assms(1,2,4)] assms(3) by auto
  then have "0 \<le> x / y" and "x / y \<le> 1"
    by (auto simp: divide_le_eq_1)
  then obtain v where "f64_round (x / y) = Fin v" "0 \<le> v" "v \<le> 1"
    using f64_round_between [of 0 1 "x / y"] f64_rep_int [of 1] by auto
  then show ?thesis
    using xy by (auto simp: div_with_def)
qed

lemma f64_percent:
  assumes "0 \<le> v" and "v \<le> 1"
  shows "\<exists>w. f64_mul (Fin v) (Fin 100) = Fin w \<and> 0 \<le> w \<and> w \<le> 100"
  using f64_round_between [of 0 100 "v * 100"] f64_rep_int [of 100] assms
  by (auto simp: mul_with_def)

end
