(* ===== verification/Collector_Backend.thy ===== *)
theory Collector_Backend
  imports Collector Go_Float
begin

text \<open>
  \<open>internal/collector/postgres.go\<close> and the row types of \<open>internal/store/postgres/repository.go\<close>
  it fills: the translation of a collector commit into the rows of one collection batch. SHA-256,
  RFC 3339 and decimal float parsing are the fields of an environment; the repository the batch is
  handed to is an argument.
\<close>

record backend_env =
  be_sha256 :: "string \<Rightarrow> string"
  be_parse_float :: "string \<Rightarrow> f64 option"
  be_parse_time :: "string \<Rightarrow> go_time option"

record plan_snapshot =
  ps_Hash :: string
  ps_PhaseScope :: string
  ps_ApprovalBoundary :: string

record budget_snapshot =
  bs_Enforcement :: string
  bs_MaxToolLoops :: "int option"
  bs_MaxRetries :: "int option"
  bs_MaxRetrievalExpansions :: "int option"
  bs_DelegationPolicy :: string
  bs_MaxAgentDepth :: "int option"
  bs_MaxConcurrency :: "int option"
  bs_ContextMode :: string
  bs_ExhaustionOutcome :: string

record policy_snapshot =
  po_SchemaVersion :: string
  po_Hash :: string
  po_RawRetentionEnabled :: bool
  po_TelemetryEnabled :: bool

record host_capability_snapshot =
  hc_HostKind :: string
  hc_HostVersion :: string
  hc_CapabilityName :: string
  hc_CapabilityState :: string

record runtime_observation =
  rt_Phase :: string
  rt_PhaseEvent :: string
  rt_ResponseEvent :: string
  rt_TaskAttribution :: string
  rt_ModelVariant :: string
  rt_ReasoningEffort :: string
  rt_ReasoningMode :: string
  rt_Verbosity :: string
  rt_ServiceMode :: string
  rt_SafeguardOutcome :: string
  rt_ToolOutcome :: string
  rt_ResultState :: string
  rt_CanonicalCallHash :: string
  rt_StateEpochID :: string
  rt_StateEpochHash :: string
  rt_MutationState :: string
  rt_OutputModality :: string
  rt_OutputSizeBytes :: "int option"
  rt_WaitState :: string
  rt_UsageKind :: string
  rt_UsageValue :: "f64 option"
  rt_UsageUnit :: string
  rt_AccountingRegime :: string
  rt_CacheKind :: string
  rt_CacheValue :: "f64 option"
  rt_CacheMode :: string
  rt_CacheTTLSeconds :: "int option"
  rt_CheckpointEvent :: string
  rt_BoundaryEvent :: string
  rt_DelegationEvent :: string
  rt_StopEvent :: string
  rt_CompactionEvent :: string
  rt_Plan :: "plan_snapshot option"
  rt_Budget :: "budget_snapshot option"
  rt_Policy :: "policy_snapshot option"
  rt_HostCapability :: "host_capability_snapshot option"
  rt_AttributionConfidence :: "f64 option"
  rt_AttributionValidTo :: "go_time option"
  rt_GovernanceOverhead :: bool

record evidence_row =
  er_ID :: string
  er_SourceID :: string
  er_ProjectID :: "string option"
  er_SessionID :: "string option"
  er_ExternalAliasID :: "string option"
  er_SchemaVersion :: string
  er_SourceVersion :: string
  er_ContentHash :: string
  er_ContentLength :: int
  er_Classification :: string
  er_RedactionState :: string
  er_CoverageState :: string
  er_Provenance :: string
  er_ProductSurface :: string
  er_ObservedAt :: go_time
  er_RetainedUntil :: "go_time option"
  er_Lineage :: lineage
  er_Runtime :: runtime_observation

record collection_batch =
  cb_BatchID :: string
  cb_CursorID :: string
  cb_SourceID :: string
  cb_Next :: nat
  cb_Generation :: string
  cb_CursorDigest :: string
  cb_Fence :: string
  cb_ObservedAt :: go_time
  cb_Evidence :: "evidence_row list"

record persistent_source =
  sr_SourceID :: string
  sr_CursorID :: string
  sr_ProjectID :: string

section \<open>Parsing attributes\<close>

definition hex_value :: "char \<Rightarrow> nat option" where
  "hex_value c =
     (if 48 \<le> byte c \<and> byte c \<le> 57 then Some (byte c - 48)
      else if 97 \<le> byte c \<and> byte c \<le> 102 then Some (byte c - 87)
      else if 65 \<le> byte c \<and> byte c \<le> 70 then Some (byte c - 55)
      else None)"

fun hex_decode :: "string \<Rightarrow> string option" where
  "hex_decode [] = Some []"
| "hex_decode [c] = None"
| "hex_decode (a # b # s) =
     (case (hex_value a, hex_value b, hex_decode s) of
        (Some x, Some y, Some r) \<Rightarrow> Some (char_of (16 * x + y) # r)
      | _ \<Rightarrow> None)"

definition parse_bool :: "string \<Rightarrow> bool option" where
  "parse_bool s =
     (if s \<in> {''1'', ''t'', ''T'', ''true'', ''TRUE'', ''True''} then Some True
      else if s \<in> {''0'', ''f'', ''F'', ''false'', ''FALSE'', ''False''} then Some False
      else None)"

definition parseDigest :: "string \<Rightarrow> string option" where
  "parseDigest v = (case hex_decode v of
     None \<Rightarrow> None
   | Some digest \<Rightarrow> if length digest \<noteq> 32 then None else Some digest)"

definition anyAttribute :: "attributes \<Rightarrow> string list \<Rightarrow> bool" where
  "anyAttribute attrs names \<longleftrightarrow> list_ex (\<lambda>name. attr attrs name \<noteq> '''') names"

definition parseOptionalInt :: "string \<Rightarrow> string + int option" where
  "parseOptionalInt v =
     (if v = '''' then Inr None
      else case parse_int64 v of
          None \<Rightarrow> Inl ''invalid nonnegative integer''
        | Some n \<Rightarrow> if n < 0 then Inl ''invalid nonnegative integer'' else Inr (Some n))"

definition parseOptionalFloat :: "backend_env \<Rightarrow> string \<Rightarrow> string + f64 option" where
  "parseOptionalFloat env v =
     (if v = '''' then Inr None
      else case be_parse_float env v of
          None \<Rightarrow> Inl ''invalid nonnegative number''
        | Some x \<Rightarrow>
            if f64_less x (Fin 0) \<or> f64_IsNaN x \<or> f64_IsInf x
            then Inl ''invalid nonnegative number'' else Inr (Some x))"

definition or_error :: "string \<Rightarrow> string + 'a \<Rightarrow> string + 'a" where
  "or_error msg r = (case r of Inl _ \<Rightarrow> Inl msg | Inr v \<Rightarrow> Inr v)"

definition set_version_bits :: "string \<Rightarrow> string" where
  "set_version_bits d =
     (d[6 := char_of (byte (d ! 6) mod 16 + 64)])[8 := char_of (byte (d ! 8) mod 64 + 128)]"

definition deterministicUUID :: "backend_env \<Rightarrow> string \<Rightarrow> string" where
  "deterministicUUID env v =
     (let t = hex_encode (take 16 (set_version_bits (be_sha256 env v)))
      in take 8 t @ ''-'' @ take 4 (drop 8 t) @ ''-'' @ take 4 (drop 12 t) @ ''-'' @
         take 4 (drop 16 t) @ ''-'' @ drop 20 t)"

definition lineageUUID :: "backend_env \<Rightarrow> string \<Rightarrow> string" where
  "lineageUUID env v = (if v = '''' then '''' else deterministicUUID env v)"

definition redactionState :: "string list \<Rightarrow> string" where
  "redactionState redacted = (if redacted \<noteq> [] then ''applied'' else ''not_needed'')"

section \<open>Replay snapshots\<close>

definition plan_attributes :: "string list" where
  "plan_attributes = [''plan_hash'', ''plan_phase_scope'', ''approval_boundary_class'']"

definition parse_plan :: "attributes \<Rightarrow> string + plan_snapshot option" where
  "parse_plan attrs =
     (if anyAttribute attrs plan_attributes
      then case parseDigest (attr attrs ''plan_hash'') of
          None \<Rightarrow> Inl ''invalid plan snapshot''
        | Some hash \<Rightarrow>
            if attr attrs ''plan_phase_scope'' = '''' \<or> attr attrs ''approval_boundary_class'' = ''''
            then Inl ''invalid plan snapshot''
            else Inr (Some \<lparr> ps_Hash = hash, ps_PhaseScope = attr attrs ''plan_phase_scope'',
                             ps_ApprovalBoundary = attr attrs ''approval_boundary_class'' \<rparr>)
      else Inr None)"

definition budget_attributes :: "string list" where
  "budget_attributes =
     [''budget_enforcement'', ''budget_max_tool_loops'', ''budget_max_retries'',
      ''budget_max_retrieval_expansions'', ''budget_delegation_policy'', ''budget_max_agent_depth'',
      ''budget_max_concurrency'', ''budget_context_mode'', ''budget_exhaustion_outcome'']"

definition parse_budget ::
  "attributes \<Rightarrow> plan_snapshot option \<Rightarrow> string + budget_snapshot option" where
  "parse_budget attrs plan =
     (if anyAttribute attrs budget_attributes
      then bind_result (guard_result
             (plan = None \<or> attr attrs ''budget_enforcement'' = '''' \<or>
              attr attrs ''budget_delegation_policy'' = '''' \<or>
              attr attrs ''budget_exhaustion_outcome'' = '''') ''invalid budget snapshot'')
        (\<lambda>_. or_error ''invalid budget snapshot''
          (bind_result (parseOptionalInt (attr attrs ''budget_max_tool_loops'')) (\<lambda>loops.
           bind_result (parseOptionalInt (attr attrs ''budget_max_retries'')) (\<lambda>retries.
           bind_result (parseOptionalInt (attr attrs ''budget_max_retrieval_expansions'')) (\<lambda>expansions.
           bind_result (parseOptionalInt (attr attrs ''budget_max_agent_depth'')) (\<lambda>depth.
           bind_result (parseOptionalInt (attr attrs ''budget_max_concurrency'')) (\<lambda>concurrency.
           bind_result (guard_result
             (case concurrency of None \<Rightarrow> False | Some n \<Rightarrow> n < 1) ''invalid budget snapshot'') (\<lambda>_.
             Inr (Some \<lparr> bs_Enforcement = attr attrs ''budget_enforcement'',
               bs_MaxToolLoops = loops, bs_MaxRetries = retries,
               bs_MaxRetrievalExpansions = expansions,
               bs_DelegationPolicy = attr attrs ''budget_delegation_policy'',
               bs_MaxAgentDepth = depth, bs_MaxConcurrency = concurrency,
               bs_ContextMode = attr attrs ''budget_context_mode'',
               bs_ExhaustionOutcome = attr attrs ''budget_exhaustion_outcome'' \<rparr>)))))))))
      else Inr None)"

definition policy_attributes :: "string list" where
  "policy_attributes =
     [''policy_schema_version'', ''policy_hash'', ''raw_prompt_retention'', ''telemetry'']"

definition parse_policy :: "attributes \<Rightarrow> string + policy_snapshot option" where
  "parse_policy attrs =
     (if anyAttribute attrs policy_attributes
      then case (parseDigest (attr attrs ''policy_hash''),
                 parse_bool (attr attrs ''raw_prompt_retention''),
                 parse_bool (attr attrs ''telemetry'')) of
          (Some hash, Some rawRetention, Some telemetry) \<Rightarrow>
            if attr attrs ''policy_schema_version'' = '''' then Inl ''invalid policy snapshot''
            else Inr (Some \<lparr> po_SchemaVersion = attr attrs ''policy_schema_version'', po_Hash = hash,
                             po_RawRetentionEnabled = rawRetention, po_TelemetryEnabled = telemetry \<rparr>)
        | _ \<Rightarrow> Inl ''invalid policy snapshot''
      else Inr None)"

definition host_attributes :: "string list" where
  "host_attributes =
     [''host_kind'', ''host_version'', ''host_capability_name'', ''host_capability_state'']"

definition parse_host :: "attributes \<Rightarrow> string + host_capability_snapshot option" where
  "parse_host attrs =
     (if anyAttribute attrs host_attributes
      then if attr attrs ''host_capability_name'' = '''' \<or> attr attrs ''host_capability_state'' = ''''
           then Inl ''invalid host capability snapshot''
           else Inr (Some \<lparr> hc_HostKind = attr attrs ''host_kind'',
                            hc_HostVersion = attr attrs ''host_version'',
                            hc_CapabilityName = attr attrs ''host_capability_name'',
                            hc_CapabilityState = attr attrs ''host_capability_state'' \<rparr>)
      else Inr None)"

definition parse_confidence :: "backend_env \<Rightarrow> attributes \<Rightarrow> string \<Rightarrow> string + f64 option" where
  "parse_confidence env attrs attribution =
     (let v = attr attrs ''project_attribution_confidence''
      in if v \<noteq> ''''
         then case parseOptionalFloat env v of
             Inr (Some confidence) \<Rightarrow>
               if f64_less (Fin 1) confidence \<or> attribution = ''''
               then Inl ''invalid project attribution'' else Inr (Some confidence)
           | _ \<Rightarrow> Inl ''invalid project attribution''
         else Inr None)"

definition parse_valid_to ::
  "backend_env \<Rightarrow> attributes \<Rightarrow> go_time \<Rightarrow> string \<Rightarrow> string + go_time option" where
  "parse_valid_to env attrs observedAt attribution =
     (let v = attr attrs ''project_attribution_valid_to''
      in if v \<noteq> ''''
         then case be_parse_time env v of
             Some validTo \<Rightarrow>
               if \<not> observedAt < validTo \<or> attribution = ''''
               then Inl ''invalid project attribution'' else Inr (Some validTo)
           | None \<Rightarrow> Inl ''invalid project attribution''
         else Inr None)"

definition record_attributes :: "evidence_record \<Rightarrow> attributes" where
  "record_attributes r = (case ev_Attributes r of None \<Rightarrow> [] | Some m \<Rightarrow> m)"

definition parseReplaySnapshots ::
  "backend_env \<Rightarrow> evidence_record \<Rightarrow> runtime_observation \<Rightarrow> string + runtime_observation" where
  "parseReplaySnapshots env r runtime =
     (let attrs = record_attributes r in
      bind_result (parse_plan attrs) (\<lambda>plan.
      bind_result (parse_budget attrs plan) (\<lambda>budget.
      bind_result (parse_policy attrs) (\<lambda>policy.
      bind_result (parse_host attrs) (\<lambda>host.
      bind_result (parse_confidence env attrs (rt_TaskAttribution runtime)) (\<lambda>confidence.
      bind_result (parse_valid_to env attrs (ev_ObservedAt r) (rt_TaskAttribution runtime)) (\<lambda>validTo.
        Inr (runtime\<lparr> rt_Plan := plan, rt_Budget := budget, rt_Policy := policy,
                      rt_HostCapability := host, rt_AttributionConfidence := confidence,
                      rt_AttributionValidTo := validTo \<rparr>))))))))"

definition initial_observation :: "backend_env \<Rightarrow> evidence_record \<Rightarrow> runtime_observation" where
  "initial_observation env r =
     (let a = attr (record_attributes r) in
      \<lparr> rt_Phase = a ''phase'', rt_PhaseEvent = a ''phase_event'',
        rt_ResponseEvent = a ''response_event'', rt_TaskAttribution = a ''task_attribution_state'',
        rt_ModelVariant = a ''model_variant'', rt_ReasoningEffort = a ''reasoning_effort'',
        rt_ReasoningMode = a ''reasoning_mode'', rt_Verbosity = a ''verbosity'',
        rt_ServiceMode = a ''service_mode'', rt_SafeguardOutcome = a ''safeguard_outcome'',
        rt_ToolOutcome = a ''tool_outcome'', rt_ResultState = a ''result_state'',
        rt_CanonicalCallHash =
          (if a ''canonical_call'' \<noteq> '''' then be_sha256 env (a ''canonical_call'') else ''''),
        rt_StateEpochID =
          (if a ''state_epoch'' \<noteq> '''' then deterministicUUID env (a ''state_epoch'') else ''''),
        rt_StateEpochHash =
          (if a ''state_epoch'' \<noteq> '''' then be_sha256 env (a ''state_epoch'') else ''''),
        rt_MutationState = a ''mutation_state'', rt_OutputModality = a ''output_modality'',
        rt_OutputSizeBytes = None, rt_WaitState = a ''wait_state'',
        rt_UsageKind = a ''usage_kind'', rt_UsageValue = None, rt_UsageUnit = a ''usage_unit'',
        rt_AccountingRegime = a ''accounting_regime'', rt_CacheKind = a ''cache_kind'',
        rt_CacheValue = None, rt_CacheMode = a ''cache_mode'', rt_CacheTTLSeconds = None,
        rt_CheckpointEvent = a ''checkpoint_event'', rt_BoundaryEvent = a ''boundary_event'',
        rt_DelegationEvent = a ''delegation_event'', rt_StopEvent = a ''stop_event'',
        rt_CompactionEvent = a ''compaction_event'', rt_Plan = None, rt_Budget = None,
        rt_Policy = None, rt_HostCapability = None, rt_AttributionConfidence = None,
        rt_AttributionValidTo = None, rt_GovernanceOverhead = ev_GovernanceOverhead r \<rparr>)"

definition runtimeObservation ::
  "backend_env \<Rightarrow> evidence_record \<Rightarrow> string + runtime_observation" where
  "runtimeObservation env r =
     (let a = attr (record_attributes r) in
      bind_result (or_error ''invalid output size'' (parseOptionalInt (a ''output_size_bytes''))) (\<lambda>size.
      bind_result (or_error ''invalid cache ttl'' (parseOptionalInt (a ''cache_ttl''))) (\<lambda>ttl.
      bind_result (or_error ''invalid usage value'' (parseOptionalFloat env (a ''usage_value''))) (\<lambda>usage.
      bind_result (or_error ''invalid cache value'' (parseOptionalFloat env (a ''cache_value''))) (\<lambda>cache.
        parseReplaySnapshots env r ((initial_observation env r)\<lparr> rt_OutputSizeBytes := size,
          rt_CacheTTLSeconds := ttl, rt_UsageValue := usage, rt_CacheValue := cache \<rparr>))))))"

section \<open>The commit\<close>

definition row_lineage :: "backend_env \<Rightarrow> lineage \<Rightarrow> lineage" where
  "row_lineage env l =
     \<lparr> li_SessionID = lineageUUID env (li_SessionID l),
       li_TrajectoryID = lineageUUID env (li_TrajectoryID l),
       li_ParentTrajectoryID = lineageUUID env (li_ParentTrajectoryID l),
       li_TaskID = lineageUUID env (li_TaskID l),
       li_TurnID = lineageUUID env (li_TurnID l),
       li_TurnOrdinal = li_TurnOrdinal l,
       li_ResponseID = lineageUUID env (li_ResponseID l),
       li_ParentResponseID = lineageUUID env (li_ParentResponseID l),
       li_ToolCallID = lineageUUID env (li_ToolCallID l),
       li_CallerToolCallID = lineageUUID env (li_CallerToolCallID l),
       li_ToolKind = li_ToolKind l,
       li_CallPath = li_CallPath l \<rparr>"

definition commit_row :: "backend_env \<Rightarrow> persistent_source \<Rightarrow> evidence_record \<Rightarrow> string + evidence_row" where
  "commit_row env src r =
     (case hex_decode (ev_ContentSHA256 r) of
        None \<Rightarrow> Inl ''invalid evidence digest''
      | Some hash \<Rightarrow>
          bind_result (runtimeObservation env r) (\<lambda>runtime.
            let rid = deterministicUUID env (ev_ID r);
                lin = row_lineage env (ev_Lineage r)
            in Inr \<lparr> er_ID = rid, er_SourceID = sr_SourceID src,
                     er_ProjectID = (if sr_ProjectID src \<noteq> '''' then Some (sr_ProjectID src) else None),
                     er_SessionID = (if li_SessionID lin \<noteq> '''' then Some (li_SessionID lin) else None),
                     er_ExternalAliasID = Some rid, er_SchemaVersion = ''1.0.0'',
                     er_SourceVersion = ev_SourceVersion r, er_ContentHash = hash,
                     er_ContentLength = int (length (record_attributes r)),
                     er_Classification = ev_Classification r,
                     er_RedactionState = redactionState
                       (case ev_RedactedFields r of None \<Rightarrow> [] | Some fs \<Rightarrow> fs),
                     er_CoverageState = ev_Coverage r, er_Provenance = ''runtime_observed'',
                     er_ProductSurface = ev_ProductSurface r, er_ObservedAt = ev_ObservedAt r,
                     er_RetainedUntil = None, er_Lineage = lin, er_Runtime = runtime \<rparr>))"

fun commit_rows ::
  "backend_env \<Rightarrow> persistent_source \<Rightarrow> evidence_record list \<Rightarrow> string + evidence_row list" where
  "commit_rows env src [] = Inr []"
| "commit_rows env src (r # rs) =
     bind_result (commit_row env src r) (\<lambda>row.
     bind_result (commit_rows env src rs) (\<lambda>rows. Inr (row # rows)))"

definition backend_source ::
  "(string \<Rightarrow> persistent_source option) \<Rightarrow> string \<Rightarrow> string + persistent_source" where
  "backend_source sources kind =
     (case sources kind of None \<Rightarrow> Inl ''source mapping unavailable'' | Some src \<Rightarrow> Inr src)"

definition backend_Commit ::
  "backend_env \<Rightarrow> (string \<Rightarrow> persistent_source option) \<Rightarrow>
     (collection_batch \<Rightarrow> 'w \<Rightarrow> (string + bool) \<times> 'w) \<Rightarrow> go_time \<Rightarrow> collector_commit \<Rightarrow> 'w \<Rightarrow>
     (string + bool) \<times> 'w" where
  "backend_Commit env sources commitCollection now commit w =
     (case bind_result (backend_source sources (cm_SourceKind commit)) (\<lambda>src.
             bind_result (commit_rows env src (cm_Records commit)) (\<lambda>rows.
               Inr \<lparr> cb_BatchID = cm_BatchID commit, cb_CursorID = sr_CursorID src,
                     cb_SourceID = sr_SourceID src, cb_Next = cm_Cursor commit,
                     cb_Generation = cm_Generation commit, cb_CursorDigest = cm_CursorDigest commit,
                     cb_Fence = cm_Fence commit,
                     cb_ObservedAt = (case cm_Records commit of [] \<Rightarrow> now | r # _ \<Rightarrow> ev_IngestedAt r),
                     cb_Evidence = rows \<rparr>)) of
        Inl e \<Rightarrow> (Inl e, w)
      | Inr batch \<Rightarrow> commitCollection batch w)"

section \<open>Identifiers\<close>

text \<open>The textual form of a version 4, variant 1 UUID.\<close>

definition uuid_shape :: "string \<Rightarrow> bool" where
  "uuid_shape s \<longleftrightarrow> length s = 36 \<and>
     list_all (\<lambda>i. s ! i = CHR ''-'') [8, 13, 18, 23] \<and>
     list_all (\<lambda>i. i \<in> {8, 13, 18, 23} \<or> is_hex (s ! i)) [0..<36] \<and>
     s ! 14 = CHR ''4'' \<and> s ! 19 \<in> set ''89ab''"

lemma nth_hex_encode:
  "i < length s \<Longrightarrow> hex_encode s ! (2 * i) = hex_digit (byte (s ! i) div 16) \<and>
     hex_encode s ! (2 * i + 1) = hex_digit (byte (s ! i) mod 16)"
proof (induction s arbitrary: i)
  case (Cons c s)
  then show ?case
    by (cases i) (simp_all add: hex_encode_def)
qed simp

lemma version_nibble: "hex_digit ((n mod 16 + 64) div 16) = CHR ''4''"
proof -
  have "(n mod 16 + 64) div 16 = 4"
    by simp
  then show ?thesis
    by (simp add: hex_digit_def char_of_eq_iff)
qed

lemma variant_nibble: "hex_digit ((n mod 64 + 128) div 16) \<in> set ''89ab''"
proof -
  define k where "k = n mod 64 div 16"
  have "(n mod 64 + 128) div 16 = k + 8"
    unfolding k_def by simp
  moreover have "k < 4"
    unfolding k_def by (simp add: less_mult_imp_div_less)
  then have "k = 0 \<or> k = 1 \<or> k = 2 \<or> k = 3"
    by linarith
  ultimately show ?thesis
    by (auto simp: hex_digit_def char_of_eq_iff)
qed

lemma uuid_text:
  assumes "length t = 32" and "list_all is_hex t" and "t ! 12 = CHR ''4''" and "t ! 16 \<in> set ''89ab''"
  shows "uuid_shape (take 8 t @ ''-'' @ take 4 (drop 8 t) @ ''-'' @ take 4 (drop 12 t) @ ''-'' @
     take 4 (drop 16 t) @ ''-'' @ drop 20 t)"
proof -
  have h: "is_hex (t ! i)" if "i < 32" for i
    using that assms(1,2) by (simp add: list_all_length)
  let ?s = "take 8 t @ ''-'' @ take 4 (drop 8 t) @ ''-'' @ take 4 (drop 12 t) @ ''-'' @
     take 4 (drop 16 t) @ ''-'' @ drop 20 t"
  have digits: "is_hex (?s ! i)" if "i < 36" "i \<notin> {8, 13, 18, 23}" for i
    using that assms(1) by (auto simp: nth_append nth_Cons' intro!: h)
  then have "list_all (\<lambda>i. i \<in> {8, 13, 18, 23} \<or> is_hex (?s ! i)) [0..<36]"
    unfolding list_all_iff set_upt Ball_def atLeastLessThan_iff by blast
  then show ?thesis
    unfolding uuid_shape_def using assms by (simp add: nth_append)
qed

text \<open>C17: every identifier the collector stores is a well-formed UUID. For any hash function with
  32-byte digests, deterministicUUID returns 36 characters, hyphens at the four group boundaries and
  lower-case hexadecimal digits elsewhere, with version nibble 4 and a variant nibble from 8 to b.\<close>
theorem deterministic_uuid_shape:
  assumes "\<And>m. length (be_sha256 env m) = 32"
  shows "uuid_shape (deterministicUUID env v)"
proof -
  let ?d = "set_version_bits (be_sha256 env v)"
  let ?t = "hex_encode (take 16 ?d)"
  have len: "length ?d = 32"
    by (simp add: set_version_bits_def assms)
  have "?t ! (2 * 6) = CHR ''4''"
    using nth_hex_encode [of 6 "take 16 ?d"] len
    by (simp add: set_version_bits_def assms version_nibble)
  moreover have "?t ! (2 * 8) \<in> set ''89ab''"
    using nth_hex_encode [of 8 "take 16 ?d"] len variant_nibble [of "byte (be_sha256 env v ! 8)"]
    by (simp add: set_version_bits_def assms)
  moreover have "list_all is_hex ?t"
    using hex_encode_hex by (simp add: list_all_iff)
  ultimately show ?thesis
    unfolding deterministicUUID_def Let_def using len by (intro uuid_text) simp_all
qed

theorem deterministic_uuid_shape_witness:
  "uuid_shape (deterministicUUID \<lparr> be_sha256 = (\<lambda>m. replicate 32 (CHR ''x'')),
     be_parse_float = (\<lambda>s. None), be_parse_time = (\<lambda>s. None) \<rparr> ''session'')"
  by (rule deterministic_uuid_shape) simp

section \<open>Policy snapshots of sanitised evidence\<close>

lemma attr_set_attr: "k \<noteq> f \<Longrightarrow> attr (set_attr k v attrs) f = attr attrs f"
proof -
  assume "k \<noteq> f"
  then have "map_of (filter (\<lambda>p. fst p \<noteq> k) attrs @ [(k, v)]) f = map_of attrs f"
    by (induction attrs) (auto simp: map_add_def)
  then show ?thesis
    by (simp add: attr_def lookup_or_def set_attr_def)
qed

lemma sanitized_no_retention:
  assumes "Sanitize ut hmac kind key attrs = Inr (clean, redacted)"
  shows "attr clean ''raw_prompt_retention'' = ''''"
proof (rule attr_absent)
  have "sensitiveKey ut ''raw_prompt_retention''"
    using shadowed_sensitive [of ut] by (simp add: shadowed_attributes_def)
  then show "''raw_prompt_retention'' \<notin> fst ` set clean"
    using sanitized_attribute [OF assms] by (auto simp: fst_image_iff)
qed

lemma policy_without_retention:
  assumes "attr attrs ''raw_prompt_retention'' = ''''" and "anyAttribute attrs policy_attributes"
  shows "parse_policy attrs = Inl ''invalid policy snapshot''"
  using assms by (simp add: parse_policy_def parse_bool_def split: option.splits)

lemma replay_policy_error:
  assumes "parse_policy (record_attributes r) = Inl e"
  shows "is_error (parseReplaySnapshots env r runtime)"
  using assms unfolding parseReplaySnapshots_def Let_def
  by (cases "parse_plan (record_attributes r)"; simp)
    (auto simp: bind_result_def is_error_iff split: sum.splits)

lemma runtime_policy_error:
  assumes "parse_policy (record_attributes r) = Inl e"
  shows "is_error (runtimeObservation env r)"
  using replay_policy_error [OF assms] unfolding runtimeObservation_def Let_def
  by (auto simp: bind_result_def split: sum.splits)

lemma commit_rows_error:
  assumes "r \<in> set rs" and "is_error (runtimeObservation env r)"
  shows "is_error (commit_rows env src rs)"
  using assms
proof (induction rs)
  case (Cons x rs)
  show ?case
  proof (cases "x = r")
    case True
    then have "is_error (commit_row env src x)"
      using Cons.prems(2) by (auto simp: commit_row_def is_error_iff split: option.splits)
    then show ?thesis
      by (auto simp: is_error_iff)
  next
    case False
    then have "is_error (commit_rows env src rs)"
      using Cons by simp
    then show ?thesis
      by (cases "commit_row env src x") (auto simp: is_error_iff)
  qed
qed simp

text \<open>C15: evidence of the privacy policy can never be stored. Sanitize removes the prompt retention
  attribute from every source, but the backend requires it whenever any other policy attribute is
  present; so a commit that contains a sanitised record with a policy schema version, a policy hash
  or a telemetry setting fails before it reaches the repository, whatever its other records.\<close>
theorem policy_evidence_never_commits:
  assumes "Sanitize ut hmac kind key attrs = Inr (clean, redacted)"
    and "ev_Attributes r \<in> {Some clean, Some (set_attr ''collection_trigger'' ''suppressed'' clean)}"
    and "anyAttribute clean [''policy_schema_version'', ''policy_hash'', ''telemetry'']"
    and "r \<in> set (cm_Records commit)"
  shows "\<exists>e. backend_Commit env sources commitCollection now commit w = (Inl e, w)"
proof -
  have attr_eq: "attr (record_attributes r) f = attr clean f" if "f \<noteq> ''collection_trigger''" for f
    using assms(2) that by (auto simp: record_attributes_def attr_set_attr)
  then have "attr (record_attributes r) ''raw_prompt_retention'' = ''''"
    using sanitized_no_retention [OF assms(1)] by simp
  moreover have "anyAttribute (record_attributes r) policy_attributes"
    using assms(3) attr_eq by (auto simp: anyAttribute_def policy_attributes_def)
  ultimately have "parse_policy (record_attributes r) = Inl ''invalid policy snapshot''"
    by (rule policy_without_retention)
  then have "is_error (commit_rows env src (cm_Records commit))" for src
    using assms(4) by (intro commit_rows_error) (auto intro: runtime_policy_error)
  then have rows: "\<exists>e. commit_rows env src (cm_Records commit) = Inl e" for src
    by (simp add: is_error_iff)
  show ?thesis
  proof (cases "sources (cm_SourceKind commit)")
    case None
    then show ?thesis
      by (simp add: backend_Commit_def backend_source_def)
  next
    case (Some src)
    then show ?thesis
      using rows [of src] by (auto simp: backend_Commit_def backend_source_def)
  qed
qed

theorem policy_evidence_never_commits_witness:
  "\<exists>e. backend_Commit \<lparr> be_sha256 = (\<lambda>m. m), be_parse_float = (\<lambda>s. None), be_parse_time = (\<lambda>s. None) \<rparr>
     (\<lambda>k. None) (\<lambda>b w. (Inr True, w)) 0
     \<lparr> cm_BatchID = ''b'', cm_SourceKind = ''configuration'', cm_Cursor = 1, cm_Generation = ''g'',
       cm_CursorDigest = ''d'', cm_Fence = ''f'',
       cm_Records = [sample_evidence [(''telemetry'', ''false'')] []] \<rparr> () = (Inl e, ())"
proof (rule policy_evidence_never_commits)
  have "\<not> sensitiveKey ascii_tables ''telemetry''"
    by (simp add: evidence_eval)
  then show "Sanitize ascii_tables (\<lambda>k m. m) ''configuration'' [] [(''telemetry'', ''false'')] =
      Inr ([(''telemetry'', ''false'')], [])"
    by (simp add: Sanitize_def allowedAttributes_def keyedAttribute_def secretLike_def
        str_contains_def lower_byte_def safeMetadataValue_def safe_rune_def runes_ascii
        sort_strings_def suffix_to_prefix)
qed (simp_all add: anyAttribute_def attr_def lookup_or_def)

end
