(* ===== verification/Collection_Store.thy ===== *)
theory Collection_Store
  imports Collector_Backend
begin

text \<open>
  The collection part of \<open>internal/store/postgres/repository.go\<close>: fenced leases, the cursor row of
  each source and the transaction that commits a batch, and the backend methods that call them. A
  table is a map over its key; a transaction is a function from tables to tables that keeps them
  unchanged when it fails. The database clock (\<open>statement_timestamp\<close>), the size of the database,
  which statements fail and the rows written by \<open>persistEvidenceLineage\<close> and
  \<open>persistRuntimeObservations\<close> are arguments.
\<close>

datatype store_error =
    ErrNotFound
  | ErrStaleCursor
  | ErrSourceConflict
  | ErrInvalidEffectiveTime
  | ErrStorageBudgetExceeded
  | DatabaseError string bool
  | StoreError string
  | AuditFailure stable_error

record cursor_row =
  cr_Value :: string
  cr_State :: string
  cr_ObservedAt :: go_time
  cr_LeaseExpires :: "go_time option"
  cr_UpdatedAt :: go_time

record batch_row =
  br_SourceID :: string
  br_SourceVersion :: string
  br_StateValue :: string

record 'r store_state =
  db_cursors :: "string \<Rightarrow> cursor_row option"
  db_artifacts :: "evidence_row list"
  db_links :: "string \<Rightarrow> (string \<times> string \<times> go_time) option"
  db_batches :: "string \<Rightarrow> batch_row option"
  db_other :: 'r

section \<open>Cursor values\<close>

definition encodeCollectionCursor :: "string \<Rightarrow> string \<Rightarrow> nat \<Rightarrow> string" where
  "encodeCollectionCursor generation digest sequence =
     (if generation = '''' then show_nat sequence
      else generation @ '':'' @ digest @ '':'' @ show_nat sequence)"

text \<open>\<open>fmt.Sscanf(s, "%d", &next)\<close> for an unsigned 64-bit target: spaces are skipped, a line break is an
  error, and the digits that follow are read up to the first other byte.\<close>

function scan_uint64 :: "string \<Rightarrow> nat option" where
  "scan_uint64 s =
     (case s of
        [] \<Rightarrow> None
      | _ \<Rightarrow>
          let (r, n) = decode_rune s
          in if r = 10 then None
             else if is_space r then scan_uint64 (drop n s)
             else (let digits = takeWhile is_digit_byte s
                   in if digits = [] \<or> 2 ^ 64 \<le> read_nat digits then None
                      else Some (read_nat digits)))"
  by pat_completeness auto
termination
proof (relation "measure length", goal_cases)
  case (2 s x xs p r n)
  then show ?case
    using decode_rune_progress [of s] by (metis in_measure list.distinct(1) snd_conv)
qed simp

declare scan_uint64.simps [simp del]

definition decodeCollectionCursor :: "string \<Rightarrow> (string \<times> string \<times> nat) option" where
  "decodeCollectionCursor v =
     (let (generation, digest, sequence) =
            (case split_on CHR '':'' v of
               [g, d, n] \<Rightarrow> (g, d, n)
             | [g, n] \<Rightarrow> (g, '''', n)
             | _ \<Rightarrow> ('''', '''', v))
      in case scan_uint64 sequence of
           None \<Rightarrow> None
         | Some n \<Rightarrow> Some (generation, digest, n))"

section \<open>Reading the cursor\<close>

definition read_cursor ::
  "string \<Rightarrow> (string \<times> string \<times> nat \<Rightarrow> 'a) \<Rightarrow> 'a \<Rightarrow> bool \<Rightarrow> string \<Rightarrow> 'r store_state \<Rightarrow> string + 'a" where
  "read_cursor msg pick zero fails sourceID st =
     (if fails then Inl msg
      else case db_cursors st sourceID of
          None \<Rightarrow> Inr zero
        | Some row \<Rightarrow>
            (case decodeCollectionCursor (cr_Value row) of
               None \<Rightarrow> Inl ''invalid collection cursor''
             | Some c \<Rightarrow> Inr (pick c)))"

definition CollectionCursor :: "bool \<Rightarrow> string \<Rightarrow> 'r store_state \<Rightarrow> string + nat" where
  "CollectionCursor = read_cursor ''read collection cursor'' (\<lambda>(g, d, n). n) 0"

definition CollectionGeneration :: "bool \<Rightarrow> string \<Rightarrow> 'r store_state \<Rightarrow> string + string" where
  "CollectionGeneration = read_cursor ''read collection generation'' (\<lambda>(g, d, n). g) ''''"

definition CollectionDigest :: "bool \<Rightarrow> string \<Rightarrow> 'r store_state \<Rightarrow> string + string" where
  "CollectionDigest = read_cursor ''read collection digest'' (\<lambda>(g, d, n). d) ''''"

section \<open>Leases\<close>

definition leased_state :: "string \<Rightarrow> string" where
  "leased_state fence = ''leased:'' @ fence"

definition lease_fence :: "(string \<Rightarrow> string) \<Rightarrow> (go_time \<Rightarrow> string) \<Rightarrow> string \<Rightarrow> go_time \<Rightarrow> string" where
  "lease_fence sha format owner now = hex_encode (take 16 (sha (owner @ format now)))"

definition AcquireCollectionLease ::
  "(string \<Rightarrow> string) \<Rightarrow> (go_time \<Rightarrow> string) \<Rightarrow> bool \<Rightarrow> go_time \<Rightarrow> string \<Rightarrow> string \<Rightarrow> go_time \<Rightarrow> go_duration \<Rightarrow>
     'r store_state \<Rightarrow> (string + string \<times> bool) \<times> 'r store_state" where
  "AcquireCollectionLease sha format fails t sourceID owner now duration st =
     (let fence = lease_fence sha format owner now
      in if fails then (Inl ''acquire collection lease'', st)
         else case db_cursors st sourceID of
             None \<Rightarrow>
               (Inr (fence, True), st\<lparr> db_cursors := (db_cursors st)(sourceID \<mapsto>
                  \<lparr> cr_Value = ''0'', cr_State = leased_state fence, cr_ObservedAt = t,
                    cr_LeaseExpires = Some (t + duration), cr_UpdatedAt = t \<rparr>) \<rparr>)
           | Some row \<Rightarrow>
               if (case cr_LeaseExpires row of None \<Rightarrow> True | Some e \<Rightarrow> e \<le> t)
               then (Inr (fence, True), st\<lparr> db_cursors := (db_cursors st)(sourceID \<mapsto>
                       row\<lparr> cr_State := leased_state fence, cr_LeaseExpires := Some (t + duration),
                            cr_UpdatedAt := t \<rparr>) \<rparr>)
               else (Inr (fence, False), st))"

definition lease_current :: "go_time \<Rightarrow> string \<Rightarrow> cursor_row \<Rightarrow> bool" where
  "lease_current t fence row \<longleftrightarrow> cr_State row = leased_state fence \<and>
     (case cr_LeaseExpires row of None \<Rightarrow> False | Some e \<Rightarrow> t < e)"

definition RenewCollectionLease ::
  "bool \<Rightarrow> go_time \<Rightarrow> string \<Rightarrow> string \<Rightarrow> go_duration \<Rightarrow> 'r store_state \<Rightarrow> (string + bool) \<times> 'r store_state"
  where
  "RenewCollectionLease fails t sourceID fence duration st =
     (if fails then (Inl ''renew collection lease'', st)
      else case db_cursors st sourceID of
          None \<Rightarrow> (Inr False, st)
        | Some row \<Rightarrow>
            if lease_current t fence row
            then (Inr True, st\<lparr> db_cursors := (db_cursors st)(sourceID \<mapsto>
                    row\<lparr> cr_LeaseExpires := Some (t + duration), cr_UpdatedAt := t \<rparr>) \<rparr>)
            else (Inr False, st))"

definition ReleaseCollectionLease ::
  "bool \<Rightarrow> go_time \<Rightarrow> string \<Rightarrow> string \<Rightarrow> 'r store_state \<Rightarrow> (string + unit) \<times> 'r store_state" where
  "ReleaseCollectionLease fails t sourceID fence st =
     (if fails then (Inl ''release collection lease'', st)
      else case db_cursors st sourceID of
          None \<Rightarrow> (Inr (), st)
        | Some row \<Rightarrow>
            if cr_State row = leased_state fence
            then (Inr (), st\<lparr> db_cursors := (db_cursors st)(sourceID \<mapsto>
                    row\<lparr> cr_State := ''active'', cr_LeaseExpires := None, cr_UpdatedAt := t \<rparr>) \<rparr>)
            else (Inr (), st))"

section \<open>Committing a batch\<close>

definition maxUsageBatch :: nat where
  "maxUsageBatch = 5000"

definition collectionBudgetReserve :: int where
  "collectionBudgetReserve = 16 * 1024 * 1024"

definition estimatedEvidenceBytes :: int where
  "estimatedEvidenceBytes = 64 * 1024"

definition estimatedCollectionBytes :: "evidence_row list \<Rightarrow> int" where
  "estimatedCollectionBytes rows =
     (if rows = [] then 0
      else wrap64 (collectionBudgetReserve + wrap64 (int (length rows) * estimatedEvidenceBytes)))"

definition storageBudgetAvailable :: "int \<Rightarrow> int \<Rightarrow> int \<Rightarrow> bool" where
  "storageBudgetAvailable current estimated maximum \<longleftrightarrow>
     0 \<le> current \<and> 0 \<le> estimated \<and> current < maximum \<and> estimated < wrap64 (maximum - current)"

definition validOptionalNonnegative :: "int option \<Rightarrow> bool" where
  "validOptionalNonnegative v \<longleftrightarrow> (case v of None \<Rightarrow> True | Some n \<Rightarrow> 0 \<le> n)"

definition plan_complete :: "evidence_row \<Rightarrow> plan_snapshot \<Rightarrow> bool" where
  "plan_complete row plan \<longleftrightarrow> \<not> (er_ProjectID row = None \<or> length (ps_Hash plan) \<noteq> 32 \<or>
     ps_PhaseScope plan = '''' \<or> ps_ApprovalBoundary plan = '''')"

definition budget_complete :: "evidence_row \<Rightarrow> budget_snapshot \<Rightarrow> bool" where
  "budget_complete row b \<longleftrightarrow> \<not> (rt_Plan (er_Runtime row) = None \<or> bs_Enforcement b = '''' \<or>
     bs_DelegationPolicy b = '''' \<or> bs_ExhaustionOutcome b = '''' \<or>
     \<not> validOptionalNonnegative (bs_MaxToolLoops b) \<or>
     \<not> validOptionalNonnegative (bs_MaxRetries b) \<or>
     \<not> validOptionalNonnegative (bs_MaxRetrievalExpansions b) \<or>
     \<not> validOptionalNonnegative (bs_MaxAgentDepth b) \<or>
     (case bs_MaxConcurrency b of None \<Rightarrow> False | Some n \<Rightarrow> n < 1))"

definition policy_complete :: "evidence_row \<Rightarrow> policy_snapshot \<Rightarrow> bool" where
  "policy_complete row p \<longleftrightarrow> \<not> (er_ProjectID row = None \<or> length (po_Hash p) \<noteq> 32 \<or>
     po_SchemaVersion p = '''')"

definition host_complete :: "evidence_row \<Rightarrow> host_capability_snapshot \<Rightarrow> bool" where
  "host_complete row h \<longleftrightarrow> \<not> (li_SessionID (er_Lineage row) = '''' \<or> hc_CapabilityName h = '''' \<or>
     hc_CapabilityState h = '''')"

definition when_some :: "'a option \<Rightarrow> ('a \<Rightarrow> bool) \<Rightarrow> bool" where
  "when_some v good \<longleftrightarrow> (case v of None \<Rightarrow> True | Some x \<Rightarrow> good x)"

definition validateCollectionEvidence :: "evidence_row \<Rightarrow> store_error + unit" where
  "validateCollectionEvidence row =
     (let rt = er_Runtime row in
      bind_result (guard_result (length (er_ContentHash row) \<noteq> 32 \<or> er_SchemaVersion row = '''' \<or>
        er_SourceID row = '''' \<or> er_ObservedAt row = 0) (StoreError ''collection evidence is incomplete'')) (\<lambda>_.
      bind_result (guard_result (\<not> when_some (rt_Plan rt) (plan_complete row))
        (StoreError ''plan snapshot is incomplete'')) (\<lambda>_.
      bind_result (guard_result (\<not> when_some (rt_Budget rt) (budget_complete row))
        (StoreError ''budget snapshot is incomplete'')) (\<lambda>_.
      bind_result (guard_result (\<not> when_some (rt_Policy rt) (policy_complete row))
        (StoreError ''policy snapshot is incomplete'')) (\<lambda>_.
      bind_result (guard_result (\<not> when_some (rt_HostCapability rt) (host_complete row))
        (StoreError ''host capability snapshot is incomplete'')) (\<lambda>_.
      bind_result (guard_result (\<not> when_some (rt_AttributionConfidence rt)
          (\<lambda>c. \<not> (f64_less c (Fin 0) \<or> f64_less (Fin 1) c \<or> f64_IsNaN c \<or> f64_IsInf c)))
        (StoreError ''project attribution is invalid'')) (\<lambda>_.
      guard_result (\<not> when_some (rt_AttributionValidTo rt) (\<lambda>v. er_ObservedAt row < v))
        (StoreError ''project attribution is invalid''))))))))"

text \<open>What one attempt of the transaction meets: the clock at the two statements that read it, the
  database sizes, the errors of begin and commit, and the statements the database rejects: for an
  operation and the row it is executed for, whether the rejection is one to retry.\<close>

record tx_env =
  tx_check_time :: go_time
  tx_write_time :: go_time
  tx_size_before :: int
  tx_size_after :: int
  tx_begin_error :: "store_error option"
  tx_commit_error :: "store_error option"
  tx_statement :: "string \<Rightarrow> string \<Rightarrow> bool option"

record 'r store_env =
  se_sha256 :: "string \<Rightarrow> string"
  se_marshal :: "evidence_row list \<Rightarrow> string option"
  se_max_bytes :: int
  se_persist_lineage :: "evidence_row \<Rightarrow> 'r \<Rightarrow> store_error + 'r"
  se_persist_runtime :: "evidence_row \<Rightarrow> 'r \<Rightarrow> store_error + 'r"

definition statement :: "tx_env \<Rightarrow> string \<Rightarrow> string \<Rightarrow> store_error + unit" where
  "statement tx op rid =
     (case tx_statement tx op rid of None \<Rightarrow> Inr () | Some retry \<Rightarrow> Inl (DatabaseError op retry))"

definition normalizedBatchDigest :: "'r store_env \<Rightarrow> evidence_row list \<Rightarrow> store_error + string" where
  "normalizedBatchDigest env rows =
     (case se_marshal env rows of
        None \<Rightarrow> Inl (StoreError ''encode normalized collection batch'')
      | Some encoded \<Rightarrow> Inr (hex_encode (se_sha256 env encoded)))"

definition collectionBatchUUID :: "'r store_env \<Rightarrow> string \<Rightarrow> string" where
  "collectionBatchUUID env v =
     deterministicUUID \<lparr> be_sha256 = se_sha256 env, be_parse_float = (\<lambda>_. None), be_parse_time = (\<lambda>_. None) \<rparr> v"

definition count_value :: "evidence_row list \<Rightarrow> string" where
  "count_value rows = ''count:'' @ show_nat (length rows)"

definition find_artifact :: "evidence_row \<Rightarrow> evidence_row list \<Rightarrow> evidence_row option" where
  "find_artifact row rows =
     (case er_ExternalAliasID row of
        None \<Rightarrow> None
      | Some a \<Rightarrow> find (\<lambda>r. er_SourceID r = er_SourceID row \<and> er_ExternalAliasID r = Some a) rows)"

fun fold_result :: "('a \<Rightarrow> 's \<Rightarrow> 'e + 's) \<Rightarrow> 'a list \<Rightarrow> 's \<Rightarrow> 'e + 's" where
  "fold_result f [] s = Inr s"
| "fold_result f (x # xs) s = bind_result (f x s) (fold_result f xs)"

definition persist_other ::
  "(evidence_row \<Rightarrow> 'r \<Rightarrow> store_error + 'r) \<Rightarrow> evidence_row \<Rightarrow> 'r store_state \<Rightarrow> store_error + 'r store_state"
  where
  "persist_other f row st = bind_result (f row (db_other st)) (\<lambda>r. Inr (st\<lparr> db_other := r \<rparr>))"

text \<open>The upsert of an artifact: a new alias is inserted under a new identifier, a known one must
  carry the same content and takes over the times.\<close>

definition upsert_artifact ::
  "tx_env \<Rightarrow> evidence_row \<Rightarrow> 'r store_state \<Rightarrow> store_error + 'r store_state" where
  "upsert_artifact tx row st =
     bind_result (statement tx ''persist collection evidence'' (er_ID row)) (\<lambda>_.
       case find_artifact row (db_artifacts st) of
         Some old \<Rightarrow>
           if er_ContentHash old = er_ContentHash row
           then Inr (st\<lparr> db_artifacts := map (\<lambda>r. if er_ID r = er_ID old
                  then r\<lparr> er_ObservedAt := er_ObservedAt row, er_RetainedUntil := er_RetainedUntil row \<rparr>
                  else r) (db_artifacts st) \<rparr>)
           else Inl ErrSourceConflict
       | None \<Rightarrow>
           if list_ex (\<lambda>r. er_ID r = er_ID row) (db_artifacts st)
           then Inl (DatabaseError ''persist collection evidence'' False)
           else Inr (st\<lparr> db_artifacts := db_artifacts st @ [row] \<rparr>))"

definition link_trajectory ::
  "'r store_env \<Rightarrow> tx_env \<Rightarrow> evidence_row \<Rightarrow> 'r store_state \<Rightarrow> store_error + 'r store_state" where
  "link_trajectory env tx row st =
     (let trajectory = li_TrajectoryID (er_Lineage row);
          key = collectionBatchUUID env (er_ID row @ '':trajectory-evidence'')
      in if trajectory = '''' then Inr st
         else bind_result (statement tx ''persist trajectory evidence link'' (er_ID row)) (\<lambda>_.
           case db_links st key of
             Some _ \<Rightarrow> Inr st
           | None \<Rightarrow> Inr (st\<lparr> db_links :=
               (db_links st)(key \<mapsto> (er_ID row, trajectory, er_ObservedAt row)) \<rparr>)))"

definition persist_artifact ::
  "'r store_env \<Rightarrow> tx_env \<Rightarrow> evidence_row \<Rightarrow> 'r store_state \<Rightarrow> store_error + 'r store_state" where
  "persist_artifact env tx row st =
     bind_result (upsert_artifact tx row st) (\<lambda>st1.
     bind_result (link_trajectory env tx row st1)
       (persist_other (se_persist_runtime env) row))"

text \<open>Every failure of the comparison with the stored batch, of its queries too, is a conflict.\<close>

definition replay_matches ::
  "'r store_env \<Rightarrow> tx_env \<Rightarrow> collection_batch \<Rightarrow> string \<Rightarrow> string \<Rightarrow> 'r store_state \<Rightarrow> bool" where
  "replay_matches env tx batch storedDigest batchVersion st \<longleftrightarrow>
     storedDigest = cb_CursorDigest batch \<and>
     tx_statement tx ''replay batch'' '''' = None \<and>
     (case db_batches st (collectionBatchUUID env (cb_BatchID batch)) of
        None \<Rightarrow> False
      | Some b \<Rightarrow> br_SourceID b = cb_SourceID batch \<and>
          (br_SourceVersion b = cb_CursorDigest batch \<or> br_SourceVersion b = batchVersion) \<and>
          br_StateValue b = count_value (cb_Evidence batch)) \<and>
     list_all (\<lambda>row. tx_statement tx ''replay artifact'' (er_ID row) = None \<and>
       (case find_artifact row (db_artifacts st) of
          None \<Rightarrow> False
        | Some old \<Rightarrow> er_ContentHash old = er_ContentHash row)) (cb_Evidence batch)"

text \<open>The upsert of the cursor row: its update is guarded by the fence and the lease.\<close>

definition advance_cursor ::
  "tx_env \<Rightarrow> collection_batch \<Rightarrow> cursor_row option \<Rightarrow> store_error + cursor_row" where
  "advance_cursor tx batch stored =
     bind_result (statement tx ''advance collection cursor'' '''') (\<lambda>_.
      let v = encodeCollectionCursor (cb_Generation batch) (cb_CursorDigest batch) (cb_Next batch);
          t = cb_ObservedAt batch
      in case stored of
           None \<Rightarrow> Inr \<lparr> cr_Value = v, cr_State = leased_state (cb_Fence batch), cr_ObservedAt = t,
                         cr_LeaseExpires = None, cr_UpdatedAt = t \<rparr>
         | Some row \<Rightarrow>
             if lease_current (tx_write_time tx) (cb_Fence batch) row
             then Inr (row\<lparr> cr_Value := v, cr_State := leased_state (cb_Fence batch),
                            cr_ObservedAt := t, cr_UpdatedAt := t \<rparr>)
             else Inl (StoreError ''collection lease fence rejected''))"

definition write_batch ::
  "'r store_env \<Rightarrow> tx_env \<Rightarrow> collection_batch \<Rightarrow> string \<Rightarrow> 'r store_state \<Rightarrow> store_error + 'r store_state" where
  "write_batch env tx batch batchVersion st =
     (let rows = cb_Evidence batch;
          key = collectionBatchUUID env (cb_BatchID batch) in
      bind_result (fold_result (persist_other (se_persist_lineage env)) rows st) (\<lambda>st1.
      bind_result (fold_result (persist_other (se_persist_lineage env)) rows st1) (\<lambda>st2.
      bind_result (fold_result (persist_artifact env tx) rows st2) (\<lambda>st3.
      bind_result (statement tx ''persist collection batch identity'' '''') (\<lambda>_.
      bind_result (guard_result (db_batches st3 key \<noteq> None)
        (DatabaseError ''persist collection batch identity'' False)) (\<lambda>_.
      bind_result (statement tx ''verify local storage budget'' '''') (\<lambda>_.
      bind_result (guard_result (se_max_bytes env \<le> tx_size_after tx) ErrStorageBudgetExceeded) (\<lambda>_.
      bind_result (advance_cursor tx batch (db_cursors st3 (cb_SourceID batch))) (\<lambda>row.
        Inr (st3\<lparr>
          db_batches := (db_batches st3)(key \<mapsto> \<lparr> br_SourceID = cb_SourceID batch,
            br_SourceVersion = batchVersion, br_StateValue = count_value rows \<rparr>),
          db_cursors := (db_cursors st3)(cb_SourceID batch \<mapsto> row) \<rparr>))))))))))"

definition commit_transaction ::
  "'r store_env \<Rightarrow> collection_batch \<Rightarrow> string \<Rightarrow> tx_env \<Rightarrow> 'r store_state \<Rightarrow> store_error + bool \<times> 'r store_state"
  where
  "commit_transaction env batch batchVersion tx st =
     bind_result (statement tx ''lock local storage budget'' '''') (\<lambda>_.
     bind_result (statement tx ''check local storage budget'' '''') (\<lambda>_.
     bind_result (guard_result (\<not> storageBudgetAvailable (tx_size_before tx)
        (estimatedCollectionBytes (cb_Evidence batch)) (se_max_bytes env)) ErrStorageBudgetExceeded) (\<lambda>_.
     bind_result (statement tx ''lock collection cursor'' '''') (\<lambda>_.
     case db_cursors st (cb_SourceID batch) of
       None \<Rightarrow> Inl (StoreError ''collection lease fence rejected'')
     | Some row \<Rightarrow>
     (case decodeCollectionCursor (cr_Value row) of
       None \<Rightarrow> Inl (StoreError ''invalid collection cursor'')
     | Some (storedGeneration, storedDigest, current) \<Rightarrow>
     bind_result (guard_result (cr_State row \<noteq> leased_state (cb_Fence batch) \<or> cr_LeaseExpires row = None)
       (StoreError ''collection lease fence rejected'')) (\<lambda>_.
     bind_result (statement tx ''validate collection lease fence'' '''') (\<lambda>_.
     bind_result (guard_result (\<not> lease_current (tx_check_time tx) (cb_Fence batch) row)
       (StoreError ''collection lease fence rejected'')) (\<lambda>_.
     bind_result (guard_result (list_ex (\<lambda>item. er_SourceID item \<noteq> cb_SourceID batch) (cb_Evidence batch))
       (StoreError ''collection source mismatch'')) (\<lambda>_.
     let generationChanged = (storedGeneration \<noteq> '''' \<and> storedGeneration \<noteq> cb_Generation batch)
     in if \<not> generationChanged \<and> cb_Next batch < current then Inl ErrStaleCursor
        else if \<not> generationChanged \<and> cb_Next batch = current
        then (if replay_matches env tx batch storedDigest batchVersion st then Inr (False, st)
              else Inl ErrSourceConflict)
        else bind_result (write_batch env tx batch batchVersion st) (\<lambda>st'. Inr (True, st')))))))))))"

fun retryableTransactionFailure :: "store_error \<Rightarrow> bool" where
  "retryableTransactionFailure (DatabaseError op retry) = retry"
| "retryableTransactionFailure e = False"

fun withSerializable ::
  "(tx_env \<Rightarrow> 's \<Rightarrow> store_error + 'a \<times> 's) \<Rightarrow> (nat \<Rightarrow> tx_env) \<Rightarrow> nat \<Rightarrow> nat \<Rightarrow> 's \<Rightarrow> (store_error + 'a) \<times> 's"
  where
  "withSerializable body txs attempt 0 st =
     (Inl (StoreError ''database transaction retry exhausted''), st)"
| "withSerializable body txs attempt (Suc n) st =
     (case tx_begin_error (txs attempt) of
        Some e \<Rightarrow> (Inl e, st)
      | None \<Rightarrow>
          (case (case body (txs attempt) st of
                   Inl e \<Rightarrow> Inl e
                 | Inr (x, st') \<Rightarrow> (case tx_commit_error (txs attempt) of
                     Some e \<Rightarrow> Inl e | None \<Rightarrow> Inr (x, st'))) of
             Inr (x, st') \<Rightarrow> (Inr x, st')
           | Inl e \<Rightarrow>
               if \<not> retryableTransactionFailure e \<or> n = 0 then (Inl e, st)
               else withSerializable body txs (Suc attempt) n st))"

definition maxTransactionAttempts :: nat where
  "maxTransactionAttempts = 3"

definition CommitCollection ::
  "'r store_env \<Rightarrow> (nat \<Rightarrow> tx_env) \<Rightarrow> collection_batch \<Rightarrow> 'r store_state \<Rightarrow>
     (store_error + bool) \<times> 'r store_state" where
  "CommitCollection env txs batch st =
     (if cb_CursorID batch = '''' \<or> cb_SourceID batch = '''' \<or> cb_Next batch = 0 \<or>
         cb_Fence batch = '''' \<or> cb_Evidence batch = [] \<or> maxUsageBatch < length (cb_Evidence batch)
      then (Inl (StoreError ''collection batch is outside bounds''), st)
      else case check_each validateCollectionEvidence (cb_Evidence batch) of
          Inl e \<Rightarrow> (Inl e, st)
        | Inr _ \<Rightarrow>
            (case normalizedBatchDigest env (cb_Evidence batch) of
               Inl e \<Rightarrow> (Inl e, st)
             | Inr batchDigest \<Rightarrow>
                 withSerializable (commit_transaction env batch (cb_CursorDigest batch @ '':'' @ batchDigest))
                   txs 1 maxTransactionAttempts st))"

section \<open>The backend methods\<close>

definition with_source ::
  "(string \<Rightarrow> persistent_source option) \<Rightarrow> string \<Rightarrow> (persistent_source \<Rightarrow> 'w \<Rightarrow> (string + 'a) \<times> 'w) \<Rightarrow>
     'w \<Rightarrow> (string + 'a) \<times> 'w" where
  "with_source sources kind f w =
     (case backend_source sources kind of Inl e \<Rightarrow> (Inl e, w) | Inr src \<Rightarrow> f src w)"

definition backend_Cursor ::
  "(string \<Rightarrow> persistent_source option) \<Rightarrow> bool \<Rightarrow> string \<Rightarrow> 'r store_state \<Rightarrow> (string + nat) \<times> 'r store_state"
  where
  "backend_Cursor sources fails kind =
     with_source sources kind (\<lambda>src st. (CollectionCursor fails (sr_SourceID src) st, st))"

definition backend_Generation ::
  "(string \<Rightarrow> persistent_source option) \<Rightarrow> bool \<Rightarrow> string \<Rightarrow> 'r store_state \<Rightarrow> (string + string) \<times> 'r store_state"
  where
  "backend_Generation sources fails kind =
     with_source sources kind (\<lambda>src st. (CollectionGeneration fails (sr_SourceID src) st, st))"

definition backend_Digest ::
  "(string \<Rightarrow> persistent_source option) \<Rightarrow> bool \<Rightarrow> string \<Rightarrow> 'r store_state \<Rightarrow> (string + string) \<times> 'r store_state"
  where
  "backend_Digest sources fails kind =
     with_source sources kind (\<lambda>src st. (CollectionDigest fails (sr_SourceID src) st, st))"

definition backend_Acquire ::
  "(string \<Rightarrow> persistent_source option) \<Rightarrow> (string \<Rightarrow> string) \<Rightarrow> (go_time \<Rightarrow> string) \<Rightarrow> bool \<Rightarrow> go_time \<Rightarrow>
     string \<Rightarrow> string \<Rightarrow> go_time \<Rightarrow> go_duration \<Rightarrow> 'r store_state \<Rightarrow> (string + string \<times> bool) \<times> 'r store_state"
  where
  "backend_Acquire sources sha format fails t kind owner now duration =
     with_source sources kind (\<lambda>src.
       AcquireCollectionLease sha format fails t (sr_SourceID src) owner now duration)"

definition backend_Renew ::
  "(string \<Rightarrow> persistent_source option) \<Rightarrow> bool \<Rightarrow> go_time \<Rightarrow> string \<Rightarrow> string \<Rightarrow> go_duration \<Rightarrow>
     'r store_state \<Rightarrow> (string + bool) \<times> 'r store_state" where
  "backend_Renew sources fails t kind fence duration =
     with_source sources kind (\<lambda>src. RenewCollectionLease fails t (sr_SourceID src) fence duration)"

definition backend_Release ::
  "(string \<Rightarrow> persistent_source option) \<Rightarrow> bool \<Rightarrow> go_time \<Rightarrow> string \<Rightarrow> string \<Rightarrow>
     'r store_state \<Rightarrow> (string + unit) \<times> 'r store_state" where
  "backend_Release sources fails t kind fence =
     with_source sources kind (\<lambda>src. ReleaseCollectionLease fails t (sr_SourceID src) fence)"

end
