(* ===== verification/Collection_Store_Props.thy ===== *)
theory Collection_Store_Props
  imports Collection_Store
begin

text \<open>
  The collection store under concurrent collectors: the cursor text is read back as written, a
  commit moves the cursor forward, and while a lease runs nobody but its holder can take the source,
  renew the lease or advance the cursor.
\<close>

section \<open>Cursor text\<close>

lemma digit_not_space: "is_digit_byte c \<Longrightarrow> \<not> is_space (byte c) \<and> byte c \<noteq> 10 \<and> byte c < 128"
  by (auto simp: is_digit_byte_def is_space_def)

lemma scan_uint64_show: "n < 2 ^ 64 \<Longrightarrow> scan_uint64 (show_nat n) = Some n"
proof -
  assume n: "n < 2 ^ 64"
  obtain c cs where s: "show_nat n = c # cs"
    using show_nat_ne_Nil [of n] by (cases "show_nat n") auto
  have digit: "is_digit_byte c"
    using show_nat_digits [of c n] s by simp
  have "takeWhile is_digit_byte (show_nat n) = show_nat n"
    using show_nat_digits [of _ n] by simp
  then show ?thesis
    using n s digit_not_space [OF digit] read_show_nat [of n]
    by (subst scan_uint64.simps) (simp add: Let_def)
qed

lemma colon_not_digit: "CHR '':'' \<notin> set (show_nat n)"
  using show_nat_digits [of "CHR '':''" n] by (auto simp: is_digit_byte_def)

lemma split_cursor:
  assumes "CHR '':'' \<notin> set g" and "CHR '':'' \<notin> set d"
  shows "split_on CHR '':'' (g @ '':'' @ d @ '':'' @ show_nat n) = [g, d, show_nat n]"
proof -
  have "join '':'' [g, d, show_nat n] = g @ '':'' @ d @ '':'' @ show_nat n"
    by simp
  then show ?thesis
    using split_on_join [of "[g, d, show_nat n]" "CHR '':''"] assms colon_not_digit [of n] by simp
qed

text \<open>A stored cursor is read back exactly. Whatever generation and digest without a colon, and
  whatever 64-bit sequence number a commit writes, decodeCollectionCursor returns the same three
  values (a cursor without a generation carries no digest).\<close>
lemma cursor_roundtrip:
  assumes "CHR '':'' \<notin> set g" and "CHR '':'' \<notin> set d" and "n < 2 ^ 64"
  shows "decodeCollectionCursor (encodeCollectionCursor g d n) =
    Some (if g = '''' then ('''', '''', n) else (g, d, n))"
proof (cases "g = ''''")
  case True
  then show ?thesis
    using split_on_single [OF colon_not_digit] scan_uint64_show [OF assms(3)]
    by (simp add: decodeCollectionCursor_def encodeCollectionCursor_def)
next
  case False
  then show ?thesis
    using split_cursor [OF assms(1,2)] scan_uint64_show [OF assms(3)]
    by (simp add: decodeCollectionCursor_def encodeCollectionCursor_def)
qed

section \<open>What a commit changes\<close>

lemma persist_other_cursors: "persist_other f row st = Inr st' \<Longrightarrow> db_cursors st' = db_cursors st"
  by (auto simp: persist_other_def bind_result_eq_Inr)

lemma upsert_artifact_cursors:
  "upsert_artifact tx row st = Inr st' \<Longrightarrow> db_cursors st' = db_cursors st"
  by (auto simp: upsert_artifact_def bind_result_eq_Inr split: option.splits if_splits)

lemma link_trajectory_cursors:
  "link_trajectory env tx row st = Inr st' \<Longrightarrow> db_cursors st' = db_cursors st"
  by (auto simp: link_trajectory_def bind_result_eq_Inr Let_def split: option.splits if_splits)

lemma persist_artifact_cursors:
  "persist_artifact env tx row st = Inr st' \<Longrightarrow> db_cursors st' = db_cursors st"
  by (auto simp: persist_artifact_def bind_result_eq_Inr
      dest!: upsert_artifact_cursors link_trajectory_cursors persist_other_cursors)

lemma fold_result_cursors:
  assumes "\<And>x st st'. f x st = Inr st' \<Longrightarrow> db_cursors st' = db_cursors st"
    and "fold_result f xs st = Inr st'"
  shows "db_cursors st' = db_cursors st"
  using assms(2)
proof (induction xs arbitrary: st)
  case (Cons x xs)
  then obtain st1 where "f x st = Inr st1" and "fold_result f xs st1 = Inr st'"
    by (auto simp: bind_result_eq_Inr)
  then show ?case
    using Cons.IH assms(1) by metis
qed simp

lemma write_batch_cursors:
  assumes "write_batch env tx batch version st = Inr st'"
  shows "\<exists>row. advance_cursor tx batch (db_cursors st (cb_SourceID batch)) = Inr row \<and>
    db_cursors st' = (db_cursors st)(cb_SourceID batch \<mapsto> row)"
proof -
  obtain st1 st2 st3 row where
    1: "fold_result (persist_other (se_persist_lineage env)) (cb_Evidence batch) st = Inr st1" and
    2: "fold_result (persist_other (se_persist_lineage env)) (cb_Evidence batch) st1 = Inr st2" and
    3: "fold_result (persist_artifact env tx) (cb_Evidence batch) st2 = Inr st3" and
    row: "advance_cursor tx batch (db_cursors st3 (cb_SourceID batch)) = Inr row" and
    st': "db_cursors st' = (db_cursors st3)(cb_SourceID batch \<mapsto> row)"
    using assms unfolding write_batch_def Let_def by (auto simp: bind_result_eq_Inr)
  have "db_cursors st3 = db_cursors st"
    using fold_result_cursors [OF persist_artifact_cursors 3]
      fold_result_cursors [OF persist_other_cursors 2] fold_result_cursors [OF persist_other_cursors 1]
    by simp
  then show ?thesis
    using row st' by auto
qed

lemma commit_transaction_ok:
  assumes "commit_transaction env batch version tx st = Inr (committed, st')"
  shows "\<exists>row g d n. db_cursors st (cb_SourceID batch) = Some row \<and>
    decodeCollectionCursor (cr_Value row) = Some (g, d, n) \<and>
    lease_current (tx_check_time tx) (cb_Fence batch) row \<and>
    (if committed
     then (g \<noteq> '''' \<and> g \<noteq> cb_Generation batch \<or> n < cb_Next batch) \<and>
       lease_current (tx_write_time tx) (cb_Fence batch) row \<and>
       db_cursors st' = (db_cursors st)(cb_SourceID batch \<mapsto> row\<lparr>
         cr_Value := encodeCollectionCursor (cb_Generation batch) (cb_CursorDigest batch) (cb_Next batch),
         cr_ObservedAt := cb_ObservedAt batch, cr_UpdatedAt := cb_ObservedAt batch \<rparr>)
     else st' = st)"
proof -
  obtain row where row: "db_cursors st (cb_SourceID batch) = Some row"
    using assms by (cases "db_cursors st (cb_SourceID batch)")
      (auto simp: commit_transaction_def bind_result_eq_Inr)
  obtain g d n where dec: "decodeCollectionCursor (cr_Value row) = Some (g, d, n)"
    using assms row by (cases "decodeCollectionCursor (cr_Value row)")
      (auto simp: commit_transaction_def bind_result_eq_Inr)
  have lease: "lease_current (tx_check_time tx) (cb_Fence batch) row"
    using assms row dec by (auto simp: commit_transaction_def bind_result_eq_Inr)
  show ?thesis
  proof (cases committed)
    case False
    then show ?thesis
      using assms row dec lease
      by (auto simp: commit_transaction_def bind_result_eq_Inr Let_def split: if_splits)
  next
    case True
    then have w: "write_batch env tx batch version st = Inr st'"
      and ahead: "g \<noteq> '''' \<and> g \<noteq> cb_Generation batch \<or> n < cb_Next batch"
      using assms row dec
      by (auto simp: commit_transaction_def bind_result_eq_Inr Let_def split: if_splits)
    obtain row' where adv: "advance_cursor tx batch (Some row) = Inr row'"
      and st': "db_cursors st' = (db_cursors st)(cb_SourceID batch \<mapsto> row')"
      using write_batch_cursors [OF w] row by auto
    have "lease_current (tx_write_time tx) (cb_Fence batch) row"
      and "row' = row\<lparr>
         cr_Value := encodeCollectionCursor (cb_Generation batch) (cb_CursorDigest batch) (cb_Next batch),
         cr_ObservedAt := cb_ObservedAt batch, cr_UpdatedAt := cb_ObservedAt batch \<rparr>"
      using adv by (auto simp: advance_cursor_def bind_result_eq_Inr Let_def lease_current_def split: if_splits)
    then show ?thesis
      using True row dec lease ahead st' by auto
  qed
qed

text \<open>Every outcome of the retried transaction is the outcome of one attempt or leaves the state.\<close>

lemma withSerializable_cases:
  assumes "withSerializable body txs attempt n st = (out, st')"
  shows "(\<exists>e. out = Inl e \<and> st' = st) \<or> (\<exists>i x. body (txs i) st = Inr (x, st') \<and> out = Inr x)"
  using assms
proof (induction body txs attempt n st rule: withSerializable.induct)
  case (2 body txs attempt n st)
  show ?case
  proof (cases "tx_begin_error (txs attempt)")
    case (Some e)
    then show ?thesis
      using "2.prems" by auto
  next
    case begun: None
    show ?thesis
    proof (cases "body (txs attempt) st")
      case (Inl e)
      then show ?thesis
        using "2.prems" "2.IH" [OF begun] begun by (auto split: if_splits)
    next
      case (Inr p)
      obtain x st1 where p: "p = (x, st1)"
        by (cases p)
      show ?thesis
        using "2.prems" "2.IH" [OF begun] begun Inr p
        by (cases "tx_commit_error (txs attempt)") (auto split: if_splits)
    qed
  qed
qed auto

lemma CommitCollection_cases:
  assumes "CommitCollection env txs batch st = (out, st')"
  shows "(\<exists>e. out = Inl e \<and> st' = st) \<or>
    (\<exists>i version x. commit_transaction env batch version (txs i) st = Inr (x, st') \<and> out = Inr x)"
  using assms unfolding CommitCollection_def Let_def
  by (auto split: if_splits sum.splits dest!: withSerializable_cases)

text \<open>C19: a commit only moves a source forward, and only under a running lease. When CommitCollection
  reports a committed batch, the cursor row was leased to the fence of the batch at the check and at
  the write, the sequence number is larger than the stored one unless the source has a new
  generation, and the stored cursor is then exactly the generation, digest and sequence number of
  the batch, the lease and every other source being left as they were; when it reports a replay or
  an error, nothing has changed.\<close>
theorem commit_advances_cursor:
  "case CommitCollection env txs batch st of
      (Inr True, st') \<Rightarrow> (\<exists>row g d n i. db_cursors st (cb_SourceID batch) = Some row \<and>
        decodeCollectionCursor (cr_Value row) = Some (g, d, n) \<and>
        (if g = '''' \<or> g = cb_Generation batch then n < cb_Next batch else True) \<and>
        lease_current (tx_check_time (txs i)) (cb_Fence batch) row \<and>
        lease_current (tx_write_time (txs i)) (cb_Fence batch) row \<and>
        db_cursors st' = (db_cursors st)(cb_SourceID batch \<mapsto> row\<lparr>
          cr_Value := encodeCollectionCursor (cb_Generation batch) (cb_CursorDigest batch) (cb_Next batch),
          cr_ObservedAt := cb_ObservedAt batch, cr_UpdatedAt := cb_ObservedAt batch \<rparr>))
    | (_, st') \<Rightarrow> st' = st"
proof -
  obtain out st' where run: "CommitCollection env txs batch st = (out, st')"
    by (metis prod.exhaust)
  show ?thesis
    using CommitCollection_cases [OF run]
  proof
    assume "\<exists>e. out = Inl e \<and> st' = st"
    then show ?thesis
      using run by auto
  next
    assume "\<exists>i version x. commit_transaction env batch version (txs i) st = Inr (x, st') \<and> out = Inr x"
    then obtain i version x where
      tx: "commit_transaction env batch version (txs i) st = Inr (x, st')" and out: "out = Inr x"
      by blast
    show ?thesis
    proof (cases x)
      case False
      then show ?thesis
        using commit_transaction_ok [OF tx] run out by auto
    next
      case True
      then obtain row g d n where ok: "db_cursors st (cb_SourceID batch) = Some row"
        "decodeCollectionCursor (cr_Value row) = Some (g, d, n)"
        "g \<noteq> '''' \<and> g \<noteq> cb_Generation batch \<or> n < cb_Next batch"
        "lease_current (tx_check_time (txs i)) (cb_Fence batch) row"
        "lease_current (tx_write_time (txs i)) (cb_Fence batch) row"
        "db_cursors st' = (db_cursors st)(cb_SourceID batch \<mapsto> row\<lparr>
          cr_Value := encodeCollectionCursor (cb_Generation batch) (cb_CursorDigest batch) (cb_Next batch),
          cr_ObservedAt := cb_ObservedAt batch, cr_UpdatedAt := cb_ObservedAt batch \<rparr>)"
        using commit_transaction_ok [OF tx] by auto
      have "out = Inr True"
        using out True by simp
      then show ?thesis
        unfolding run using ok
        by (simp only: prod.case sum.case bool.case)
          (rule exI [of _ row], rule exI [of _ g], rule exI [of _ d], rule exI [of _ n], rule exI [of _ i], auto)
    qed
  qed
qed

section \<open>Concurrent collectors\<close>

datatype store_op =
    OpAcquire bool string string go_time go_duration
  | OpRenew bool string string go_duration
  | OpRelease bool string string
  | OpCommit collection_batch "nat \<Rightarrow> tx_env"

datatype op_outcome =
    Acquired "string + string \<times> bool"
  | Renewed "string + bool"
  | Released
  | Committed "store_error + bool"

record 'r lease_env =
  lv_sha :: "string \<Rightarrow> string"
  lv_format :: "go_time \<Rightarrow> string"
  lv_store :: "'r store_env"

fun run_op :: "'r lease_env \<Rightarrow> go_time \<Rightarrow> store_op \<Rightarrow> 'r store_state \<Rightarrow> op_outcome \<times> 'r store_state" where
  "run_op env t (OpAcquire fails src owner now d) st =
     apfst Acquired (AcquireCollectionLease (lv_sha env) (lv_format env) fails t src owner now d st)"
| "run_op env t (OpRenew fails src fence d) st = apfst Renewed (RenewCollectionLease fails t src fence d st)"
| "run_op env t (OpRelease fails src fence) st =
     apfst (\<lambda>_. Released) (ReleaseCollectionLease fails t src fence st)"
| "run_op env t (OpCommit batch txs) st = apfst Committed (CommitCollection (lv_store env) txs batch st)"

text \<open>A sequence of operations, and the contract of a state that every admitted operation keeps while
  its outcome is no breach.\<close>

primrec run_steps :: "('op \<Rightarrow> 's \<Rightarrow> 'out \<times> 's) \<Rightarrow> 'op list \<Rightarrow> 's \<Rightarrow> 'out list \<times> 's" where
  "run_steps step [] s = ([], s)"
| "run_steps step (op # ops) s =
     (let (out, s1) = step op s; (outs, s2) = run_steps step ops s1 in (out # outs, s2))"

locale guarded_steps =
  fixes step :: "'op \<Rightarrow> 's \<Rightarrow> 'out \<times> 's"
    and holds :: "'s \<Rightarrow> bool"
    and admitted :: "'op \<Rightarrow> bool"
    and breach :: "'op \<Rightarrow> 'out \<Rightarrow> bool"
  assumes step_ok: "holds s \<Longrightarrow> admitted op \<Longrightarrow> holds (snd (step op s)) \<and> \<not> breach op (fst (step op s))"
begin

lemma run_ok:
  assumes "holds s" and "list_all admitted ops"
  shows "holds (snd (run_steps step ops s)) \<and>
    \<not> list_ex (\<lambda>(op, out). breach op out) (zip ops (fst (run_steps step ops s)))"
  using assms
proof (induction ops arbitrary: s)
  case (Cons op ops)
  obtain out s1 where step: "step op s = (out, s1)"
    by (metis prod.exhaust)
  then show ?case
    using Cons.IH [of s1] Cons.prems step_ok [of s op] by (simp add: split_beta)
qed simp

end

definition run_ops ::
  "'r lease_env \<Rightarrow> (go_time \<times> store_op) list \<Rightarrow> 'r store_state \<Rightarrow> op_outcome list \<times> 'r store_state" where
  "run_ops env = run_steps (\<lambda>(t, op). run_op env t op)"

text \<open>The source is leased to the fence at least until the given time.\<close>

definition held :: "string \<Rightarrow> string \<Rightarrow> go_time \<Rightarrow> 'r store_state \<Rightarrow> bool" where
  "held src fence until st \<longleftrightarrow> (\<exists>row e. db_cursors st src = Some row \<and>
     cr_State row = leased_state fence \<and> cr_LeaseExpires row = Some e \<and> until \<le> e)"

text \<open>Operations the holder may issue before that time: it does not release the lease and does not
  renew it to an earlier end. Operations of others are unrestricted.\<close>

fun within_lease :: "string \<Rightarrow> string \<Rightarrow> go_time \<Rightarrow> go_time \<times> store_op \<Rightarrow> bool" where
  "within_lease src fence until (t, OpRelease fails s f) = (t < until \<and> \<not> (s = src \<and> f = fence))"
| "within_lease src fence until (t, OpRenew fails s f d) =
     (t < until \<and> (s = src \<and> f = fence \<longrightarrow> until \<le> t + d))"
| "within_lease src fence until (t, op) = (t < until)"

fun intruded :: "string \<Rightarrow> string \<Rightarrow> store_op \<Rightarrow> op_outcome \<Rightarrow> bool" where
  "intruded src fence (OpAcquire fails s own now d) (Acquired (Inr (f, True))) = (s = src)"
| "intruded src fence (OpRenew fails s f d) (Renewed (Inr True)) = (s = src \<and> f \<noteq> fence)"
| "intruded src fence (OpCommit batch txs) (Committed (Inr x)) =
     (cb_SourceID batch = src \<and> cb_Fence batch \<noteq> fence)"
| "intruded src fence op out = False"

lemma leased_state_inj [simp]: "leased_state f = leased_state g \<longleftrightarrow> f = g"
  by (simp add: leased_state_def)

lemma active_not_leased [simp]: "''active'' \<noteq> leased_state f"
  by (simp add: leased_state_def)

lemma held_acquire:
  assumes "held src fence until st" and "t < until"
    and "AcquireCollectionLease sha format fails t s own now d st = (out, st')"
  shows "held src fence until st' \<and> \<not> intruded src fence (OpAcquire fails s own now d) (Acquired out)"
  using assms
  by (auto simp: held_def AcquireCollectionLease_def Let_def split: if_splits option.splits)

lemma held_renew:
  assumes "held src fence until st" and "s = src \<and> f = fence \<longrightarrow> until \<le> t + d"
    and "RenewCollectionLease fails t s f d st = (out, st')"
  shows "held src fence until st' \<and> \<not> intruded src fence (OpRenew fails s f d) (Renewed out)"
  using assms
  by (auto simp: held_def RenewCollectionLease_def lease_current_def split: if_splits option.splits)

lemma held_release:
  assumes "held src fence until st" and "\<not> (s = src \<and> f = fence)"
    and "ReleaseCollectionLease fails t s f st = (out, st')"
  shows "held src fence until st'"
  using assms
  by (auto simp: held_def ReleaseCollectionLease_def split: if_splits option.splits)

lemma held_commit:
  assumes "held src fence until st" and "CommitCollection env txs batch st = (out, st')"
  shows "held src fence until st' \<and> \<not> intruded src fence (OpCommit batch txs) (Committed out)"
  using CommitCollection_cases [OF assms(2)]
proof
  assume "\<exists>e. out = Inl e \<and> st' = st"
  then show ?thesis
    using assms(1) by auto
next
  assume "\<exists>i version x. commit_transaction env batch version (txs i) st = Inr (x, st') \<and> out = Inr x"
  then obtain i version x where
    tx: "commit_transaction env batch version (txs i) st = Inr (x, st')" and out: "out = Inr x"
    by blast
  show ?thesis
    using commit_transaction_ok [OF tx] assms(1) out
    by (cases x) (auto simp: held_def lease_current_def split: if_splits)
qed

lemma held_step:
  assumes "held src fence until st" and "within_lease src fence until (t, op)"
    and "run_op env t op st = (out, st')"
  shows "held src fence until st' \<and> \<not> intruded src fence op out"
proof (cases op)
  case (OpAcquire fails s own now d)
  then show ?thesis
    using assms held_acquire [OF assms(1), of t "lv_sha env" "lv_format env" fails s own now d]
    by (auto simp: apfst_def map_prod_def split: prod.splits)
next
  case (OpRenew fails s f d)
  then show ?thesis
    using assms held_renew [OF assms(1), of s f t d fails]
    by (auto simp: apfst_def map_prod_def split: prod.splits)
next
  case (OpRelease fails s f)
  then show ?thesis
    using assms held_release [OF assms(1), of s f fails t]
    by (auto simp: apfst_def map_prod_def split: prod.splits)
next
  case (OpCommit batch txs)
  then show ?thesis
    using assms held_commit [OF assms(1), of "lv_store env" txs batch]
    by (auto simp: apfst_def map_prod_def split: prod.splits)
qed

interpretation lease_steps: guarded_steps
  "\<lambda>(t, op). run_op env t op" "held src fence until" "within_lease src fence until"
  "\<lambda>(t, op) out. intruded src fence op out"
  for env src fence until
proof
  fix s :: "'a store_state" and p :: "go_time \<times> store_op"
  assume held: "held src fence until s" and admitted: "within_lease src fence until p"
  obtain t op where p: "p = (t, op)"
    by (cases p)
  show "held src fence until (snd ((case p of (t, op) \<Rightarrow> run_op env t op) s)) \<and>
    \<not> (case p of (t, op) \<Rightarrow> \<lambda>out. intruded src fence op out) (fst ((case p of (t, op) \<Rightarrow> run_op env t op) s))"
    using held_step [OF held, of t op env] admitted unfolding p by (simp add: prod_eq_iff)
qed

text \<open>C18: a granted lease excludes every other collector until it ends. After an acquisition of a
  source is granted for a duration, take any interleaving of acquisitions, renewals, releases and
  commits by any number of collectors before that duration is over, with the holder neither
  releasing nor shortening its lease: no other acquisition of the source is granted, no renewal and
  no commit under another fence succeeds, and at the end the source is still leased to the holder.\<close>
theorem lease_excludes_others:
  assumes "AcquireCollectionLease sha format fails t0 src owner now duration st = (Inr (fence, True), st0)"
    and "list_all (within_lease src fence (t0 + duration)) ops"
  shows "\<not> list_ex (\<lambda>((t, op), out). intruded src fence op out) (zip ops (fst (run_ops env ops st0)))
    \<and> held src fence (t0 + duration) (snd (run_ops env ops st0))"
proof -
  have "held src fence (t0 + duration) st0"
    using assms(1) by (auto simp: held_def AcquireCollectionLease_def Let_def
      split: if_splits option.splits)
  then show ?thesis
    using lease_steps.run_ok [OF _ assms(2), of st0 env] by (auto simp: run_ops_def list_ex_iff)
qed

abbreviation empty_store :: "unit store_state" where
  "empty_store \<equiv> \<lparr> db_cursors = Map.empty, db_artifacts = [], db_links = Map.empty,
     db_batches = Map.empty, db_other = () \<rparr>"

abbreviation sample_lease_env :: "unit lease_env" where
  "sample_lease_env \<equiv> \<lparr> lv_sha = (\<lambda>m. m), lv_format = (\<lambda>t. ''''),
     lv_store = \<lparr> se_sha256 = (\<lambda>m. m), se_marshal = (\<lambda>r. Some ''''), se_max_bytes = 1000000000,
       se_persist_lineage = (\<lambda>row r. Inr r), se_persist_runtime = (\<lambda>row r. Inr r) \<rparr> \<rparr>"

theorem lease_excludes_others_witness:
  "\<exists>fence. held ''source'' fence 60 (snd (run_ops sample_lease_env
     [(10, OpAcquire False ''source'' ''other'' 10 60), (20, OpRelease False ''source'' ''stranger'')]
     (snd (AcquireCollectionLease (\<lambda>m. m) (\<lambda>t. '''') False 0 ''source'' ''me'' 0 60 empty_store))))"
proof -
  let ?fence = "lease_fence (\<lambda>m. m) (\<lambda>t. '''') ''me'' 0"
  have acquired: "AcquireCollectionLease (\<lambda>m. m) (\<lambda>t. '''') False 0 ''source'' ''me'' 0 60 empty_store =
      (Inr (?fence, True), snd (AcquireCollectionLease (\<lambda>m. m) (\<lambda>t. '''') False 0 ''source'' ''me'' 0 60
        empty_store))"
    by (simp add: AcquireCollectionLease_def Let_def)
  have "length ?fence = 4"
    by (simp add: lease_fence_def)
  then have "?fence \<noteq> ''stranger''"
    by auto
  then show ?thesis
    using lease_excludes_others [OF acquired, of
        "[(10, OpAcquire False ''source'' ''other'' 10 60), (20, OpRelease False ''source'' ''stranger'')]"
        sample_lease_env] by auto
qed

end
