(* ===== verification/Dimensions.thy ===== *)
theory Dimensions
  imports Collection_Store
begin

text \<open>
  Versioned project and source dimensions: \<open>PutProject\<close>, \<open>PutSource\<close> and the as-of reads of
  \<open>internal/store/postgres/repository.go\<close>, and \<open>internal/dimensions/dimensions.go\<close>, which feeds
  observations into them. A version table is the list of its rows in insertion order; an insert or
  update that violates a constraint of the schema (key, version number, overlap, range, column
  checks) is a database error that no retry repairs. PostgreSQL keeps microseconds, so a stored or
  compared time is the Go time without its last three digits.
\<close>

definition pg_time :: "go_time \<Rightarrow> go_time" where
  "pg_time t = t - t mod 1000"

section \<open>The hash of a version\<close>

definition be64 :: "nat \<Rightarrow> string" where
  "be64 n = map (\<lambda>k. char_of (n div 256 ^ k mod 256)) [7, 6, 5, 4, 3, 2, 1, 0]"

definition dimension_encoding :: "string list \<Rightarrow> string" where
  "dimension_encoding parts = concat (map (\<lambda>part. be64 (length part) @ part) parts)"

definition dimensionHash :: "(string \<Rightarrow> string) \<Rightarrow> string list \<Rightarrow> string" where
  "dimensionHash sha parts = sha (dimension_encoding parts)"

section \<open>Version tables\<close>

record 'v version_row =
  vr_ID :: string
  vr_Entity :: string
  vr_Number :: int
  vr_State :: 'v
  vr_Hash :: string
  vr_From :: go_time
  vr_To :: "go_time option"

record ('i, 'v) dimension_table =
  dm_identities :: "string \<Rightarrow> 'i option"
  dm_versions :: "'v version_row list"

definition row_covers :: "go_time \<Rightarrow> 'v version_row \<Rightarrow> bool" where
  "row_covers t r \<longleftrightarrow> vr_From r \<le> t \<and> (case vr_To r of None \<Rightarrow> True | Some e \<Rightarrow> t < e)"

definition current_version :: "string \<Rightarrow> 'v version_row list \<Rightarrow> 'v version_row option" where
  "current_version entity rows = find (\<lambda>r. vr_Entity r = entity \<and> vr_To r = None) rows"

definition version_asof :: "string \<Rightarrow> go_time \<Rightarrow> 'v version_row list \<Rightarrow> 'v version_row option" where
  "version_asof entity t rows = find (\<lambda>r. vr_Entity r = entity \<and> row_covers (pg_time t) r) rows"

text \<open>Two half-open validity ranges meet.\<close>

definition ranges_overlap :: "'v version_row \<Rightarrow> 'v version_row \<Rightarrow> bool" where
  "ranges_overlap a b \<longleftrightarrow>
     (case vr_To b of None \<Rightarrow> True | Some e \<Rightarrow> vr_From a < e) \<and>
     (case vr_To a of None \<Rightarrow> True | Some e \<Rightarrow> vr_From b < e)"

definition insert_violates :: "('v \<Rightarrow> bool) \<Rightarrow> 'v version_row \<Rightarrow> 'v version_row list \<Rightarrow> bool" where
  "insert_violates check new rows \<longleftrightarrow>
     list_ex (\<lambda>r. vr_ID r = vr_ID new) rows \<or>
     list_ex (\<lambda>r. vr_Entity r = vr_Entity new \<and>
       (vr_Number r = vr_Number new \<or> ranges_overlap r new)) rows \<or>
     vr_Number new < 1 \<or> length (vr_Hash new) \<noteq> 32 \<or> \<not> check (vr_State new)"

definition insert_version ::
  "string \<Rightarrow> ('v \<Rightarrow> bool) \<Rightarrow> 'v version_row \<Rightarrow> tx_env \<Rightarrow> ('i, 'v) dimension_table \<Rightarrow>
     store_error + unit \<times> ('i, 'v) dimension_table" where
  "insert_version op check new tx t =
     bind_result (statement tx op (vr_ID new)) (\<lambda>_.
     bind_result (guard_result (insert_violates check new (dm_versions t)) (DatabaseError op False)) (\<lambda>_.
       Inr ((), t\<lparr> dm_versions := dm_versions t @ [new] \<rparr>)))"

definition close_row :: "string \<Rightarrow> go_time \<Rightarrow> 'v version_row \<Rightarrow> 'v version_row" where
  "close_row vid e r = (if vr_ID r = vid then r\<lparr> vr_To := Some e \<rparr> else r)"

definition close_version ::
  "string \<Rightarrow> 'v version_row \<Rightarrow> go_time \<Rightarrow> tx_env \<Rightarrow> ('i, 'v) dimension_table \<Rightarrow>
     store_error + ('i, 'v) dimension_table" where
  "close_version op cur effective tx t =
     bind_result (statement tx op (vr_ID cur)) (\<lambda>_.
     bind_result (guard_result (\<not> vr_From cur < pg_time effective) (DatabaseError op False)) (\<lambda>_.
       Inr (t\<lparr> dm_versions := map (close_row (vr_ID cur) (pg_time effective)) (dm_versions t) \<rparr>)))"

text \<open>The transaction of \<open>PutProject\<close> and \<open>PutSource\<close>; the statements differ in the name of the
  dimension and in the columns.\<close>

definition put_version ::
  "string \<Rightarrow> ('v \<Rightarrow> bool) \<Rightarrow> 'i \<Rightarrow> string \<Rightarrow> string \<Rightarrow> 'v \<Rightarrow> string \<Rightarrow> go_time \<Rightarrow> tx_env \<Rightarrow>
     ('i, 'v) dimension_table \<Rightarrow> store_error + unit \<times> ('i, 'v) dimension_table" where
  "put_version kind check identity vid entity st hash effective tx t =
     (let new = (\<lambda>n. \<lparr> vr_ID = vid, vr_Entity = entity, vr_Number = n, vr_State = st, vr_Hash = hash,
                       vr_From = pg_time effective, vr_To = None \<rparr>);
          t1 = t\<lparr> dm_identities := (dm_identities t)(entity \<mapsto>
                 (case dm_identities t entity of None \<Rightarrow> identity | Some i \<Rightarrow> i)) \<rparr>;
          persist = ''persist '' @ kind @ '' dimension''
      in bind_result (statement tx (''persist '' @ kind @ '' identity'') entity) (\<lambda>_.
         bind_result (statement tx (''read current '' @ kind @ '' dimension'') entity) (\<lambda>_.
           case current_version entity (dm_versions t1) of
             None \<Rightarrow> insert_version persist check (new 1) tx t1
           | Some cur \<Rightarrow>
               if vr_Hash cur = hash then Inr ((), t1)
               else if \<not> vr_From cur < effective then Inl ErrInvalidEffectiveTime
               else bind_result (close_version (''close '' @ kind @ '' dimension'') cur effective tx t1)
                 (insert_version persist check (new (wrap64 (vr_Number cur + 1))) tx))))"

text \<open>A read of one version: \<open>fails\<close> says that the query itself failed.\<close>

definition read_version ::
  "string \<Rightarrow> bool \<Rightarrow> string \<Rightarrow> go_time option \<Rightarrow> ('i, 'v) dimension_table \<Rightarrow> store_error + 'v version_row" where
  "read_version kind fails entity eventAt t =
     (if fails then Inl (StoreError (''read '' @ kind @ '' version''))
      else case (case eventAt of
                   None \<Rightarrow> current_version entity (dm_versions t)
                 | Some e \<Rightarrow> version_asof entity e (dm_versions t)) of
          None \<Rightarrow> Inl ErrNotFound
        | Some r \<Rightarrow> Inr r)"

section \<open>Projects\<close>

record project_attributes =
  pa_Classification :: string
  pa_LifecycleState :: string

record project =
  pj_ID :: string
  pj_VersionID :: string
  pj_CreatedAt :: go_time
  pj_EffectiveAt :: go_time
  pj_Attributes :: project_attributes

type_synonym project_table = "(go_time, project_attributes) dimension_table"

definition project_check :: "project_attributes \<Rightarrow> bool" where
  "project_check a \<longleftrightarrow>
     pa_Classification a \<in> {''public'', ''internal'', ''confidential'', ''restricted'', ''unknown''} \<and>
     pa_LifecycleState a \<in> {''active'', ''disabled'', ''deleted'', ''unknown''}"

definition project_hash :: "(string \<Rightarrow> string) \<Rightarrow> project_attributes \<Rightarrow> string" where
  "project_hash sha a = dimensionHash sha [pa_Classification a, pa_LifecycleState a]"

definition PutProject ::
  "(string \<Rightarrow> string) \<Rightarrow> (nat \<Rightarrow> tx_env) \<Rightarrow> project \<Rightarrow> project_table \<Rightarrow> (store_error + unit) \<times> project_table"
  where
  "PutProject sha txs p t =
     withSerializable (put_version ''project'' project_check (pj_CreatedAt p) (pj_VersionID p) (pj_ID p)
       (pj_Attributes p) (project_hash sha (pj_Attributes p)) (pj_EffectiveAt p))
       txs 1 maxTransactionAttempts t"

definition projectVersion ::
  "bool \<Rightarrow> string \<Rightarrow> go_time option \<Rightarrow> project_table \<Rightarrow> store_error + project_attributes version_row" where
  "projectVersion = read_version ''project''"

definition CurrentProject ::
  "bool \<Rightarrow> string \<Rightarrow> project_table \<Rightarrow> store_error + project_attributes version_row" where
  "CurrentProject fails pid t = projectVersion fails pid None t"

definition ProjectAsOf ::
  "bool \<Rightarrow> string \<Rightarrow> go_time \<Rightarrow> project_table \<Rightarrow> store_error + project_attributes version_row" where
  "ProjectAsOf fails pid eventAt t = projectVersion fails pid (Some eventAt) t"

section \<open>Sources\<close>

record source_attributes =
  sa_AdapterVersion :: "string option"
  sa_ProductSurface :: string
  sa_CoverageState :: string
  sa_Enabled :: bool

record source_spec =
  sc_ID :: string
  sc_VersionID :: string
  sc_Kind :: string
  sc_CreatedAt :: go_time
  sc_EffectiveAt :: go_time
  sc_Attributes :: source_attributes

type_synonym source_table = "(string \<times> go_time, source_attributes) dimension_table"

definition source_check :: "source_attributes \<Rightarrow> bool" where
  "source_check a \<longleftrightarrow>
     sa_ProductSurface a \<in> {''codex_subscription'', ''openai_api'', ''local'', ''unknown''} \<and>
     sa_CoverageState a \<in> {''complete'', ''partial'', ''missing'', ''unknown''}"

definition source_hash :: "(string \<Rightarrow> string) \<Rightarrow> source_attributes \<Rightarrow> string" where
  "source_hash sha a = dimensionHash sha
     [(case sa_AdapterVersion a of None \<Rightarrow> '''' | Some v \<Rightarrow> v), sa_ProductSurface a, sa_CoverageState a,
      (if sa_Enabled a then ''true'' else ''false'')]"

definition PutSource ::
  "(string \<Rightarrow> string) \<Rightarrow> (nat \<Rightarrow> tx_env) \<Rightarrow> source_spec \<Rightarrow> source_table \<Rightarrow> (store_error + unit) \<times> source_table"
  where
  "PutSource sha txs s t =
     withSerializable (put_version ''source'' source_check (sc_Kind s, sc_CreatedAt s) (sc_VersionID s)
       (sc_ID s) (sc_Attributes s) (source_hash sha (sc_Attributes s)) (sc_EffectiveAt s))
       txs 1 maxTransactionAttempts t"

definition sourceVersion ::
  "bool \<Rightarrow> string \<Rightarrow> go_time option \<Rightarrow> source_table \<Rightarrow> store_error + source_attributes version_row" where
  "sourceVersion = read_version ''source''"

definition CurrentSource ::
  "bool \<Rightarrow> string \<Rightarrow> source_table \<Rightarrow> store_error + source_attributes version_row" where
  "CurrentSource fails sid t = sourceVersion fails sid None t"

definition SourceAsOf ::
  "bool \<Rightarrow> string \<Rightarrow> go_time \<Rightarrow> source_table \<Rightarrow> store_error + source_attributes version_row" where
  "SourceAsOf fails sid eventAt t = sourceVersion fails sid (Some eventAt) t"

section \<open>Observations\<close>

record project_observation =
  pb_ID :: string
  pb_VersionID :: string
  pb_CreatedAt :: go_time
  pb_EventAt :: "go_time option"
  pb_IngestedAt :: go_time
  pb_Attributes :: project_attributes

record source_observation =
  sb_ID :: string
  sb_VersionID :: string
  sb_Kind :: string
  sb_CreatedAt :: go_time
  sb_EventAt :: "go_time option"
  sb_IngestedAt :: go_time
  sb_Attributes :: source_attributes

record dimension_outcome =
  do_State :: string
  do_Reason :: string
  do_EventAt :: "go_time option"
  do_IngestedAt :: go_time

datatype dimension_error = ErrUnknownEventTime | ErrRepository store_error

definition put_outcome :: "dimension_outcome \<Rightarrow> store_error + unit \<Rightarrow> dimension_outcome \<times> dimension_error option" where
  "put_outcome outcome r =
     (case r of
        Inl e \<Rightarrow> (outcome\<lparr> do_Reason := (if e = ErrInvalidEffectiveTime then ''late_or_out_of_order''
                                         else ''repository_failure'') \<rparr>, Some (ErrRepository e))
      | Inr _ \<Rightarrow> (outcome\<lparr> do_State := ''applied_or_identical'' \<rparr>, None))"

definition dim_PutProject ::
  "(project \<Rightarrow> 's \<Rightarrow> (store_error + unit) \<times> 's) \<Rightarrow> project_observation \<Rightarrow> 's \<Rightarrow>
     (dimension_outcome \<times> dimension_error option) \<times> 's" where
  "dim_PutProject put b s =
     (let outcome = \<lparr> do_State = ''quarantined'', do_Reason = '''', do_EventAt = pb_EventAt b,
                      do_IngestedAt = pb_IngestedAt b \<rparr>
      in case pb_EventAt b of
           None \<Rightarrow> ((outcome\<lparr> do_Reason := ''unknown_event_time'' \<rparr>, Some ErrUnknownEventTime), s)
         | Some e \<Rightarrow>
             apfst (put_outcome outcome)
               (put \<lparr> pj_ID = pb_ID b, pj_VersionID = pb_VersionID b, pj_CreatedAt = pb_CreatedAt b,
                      pj_EffectiveAt = e, pj_Attributes = pb_Attributes b \<rparr> s))"

definition dim_PutSource ::
  "(source_spec \<Rightarrow> 's \<Rightarrow> (store_error + unit) \<times> 's) \<Rightarrow> source_observation \<Rightarrow> 's \<Rightarrow>
     (dimension_outcome \<times> dimension_error option) \<times> 's" where
  "dim_PutSource put b s =
     (let outcome = \<lparr> do_State = ''quarantined'', do_Reason = '''', do_EventAt = sb_EventAt b,
                      do_IngestedAt = sb_IngestedAt b \<rparr>
      in case sb_EventAt b of
           None \<Rightarrow> ((outcome\<lparr> do_Reason := ''unknown_event_time'' \<rparr>, Some ErrUnknownEventTime), s)
         | Some e \<Rightarrow>
             apfst (put_outcome outcome)
               (put \<lparr> sc_ID = sb_ID b, sc_VersionID = sb_VersionID b, sc_Kind = sb_Kind b,
                      sc_CreatedAt = sb_CreatedAt b, sc_EffectiveAt = e,
                      sc_Attributes = sb_Attributes b \<rparr> s))"

end
