(* ===== verification/Dimensions_Props.thy ===== *)
theory Dimensions_Props
  imports Dimensions Collection_Store_Props
begin

text \<open>
  The version history of a dimension: whatever sequence of puts was attempted, the versions of an
  entity form a chain of adjacent half-open ranges that ends in an open one, and a put changes the
  answer of as-of reads exactly from its effective time on. The packages above the repository see
  it through the locale of atomic puts.
\<close>

section \<open>Chains of versions\<close>

fun chain :: "'v version_row list \<Rightarrow> bool" where
  "chain [] = True"
| "chain [r] = (vr_To r = None)"
| "chain (r # s # rs) = (vr_To r = Some (vr_From s) \<and> vr_From r < vr_From s \<and> chain (s # rs))"

lemma chain_last:
  assumes "chain (hs @ [cur])"
  shows "vr_To cur = None \<and> (\<forall>r \<in> set hs. \<exists>e. vr_To r = Some e \<and> e \<le> vr_From cur \<and> vr_From r < vr_From cur)"
  using assms
proof (induction hs)
  case (Cons r hs)
  obtain s rs where tail: "hs @ [cur] = s # rs"
    by (cases "hs @ [cur]") auto
  have link: "vr_To r = Some (vr_From s)" "vr_From r < vr_From s" and rest: "chain (hs @ [cur])"
    using Cons.prems tail by auto
  have "vr_From s \<le> vr_From cur"
    using Cons.IH [OF rest] tail by (cases hs) force+
  then show ?case
    using link Cons.IH [OF rest] by auto
qed simp

lemma chain_extend:
  assumes "chain (hs @ [cur])" and "vr_From cur < vr_From new" and "vr_To new = None"
  shows "chain (hs @ [cur\<lparr> vr_To := Some (vr_From new) \<rparr>, new])"
  using assms(1)
proof (induction hs)
  case Nil
  then show ?case
    using assms by simp
next
  case (Cons r hs)
  then show ?case
    by (cases hs) auto
qed

lemma chain_current:
  "chain hs \<Longrightarrow> find (\<lambda>r. vr_To r = None) hs = (if hs = [] then None else Some (last hs))"
  by (induction hs rule: chain.induct) auto

text \<open>Closing the last version and adding a new one changes the answers from its start on.\<close>

lemma chain_asof_extend:
  assumes "chain (hs @ [cur])" and "vr_From cur < vr_From new" and "vr_To new = None"
  shows "map_option vr_State (find (row_covers t) (hs @ [cur\<lparr> vr_To := Some (vr_From new) \<rparr>, new])) =
    (if vr_From new \<le> t then Some (vr_State new)
     else map_option vr_State (find (row_covers t) (hs @ [cur])))"
proof -
  have closed: "\<exists>e. vr_To r = Some e \<and> e \<le> vr_From cur" if "r \<in> set hs" for r
    using chain_last [OF assms(1)] that by blast
  have open_cur: "vr_To cur = None"
    using chain_last [OF assms(1)] by blast
  have past: "find (row_covers t) hs = None" if "vr_From cur \<le> t"
    using closed that unfolding find_None_iff row_covers_def by force
  have find_append: "find P (xs @ ys) = (case find P xs of None \<Rightarrow> find P ys | Some x \<Rightarrow> Some x)"
    for P :: "'a version_row \<Rightarrow> bool" and xs ys
    by (induction xs) auto
  show ?thesis
  proof (cases "vr_From new \<le> t")
    case True
    then show ?thesis
      using past assms by (simp add: find_append row_covers_def)
  next
    case False
    then show ?thesis
      using assms open_cur by (auto simp: find_append row_covers_def split: option.splits)
  qed
qed

section \<open>The table invariant\<close>

definition history :: "string \<Rightarrow> 'v version_row list \<Rightarrow> 'v version_row list" where
  "history entity rows = filter (\<lambda>r. vr_Entity r = entity) rows"

definition versions_ok :: "('v \<Rightarrow> string) \<Rightarrow> 'v version_row list \<Rightarrow> bool" where
  "versions_ok hash rows \<longleftrightarrow> distinct (map vr_ID rows) \<and> (\<forall>entity. chain (history entity rows)) \<and>
     (\<forall>r \<in> set rows. vr_Hash r = hash (vr_State r))"

lemma find_filter: "find (\<lambda>r. P r \<and> Q r) xs = find Q (filter P xs)"
  by (induction xs) auto

lemma current_version_history: "current_version entity rows = find (\<lambda>r. vr_To r = None) (history entity rows)"
  by (simp add: current_version_def history_def find_filter)

lemma version_asof_history: "version_asof entity t rows = find (row_covers (pg_time t)) (history entity rows)"
  by (simp add: version_asof_def history_def find_filter)

lemma current_version_last:
  assumes "versions_ok hash rows"
  shows "current_version entity rows =
    (if history entity rows = [] then None else Some (last (history entity rows)))"
proof -
  have "chain (history entity rows)"
    using assms by (simp add: versions_ok_def)
  then show ?thesis
    by (simp add: current_version_history chain_current)
qed

lemma history_memberD: "history entity rows = hs @ r # hs' \<Longrightarrow> r \<in> set rows \<and> vr_Entity r = entity"
  unfolding history_def by (metis (mono_tags, lifting) in_set_conv_decomp mem_Collect_eq set_filter)

lemma history_append [simp]:
  "history entity (xs @ [r]) = history entity xs @ (if vr_Entity r = entity then [r] else [])"
  by (simp add: history_def)

lemma close_row_simps [simp]:
  "vr_ID (close_row vid e r) = vr_ID r" "vr_Entity (close_row vid e r) = vr_Entity r"
  "vr_Hash (close_row vid e r) = vr_Hash r" "vr_State (close_row vid e r) = vr_State r"
  by (simp_all add: close_row_def)

lemma history_close:
  assumes "distinct (map vr_ID rows)" and "history (vr_Entity cur) rows = hs @ [cur]"
  shows "history entity (map (close_row (vr_ID cur) e) rows) =
    (if entity = vr_Entity cur then hs @ [cur\<lparr> vr_To := Some e \<rparr>] else history entity rows)"
proof -
  have filter_map: "history entity (map (close_row (vr_ID cur) e) rows) =
      map (close_row (vr_ID cur) e) (history entity rows)"
    by (simp add: history_def filter_map comp_def)
  have cur: "cur \<in> set rows"
    using history_memberD [OF assms(2)] by simp
  have other: "close_row (vr_ID cur) e r = r" if "r \<in> set rows" "r \<noteq> cur" for r
    using that cur assms(1) by (auto simp: close_row_def distinct_map inj_on_def)
  show ?thesis
  proof (cases "entity = vr_Entity cur")
    case True
    have "distinct (hs @ [cur])"
      using assms(1) unfolding assms(2) [symmetric] by (simp add: history_def distinct_map)
    moreover have "set (hs @ [cur]) \<subseteq> set rows"
      unfolding assms(2) [symmetric] by (simp add: history_def)
    ultimately have "\<forall>r \<in> set hs. r \<noteq> cur \<and> r \<in> set rows"
      by auto
    then have "map (close_row (vr_ID cur) e) hs = hs"
      using other by (simp add: map_idI)
    then show ?thesis
      using True assms(2) filter_map by (simp add: close_row_def)
  next
    case False
    then have "map (close_row (vr_ID cur) e) (history entity rows) = history entity rows"
      using other unfolding history_def by (intro map_idI) (metis (mono_tags, lifting) mem_Collect_eq set_filter)
    then show ?thesis
      using False filter_map by simp
  qed
qed

section \<open>What a put does\<close>

text \<open>The state of an entity that as-of reads see.\<close>

definition state_at :: "string \<Rightarrow> go_time \<Rightarrow> 'v version_row list \<Rightarrow> 'v option" where
  "state_at entity t rows = map_option vr_State (version_asof entity t rows)"

definition state_now :: "string \<Rightarrow> 'v version_row list \<Rightarrow> 'v option" where
  "state_now entity rows = map_option vr_State (current_version entity rows)"

lemma insert_version_ok:
  "insert_version op check new tx t = Inr (x, t') \<longleftrightarrow>
     statement tx op (vr_ID new) = Inr () \<and> \<not> insert_violates check new (dm_versions t) \<and>
     t' = t\<lparr> dm_versions := dm_versions t @ [new] \<rparr>"
  by (auto simp: insert_version_def bind_result_eq_Inr)

lemma close_version_ok:
  "close_version op cur e tx t = Inr t' \<longleftrightarrow>
     statement tx op (vr_ID cur) = Inr () \<and> vr_From cur < pg_time e \<and>
     t' = t\<lparr> dm_versions := map (close_row (vr_ID cur) (pg_time e)) (dm_versions t) \<rparr>"
  by (auto simp: close_version_def bind_result_eq_Inr)

lemma first_version:
  assumes "versions_ok hash rows" and "history (vr_Entity new) rows = []"
    and "vr_ID new \<notin> vr_ID ` set rows" and "vr_To new = None" and "vr_Hash new = hash (vr_State new)"
  shows "versions_ok hash (rows @ [new])"
    and "state_at entity t (rows @ [new]) =
      (if entity = vr_Entity new \<and> vr_From new \<le> pg_time t then Some (vr_State new)
       else state_at entity t rows)"
    and "state_now (vr_Entity new) (rows @ [new]) = Some (vr_State new)"
  using assms
  by (auto simp: versions_ok_def state_at_def state_now_def version_asof_history
      current_version_history row_covers_def)

definition superseded :: "'v version_row \<Rightarrow> 'v version_row \<Rightarrow> 'v version_row list \<Rightarrow> 'v version_row list" where
  "superseded cur new rows = map (close_row (vr_ID cur) (vr_From new)) rows @ [new]"

lemma next_version:
  assumes ok: "versions_ok hash rows" and cur: "current_version (vr_Entity new) rows = Some cur"
    and fresh: "vr_ID new \<notin> vr_ID ` set rows" and later: "vr_From cur < vr_From new"
    and new: "vr_To new = None" "vr_Hash new = hash (vr_State new)"
  shows "versions_ok hash (superseded cur new rows)"
    and "state_at entity t (superseded cur new rows) =
      (if entity = vr_Entity new \<and> vr_From new \<le> pg_time t then Some (vr_State new)
       else state_at entity t rows)"
    and "state_now (vr_Entity new) (superseded cur new rows) = Some (vr_State new)"
proof -
  have ne: "history (vr_Entity new) rows \<noteq> []" and cur_last: "cur = last (history (vr_Entity new) rows)"
    using current_version_last [OF ok, of "vr_Entity new"] cur by (auto split: if_splits)
  then obtain hs where hs: "history (vr_Entity new) rows = hs @ [cur]"
    by (metis append_butlast_last_id)
  have entity_cur: "vr_Entity cur = vr_Entity new"
    using history_memberD [OF hs] by simp
  have dist: "distinct (map vr_ID rows)" and chains: "\<And>e. chain (history e rows)"
    using ok by (auto simp: versions_ok_def)
  have ch: "chain (hs @ [cur])"
    using chains [of "vr_Entity new"] hs by simp
  have h: "history e (superseded cur new rows) =
      (if e = vr_Entity new then hs @ [cur\<lparr> vr_To := Some (vr_From new) \<rparr>, new] else history e rows)" for e
    using history_close [OF dist, of cur hs e "vr_From new"] hs entity_cur by (simp add: superseded_def)
  have "chain (history e (superseded cur new rows))" for e
    using h chain_extend [OF ch later new(1)] chains by simp
  then show "versions_ok hash (superseded cur new rows)"
    using dist fresh new(2) ok by (auto simp: versions_ok_def superseded_def comp_def)
  show "state_at entity t (superseded cur new rows) =
      (if entity = vr_Entity new \<and> vr_From new \<le> pg_time t then Some (vr_State new)
       else state_at entity t rows)"
    using h hs chain_asof_extend [OF ch later new(1), of "pg_time t"]
    by (simp add: state_at_def version_asof_history)
  have "find (\<lambda>r. vr_To r = None) (hs @ [cur\<lparr> vr_To := Some (vr_From new) \<rparr>, new]) = Some new"
    using chain_current [OF chain_extend [OF ch later new(1)]] by simp
  then show "state_now (vr_Entity new) (superseded cur new rows) = Some (vr_State new)"
    using h by (simp add: state_now_def current_version_history)
qed

text \<open>The effect of one successful transaction.\<close>

lemma put_version_effect:
  assumes put: "put_version kind check identity vid entity st (hash st) effective tx t = Inr (x, t')"
    and ok: "versions_ok hash (dm_versions t)"
  shows "versions_ok hash (dm_versions t')"
    and "\<exists>changed. changed = (map_option hash (state_now entity (dm_versions t)) \<noteq> Some (hash st)) \<and>
      (\<forall>e u. state_at e u (dm_versions t') =
        (if e = entity \<and> pg_time effective \<le> pg_time u \<and> changed then Some st
         else state_at e u (dm_versions t))) \<and>
      (if changed then state_now entity (dm_versions t') = Some st else dm_versions t' = dm_versions t)"
proof -
  let ?rows = "dm_versions t"
  define new where "new = (\<lambda>n. \<lparr> vr_ID = vid, vr_Entity = entity, vr_Number = n, vr_State = st, vr_Hash = hash st,
    vr_From = pg_time effective, vr_To = None \<rparr>)"
  have "versions_ok hash (dm_versions t') \<and>
    (let changed = (map_option hash (state_now entity ?rows) \<noteq> Some (hash st)) in
      (\<forall>e u. state_at e u (dm_versions t') =
        (if e = entity \<and> pg_time effective \<le> pg_time u \<and> changed then Some st else state_at e u ?rows)) \<and>
      (if changed then state_now entity (dm_versions t') = Some st else dm_versions t' = ?rows))"
  proof (cases "current_version entity ?rows")
    case None
    then have empty: "history entity ?rows = []" and "state_now entity ?rows = None"
      using current_version_last [OF ok, of entity] by (auto simp: state_now_def split: if_splits)
    moreover obtain n where "dm_versions t' = ?rows @ [new n]" and "vid \<notin> vr_ID ` set ?rows"
      using put None by (auto simp: put_version_def Let_def bind_result_eq_Inr insert_version_ok
          insert_violates_def new_def list_ex_iff)
    ultimately show ?thesis
      using first_version [OF ok, of "new n"] by (simp add: new_def)
  next
    case (Some cur)
    have hash_cur: "vr_Hash cur = hash (vr_State cur)"
      using ok Some by (auto simp: versions_ok_def current_version_def find_Some_iff)
    show ?thesis
    proof (cases "vr_Hash cur = hash st")
      case True
      then have "dm_versions t' = ?rows"
        using put Some by (auto simp: put_version_def Let_def bind_result_eq_Inr)
      then show ?thesis
        using True hash_cur Some ok by (simp add: state_now_def)
    next
      case False
      then obtain n where "dm_versions t' = map (close_row (vr_ID cur) (pg_time effective)) ?rows @ [new n]"
        and "vid \<notin> vr_ID ` set ?rows" and "vr_From cur < pg_time effective"
        using put Some by (auto simp: put_version_def Let_def bind_result_eq_Inr insert_version_ok
            close_version_ok insert_violates_def new_def list_ex_iff split: if_splits)
      then show ?thesis
        using next_version [OF ok, of "new n" cur] Some False hash_cur
        by (simp add: new_def state_now_def superseded_def)
    qed
  qed
  then show "versions_ok hash (dm_versions t')"
    and "\<exists>changed. changed = (map_option hash (state_now entity (dm_versions t)) \<noteq> Some (hash st)) \<and>
      (\<forall>e u. state_at e u (dm_versions t') =
        (if e = entity \<and> pg_time effective \<le> pg_time u \<and> changed then Some st
         else state_at e u (dm_versions t))) \<and>
      (if changed then state_now entity (dm_versions t') = Some st else dm_versions t' = dm_versions t)"
    by (auto simp: Let_def)
qed

section \<open>The encoding behind the hash is injective\<close>

lemma base256_eq:
  assumes "\<And>j. j < k \<Longrightarrow> n div 256 ^ j mod 256 = m div 256 ^ j mod (256 :: nat)"
    and "n < 256 ^ k" and "m < 256 ^ k"
  shows "n = m"
  using assms
proof (induction k arbitrary: n m)
  case (Suc k)
  have "n div 256 = m div 256"
  proof (rule Suc.IH)
    show "n div 256 div 256 ^ j mod 256 = m div 256 div 256 ^ j mod 256" if "j < k" for j
      using Suc.prems(1) [of "Suc j"] that by (simp add: div_mult2_eq)
  qed (use Suc.prems(2,3) in \<open>simp_all add: div_less_iff_less_mult mult.commute\<close>)
  moreover have "n mod 256 = m mod 256"
    using Suc.prems(1) [of 0] by simp
  ultimately show ?case
    by (metis div_mult_mod_eq)
qed simp

lemma be64_inj:
  assumes "be64 n = be64 m" and "n < 2 ^ 64" and "m < 2 ^ 64"
  shows "n = m"
proof (rule base256_eq [where k = 8])
  fix j :: nat
  assume "j < 8"
  then have "j \<in> set [7, 6, 5, 4, 3, 2, 1, 0]"
    by auto
  moreover have "\<forall>k \<in> set [7, 6, 5, 4, 3, 2, 1, 0]. (char_of (n div 256 ^ k mod 256) :: char) =
      char_of (m div 256 ^ k mod 256)"
    using assms(1) unfolding be64_def map_eq_conv .
  ultimately have "(char_of (n div 256 ^ j mod 256) :: char) = char_of (m div 256 ^ j mod 256)"
    by (rule bspec [rotated])
  then have "of_char (char_of (n div 256 ^ j mod 256) :: char) = (of_char (char_of (m div 256 ^ j mod 256) :: char) :: nat)"
    by (rule arg_cong)
  then show "n div 256 ^ j mod 256 = m div 256 ^ j mod 256"
    unfolding of_char_of mod_mod_trivial .
qed (use assms in simp_all)

lemma dimension_encoding_inj:
  assumes "dimension_encoding ps = dimension_encoding qs" and "length ps = length qs"
    and "list_all (\<lambda>p. length p < 2 ^ 64) ps" and "list_all (\<lambda>p. length p < 2 ^ 64) qs"
  shows "ps = qs"
  using assms
proof (induction ps arbitrary: qs)
  case (Cons p ps)
  obtain q qs' where qs: "qs = q # qs'"
    using Cons.prems(2) by (cases qs) auto
  have eq: "be64 (length p) @ p @ dimension_encoding ps = be64 (length q) @ q @ dimension_encoding qs'"
    using Cons.prems(1) qs by (simp add: dimension_encoding_def)
  moreover have "length (be64 (length p)) = length (be64 (length q))"
    by (simp add: be64_def)
  ultimately have "be64 (length p) = be64 (length q)"
    and rest: "p @ dimension_encoding ps = q @ dimension_encoding qs'"
    by (auto dest: append_eq_append_conv [THEN iffD1, rotated])
  then have "length p = length q"
    using be64_inj Cons.prems(3,4) qs by auto
  then show ?case
    using rest Cons qs by auto
qed simp

text \<open>Two attribute values with the same hash are a collision of the hash function itself.\<close>

lemma project_hash_collision:
  assumes "project_hash sha a = project_hash sha b" and "a \<noteq> b"
    and "list_all (\<lambda>s. length s < 2 ^ 64)
      [pa_Classification a, pa_LifecycleState a, pa_Classification b, pa_LifecycleState b]"
  shows "\<exists>x y. x \<noteq> y \<and> sha x = sha y"
proof -
  let ?x = "dimension_encoding [pa_Classification a, pa_LifecycleState a]"
  let ?y = "dimension_encoding [pa_Classification b, pa_LifecycleState b]"
  have "[pa_Classification a, pa_LifecycleState a] \<noteq> [pa_Classification b, pa_LifecycleState b]"
    using assms(2) by (cases a, cases b) auto
  then have "?x \<noteq> ?y"
    using assms(3) dimension_encoding_inj [of "[pa_Classification a, pa_LifecycleState a]"
        "[pa_Classification b, pa_LifecycleState b]"] by auto
  moreover have "sha ?x = sha ?y"
    using assms(1) by (simp add: project_hash_def dimensionHash_def)
  ultimately show ?thesis
    by blast
qed

section \<open>Sequences of puts\<close>

text \<open>A put of the repository is one transaction or leaves the table as it was.\<close>

lemma PutProject_cases:
  assumes "PutProject sha txs p t = (r, t')"
  shows "(\<exists>e. r = Inl e \<and> t' = t) \<or>
    (\<exists>i. r = Inr () \<and> put_version ''project'' project_check (pj_CreatedAt p) (pj_VersionID p) (pj_ID p)
       (pj_Attributes p) (project_hash sha (pj_Attributes p)) (pj_EffectiveAt p) (txs i) t = Inr ((), t'))"
  using withSerializable_cases [OF assms [unfolded PutProject_def]] by auto

lemma PutSource_cases:
  assumes "PutSource sha txs s t = (r, t')"
  shows "(\<exists>e. r = Inl e \<and> t' = t) \<or>
    (\<exists>i. r = Inr () \<and> put_version ''source'' source_check (sc_Kind s, sc_CreatedAt s) (sc_VersionID s)
       (sc_ID s) (sc_Attributes s) (source_hash sha (sc_Attributes s)) (sc_EffectiveAt s) (txs i) t =
       Inr ((), t'))"
  using withSerializable_cases [OF assms [unfolded PutSource_def]] by auto

text \<open>The interface of the packages that record observations: a put that reports an error changes
  nothing, and every put keeps the invariant of the table.\<close>

locale atomic_put =
  fixes put :: "'p \<Rightarrow> 't \<Rightarrow> (store_error + unit) \<times> 't"
    and ok :: "'t \<Rightarrow> bool"
  assumes failed_put: "put p t = (Inl e, t') \<Longrightarrow> t' = t"
    and put_ok: "ok t \<Longrightarrow> ok (snd (put p t))"
begin

lemma puts_ok: "ok t \<Longrightarrow> ok (fold (\<lambda>p t. snd (put p t)) ps t)"
  by (induction ps arbitrary: t) (simp_all add: put_ok)

lemma put_outcome_applied:
  assumes "apfst (put_outcome oc) (put p t) = ((oc', err), t')" and "do_State oc = ''quarantined''"
  shows "(err = None \<longleftrightarrow> do_State oc' = ''applied_or_identical'') \<and> (err = None \<or> t' = t)"
  using assms failed_put [of p t]
  by (cases "put p t") (auto simp: put_outcome_def split: sum.splits)

end

interpretation project_puts: atomic_put
  "\<lambda>(txs, p). PutProject sha txs p" "\<lambda>t. versions_ok (project_hash sha) (dm_versions t)"
  for sha
proof (unfold_locales, goal_cases)
  case (1 p t e t')
  then show ?case
    using PutProject_cases by (cases p) fastforce
next
  case (2 t p)
  obtain txs q where p: "p = (txs, q)"
    by (cases p)
  obtain r t' where run: "PutProject sha txs q t = (r, t')"
    by (metis prod.exhaust)
  show ?case
    using PutProject_cases [OF run] put_version_effect(1) [OF _ 2] run p 2 by auto
qed

interpretation source_puts: atomic_put
  "\<lambda>(txs, s). PutSource sha txs s" "\<lambda>t. versions_ok (source_hash sha) (dm_versions t)"
  for sha
proof (unfold_locales, goal_cases)
  case (1 p t e t')
  then show ?case
    using PutSource_cases by (cases p) fastforce
next
  case (2 t p)
  obtain txs q where p: "p = (txs, q)"
    by (cases p)
  obtain r t' where run: "PutSource sha txs q t = (r, t')"
    by (metis prod.exhaust)
  show ?case
    using PutSource_cases [OF run] put_version_effect(1) [OF _ 2] run p 2 by auto
qed

definition empty_dimension :: "('i, 'v) dimension_table" where
  "empty_dimension = \<lparr> dm_identities = Map.empty, dm_versions = [] \<rparr>"

lemma empty_dimension_ok: "versions_ok hash (dm_versions empty_dimension)"
  by (simp add: empty_dimension_def versions_ok_def history_def)

text \<open>The table after a sequence of attempted puts.\<close>

definition projects_after ::
  "(string \<Rightarrow> string) \<Rightarrow> ((nat \<Rightarrow> tx_env) \<times> project) list \<Rightarrow> project_table" where
  "projects_after sha calls = fold (\<lambda>(txs, p) t. snd (PutProject sha txs p t)) calls empty_dimension"

lemma projects_after_ok: "versions_ok (project_hash sha) (dm_versions (projects_after sha calls))"
  using project_puts.puts_ok [OF empty_dimension_ok, of sha calls]
  by (simp add: projects_after_def split_def)

definition project_now :: "project_table \<Rightarrow> string \<Rightarrow> project_attributes option" where
  "project_now t pid = (case CurrentProject False pid t of Inl _ \<Rightarrow> None | Inr v \<Rightarrow> Some (vr_State v))"

definition project_at :: "project_table \<Rightarrow> string \<Rightarrow> go_time \<Rightarrow> project_attributes option" where
  "project_at t pid e = (case ProjectAsOf False pid e t of Inl _ \<Rightarrow> None | Inr v \<Rightarrow> Some (vr_State v))"

lemma project_now_state: "project_now t pid = state_now pid (dm_versions t)"
  by (simp add: project_now_def state_now_def CurrentProject_def projectVersion_def read_version_def
      split: option.splits)

lemma project_at_state: "project_at t pid e = state_at pid e (dm_versions t)"
  by (simp add: project_at_def state_at_def ProjectAsOf_def projectVersion_def read_version_def
      split: option.splits)

text \<open>C20: the history of a project is never rewritten. After any sequence of puts, a project
  observation is either quarantined, with the tables as they were, or applied. When it is applied
  and its attributes differ from the current ones, every read as of its event time or later returns
  the new attributes, and every earlier read, and every read of another project, returns what it
  returned before; when the attributes are the current ones, no read changes. In both cases the
  observed attributes are the current ones afterwards. SHA-256 is assumed not to collide on the
  two attribute values that are compared.\<close>
theorem project_history_append_only:
  assumes "pb_EventAt b = Some e"
    and "map_option (project_hash sha) (project_now (projects_after sha calls) (pb_ID b)) =
           Some (project_hash sha (pb_Attributes b)) \<longrightarrow>
         project_now (projects_after sha calls) (pb_ID b) = Some (pb_Attributes b)"
    and "dim_PutProject (PutProject sha txs) b (projects_after sha calls) = ((oc, err), t')"
  shows "if err = None
    then do_State oc = ''applied_or_identical'' \<and> project_now t' (pb_ID b) = Some (pb_Attributes b) \<and>
      (\<forall>pid u. project_at t' pid u =
        (if pid = pb_ID b \<and> pg_time e \<le> pg_time u \<and>
            project_now (projects_after sha calls) (pb_ID b) \<noteq> Some (pb_Attributes b)
         then Some (pb_Attributes b) else project_at (projects_after sha calls) pid u))
    else do_State oc = ''quarantined'' \<and> t' = projects_after sha calls"
proof -
  let ?t = "projects_after sha calls"
  define p where "p = \<lparr> pj_ID = pb_ID b, pj_VersionID = pb_VersionID b, pj_CreatedAt = pb_CreatedAt b,
    pj_EffectiveAt = e, pj_Attributes = pb_Attributes b \<rparr>"
  obtain r where run: "PutProject sha txs p ?t = (r, t')"
    and oc: "(oc, err) = put_outcome \<lparr> do_State = ''quarantined'', do_Reason = '''', do_EventAt = Some e,
      do_IngestedAt = pb_IngestedAt b \<rparr> r"
    using assms(1,3) by (cases "PutProject sha txs p ?t") (auto simp: dim_PutProject_def p_def)
  show ?thesis
    using PutProject_cases [OF run]
  proof
    assume "\<exists>e. r = Inl e \<and> t' = ?t"
    then show ?thesis
      using oc by (auto simp: put_outcome_def)
  next
    assume "\<exists>i. r = Inr () \<and> put_version ''project'' project_check (pj_CreatedAt p) (pj_VersionID p)
      (pj_ID p) (pj_Attributes p) (project_hash sha (pj_Attributes p)) (pj_EffectiveAt p) (txs i) ?t = Inr ((), t')"
    then obtain i where r: "r = Inr ()" and
      put: "put_version ''project'' project_check (pj_CreatedAt p) (pj_VersionID p) (pj_ID p)
        (pj_Attributes p) (project_hash sha (pj_Attributes p)) (pj_EffectiveAt p) (txs i) ?t = Inr ((), t')"
      by blast
    have "err = None" and "do_State oc = ''applied_or_identical''"
      using oc r by (auto simp: put_outcome_def)
    moreover have same: "map_option (project_hash sha) (project_now ?t (pb_ID b)) \<noteq>
        Some (project_hash sha (pb_Attributes b)) \<longleftrightarrow> project_now ?t (pb_ID b) \<noteq> Some (pb_Attributes b)"
      using assms(2) by auto
    ultimately show ?thesis
      using put_version_effect(2) [OF put projects_after_ok] unfolding p_def
      by (auto simp: project_now_state project_at_state state_now_def split: if_splits)
  qed
qed

abbreviation quiet_tx :: "nat \<Rightarrow> tx_env" where
  "quiet_tx \<equiv> \<lambda>i. \<lparr> tx_check_time = 0, tx_write_time = 0, tx_size_before = 0, tx_size_after = 0,
     tx_begin_error = None, tx_commit_error = None, tx_statement = (\<lambda>op rid. None) \<rparr>"

definition sample_hash :: "string \<Rightarrow> string" where
  "sample_hash m = replicate 32 (last m)"

lemma sample_project_hash:
  "project_hash sample_hash \<lparr> pa_Classification = c, pa_LifecycleState = x # s \<rparr> = replicate 32 (last (x # s))"
  by (simp add: project_hash_def dimensionHash_def dimension_encoding_def sample_hash_def)

lemma three_attempts: "maxTransactionAttempts = Suc (Suc (Suc 0))"
  by (simp add: maxTransactionAttempts_def)

abbreviation sample_observation :: "string \<Rightarrow> go_time \<Rightarrow> string \<Rightarrow> project_observation" where
  "sample_observation vid e state \<equiv> \<lparr> pb_ID = ''p'', pb_VersionID = vid, pb_CreatedAt = 0,
     pb_EventAt = Some e, pb_IngestedAt = 9000,
     pb_Attributes = \<lparr> pa_Classification = ''public'', pa_LifecycleState = state \<rparr> \<rparr>"

abbreviation sample_projects :: project_table where
  "sample_projects \<equiv> projects_after sample_hash [(quiet_tx, \<lparr> pj_ID = ''p'', pj_VersionID = ''v1'',
     pj_CreatedAt = 0, pj_EffectiveAt = 2000,
     pj_Attributes = \<lparr> pa_Classification = ''public'', pa_LifecycleState = ''active'' \<rparr> \<rparr>)]"

theorem project_history_append_only_witness:
  "\<exists>oc t'. dim_PutProject (PutProject sample_hash quiet_tx) (sample_observation ''v2'' 5000 ''disabled'')
      sample_projects = ((oc, None), t') \<and>
    project_at t' ''p'' 3000 = Some \<lparr> pa_Classification = ''public'', pa_LifecycleState = ''active'' \<rparr> \<and>
    project_at t' ''p'' 5000 = Some \<lparr> pa_Classification = ''public'', pa_LifecycleState = ''disabled'' \<rparr>"
proof -
  let ?b = "sample_observation ''v2'' 5000 ''disabled''"
  obtain oc err t' where run:
    "dim_PutProject (PutProject sample_hash quiet_tx) ?b sample_projects = ((oc, err), t')"
    by (metis prod.exhaust)
  note eval = projects_after_def empty_dimension_def PutProject_def put_version_def statement_def
    insert_version_def insert_violates_def current_version_def close_version_def close_row_def
    ranges_overlap_def three_attempts pg_time_def project_check_def
    sample_project_hash read_version_def row_covers_def version_asof_def wrap64_def Let_def
  have now: "project_now sample_projects ''p'' = Some \<lparr> pa_Classification = ''public'', pa_LifecycleState = ''active'' \<rparr>"
    by (simp add: project_now_def CurrentProject_def projectVersion_def eval)
  have was: "project_at sample_projects ''p'' 3000 = Some \<lparr> pa_Classification = ''public'', pa_LifecycleState = ''active'' \<rparr>"
    by (simp add: project_at_def ProjectAsOf_def projectVersion_def eval)
  have differ: "project_hash sample_hash \<lparr> pa_Classification = ''public'', pa_LifecycleState = ''active'' \<rparr> \<noteq>
      project_hash sample_hash \<lparr> pa_Classification = ''public'', pa_LifecycleState = ''disabled'' \<rparr>"
    by (simp add: sample_project_hash)
  have "snd (fst (dim_PutProject (PutProject sample_hash quiet_tx) ?b sample_projects)) = None"
    by (simp add: dim_PutProject_def put_outcome_def eval)
  then have "err = None"
    using run by simp
  then show ?thesis
    using project_history_append_only [OF _ _ run, of 5000] run now was differ
    by (simp add: pg_time_def)
qed

end
