(* ===== verification/Attribution.thy ===== *)
theory Attribution
  imports Go_Strings
begin

text \<open>
  \<open>internal/attribution/attribution.go\<close>: which project an observation belongs to. The two maps
  from projects to scores and to reasons are one association list; their iteration order does not
  reach the result, which is sorted. The lower-case table above ASCII is a parameter.
\<close>

record attribution_candidate =
  ca_ProjectID :: string
  ca_RepositoryID :: string
  ca_WorktreeID :: string
  ca_Root :: string
  ca_Remote :: string
  ca_RenamedFrom :: "string list"
  ca_Sparse :: bool

record attribution_observation =
  ao_RepositoryID :: string
  ao_WorktreeID :: string
  ao_Root :: string
  ao_Remote :: string
  ao_ProjectIDs :: "string list"
  ao_Temporary :: bool

record attribution_result =
  ar_ProjectIDs :: "string list"
  ar_Evidence :: "string list"
  ar_Confidence :: string
  ar_AlgorithmVersion :: string
  ar_State :: string

definition AlgorithmVersion :: string where
  "AlgorithmVersion = ''attribution-v1''"

section \<open>Normalised identities\<close>

text \<open>\<open>strings.TrimPrefix\<close>, \<open>strings.TrimSuffix\<close> and \<open>strings.Replace(s, old, new, 1)\<close>\<close>

definition str_trim_prefix :: "string \<Rightarrow> string \<Rightarrow> string" where
  "str_trim_prefix s p = (if prefix p s then drop (length p) s else s)"

definition str_trim_suffix :: "string \<Rightarrow> string \<Rightarrow> string" where
  "str_trim_suffix s p = (if suffix p s then take (length s - length p) s else s)"

definition replace_first :: "string \<Rightarrow> string \<Rightarrow> string \<Rightarrow> string" where
  "replace_first s old new =
     (case str_index old s of
        None \<Rightarrow> s
      | Some i \<Rightarrow> take i s @ new @ drop (i + length old) s)"

definition normalizedRemote :: "(nat \<Rightarrow> nat) \<Rightarrow> string \<Rightarrow> string" where
  "normalizedRemote uc remote =
     (let r1 = str_trim_suffix (trim_space (to_lower uc remote)) ''.git'';
          r2 = str_trim_prefix r1 ''https://'';
          r3 = str_trim_prefix r2 ''ssh://'';
          r4 = replace_first r3 ''git@'' ''''
      in replace_first r4 '':'' ''/'')"

definition cleanRoot :: "string \<Rightarrow> string" where
  "cleanRoot r = str_trim_suffix (trim_space r) ''/''"

definition attribution_unique :: "string list \<Rightarrow> string list" where
  "attribution_unique vs = sort_strings (remdups (filter (\<lambda>v. v \<noteq> '''') vs))"

section \<open>Scores\<close>

text \<open>The reasons a candidate gives for its project, with their weights, in the order of the code.\<close>

definition candidate_reasons ::
  "(nat \<Rightarrow> nat) \<Rightarrow> attribution_observation \<Rightarrow> attribution_candidate \<Rightarrow> (int \<times> string) list" where
  "candidate_reasons uc obs c =
     (if ao_WorktreeID obs \<noteq> '''' \<and> ao_WorktreeID obs = ca_WorktreeID c
      then [(100, ''worktree_identity'')] else []) @
     (if ao_RepositoryID obs \<noteq> '''' \<and> ao_RepositoryID obs = ca_RepositoryID c
      then [(80, ''repository_identity'')] else []) @
     (if normalizedRemote uc (ao_Remote obs) \<noteq> '''' \<and>
         normalizedRemote uc (ao_Remote obs) = normalizedRemote uc (ca_Remote c)
      then [(60, ''remote_identity'')] else []) @
     map (\<lambda>_. (50, ''renamed_remote''))
       (filter (\<lambda>r. normalizedRemote uc (ao_Remote obs) = normalizedRemote uc r) (ca_RenamedFrom c)) @
     (if ca_Root c \<noteq> '''' \<and> cleanRoot (ao_Root obs) = cleanRoot (ca_Root c)
      then [(40, ''root_identity'')] else [])"

type_synonym score_map = "(string \<times> int \<times> string list) list"

fun add_score :: "string \<Rightarrow> int \<times> string \<Rightarrow> score_map \<Rightarrow> score_map" where
  "add_score pid (score, reason) [] = [(pid, score, [reason])]"
| "add_score pid (score, reason) ((q, s, rs) # m) =
     (if q = pid then (q, s + score, rs @ [reason]) # m else (q, s, rs) # add_score pid (score, reason) m)"

definition score_candidate ::
  "(nat \<Rightarrow> nat) \<Rightarrow> attribution_observation \<Rightarrow> attribution_candidate \<Rightarrow> score_map \<Rightarrow> score_map" where
  "score_candidate uc obs c m =
     (if ca_ProjectID c = '''' then m
      else fold (add_score (ca_ProjectID c)) (candidate_reasons uc obs c) m)"

definition score_candidates ::
  "(nat \<Rightarrow> nat) \<Rightarrow> attribution_observation \<Rightarrow> attribution_candidate list \<Rightarrow> score_map" where
  "score_candidates uc obs cs = fold (score_candidate uc obs) cs []"

definition best_score :: "score_map \<Rightarrow> int" where
  "best_score m = fold (\<lambda>(pid, s, rs) best. if s > best then s else best) m 0"

definition best_projects :: "score_map \<Rightarrow> string list" where
  "best_projects m = sort_strings (map fst (filter (\<lambda>(pid, s, rs). s = best_score m \<and> s > 0) m))"

definition attribution_Resolve ::
  "(nat \<Rightarrow> nat) \<Rightarrow> attribution_observation \<Rightarrow> attribution_candidate list \<Rightarrow> attribution_result" where
  "attribution_Resolve uc obs cs =
     (let result = \<lparr> ar_ProjectIDs = [], ar_Evidence = [], ar_Confidence = ''unknown'',
                     ar_AlgorithmVersion = AlgorithmVersion, ar_State = ''unattributed'' \<rparr>
      in if ao_Temporary obs then result\<lparr> ar_Evidence := [''temporary_directory''] \<rparr>
         else if length (ao_ProjectIDs obs) > 1
         then result\<lparr> ar_ProjectIDs := attribution_unique (ao_ProjectIDs obs),
                      ar_Evidence := [''explicit_multi_project''], ar_Confidence := ''high'',
                      ar_State := ''multi_project'' \<rparr>
         else (let m = score_candidates uc obs cs
               in case best_projects m of
                    [] \<Rightarrow> result
                  | [pid] \<Rightarrow> result\<lparr> ar_ProjectIDs := [pid], ar_State := ''attributed'',
                      ar_Evidence := (case map_of m pid of None \<Rightarrow> [] | Some (s, rs) \<Rightarrow> rs),
                      ar_Confidence := (if best_score m \<ge> 80 then ''high'' else ''medium'') \<rparr>
                  | pids \<Rightarrow> result\<lparr> ar_ProjectIDs := pids, ar_State := ''ambiguous'',
                      ar_Confidence := ''low'', ar_Evidence := [''conflicting_equal_precedence''] \<rparr>))"

section \<open>Scores as sums\<close>

text \<open>The weight and the reasons of a project, read off the candidates directly.\<close>

definition project_reasons ::
  "(nat \<Rightarrow> nat) \<Rightarrow> attribution_observation \<Rightarrow> attribution_candidate list \<Rightarrow> string \<Rightarrow> (int \<times> string) list" where
  "project_reasons uc obs cs pid =
     (if pid = '''' then []
      else concat (map (candidate_reasons uc obs) (filter (\<lambda>c. ca_ProjectID c = pid) cs)))"

definition project_score ::
  "(nat \<Rightarrow> nat) \<Rightarrow> attribution_observation \<Rightarrow> attribution_candidate list \<Rightarrow> string \<Rightarrow> int" where
  "project_score uc obs cs pid = sum_list (map fst (project_reasons uc obs cs pid))"

text \<open>What a score map records for a project: nothing, or the weight and reasons collected.\<close>

definition recorded :: "score_map \<Rightarrow> string \<Rightarrow> int \<times> string list" where
  "recorded m pid = (case map_of m pid of None \<Rightarrow> (0, []) | Some e \<Rightarrow> e)"

lemma recorded_Nil [simp]: "recorded [] pid = (0, [])"
  by (simp add: recorded_def)

lemma recorded_add_score:
  "recorded (add_score pid r m) q =
     (if q = pid then (fst (recorded m pid) + fst r, snd (recorded m pid) @ [snd r]) else recorded m q)"
  by (induction pid r m rule: add_score.induct) (auto simp: recorded_def split: option.splits)

lemma add_score_keys: "fst ` set (add_score pid r m) = insert pid (fst ` set m)"
  by (induction pid r m rule: add_score.induct) auto

lemma add_score_distinct: "distinct (map fst m) \<Longrightarrow> distinct (map fst (add_score pid r m))"
proof (induction pid r m rule: add_score.induct)
  case (2 pid score reason q s rs m)
  then show ?case
    using add_score_keys [of pid "(score, reason)" m] by (auto simp: image_iff)
qed simp

lemma recorded_add_scores:
  "recorded (fold (add_score pid) rs m) q =
     (if q = pid then (fst (recorded m pid) + sum_list (map fst rs), snd (recorded m pid) @ map snd rs)
      else recorded m q)"
  by (induction rs arbitrary: m) (auto simp: recorded_add_score)

lemma distinct_add_scores: "distinct (map fst m) \<Longrightarrow> distinct (map fst (fold (add_score pid) rs m))"
  by (induction rs arbitrary: m) (auto simp: add_score_distinct)

lemma recorded_candidates:
  "recorded (fold (score_candidate uc obs) cs m) pid =
     (fst (recorded m pid) + project_score uc obs cs pid,
      snd (recorded m pid) @ map snd (project_reasons uc obs cs pid))"
  by (induction cs arbitrary: m)
    (auto simp: project_score_def project_reasons_def score_candidate_def recorded_add_scores)

lemma distinct_candidates:
  "distinct (map fst m) \<Longrightarrow> distinct (map fst (fold (score_candidate uc obs) cs m))"
  by (induction cs arbitrary: m) (auto simp: score_candidate_def distinct_add_scores)

lemma score_candidates_recorded:
  "recorded (score_candidates uc obs cs) pid =
     (project_score uc obs cs pid, map snd (project_reasons uc obs cs pid))"
  by (simp add: score_candidates_def recorded_candidates)

lemma score_candidates_distinct: "distinct (map fst (score_candidates uc obs cs))"
  by (simp add: score_candidates_def distinct_candidates)

section \<open>The best projects\<close>

lemma best_score_Max: "best_score m = Max (insert 0 ((\<lambda>e. fst (snd e)) ` set m))"
proof -
  have "(\<lambda>(pid :: string, s :: int, rs :: string list) best. if s > best then s else best) =
      (\<lambda>e best. max (fst (snd e)) best)"
    by (auto simp: fun_eq_iff)
  then have "best_score m = fold (\<lambda>e. max (fst (snd e))) m 0"
    by (simp add: best_score_def)
  also have "\<dots> = fold max (map (\<lambda>e. fst (snd e)) m) 0"
    by (simp add: fold_map comp_def)
  also have "\<dots> = Max (set (0 # map (\<lambda>e. fst (snd e)) m))"
    by (rule Max.set_eq_fold [symmetric])
  finally show ?thesis
    by simp
qed

lemma recorded_member:
  assumes "distinct (map fst m)" and "(pid, s, rs) \<in> set m"
  shows "recorded m pid = (s, rs)"
  using assms by (simp add: recorded_def)

lemma recorded_positive:
  assumes "0 < fst (recorded m pid)"
  shows "(pid, recorded m pid) \<in> set m"
  using assms by (auto simp: recorded_def split: option.splits dest: map_of_SomeD)

lemma best_score_iff:
  assumes "distinct (map fst m)" and "0 < fst (recorded m pid)"
  shows "fst (recorded m pid) = best_score m \<longleftrightarrow> (\<forall>q. fst (recorded m q) \<le> fst (recorded m pid))"
proof -
  obtain s rs where rec: "recorded m pid = (s, rs)" "(pid, s, rs) \<in> set m"
    using recorded_positive [OF assms(2)] by (metis prod.exhaust)
  have upper: "fst (recorded m q) \<le> best_score m" for q
  proof (cases "map_of m q")
    case (Some e)
    then have "fst e \<in> (\<lambda>e. fst (snd e)) ` set m"
      using map_of_SomeD by (metis image_eqI snd_conv)
    then show ?thesis
      using Some by (simp add: recorded_def best_score_Max)
  qed (simp add: recorded_def best_score_Max)
  have "best_score m \<in> insert 0 ((\<lambda>e. fst (snd e)) ` set m)"
    unfolding best_score_Max by (rule Max_in) auto
  then have attained: "\<exists>q. fst (recorded m q) = best_score m" if pos: "0 < best_score m"
  proof -
    assume "best_score m \<in> insert 0 ((\<lambda>e. fst (snd e)) ` set m)"
    then obtain q s rs where "(q, s, rs) \<in> set m" and "best_score m = s"
      using pos by auto
    then show ?thesis
      using recorded_member [OF assms(1)] by (intro exI [of _ q]) simp
  qed
  show ?thesis
    using attained upper [of pid] upper assms(2) by (metis order_antisym order_less_le_trans)
qed

lemma best_projects_member:
  assumes "distinct (map fst m)"
  shows "pid \<in> set (best_projects m) \<longleftrightarrow>
    0 < fst (recorded m pid) \<and> (\<forall>q. fst (recorded m q) \<le> fst (recorded m pid))"
proof -
  have "pid \<in> set (best_projects m) \<longleftrightarrow> (\<exists>s rs. (pid, s, rs) \<in> set m \<and> s = best_score m \<and> 0 < s)"
    by (force simp: best_projects_def)
  also have "\<dots> \<longleftrightarrow> 0 < fst (recorded m pid) \<and> fst (recorded m pid) = best_score m"
    using recorded_member [OF assms] recorded_positive [of m pid] by (metis fst_conv prod.collapse)
  finally have "pid \<in> set (best_projects m) \<longleftrightarrow>
      0 < fst (recorded m pid) \<and> fst (recorded m pid) = best_score m" .
  then show ?thesis
    using best_score_iff [OF assms] by blast
qed

lemma best_projects_distinct: "distinct (map fst m) \<Longrightarrow> distinct (best_projects m)"
  unfolding best_projects_def
  by (metis (no_types, lifting) distinct_map_filter mset_eq_imp_distinct_iff mset_sort_strings)

lemma best_projects_sorted: "sorted (best_projects m)"
  by (simp add: best_projects_def)

text \<open>The projects with the largest positive score.\<close>

definition leading ::
  "(nat \<Rightarrow> nat) \<Rightarrow> attribution_observation \<Rightarrow> attribution_candidate list \<Rightarrow> string set" where
  "leading uc obs cs = {pid. 0 < project_score uc obs cs pid \<and>
     (\<forall>q. project_score uc obs cs q \<le> project_score uc obs cs pid)}"

lemma best_projects_leading: "set (best_projects (score_candidates uc obs cs)) = leading uc obs cs"
  using best_projects_member [OF score_candidates_distinct]
  by (auto simp: leading_def score_candidates_recorded)

lemma leading_finite: "finite (leading uc obs cs)"
  using best_projects_leading by (metis List.finite_set)

lemma sorted_strings_eq: "sorted xs \<Longrightarrow> distinct xs \<Longrightarrow> xs = sorted_list_of_set (set xs)"
  by (simp add: sorted_list_of_set.idem_if_sorted_distinct)

lemma best_projects_list:
  "best_projects (score_candidates uc obs cs) = sorted_list_of_set (leading uc obs cs)"
  using sorted_strings_eq [OF best_projects_sorted best_projects_distinct [OF score_candidates_distinct]]
  by (simp add: best_projects_leading)

lemma leading_best_score:
  assumes "pid \<in> leading uc obs cs"
  shows "best_score (score_candidates uc obs cs) = project_score uc obs cs pid"
proof -
  let ?m = "score_candidates uc obs cs"
  have "0 < fst (recorded ?m pid)" and "\<forall>q. fst (recorded ?m q) \<le> fst (recorded ?m pid)"
    using assms by (auto simp: leading_def score_candidates_recorded)
  then show ?thesis
    using best_score_iff [OF score_candidates_distinct] by (metis fst_conv score_candidates_recorded)
qed

text \<open>Attribution follows the evidence and never forces a choice. For an observation that is not
  temporary and does not name several projects itself, the resolved projects are exactly those whose
  summed evidence is positive and not exceeded by any other project, in sorted order; the state says
  whether there is none, one or more than one of them; a single one comes with exactly the reasons its
  own candidates give, and with high confidence exactly when they weigh at least 80, several come
  with low confidence and none of their reasons.\<close>
theorem attribution_exact:
  assumes "\<not> ao_Temporary obs" and "length (ao_ProjectIDs obs) \<le> 1"
  shows "let r = attribution_Resolve uc obs cs; best = leading uc obs cs in
    ar_ProjectIDs r = sorted_list_of_set best \<and>
    (if best = {} then ar_State r = ''unattributed'' \<and> ar_Confidence r = ''unknown'' \<and> ar_Evidence r = []
     else if is_singleton best then ar_State r = ''attributed'' \<and>
       ar_Evidence r = map snd (project_reasons uc obs cs (the_elem best)) \<and>
       ar_Confidence r = (if 80 \<le> project_score uc obs cs (the_elem best) then ''high'' else ''medium'')
     else ar_State r = ''ambiguous'' \<and> ar_Confidence r = ''low'' \<and>
       ar_Evidence r = [''conflicting_equal_precedence''])"
proof -
  let ?m = "score_candidates uc obs cs"
  have set_best: "set (best_projects ?m) = leading uc obs cs"
    by (rule best_projects_leading)
  have dist: "distinct (best_projects ?m)"
    by (simp add: best_projects_distinct score_candidates_distinct)
  show ?thesis
  proof (cases "best_projects ?m")
    case Nil
    then show ?thesis
      using assms set_best best_projects_list [of uc obs cs] by (simp add: attribution_Resolve_def Let_def)
  next
    case (Cons pid rest)
    show ?thesis
    proof (cases rest)
      case Nil
      then have single: "leading uc obs cs = {pid}"
        using Cons set_best by auto
      have "recorded ?m pid = (project_score uc obs cs pid, map snd (project_reasons uc obs cs pid))"
        by (rule score_candidates_recorded)
      moreover have "0 < project_score uc obs cs pid"
        using single by (auto simp: leading_def)
      ultimately have "map_of ?m pid = Some (project_score uc obs cs pid, map snd (project_reasons uc obs cs pid))"
        by (auto simp: recorded_def split: option.splits)
      moreover have "best_score ?m = project_score uc obs cs pid"
        using leading_best_score single by blast
      ultimately show ?thesis
        using assms Cons Nil single by (simp add: attribution_Resolve_def Let_def)
    next
      case (Cons pid2 rest2)
      have "\<not> is_singleton (leading uc obs cs)"
        using \<open>best_projects ?m = pid # rest\<close> Cons dist set_best
        by (auto simp: is_singleton_def)
      then show ?thesis
        using assms \<open>best_projects ?m = pid # rest\<close> Cons set_best best_projects_list [of uc obs cs]
        by (auto simp: attribution_Resolve_def Let_def)
    qed
  qed
qed

abbreviation sample_candidate :: "string \<Rightarrow> string \<Rightarrow> attribution_candidate" where
  "sample_candidate pid repo \<equiv> \<lparr> ca_ProjectID = pid, ca_RepositoryID = repo, ca_WorktreeID = '''',
     ca_Root = '''', ca_Remote = '''', ca_RenamedFrom = [], ca_Sparse = False \<rparr>"

abbreviation sample_identity :: attribution_observation where
  "sample_identity \<equiv> \<lparr> ao_RepositoryID = ''r1'', ao_WorktreeID = '''', ao_Root = '''', ao_Remote = '''',
     ao_ProjectIDs = [], ao_Temporary = False \<rparr>"

theorem attribution_exact_witness:
  "ar_State (attribution_Resolve (\<lambda>n. n) sample_identity
     [sample_candidate ''a'' ''r1'', sample_candidate ''b'' ''r2'']) = ''attributed''"
proof -
  let ?cs = "[sample_candidate ''a'' ''r1'', sample_candidate ''b'' ''r2'']"
  have none: "candidate_reasons (\<lambda>n. n) sample_identity (sample_candidate pid r) =
      (if r = ''r1'' then [(80, ''repository_identity'')] else [])" for pid r
    by (auto simp: candidate_reasons_def normalizedRemote_def str_trim_prefix_def str_trim_suffix_def
        replace_first_def Let_def)
  have "leading (\<lambda>n. n) sample_identity ?cs = {''a''}"
    by (auto simp: leading_def project_score_def project_reasons_def none)
  then show ?thesis
    using attribution_exact [of sample_identity "\<lambda>n. n" ?cs] by (simp add: Let_def is_singleton_def)
qed

text \<open>An observation that carries no identity at all is still attributed when a candidate was renamed
  from a remote that normalises to nothing or has the root directory as its root.\<close>

lemma empty_observation_attributed:
  "ar_State (attribution_Resolve uc (sample_identity\<lparr> ao_RepositoryID := '''' \<rparr>)
     [(sample_candidate ''a'' ''r'')\<lparr> ca_Root := ''/'' \<rparr>]) = ''attributed''"
  by (simp add: trim_space_ascii space_byte_def is_ascii_def attribution_Resolve_def score_candidates_def score_candidate_def candidate_reasons_def
      cleanRoot_def str_trim_suffix_def normalizedRemote_def str_trim_prefix_def replace_first_def
      best_projects_def best_score_def sort_strings_def sort_slice_def Let_def)

end
