(* ===== verification/Runner.thy ===== *)
theory Runner
  imports Collector
begin

text \<open>
  \<open>internal/runner\<close>: one scheduled pass over the configured sources. A nil source is None; the
  collector is the run of its interface over a world.
\<close>

record run_summary =
  su_Attempted :: nat
  su_Collected :: nat
  su_Skipped :: nat
  su_Failed :: nat

type_synonym 'w collector_run = "'w source_adapter \<Rightarrow> 'w \<Rightarrow> run_result \<times> 'w"

definition empty_summary :: run_summary where
  "empty_summary = \<lparr> su_Attempted = 0, su_Collected = 0, su_Skipped = 0, su_Failed = 0 \<rparr>"

definition count_run :: "run_result \<Rightarrow> run_summary \<Rightarrow> run_summary" where
  "count_run r s =
     (case snd r of
        Some e \<Rightarrow>
          if e = ErrAdapter ErrDisabled \<or> e = ErrAdapter ErrUnsupported
          then s\<lparr> su_Skipped := su_Skipped s + 1 \<rparr>
          else s\<lparr> su_Failed := su_Failed s + 1 \<rparr>
      | None \<Rightarrow> s\<lparr> su_Collected := su_Collected s +
          length (filter (\<lambda>rec. \<not> ev_GovernanceOverhead rec) (rr_Records (fst r))) \<rparr>)"

fun run_sources ::
  "'w collector_run \<Rightarrow> 'w source_adapter option list \<Rightarrow> run_summary \<Rightarrow> 'w \<Rightarrow> run_summary \<times> 'w" where
  "run_sources run [] s w = (s, w)"
| "run_sources run (None # sources) s w = run_sources run sources (s\<lparr> su_Skipped := su_Skipped s + 1 \<rparr>) w"
| "run_sources run (Some src # sources) s w =
     (let (r, w1) = run src w
      in run_sources run sources (count_run r (s\<lparr> su_Attempted := su_Attempted s + 1 \<rparr>)) w1)"

definition RunOnce ::
  "'w collector_run option \<Rightarrow> 'w source_adapter option list \<Rightarrow> 'w \<Rightarrow>
     (run_summary \<times> string option) \<times> 'w" where
  "RunOnce collector sources w =
     (case collector of
        None \<Rightarrow> ((empty_summary, Some ''collector is required''), w)
      | Some run \<Rightarrow>
          (let (s, w1) = run_sources run sources empty_summary w
           in ((s, if 0 < su_Failed s then Some ''one or more sources failed'' else None), w1)))"

section \<open>Accounting\<close>

text \<open>The results the pass sees, in order; the summary is determined by them.\<close>

fun pass_results :: "'w collector_run \<Rightarrow> 'w source_adapter option list \<Rightarrow> 'w \<Rightarrow> run_result list" where
  "pass_results run [] w = []"
| "pass_results run (None # sources) w = pass_results run sources w"
| "pass_results run (Some src # sources) w =
     (let (r, w1) = run src w in r # pass_results run sources w1)"

definition unavailable_run :: "run_result \<Rightarrow> bool" where
  "unavailable_run r \<longleftrightarrow> snd r \<in> {Some (ErrAdapter ErrDisabled), Some (ErrAdapter ErrUnsupported)}"

lemma run_sources_counts:
  "let s' = fst (run_sources run sources s w); rs = pass_results run sources w in
     su_Attempted s' = su_Attempted s + length rs \<and>
     su_Failed s' = su_Failed s + length (filter (\<lambda>r. snd r \<noteq> None \<and> \<not> unavailable_run r) rs) \<and>
     su_Skipped s' = su_Skipped s + length (filter unavailable_run rs) + length (filter Option.is_none sources)"
proof (induction run sources s w rule: run_sources.induct)
  case (3 run src sources s w)
  obtain r w1 where run: "run src w = (r, w1)"
    by (metis prod.exhaust)
  then show ?case
    using "3.IH" [OF run [symmetric] refl]
    by (cases "snd r") (simp_all add: Let_def count_run_def unavailable_run_def)
qed (simp_all add: Let_def)

lemma RunOnce_error_iff:
  "snd (fst (RunOnce (Some run) sources w)) \<noteq> None \<longleftrightarrow>
     (\<exists>r \<in> set (pass_results run sources w). snd r \<noteq> None \<and> \<not> unavailable_run r)"
  using run_sources_counts [of run sources empty_summary w]
  by (simp add: RunOnce_def Let_def split_beta empty_summary_def filter_empty_conv)

end
