(* ===== verification/Status.thy ===== *)
theory Status
  imports Evidence
begin

text \<open>
  \<open>internal/status\<close>: the bounded collector status report, and \<open>internal/confounder\<close>: the confounders
  a report may carry. Field coverage is a map from field families to coverage states.
\<close>

record status_source =
  ss_Kind :: string
  ss_Enabled :: bool
  ss_Supported :: bool
  ss_Cursor :: string
  ss_FreshAt :: "go_time option"
  ss_EvidenceCount :: int
  ss_Coverage :: string
  ss_CoverageReason :: string
  ss_ConflictCount :: int
  ss_OrderingUncertain :: bool
  ss_LateRevisionCount :: int
  ss_GovernanceCount :: int
  ss_FieldCoverage :: "string \<Rightarrow> string option"
  ss_Errors :: "string list"

record status_report =
  sp_AsOf :: go_time
  sp_Sources :: "status_source list"
  sp_HostCalls :: int
  sp_LeafCalls :: int

definition MaxErrors :: nat where
  "MaxErrors = 20"

definition coverage_families :: "string list" where
  "coverage_families = [''identity'', ''response'', ''items_phases'', ''tool_state'', ''lifecycle'',
     ''usage_cache'', ''governance_overhead'']"

definition coverage_states :: "string list" where
  "coverage_states = [CoverageStateComplete, CoverageStatePartial, CoverageStateMissing, CoverageStateUnknown]"

definition normalizeFieldCoverage :: "(string \<Rightarrow> string option) \<Rightarrow> string \<Rightarrow> string option" where
  "normalizeFieldCoverage vs = map_of (map (\<lambda>family.
     (family, let v = lookup_or '''' vs family
              in if v \<in> set coverage_states then v else CoverageStateUnknown)) coverage_families)"

definition status_sanitize :: "string list \<Rightarrow> string list" where
  "status_sanitize errors =
     map (\<lambda>code. if code \<in> {''malformed'', ''truncated'', ''sensitive'', ''adapter_failure'', ''offline''}
                 then code else ''adapter_failure'') (take MaxErrors errors)"

definition build_source :: "status_source \<Rightarrow> status_source" where
  "build_source s =
     (let s1 = s\<lparr> ss_FieldCoverage := normalizeFieldCoverage (ss_FieldCoverage s),
                  ss_Errors := status_sanitize (ss_Errors s) \<rparr>
      in if \<not> ss_Enabled s
         then s1\<lparr> ss_Coverage := CoverageStateMissing, ss_CoverageReason := ''disabled'' \<rparr>
         else if \<not> ss_Supported s
         then s1\<lparr> ss_Coverage := CoverageStateUnknown, ss_CoverageReason := ''unsupported'' \<rparr>
         else s1)"

definition kind_before :: "status_source \<Rightarrow> status_source \<Rightarrow> bool" where
  "kind_before a b \<longleftrightarrow> ss_Kind a < ss_Kind b"

interpretation kind_order: slice_key kind_before ss_Kind
  by unfold_locales (simp add: kind_before_def)

definition Build :: "go_time \<Rightarrow> status_source list \<Rightarrow> int \<Rightarrow> int \<Rightarrow> status_report" where
  "Build asOf sources hostCalls leafCalls =
     \<lparr> sp_AsOf = asOf, sp_Sources = sort_slice kind_before (map build_source sources),
       sp_HostCalls = hostCalls, sp_LeafCalls = leafCalls \<rparr>"

section \<open>Confounders\<close>

record confounder_observation =
  cf_Kind :: string
  cf_Value :: string
  cf_Provenance :: string

definition supported_confounders :: "string list" where
  "supported_confounders =
     [''model'', ''tokenizer'', ''host'', ''tool'', ''instruction'', ''config'', ''memory'', ''media'']"

definition confounder_Normalize :: "string \<Rightarrow> string \<Rightarrow> string \<Rightarrow> confounder_observation" where
  "confounder_Normalize kind v provenance =
     (if kind \<notin> set supported_confounders \<or> v = ''''
      then \<lparr> cf_Kind = kind, cf_Value = '''', cf_Provenance = ''unknown'' \<rparr>
      else if provenance \<noteq> ''observed'' \<and> provenance \<noteq> ''configured''
      then \<lparr> cf_Kind = kind, cf_Value = '''', cf_Provenance = ''unknown'' \<rparr>
      else \<lparr> cf_Kind = kind, cf_Value = v, cf_Provenance = provenance \<rparr>)"

section \<open>Bounds of the report\<close>

lemma status_sanitize_bounded:
  "length (status_sanitize es) \<le> 20 \<and> set (status_sanitize es) \<subseteq>
     {''malformed'', ''truncated'', ''sensitive'', ''adapter_failure'', ''offline''}"
  by (auto simp: status_sanitize_def MaxErrors_def)

lemma normalizeFieldCoverage_total:
  "dom (normalizeFieldCoverage m) = set coverage_families \<and> ran (normalizeFieldCoverage m) \<subseteq> set coverage_states"
proof
  show "dom (normalizeFieldCoverage m) = set coverage_families"
    by (simp add: normalizeFieldCoverage_def dom_map_of_conv_image_fst image_image)
  show "ran (normalizeFieldCoverage m) \<subseteq> set coverage_states"
    by (auto simp: normalizeFieldCoverage_def ran_def coverage_states_def Let_def
        dest!: map_of_SomeD split: if_splits)
qed

lemma build_source_simps [simp]:
  "ss_Kind (build_source s) = ss_Kind s"
  "ss_Enabled (build_source s) = ss_Enabled s"
  "ss_Errors (build_source s) = status_sanitize (ss_Errors s)"
  "ss_FieldCoverage (build_source s) = normalizeFieldCoverage (ss_FieldCoverage s)"
  "\<not> ss_Enabled s \<Longrightarrow> ss_Coverage (build_source s) = CoverageStateMissing"
  by (simp_all add: build_source_def Let_def)

lemma build_sources_bounded:
  assumes "s \<in> set (sp_Sources (Build t sources h l))"
  shows "length (ss_Errors s) \<le> 20 \<and> dom (ss_FieldCoverage s) = set coverage_families \<and>
     (ss_Enabled s \<or> ss_Coverage s = CoverageStateMissing)"
proof -
  obtain s0 where "s = build_source s0"
    using assms by (auto simp: Build_def)
  then show ?thesis
    using status_sanitize_bounded [of "ss_Errors s0", THEN conjunct1]
      normalizeFieldCoverage_total [of "ss_FieldCoverage s0", THEN conjunct1]
    by (cases "ss_Enabled s0") (simp_all only: build_source_simps simp_thms not_False_eq_True)
qed

lemma build_sources_sorted: "sorted (map ss_Kind (sp_Sources (Build t sources h l)))"
  by (simp add: Build_def kind_order.sorted_sort_slice)

lemma confounder_known_iff:
  "cf_Value (confounder_Normalize k v p) \<noteq> '''' \<longleftrightarrow>
     k \<in> set supported_confounders \<and> v \<noteq> '''' \<and> p \<in> {''observed'', ''configured''}"
  by (simp add: confounder_Normalize_def)

end
