(* ===== verification/Audit_Types.thy ===== *)
theory Audit_Types
  imports Contracts Go_Float
begin

text \<open>
  The transfer types of the governance audit (\<open>pkg/contracts/contracts.go\<close>). A pointer is an
  option, a nil slice is the empty list.
\<close>

abbreviation MetricStatusImproved :: string where "MetricStatusImproved \<equiv> ''improved''"
abbreviation MetricStatusWorsened :: string where "MetricStatusWorsened \<equiv> ''worsened''"
abbreviation MetricStatusFlat :: string where "MetricStatusFlat \<equiv> ''flat''"
abbreviation MetricStatusMixed :: string where "MetricStatusMixed \<equiv> ''mixed''"
abbreviation MetricStatusInsufficient :: string where "MetricStatusInsufficient \<equiv> ''insufficient''"

record metric_result =
  mr_Name :: string
  mr_Version :: string
  mr_NativeValue :: "f64 option"
  mr_NativeUnit :: string
  mr_Numerator :: "f64 option"
  mr_Denominator :: "f64 option"
  mr_SampleCount :: int
  mr_PreviousValue :: "f64 option"
  mr_RollingMedian :: "f64 option"
  mr_RollingMAD :: "f64 option"
  mr_BaselineSampleCount :: int
  mr_AbsoluteChangePrevious :: "f64 option"
  mr_PercentageChangePrevious :: "f64 option"
  mr_AbsoluteChangeRolling :: "f64 option"
  mr_PercentageChangeRolling :: "f64 option"
  mr_WorkloadAdjustedResidual :: "f64 option"
  mr_PracticalThreshold :: f64
  mr_Coverage :: string
  mr_Status :: string
  mr_StatusReason :: string
  mr_Confidence :: string
  mr_Uncertainty :: string
  mr_Exclusions :: "string list"
  mr_EvidenceRefs :: "string list"

record audit_finding =
  fd_Code :: string
  fd_Detector :: string
  fd_DetectorVersion :: string
  fd_Cause :: string
  fd_ExceptionCheck :: string
  fd_Classification :: string
  fd_Confidence :: string
  fd_EvidenceRefs :: "string list"
  fd_Counterevidence :: "string list"

record audit_recommendation =
  rc_Code :: string
  rc_PolicyVersion :: string
  rc_LifecycleState :: string
  rc_TargetSurface :: string
  rc_Action :: string
  rc_ExpectedMovement :: string
  rc_ProtectedGuardrails :: "string list"
  rc_ApprovalRequired :: bool
  rc_Verification :: string
  rc_Risks :: "string list"
  rc_EvidenceRefs :: "string list"

record audit_window =
  aw_StartsAt :: go_time
  aw_EndsAt :: go_time
  aw_AsOf :: go_time
  aw_Timezone :: string
  aw_BaselineVersion :: string
  aw_CountingMode :: string
  aw_WorkloadVersion :: string
  aw_SourceVersions :: "string list"
  aw_Revision :: int
  aw_LateEvidence :: bool

record scope_contribution =
  sn_Scope :: string
  sn_Reference :: string
  sn_WorkloadClass :: string
  sn_Numerator :: f64
  sn_Denominator :: f64
  sn_Contribution :: "f64 option"
  sn_Coverage :: string
  sn_AttributionState :: string

record workload_decomposition =
  wd_Metric :: string
  wd_VolumeEffect :: "f64 option"
  wd_MixEffect :: "f64 option"
  wd_WithinClassEffect :: "f64 option"
  wd_Residual :: "f64 option"
  wd_Status :: string
  wd_Classes :: "string list"

record invocation_counts =
  ic_HostCalls :: int
  ic_LeafCalls :: int
  ic_HostResults :: int
  ic_LeafResults :: int
  ic_UnknownCalls :: int

record native_outlier =
  ol_Metric :: string
  ol_NativeValue :: "f64 option"
  ol_NativeUnit :: string
  ol_Direction :: string
  ol_Magnitude :: "f64 option"

record confounder_stratum =
  ct_Kind :: string
  ct_State :: string
  ct_Matched :: bool
  ct_Confidence :: string
  ct_Provenance :: string

record guardrail_result =
  gr_Name :: string
  gr_State :: string
  gr_Coverage :: string
  gr_EvidenceRefs :: "string list"

record report_window =
  rw_StartsAt :: go_time
  rw_EndsAt :: go_time
  rw_AsOf :: go_time
  rw_Coverage :: string
  rw_BaselineVersion :: string
  rw_SourceVersions :: "string list"

record report_scope_counts =
  rs_IncludedTrajectories :: int
  rs_ExcludedTrajectories :: "int option"
  rs_IncludedTurns :: int
  rs_ExcludedTurns :: "int option"
  rs_IncludedToolCalls :: int
  rs_ExcludedToolCalls :: "int option"
  rs_IncludedEvidence :: int
  rs_ExcludedEvidence :: "int option"

record report_source =
  ru_SourceKind :: string
  ru_Version :: string
  ru_Freshness :: string
  ru_Coverage :: string
  ru_RedactionState :: string
  ru_KnowledgeState :: string

record report_metric =
  rm_Name :: string
  rm_DisplayLabel :: string
  rm_Polarity :: string

record report_outlier =
  ro_Metric :: string
  ro_Scope :: string
  ro_Impact :: string
  ro_Coverage :: string
  ro_EvidenceWindow :: report_window
  ro_RecommendationCode :: string

record report_recommendation =
  rn_Code :: string
  rn_ViolatedContract :: string
  rn_Scope :: string
  rn_EvidenceConfidence :: string
  rn_ExpectedQualityImpact :: string
  rn_BroaderChangeRationale :: string

record report_provenance =
  rp_Field :: string
  rp_KnowledgeState :: string
  rp_Provenance :: string

record report_facts =
  rf_Version :: string
  rf_DisplayIdentity :: string
  rf_PrivacySuppressed :: bool
  rf_PreviousWindow :: "report_window option"
  rf_RollingWindows :: "report_window list"
  rf_ScopeCounts :: report_scope_counts
  rf_Sources :: "report_source list"
  rf_Metrics :: "report_metric list"
  rf_QualityGateState :: string
  rf_Outliers :: "report_outlier list"
  rf_Recommendations :: "report_recommendation list"
  rf_Provenance :: "report_provenance list"

record governance_result =
  gv_SchemaVersion :: string
  gv_Kind :: string
  gv_AuditReference :: string
  gv_Scope :: string
  gv_AsOf :: go_time
  gv_RevisionHash :: string
  gv_Coverage :: string
  gv_Metrics :: "metric_result list"
  gv_Findings :: "audit_finding list"
  gv_Recommendations :: "audit_recommendation list"
  gv_GovernanceOverhead :: "metric_result list"
  gv_Window :: audit_window
  gv_Contributions :: "scope_contribution list"
  gv_WorkloadEffects :: "workload_decomposition list"
  gv_InvocationCounts :: invocation_counts
  gv_Outliers :: "native_outlier list"
  gv_Confounders :: "confounder_stratum list"
  gv_Guardrails :: "guardrail_result list"
  gv_DerivationMethod :: string
  gv_OmittedCount :: int
  gv_ReportFacts :: "report_facts option"

end
