(* ===== verification/Metrics.thy ===== *)
theory Metrics
  imports Audit_Types
begin

text \<open>
  \<open>internal/metrics/metrics.go\<close>: the registry of metric definitions and the calculation of the native
  values. A panic of the program is None.
\<close>

abbreviation PolarityContextual :: string where "PolarityContextual \<equiv> ''contextual''"
abbreviation PolarityLowerBetter :: string where "PolarityLowerBetter \<equiv> ''lower_better''"
abbreviation PolarityHigherBetter :: string where "PolarityHigherBetter \<equiv> ''higher_better''"
abbreviation PolarityGuardrail :: string where "PolarityGuardrail \<equiv> ''guardrail''"

definition DefinitionVersion :: string where
  "DefinitionVersion = ''metric-v1''"

record metric_definition =
  df_Name :: string
  df_DisplayLabel :: string
  df_Version :: string
  df_Intent :: string
  df_Formula :: string
  df_Numerator :: string
  df_Denominator :: string
  df_NativeUnit :: string
  df_Polarity :: string
  df_MinimumSample :: int
  df_MinimumCoverage :: f64
  df_PracticalChange :: f64
  df_Hysteresis :: f64
  df_MinimumPersistence :: int
  df_CooldownWindows :: int
  df_EvidenceRequired :: "string list"
  df_Exclusions :: "string list"
  df_Confounders :: "string list"
  df_AllowedDiagnoses :: "string list"
  df_Guardrails :: "string list"
  df_Limitations :: "string list"
  df_MisuseRisk :: string

record metric_input =
  mi_CompletedTurns :: int
  mi_AttributedTurns :: int
  mi_BoundaryDecisions :: int
  mi_BoundaryViolations :: int
  mi_Checkpoints :: int
  mi_CompleteCheckpoints :: int
  mi_TotalTokens :: f64
  mi_NonCachedInputTokens :: f64
  mi_ToolCalls :: int
  mi_PassiveWaitCalls :: int
  mi_ToolResults :: int
  mi_OversizedResults :: int
  mi_RepeatedCalls :: int
  mi_ToolErrors :: int
  mi_ObservableMutations :: int
  mi_ValidatedMutations :: int
  mi_AcceptedEvidence :: int
  mi_RedactedEvidence :: int
  mi_CommentaryMessages :: int
  mi_WallClockSeconds :: f64
  mi_ActiveSeconds :: f64
  mi_ActiveRuntimeKnown :: bool
  mi_Coverage :: string
  mi_EvidenceRefs :: "string list"
  mi_Exclusions :: "string list"

section \<open>The registry\<close>

definition newDefinition ::
  "string \<Rightarrow> string \<Rightarrow> string \<Rightarrow> string \<Rightarrow> string \<Rightarrow> string \<Rightarrow> string \<Rightarrow> string \<Rightarrow> int \<Rightarrow> rat \<Rightarrow>
   string list \<Rightarrow> string list \<Rightarrow> string list \<Rightarrow> string list \<Rightarrow> string list \<Rightarrow> string list \<Rightarrow> string \<Rightarrow>
   metric_definition" where
  "newDefinition name label intent formula numerator denominator unit polarity minimum practical
     evidence exclusions confounders diagnoses guardrails limitations misuse =
     \<lparr> df_Name = name, df_DisplayLabel = label, df_Version = DefinitionVersion, df_Intent = intent,
       df_Formula = formula, df_Numerator = numerator, df_Denominator = denominator,
       df_NativeUnit = unit, df_Polarity = polarity, df_MinimumSample = minimum,
       df_MinimumCoverage = f64_round (90 / 100), df_PracticalChange = f64_round practical,
       df_Hysteresis = f64_div (f64_round practical) (Fin 2), df_MinimumPersistence = 2,
       df_CooldownWindows = 3, df_EvidenceRequired = evidence, df_Exclusions = exclusions,
       df_Confounders = confounders, df_AllowedDiagnoses = diagnoses, df_Guardrails = guardrails,
       df_Limitations = limitations, df_MisuseRisk = misuse \<rparr>"

definition quality_guardrails :: "string list" where
  "quality_guardrails =
     [''completion_coverage'', ''validation_presence'', ''permission_boundaries'', ''privacy_coverage'']"

definition registry :: "metric_definition list" where
  "registry = [
      newDefinition ''scope_attribution_coverage'' ''Scope attribution coverage''
        ''Measure completed turns with explicit task/project attribution.''
        ''attributed completed turns / completed turns'' ''attributed completed turns''
        ''completed turns'' ''ratio'' PolarityHigherBetter 1 (2 / 100) [''turns'', ''tasks'' ,
        ''sessions'' ] [''privacy_suppressed_small_cohorts''] [''adapter_coverage'']
        [''scope_attribution_gap''] quality_guardrails [''unknown_attribution_is_not_failure'']
        ''Must not infer ownership or rank people.'',
      newDefinition ''boundary_violation_rate'' ''Boundary violation rate''
        ''Measure observed denied or violated boundary decisions.''
        ''denied or violated boundaries / observed boundary decisions''
        ''denied or violated boundaries'' ''observed boundary decisions'' ''ratio''
        PolarityLowerBetter 1 (1 / 100) [''boundaries''] [''unknown_boundary_outcome'']
        [''policy_version'', ''risk_class'' ] [''boundary_violation''] quality_guardrails
        [''host_boundary_remains_authoritative''] ''Never converts a metric into permission.'',
      newDefinition ''checkpoint_completeness'' ''Checkpoint completeness''
        ''Measure structured checkpoints containing completion, next action, and gate state.''
        ''complete checkpoints / observed checkpoints'' ''complete checkpoints''
        ''observed checkpoints'' ''ratio'' PolarityHigherBetter 1 (5 / 100) [''checkpoints'']
        [''read_only_sessions_without_checkpoint_requirement''] [''workflow_phase'']
        [''checkpoint_gap''] quality_guardrails [''counts_do_not_score_prose_quality'']
        ''Checkpoint volume is not a quality score.'',
      newDefinition ''tokens_per_turn'' ''Tokens per turn''
        ''Show native token workload per completed turn.''
        ''valid total-token deltas / completed turns'' ''valid total-token deltas''
        ''completed turns'' ''tokens/turn'' PolarityContextual 1 (5 / 100)
        [''observations:usage'', ''turns'' ] [''incomplete_turns''] [''model'', ''tokenizer'' ,
        ''workload_class'' ] [] quality_guardrails [''contextual_not_quality'']
        ''Must not trigger model or effort downgrade.'',
      newDefinition ''non_cached_input_per_turn'' ''Non-cached input per turn''
        ''Measure native non-cached input deltas per completed turn.''
        ''valid non-cached input deltas / completed turns'' ''valid non-cached input deltas''
        ''completed turns'' ''tokens/turn'' PolarityLowerBetter 1 (5 / 100)
        [''observations:usage'', ''observations:cache'' , ''turns'' ]
        [''unknown_cache_accounting''] [''model'', ''tool_schema'' , ''instruction'' , ''memory''
        , ''media'' ] [''cache_churn'', ''context_growth'' ] quality_guardrails
        [''quality_guardrail_required'']
        ''API and subscription accounting must remain separate.'',
      newDefinition ''passive_waits_per_100_tool_calls'' ''Passive waits per 100 tool calls''
        ''Detect avoidable passive polling while preserving required waits.''
        ''classified passive waits / valid logical tool calls * 100''
        ''classified passive waits'' ''valid logical tool calls'' ''calls/100_tool_calls''
        PolarityLowerBetter 5 (10 / 100) [''tool_calls'', ''state_epochs'' ,
        ''execution_events:stop'' ] [''required_external_waits'', ''user_requested_cadence'' ]
        [''external_wait'', ''approval_state'' ] [''passive_polling''] quality_guardrails
        [''classification_may_be_unknown''] ''User-requested polling cadence is never waste.'',
      newDefinition ''oversized_outputs_per_100_tool_results''
        ''Oversized outputs per 100 tool results''
        ''Identify oversized text results without treating binary size as text.''
        ''text results above versioned threshold / valid text tool results * 100''
        ''oversized text tool results'' ''valid text tool results'' ''results/100_tool_results''
        PolarityLowerBetter 5 (10 / 100) [''items'', ''tool_calls'' ] [''binary_media'',
        ''necessary_complete_output'' ] [''output_modality'', ''workload_class'' ]
        [''oversized_output''] quality_guardrails [''threshold_is_versioned'']
        ''Required evidence must not be truncated.'',
      newDefinition ''repeated_calls_per_100_tool_calls'' ''Repeated calls per 100 tool calls''
        ''Measure unchanged repeated logical calls within one state epoch.''
        ''repeat candidates / valid logical tool calls * 100''
        ''same canonical call in unchanged state epoch'' ''valid logical tool calls''
        ''calls/100_tool_calls'' PolarityLowerBetter 5 (10 / 100) [''tool_calls'',
        ''state_epochs'' ] [''state_changed'', ''retry_after_changed_arguments'' ,
        ''final_gate_validation'' ] [''repository_state'', ''review_state'' ,
        ''external_version'' ] [''repeated_unchanged_call''] quality_guardrails
        [''canonicalization_is_redacted'']
        ''Post-mutation or final-gate validation is not a duplicate.'',
      newDefinition ''commentary_per_turn'' ''Commentary per turn''
        ''Show user-visible coordination volume.'' ''commentary items / completed turns''
        ''user-visible commentary items'' ''completed turns'' ''messages/turn''
        PolarityContextual 1 (10 / 100) [''items'', ''turns'' ] [] [''workload_class'',
        ''user_update_requirement'' ] [] quality_guardrails [''never_automatically_waste'']
        ''Necessary communication must not be suppressed.'',
      newDefinition ''wall_clock_runtime_per_turn'' ''Wall-clock runtime per turn''
        ''Show elapsed runtime per completed turn.''
        ''unioned elapsed duration / completed turns'' ''unioned elapsed response duration''
        ''completed turns'' ''seconds/turn'' PolarityContextual 1 (10 / 100) [''responses'',
        ''turns'' ] [''incomplete_turns''] [''host_load'', ''external_service'' ,
        ''workload_class'' ] [] quality_guardrails [''host_load_is_a_confounder'']
        ''Latency alone does not imply poor quality.'',
      newDefinition ''active_runtime_per_turn'' ''Active runtime per turn''
        ''Show elapsed runtime excluding observable passive blocking.''
        ''unioned active intervals / completed turns'' ''unioned active intervals''
        ''completed turns'' ''seconds/turn'' PolarityContextual 1 (10 / 100) [''phases'',
        ''tool_calls'' , ''turns'' ] [''external_blocking'', ''approval_wait'' , ''user_wait'' ]
        [''host_load'', ''parallelism'' , ''workload_class'' ] [] quality_guardrails
        [''unobservable_waits_remain_unknown'']
        ''Parallel intervals must be unioned, not summed.'',
      newDefinition ''tool_error_rate'' ''Tool error rate''
        ''Guard against efficiency gains caused by failed tool work.''
        ''failed logical calls / valid logical calls'' ''failed logical calls''
        ''valid logical calls'' ''ratio'' PolarityGuardrail 5 (2 / 100) [''tool_calls''] []
        [''tool_family'', ''external_service'' ] [''tool_reliability''] []
        [''unknown_outcomes_block_promotion'']
        ''Errors must not be hidden to improve resource metrics.'',
      newDefinition ''validation_presence'' ''Required validation presence''
        ''Guard that mutations receive structured validation.''
        ''validated mutations / observable mutations'' ''validated mutations''
        ''observable mutations'' ''ratio'' PolarityGuardrail 1 (1 / 100) [''state_epochs'',
        ''tool_calls'' , ''execution_events:checkpoint'' ] [] [''mutation_kind'']
        [''missing_validation''] [] [''structured_events_only'']
        ''Required final/security/release validation is necessary work.'',
      newDefinition ''privacy_redaction_coverage'' ''Privacy redaction coverage''
        ''Guard that accepted evidence satisfies redaction requirements.''
        ''redacted accepted evidence / accepted evidence'' ''redacted accepted evidence''
        ''accepted evidence'' ''ratio'' PolarityGuardrail 1 (1 / 100) [''evidence_artifacts''] []
        [''source_kind''] [''privacy_gap''] [] [''suppressed_small_cohorts'']
        ''Privacy suppression must return unknown, never a fabricated pass.'']"

definition Definitions :: "metric_definition list" where
  "Definitions = registry"

definition definition_of :: "string \<Rightarrow> metric_definition option" where
  "definition_of name = find (\<lambda>item. df_Name item = name) registry"

section \<open>Calculation\<close>

definition invalidMeasurement :: "f64 \<Rightarrow> bool" where
  "invalidMeasurement v \<longleftrightarrow> f64_less v (Fin 0) \<or> f64_IsNaN v \<or> f64_IsInf v"

definition invalidInput :: "metric_input \<Rightarrow> bool" where
  "invalidInput i \<longleftrightarrow>
     (mi_CompletedTurns i < 0 \<or> mi_AttributedTurns i < 0 \<or>
      mi_BoundaryDecisions i < 0 \<or> mi_BoundaryViolations i < 0 \<or>
      mi_Checkpoints i < 0 \<or> mi_CompleteCheckpoints i < 0 \<or>
      mi_ToolCalls i < 0 \<or> mi_ToolResults i < 0 \<or>
      mi_PassiveWaitCalls i < 0 \<or> mi_OversizedResults i < 0 \<or>
      mi_RepeatedCalls i < 0 \<or> mi_ToolErrors i < 0 \<or>
      mi_ObservableMutations i < 0 \<or> mi_ValidatedMutations i < 0 \<or>
      mi_AcceptedEvidence i < 0 \<or> mi_RedactedEvidence i < 0 \<or>
      mi_CommentaryMessages i < 0) \<or>
     (mi_AttributedTurns i > mi_CompletedTurns i \<or>
      mi_BoundaryViolations i > mi_BoundaryDecisions i \<or>
      mi_CompleteCheckpoints i > mi_Checkpoints i \<or>
      mi_PassiveWaitCalls i > mi_ToolCalls i \<or>
      mi_OversizedResults i > mi_ToolResults i \<or>
      mi_RepeatedCalls i > mi_ToolCalls i \<or> mi_ToolErrors i > mi_ToolCalls i \<or>
      mi_ValidatedMutations i > mi_ObservableMutations i \<or>
      mi_RedactedEvidence i > mi_AcceptedEvidence i) \<or>
     (invalidMeasurement (mi_TotalTokens i) \<or>
      invalidMeasurement (mi_NonCachedInputTokens i) \<or>
      invalidMeasurement (mi_WallClockSeconds i) \<or>
      invalidMeasurement (mi_ActiveSeconds i) \<or>
      f64_less (mi_TotalTokens i) (mi_NonCachedInputTokens i) \<or>
      f64_less (mi_WallClockSeconds i) (mi_ActiveSeconds i))"

definition empty_metric :: metric_result where
  "empty_metric = \<lparr> mr_Name = '''', mr_Version = '''', mr_NativeValue = None, mr_NativeUnit = '''',
     mr_Numerator = None, mr_Denominator = None, mr_SampleCount = 0, mr_PreviousValue = None,
     mr_RollingMedian = None, mr_RollingMAD = None, mr_BaselineSampleCount = 0,
     mr_AbsoluteChangePrevious = None, mr_PercentageChangePrevious = None,
     mr_AbsoluteChangeRolling = None, mr_PercentageChangeRolling = None,
     mr_WorkloadAdjustedResidual = None, mr_PracticalThreshold = Fin 0, mr_Coverage = '''',
     mr_Status = '''', mr_StatusReason = '''', mr_Confidence = '''', mr_Uncertainty = '''',
     mr_Exclusions = [], mr_EvidenceRefs = [] \<rparr>"

definition ratio_of :: "metric_definition \<Rightarrow> string \<Rightarrow> f64 \<Rightarrow> int \<Rightarrow> metric_input \<Rightarrow> metric_result" where
  "ratio_of d name numerator denominator input =
     (let result = empty_metric\<lparr>
            mr_Name := name, mr_Version := DefinitionVersion, mr_NativeUnit := df_NativeUnit d,
            mr_SampleCount := denominator, mr_Coverage := mi_Coverage input,
            mr_Status := MetricStatusInsufficient, mr_Uncertainty := ''none'',
            mr_StatusReason := ''comparison_unavailable'', mr_Confidence := ''unknown'',
            mr_PracticalThreshold := df_PracticalChange d,
            mr_Exclusions := df_Exclusions d @ mi_Exclusions input,
            mr_EvidenceRefs := mi_EvidenceRefs input \<rparr>
      in if mi_Coverage input \<noteq> CoverageStateComplete
         then result\<lparr> mr_Uncertainty := ''coverage_incomplete'' \<rparr>
         else if name = ''active_runtime_per_turn'' \<and> \<not> mi_ActiveRuntimeKnown input
         then result\<lparr> mr_Uncertainty := ''active_runtime_unavailable'' \<rparr>
         else if denominator < df_MinimumSample d
         then result\<lparr> mr_Uncertainty := ''minimum_sample_not_met'' \<rparr>
         else result\<lparr> mr_NativeValue := Some (f64_div numerator (f64_of_int denominator)),
                      mr_Numerator := Some numerator,
                      mr_Denominator := Some (f64_of_int denominator),
                      mr_Status := MetricStatusFlat \<rparr>)"

definition ratio :: "string \<Rightarrow> f64 \<Rightarrow> int \<Rightarrow> metric_input \<Rightarrow> metric_result option" where
  "ratio name numerator denominator input =
     map_option (\<lambda>d. ratio_of d name numerator denominator input) (definition_of name)"

definition perHundred :: "string \<Rightarrow> int \<Rightarrow> int \<Rightarrow> metric_input \<Rightarrow> metric_result option" where
  "perHundred name numerator denominator input =
     map_option (\<lambda>r. r\<lparr> mr_NativeValue := map_option (\<lambda>v. f64_mul v (Fin 100)) (mr_NativeValue r) \<rparr>)
       (ratio name (f64_of_int numerator) denominator input)"

definition metric_name_before :: "metric_result \<Rightarrow> metric_result \<Rightarrow> bool" where
  "metric_name_before a b \<longleftrightarrow> mr_Name a < mr_Name b"

interpretation metric_name_order: slice_key metric_name_before mr_Name
  by unfold_locales (simp add: metric_name_before_def)

definition metric_list :: "metric_input \<Rightarrow> metric_result option list" where
  "metric_list i = [
     ratio ''scope_attribution_coverage'' (f64_of_int (mi_AttributedTurns i)) (mi_CompletedTurns i) i,
     ratio ''boundary_violation_rate'' (f64_of_int (mi_BoundaryViolations i)) (mi_BoundaryDecisions i) i,
     ratio ''checkpoint_completeness'' (f64_of_int (mi_CompleteCheckpoints i)) (mi_Checkpoints i) i,
     ratio ''tokens_per_turn'' (mi_TotalTokens i) (mi_CompletedTurns i) i,
     ratio ''non_cached_input_per_turn'' (mi_NonCachedInputTokens i) (mi_CompletedTurns i) i,
     perHundred ''passive_waits_per_100_tool_calls'' (mi_PassiveWaitCalls i) (mi_ToolCalls i) i,
     perHundred ''oversized_outputs_per_100_tool_results'' (mi_OversizedResults i) (mi_ToolResults i) i,
     perHundred ''repeated_calls_per_100_tool_calls'' (mi_RepeatedCalls i) (mi_ToolCalls i) i,
     ratio ''tool_error_rate'' (f64_of_int (mi_ToolErrors i)) (mi_ToolCalls i) i,
     ratio ''validation_presence'' (f64_of_int (mi_ValidatedMutations i)) (mi_ObservableMutations i) i,
     ratio ''privacy_redaction_coverage'' (f64_of_int (mi_RedactedEvidence i)) (mi_AcceptedEvidence i) i,
     ratio ''commentary_per_turn'' (f64_of_int (mi_CommentaryMessages i)) (mi_CompletedTurns i) i,
     ratio ''wall_clock_runtime_per_turn'' (mi_WallClockSeconds i) (mi_CompletedTurns i) i,
     ratio ''active_runtime_per_turn'' (mi_ActiveSeconds i) (mi_CompletedTurns i) i]"

definition Compute :: "metric_input \<Rightarrow> (string + metric_result list) option" where
  "Compute i =
     (if invalidInput i then Some (Inl ''metric input is inconsistent'')
      else map_option (\<lambda>rs. Inr (sort_slice metric_name_before rs)) (those (metric_list i)))"

section \<open>Looking up definitions\<close>

text \<open>The unit and the minimum sample of each metric.\<close>

definition metric_units :: "(string \<times> string \<times> int) list" where
  "metric_units = map (\<lambda>d. (df_Name d, df_NativeUnit d, df_MinimumSample d)) registry"

lemma definition_of_unit:
  "map_option (\<lambda>d. (df_NativeUnit d, df_MinimumSample d)) (definition_of name) = map_of metric_units name"
proof -
  have "map_option (\<lambda>d. (df_NativeUnit d, df_MinimumSample d)) (find (\<lambda>item. df_Name item = name) ds) =
      map_of (map (\<lambda>d. (df_Name d, df_NativeUnit d, df_MinimumSample d)) ds) name" for ds
    by (induction ds) auto
  then show ?thesis
    by (simp add: definition_of_def metric_units_def)
qed

lemma metric_units_eq:
  "metric_units = [
     (''scope_attribution_coverage'', ''ratio'', 1), (''boundary_violation_rate'', ''ratio'', 1),
     (''checkpoint_completeness'', ''ratio'', 1), (''tokens_per_turn'', ''tokens/turn'', 1),
     (''non_cached_input_per_turn'', ''tokens/turn'', 1),
     (''passive_waits_per_100_tool_calls'', ''calls/100_tool_calls'', 5),
     (''oversized_outputs_per_100_tool_results'', ''results/100_tool_results'', 5),
     (''repeated_calls_per_100_tool_calls'', ''calls/100_tool_calls'', 5),
     (''commentary_per_turn'', ''messages/turn'', 1), (''wall_clock_runtime_per_turn'', ''seconds/turn'', 1),
     (''active_runtime_per_turn'', ''seconds/turn'', 1), (''tool_error_rate'', ''ratio'', 5),
     (''validation_presence'', ''ratio'', 1), (''privacy_redaction_coverage'', ''ratio'', 1)]"
  by (simp add: metric_units_def registry_def newDefinition_def)

section \<open>Values stay within their unit\<close>

text \<open>What a value of a metric must satisfy: a ratio of counts lies between 0 and 1, a rate per
  hundred between 0 and 100.\<close>

definition within_unit :: "metric_result \<Rightarrow> bool" where
  "within_unit r \<longleftrightarrow>
     (case mr_NativeValue r of
        None \<Rightarrow> True
      | Some v \<Rightarrow>
          (if mr_NativeUnit r = ''ratio'' then f64_le (Fin 0) v \<and> f64_le v (Fin 1)
           else if mr_NativeUnit r \<in> {''calls/100_tool_calls'', ''results/100_tool_results''}
           then f64_le (Fin 0) v \<and> f64_le v (Fin 100) else True))"

lemma f64_le_Fin [simp]: "f64_le (Fin a) (Fin b) \<longleftrightarrow> a \<le> b"
  by (auto simp: f64_le_def f64_eq_def)

text \<open>A calculated value exists exactly when the evidence covers the metric.\<close>

definition covered :: "string \<Rightarrow> int \<Rightarrow> int \<Rightarrow> metric_input \<Rightarrow> bool" where
  "covered name denominator minimum i \<longleftrightarrow> mi_Coverage i = CoverageStateComplete \<and>
     (name = ''active_runtime_per_turn'' \<longrightarrow> mi_ActiveRuntimeKnown i) \<and> minimum \<le> denominator"

lemma ratio_of_simps [simp]:
  "mr_Name (ratio_of d name n den i) = name"
  "mr_NativeUnit (ratio_of d name n den i) = df_NativeUnit d"
  "mr_SampleCount (ratio_of d name n den i) = den"
  "mr_NativeValue (ratio_of d name n den i) =
     (if covered name den (df_MinimumSample d) i then Some (f64_div n (f64_of_int den)) else None)"
  by (auto simp: ratio_of_def Let_def covered_def empty_metric_def)

lemma ratio_ok:
  assumes "map_of metric_units name = Some (unit, minimum)"
  shows "\<exists>r. ratio name n den i = Some r \<and> mr_Name r = name \<and> mr_NativeUnit r = unit \<and>
    mr_NativeValue r = (if covered name den minimum i then Some (f64_div n (f64_of_int den)) else None)"
proof -
  obtain d where "definition_of name = Some d" "df_NativeUnit d = unit" "df_MinimumSample d = minimum"
    using definition_of_unit [of name] assms by (cases "definition_of name") auto
  then show ?thesis
    by (auto simp: ratio_def)
qed

lemma count_ratio_ok:
  assumes "map_of metric_units name = Some (''ratio'', minimum)" and "1 \<le> minimum"
    and "0 \<le> a" and "a \<le> b" and "b \<le> max_int64"
  shows "\<exists>r. ratio name (f64_of_int a) b i = Some r \<and> mr_Name r = name \<and> within_unit r"
proof -
  obtain r where r: "ratio name (f64_of_int a) b i = Some r" "mr_Name r = name" "mr_NativeUnit r = ''ratio''"
    "mr_NativeValue r = (if covered name b minimum i then Some (f64_div (f64_of_int a) (f64_of_int b)) else None)"
    using ratio_ok [OF assms(1)] by blast
  show ?thesis
  proof (cases "covered name b minimum i")
    case True
    then have "0 < b"
      using assms(2) by (simp add: covered_def)
    then show ?thesis
      using r True f64_share [OF assms(3,4) _ assms(5)] by (auto simp: within_unit_def)
  qed (use r in \<open>auto simp: within_unit_def\<close>)
qed

lemma percent_ratio_ok:
  assumes "map_of metric_units name = Some (unit, minimum)" and "1 \<le> minimum"
    and "unit \<in> {''calls/100_tool_calls'', ''results/100_tool_results''}"
    and "0 \<le> a" and "a \<le> b" and "b \<le> max_int64"
  shows "\<exists>r. perHundred name a b i = Some r \<and> mr_Name r = name \<and> within_unit r"
proof -
  obtain r where r: "ratio name (f64_of_int a) b i = Some r" "mr_Name r = name" "mr_NativeUnit r = unit"
    "mr_NativeValue r = (if covered name b minimum i then Some (f64_div (f64_of_int a) (f64_of_int b)) else None)"
    using ratio_ok [OF assms(1)] by blast
  show ?thesis
  proof (cases "covered name b minimum i")
    case True
    then have "0 < b"
      using assms(2) by (simp add: covered_def)
    then obtain v where "mr_NativeValue r = Some (Fin v)" "0 \<le> v" "v \<le> 1"
      using r True f64_share [OF assms(4,5) _ assms(6)] by auto
    then show ?thesis
      using r assms(3) f64_percent [of v] by (auto simp: perHundred_def within_unit_def)
  qed (use r assms(3) in \<open>auto simp: perHundred_def within_unit_def\<close>)
qed

lemma other_ratio_ok:
  assumes "map_of metric_units name = Some (unit, minimum)"
    and "unit \<notin> {''ratio'', ''calls/100_tool_calls'', ''results/100_tool_results''}"
  shows "\<exists>r. ratio name n b i = Some r \<and> mr_Name r = name \<and> within_unit r"
  using ratio_ok [OF assms(1), of n b i] assms(2) by (auto simp: within_unit_def split: option.splits)

lemma those_ok:
  "list_all (\<lambda>x. \<exists>r. x = Some r \<and> P r) xs \<Longrightarrow> \<exists>rs. those xs = Some rs \<and> map Some rs = xs \<and> list_all P rs"
  by (induction xs) auto

text \<open>All counts fit a machine integer.\<close>

definition counts_fit :: "metric_input \<Rightarrow> bool" where
  "counts_fit i \<longleftrightarrow> list_all (\<lambda>n. n \<le> max_int64)
     [mi_CompletedTurns i, mi_BoundaryDecisions i, mi_Checkpoints i, mi_ToolCalls i, mi_ToolResults i,
      mi_ObservableMutations i, mi_AcceptedEvidence i]"

definition unit_in :: "string \<Rightarrow> string set \<Rightarrow> bool" where
  "unit_in name us \<longleftrightarrow> (case map_of metric_units name of None \<Rightarrow> False | Some (u, m) \<Rightarrow> u \<in> us \<and> 1 \<le> m)"

lemma count_ratio_within:
  "unit_in name {''ratio''} \<Longrightarrow> 0 \<le> a \<Longrightarrow> a \<le> b \<Longrightarrow> b \<le> max_int64 \<Longrightarrow>
     \<exists>r. ratio name (f64_of_int a) b i = Some r \<and> mr_Name r = name \<and> within_unit r"
  using count_ratio_ok [of name] by (auto simp: unit_in_def split: option.splits)

lemma percent_ratio_within:
  "unit_in name {''calls/100_tool_calls'', ''results/100_tool_results''} \<Longrightarrow> 0 \<le> a \<Longrightarrow> a \<le> b \<Longrightarrow>
     b \<le> max_int64 \<Longrightarrow> \<exists>r. perHundred name a b i = Some r \<and> mr_Name r = name \<and> within_unit r"
  using percent_ratio_ok [of name] by (auto simp: unit_in_def split: option.splits)

lemma other_ratio_within:
  "unit_in name {''tokens/turn'', ''messages/turn'', ''seconds/turn''} \<Longrightarrow>
     \<exists>r. ratio name n b i = Some r \<and> mr_Name r = name \<and> within_unit r"
  using other_ratio_ok [of name] by (auto simp: unit_in_def split: option.splits)

definition metric_names :: "string list" where
  "metric_names = [''scope_attribution_coverage'', ''boundary_violation_rate'', ''checkpoint_completeness'',
     ''tokens_per_turn'', ''non_cached_input_per_turn'', ''passive_waits_per_100_tool_calls'',
     ''oversized_outputs_per_100_tool_results'', ''repeated_calls_per_100_tool_calls'', ''tool_error_rate'',
     ''validation_presence'', ''privacy_redaction_coverage'', ''commentary_per_turn'',
     ''wall_clock_runtime_per_turn'', ''active_runtime_per_turn'']"

lemma metric_list_ok:
  assumes "\<not> invalidInput i" and "counts_fit i"
  shows "list_all2 (\<lambda>name x. \<exists>r. x = Some r \<and> mr_Name r = name \<and> within_unit r) metric_names (metric_list i)"
proof -
  note valid = assms(1) [unfolded invalidInput_def de_Morgan_disj not_less]
  note fit = assms(2) [unfolded counts_fit_def list.pred_inject]
  have u: "unit_in name {''ratio''}" if "name \<in> {''scope_attribution_coverage'', ''boundary_violation_rate'',
      ''checkpoint_completeness'', ''tool_error_rate'', ''validation_presence'', ''privacy_redaction_coverage''}" for name
    using that by (elim insertE emptyE; simp only:; simp add: unit_in_def metric_units_eq)
  have p: "unit_in name {''calls/100_tool_calls'', ''results/100_tool_results''}" if "name \<in>
      {''passive_waits_per_100_tool_calls'', ''oversized_outputs_per_100_tool_results'',
       ''repeated_calls_per_100_tool_calls''}" for name
    using that by (elim insertE emptyE; simp only:; simp add: unit_in_def metric_units_eq)
  have o: "unit_in name {''tokens/turn'', ''messages/turn'', ''seconds/turn''}" if "name \<in>
      {''tokens_per_turn'', ''non_cached_input_per_turn'', ''commentary_per_turn'',
       ''wall_clock_runtime_per_turn'', ''active_runtime_per_turn''}" for name
    using that by (elim insertE emptyE; simp only:; simp add: unit_in_def metric_units_eq)
  show ?thesis
    unfolding metric_list_def metric_names_def list_all2_Cons list_all2_Nil
    by (intro conjI refl;
        ((rule count_ratio_within [OF u], (simp; fail), use valid fit in simp, use valid fit in simp,
            use valid fit in simp)
          | (rule percent_ratio_within [OF p], (simp; fail), use valid fit in simp, use valid fit in simp,
            use valid fit in simp)
          | (rule other_ratio_within [OF o], simp)))
qed

lemma those_list_all2:
  "list_all2 (\<lambda>n x. \<exists>r. x = Some r \<and> f r = n \<and> P r) ns xs \<Longrightarrow>
     \<exists>rs. those xs = Some rs \<and> map f rs = ns \<and> list_all P rs"
  by (induction ns xs rule: list_all2_induct) auto

text \<open>C25: every metric is calculated and every value stays within its unit. For a consistent input
  whose counts fit a machine integer, Compute neither panics nor fails: it returns exactly one
  result for each of the fourteen metrics, sorted by name, and after all rounding each ratio of
  counts lies between 0 and 1 and each rate per hundred between 0 and 100.\<close>
theorem compute_within_units:
  assumes "\<not> invalidInput i" and "counts_fit i"
  shows "\<exists>rs. Compute i = Some (Inr rs) \<and> map mr_Name rs = sort_strings metric_names \<and>
    list_all within_unit rs"
proof -
  obtain rs where rs: "those (metric_list i) = Some rs" "map mr_Name rs = metric_names" "list_all within_unit rs"
    using those_list_all2 [OF metric_list_ok [OF assms]] by blast
  have "map mr_Name (sort_slice metric_name_before rs) = sort_strings metric_names"
  proof -
    have "mset (map mr_Name (sort_slice metric_name_before rs)) = mset metric_names"
      using rs(2) by (metis mset_map mset_sort_slice)
    then have "sort metric_names = map mr_Name (sort_slice metric_name_before rs)"
      using metric_name_order.sorted_sort_slice by (rule properties_for_sort)
    then show ?thesis
      by (simp add: sort_strings_def strings_order.sort_slice_eq)
  qed
  then show ?thesis
    using rs assms(1) by (auto simp: Compute_def list_all_iff)
qed

definition sample_input :: metric_input where
  "sample_input = \<lparr> mi_CompletedTurns = 3, mi_AttributedTurns = 2, mi_BoundaryDecisions = 0,
     mi_BoundaryViolations = 0, mi_Checkpoints = 1, mi_CompleteCheckpoints = 1, mi_TotalTokens = Fin 900,
     mi_NonCachedInputTokens = Fin 300, mi_ToolCalls = 10, mi_PassiveWaitCalls = 2, mi_ToolResults = 10,
     mi_OversizedResults = 0, mi_RepeatedCalls = 1, mi_ToolErrors = 0, mi_ObservableMutations = 2,
     mi_ValidatedMutations = 1, mi_AcceptedEvidence = 5, mi_RedactedEvidence = 5, mi_CommentaryMessages = 4,
     mi_WallClockSeconds = Fin 60, mi_ActiveSeconds = Fin 45, mi_ActiveRuntimeKnown = True,
     mi_Coverage = CoverageStateComplete, mi_EvidenceRefs = [], mi_Exclusions = [] \<rparr>"

theorem compute_within_units_witness:
  "\<exists>rs. Compute sample_input = Some (Inr rs) \<and> length rs = 14 \<and> list_all within_unit rs"
proof -
  have "\<not> invalidInput sample_input" and "counts_fit sample_input"
    by (simp_all add: sample_input_def invalidInput_def invalidMeasurement_def f64_IsNaN_def f64_IsInf_def
        counts_fit_def max_int64_def)
  then obtain rs where "Compute sample_input = Some (Inr rs)" "map mr_Name rs = sort_strings metric_names"
    "list_all within_unit rs"
    using compute_within_units [of sample_input] by blast
  moreover have "length rs = length metric_names"
    using \<open>map mr_Name rs = sort_strings metric_names\<close> by (metis length_map length_sort_strings)
  ultimately show ?thesis
    by (simp add: metric_names_def)
qed

end
