(* ===== verification/Baseline.thy ===== *)
theory Baseline
  imports Metrics "HOL-Library.Product_Lexorder"
begin

text \<open>
  \<open>internal/baseline/baseline.go\<close>: comparison of a metric with its previous value and a robust
  baseline, and \<open>internal/outlier/outlier.go\<close>: the ranking of deviations. A panic is None.
\<close>

record baseline_window =
  bw_Value :: "f64 option"
  bw_Coverage :: string
  bw_MetricVersion :: string
  bw_Comparable :: bool
  bw_GuardrailsPass :: bool

record baseline_comparison =
  bc_Previous :: baseline_window
  bc_Rolling :: "baseline_window list"
  bc_Seasonal :: "baseline_window list"
  bc_WorkloadExpected :: "f64 option"
  bc_ConfoundersMatched :: bool
  bc_HysteresisActive :: bool
  bc_PersistenceCount :: int
  bc_PrivacySuppressed :: bool

section \<open>Sorting and the median\<close>

text \<open>\<open>sort.Float64s\<close> places values that are not a number first.\<close>

definition float_before :: "f64 \<Rightarrow> f64 \<Rightarrow> bool" where
  "float_before x y \<longleftrightarrow> f64_less x y \<or> (x = NaN \<and> y \<noteq> NaN)"

fun float_key :: "f64 \<Rightarrow> nat \<times> rat" where
  "float_key NaN = (0, 0)"
| "float_key NegInf = (1, 0)"
| "float_key (Fin a) = (2, a)"
| "float_key PosInf = (3, 0)"

interpretation float_order: slice_key float_before float_key
proof
  show "float_before a b \<longleftrightarrow> float_key a < float_key b" for a b
    by (cases a; cases b) (auto simp: float_before_def less_prod_def)
qed

definition Median :: "f64 list \<Rightarrow> f64 option" where
  "Median vs =
     (let sorted_values = sort_slice float_before vs; middle = length sorted_values div 2
      in if sorted_values = [] then None
         else if even (length sorted_values)
         then Some (f64_div (f64_add (sorted_values ! (middle - 1)) (sorted_values ! middle)) (Fin 2))
         else Some (sorted_values ! middle))"

section \<open>Comparison\<close>

definition window_compatible :: "metric_result \<Rightarrow> baseline_window \<Rightarrow> bool" where
  "window_compatible current w \<longleftrightarrow>
     (case bw_Value w of None \<Rightarrow> False | Some v \<Rightarrow> f64_finite v) \<and>
     bw_Coverage w = CoverageStateComplete \<and> bw_MetricVersion w = mr_Version current \<and> bw_Comparable w"

definition compatibleValues :: "metric_result \<Rightarrow> baseline_window list \<Rightarrow> f64 list" where
  "compatibleValues current ws = map (\<lambda>w. the (bw_Value w)) (filter (window_compatible current) ws)"

definition value_change :: "f64 \<Rightarrow> f64 \<Rightarrow> f64 option \<times> f64 option" where
  "value_change current base =
     (let absolute = f64_sub current base
      in if f64_eq base (Fin 0) then (Some absolute, None)
         else (Some absolute, Some (f64_div absolute base)))"

definition relativeEffect :: "f64 \<Rightarrow> f64 \<Rightarrow> f64" where
  "relativeEffect current base =
     (if f64_eq base (Fin 0) then
        (if f64_eq current (Fin 0) then Fin 0 else signed_inf (f64_positive current))
      else f64_div (f64_sub current base) base)"

definition signsConflict :: "f64 \<Rightarrow> f64 \<Rightarrow> bool" where
  "signsConflict x y \<longleftrightarrow>
     \<not> f64_eq x (Fin 0) \<and> \<not> f64_eq y (Fin 0) \<and> f64_positive x \<noteq> f64_positive y"

definition confidence_of :: "int \<Rightarrow> f64 \<Rightarrow> f64 \<Rightarrow> string" where
  "confidence_of sample mad median =
     (if 7 \<le> sample \<and> (f64_eq median (Fin 0) \<or>
           f64_le (f64_div mad (f64_abs median)) (f64_round (10 / 100))) then ''high''
      else if 3 \<le> sample then ''medium'' else ''low'')"

text \<open>The values the baseline is taken from, with the reason that is kept when the seasonal ones
  stand in; the number of rolling values when there are too few of both.\<close>

definition baseline_values ::
  "metric_result \<Rightarrow> baseline_comparison \<Rightarrow> nat + string \<times> f64 list" where
  "baseline_values current c =
     (let rolling = compatibleValues current (bc_Rolling c);
          seasonal = compatibleValues current (bc_Seasonal c)
      in if 3 \<le> length rolling then Inr (''comparison_unavailable'', rolling)
         else if 3 \<le> length seasonal then Inr (''seasonal_last_n_fallback'', seasonal)
         else Inl (length rolling))"

definition noise_level :: "metric_definition \<Rightarrow> f64 \<Rightarrow> f64 \<Rightarrow> f64" where
  "noise_level d mad median =
     (if \<not> f64_eq median (Fin 0) \<and> f64_less (df_PracticalChange d) (f64_div mad median)
      then f64_div mad median else df_PracticalChange d)"

definition lowerIsBetter :: "metric_definition \<Rightarrow> string \<Rightarrow> bool" where
  "lowerIsBetter d name \<longleftrightarrow> df_Polarity d = PolarityLowerBetter \<or>
     (df_Polarity d = PolarityGuardrail \<and> name = ''tool_error_rate'')"

text \<open>The verdict once median and deviation are known.\<close>

definition verdict ::
  "metric_result \<Rightarrow> metric_definition \<Rightarrow> baseline_comparison \<Rightarrow> f64 \<Rightarrow> f64 \<Rightarrow> f64 \<Rightarrow> f64 \<Rightarrow> nat \<Rightarrow> metric_result" where
  "verdict current d c v prev median mad n =
     (let effectPrevious = relativeEffect v prev; effectRolling = relativeEffect v median;
          noise = noise_level d mad median; conf = confidence_of (int n) mad median
      in if \<not> bw_GuardrailsPass (bc_Previous c)
         then current\<lparr> mr_StatusReason := ''guardrail_regressed_or_unknown'' \<rparr>
         else if \<not> bc_ConfoundersMatched c
         then current\<lparr> mr_Status := MetricStatusMixed, mr_StatusReason := ''confounder_unmatched'',
                       mr_Confidence := ''low'' \<rparr>
         else if f64_le (f64_abs effectPrevious) noise \<and> f64_le (f64_abs effectRolling) noise
         then current\<lparr> mr_Status := MetricStatusFlat,
                       mr_StatusReason := ''within_practical_or_noise_threshold'', mr_Confidence := conf \<rparr>
         else if signsConflict effectPrevious effectRolling \<or> df_Polarity d = PolarityContextual
         then current\<lparr> mr_Status := MetricStatusMixed,
                       mr_StatusReason := ''contextual_or_baselines_conflict'', mr_Confidence := conf \<rparr>
         else if bc_HysteresisActive c \<or> bc_PersistenceCount c < df_MinimumPersistence d
         then current\<lparr> mr_Status := MetricStatusFlat, mr_StatusReason := ''hysteresis_or_persistence'',
                       mr_Confidence := ''medium'' \<rparr>
         else current\<lparr> mr_Status := (if (if lowerIsBetter d (mr_Name current)
                                         then f64_less effectRolling (Fin 0)
                                         else f64_less (Fin 0) effectRolling)
                                     then MetricStatusImproved else MetricStatusWorsened),
                       mr_StatusReason := ''meaningful_matched_change'', mr_Confidence := conf \<rparr>)"

definition with_baseline ::
  "metric_result \<Rightarrow> baseline_comparison \<Rightarrow> f64 \<Rightarrow> f64 \<Rightarrow> f64 \<Rightarrow> f64 \<Rightarrow> nat \<Rightarrow> metric_result" where
  "with_baseline current c v prev median mad n =
     current\<lparr> mr_PreviousValue := Some prev, mr_RollingMedian := Some median, mr_RollingMAD := Some mad,
       mr_BaselineSampleCount := int n,
       mr_AbsoluteChangePrevious := fst (value_change v prev),
       mr_PercentageChangePrevious := snd (value_change v prev),
       mr_AbsoluteChangeRolling := fst (value_change v median),
       mr_PercentageChangeRolling := snd (value_change v median),
       mr_WorkloadAdjustedResidual := (case bc_WorkloadExpected c of
           None \<Rightarrow> mr_WorkloadAdjustedResidual current
         | Some e \<Rightarrow> Some (f64_sub v e)) \<rparr>"

definition baseline_Apply ::
  "metric_result \<Rightarrow> metric_definition \<Rightarrow> baseline_comparison \<Rightarrow> metric_result option" where
  "baseline_Apply metric d c =
     (let current = metric\<lparr> mr_PracticalThreshold := df_PracticalChange d,
            mr_Status := MetricStatusInsufficient, mr_StatusReason := ''comparison_unavailable'',
            mr_Confidence := ''unknown'' \<rparr>
      in case mr_NativeValue current of
           None \<Rightarrow> Some (current\<lparr> mr_StatusReason := ''current_incomplete'' \<rparr>)
         | Some v \<Rightarrow>
             if \<not> f64_finite v \<or> mr_Coverage current \<noteq> CoverageStateComplete
             then Some (current\<lparr> mr_StatusReason := ''current_incomplete'' \<rparr>)
             else if bc_PrivacySuppressed c
             then Some (current\<lparr> mr_StatusReason := ''privacy_suppressed'', mr_Uncertainty := ''small_cohort'' \<rparr>)
             else if \<not> window_compatible current (bc_Previous c)
             then Some (current\<lparr> mr_StatusReason := ''previous_incompatible'' \<rparr>)
             else (case baseline_values current c of
                 Inl n \<Rightarrow> Some (current\<lparr> mr_StatusReason := ''baseline_sample_not_met'',
                                         mr_BaselineSampleCount := int n \<rparr>)
               | Inr (reason, vs) \<Rightarrow>
                   (case Median vs of
                      None \<Rightarrow> None
                    | Some median \<Rightarrow>
                        (case Median (map (\<lambda>x. f64_abs (f64_sub x median)) vs) of
                           None \<Rightarrow> None
                         | Some mad \<Rightarrow>
                             (let prev = the (bw_Value (bc_Previous c));
                                  current = with_baseline (current\<lparr> mr_StatusReason := reason \<rparr>)
                                    c v prev median mad (length vs)
                              in Some (verdict current d c v prev median mad (length vs)))))))"

section \<open>Outliers\<close>

definition outlier_of :: "metric_result \<Rightarrow> native_outlier option" where
  "outlier_of m =
     (case (mr_NativeValue m, mr_RollingMedian m, mr_RollingMAD m) of
        (Some v, Some median, Some mad) \<Rightarrow>
          if \<not> f64_finite v \<or> \<not> f64_finite median \<or> \<not> f64_finite mad \<or> f64_le mad (Fin 0) then None
          else Some \<lparr> ol_Metric = mr_Name m, ol_NativeValue = Some v, ol_NativeUnit = mr_NativeUnit m,
                      ol_Direction = (if f64_less v median then ''lower'' else ''higher''),
                      ol_Magnitude = Some (f64_div (f64_abs (f64_sub v median)) mad) \<rparr>
      | _ \<Rightarrow> None)"

definition magnitude :: "native_outlier \<Rightarrow> f64" where
  "magnitude o1 = the (ol_Magnitude o1)"

definition outlier_before :: "native_outlier \<Rightarrow> native_outlier \<Rightarrow> bool" where
  "outlier_before a b \<longleftrightarrow>
     (if f64_eq (magnitude a) (magnitude b) then ol_Metric a < ol_Metric b
      else f64_less (magnitude b) (magnitude a))"

definition outlier_Rank :: "metric_result list \<Rightarrow> native_outlier list" where
  "outlier_Rank ms = take 10 (sort_slice outlier_before (List.map_filter outlier_of ms))"

end
