(* ===== verification/Baseline_Props.thy ===== *)
theory Baseline_Props
  imports Baseline
begin

text \<open>
  What a verdict of the baseline comparison rests on, and what the ranking of outliers keeps.
\<close>

section \<open>Signs survive rounding\<close>

lemma f64_round_nonneg: "0 \<le> x \<Longrightarrow> \<not> f64_less (f64_round x) (Fin 0)"
proof (cases "x = 0")
  case True
  then show ?thesis
    by (simp add: f64_round_def)
next
  case False
  then show "\<not> f64_less (f64_round x) (Fin 0)" if "0 \<le> x"
    using f64_round_pos [of x] rounded_nonneg [of x] that by simp
qed

lemma f64_round_nonpos: "x \<le> 0 \<Longrightarrow> \<not> f64_less (Fin 0) (f64_round x)"
  using f64_round_nonneg [of "- x"] by (cases "f64_round x") (auto simp: f64_round_minus)

lemma relativeEffect_negative:
  assumes "0 \<le> m" and "f64_less (relativeEffect (Fin v) (Fin m)) (Fin 0)"
  shows "v < m"
proof (rule ccontr)
  assume "\<not> v < m"
  show False
  proof (cases "m = 0")
    case True
    then show ?thesis
      using assms \<open>\<not> v < m\<close>
      by (auto simp: relativeEffect_def f64_eq_def signed_inf_def split: if_splits)
  next
    case False
    have diff: "f64_sub (Fin v) (Fin m) = f64_round (v - m)"
      by (simp add: sub_with_def)
    have "\<not> f64_less (f64_div (f64_round (v - m)) (Fin m)) (Fin 0)"
      using f64_round_nonneg [of "v - m"] f64_round_nonneg False assms(1) \<open>\<not> v < m\<close>
      by (cases "f64_round (v - m)") (auto simp: div_with_def signed_inf_def)
    then show ?thesis
      using assms(2) False diff by (simp add: relativeEffect_def f64_eq_def)
  qed
qed

lemma relativeEffect_positive:
  assumes "0 \<le> m" and "f64_less (Fin 0) (relativeEffect (Fin v) (Fin m))"
  shows "m < v"
proof (rule ccontr)
  assume "\<not> m < v"
  show False
  proof (cases "m = 0")
    case True
    then show ?thesis
      using assms \<open>\<not> m < v\<close>
      by (auto simp: relativeEffect_def f64_eq_def signed_inf_def split: if_splits)
  next
    case False
    have diff: "f64_sub (Fin v) (Fin m) = f64_round (v - m)"
      by (simp add: sub_with_def)
    have "\<not> f64_less (Fin 0) (f64_div (f64_round (v - m)) (Fin m))"
      using f64_round_nonpos [of "v - m"] f64_round_nonpos False assms(1) \<open>\<not> m < v\<close>
      by (cases "f64_round (v - m)") (auto simp: div_with_def signed_inf_def divide_nonpos_nonneg)
    then show ?thesis
      using assms(2) False diff by (simp add: relativeEffect_def f64_eq_def)
  qed
qed

section \<open>The cases of the comparison\<close>

lemma Median_None: "Median vs = None \<longleftrightarrow> vs = []"
  by (simp add: Median_def Let_def)

lemma window_compatible_cong [simp]:
  "window_compatible (m\<lparr> mr_PracticalThreshold := p, mr_Status := s, mr_StatusReason := r, mr_Confidence := c \<rparr>) =
     window_compatible m"
  by (simp add: window_compatible_def fun_eq_iff)

lemma baseline_values_cong [simp]:
  "baseline_values (m\<lparr> mr_PracticalThreshold := p, mr_Status := s, mr_StatusReason := r, mr_Confidence := c \<rparr>) =
     baseline_values m"
  by (simp add: baseline_values_def compatibleValues_def fun_eq_iff)

text \<open>The comparison always returns; it is either insufficient or the verdict over at least three
  compatible values.\<close>

lemma baseline_Apply_cases:
  "\<exists>r. baseline_Apply metric d c = Some r \<and>
    (mr_Status r = MetricStatusInsufficient \<or>
     (\<exists>v reason vs median mad cur. mr_NativeValue metric = Some (Fin v) \<and>
        mr_Coverage metric = CoverageStateComplete \<and> \<not> bc_PrivacySuppressed c \<and>
        window_compatible metric (bc_Previous c) \<and> baseline_values metric c = Inr (reason, vs) \<and>
        Median vs = Some median \<and> mr_Name cur = mr_Name metric \<and> mr_Status cur = MetricStatusInsufficient \<and>
        r = verdict cur d c (Fin v) (the (bw_Value (bc_Previous c))) median mad (length vs)))"
proof (cases "mr_NativeValue metric")
  case None
  then show ?thesis
    by (simp add: baseline_Apply_def Let_def)
next
  case (Some x)
  show ?thesis
  proof (cases "\<not> f64_finite x \<or> mr_Coverage metric \<noteq> CoverageStateComplete \<or> bc_PrivacySuppressed c \<or>
      \<not> window_compatible metric (bc_Previous c)")
    case True
    then show ?thesis
      using Some by (auto simp: baseline_Apply_def Let_def)
  next
    case False
    then obtain v where v: "x = Fin v"
      by (auto simp: f64_finite_Fin)
    show ?thesis
    proof (cases "baseline_values metric c")
      case (Inl n)
      then show ?thesis
        using Some False by (auto simp: baseline_Apply_def Let_def)
    next
      case (Inr p)
      then obtain reason vs where vs: "baseline_values metric c = Inr (reason, vs)"
        by (cases p) auto
      then have "vs \<noteq> []"
        by (auto simp: baseline_values_def Let_def split: if_splits)
      then obtain median mad where m: "Median vs = Some median"
        "Median (map (\<lambda>x. f64_abs (f64_sub x median)) vs) = Some mad"
        by (metis Median_None map_is_Nil_conv option.exhaust)
      define cur where "cur = with_baseline (metric\<lparr> mr_PracticalThreshold := df_PracticalChange d,
          mr_Status := MetricStatusInsufficient, mr_Confidence := ''unknown'', mr_StatusReason := reason \<rparr>)
        c (Fin v) (the (bw_Value (bc_Previous c))) median mad (length vs)"
      have "baseline_Apply metric d c =
          Some (verdict cur d c (Fin v) (the (bw_Value (bc_Previous c))) median mad (length vs))"
        using Some False v vs m by (simp add: baseline_Apply_def Let_def cur_def)
      moreover have "mr_Name cur = mr_Name metric \<and> mr_Status cur = MetricStatusInsufficient"
        by (simp add: cur_def with_baseline_def)
      ultimately show ?thesis
        using Some False v vs m(1) by blast
    qed
  qed
qed

lemma baseline_values_three: "baseline_values m c = Inr (reason, vs) \<Longrightarrow> 3 \<le> length vs"
  by (auto simp: baseline_values_def Let_def split: if_splits)

lemma verdict_decided:
  assumes "mr_Status (verdict cur d c v prev median mad n) \<in> {MetricStatusImproved, MetricStatusWorsened}"
    and "mr_Status cur = MetricStatusInsufficient"
  shows "bw_GuardrailsPass (bc_Previous c) \<and> bc_ConfoundersMatched c \<and> df_Polarity d \<noteq> PolarityContextual \<and>
    \<not> bc_HysteresisActive c \<and> df_MinimumPersistence d \<le> bc_PersistenceCount c \<and>
    (mr_Status (verdict cur d c v prev median mad n) = MetricStatusImproved \<longleftrightarrow>
       (if lowerIsBetter d (mr_Name cur) then f64_less (relativeEffect v median) (Fin 0)
        else f64_less (Fin 0) (relativeEffect v median)))"
  using assms by (auto simp: verdict_def Let_def split: if_splits)

text \<open>A metric is called improved or worsened only on matched evidence. The comparison always
  returns; when its status is improved or worsened, the current value is finite with complete
  coverage, nothing was suppressed, the previous window is compatible and its guardrails passed,
  confounders match, the metric is not contextual, the change persisted and is not within the
  hysteresis, and the baseline is the median of at least three compatible windows. When the status
  is improved and that median is a non-negative number, the current value is on the better side of
  it: below it where lower is better, above it otherwise.\<close>
theorem verdict_needs_evidence:
  shows "\<exists>r. baseline_Apply metric d c = Some r \<and>
    (if mr_Status r \<in> {MetricStatusImproved, MetricStatusWorsened}
     then \<exists>v vs reason median. mr_NativeValue metric = Some (Fin v) \<and>
        mr_Coverage metric = CoverageStateComplete \<and> \<not> bc_PrivacySuppressed c \<and>
        window_compatible metric (bc_Previous c) \<and> bw_GuardrailsPass (bc_Previous c) \<and>
        bc_ConfoundersMatched c \<and> df_Polarity d \<noteq> PolarityContextual \<and> \<not> bc_HysteresisActive c \<and>
        df_MinimumPersistence d \<le> bc_PersistenceCount c \<and>
        baseline_values metric c = Inr (reason, vs) \<and> 3 \<le> length vs \<and> Median vs = Some median \<and>
        (case median of
           Fin m \<Rightarrow> (if mr_Status r = MetricStatusImproved \<and> 0 \<le> m
                     then (if lowerIsBetter d (mr_Name metric) then v < m else m < v) else True)
         | _ \<Rightarrow> True)
     else True)"
proof -
  obtain r where run: "baseline_Apply metric d c = Some r" and
    cases: "mr_Status r = MetricStatusInsufficient \<or>
     (\<exists>v reason vs median mad cur. mr_NativeValue metric = Some (Fin v) \<and>
        mr_Coverage metric = CoverageStateComplete \<and> \<not> bc_PrivacySuppressed c \<and>
        window_compatible metric (bc_Previous c) \<and> baseline_values metric c = Inr (reason, vs) \<and>
        Median vs = Some median \<and> mr_Name cur = mr_Name metric \<and> mr_Status cur = MetricStatusInsufficient \<and>
        r = verdict cur d c (Fin v) (the (bw_Value (bc_Previous c))) median mad (length vs))"
    using baseline_Apply_cases [of metric d c] by blast
  show ?thesis
  proof (cases "mr_Status r \<in> {MetricStatusImproved, MetricStatusWorsened}")
    case True
    then have "mr_Status r \<noteq> MetricStatusInsufficient"
      by auto
    then obtain v reason vs median mad cur where e: "mr_NativeValue metric = Some (Fin v)"
      "mr_Coverage metric = CoverageStateComplete" "\<not> bc_PrivacySuppressed c"
      "window_compatible metric (bc_Previous c)" "baseline_values metric c = Inr (reason, vs)"
      "Median vs = Some median" "mr_Name cur = mr_Name metric" "mr_Status cur = MetricStatusInsufficient"
      "r = verdict cur d c (Fin v) (the (bw_Value (bc_Previous c))) median mad (length vs)"
      using cases by blast
    note decided = verdict_decided [OF True [unfolded e(9)] e(8), folded e(9), unfolded e(7)]
    have "case median of
        Fin m \<Rightarrow> (if mr_Status r = MetricStatusImproved \<and> 0 \<le> m
                  then (if lowerIsBetter d (mr_Name metric) then v < m else m < v) else True)
      | _ \<Rightarrow> True"
      using decided relativeEffect_negative relativeEffect_positive by (cases median) auto
    note side = this
    show ?thesis
      unfolding run option.inject simp_thms ex_simps if_P [OF True]
      using e(1-6) decided baseline_values_three [OF e(5)] side
      by (intro exI [of _ r] exI [of _ v] exI [of _ vs] exI [of _ reason] exI [of _ median]) (simp add: True)
  qed (use run in auto)
qed

text \<open>A metric that is back at its rolling median is called worsened whatever the direction of
  its change against the previous window, because the sign of the effect against the median decides
  and zero counts as worse. With guardrails passed, confounders matched, a polarity of lower is
  better and a persistent change against the previous value beyond the noise, a value equal to the
  median gets the status worsened.\<close>
theorem median_recovery_called_worsened:
  assumes "bw_GuardrailsPass (bc_Previous c)" and "bc_ConfoundersMatched c"
    and "\<not> bc_HysteresisActive c" and "df_MinimumPersistence d \<le> bc_PersistenceCount c"
    and "df_Polarity d = PolarityLowerBetter"
    and "\<not> f64_le (f64_abs (relativeEffect (Fin m) prev)) (noise_level d mad (Fin m))"
  shows "mr_Status (verdict cur d c (Fin m) prev (Fin m) mad n) = MetricStatusWorsened"
proof -
  have "relativeEffect (Fin m) (Fin m) = Fin 0"
    by (auto simp: relativeEffect_def f64_eq_def sub_with_def div_with_def f64_round_def)
  then show ?thesis
    using assms by (simp add: verdict_def Let_def signsConflict_def f64_eq_def lowerIsBetter_def)
qed



lemma median_recovery_called_worsened_witness:
  "relativeEffect (Fin 0) (Fin 2) = Fin (- 1) \<and>
   mr_Status (verdict empty_metric
     (newDefinition ''latency'' [] [] [] [] [] [] PolarityLowerBetter 1 0 [] [] [] [] [] [] [])
     \<lparr> bc_Previous = \<lparr> bw_Value = Some (Fin 2), bw_Coverage = ''complete'', bw_MetricVersion = [],
          bw_Comparable = True, bw_GuardrailsPass = True \<rparr>,
        bc_Rolling = [], bc_Seasonal = [], bc_WorkloadExpected = None, bc_ConfoundersMatched = True,
        bc_HysteresisActive = False, bc_PersistenceCount = 2, bc_PrivacySuppressed = False \<rparr>
     (Fin 0) (Fin 2) (Fin 0) (Fin 0) 3) = MetricStatusWorsened"
proof -
  have "f64_round (- 2) = Fin (- 2)" and "f64_round (- 1) = Fin (- 1)"
    using f64_rep_int [of "- 2"] f64_rep_int [of "- 1"] by (auto simp: f64_rep_def)
  then have effect: "relativeEffect (Fin 0) (Fin 2) = Fin (- 1)"
    by (simp add: relativeEffect_def f64_eq_def sub_with_def div_with_def)
  then show ?thesis
    by (intro conjI median_recovery_called_worsened)
      (simp_all add: newDefinition_def noise_level_def f64_eq_def f64_round_def f64_le_def)
qed

section \<open>The ranking of outliers\<close>

lemma sort_slice_Cons: "sort_slice lt (z # zs) = insort_slice lt z (sort_slice lt zs)"
  by (simp add: sort_slice_def)

lemma sort_slice_cong:
  assumes "\<And>a b. a \<in> set xs \<Longrightarrow> b \<in> set xs \<Longrightarrow> lt a b = lt' a b"
  shows "sort_slice lt xs = sort_slice lt' xs"
proof -
  have insort: "insort_slice lt x ys = insort_slice lt' x ys" if "x \<in> set xs" "set ys \<subseteq> set xs" for x ys
    using that assms by (induction ys) auto
  have "set zs \<subseteq> set xs \<Longrightarrow> sort_slice lt zs = sort_slice lt' zs" for zs
  proof (induction zs)
    case (Cons z zs)
    then show ?case
      using insort [of z "sort_slice lt zs"] by (simp add: sort_slice_Cons)
  qed simp
  then show ?thesis
    by simp
qed

text \<open>Magnitudes of outliers are never negative and always numbers, so their order has a key.\<close>

fun magnitude_key :: "f64 \<Rightarrow> nat \<times> rat" where
  "magnitude_key (Fin a) = (1, - a)"
| "magnitude_key _ = (0, 0)"

definition outlier_key :: "native_outlier \<Rightarrow> (nat \<times> rat) \<times> string" where
  "outlier_key a = (magnitude_key (magnitude a), ol_Metric a)"

interpretation keyed_outliers: slice_key "\<lambda>a b. outlier_key a < outlier_key b" outlier_key
  by unfold_locales simp

definition ranked_magnitude :: "native_outlier \<Rightarrow> bool" where
  "ranked_magnitude a \<longleftrightarrow> (case magnitude a of Fin x \<Rightarrow> 0 \<le> x | PosInf \<Rightarrow> True | _ \<Rightarrow> False)"

lemma outlier_before_key:
  "ranked_magnitude a \<Longrightarrow> ranked_magnitude b \<Longrightarrow> outlier_before a b \<longleftrightarrow> outlier_key a < outlier_key b"
  by (auto simp: outlier_before_def outlier_key_def ranked_magnitude_def less_prod_def f64_eq_def
      split: f64.splits)

lemma magnitude_le_key:
  "ranked_magnitude a \<Longrightarrow> ranked_magnitude b \<Longrightarrow> outlier_key a \<le> outlier_key b \<Longrightarrow>
     f64_le (magnitude b) (magnitude a)"
  by (auto simp: outlier_key_def ranked_magnitude_def less_eq_prod_def f64_le_def f64_eq_def
      split: f64.splits)

lemma f64_round_cases:
  assumes "0 \<le> x"
  obtains y where "f64_round x = Fin y" "0 \<le> y" | "f64_round x = PosInf"
  using assms f64_round_nonneg [OF assms] f64_round_pos [of x]
  by (cases "x = 0"; cases "f64_round x") (auto simp: f64_round_def [of 0] split: if_splits)

lemma f64_abs_round: "f64_abs (f64_round x) = f64_round \<bar>x\<bar>"
proof (cases "0 \<le> x")
  case True
  then show ?thesis
    by (cases rule: f64_round_cases [OF True]) auto
next
  case False
  then show ?thesis
    using f64_round_minus [of x] f64_round_cases [of "- x"] by (cases "f64_round x") force+
qed

lemma outlier_of_ranked: "outlier_of m = Some a \<Longrightarrow> ranked_magnitude a"
proof -
  assume "outlier_of m = Some a"
  then obtain v median mad where fin: "f64_finite v" "f64_finite median" "f64_finite mad" "\<not> f64_le mad (Fin 0)"
    and a: "magnitude a = f64_div (f64_abs (f64_sub v median)) mad"
    by (auto simp: outlier_of_def magnitude_def split: option.splits if_splits)
  then obtain x y z where xyz: "v = Fin x" "median = Fin y" "mad = Fin z"
    by (auto simp: f64_finite_Fin)
  then have z: "0 < z"
    using fin(4) by (auto simp: f64_le_def f64_eq_def)
  have "f64_abs (f64_sub v median) = f64_round \<bar>x - y\<bar>"
    by (simp add: xyz sub_with_def f64_abs_round)
  then have m: "magnitude a = f64_div (f64_round \<bar>x - y\<bar>) (Fin z)"
    by (simp add: a xyz)
  show ?thesis
  proof (cases rule: f64_round_cases [of "\<bar>x - y\<bar>", OF abs_ge_zero])
    case (1 w)
    then have "0 \<le> w / z"
      using z by simp
    then show ?thesis
      using m 1 z by (cases rule: f64_round_cases) (auto simp: div_with_def ranked_magnitude_def)
  next
    case 2
    then show ?thesis
      using m z by (auto simp: div_with_def ranked_magnitude_def signed_inf_def)
  qed
qed

lemma outliers_ranked: "a \<in> set (List.map_filter outlier_of ms) \<Longrightarrow> ranked_magnitude a"
  by (auto simp: List.map_filter_def dest: outlier_of_ranked)

lemma outliers_sorted_by_key:
  "sort_slice outlier_before (List.map_filter outlier_of ms) = sort_key outlier_key (List.map_filter outlier_of ms)"
proof -
  have "sort_slice outlier_before (List.map_filter outlier_of ms) =
      sort_slice (\<lambda>a b. outlier_key a < outlier_key b) (List.map_filter outlier_of ms)"
    by (rule sort_slice_cong) (use outliers_ranked outlier_before_key in blast)
  then show ?thesis
    by (simp add: keyed_outliers.sort_slice_eq)
qed

text \<open>The ranking keeps the ten largest deviations. The outliers of a run are the ranked list and
  a rest; the ranked list has ten entries or all of them, magnitudes fall along it, and no outlier
  of the rest is larger than a ranked one.\<close>
theorem outlier_rank_top_ten:
  "\<exists>rest. mset (outlier_Rank ms) + mset rest = mset (List.map_filter outlier_of ms) \<and>
     length (outlier_Rank ms) = min 10 (length (List.map_filter outlier_of ms)) \<and>
     sorted_wrt (\<lambda>a b. f64_le (magnitude b) (magnitude a)) (outlier_Rank ms @ rest)"
proof -
  define xs where "xs = sort_key outlier_key (List.map_filter outlier_of ms)"
  have rank: "outlier_Rank ms = take 10 xs"
    by (simp add: outlier_Rank_def outliers_sorted_by_key xs_def)
  have "sorted_wrt (\<lambda>a b. outlier_key a \<le> outlier_key b) xs"
    using sorted_sort_key [of outlier_key "List.map_filter outlier_of ms"] by (simp add: xs_def sorted_map)
  then have "sorted_wrt (\<lambda>a b. f64_le (magnitude b) (magnitude a)) xs"
    by (rule sorted_wrt_mono_rel [rotated]) (auto simp: xs_def intro: magnitude_le_key outliers_ranked)
  moreover have "mset (take 10 xs) + mset (drop 10 xs) = mset (List.map_filter outlier_of ms)"
    by (metis append_take_drop_id mset_append mset_sort xs_def)
  ultimately show ?thesis
    by (intro exI [of _ "drop 10 xs"]) (simp add: rank xs_def)
qed

end
