(* ===== verification/Recommendation.thy ===== *)
theory Recommendation
  imports Audit_Types
begin

text \<open>
  \<open>internal/diagnosis/diagnosis.go\<close>: the detectors that turn observations into findings, and
  \<open>internal/recommendation/recommendation.go\<close>: the recommendations previewed from findings.
\<close>

section \<open>Detectors\<close>

definition diagnosis_Version :: string where
  "diagnosis_Version = ''detector-v1''"

record observation =
  ob_Code :: string
  ob_Cause :: string
  ob_ExceptionCheck :: string
  ob_Classification :: string
  ob_Coverage :: string
  ob_PositiveCount :: int
  ob_Denominator :: int
  ob_MinimumSample :: int
  ob_MinimumRate :: f64
  ob_EvidenceRefs :: "string list"
  ob_Counterevidence :: "string list"
  ob_RequiredWork :: bool
  ob_ConfounderMatched :: bool

definition bounded_refs :: "string list \<Rightarrow> nat \<Rightarrow> string list" where
  "bounded_refs vs limit = take limit (sort_strings vs)"

text \<open>The classification and the confidence of a finding, before an empty classification is replaced.\<close>

definition finding_class :: "observation \<Rightarrow> string \<times> string" where
  "finding_class ob =
     (if ob_RequiredWork ob then (''necessary'', ''high'')
      else if ob_Coverage ob \<noteq> CoverageStateComplete \<or> ob_Denominator ob < ob_MinimumSample ob
      then (''uncertain'', ''unknown'')
      else if \<not> ob_ConfounderMatched ob \<or> ob_Counterevidence ob \<noteq> [] then (''mixed'', ''medium'')
      else (ob_Classification ob, ''high''))"

definition below_rate :: "observation \<Rightarrow> bool" where
  "below_rate ob \<longleftrightarrow> 0 < ob_Denominator ob \<and> f64_less (Fin 0) (ob_MinimumRate ob) \<and>
     f64_le (f64_div (f64_of_int (ob_PositiveCount ob)) (f64_of_int (ob_Denominator ob))) (ob_MinimumRate ob)"

definition diagnosis_evaluate :: "observation \<Rightarrow> audit_finding option" where
  "diagnosis_evaluate ob =
     (if ob_PositiveCount ob \<le> 0 then None
      else if below_rate ob then None
      else (let (classification, confidence) = finding_class ob
            in Some \<lparr> fd_Code = ob_Code ob, fd_Detector = ob_Code ob, fd_DetectorVersion = diagnosis_Version,
                      fd_Cause = ob_Cause ob, fd_ExceptionCheck = ob_ExceptionCheck ob,
                      fd_Classification = (if classification = '''' then ''uncertain'' else classification),
                      fd_Confidence = confidence, fd_EvidenceRefs = bounded_refs (ob_EvidenceRefs ob) 100,
                      fd_Counterevidence = bounded_refs (ob_Counterevidence ob) 20 \<rparr>))"

definition finding_before :: "audit_finding \<Rightarrow> audit_finding \<Rightarrow> bool" where
  "finding_before a b \<longleftrightarrow> fd_Code a < fd_Code b"

interpretation finding_order: slice_key finding_before fd_Code
  by unfold_locales (simp add: finding_before_def)

definition diagnosis_Evaluate :: "observation list \<Rightarrow> audit_finding list" where
  "diagnosis_Evaluate obs = sort_slice finding_before (List.map_filter diagnosis_evaluate obs)"

section \<open>Recommendations\<close>

definition recommendation_Version :: string where
  "recommendation_Version = ''recommendation-v1''"

record feedback =
  fb_State :: string
  fb_CooldownUntil :: go_time
  fb_EvidenceRevision :: string

record recommendation_context =
  cx_AsOf :: go_time
  cx_ExistingRuleCoverage :: "string \<rightharpoonup> bool"
  cx_Feedback :: "string \<rightharpoonup> feedback"
  cx_MaterialEvidenceRevision :: string
  cx_EvidenceRevisions :: "string \<rightharpoonup> string"
  cx_QualityGuardrailsPass :: bool

definition rule_covered :: "recommendation_context \<Rightarrow> string \<Rightarrow> bool" where
  "rule_covered cx code = (case cx_ExistingRuleCoverage cx code of None \<Rightarrow> False | Some b \<Rightarrow> b)"

definition evidence_revision :: "recommendation_context \<Rightarrow> string \<Rightarrow> string" where
  "evidence_revision cx code =
     (case cx_EvidenceRevisions cx code of
        None \<Rightarrow> cx_MaterialEvidenceRevision cx
      | Some r \<Rightarrow> if r \<noteq> '''' then r else cx_MaterialEvidenceRevision cx)"

definition suppressed :: "string \<Rightarrow> recommendation_context \<Rightarrow> bool" where
  "suppressed code cx =
     (case cx_Feedback cx code of
        None \<Rightarrow> False
      | Some f \<Rightarrow>
          if fb_State f \<noteq> ''dismissed'' then False
          else (let revision = evidence_revision cx code;
                    newEvidence = revision \<noteq> '''' \<and> revision \<noteq> fb_EvidenceRevision f
                in cx_AsOf cx < fb_CooldownUntil f \<and> \<not> newEvidence))"

definition preview ::
  "audit_finding \<Rightarrow> string \<Rightarrow> string \<Rightarrow> string \<Rightarrow> string \<Rightarrow> string \<Rightarrow> string list \<Rightarrow> audit_recommendation" where
  "preview f code target action movement verification risks =
     \<lparr> rc_Code = code, rc_PolicyVersion = recommendation_Version, rc_LifecycleState = ''proposed'',
       rc_TargetSurface = target, rc_Action = action, rc_ExpectedMovement = movement,
       rc_ProtectedGuardrails = [''completion'', ''permissions'', ''privacy'', ''quality'', ''safety'', ''validation''],
       rc_ApprovalRequired = True, rc_Verification = verification, rc_Risks = risks,
       rc_EvidenceRefs = fd_EvidenceRefs f \<rparr>"

definition recommendation_candidate :: "audit_finding \<Rightarrow> audit_recommendation option" where
  "recommendation_candidate f =
     (if fd_Code f = ''scope_attribution_gap'' then
        Some (preview f ''restore_scope_attribution'' ''collector_mapping''
          ''Restore explicit normalized task attribution at the adapter boundary.''
          ''higher scope attribution coverage without identity disclosure''
          ''Replay the same synthetic attribution fixtures and require observed keyed task aliases.''
          [''privacy suppression may keep small cohorts unknown''])
      else if fd_Code f = ''checkpoint_gap'' then
        Some (preview f ''complete_checkpoint_contract'' ''validation_cadence''
          ''Record completion, next action, and remaining gate counts at required checkpoints.''
          ''higher checkpoint completeness without extra checkpoint volume''
          ''Replay matched checkpoint fixtures and require all structured fields.''
          [''unnecessary checkpoints add governance overhead''])
      else if fd_Code f = ''passive_polling'' then
        Some (preview f ''wait_on_state_change'' ''validation_cadence''
          ''Replace unchanged polling with the configured wait or user-requested cadence.''
          ''lower passive waits with unchanged completion and coverage''
          ''Replay a matched window and require fewer unchanged polls with no missed state transition.''
          [''external state may require polling''])
      else if fd_Code f = ''repeated_unchanged_call'' then
        Some (preview f ''reuse_unchanged_evidence'' ''tool_output_budget''
          ''Reuse the prior bounded result until relevant state changes.''
          ''lower repeated calls with equal evidence coverage''
          ''Replay a matched window and require fewer duplicate calls with equal evidence coverage.''
          [''stale evidence after an unobserved mutation''])
      else if fd_Code f = ''missing_validation'' then
        Some (preview f ''validate_after_mutation'' ''validation_cadence''
          ''Run the smallest configured validation after each observable mutation.''
          ''higher validation presence without weakening final gates''
          ''Replay the next matched window and require complete mutation validation coverage.''
          [''validation cost may rise for mutation-heavy work''])
      else if fd_Code f = ''privacy_redaction_gap'' then
        Some (preview f ''restore_redaction_coverage'' ''project_instruction''
          ''Restore configured redaction before accepting additional evidence.''
          ''complete privacy redaction coverage''
          ''Re-run redaction fixtures and require no accepted evidence with unknown redaction state.''
          [''suppression may reduce metric coverage''])
      else None)"

definition noAction :: audit_recommendation where
  "noAction =
     \<lparr> rc_Code = ''no_action'', rc_PolicyVersion = recommendation_Version, rc_LifecycleState = ''proposed'',
       rc_TargetSurface = ''no_action'', rc_Action = ''Keep the current workflow.'',
       rc_ExpectedMovement = ''none'',
       rc_ProtectedGuardrails = [''all_configured_quality_and_safety_gates''],
       rc_ApprovalRequired = False,
       rc_Verification = ''Re-audit after new comparable evidence is available.'',
       rc_Risks = [], rc_EvidenceRefs = [] \<rparr>"

definition finding_skipped :: "recommendation_context \<Rightarrow> audit_finding \<Rightarrow> bool" where
  "finding_skipped cx f \<longleftrightarrow>
     fd_Classification f = ''necessary'' \<or> fd_Classification f = ''uncertain'' \<or>
     rule_covered cx (fd_Code f) \<or> suppressed (fd_Code f) cx \<or> \<not> cx_QualityGuardrailsPass cx"

text \<open>The loop over the sorted findings, with the recommendations so far.\<close>

fun generate_loop ::
  "recommendation_context \<Rightarrow> audit_recommendation list \<Rightarrow> audit_finding list \<Rightarrow> audit_recommendation list" where
  "generate_loop cx acc [] = acc"
| "generate_loop cx acc (f # fs) =
     (if length acc = 5 then acc
      else if finding_skipped cx f then generate_loop cx acc fs
      else (case recommendation_candidate f of
              Some r \<Rightarrow> generate_loop cx (acc @ [r]) fs
            | None \<Rightarrow> generate_loop cx acc fs))"

definition Generate :: "audit_finding list \<Rightarrow> recommendation_context \<Rightarrow> audit_recommendation list" where
  "Generate fs cx =
     (let result = generate_loop cx [] (sort_slice finding_before fs)
      in if result = [] then [noAction] else result)"

section \<open>Recommendations rest on evidence\<close>

definition recommended :: "recommendation_context \<Rightarrow> audit_finding \<Rightarrow> audit_recommendation option" where
  "recommended cx f = (if finding_skipped cx f then None else recommendation_candidate f)"

text \<open>The loop is the first five recommendations of a filter.\<close>

lemma generate_loop_eq:
  "length acc \<le> 5 \<Longrightarrow> generate_loop cx acc fs = acc @ take (5 - length acc) (List.map_filter (recommended cx) fs)"
proof (induction cx acc fs rule: generate_loop.induct)
  case (2 cx acc f fs)
  show ?case
  proof (cases "length acc = 5")
    case False
    then have "5 - length acc = Suc (5 - length (acc @ [r]))" for r :: audit_recommendation
      using 2(4) by simp
    then show ?thesis
      using 2 False by (auto simp: recommended_def List.map_filter_simps split: option.splits)
  qed simp
qed (simp add: List.map_filter_simps)

lemma candidate_preview:
  "recommendation_candidate f = Some r \<Longrightarrow> rc_ApprovalRequired r \<and> rc_LifecycleState r = ''proposed'' \<and>
     rc_Code r \<noteq> ''no_action'' \<and> rc_EvidenceRefs r = fd_EvidenceRefs f"
  by (auto simp: recommendation_candidate_def preview_def split: if_splits)

lemma evaluate_certain:
  assumes "diagnosis_evaluate ob = Some f"
    and "fd_Classification f \<noteq> ''necessary''" and "fd_Classification f \<noteq> ''uncertain''"
  shows "0 < ob_PositiveCount ob \<and> ob_Coverage ob = CoverageStateComplete \<and>
    ob_MinimumSample ob \<le> ob_Denominator ob \<and> \<not> ob_RequiredWork ob \<and> \<not> below_rate ob \<and>
    fd_Code f = ob_Code ob \<and> fd_EvidenceRefs f = bounded_refs (ob_EvidenceRefs ob) 100"
  using assms by (auto simp: diagnosis_evaluate_def finding_class_def Let_def split: if_splits prod.splits)

lemma map_filter_mem: "r \<in> set (List.map_filter f xs) \<longleftrightarrow> (\<exists>x\<in>set xs. f x = Some r)"
  by (force simp: List.map_filter_def)

lemma generate_member:
  "r \<in> set (Generate fs cx) \<Longrightarrow> r \<noteq> noAction \<Longrightarrow> \<exists>f\<in>set fs. recommended cx f = Some r"
  by (auto simp: Generate_def Let_def generate_loop_eq map_filter_mem dest!: in_set_takeD split: if_splits)

definition supports ::
  "recommendation_context \<Rightarrow> audit_recommendation \<Rightarrow> observation \<Rightarrow> bool" where
  "supports cx r ob \<longleftrightarrow>
     0 < ob_PositiveCount ob \<and> ob_Coverage ob = CoverageStateComplete \<and>
     ob_MinimumSample ob \<le> ob_Denominator ob \<and> \<not> ob_RequiredWork ob \<and> \<not> below_rate ob \<and>
     \<not> rule_covered cx (ob_Code ob) \<and> \<not> suppressed (ob_Code ob) cx \<and>
     rc_EvidenceRefs r = bounded_refs (ob_EvidenceRefs ob) 100"

text \<open>A recommendation rests on evidence. From any observations the generator returns one to five
  recommendations; the one that keeps the workflow stands alone; every other one needs approval,
  is only proposed, and carries the evidence of an observation that occurred, has complete coverage
  and the minimum sample, is above its minimum rate, is not required work, is not covered by an
  existing rule and not suppressed by a dismissal, in an audit whose guardrails pass.\<close>
theorem recommendations_grounded:
  "Generate (diagnosis_Evaluate obs) cx \<noteq> [] \<and> length (Generate (diagnosis_Evaluate obs) cx) \<le> 5 \<and>
   (Generate (diagnosis_Evaluate obs) cx = [noAction] \<or>
    (cx_QualityGuardrailsPass cx \<and>
     list_all (\<lambda>r. r \<noteq> noAction \<and> rc_ApprovalRequired r \<and> rc_LifecycleState r = ''proposed'' \<and>
       list_ex (supports cx r) obs) (Generate (diagnosis_Evaluate obs) cx)))"
proof -
  let ?fs = "diagnosis_Evaluate obs"
  let ?rs = "Generate ?fs cx"
  have shape: "?rs = [noAction] \<or> ?rs = take 5 (List.map_filter (recommended cx) (sort_slice finding_before ?fs)) \<and> ?rs \<noteq> []"
    by (auto simp: Generate_def Let_def generate_loop_eq)
  have member: "cx_QualityGuardrailsPass cx \<and> r \<noteq> noAction \<and> rc_ApprovalRequired r \<and>
      rc_LifecycleState r = ''proposed'' \<and> list_ex (supports cx r) obs"
    if r: "recommended cx f = Some r" and f: "f \<in> set ?fs" for r f
  proof -
    obtain ob where ob: "ob \<in> set obs" "diagnosis_evaluate ob = Some f"
      using f by (auto simp: diagnosis_Evaluate_def map_filter_mem)
    have skip: "\<not> finding_skipped cx f" and cand: "recommendation_candidate f = Some r"
      using r by (auto simp: recommended_def split: if_splits)
    have "supports cx r ob"
      using evaluate_certain [OF ob(2)] candidate_preview [OF cand] skip
      by (auto simp: supports_def finding_skipped_def)
    then show ?thesis
      using ob(1) candidate_preview [OF cand] skip by (auto simp: list_ex_iff noAction_def finding_skipped_def)
  qed
  show ?thesis
  proof (cases "?rs = [noAction]")
    case False
    then have rs: "?rs = take 5 (List.map_filter (recommended cx) (sort_slice finding_before ?fs))" "?rs \<noteq> []"
      using shape by auto
    have "\<exists>f. recommended cx f = Some r \<and> f \<in> set ?fs" if "r \<in> set ?rs" for r
      using that unfolding rs(1) by (auto dest!: in_set_takeD simp: map_filter_mem)
    then have all: "cx_QualityGuardrailsPass cx \<and> r \<noteq> noAction \<and> rc_ApprovalRequired r \<and>
        rc_LifecycleState r = ''proposed'' \<and> list_ex (supports cx r) obs" if "r \<in> set ?rs" for r
      using member that by blast
    then have "cx_QualityGuardrailsPass cx"
      using rs(2) by (meson last_in_set)
    then show ?thesis
      using all rs by (auto simp: list_all_iff)
  qed simp
qed

end
