(* ===== verification/Replay.thy ===== *)
theory Replay
  imports Metrics Go_Strings
begin

text \<open>
  \<open>internal/replay/replay.go\<close>: comparison of two audit revisions, and \<open>internal/eval\<close>: the decision
  of an evaluation run, the migration matrix and the corpus loaders. JSON coding, SHA-256 and the
  formatting of a time are parameters.
\<close>

section \<open>Comparison of revisions\<close>

definition replay_Version :: string where
  "replay_Version = ''replay-v1''"

record replay_manifest =
  mf_AuditRevisionHash :: string
  mf_InputHash :: string
  mf_ProjectVersions :: "string list"
  mf_SourceVersions :: "string list"
  mf_MetricVersions :: "string list"
  mf_PolicyVersions :: "string list"
  mf_AsOf :: string

text \<open>The standard library calls of the two packages, for values of an arbitrary type.\<close>

record 'v replay_env =
  ve_marshal :: "'v \<Rightarrow> string option"
  ve_marshal_manifest :: "replay_manifest \<Rightarrow> string option"
  ve_sha256 :: "string \<Rightarrow> string"
  ve_format :: "go_time \<Rightarrow> string"

definition sortedCopy :: "string list \<Rightarrow> string list" where
  "sortedCopy vs = sort_strings vs"

definition NewManifest ::
  "'v replay_env \<Rightarrow> governance_result \<Rightarrow> 'v \<Rightarrow> string list \<Rightarrow> string list \<Rightarrow> string list \<Rightarrow>
   string + replay_manifest" where
  "NewManifest env result input projectVersions sourceVersions policyVersions =
     (if gv_RevisionHash result = '''' \<or> aw_AsOf (gv_Window result) = 0
      then Inl ''replay revision provenance required''
      else (case ve_marshal env input of
              None \<Rightarrow> Inl ''encode replay input''
            | Some encoded \<Rightarrow>
                Inr \<lparr> mf_AuditRevisionHash = gv_RevisionHash result,
                      mf_InputHash = hex_encode (ve_sha256 env encoded),
                      mf_ProjectVersions = sortedCopy projectVersions,
                      mf_SourceVersions = sortedCopy sourceVersions,
                      mf_MetricVersions =
                        sort_strings (map (\<lambda>m. mr_Name m @ '':'' @ mr_Version m) (gv_Metrics result)),
                      mf_PolicyVersions = sortedCopy policyVersions,
                      mf_AsOf = ve_format env (aw_AsOf (gv_Window result)) \<rparr>))"

definition VerifyImmutable :: "'v replay_env \<Rightarrow> replay_manifest \<Rightarrow> replay_manifest \<Rightarrow> string option" where
  "VerifyImmutable env before after =
     (case ve_marshal_manifest env before of
        None \<Rightarrow> Some ''encode replay manifest''
      | Some beforeJSON \<Rightarrow>
          (case ve_marshal_manifest env after of
             None \<Rightarrow> Some ''encode replay manifest''
           | Some afterJSON \<Rightarrow>
               if beforeJSON \<noteq> afterJSON then Some ''replay source or version manifest changed'' else None))"

record replay_comparison =
  rr_BaselineHash :: string
  rr_CandidateHash :: string
  rr_Statuses :: "string \<rightharpoonup> string"
  rr_Outcome :: string
  rr_QualityGateState :: string

definition mergeOutcome :: "string \<Rightarrow> string \<Rightarrow> string" where
  "mergeOutcome outcome status =
     (if status = MetricStatusWorsened then ''regressed''
      else if status = MetricStatusMixed \<or> status = MetricStatusInsufficient
      then (if outcome \<noteq> ''regressed'' then ''mixed'' else outcome)
      else if status = MetricStatusImproved
      then (if outcome = ''unchanged'' then ''improved'' else outcome)
      else outcome)"

fun gate_state :: "string \<Rightarrow> guardrail_result list \<Rightarrow> string" where
  "gate_state state [] = state"
| "gate_state state (g # gs) =
     (if gr_State g = ''fail'' then ''fail''
      else gate_state (if gr_State g \<noteq> ''pass'' then ''unknown'' else state) gs)"

definition qualityGateState :: "guardrail_result list \<Rightarrow> string" where
  "qualityGateState gs = (if gs = [] then ''unknown'' else gate_state ''pass'' gs)"

definition finiteMetricValue :: "f64 option \<Rightarrow> bool" where
  "finiteMetricValue v = (case v of None \<Rightarrow> False | Some x \<Rightarrow> \<not> f64_IsNaN x \<and> \<not> f64_IsInf x)"

text \<open>The prior result and the definition are absent where the map lookups fail.\<close>

definition compareMetric ::
  "metric_result option \<Rightarrow> metric_result \<Rightarrow> metric_definition option \<Rightarrow> string" where
  "compareMetric prior current d =
     (case (prior, d) of
        (Some p, Some df) \<Rightarrow>
          (if \<not> finiteMetricValue (mr_NativeValue p) \<or> \<not> finiteMetricValue (mr_NativeValue current) \<or>
              mr_Version p \<noteq> mr_Version current \<or> mr_Coverage p \<noteq> CoverageStateComplete \<or>
              mr_Coverage current \<noteq> CoverageStateComplete
           then MetricStatusInsufficient
           else
             (let old = the (mr_NativeValue p); new = the (mr_NativeValue current)
              in if f64_eq old new then MetricStatusFlat
                 else if df_Polarity df = PolarityContextual then MetricStatusMixed
                 else if (if df_Polarity df = PolarityHigherBetter \<or>
                             (df_Polarity df = PolarityGuardrail \<and> mr_Name current \<noteq> ''tool_error_rate'')
                          then f64_less old new else f64_less new old)
                 then MetricStatusImproved else MetricStatusWorsened))
      | _ \<Rightarrow> MetricStatusInsufficient)"

text \<open>The map of the baseline metrics; None where a name occurs twice.\<close>

fun baseline_index ::
  "(string \<rightharpoonup> metric_result) \<Rightarrow> metric_result list \<Rightarrow> (string \<rightharpoonup> metric_result) option" where
  "baseline_index m [] = Some m"
| "baseline_index m (x # xs) =
     (if m (mr_Name x) \<noteq> None then None else baseline_index (m(mr_Name x \<mapsto> x)) xs)"

text \<open>The loop over the candidate metrics: the names seen, the statuses, the outcome and the baseline
  metrics not yet compared.\<close>

fun candidate_loop ::
  "string set \<Rightarrow> (string \<rightharpoonup> string) \<Rightarrow> string \<Rightarrow> (string \<rightharpoonup> metric_result) \<Rightarrow> metric_result list \<Rightarrow>
   ((string \<rightharpoonup> string) \<times> string \<times> (string \<rightharpoonup> metric_result)) option" where
  "candidate_loop names statuses outcome prior [] = Some (statuses, outcome, prior)"
| "candidate_loop names statuses outcome prior (x # xs) =
     (if mr_Name x \<in> names then None
      else (let status = compareMetric (prior (mr_Name x)) x (definition_of (mr_Name x))
            in candidate_loop (insert (mr_Name x) names) (statuses(mr_Name x \<mapsto> status))
                 (mergeOutcome outcome status) (prior(mr_Name x := None)) xs))"

text \<open>The baseline metrics left over count as insufficient. The program visits them in the order of
  the map, the model in the order of the baseline; the result does not depend on it.\<close>

fun leftover_loop ::
  "(string \<rightharpoonup> string) \<Rightarrow> string \<Rightarrow> string list \<Rightarrow> (string \<rightharpoonup> string) \<times> string" where
  "leftover_loop statuses outcome [] = (statuses, outcome)"
| "leftover_loop statuses outcome (n # ns) =
     leftover_loop (statuses(n \<mapsto> MetricStatusInsufficient)) (mergeOutcome outcome MetricStatusInsufficient) ns"

definition Compare :: "governance_result \<Rightarrow> governance_result \<Rightarrow> string + replay_comparison" where
  "Compare baseline candidate =
     (if gv_RevisionHash baseline = '''' \<or> gv_RevisionHash candidate = ''''
      then Inl ''replay revisions required''
      else (case baseline_index Map.empty (gv_Metrics baseline) of
              None \<Rightarrow> Inl ''baseline metric names must be unique''
            | Some prior \<Rightarrow>
                (case candidate_loop {} Map.empty ''unchanged'' prior (gv_Metrics candidate) of
                   None \<Rightarrow> Inl ''candidate metric names must be unique''
                 | Some (statuses, outcome, rest) \<Rightarrow>
                     (let (statuses', outcome') = leftover_loop statuses outcome
                            (filter (\<lambda>n. rest n \<noteq> None) (map mr_Name (gv_Metrics baseline)))
                      in Inr \<lparr> rr_BaselineHash = gv_RevisionHash baseline,
                               rr_CandidateHash = gv_RevisionHash candidate, rr_Statuses = statuses',
                               rr_Outcome = outcome',
                               rr_QualityGateState = qualityGateState (gv_Guardrails candidate) \<rparr>))))"

section \<open>Evaluation runs\<close>

record eval_run =
  er_Version :: string
  er_FixtureHash :: string
  er_ConfigHash :: string
  er_ModelHash :: string
  er_CompilerHash :: string
  er_PolicyHash :: string
  er_MetricHash :: string
  er_Comparison :: replay_comparison
  er_Decision :: string
  er_RunHash :: string

record 'v eval_components =
  ec_Model :: 'v
  ec_Compiler :: 'v
  ec_Policy :: 'v
  ec_Metrics :: 'v

definition eval_digest :: "(string \<Rightarrow> string) \<Rightarrow> ('a \<Rightarrow> string option) \<Rightarrow> 'a \<Rightarrow> string + string" where
  "eval_digest sha marshal v =
     (case marshal v of
        None \<Rightarrow> Inl ''encode evaluation input''
      | Some data \<Rightarrow> Inr (hex_encode (sha data)))"

definition run_decision :: "replay_comparison \<Rightarrow> string" where
  "run_decision cmp =
     (if rr_Outcome cmp = ''regressed'' \<or> rr_QualityGateState cmp = ''fail'' then ''rollback''
      else if rr_Outcome cmp = ''improved'' \<and> rr_QualityGateState cmp = ''pass'' then ''promote''
      else ''hold'')"

definition NewRun ::
  "(string \<Rightarrow> string) \<Rightarrow> ('v \<Rightarrow> string option) \<Rightarrow> (eval_run \<Rightarrow> string option) \<Rightarrow> string \<Rightarrow> 'v \<Rightarrow> 'v \<Rightarrow>
   'v eval_components \<Rightarrow> replay_comparison \<Rightarrow> string + eval_run" where
  "NewRun sha marshal marshal_run version fixture config components cmp =
     (if version = '''' then Inl ''evaluation version required''
      else (case map (eval_digest sha marshal) [fixture, config, ec_Model components, ec_Compiler components,
                        ec_Policy components, ec_Metrics components] of
              [Inr f, Inr c, Inr m, Inr k, Inr p, Inr t] \<Rightarrow>
                (let run = \<lparr> er_Version = version, er_FixtureHash = f, er_ConfigHash = c, er_ModelHash = m,
                       er_CompilerHash = k, er_PolicyHash = p, er_MetricHash = t, er_Comparison = cmp,
                       er_Decision = run_decision cmp, er_RunHash = '''' \<rparr>
                 in (case eval_digest sha marshal_run run of
                       Inl e \<Rightarrow> Inl e
                     | Inr h \<Rightarrow> Inr (run\<lparr> er_RunHash := h \<rparr>)))
            | _ \<Rightarrow> Inl ''encode evaluation input''))"

section \<open>The migration matrix\<close>

record migration_variant =
  mv_ModelSnapshot :: string
  mv_ReasoningEffort :: string
  mv_ReasoningMode :: string
  mv_Verbosity :: string
  mv_PromptContract :: string
  mv_ToolSet :: string
  mv_CacheMode :: string
  mv_RuntimeRoute :: string
  mv_DelegationPolicy :: string
  mv_RetrievalBudget :: string

record migration_case =
  mc_ID :: string
  mc_Baseline :: migration_variant
  mc_Candidate :: migration_variant

definition controls :: "migration_variant \<Rightarrow> string list" where
  "controls v = [mv_ModelSnapshot v, mv_ReasoningEffort v, mv_ReasoningMode v, mv_Verbosity v,
     mv_PromptContract v, mv_ToolSet v, mv_CacheMode v, mv_RuntimeRoute v, mv_DelegationPolicy v,
     mv_RetrievalBudget v]"

definition ValidateMigrationCase :: "migration_case \<Rightarrow> string option" where
  "ValidateMigrationCase test =
     (if mc_ID test = '''' then Some ''migration case id required''
      else (let changes = length (filter (\<lambda>(b, c). b \<noteq> c)
                  (zip (controls (mc_Baseline test)) (controls (mc_Candidate test))))
            in if changes \<noteq> 1 then Some ''migration case must change exactly one control'' else None))"

section \<open>Corpus and trace loaders\<close>

record corpus_case =
  cc_ID :: string
  cc_Label :: string
  cc_Tags :: "string list"
  cc_MetricName :: string
  cc_BaselineValue :: f64
  cc_CandidateValue :: f64
  cc_Coverage :: string
  cc_ExpectedStatus :: string
  cc_ExpectedFinding :: string
  cc_QualityGate :: string

record corpus =
  cp_Version :: string
  cp_Cases :: "corpus_case list"

text \<open>A reader is its bytes and whether reading them ends in an error. The decoder gives the first
  document of the bytes, unknown fields refused, with whether nothing follows it.\<close>

definition maxBytes :: nat where
  "maxBytes = 1048576"

definition decodeStrictJSON ::
  "(string \<Rightarrow> ('a \<times> bool) option) \<Rightarrow> string \<times> bool \<Rightarrow> string + 'a" where
  "decodeStrictJSON decode reader =
     (if snd reader \<or> maxBytes < length (fst reader) then Inl ''JSON input exceeds bounds''
      else (case decode (fst reader) of
              None \<Rightarrow> Inl ''decode''
            | Some (v, eof) \<Rightarrow> if \<not> eof then Inl ''JSON input has trailing data'' else Inr v))"

fun corpus_invalid :: "string set \<Rightarrow> corpus_case list \<Rightarrow> bool" where
  "corpus_invalid seen [] = False"
| "corpus_invalid seen (c # cs) =
     (if cc_ID c = '''' \<or> cc_ID c \<in> seen \<or> cc_Label c = '''' \<or> cc_Tags c = [] \<or> cc_MetricName c = '''' \<or>
         cc_Coverage c = '''' \<or> cc_ExpectedStatus c = '''' \<or> cc_QualityGate c = '''' then True
      else corpus_invalid (insert (cc_ID c) seen) cs)"

definition DecodeCorpus :: "(string \<Rightarrow> (corpus \<times> bool) option) \<Rightarrow> string \<times> bool \<Rightarrow> string + corpus" where
  "DecodeCorpus decode reader =
     (case decodeStrictJSON decode reader of
        Inl e \<Rightarrow> Inl ''decode evaluation corpus''
      | Inr c \<Rightarrow>
          if cp_Version c = '''' \<or> cp_Cases c = [] then Inl ''evaluation corpus incomplete''
          else if corpus_invalid {} (cp_Cases c) then Inl ''invalid evaluation corpus case''
          else Inr c)"

record redacted_trace =
  rt_Version :: string
  rt_MetricInputs :: "string \<rightharpoonup> f64"
  rt_Coverage :: string
  rt_WorkloadClass :: string
  rt_Confounders :: "string list"
  rt_EvidenceHashes :: "string list"

definition trim_cutset :: "string \<Rightarrow> string \<Rightarrow> string" where
  "trim_cutset s cutset =
     rev (dropWhile (\<lambda>c. c \<in> set cutset) (rev (dropWhile (\<lambda>c. c \<in> set cutset) s)))"

definition hash_invalid :: "string \<Rightarrow> bool" where
  "hash_invalid h \<longleftrightarrow> length h \<noteq> 64 \<or> trim_cutset h ''0123456789abcdef'' \<noteq> ''''"

text \<open>\<open>os.Open\<close> gives the reader of a path or fails.\<close>

definition LoadRedactedTrace ::
  "(string \<Rightarrow> (string \<times> bool) option) \<Rightarrow> (string \<Rightarrow> (redacted_trace \<times> bool) option) \<Rightarrow> string \<Rightarrow> bool \<Rightarrow>
   string + redacted_trace" where
  "LoadRedactedTrace open_file decode path enabled =
     (if \<not> enabled then Inl ''redacted trace loading is disabled''
      else (case open_file path of
              None \<Rightarrow> Inl ''redacted trace unavailable''
            | Some reader \<Rightarrow>
                (case decodeStrictJSON decode reader of
                   Inl e \<Rightarrow> Inl ''invalid redacted trace''
                 | Inr t \<Rightarrow>
                     if rt_Version t = '''' \<or> rt_Coverage t = '''' then Inl ''redacted trace incomplete''
                     else if list_ex hash_invalid (rt_EvidenceHashes t)
                     then Inl ''invalid redacted evidence hash''
                     else Inr t)))"

section \<open>What a promotion rests on\<close>

definition outcome_of :: "string set \<Rightarrow> string" where
  "outcome_of S =
     (if MetricStatusWorsened \<in> S then ''regressed''
      else if MetricStatusMixed \<in> S \<or> MetricStatusInsufficient \<in> S then ''mixed''
      else if MetricStatusImproved \<in> S then ''improved'' else ''unchanged'')"

lemma mergeOutcome_insert: "mergeOutcome (outcome_of S) s = outcome_of (insert s S)"
  by (auto simp: mergeOutcome_def outcome_of_def)

definition metric_statuses :: "string set" where
  "metric_statuses = {MetricStatusImproved, MetricStatusWorsened, MetricStatusFlat, MetricStatusMixed,
     MetricStatusInsufficient}"

lemma compareMetric_status: "compareMetric p x d \<in> metric_statuses"
  by (simp add: compareMetric_def metric_statuses_def Let_def split: option.split)

lemma candidate_loop_statuses:
  assumes "candidate_loop names st out prior xs = Some (st', out', rest)"
    and "names = dom st" and "out = outcome_of (ran st)" and "ran st \<subseteq> metric_statuses"
    and "dom prior \<inter> dom st = {}"
  shows "out' = outcome_of (ran st') \<and> ran st' \<subseteq> metric_statuses \<and>
    dom st' = dom st \<union> mr_Name ` set xs \<and> dom rest = dom prior - mr_Name ` set xs"
  using assms
proof (induction names st out prior xs rule: candidate_loop.induct)
  case (2 names st out prior x xs)
  let ?status = "compareMetric (prior (mr_Name x)) x (definition_of (mr_Name x))"
  have fresh: "st (mr_Name x) = None" and run: "candidate_loop (insert (mr_Name x) names) (st(mr_Name x \<mapsto> ?status))
      (mergeOutcome out ?status) (prior(mr_Name x := None)) xs = Some (st', out', rest)"
    using 2(2,3) by (auto simp: Let_def split: if_splits)
  have "out' = outcome_of (ran st') \<and> ran st' \<subseteq> metric_statuses \<and>
      dom st' = dom (st(mr_Name x \<mapsto> ?status)) \<union> mr_Name ` set xs \<and>
      dom rest = dom (prior(mr_Name x := None)) - mr_Name ` set xs"
  proof (rule 2(1) [OF _ refl run])
    show "mr_Name x \<notin> names" and "insert (mr_Name x) names = dom (st(mr_Name x \<mapsto> ?status))"
      using fresh 2(3) by auto
    show "mergeOutcome out ?status = outcome_of (ran (st(mr_Name x \<mapsto> ?status)))"
      using 2(4) by (simp only: mergeOutcome_insert ran_map_upd [of st, OF fresh])
    show "ran (st(mr_Name x \<mapsto> ?status)) \<subseteq> metric_statuses"
      using 2(5) compareMetric_status by (simp only: ran_map_upd [of st, OF fresh] insert_subset)
    show "dom (prior(mr_Name x := None)) \<inter> dom (st(mr_Name x \<mapsto> ?status)) = {}"
      using 2(6) by auto
  qed
  then show ?case
    by auto
qed simp

lemma leftover_loop_statuses:
  assumes "leftover_loop st out ns = (st', out')" and "out = outcome_of (ran st)"
    and "ran st \<subseteq> metric_statuses" and "\<forall>n\<in>set ns. st n \<in> {None, Some MetricStatusInsufficient}"
  shows "out' = outcome_of (ran st') \<and> ran st' \<subseteq> metric_statuses \<and> dom st' = dom st \<union> set ns"
  using assms
proof (induction st out ns rule: leftover_loop.induct)
  case (2 st out n ns)
  have ran: "ran (st(n \<mapsto> MetricStatusInsufficient)) = insert MetricStatusInsufficient (ran st)"
  proof (cases "st n")
    case (Some v)
    then have "st n = Some MetricStatusInsufficient"
      using 2(5) by auto
    then have "st(n \<mapsto> MetricStatusInsufficient) = st" and "MetricStatusInsufficient \<in> ran st"
      by (auto intro: ranI)
    then show ?thesis
      by (simp only: insert_absorb)
  qed simp
  have "out' = outcome_of (ran st') \<and> ran st' \<subseteq> metric_statuses \<and>
      dom st' = dom (st(n \<mapsto> MetricStatusInsufficient)) \<union> set ns"
  proof (rule 2(1))
    show "leftover_loop (st(n \<mapsto> MetricStatusInsufficient)) (mergeOutcome out MetricStatusInsufficient) ns = (st', out')"
      using 2(2) by simp
    show "mergeOutcome out MetricStatusInsufficient = outcome_of (ran (st(n \<mapsto> MetricStatusInsufficient)))"
      using 2(3) by (simp only: mergeOutcome_insert ran)
    show "ran (st(n \<mapsto> MetricStatusInsufficient)) \<subseteq> metric_statuses"
      using 2(4) by (simp only: ran) (simp add: metric_statuses_def)
    show "\<forall>k\<in>set ns. (st(n \<mapsto> MetricStatusInsufficient)) k \<in> {None, Some MetricStatusInsufficient}"
      using 2(5) by auto
  qed
  then show ?case
    by auto
qed simp

lemma baseline_index_dom: "baseline_index m xs = Some m' \<Longrightarrow> dom m' = dom m \<union> mr_Name ` set xs"
  by (induction m xs rule: baseline_index.induct) (auto split: if_splits)

lemma Compare_statuses:
  assumes "Compare b c = Inr cmp"
  shows "rr_Outcome cmp = outcome_of (ran (rr_Statuses cmp)) \<and> ran (rr_Statuses cmp) \<subseteq> metric_statuses \<and>
    dom (rr_Statuses cmp) = mr_Name ` set (gv_Metrics b) \<union> mr_Name ` set (gv_Metrics c) \<and>
    rr_QualityGateState cmp = qualityGateState (gv_Guardrails c)"
proof -
  obtain prior st out rest st' out' where
    prior: "baseline_index Map.empty (gv_Metrics b) = Some prior" and
    run: "candidate_loop {} Map.empty ''unchanged'' prior (gv_Metrics c) = Some (st, out, rest)" and
    left: "leftover_loop st out (filter (\<lambda>n. rest n \<noteq> None) (map mr_Name (gv_Metrics b))) = (st', out')" and
    cmp: "rr_Statuses cmp = st'" "rr_Outcome cmp = out'"
      "rr_QualityGateState cmp = qualityGateState (gv_Guardrails c)"
    using assms by (auto simp: Compare_def Let_def split: if_splits option.splits prod.splits)
  have st: "out = outcome_of (ran st) \<and> ran st \<subseteq> metric_statuses \<and>
      dom st = mr_Name ` set (gv_Metrics c) \<and>
      dom rest = dom prior - mr_Name ` set (gv_Metrics c)"
    using candidate_loop_statuses [OF run] by (simp add: outcome_of_def)
  have "out' = outcome_of (ran st') \<and> ran st' \<subseteq> metric_statuses \<and>
      dom st' = dom st \<union> set (filter (\<lambda>n. rest n \<noteq> None) (map mr_Name (gv_Metrics b)))"
  proof (rule leftover_loop_statuses [OF left])
    show "\<forall>n\<in>set (filter (\<lambda>n. rest n \<noteq> None) (map mr_Name (gv_Metrics b))). st n \<in> {None, Some MetricStatusInsufficient}"
    proof
      fix n
      assume "n \<in> set (filter (\<lambda>n. rest n \<noteq> None) (map mr_Name (gv_Metrics b)))"
      then have "n \<in> dom rest"
        by auto
      then have "n \<notin> dom st"
        using st by simp
      then show "st n \<in> {None, Some MetricStatusInsufficient}"
        by auto
    qed
  qed (use st in simp_all)
  then show ?thesis
    using st cmp baseline_index_dom [OF prior] by auto
qed

lemma gate_state_cases:
  "gate_state state gs = (if list_ex (\<lambda>g. gr_State g = ''fail'') gs then ''fail''
     else if list_all (\<lambda>g. gr_State g = ''pass'') gs then state else ''unknown'')"
  by (induction state gs rule: gate_state.induct) auto

lemma qualityGateState_cases:
  "qualityGateState gs = (if list_ex (\<lambda>g. gr_State g = ''fail'') gs then ''fail''
     else if gs \<noteq> [] \<and> list_all (\<lambda>g. gr_State g = ''pass'') gs then ''pass'' else ''unknown'')"
  by (auto simp: qualityGateState_def gate_state_cases)

lemma NewRun_decision:
  "NewRun sha marshal marshal_run version fixture config components cmp = Inr run \<Longrightarrow>
     er_Decision run = run_decision cmp"
  by (auto simp: NewRun_def Let_def split: if_splits list.splits sum.splits)

text \<open>C27: the decision of an evaluation run is exactly the one its evidence supports. When a
  comparison and a run over it succeed, every metric of either revision has a status; the decision
  is promote exactly when every status is improved or flat, at least one is improved, and there are
  guardrails which all pass; it is rollback exactly when a metric worsened or a guardrail fails.\<close>
theorem promotion_requires_evidence:
  assumes "Compare b c = Inr cmp"
    and "NewRun sha marshal marshal_run version fixture config components cmp = Inr run"
  shows "dom (rr_Statuses cmp) = mr_Name ` set (gv_Metrics b) \<union> mr_Name ` set (gv_Metrics c) \<and>
    (er_Decision run = ''promote'' \<longleftrightarrow>
       MetricStatusImproved \<in> ran (rr_Statuses cmp) \<and>
       ran (rr_Statuses cmp) \<subseteq> {MetricStatusImproved, MetricStatusFlat} \<and>
       gv_Guardrails c \<noteq> [] \<and> list_all (\<lambda>g. gr_State g = ''pass'') (gv_Guardrails c)) \<and>
    (er_Decision run = ''rollback'' \<longleftrightarrow>
       MetricStatusWorsened \<in> ran (rr_Statuses cmp) \<or>
       list_ex (\<lambda>g. gr_State g = ''fail'') (gv_Guardrails c))"
proof -
  let ?S = "ran (rr_Statuses cmp)"
  note st = Compare_statuses [OF assms(1)] and decision = NewRun_decision [OF assms(2)]
  have improved: "outcome_of ?S = ''improved'' \<longleftrightarrow> MetricStatusImproved \<in> ?S \<and> ?S \<subseteq> {MetricStatusImproved, MetricStatusFlat}"
    using st by (auto simp: outcome_of_def metric_statuses_def)
  have regressed: "outcome_of ?S = ''regressed'' \<longleftrightarrow> MetricStatusWorsened \<in> ?S"
    by (simp add: outcome_of_def)
  have gate: "qualityGateState (gv_Guardrails c) = ''pass'' \<longleftrightarrow>
      gv_Guardrails c \<noteq> [] \<and> list_all (\<lambda>g. gr_State g = ''pass'') (gv_Guardrails c)"
    "qualityGateState (gv_Guardrails c) = ''fail'' \<longleftrightarrow> list_ex (\<lambda>g. gr_State g = ''fail'') (gv_Guardrails c)"
    by (auto simp: qualityGateState_cases list_all_iff list_ex_iff)
  have "run_decision cmp = ''promote'' \<longleftrightarrow> outcome_of ?S = ''improved'' \<and> qualityGateState (gv_Guardrails c) = ''pass''"
    "run_decision cmp = ''rollback'' \<longleftrightarrow> outcome_of ?S = ''regressed'' \<or> qualityGateState (gv_Guardrails c) = ''fail''"
    using st by (auto simp: run_decision_def)
  then show ?thesis
    using st decision improved regressed gate by simp
qed

text \<open>A migration case is accepted exactly when one control differs.\<close>

lemma migration_one_control:
  "ValidateMigrationCase test = None \<longleftrightarrow> mc_ID test \<noteq> '''' \<and>
     card {i. i < 10 \<and> controls (mc_Baseline test) ! i \<noteq> controls (mc_Candidate test) ! i} = 1"
proof -
  have len: "length (controls v) = 10" for v
    by (simp add: controls_def)
  have "{i. i < 10 \<and> (case (zip (controls (mc_Baseline test)) (controls (mc_Candidate test))) ! i of (b, c) \<Rightarrow> b \<noteq> c)} =
      {i. i < 10 \<and> controls (mc_Baseline test) ! i \<noteq> controls (mc_Candidate test) ! i}"
    by (auto simp: len)
  then show ?thesis
    by (simp add: ValidateMigrationCase_def Let_def length_filter_conv_card len)
qed

lemma trimmed_all: "(\<forall>x\<in>set (dropWhile P xs). P x) \<longleftrightarrow> (\<forall>x\<in>set xs. P x)"
  by (induction xs) auto

lemma hash_invalid_iff: "hash_invalid h \<longleftrightarrow> \<not> (length h = 64 \<and> list_all (\<lambda>c. c \<in> set ''0123456789abcdef'') h)"
proof -
  have "trim_cutset h cut = '''' \<longleftrightarrow> list_all (\<lambda>c. c \<in> set cut) h" for cut
    by (simp add: trim_cutset_def list_all_iff trimmed_all)
  then show ?thesis
    by (simp add: hash_invalid_def)
qed


abbreviation sample_revision :: "string \<Rightarrow> rat \<Rightarrow> governance_result" where
  "sample_revision h v \<equiv>
     \<lparr> gv_SchemaVersion = SchemaVersion, gv_Kind = ''result'', gv_AuditReference = '''', gv_Scope = '''',
       gv_AsOf = 0, gv_RevisionHash = h, gv_Coverage = ''complete'',
       gv_Metrics = [empty_metric\<lparr> mr_Name := ''scope_attribution_coverage'', mr_Version := ''metric-v1'',
         mr_NativeValue := Some (Fin v), mr_Coverage := ''complete'' \<rparr>],
       gv_Findings = [], gv_Recommendations = [], gv_GovernanceOverhead = [],
       gv_Window = \<lparr> aw_StartsAt = 0, aw_EndsAt = 0, aw_AsOf = 0, aw_Timezone = '''', aw_BaselineVersion = '''',
         aw_CountingMode = '''', aw_WorkloadVersion = '''', aw_SourceVersions = [], aw_Revision = 0,
         aw_LateEvidence = False \<rparr>,
       gv_Contributions = [], gv_WorkloadEffects = [],
       gv_InvocationCounts = \<lparr> ic_HostCalls = 0, ic_LeafCalls = 0, ic_HostResults = 0, ic_LeafResults = 0,
         ic_UnknownCalls = 0 \<rparr>,
       gv_Outliers = [], gv_Confounders = [],
       gv_Guardrails = [\<lparr> gr_Name = ''privacy'', gr_State = ''pass'', gr_Coverage = ''complete'', gr_EvidenceRefs = [] \<rparr>],
       gv_DerivationMethod = '''', gv_OmittedCount = 0, gv_ReportFacts = None \<rparr>"

lemma sample_definition:
  obtains d where "definition_of ''scope_attribution_coverage'' = Some d" and "df_Polarity d = PolarityHigherBetter"
  by (simp add: definition_of_def registry_def newDefinition_def)

theorem promotion_requires_evidence_witness:
  "\<exists>cmp run. Compare (sample_revision ''a'' 0) (sample_revision ''b'' 1) = Inr cmp \<and>
     NewRun (\<lambda>m. m) (\<lambda>v :: string. Some v) (\<lambda>r. Some ''run'') ''eval-v1'' ''fixture'' ''config''
       \<lparr> ec_Model = ''m'', ec_Compiler = ''c'', ec_Policy = ''p'', ec_Metrics = ''t'' \<rparr> cmp = Inr run \<and>
     er_Decision run = ''promote''"
proof -
  obtain d where d: "definition_of ''scope_attribution_coverage'' = Some d" "df_Polarity d = PolarityHigherBetter"
    by (rule sample_definition)
  have cmp: "Compare (sample_revision ''a'' 0) (sample_revision ''b'' 1) =
      Inr \<lparr> rr_BaselineHash = ''a'', rr_CandidateHash = ''b'',
            rr_Statuses = [''scope_attribution_coverage'' \<mapsto> ''improved''], rr_Outcome = ''improved'',
            rr_QualityGateState = ''pass'' \<rparr>" (is "_ = Inr ?cmp")
    by (simp add: Compare_def compareMetric_def d Let_def empty_metric_def finiteMetricValue_def f64_IsNaN_def
        f64_IsInf_def f64_eq_def mergeOutcome_def qualityGateState_def)
  obtain run where run: "NewRun (\<lambda>m. m) (\<lambda>v :: string. Some v) (\<lambda>r. Some ''run'') ''eval-v1'' ''fixture'' ''config''
       \<lparr> ec_Model = ''m'', ec_Compiler = ''c'', ec_Policy = ''p'', ec_Metrics = ''t'' \<rparr> ?cmp = Inr run"
    by (simp add: NewRun_def eval_digest_def Let_def)
  show ?thesis
    using cmp run promotion_requires_evidence [OF cmp run] by (auto simp: ran_def)
qed

end
