(* ===== verification/Audit_Engine.thy ===== *)
theory Audit_Engine
  imports Baseline_Props Recommendation Replay Tools
begin

text \<open>
  \<open>internal/audit/audit.go\<close>: the engine that turns a snapshot of normalized evidence into a project
  audit, and the budget of its encoded result. JSON coding and SHA-256 are the fields of an
  environment. A panic is None. An instant is in UTC, so \<open>UTC()\<close> is the identity.
\<close>

definition EngineVersion :: string where
  "EngineVersion = ''audit-v2''"

definition MaxResultBytes :: nat where
  "MaxResultBytes = 50000"

definition recommendationByFinding :: "string \<rightharpoonup> string" where
  "recommendationByFinding = map_of [
     (''scope_attribution_gap'', ''restore_scope_attribution''),
     (''checkpoint_gap'', ''complete_checkpoint_contract''),
     (''passive_polling'', ''wait_on_state_change''),
     (''repeated_unchanged_call'', ''reuse_unchanged_evidence''),
     (''missing_validation'', ''validate_after_mutation''),
     (''privacy_redaction_gap'', ''restore_redaction_coverage'')]"

record snapshot =
  sp_Reference :: string
  sp_Scope :: string
  sp_StartsAt :: go_time
  sp_EndsAt :: go_time
  sp_AsOf :: go_time
  sp_Coverage :: string
  sp_Metrics :: metric_input
  sp_GovernanceOverhead :: metric_input
  sp_PassivePollingRefs :: "string list"
  sp_RepeatedCallRefs :: "string list"
  sp_NecessaryWorkRefs :: "string list"
  sp_Comparisons :: "string \<rightharpoonup> baseline_comparison"
  sp_Window :: audit_window
  sp_Contributions :: "scope_contribution list"
  sp_ConfounderStrata :: "confounder_stratum list"
  sp_Guardrails :: "guardrail_result list"
  sp_WorkloadEffects :: "workload_decomposition list"
  sp_InvocationCounts :: invocation_counts
  sp_ReportScopeCounts :: report_scope_counts
  sp_ReportSources :: "report_source list"
  sp_PrivacySuppressed :: bool
  sp_OmittedCount :: int
  sp_RecommendationContext :: recommendation_context

datatype audit_error = Stable_Error stable_error | Plain_Error string

record audit_env =
  au_sha256 :: "string \<Rightarrow> string"
  au_marshal_refs :: "string list \<Rightarrow> string"
  au_marshal_revision ::
    "string \<Rightarrow> snapshot \<Rightarrow> metric_result list \<Rightarrow> audit_finding list \<Rightarrow> audit_recommendation list \<Rightarrow> string option"
  au_marshal :: "governance_result \<Rightarrow> string option"
  au_unmarshal :: "string \<Rightarrow> governance_result option"

section \<open>Preparation of the snapshot\<close>

definition normalizeSnapshot :: "snapshot \<Rightarrow> snapshot" where
  "normalizeSnapshot s =
     (let s = (if aw_StartsAt (sp_Window s) = 0
               then s\<lparr> sp_Window := \<lparr> aw_StartsAt = sp_StartsAt s, aw_EndsAt = sp_EndsAt s, aw_AsOf = sp_AsOf s,
                        aw_Timezone = ''UTC'', aw_BaselineVersion = ''baseline-v1'',
                        aw_CountingMode = ''logical-invocation-v1'', aw_WorkloadVersion = ''workload-v1'',
                        aw_SourceVersions = [], aw_Revision = 1, aw_LateEvidence = False \<rparr> \<rparr>
               else s);
          s = (if cx_MaterialEvidenceRevision (sp_RecommendationContext s) = ''''
               then s\<lparr> sp_RecommendationContext :=
                        (sp_RecommendationContext s)\<lparr> cx_MaterialEvidenceRevision := sp_Reference s \<rparr> \<rparr>
               else s)
      in if rs_IncludedTurns (sp_ReportScopeCounts s) = 0 \<and> 0 < mi_CompletedTurns (sp_Metrics s)
         then s\<lparr> sp_ReportScopeCounts := (sp_ReportScopeCounts s)\<lparr>
                  rs_IncludedTurns := mi_CompletedTurns (sp_Metrics s),
                  rs_IncludedToolCalls := mi_ToolCalls (sp_Metrics s),
                  rs_IncludedEvidence := mi_AcceptedEvidence (sp_Metrics s) \<rparr> \<rparr>
         else s)"

text \<open>The zero value of a definition, for a metric the registry does not have.\<close>

definition zero_definition :: metric_definition where
  "zero_definition = \<lparr> df_Name = '''', df_DisplayLabel = '''', df_Version = '''', df_Intent = '''',
     df_Formula = '''', df_Numerator = '''', df_Denominator = '''', df_NativeUnit = '''', df_Polarity = '''',
     df_MinimumSample = 0, df_MinimumCoverage = Fin 0, df_PracticalChange = Fin 0, df_Hysteresis = Fin 0,
     df_MinimumPersistence = 0, df_CooldownWindows = 0, df_EvidenceRequired = [], df_Exclusions = [],
     df_Confounders = [], df_AllowedDiagnoses = [], df_Guardrails = [], df_Limitations = [], df_MisuseRisk = '''' \<rparr>"

definition definition_or_zero :: "string \<Rightarrow> metric_definition" where
  "definition_or_zero name = (case definition_of name of None \<Rightarrow> zero_definition | Some d \<Rightarrow> d)"

definition apply_comparison :: "(string \<rightharpoonup> baseline_comparison) \<Rightarrow> metric_result \<Rightarrow> metric_result option" where
  "apply_comparison comparisons r =
     (case comparisons (mr_Name r) of
        None \<Rightarrow> Some (r\<lparr> mr_Status := MetricStatusInsufficient, mr_StatusReason := ''comparison_unavailable'',
                         mr_Confidence := ''unknown'' \<rparr>)
      | Some c \<Rightarrow> baseline_Apply r (definition_or_zero (mr_Name r)) c)"

definition applyComparisons ::
  "metric_result list \<Rightarrow> (string \<rightharpoonup> baseline_comparison) \<Rightarrow> metric_result list option" where
  "applyComparisons rs comparisons = those (map (apply_comparison comparisons) rs)"

section \<open>Detection\<close>

text \<open>The references in order, without empty ones and duplicates, the first hundred, sorted.\<close>

fun merge_refs_loop :: "string list \<Rightarrow> string list \<Rightarrow> string list" where
  "merge_refs_loop acc [] = acc"
| "merge_refs_loop acc (v # vs) =
     (if v \<noteq> '''' \<and> v \<notin> set acc \<and> length acc < 100 then merge_refs_loop (acc @ [v]) vs
      else merge_refs_loop acc vs)"

definition mergeRefs :: "string list list \<Rightarrow> string list" where
  "mergeRefs groups = sort_strings (merge_refs_loop [] (concat groups))"

definition observation_of ::
  "snapshot \<Rightarrow> string \<Rightarrow> string \<Rightarrow> string \<Rightarrow> string \<Rightarrow> int \<Rightarrow> int \<Rightarrow> int \<Rightarrow> f64 \<Rightarrow> string list \<Rightarrow> string list \<Rightarrow>
   bool \<Rightarrow> observation" where
  "observation_of s code cause exc cls positive den minimum rate refs counter required =
     \<lparr> ob_Code = code, ob_Cause = cause, ob_ExceptionCheck = exc, ob_Classification = cls,
       ob_Coverage = sp_Coverage s, ob_PositiveCount = positive, ob_Denominator = den,
       ob_MinimumSample = minimum, ob_MinimumRate = rate, ob_EvidenceRefs = refs,
       ob_Counterevidence = counter, ob_RequiredWork = required,
       ob_ConfounderMatched = list_all ct_Matched (sp_ConfounderStrata s) \<rparr>"

definition observations :: "snapshot \<Rightarrow> observation list" where
  "observations s =
     (let m = sp_Metrics s; refs = mi_EvidenceRefs (sp_Metrics s)
      in [ observation_of s ''scope_attribution_gap'' ''completed turns lack explicit normalized task attribution''
             ''privacy-suppressed and genuinely unknown attribution remain unknown'' ''uncertain''
             (mi_CompletedTurns m - mi_AttributedTurns m) (mi_CompletedTurns m) 1 (Fin 0) refs [] False,
           observation_of s ''boundary_violation'' ''structured boundary decision denied or recorded a violation''
             ''host-authoritative denial is necessary and never bypassed'' ''necessary''
             (mi_BoundaryViolations m) (mi_BoundaryDecisions m) 1 (Fin 0) refs [] True,
           observation_of s ''checkpoint_gap'' ''structured checkpoint omitted completion, next action, or gate state''
             ''checkpoints not required for read-only bounded work'' ''avoidable''
             (mi_Checkpoints m - mi_CompleteCheckpoints m) (mi_Checkpoints m) 1 (Fin 0) refs [] False,
           observation_of s ''passive_polling'' ''unchanged-state passive polling''
             ''required waits and user cadence excluded'' ''avoidable''
             (mi_PassiveWaitCalls m) (mi_ToolCalls m) 5 (f64_round (10 / 100))
             (mergeRefs [sp_PassivePollingRefs s, refs]) (sp_NecessaryWorkRefs s) False,
           observation_of s ''repeated_unchanged_call'' ''same canonical call in one state epoch''
             ''mutations, changed arguments, retries, and final gates excluded'' ''avoidable''
             (mi_RepeatedCalls m) (mi_ToolCalls m) 5 (f64_round (10 / 100))
             (mergeRefs [sp_RepeatedCallRefs s, refs]) (sp_NecessaryWorkRefs s) False,
           observation_of s ''tool_error_burst'' ''tool failures exceeded the guarded rate''
             ''external and expected failures remain confounders'' ''uncertain''
             (mi_ToolErrors m) (mi_ToolCalls m) 5 (f64_round (5 / 100)) refs [] False,
           observation_of s ''missing_validation'' ''observable mutations lack structured validation''
             ''read-only and no-op state epochs excluded'' ''avoidable''
             (mi_ObservableMutations m - mi_ValidatedMutations m) (mi_ObservableMutations m) 1 (Fin 0) refs [] False,
           observation_of s ''privacy_redaction_gap'' ''accepted evidence lacks a complete redaction state''
             ''not-needed redaction is an explicit passing state'' ''avoidable''
             (mi_AcceptedEvidence m - mi_RedactedEvidence m) (mi_AcceptedEvidence m) 1 (Fin 0) refs [] False ])"

definition detect :: "snapshot \<Rightarrow> audit_finding list" where
  "detect s = diagnosis_Evaluate (observations s)"

definition guardrailsPass :: "guardrail_result list \<Rightarrow> bool" where
  "guardrailsPass gs \<longleftrightarrow> gs \<noteq> [] \<and> list_all (\<lambda>g. gr_State g = ''pass'') gs"

definition findingEvidenceRevisions :: "audit_env \<Rightarrow> audit_finding list \<Rightarrow> (string \<rightharpoonup> string)" where
  "findingEvidenceRevisions env fs =
     foldl (\<lambda>m f. m(fd_Code f \<mapsto> hex_encode (au_sha256 env (au_marshal_refs env (fd_EvidenceRefs f)))))
       Map.empty fs"

text \<open>The revision hash does not see the recommendation context (tag \<open>json:"-"\<close>), the revision
  number and the late-evidence flag.\<close>

definition empty_context :: recommendation_context where
  "empty_context = \<lparr> cx_AsOf = 0, cx_ExistingRuleCoverage = Map.empty, cx_Feedback = Map.empty,
     cx_MaterialEvidenceRevision = '''', cx_EvidenceRevisions = Map.empty, cx_QualityGuardrailsPass = False \<rparr>"

definition audit_hash ::
  "audit_env \<Rightarrow> snapshot \<Rightarrow> metric_result list \<Rightarrow> audit_finding list \<Rightarrow> audit_recommendation list \<Rightarrow>
   audit_error + string" where
  "audit_hash env s results findings recommendations =
     (let s = s\<lparr> sp_Window := (sp_Window s)\<lparr> aw_Revision := 0, aw_LateEvidence := False \<rparr>,
                 sp_RecommendationContext := empty_context \<rparr>
      in case au_marshal_revision env EngineVersion s results findings recommendations of
           None \<Rightarrow> Inl (Plain_Error ''encode audit revision'')
         | Some data \<Rightarrow> Inr (hex_encode (au_sha256 env data)))"

section \<open>Report facts\<close>

definition comparisonCoverage :: "metric_result list \<Rightarrow> string" where
  "comparisonCoverage ms =
     (case find (\<lambda>m. mr_PreviousValue m \<noteq> None \<or> mr_RollingMedian m \<noteq> None) ms of
        None \<Rightarrow> CoverageStateUnknown | Some m \<Rightarrow> mr_Coverage m)"

text \<open>The zero value where the map has no entry.\<close>

definition recommendation_for :: "string \<Rightarrow> string" where
  "recommendation_for code = (case recommendationByFinding code of None \<Rightarrow> '''' | Some r \<Rightarrow> r)"

fun linked_loop :: "string list \<Rightarrow> audit_recommendation list \<Rightarrow> audit_finding list \<Rightarrow> string" where
  "linked_loop allowed recommendations [] = ''''"
| "linked_loop allowed recommendations (f # fs) =
     (if fd_Code f \<notin> set allowed then linked_loop allowed recommendations fs
      else if list_ex (\<lambda>r. rc_Code r = recommendation_for (fd_Code f)) recommendations
      then recommendation_for (fd_Code f)
      else linked_loop allowed recommendations fs)"

definition linkedRecommendation ::
  "metric_definition \<Rightarrow> audit_finding list \<Rightarrow> audit_recommendation list \<Rightarrow> string" where
  "linkedRecommendation d findings recommendations =
     linked_loop (df_AllowedDiagnoses d) recommendations findings"

definition audit_window_reference ::
  "snapshot \<Rightarrow> string \<Rightarrow> go_time \<Rightarrow> go_time \<Rightarrow> report_window" where
  "audit_window_reference s coverage starts ends =
     \<lparr> rw_StartsAt = starts, rw_EndsAt = ends, rw_AsOf = sp_AsOf s, rw_Coverage = coverage,
       rw_BaselineVersion = aw_BaselineVersion (sp_Window s),
       rw_SourceVersions = aw_SourceVersions (sp_Window s) \<rparr>"

definition rolling_window :: "snapshot \<Rightarrow> string \<Rightarrow> go_duration \<Rightarrow> int \<Rightarrow> report_window" where
  "rolling_window s coverage duration k =
     (let end_at = sp_EndsAt s + wrap64 (- (k - 1) * duration)
      in audit_window_reference s coverage (end_at + wrap64 (- duration)) end_at)"

definition finding_for :: "audit_finding list \<Rightarrow> string \<Rightarrow> audit_finding option" where
  "finding_for findings code = find (\<lambda>f. recommendation_for (fd_Code f) = code) (rev findings)"

definition recommendation_fact ::
  "snapshot \<Rightarrow> audit_finding list \<Rightarrow> audit_recommendation \<Rightarrow> report_recommendation" where
  "recommendation_fact s findings item =
     (let (contract, confidence) =
            (if rc_Code item = ''no_action'' then (''no violated contract with actionable evidence'', ''unknown'')
             else (case finding_for findings (rc_Code item) of
                     None \<Rightarrow> ('''', '''') | Some f \<Rightarrow> (fd_Cause f, fd_Confidence f)))
      in \<lparr> rn_Code = rc_Code item, rn_ViolatedContract = contract, rn_Scope = sp_Scope s,
           rn_EvidenceConfidence = confidence, rn_ExpectedQualityImpact = rc_ExpectedMovement item,
           rn_BroaderChangeRationale = ''No model change; use the smallest scoped corrective action and verify it against protected guardrails.'' \<rparr>)"

text \<open>The metric of that name in the map, the last one where a name repeats, or the zero value.\<close>

definition metric_named :: "metric_result list \<Rightarrow> string \<Rightarrow> metric_result" where
  "metric_named ms name = (case find (\<lambda>m. mr_Name m = name) (rev ms) of None \<Rightarrow> empty_metric | Some m \<Rightarrow> m)"

definition outlier_fact ::
  "snapshot \<Rightarrow> metric_result list \<Rightarrow> audit_finding list \<Rightarrow> audit_recommendation list \<Rightarrow> native_outlier \<Rightarrow>
   report_outlier" where
  "outlier_fact s ms findings recommendations item =
     (let metric = metric_named ms (ol_Metric item)
      in \<lparr> ro_Metric = ol_Metric item, ro_Scope = sp_Scope s, ro_Impact = mr_Status metric,
           ro_Coverage = mr_Coverage metric,
           ro_EvidenceWindow = audit_window_reference s (mr_Coverage metric) (sp_StartsAt s) (sp_EndsAt s),
           ro_RecommendationCode =
             linkedRecommendation (definition_or_zero (ol_Metric item)) findings recommendations \<rparr>)"

definition metric_fact :: "metric_result \<Rightarrow> report_metric" where
  "metric_fact m =
     (let d = definition_or_zero (mr_Name m)
      in \<lparr> rm_Name = mr_Name m, rm_DisplayLabel = df_DisplayLabel d, rm_Polarity = df_Polarity d \<rparr>)"

definition buildReportFacts ::
  "snapshot \<Rightarrow> metric_result list \<Rightarrow> audit_finding list \<Rightarrow> audit_recommendation list \<Rightarrow> native_outlier list \<Rightarrow>
   report_facts" where
  "buildReportFacts s ms findings recommendations outliers =
     (let duration = time_Sub (sp_EndsAt s) (sp_StartsAt s); coverage = comparisonCoverage ms
      in \<lparr> rf_Version = ''report-facts-v1'', rf_DisplayIdentity = sp_Reference s,
           rf_PrivacySuppressed = sp_PrivacySuppressed s,
           rf_PreviousWindow = Some (audit_window_reference s coverage
              (sp_StartsAt s + wrap64 (- duration)) (sp_StartsAt s)),
           rf_RollingWindows = map (rolling_window s coverage duration) [2, 3, 4, 5, 6, 7, 8],
           rf_ScopeCounts = sp_ReportScopeCounts s, rf_Sources = sp_ReportSources s,
           rf_Metrics = map metric_fact ms,
           rf_QualityGateState = qualityGateState (sp_Guardrails s),
           rf_Outliers = map (outlier_fact s ms findings recommendations) outliers,
           rf_Recommendations = map (recommendation_fact s findings) recommendations,
           rf_Provenance = [
             \<lparr> rp_Field = ''metrics'', rp_KnowledgeState = ''derived'', rp_Provenance = ''normalized_sql+metric-v1'' \<rparr>,
             \<lparr> rp_Field = ''window'', rp_KnowledgeState = ''observed'', rp_Provenance = ''normalized_runtime'' \<rparr>,
             \<lparr> rp_Field = ''recommendations'', rp_KnowledgeState = ''derived'', rp_Provenance = recommendation_Version \<rparr>] \<rparr>)"

section \<open>The engine\<close>

definition audit_result ::
  "snapshot \<Rightarrow> string \<Rightarrow> metric_result list \<Rightarrow> metric_result list \<Rightarrow> audit_finding list \<Rightarrow>
   audit_recommendation list \<Rightarrow> governance_result" where
  "audit_result s revision calculated overhead findings recommendations =
     \<lparr> gv_SchemaVersion = SchemaVersion, gv_Kind = ''result'', gv_AuditReference = sp_Reference s,
       gv_Scope = sp_Scope s, gv_AsOf = sp_AsOf s, gv_RevisionHash = revision, gv_Coverage = sp_Coverage s,
       gv_Metrics = calculated, gv_Findings = findings, gv_Recommendations = recommendations,
       gv_GovernanceOverhead = overhead, gv_Window = sp_Window s, gv_Contributions = sp_Contributions s,
       gv_WorkloadEffects = sp_WorkloadEffects s, gv_InvocationCounts = sp_InvocationCounts s,
       gv_Outliers = outlier_Rank calculated, gv_Confounders = sp_ConfounderStrata s,
       gv_Guardrails = sp_Guardrails s, gv_DerivationMethod = ''normalized_sql+metric-v1+baseline-v1'',
       gv_OmittedCount = sp_OmittedCount s,
       gv_ReportFacts = Some (buildReportFacts s calculated findings recommendations (outlier_Rank calculated)) \<rparr>"

definition audit_recommendations :: "audit_env \<Rightarrow> snapshot \<Rightarrow> audit_finding list \<Rightarrow> audit_recommendation list" where
  "audit_recommendations env s findings =
     Generate findings \<lparr> cx_AsOf = sp_AsOf s,
       cx_ExistingRuleCoverage = cx_ExistingRuleCoverage (sp_RecommendationContext s),
       cx_Feedback = cx_Feedback (sp_RecommendationContext s),
       cx_MaterialEvidenceRevision = cx_MaterialEvidenceRevision (sp_RecommendationContext s),
       cx_EvidenceRevisions = findingEvidenceRevisions env findings,
       cx_QualityGuardrailsPass = guardrailsPass (sp_Guardrails s) \<rparr>"

definition audit_Run ::
  "audit_env \<Rightarrow> (audit_project_request \<Rightarrow> audit_error + snapshot) \<Rightarrow> audit_project_request \<Rightarrow>
   (audit_error + governance_result) option" where
  "audit_Run env take_snapshot request =
     (case audit_ValidateRequest request of
        Inl e \<Rightarrow> Some (Inl (Stable_Error e))
      | Inr _ \<Rightarrow>
          (case take_snapshot request of
             Inl e \<Rightarrow> Some (Inl e)
           | Inr raw \<Rightarrow>
               (let s = normalizeSnapshot raw
                in case Compute (sp_Metrics s) of
                     None \<Rightarrow> None
                   | Some (Inl e) \<Rightarrow> Some (Inl (Plain_Error e))
                   | Some (Inr computed) \<Rightarrow>
                       (case applyComparisons computed (sp_Comparisons s) of
                          None \<Rightarrow> None
                        | Some calculated \<Rightarrow>
                            (case Compute (sp_GovernanceOverhead s) of
                               None \<Rightarrow> None
                             | Some (Inl e) \<Rightarrow> Some (Inl (Plain_Error e))
                             | Some (Inr overhead) \<Rightarrow>
                                 (let findings = detect s;
                                      recommendations = audit_recommendations env s findings
                                  in case audit_hash env s calculated findings recommendations of
                                       Inl e \<Rightarrow> Some (Inl e)
                                     | Inr revision \<Rightarrow>
                                         Some (Inr (audit_result s revision calculated overhead findings recommendations))))))))"

section \<open>The budget of the encoded result\<close>

text \<open>Dropping the last element of the last entry that has one: \<open>omitLast\<close> tried from the end.\<close>

fun omit_in :: "('a \<Rightarrow> 'b list) \<Rightarrow> ('b list \<Rightarrow> 'a \<Rightarrow> 'a) \<Rightarrow> 'a list \<Rightarrow> 'a list option" where
  "omit_in get put [] = None"
| "omit_in get put (x # xs) =
     (case omit_in get put xs of
        Some ys \<Rightarrow> Some (x # ys)
      | None \<Rightarrow> if get x = [] then None else Some (put (butlast (get x)) x # xs))"

definition omitLast :: "'a list \<Rightarrow> 'a list option" where
  "omitLast vs = (if vs = [] then None else Some (butlast vs))"

definition put_metric_refs :: "string list \<Rightarrow> metric_result \<Rightarrow> metric_result" where
  "put_metric_refs vs m = m\<lparr> mr_EvidenceRefs := vs \<rparr>"

definition put_counterevidence :: "string list \<Rightarrow> audit_finding \<Rightarrow> audit_finding" where
  "put_counterevidence vs f = f\<lparr> fd_Counterevidence := vs \<rparr>"

definition put_guardrail_refs :: "string list \<Rightarrow> guardrail_result \<Rightarrow> guardrail_result" where
  "put_guardrail_refs vs g = g\<lparr> gr_EvidenceRefs := vs \<rparr>"

definition omitOneEvidenceReference :: "governance_result \<Rightarrow> governance_result option" where
  "omitOneEvidenceReference r =
     (case omit_in mr_EvidenceRefs put_metric_refs (gv_Metrics r) of
        Some ms \<Rightarrow> Some (r\<lparr> gv_Metrics := ms, gv_OmittedCount := gv_OmittedCount r + 1 \<rparr>)
      | None \<Rightarrow>
          (case omit_in fd_Counterevidence put_counterevidence (gv_Findings r) of
             Some fs \<Rightarrow> Some (r\<lparr> gv_Findings := fs, gv_OmittedCount := gv_OmittedCount r + 1 \<rparr>)
           | None \<Rightarrow>
               (case omit_in gr_EvidenceRefs put_guardrail_refs (gv_Guardrails r) of
                  Some gs \<Rightarrow> Some (r\<lparr> gv_Guardrails := gs, gv_OmittedCount := gv_OmittedCount r + 1 \<rparr>)
                | None \<Rightarrow> None)))"

text \<open>One round of the loop: what it omits, or nothing is left to omit.\<close>

definition omit_step :: "governance_result \<Rightarrow> governance_result option" where
  "omit_step r =
     (case omitOneEvidenceReference r of
        Some r' \<Rightarrow> Some r'
      | None \<Rightarrow>
     (case omitLast (gv_Contributions r) of
        Some vs \<Rightarrow> Some (r\<lparr> gv_Contributions := vs, gv_OmittedCount := gv_OmittedCount r + 1 \<rparr>)
      | None \<Rightarrow>
     (case omitLast (gv_Confounders r) of
        Some vs \<Rightarrow> Some (r\<lparr> gv_Confounders := vs, gv_OmittedCount := gv_OmittedCount r + 1 \<rparr>)
      | None \<Rightarrow>
     (case omitLast (gv_WorkloadEffects r) of
        Some vs \<Rightarrow> Some (r\<lparr> gv_WorkloadEffects := vs, gv_OmittedCount := gv_OmittedCount r + 1 \<rparr>)
      | None \<Rightarrow>
     (case omitLast (gv_Outliers r) of
        Some vs \<Rightarrow> Some (r\<lparr> gv_Outliers := vs, gv_OmittedCount := gv_OmittedCount r + 1 \<rparr>)
      | None \<Rightarrow> None)))))"

definition omittable :: "governance_result \<Rightarrow> nat" where
  "omittable r =
     (\<Sum>m\<leftarrow>gv_Metrics r. length (mr_EvidenceRefs m)) + (\<Sum>f\<leftarrow>gv_Findings r. length (fd_Counterevidence f)) +
     (\<Sum>g\<leftarrow>gv_Guardrails r. length (gr_EvidenceRefs g)) + length (gv_Contributions r) +
     length (gv_Confounders r) + length (gv_WorkloadEffects r) + length (gv_Outliers r)"

lemma omit_in_length:
  assumes "\<And>vs x. get (put vs x) = vs" and "omit_in get put xs = Some ys"
  shows "(\<Sum>x\<leftarrow>xs. length (get x)) = Suc (\<Sum>y\<leftarrow>ys. length (get y))"
  using assms(2)
proof (induction xs arbitrary: ys)
  case (Cons x xs)
  show ?case
  proof (cases "omit_in get put xs")
    case None
    then show ?thesis
      using Cons.prems by (cases "get x" rule: rev_cases) (auto simp: assms(1))
  next
    case (Some zs)
    then show ?thesis
      using Cons.prems Cons.IH [OF Some] by auto
  qed
qed simp

lemma omit_in_None: "omit_in get put xs = None \<Longrightarrow> list_all (\<lambda>x. get x = []) xs"
  by (induction xs) (auto split: option.splits if_splits)

lemma put_get [simp]:
  "mr_EvidenceRefs (put_metric_refs vs m) = vs"
  "fd_Counterevidence (put_counterevidence vs f) = vs"
  "gr_EvidenceRefs (put_guardrail_refs vs g) = vs"
  by (simp_all add: put_metric_refs_def put_counterevidence_def put_guardrail_refs_def)

lemma omitLast_length: "omitLast vs = Some ws \<Longrightarrow> length vs = Suc (length ws)"
  by (cases vs rule: rev_cases) (auto simp: omitLast_def)

lemma omit_step_omittable: "omit_step r = Some r' \<Longrightarrow> omittable r = Suc (omittable r')"
  by (auto simp: omit_step_def omitOneEvidenceReference_def omittable_def omitLast_length
      omit_in_length [of mr_EvidenceRefs put_metric_refs] omit_in_length [of fd_Counterevidence put_counterevidence]
      omit_in_length [of gr_EvidenceRefs put_guardrail_refs]
      split: option.splits)

function bound_loop :: "audit_env \<Rightarrow> nat \<Rightarrow> governance_result \<Rightarrow> audit_error + governance_result" where
  "bound_loop env limit r =
     (case au_marshal env r of
        None \<Rightarrow> Inl (Plain_Error ''encode bounded audit result'')
      | Some encoded \<Rightarrow>
          if length encoded \<le> limit then Inr r
          else (case omit_step r of
                  Some r' \<Rightarrow> bound_loop env limit r'
                | None \<Rightarrow> Inl (Stable_Error (NewError ErrorCodeBudgetExhausted
                            ''audit result exceeds output budget'' ''result'' False))))"
  by pat_completeness auto
termination
  by (relation "measure (\<lambda>(env, limit, r). omittable r)") (auto dest: omit_step_omittable)

declare bound_loop.simps [simp del]

definition boundResult :: "audit_env \<Rightarrow> governance_result \<Rightarrow> nat \<Rightarrow> audit_error + governance_result" where
  "boundResult env r limit =
     (case au_marshal env r of
        None \<Rightarrow> Inl (Plain_Error ''encode bounded audit result'')
      | Some encoded \<Rightarrow>
          (case au_unmarshal env encoded of
             None \<Rightarrow> Inl (Plain_Error ''clone bounded audit result'')
           | Some cloned \<Rightarrow> bound_loop env limit cloned))"

definition BoundResult :: "audit_env \<Rightarrow> governance_result \<Rightarrow> audit_error + governance_result" where
  "BoundResult env r = boundResult env r MaxResultBytes"

end
