(* ===== verification/Audit_Props.thy ===== *)
theory Audit_Props
  imports Audit_Engine
begin

text \<open>
  What the audit engine returns, and what the budget of its encoded result keeps.
\<close>

section \<open>The budget keeps the evidence of findings and recommendations\<close>

text \<open>A result without everything that may be omitted.\<close>

definition stripped :: "governance_result \<Rightarrow> governance_result" where
  "stripped r = r\<lparr> gv_Metrics := map (put_metric_refs []) (gv_Metrics r),
     gv_Findings := map (put_counterevidence []) (gv_Findings r),
     gv_Guardrails := map (put_guardrail_refs []) (gv_Guardrails r),
     gv_Contributions := [], gv_Confounders := [], gv_WorkloadEffects := [], gv_Outliers := [],
     gv_OmittedCount := gv_OmittedCount r + int (omittable r) \<rparr>"

lemma put_put [simp]:
  "put_metric_refs vs (put_metric_refs ws m) = put_metric_refs vs m"
  "put_counterevidence vs (put_counterevidence ws f) = put_counterevidence vs f"
  "put_guardrail_refs vs (put_guardrail_refs ws g) = put_guardrail_refs vs g"
  by (simp_all add: put_metric_refs_def put_counterevidence_def put_guardrail_refs_def)

lemma put_same:
  "mr_EvidenceRefs m = vs \<Longrightarrow> put_metric_refs vs m = m"
  "fd_Counterevidence f = vs \<Longrightarrow> put_counterevidence vs f = f"
  "gr_EvidenceRefs g = vs \<Longrightarrow> put_guardrail_refs vs g = g"
  by (auto simp: put_metric_refs_def put_counterevidence_def put_guardrail_refs_def)

lemma omit_in_map:
  assumes "\<And>vs x. p (put vs x) = p x" and "omit_in get put xs = Some ys"
  shows "map p ys = map p xs"
  using assms(2)
proof (induction xs arbitrary: ys)
  case (Cons x xs)
  then show ?case
    by (cases "omit_in get put xs") (auto simp: assms(1) split: if_splits)
qed simp

lemma stripped_step:
  assumes "omit_step r = Some r'"
  shows "stripped r' = stripped r"
proof -
  have count: "gv_OmittedCount r' = gv_OmittedCount r + 1"
    using assms by (auto simp: omit_step_def omitOneEvidenceReference_def split: option.splits)
  have maps: "map (put_metric_refs []) (gv_Metrics r') = map (put_metric_refs []) (gv_Metrics r)"
    "map (put_counterevidence []) (gv_Findings r') = map (put_counterevidence []) (gv_Findings r)"
    "map (put_guardrail_refs []) (gv_Guardrails r') = map (put_guardrail_refs []) (gv_Guardrails r)"
    using assms
    by (auto simp: omit_step_def omitOneEvidenceReference_def split: option.splits
        dest!: omit_in_map [of "put_metric_refs []" put_metric_refs, rotated] omit_in_map [of "put_counterevidence []" put_counterevidence, rotated]
          omit_in_map [of "put_guardrail_refs []" put_guardrail_refs, rotated])
  have rest: "r'\<lparr> gv_Metrics := [], gv_Findings := [], gv_Guardrails := [], gv_Contributions := [],
      gv_Confounders := [], gv_WorkloadEffects := [], gv_Outliers := [], gv_OmittedCount := 0 \<rparr> =
    r\<lparr> gv_Metrics := [], gv_Findings := [], gv_Guardrails := [], gv_Contributions := [],
      gv_Confounders := [], gv_WorkloadEffects := [], gv_Outliers := [], gv_OmittedCount := 0 \<rparr>"
    using assms by (auto simp: omit_step_def omitOneEvidenceReference_def split: option.splits)
  show ?thesis
    using rest maps count omit_step_omittable [OF assms] by (cases r; cases r') (simp add: stripped_def)
qed

text \<open>Where nothing is left to omit the result is its own stripped form.\<close>

lemma stripped_done:
  assumes "omit_step r = None"
  shows "stripped r = r"
proof -
  have parts: "omit_in mr_EvidenceRefs put_metric_refs (gv_Metrics r) = None"
    "omit_in fd_Counterevidence put_counterevidence (gv_Findings r) = None"
    "omit_in gr_EvidenceRefs put_guardrail_refs (gv_Guardrails r) = None"
    "gv_Contributions r = []" "gv_Confounders r = []" "gv_WorkloadEffects r = []" "gv_Outliers r = []"
    using assms by (auto simp: omit_step_def omitOneEvidenceReference_def omitLast_def split: option.splits if_splits)
  note empty = parts(1-3) [THEN omit_in_None, unfolded list_all_iff]
  have "map (put_metric_refs []) (gv_Metrics r) = gv_Metrics r"
    "map (put_counterevidence []) (gv_Findings r) = gv_Findings r"
    "map (put_guardrail_refs []) (gv_Guardrails r) = gv_Guardrails r"
    using empty by (auto intro!: map_idI put_same)
  moreover have "omittable r = 0"
    using empty parts(4-7) by (simp add: omittable_def)
  ultimately show ?thesis
    using parts(4-7) by (simp add: stripped_def)
qed

fun bound_outcome :: "audit_env \<Rightarrow> nat \<Rightarrow> governance_result \<Rightarrow> audit_error + governance_result \<Rightarrow> bool" where
  "bound_outcome env limit r (Inr b) \<longleftrightarrow>
     stripped b = stripped r \<and> (\<exists>encoded. au_marshal env b = Some encoded \<and> length encoded \<le> limit)"
| "bound_outcome env limit r (Inl (Stable_Error e)) \<longleftrightarrow>
     se_Code e = ErrorCodeBudgetExhausted \<and>
     (\<exists>encoded. au_marshal env (stripped r) = Some encoded \<and> limit < length encoded)"
| "bound_outcome env limit r (Inl (Plain_Error e)) \<longleftrightarrow>
     (\<exists>b. stripped b = stripped r \<and> au_marshal env b = None)"

lemma bound_loop_outcome: "bound_outcome env limit r (bound_loop env limit r)"
proof (induction env limit r rule: bound_loop.induct)
  case (1 env limit r)
  show ?case
  proof (cases "au_marshal env r")
    case None
    then show ?thesis
      by (subst bound_loop.simps) auto
  next
    case (Some encoded)
    show ?thesis
    proof (cases "length encoded \<le> limit")
      case True
      then show ?thesis
        using Some by (subst bound_loop.simps) simp
    next
      case big: False
      show ?thesis
      proof (cases "omit_step r")
        case None
        then show ?thesis
          using Some big stripped_done [OF None] by (subst bound_loop.simps) simp
      next
        case step: (Some r')
        have "bound_outcome env limit r (bound_loop env limit r')"
          using 1 [OF Some big step] stripped_step [OF step]
          by (cases "(env, limit, r, bound_loop env limit r')" rule: bound_outcome.cases) auto
        then show ?thesis
          using Some big step by (subst bound_loop.simps) simp
      qed
    qed
  qed
qed

lemma stripped_kept:
  assumes "stripped b = stripped r"
  shows "map fd_EvidenceRefs (gv_Findings b) = map fd_EvidenceRefs (gv_Findings r) \<and>
    map fd_Code (gv_Findings b) = map fd_Code (gv_Findings r) \<and>
    map mr_NativeValue (gv_Metrics b) = map mr_NativeValue (gv_Metrics r) \<and>
    map gr_State (gv_Guardrails b) = map gr_State (gv_Guardrails r) \<and>
    gv_Recommendations b = gv_Recommendations r \<and> gv_RevisionHash b = gv_RevisionHash r \<and>
    gv_OmittedCount b + int (omittable b) = gv_OmittedCount r + int (omittable r)"
proof -
  have lists: "map (put_counterevidence []) (gv_Findings b) = map (put_counterevidence []) (gv_Findings r)"
    "map (put_metric_refs []) (gv_Metrics b) = map (put_metric_refs []) (gv_Metrics r)"
    "map (put_guardrail_refs []) (gv_Guardrails b) = map (put_guardrail_refs []) (gv_Guardrails r)"
    "gv_Recommendations b = gv_Recommendations r" "gv_RevisionHash b = gv_RevisionHash r"
    "gv_OmittedCount b + int (omittable b) = gv_OmittedCount r + int (omittable r)"
    using arg_cong [OF assms, of gv_Findings] arg_cong [OF assms, of gv_Metrics]
      arg_cong [OF assms, of gv_Guardrails] arg_cong [OF assms, of gv_Recommendations]
      arg_cong [OF assms, of gv_RevisionHash] arg_cong [OF assms, of gv_OmittedCount]
    by (simp_all add: stripped_def)
  have sel: "fd_EvidenceRefs \<circ> put_counterevidence [] = fd_EvidenceRefs" "fd_Code \<circ> put_counterevidence [] = fd_Code"
    "mr_NativeValue \<circ> put_metric_refs [] = mr_NativeValue" "gr_State \<circ> put_guardrail_refs [] = gr_State"
    by (auto simp: put_counterevidence_def put_metric_refs_def put_guardrail_refs_def)
  show ?thesis
    using lists(4-6) arg_cong [OF lists(1), of "map fd_EvidenceRefs"] arg_cong [OF lists(1), of "map fd_Code"]
      arg_cong [OF lists(2), of "map mr_NativeValue"] arg_cong [OF lists(3), of "map gr_State"]
    by (simp add: sel)
qed

text \<open>The forms a result passes through while entries are omitted one by one, from the full one to the
  stripped one.\<close>

function omissions :: "governance_result \<Rightarrow> governance_result list" where
  "omissions r = r # (case omit_step r of None \<Rightarrow> [] | Some r' \<Rightarrow> omissions r')"
  by pat_completeness auto
termination
  by (relation "measure omittable") (auto dest: omit_step_omittable)

declare omissions.simps [simp del]

definition encodes_over :: "audit_env \<Rightarrow> nat \<Rightarrow> governance_result \<Rightarrow> bool" where
  "encodes_over env limit r \<longleftrightarrow> (case au_marshal env r of None \<Rightarrow> False | Some encoded \<Rightarrow> limit < length encoded)"

definition encodes_within :: "audit_env \<Rightarrow> nat \<Rightarrow> governance_result \<Rightarrow> bool" where
  "encodes_within env limit r \<longleftrightarrow> (case au_marshal env r of None \<Rightarrow> False | Some encoded \<Rightarrow> length encoded \<le> limit)"

lemma omissions_hd_last: "hd (omissions r) = r \<and> last (omissions r) = stripped r \<and> length (omissions r) = Suc (omittable r)"
proof (induction r rule: omissions.induct)
  case (1 r)
  show ?case
  proof (cases "omit_step r")
    case None
    then have "omittable r = 0"
      using arg_cong [OF stripped_done [OF None], of gv_OmittedCount] by (simp add: stripped_def)
    with None show ?thesis
      using stripped_done [OF None] by (subst (1 2 3) omissions.simps) simp
  next
    case (Some r')
    have "omissions r' \<noteq> []"
      by (subst omissions.simps) simp
    with Some show ?thesis
      using 1 [OF Some] omit_step_omittable [OF Some] stripped_step [OF Some]
      by (subst (1 2 3) omissions.simps) simp
  qed
qed

text \<open>The loop returns the first form that is not too long.\<close>

lemma bound_loop_first:
  "(case bound_loop env limit r of
      Inr b \<Rightarrow> \<exists>pre post. omissions r = pre @ b # post \<and> list_all (encodes_over env limit) pre \<and> encodes_within env limit b
    | Inl (Stable_Error e) \<Rightarrow> se_Code e = ErrorCodeBudgetExhausted \<and> list_all (encodes_over env limit) (omissions r)
    | Inl (Plain_Error e) \<Rightarrow> \<exists>pre b post. omissions r = pre @ b # post \<and> list_all (encodes_over env limit) pre \<and>
        au_marshal env b = None)"
proof (induction env limit r rule: bound_loop.induct)
  case (1 env limit r)
  show ?case
  proof (cases "encodes_over env limit r")
    case False
    have first: "omissions r = [] @ r # tl (omissions r)"
      by (subst (1 2) omissions.simps) simp
    show ?thesis
    proof (cases "au_marshal env r")
      case None
      then have "bound_loop env limit r = Inl (Plain_Error ''encode bounded audit result'')"
        by (subst bound_loop.simps) simp
      then show ?thesis
        using None by (simp del: append_Nil) (metis first list.pred_inject(1))
    next
      case (Some encoded)
      then have "bound_loop env limit r = Inr r" "encodes_within env limit r"
        using False by (subst bound_loop.simps, simp_all add: encodes_over_def encodes_within_def)
      then show ?thesis
        by (simp del: append_Nil) (metis first list.pred_inject(1))
    qed
  next
    case True
    then obtain encoded where enc: "au_marshal env r = Some encoded" "\<not> length encoded \<le> limit"
      by (auto simp: encodes_over_def split: option.splits)
    show ?thesis
    proof (cases "omit_step r")
      case None
      then show ?thesis
        using enc True by (subst bound_loop.simps, subst omissions.simps) simp
    next
      case (Some r')
      have loop: "bound_loop env limit r = bound_loop env limit r'"
        using enc Some by (subst bound_loop.simps) simp
      have forms: "omissions r = r # omissions r'"
        using Some by (subst omissions.simps) simp
      have "list_all (encodes_over env limit) pre \<Longrightarrow> omissions r' = pre @ b # post \<Longrightarrow>
          omissions r = (r # pre) @ b # post \<and> list_all (encodes_over env limit) (r # pre)" for pre b post
        using True by (simp add: forms)
      then show ?thesis
        using 1 [OF enc(1) enc(2) Some] True unfolding loop
        by (cases "(env, limit, r, bound_loop env limit r')" rule: bound_outcome.cases)
          (simp_all add: forms, (metis append_Cons list.pred_inject(2))+)
    qed
  qed
qed

lemma first_form_unique:
  assumes "xs = pre @ b # post" "list_all P pre" "\<not> P b" "xs = pre' @ b' # post'" "list_all P pre'" "\<not> P b'"
  shows "b = b'"
proof -
  have "dropWhile P xs = b # post"
    using assms(2,3) unfolding assms(1) by (simp add: list_all_iff)
  moreover have "dropWhile P xs = b' # post'"
    using assms(5,6) unfolding assms(4) by (simp add: list_all_iff)
  ultimately show ?thesis
    by simp
qed

text \<open>C28: The budget of an audit result is met without touching what decisions rest on. A result that
  does not survive its JSON copy is refused. Otherwise entries of the copy are omitted one at a time, and
  the result returned is exactly the first of the forms from the full copy to the stripped one whose
  encoding fits the limit, the earlier ones all being too long; the budget is reported as exhausted exactly when
  every form, the stripped one included, is too long. What is returned has the findings with
  their evidence references, the metric values, the guardrail states and the recommendations of the copy,
  and counts every omitted entry.\<close>
theorem bound_result_keeps_evidence:
  "case Option.bind (au_marshal env r) (au_unmarshal env) of
      None \<Rightarrow> \<exists>msg. boundResult env r limit = Inl (Plain_Error msg)
    | Some c \<Rightarrow>
        (\<forall>b. boundResult env r limit = Inr b \<longleftrightarrow>
           (\<exists>pre post. omissions c = pre @ b # post \<and> list_all (encodes_over env limit) pre \<and> encodes_within env limit b)) \<and>
        ((\<exists>e. boundResult env r limit = Inl (Stable_Error e)) \<longleftrightarrow> list_all (encodes_over env limit) (omissions c)) \<and>
        hd (omissions c) = c \<and> last (omissions c) = stripped c \<and>
        (case boundResult env r limit of
           Inr b \<Rightarrow>
             map fd_EvidenceRefs (gv_Findings b) = map fd_EvidenceRefs (gv_Findings c) \<and>
             map fd_Code (gv_Findings b) = map fd_Code (gv_Findings c) \<and>
             map mr_NativeValue (gv_Metrics b) = map mr_NativeValue (gv_Metrics c) \<and>
             map gr_State (gv_Guardrails b) = map gr_State (gv_Guardrails c) \<and>
             gv_Recommendations b = gv_Recommendations c \<and> gv_RevisionHash b = gv_RevisionHash c \<and>
             gv_OmittedCount b - gv_OmittedCount c = int (omittable c) - int (omittable b)
         | Inl (Stable_Error e) \<Rightarrow> se_Code e = ErrorCodeBudgetExhausted
         | Inl (Plain_Error _) \<Rightarrow> True)"
proof (cases "Option.bind (au_marshal env r) (au_unmarshal env)")
  case None
  then show ?thesis
    by (auto simp: boundResult_def split: option.splits)
next
  case (Some c)
  then have run: "boundResult env r limit = bound_loop env limit c"
    by (auto simp: boundResult_def split: option.splits Option.bind_splits)
  have over: "\<not> encodes_over env limit b" if "encodes_within env limit b \<or> au_marshal env b = None" for b
    using that by (auto simp: encodes_over_def encodes_within_def split: option.splits)
  note first = bound_loop_first [of env limit c] first_form_unique [where P = "encodes_over env limit" and xs = "omissions c"]
  show ?thesis
  proof (cases "bound_loop env limit c")
    case (Inr b)
    then obtain pre post where b: "omissions c = pre @ b # post" "list_all (encodes_over env limit) pre" "encodes_within env limit b"
      using first(1) by auto
    have "stripped b = stripped c"
      using bound_loop_outcome [of env limit c] Inr by simp
    from stripped_kept [OF this] show ?thesis
      using b over first(2) [OF b(1,2)] omissions_hd_last [of c] unfolding Some option.case run Inr
      by (auto simp: list_all_iff)
  next
    case (Inl e)
    show ?thesis
    proof (cases e)
      case (Stable_Error se)
      then have all: "list_all (encodes_over env limit) (omissions c)" "se_Code se = ErrorCodeBudgetExhausted"
        using first(1) Inl by auto
      then have "\<not> encodes_within env limit b" if "omissions c = pre @ b # post" for pre b post
        using over that by (auto simp: list_all_iff)
      then show ?thesis
        using all omissions_hd_last [of c] unfolding Some option.case run Inl Stable_Error by auto
    next
      case (Plain_Error msg)
      then obtain pre b post where b: "omissions c = pre @ b # post" "list_all (encodes_over env limit) pre" "au_marshal env b = None"
        using first(1) Inl by auto
      then have "\<not> encodes_over env limit b" "\<not> encodes_within env limit b"
        by (simp_all add: encodes_over_def encodes_within_def)
      then show ?thesis
        using b over first(2) [OF b(1,2)] omissions_hd_last [of c] unfolding Some option.case run Inl Plain_Error
        by (auto simp: list_all_iff)
    qed
  qed
qed

abbreviation sample_audit_env :: audit_env where
  "sample_audit_env \<equiv> \<lparr> au_sha256 = (\<lambda>m. m), au_marshal_refs = concat,
     au_marshal_revision = (\<lambda>_ _ _ _ _. Some ''0123456789abcdef0123456789abcdef''),
     au_marshal = (\<lambda>r. Some (replicate (omittable r) (CHR ''x''))),
     au_unmarshal = (\<lambda>_. Some (sample_revision ''a'' 1\<lparr> gv_Guardrails :=
       [\<lparr> gr_Name = ''privacy'', gr_State = ''pass'', gr_Coverage = '''', gr_EvidenceRefs = [''e1'', ''e2'', ''e3''] \<rparr>] \<rparr>)) \<rparr>"

section \<open>The engine\<close>

lemma ratio_total: "map_of metric_units name \<noteq> None \<Longrightarrow> \<exists>r. ratio name n den i = Some r \<and> mr_Name r = name"
  using ratio_ok [of name] by fastforce

lemma perHundred_total: "map_of metric_units name \<noteq> None \<Longrightarrow> \<exists>r. perHundred name n den i = Some r \<and> mr_Name r = name"
  using ratio_total [of name "f64_of_int n" den i] by (auto simp: perHundred_def)

lemma Compute_total:
  "Compute i = Some (Inl ''metric input is inconsistent'') \<or>
     (\<exists>rs. Compute i = Some (Inr rs) \<and> map mr_Name rs = sort_strings metric_names)"
proof (cases "invalidInput i")
  case False
  have "list_all2 (\<lambda>name x. \<exists>r. x = Some r \<and> mr_Name r = name) metric_names (metric_list i)"
    unfolding metric_list_def metric_names_def list_all2_Cons list_all2_Nil
    by (intro conjI refl; (rule ratio_total | rule perHundred_total); simp add: metric_units_eq)
  then have "list_all2 (\<lambda>name x. \<exists>r. x = Some r \<and> mr_Name r = name \<and> True) metric_names (metric_list i)"
    by simp
  from those_list_all2 [where P = "\<lambda>_. True" and f = mr_Name, OF this]
  obtain rs where rs: "those (metric_list i) = Some rs" "map mr_Name rs = metric_names"
    by auto
  have "map mr_Name (sort_slice metric_name_before rs) = sort_strings metric_names"
  proof -
    have "mset (map mr_Name (sort_slice metric_name_before rs)) = mset metric_names"
      using rs(2) by (metis mset_map mset_sort_slice)
    then have "sort metric_names = map mr_Name (sort_slice metric_name_before rs)"
      using metric_name_order.sorted_sort_slice by (rule properties_for_sort)
    then show ?thesis
      by (simp add: sort_strings_def strings_order.sort_slice_eq)
  qed
  then show ?thesis
    using False rs(1) by (simp add: Compute_def)
qed (simp add: Compute_def)

lemma verdict_name [simp]: "mr_Name (verdict cur d c v prev median mad n) = mr_Name cur"
  by (simp add: verdict_def Let_def)

lemma with_baseline_name [simp]: "mr_Name (with_baseline cur c v prev median mad n) = mr_Name cur"
  by (simp add: with_baseline_def)

lemma baseline_Apply_name: "baseline_Apply m d c = Some r \<Longrightarrow> mr_Name r = mr_Name m"
  by (auto simp: baseline_Apply_def Let_def split: option.splits if_splits sum.splits prod.splits)

lemma apply_comparison_total: "\<exists>r. apply_comparison cs m = Some r \<and> mr_Name r = mr_Name m"
proof (cases "cs (mr_Name m)")
  case (Some c)
  then show ?thesis
    using baseline_Apply_cases [of m "definition_or_zero (mr_Name m)" c] baseline_Apply_name
    by (auto simp: apply_comparison_def)
qed (simp add: apply_comparison_def)

lemma applyComparisons_total: "\<exists>rs. applyComparisons ms cs = Some rs \<and> map mr_Name rs = map mr_Name ms"
  unfolding applyComparisons_def
proof (induction ms)
  case (Cons m ms)
  then show ?case
    using apply_comparison_total [of cs m] by auto
qed simp

lemma Generate_bounds: "Generate fs cx \<noteq> [] \<and> length (Generate fs cx) \<le> 5"
  by (simp add: Generate_def Let_def generate_loop_eq)

lemma Generate_supported:
  "list_all (\<lambda>r. r = noAction \<or> (rc_ApprovalRequired r \<and> cx_QualityGuardrailsPass cx \<and>
     list_ex (\<lambda>f. rc_EvidenceRefs r = fd_EvidenceRefs f \<and> fd_Classification f \<notin> {''necessary'', ''uncertain''}) fs))
     (Generate fs cx)"
proof -
  have "rc_ApprovalRequired r \<and> cx_QualityGuardrailsPass cx \<and>
      list_ex (\<lambda>f. rc_EvidenceRefs r = fd_EvidenceRefs f \<and> fd_Classification f \<notin> {''necessary'', ''uncertain''}) fs"
    if r: "r \<in> set (Generate fs cx)" "r \<noteq> noAction" for r
  proof -
    obtain f where f: "f \<in> set fs" "\<not> finding_skipped cx f" "recommendation_candidate f = Some r"
      using generate_member [OF r] by (auto simp: recommended_def split: if_splits)
    then show ?thesis
      using candidate_preview [OF f(3)] by (auto simp: finding_skipped_def list_ex_iff)
  qed
  then show ?thesis
    by (auto simp: list_all_iff)
qed

lemma validate_consent: "audit_ValidateRequest request = Inr u \<Longrightarrow> apq_Consent request = AuditConsentGranted"
  unfolding audit_ValidateRequest_def bind_result_def
  by (simp split: if_split_asm sum.split_asm)

lemma audit_result_supported:
  assumes "map mr_Name calculated = sort_strings metric_names"
  shows "map mr_Name (gv_Metrics (audit_result s h calculated overhead (detect s) (audit_recommendations env s (detect s)))) =
      sort_strings metric_names \<and>
    length (gv_Outliers (audit_result s h calculated overhead (detect s) (audit_recommendations env s (detect s)))) \<le> 10 \<and>
    gv_Recommendations (audit_result s h calculated overhead (detect s) (audit_recommendations env s (detect s))) \<noteq> [] \<and>
    length (gv_Recommendations (audit_result s h calculated overhead (detect s) (audit_recommendations env s (detect s)))) \<le> 5 \<and>
    list_all (\<lambda>rc. rc = noAction \<or> (rc_ApprovalRequired rc \<and>
         guardrailsPass (gv_Guardrails (audit_result s h calculated overhead (detect s) (audit_recommendations env s (detect s)))) \<and>
         list_ex (\<lambda>f. rc_EvidenceRefs rc = fd_EvidenceRefs f \<and>
           fd_Classification f \<notin> {''necessary'', ''uncertain''})
           (gv_Findings (audit_result s h calculated overhead (detect s) (audit_recommendations env s (detect s))))))
       (gv_Recommendations (audit_result s h calculated overhead (detect s) (audit_recommendations env s (detect s))))"
  using assms Generate_bounds Generate_supported [of "\<lparr> cx_AsOf = sp_AsOf s,
       cx_ExistingRuleCoverage = cx_ExistingRuleCoverage (sp_RecommendationContext s),
       cx_Feedback = cx_Feedback (sp_RecommendationContext s),
       cx_MaterialEvidenceRevision = cx_MaterialEvidenceRevision (sp_RecommendationContext s),
       cx_EvidenceRevisions = findingEvidenceRevisions env (detect s),
       cx_QualityGuardrailsPass = guardrailsPass (sp_Guardrails s) \<rparr>" "detect s"]
  by (simp add: audit_result_def audit_recommendations_def outlier_Rank_def)

text \<open>C29: an audit runs only with consent and always ends in a bounded, supported result. The engine
  never panics, whatever the snapshot; when it succeeds the request carries granted consent, there
  is one result per metric of the registry in name order, at most ten outliers, one to five
  recommendations, and each recommendation other than keeping the workflow needs approval, is made
  with all guardrails passing, and carries the evidence of a reported finding that is neither
  necessary work nor uncertain.\<close>
theorem audit_run_supported:
  "case audit_Run env take_snapshot request of
     None \<Rightarrow> False
   | Some (Inl e) \<Rightarrow> True
   | Some (Inr r) \<Rightarrow> apq_Consent request = AuditConsentGranted \<and>
       map mr_Name (gv_Metrics r) = sort_strings metric_names \<and> length (gv_Outliers r) \<le> 10 \<and>
       gv_Recommendations r \<noteq> [] \<and> length (gv_Recommendations r) \<le> 5 \<and>
       list_all (\<lambda>rc. rc = noAction \<or> (rc_ApprovalRequired rc \<and> guardrailsPass (gv_Guardrails r) \<and>
         list_ex (\<lambda>f. rc_EvidenceRefs rc = fd_EvidenceRefs f \<and>
           fd_Classification f \<notin> {''necessary'', ''uncertain''}) (gv_Findings r))) (gv_Recommendations r)"
proof (cases "audit_ValidateRequest request")
  case (Inr u)
  then have consent: "apq_Consent request = AuditConsentGranted"
    by (rule validate_consent)
  show ?thesis
  proof (cases "take_snapshot request")
    case snap: (Inr raw)
    define s where "s = normalizeSnapshot raw"
    consider (bad) "Compute (sp_Metrics s) = Some (Inl ''metric input is inconsistent'')"
      | (good) rs where "Compute (sp_Metrics s) = Some (Inr rs)" "map mr_Name rs = sort_strings metric_names"
      using Compute_total [of "sp_Metrics s"] by blast
    then show ?thesis
    proof cases
      case bad
      then show ?thesis
        using Inr snap by (simp add: audit_Run_def s_def Let_def)
    next
      case good
      obtain calculated where calc: "applyComparisons rs (sp_Comparisons s) = Some calculated"
        "map mr_Name calculated = sort_strings metric_names"
        using applyComparisons_total [of rs "sp_Comparisons s"] good(2) by auto
      show ?thesis
      proof (cases "Compute (sp_GovernanceOverhead s)")
        case None
        then show ?thesis
          using Compute_total [of "sp_GovernanceOverhead s"] by simp
      next
        case over: (Some o1)
        show ?thesis
          using Inr snap good calc consent over audit_result_supported [OF calc(2)]
          by (simp add: audit_Run_def s_def [symmetric] Let_def split: sum.split)
      qed
    qed
  qed (use Inr in \<open>simp add: audit_Run_def\<close>)
qed (simp add: audit_Run_def)

section \<open>Diagnoses that never reach a recommendation\<close>

lemma observation_codes:
  "map ob_Code (observations s) = [''scope_attribution_gap'', ''boundary_violation'', ''checkpoint_gap'',
     ''passive_polling'', ''repeated_unchanged_call'', ''tool_error_burst'', ''missing_validation'',
     ''privacy_redaction_gap'']"
  by (simp add: observations_def observation_of_def Let_def)

lemma detect_origin:
  assumes "f \<in> set (detect s)"
  obtains ob where "ob \<in> set (observations s)" and "diagnosis_evaluate ob = Some f" and "fd_Code f = ob_Code ob"
proof -
  obtain ob where "ob \<in> set (observations s)" "diagnosis_evaluate ob = Some f"
    using assms by (auto simp: detect_def diagnosis_Evaluate_def map_filter_mem)
  moreover from this have "fd_Code f = ob_Code ob"
    by (auto simp: diagnosis_evaluate_def Let_def split: if_splits prod.splits)
  ultimately show thesis
    by (rule that)
qed

lemma detect_codes: "f \<in> set (detect s) \<Longrightarrow> fd_Code f \<in> set (map ob_Code (observations s))"
  by (auto elim!: detect_origin)

lemma linked_loop_none:
  "(\<And>f. f \<in> set fs \<Longrightarrow> fd_Code f \<notin> set allowed) \<Longrightarrow> linked_loop allowed rcs fs = ''''"
  by (induction fs) auto

text \<open>An outlier of the privacy metric is never linked to the recommendation made for it. The
  registry allows the metric the diagnosis \<open>privacy_gap\<close>, while the detector that leads to
  \<open>restore_redaction_coverage\<close> reports \<open>privacy_redaction_gap\<close>: whatever was detected and
  recommended, the linked recommendation code is empty.\<close>
theorem privacy_outlier_never_linked:
  "linkedRecommendation (definition_or_zero ''privacy_redaction_coverage'') (detect s) rcs = ''''"
proof -
  have "df_AllowedDiagnoses (definition_or_zero ''privacy_redaction_coverage'') = [''privacy_gap'']"
    by (simp add: definition_or_zero_def definition_of_def registry_def newDefinition_def)
  moreover have "fd_Code f \<noteq> ''privacy_gap''" if "f \<in> set (detect s)" for f
    using detect_codes [OF that] unfolding observation_codes by auto
  ultimately show ?thesis
    by (auto simp: linkedRecommendation_def intro!: linked_loop_none)
qed

lemma candidate_code:
  "recommendation_candidate f = Some r \<Longrightarrow> rc_Code r = ''restore_scope_attribution'' \<Longrightarrow>
     fd_Code f = ''scope_attribution_gap''"
  by (auto simp: recommendation_candidate_def preview_def split: if_split_asm)

text \<open>Missing attribution is recommended only on doubtful evidence. The detector classifies the gap
  as uncertain, which the generator skips, unless an unmatched confounder turns it into mixed: when
  all confounders match, no recommendation restores scope attribution.\<close>
theorem attribution_recommended_only_unmatched:
  "if list_all ct_Matched (sp_ConfounderStrata s)
   then list_all (\<lambda>r. rc_Code r \<noteq> ''restore_scope_attribution'') (Generate (detect s) cx)
   else True"
proof -
  have "rc_Code r \<noteq> ''restore_scope_attribution''"
    if matched: "list_all ct_Matched (sp_ConfounderStrata s)" and r: "r \<in> set (Generate (detect s) cx)" for r
  proof
    assume code: "rc_Code r = ''restore_scope_attribution''"
    then have "r \<noteq> noAction"
      by (auto simp: noAction_def)
    then obtain f where f: "f \<in> set (detect s)" "\<not> finding_skipped cx f" "recommendation_candidate f = Some r"
      using generate_member [OF r] by (auto simp: recommended_def split: if_splits)
    obtain ob where ob: "ob \<in> set (observations s)" "diagnosis_evaluate ob = Some f" "fd_Code f = ob_Code ob"
      using f(1) by (rule detect_origin)
    have "ob_Code ob = ''scope_attribution_gap''"
      using candidate_code [OF f(3) code] ob(3) by simp
    then have "ob_Classification ob = ''uncertain'' \<and> ob_Counterevidence ob = [] \<and> ob_ConfounderMatched ob"
      using ob(1) matched by (auto simp: observations_def observation_of_def Let_def)
    then have "fd_Classification f \<in> {''necessary'', ''uncertain''}"
      using ob(2) by (auto simp: diagnosis_evaluate_def finding_class_def Let_def split: if_splits prod.splits)
    then show False
      using f(2) by (auto simp: finding_skipped_def)
  qed
  then show ?thesis
    by (simp add: list_all_iff)
qed

end
