(* ===== verification/Workload.thy ===== *)
theory Workload
  imports Audit_Types
begin

text \<open>
  \<open>internal/workload/workload.go\<close>: decomposition of the change of a total into volume, class mix and
  within-class effects. The operations take the rounding of float64 as a parameter: the program
  rounds by \<open>f64_round\<close>, and the identity it documents up to rounding is the one of exact arithmetic,
  where the rounding is \<open>Fin\<close>.
\<close>

record class_value =
  cv_Class :: string
  cv_Count :: f64
  cv_Numerator :: f64
  cv_Denominator :: f64

definition zero_class_value :: class_value where
  "zero_class_value = \<lparr> cv_Class = '''', cv_Count = Fin 0, cv_Numerator = Fin 0, cv_Denominator = Fin 0 \<rparr>"

definition class_value_invalid :: "class_value \<Rightarrow> bool" where
  "class_value_invalid v \<longleftrightarrow>
     cv_Class v = '''' \<or> \<not> f64_finite (cv_Count v) \<or> \<not> f64_finite (cv_Numerator v) \<or>
     \<not> f64_finite (cv_Denominator v) \<or> f64_less (cv_Count v) (Fin 0) \<or> f64_less (cv_Numerator v) (Fin 0) \<or>
     f64_less (cv_Denominator v) (Fin 0) \<or>
     (f64_less (Fin 0) (cv_Numerator v) \<and> f64_eq (cv_Denominator v) (Fin 0))"

definition validInputs :: "class_value list \<Rightarrow> bool" where
  "validInputs vs \<longleftrightarrow> \<not> list_ex class_value_invalid vs"

definition classUnion :: "class_value list \<Rightarrow> class_value list \<Rightarrow> string list" where
  "classUnion xs ys = sort_strings (remdups (filter (\<lambda>c. c \<noteq> '''') (map cv_Class (xs @ ys))))"

text \<open>A lookup of an absent class in the Go map is the zero value.\<close>

definition class_at :: "(string \<rightharpoonup> class_value) \<Rightarrow> string \<Rightarrow> class_value" where
  "class_at m c = (case m c of None \<Rightarrow> zero_class_value | Some v \<Rightarrow> v)"

definition index_step ::
  "(rat \<Rightarrow> f64) \<Rightarrow> (string \<rightharpoonup> class_value) \<Rightarrow> class_value \<Rightarrow> (string \<rightharpoonup> class_value)" where
  "index_step rnd m v =
     (let current = class_at m (cv_Class v)
      in m(cv_Class v \<mapsto> \<lparr> cv_Class = cv_Class v,
             cv_Count = add_with rnd (cv_Count current) (cv_Count v),
             cv_Numerator = add_with rnd (cv_Numerator current) (cv_Numerator v),
             cv_Denominator = add_with rnd (cv_Denominator current) (cv_Denominator v) \<rparr>))"

definition class_index :: "(rat \<Rightarrow> f64) \<Rightarrow> class_value list \<Rightarrow> (string \<rightharpoonup> class_value)" where
  "class_index rnd vs = foldl (index_step rnd) Map.empty vs"

definition totalCount :: "(rat \<Rightarrow> f64) \<Rightarrow> class_value list \<Rightarrow> f64" where
  "totalCount rnd vs = foldl (\<lambda>t v. add_with rnd t (cv_Count v)) (Fin 0) vs"

definition totalNumerator :: "(rat \<Rightarrow> f64) \<Rightarrow> class_value list \<Rightarrow> f64" where
  "totalNumerator rnd vs = foldl (\<lambda>t v. add_with rnd t (cv_Numerator v)) (Fin 0) vs"

definition safeRate :: "(rat \<Rightarrow> f64) \<Rightarrow> class_value \<Rightarrow> f64" where
  "safeRate rnd v =
     (if f64_le (cv_Denominator v) (Fin 0) then Fin 0
      else div_with rnd (cv_Numerator v) (cv_Denominator v))"

definition float_direction :: "(rat \<Rightarrow> f64) \<Rightarrow> f64 \<Rightarrow> int" where
  "float_direction rnd x =
     (if f64_less (f64_abs x) (rnd (1 / 1000000000000)) then 0 else if f64_less x (Fin 0) then - 1 else 1)"

definition aggregateDirection :: "(rat \<Rightarrow> f64) \<Rightarrow> class_value list \<Rightarrow> class_value list \<Rightarrow> int" where
  "aggregateDirection rnd previous current = float_direction rnd
     (sub_with rnd (div_with rnd (totalNumerator rnd current) (totalCount rnd current))
        (div_with rnd (totalNumerator rnd previous) (totalCount rnd previous)))"

definition withinDirection ::
  "(rat \<Rightarrow> f64) \<Rightarrow> (string \<rightharpoonup> class_value) \<Rightarrow> (string \<rightharpoonup> class_value) \<Rightarrow> string list \<Rightarrow> int" where
  "withinDirection rnd previous current classes = float_direction rnd
     (foldl (\<lambda>t c. add_with rnd t
         (sub_with rnd (safeRate rnd (class_at current c)) (safeRate rnd (class_at previous c))))
       (Fin 0) classes)"

definition mix_term :: "(rat \<Rightarrow> f64) \<Rightarrow> f64 \<Rightarrow> f64 \<Rightarrow> class_value \<Rightarrow> class_value \<Rightarrow> f64" where
  "mix_term rnd prevCount currCount p c =
     mul_with rnd (mul_with rnd currCount
         (sub_with rnd (div_with rnd (cv_Count c) currCount) (div_with rnd (cv_Count p) prevCount)))
       (safeRate rnd p)"

definition within_term :: "(rat \<Rightarrow> f64) \<Rightarrow> f64 \<Rightarrow> class_value \<Rightarrow> class_value \<Rightarrow> f64" where
  "within_term rnd currCount p c =
     mul_with rnd (mul_with rnd currCount (div_with rnd (cv_Count c) currCount))
       (sub_with rnd (safeRate rnd c) (safeRate rnd p))"

definition insufficient_decomposition :: "string \<Rightarrow> string list \<Rightarrow> workload_decomposition" where
  "insufficient_decomposition metric classes =
     \<lparr> wd_Metric = metric, wd_VolumeEffect = None, wd_MixEffect = None, wd_WithinClassEffect = None,
       wd_Residual = None, wd_Status = ''insufficient'', wd_Classes = classes \<rparr>"

definition Decompose_with ::
  "(rat \<Rightarrow> f64) \<Rightarrow> string \<Rightarrow> class_value list \<Rightarrow> class_value list \<Rightarrow> workload_decomposition" where
  "Decompose_with rnd metric previous current =
     (let classes = classUnion previous current
      in if classes = [] \<or> \<not> validInputs previous \<or> \<not> validInputs current
         then insufficient_decomposition metric []
         else
           (let prev = class_index rnd previous; curr = class_index rnd current;
                prevCount = totalCount rnd previous; currCount = totalCount rnd current
            in if f64_le prevCount (Fin 0) \<or> f64_le currCount (Fin 0)
               then insufficient_decomposition metric classes
               else
                 (let prevTotal = totalNumerator rnd previous; currTotal = totalNumerator rnd current;
                      prevRate = div_with rnd prevTotal prevCount;
                      volume = mul_with rnd (sub_with rnd currCount prevCount) prevRate;
                      mix = foldl (\<lambda>t c. add_with rnd t
                          (mix_term rnd prevCount currCount (class_at prev c) (class_at curr c))) (Fin 0) classes;
                      within_effect = foldl (\<lambda>t c. add_with rnd t
                          (within_term rnd currCount (class_at prev c) (class_at curr c))) (Fin 0) classes;
                      change = sub_with rnd currTotal prevTotal;
                      residual = sub_with rnd (sub_with rnd (sub_with rnd change volume) mix) within_effect
                  in \<lparr> wd_Metric = metric, wd_VolumeEffect = Some volume, wd_MixEffect = Some mix,
                       wd_WithinClassEffect = Some within_effect, wd_Residual = Some residual,
                       wd_Status = (if aggregateDirection rnd previous current \<noteq> withinDirection rnd prev curr classes
                                    then ''simpson_mixed'' else ''decomposed''),
                       wd_Classes = classes \<rparr>)))"

definition Decompose :: "string \<Rightarrow> class_value list \<Rightarrow> class_value list \<Rightarrow> workload_decomposition" where
  "Decompose = Decompose_with f64_round"

section \<open>Exact arithmetic\<close>

fun f64_val :: "f64 \<Rightarrow> rat" where
  "f64_val (Fin a) = a"
| "f64_val _ = 0"

definition finite_class :: "class_value \<Rightarrow> bool" where
  "finite_class v \<longleftrightarrow>
     f64_finite (cv_Count v) \<and> f64_finite (cv_Numerator v) \<and> f64_finite (cv_Denominator v)"

definition class_rate :: "class_value \<Rightarrow> rat" where
  "class_rate v = (if f64_val (cv_Denominator v) \<le> 0 then 0
                   else f64_val (cv_Numerator v) / f64_val (cv_Denominator v))"

lemma exact_sum:
  assumes "\<And>v. v \<in> set vs \<Longrightarrow> f v = Fin (g v)"
  shows "foldl (\<lambda>t v. add_with Fin t (f v)) (Fin a) vs = Fin (a + (\<Sum>v\<leftarrow>vs. g v))"
  using assms by (induction vs arbitrary: a) (auto simp: add.assoc)

lemma Fin_f64_val: "f64_finite x \<Longrightarrow> x = Fin (f64_val x)"
  by (cases x) auto

lemma exact_totalCount: "list_all finite_class vs \<Longrightarrow> totalCount Fin vs = Fin (\<Sum>v\<leftarrow>vs. f64_val (cv_Count v))"
  unfolding totalCount_def using exact_sum [of vs cv_Count "\<lambda>v. f64_val (cv_Count v)" 0]
  by (auto simp: list_all_iff finite_class_def Fin_f64_val)

lemma exact_totalNumerator:
  "list_all finite_class vs \<Longrightarrow> totalNumerator Fin vs = Fin (\<Sum>v\<leftarrow>vs. f64_val (cv_Numerator v))"
  unfolding totalNumerator_def using exact_sum [of vs cv_Numerator "\<lambda>v. f64_val (cv_Numerator v)" 0]
  by (auto simp: list_all_iff finite_class_def Fin_f64_val)

lemma exact_safeRate: "finite_class v \<Longrightarrow> safeRate Fin v = Fin (class_rate v)"
  by (cases "cv_Numerator v"; cases "cv_Denominator v")
    (auto simp: safeRate_def class_rate_def finite_class_def f64_le_def f64_eq_def div_with_def)

text \<open>The entry of a class in the index adds up the entries of that class.\<close>

definition class_sum :: "(class_value \<Rightarrow> f64) \<Rightarrow> string \<Rightarrow> class_value list \<Rightarrow> rat" where
  "class_sum f c vs = (\<Sum>v\<leftarrow>filter (\<lambda>v. cv_Class v = c) vs. f64_val (f v))"

lemma index_fold:
  assumes "list_all finite_class vs" and "\<And>c. finite_class (class_at m c)"
  shows "finite_class (class_at (foldl (index_step Fin) m vs) c) \<and>
    f64_val (cv_Count (class_at (foldl (index_step Fin) m vs) c)) =
      f64_val (cv_Count (class_at m c)) + class_sum cv_Count c vs \<and>
    f64_val (cv_Numerator (class_at (foldl (index_step Fin) m vs) c)) =
      f64_val (cv_Numerator (class_at m c)) + class_sum cv_Numerator c vs \<and>
    f64_val (cv_Denominator (class_at (foldl (index_step Fin) m vs) c)) =
      f64_val (cv_Denominator (class_at m c)) + class_sum cv_Denominator c vs"
  using assms
proof (induction vs arbitrary: m)
  case (Cons v vs)
  have fin: "finite_class v" and rest: "list_all finite_class vs"
    using Cons.prems by auto
  have add: "add_with Fin x y = Fin (f64_val x + f64_val y)" if "f64_finite x" "f64_finite y" for x y
    using that by (cases x; cases y) auto
  have step: "class_at (index_step Fin m v) d =
      (if d = cv_Class v
       then \<lparr> cv_Class = d, cv_Count = Fin (f64_val (cv_Count (class_at m d)) + f64_val (cv_Count v)),
              cv_Numerator = Fin (f64_val (cv_Numerator (class_at m d)) + f64_val (cv_Numerator v)),
              cv_Denominator = Fin (f64_val (cv_Denominator (class_at m d)) + f64_val (cv_Denominator v)) \<rparr>
       else class_at m d)" for d
    using fin Cons.prems(2) [of d] by (auto simp: index_step_def class_at_def Let_def add finite_class_def)
  have "finite_class (class_at (index_step Fin m v) d)" for d
    using Cons.prems(2) [of d] by (simp add: step finite_class_def)
  then show ?case
    using Cons.IH [OF rest, of "index_step Fin m v"] by (auto simp: step class_sum_def)
qed (simp add: class_sum_def)

lemma exact_index:
  assumes "list_all finite_class vs"
  shows "finite_class (class_at (class_index Fin vs) c)"
    and "f64_val (cv_Count (class_at (class_index Fin vs) c)) = class_sum cv_Count c vs"
    and "f64_val (cv_Numerator (class_at (class_index Fin vs) c)) = class_sum cv_Numerator c vs"
    and "f64_val (cv_Denominator (class_at (class_index Fin vs) c)) = class_sum cv_Denominator c vs"
  using index_fold [OF assms, of Map.empty c]
  by (simp_all add: class_index_def class_at_def zero_class_value_def finite_class_def)

section \<open>The identity\<close>

lemma validInputs_finite: "validInputs vs \<Longrightarrow> list_all finite_class vs"
  by (auto simp: validInputs_def class_value_invalid_def finite_class_def list_all_iff list_ex_iff)

definition rate_sum :: "class_value list \<Rightarrow> string list \<Rightarrow> rat" where
  "rate_sum vs classes = (\<Sum>c\<leftarrow>classes. class_sum cv_Count c vs * class_rate (class_at (class_index Fin vs) c))"

lemma exact_mix_term:
  assumes "finite_class p" and "finite_class c" and "P \<noteq> 0" and "C \<noteq> 0"
  shows "mix_term Fin (Fin P) (Fin C) p c =
    Fin (C * (f64_val (cv_Count c) / C - f64_val (cv_Count p) / P) * class_rate p)"
  using assms Fin_f64_val [of "cv_Count p"] Fin_f64_val [of "cv_Count c"]
  by (cases "cv_Count p"; cases "cv_Count c")
    (auto simp: mix_term_def finite_class_def exact_safeRate div_with_def mul_with_def sub_with_def)

lemma exact_within_term:
  assumes "finite_class p" and "finite_class c" and "C \<noteq> 0"
  shows "within_term Fin (Fin C) p c =
    Fin (C * (f64_val (cv_Count c) / C) * (class_rate c - class_rate p))"
  using assms by (cases "cv_Count c")
    (auto simp: within_term_def finite_class_def exact_safeRate div_with_def mul_with_def sub_with_def)

lemma effects_sum:
  fixes P C :: rat
  assumes "P \<noteq> 0" and "C \<noteq> 0"
  shows "(\<Sum>k\<leftarrow>ks. C * (c k / C - p k / P) * rp k) + (\<Sum>k\<leftarrow>ks. C * (c k / C) * (rc k - rp k)) =
    (\<Sum>k\<leftarrow>ks. c k * rc k) - C / P * (\<Sum>k\<leftarrow>ks. p k * rp k)"
proof (induction ks)
  case (Cons k ks)
  have "C * (c k / C - p k / P) * rp k + C * (c k / C) * (rc k - rp k) = c k * rc k - C / P * (p k * rp k)"
    using assms by (simp add: field_simps)
  then show ?case
    using Cons.IH by (simp add: distrib_left algebra_simps)
qed simp

definition exact_total :: "(class_value \<Rightarrow> f64) \<Rightarrow> class_value list \<Rightarrow> rat" where
  "exact_total f vs = (\<Sum>v\<leftarrow>vs. f64_val (f v))"

lemma exact_residual:
  assumes "classUnion prev cur \<noteq> []" and "validInputs prev" and "validInputs cur"
    and "0 < exact_total cv_Count prev" and "0 < exact_total cv_Count cur"
  shows "\<exists>volume mix effect residual. 
    wd_VolumeEffect (Decompose_with Fin metric prev cur) = Some (Fin volume) \<and>
    wd_MixEffect (Decompose_with Fin metric prev cur) = Some (Fin mix) \<and>
    wd_WithinClassEffect (Decompose_with Fin metric prev cur) = Some (Fin effect) \<and>
    wd_Residual (Decompose_with Fin metric prev cur) = Some (Fin residual) \<and>
    volume + mix + effect + residual = exact_total cv_Numerator cur - exact_total cv_Numerator prev \<and>
    residual = (exact_total cv_Numerator cur - rate_sum cur (classUnion prev cur)) -
      exact_total cv_Count cur / exact_total cv_Count prev *
        (exact_total cv_Numerator prev - rate_sum prev (classUnion prev cur))"
proof -
  define ks where "ks = classUnion prev cur"
  define P where "P = exact_total cv_Count prev"
  define C where "C = exact_total cv_Count cur"
  define T where "T = exact_total cv_Numerator prev"
  define U where "U = exact_total cv_Numerator cur"
  define p where "p k = class_at (class_index Fin prev) k" for k
  define c where "c k = class_at (class_index Fin cur) k" for k
  have fin: "list_all finite_class prev" "list_all finite_class cur"
    using assms by (auto intro: validInputs_finite)
  have fp: "finite_class (p k)" "finite_class (c k)" for k
    using exact_index(1) [OF fin(1)] exact_index(1) [OF fin(2)] by (auto simp: p_def c_def)
  have pos: "0 < P" "0 < C"
    using assms by (auto simp: P_def C_def)
  have totals: "totalCount Fin prev = Fin P" "totalCount Fin cur = Fin C"
    "totalNumerator Fin prev = Fin T" "totalNumerator Fin cur = Fin U"
    using fin by (auto simp: exact_totalCount exact_totalNumerator P_def C_def T_def U_def exact_total_def)
  define mix where "mix = (\<Sum>k\<leftarrow>ks. C * (f64_val (cv_Count (c k)) / C - f64_val (cv_Count (p k)) / P) * class_rate (p k))"
  define effect where "effect = (\<Sum>k\<leftarrow>ks. C * (f64_val (cv_Count (c k)) / C) * (class_rate (c k) - class_rate (p k)))"
  have m: "foldl (\<lambda>t k. add_with Fin t (mix_term Fin (Fin P) (Fin C) (p k) (c k))) (Fin 0) ks = Fin mix"
    using exact_sum [of ks "\<lambda>k. mix_term Fin (Fin P) (Fin C) (p k) (c k)" _ 0] exact_mix_term [OF fp] pos
    by (simp add: mix_def)
  have w: "foldl (\<lambda>t k. add_with Fin t (within_term Fin (Fin C) (p k) (c k))) (Fin 0) ks = Fin effect"
    using exact_sum [of ks "\<lambda>k. within_term Fin (Fin C) (p k) (c k)" _ 0] exact_within_term [OF fp] pos
    by (simp add: effect_def)
  have "mix + effect = rate_sum cur ks - C / P * rate_sum prev ks"
    unfolding mix_def effect_def
    using effects_sum [of P C "\<lambda>k. f64_val (cv_Count (c k))" "\<lambda>k. f64_val (cv_Count (p k))"
        "\<lambda>k. class_rate (p k)" ks "\<lambda>k. class_rate (c k)"] pos
    by (simp add: rate_sum_def p_def c_def exact_index(2) [OF fin(1)] exact_index(2) [OF fin(2)])
  then have residual: "U - T - (C - P) * (T / P) - mix - effect =
      (U - rate_sum cur ks) - C / P * (T - rate_sum prev ks)"
    using pos by (simp add: field_simps)
  have run: "wd_VolumeEffect (Decompose_with Fin metric prev cur) = Some (Fin ((C - P) * (T / P))) \<and>
      wd_MixEffect (Decompose_with Fin metric prev cur) = Some (Fin mix) \<and>
      wd_WithinClassEffect (Decompose_with Fin metric prev cur) = Some (Fin effect) \<and>
      wd_Residual (Decompose_with Fin metric prev cur) = Some (Fin (U - T - (C - P) * (T / P) - mix - effect))"
    using assms(1-3) pos m w
    by (auto simp: Decompose_with_def Let_def totals f64_le_def f64_eq_def mul_with_def sub_with_def div_with_def
        ks_def [symmetric] p_def c_def)
  show ?thesis
    by (rule exI [of _ "(C - P) * (T / P)"], rule exI [of _ mix], rule exI [of _ effect],
        rule exI [of _ "U - T - (C - P) * (T / P) - mix - effect"])
      (use run residual in \<open>simp add: U_def [symmetric] T_def [symmetric] C_def [symmetric] P_def [symmetric]
        ks_def [symmetric]\<close>)
qed

text \<open>Summing over the distinct classes visits every entry once.\<close>

lemma class_sum_total:
  assumes "\<And>v. v \<in> set vs \<Longrightarrow> cv_Class v \<in> set ks" and "distinct ks"
  shows "(\<Sum>k\<leftarrow>ks. class_sum f k vs) = exact_total f vs"
  using assms(1)
proof (induction vs)
  case (Cons v vs)
  have "(\<Sum>k\<leftarrow>ks. class_sum f k (v # vs)) = (\<Sum>k\<in>set ks. (if cv_Class v = k then f64_val (f v) else 0) + class_sum f k vs)"
    using assms(2) by (auto simp: sum_list_distinct_conv_sum_set class_sum_def intro!: sum.cong)
  also have "\<dots> = f64_val (f v) + (\<Sum>k\<in>set ks. class_sum f k vs)"
    using Cons.prems by (simp add: sum.distrib sum.delta')
  finally show ?case
    using Cons assms(2) by (simp add: exact_total_def sum_list_distinct_conv_sum_set)
qed (simp add: class_sum_def exact_total_def)

lemma class_rate_count:
  assumes "validInputs vs" and "list_all (\<lambda>v. cv_Count v = cv_Denominator v) vs"
  shows "class_sum cv_Count c vs * class_rate (class_at (class_index Fin vs) c) = class_sum cv_Numerator c vs"
proof -
  have nonneg: "0 \<le> f64_val (cv_Denominator v) \<and> 0 \<le> f64_val (cv_Numerator v) \<and>
      (f64_val (cv_Denominator v) = 0 \<longrightarrow> f64_val (cv_Numerator v) = 0)" if "v \<in> set vs" for v
    using assms(1) that
    by (cases "cv_Denominator v"; cases "cv_Numerator v")
      (auto simp: validInputs_def class_value_invalid_def list_ex_iff f64_eq_def)
  have same: "class_sum cv_Count c vs = class_sum cv_Denominator c vs"
    using assms(2) by (auto simp: class_sum_def list_all_iff intro!: arg_cong [where f = sum_list])
  have "class_sum cv_Numerator c vs = 0" if "class_sum cv_Denominator c vs \<le> 0"
  proof -
    have "\<forall>v\<in>set (filter (\<lambda>v. cv_Class v = c) vs). f64_val (cv_Denominator v) = 0"
      using that nonneg sum_list_nonneg_eq_0_iff [of "map (\<lambda>v. f64_val (cv_Denominator v)) (filter (\<lambda>v. cv_Class v = c) vs)"]
        sum_list_nonneg [of "map (\<lambda>v. f64_val (cv_Denominator v)) (filter (\<lambda>v. cv_Class v = c) vs)"]
      by (auto simp: class_sum_def)
    then have "map (\<lambda>v. f64_val (cv_Numerator v)) (filter (\<lambda>v. cv_Class v = c) vs) =
        map (\<lambda>_. 0) (filter (\<lambda>v. cv_Class v = c) vs)"
      using nonneg by (intro map_cong) auto
    then show ?thesis
      by (simp add: class_sum_def map_replicate_const sum_list_replicate)
  qed
  then show ?thesis
    using exact_index(3,4) [OF validInputs_finite [OF assms(1)], of c]
    by (auto simp: class_rate_def same)
qed

lemma classUnion_complete:
  "validInputs prev \<Longrightarrow> validInputs cur \<Longrightarrow> v \<in> set (prev @ cur) \<Longrightarrow> cv_Class v \<in> set (classUnion prev cur)"
  by (auto simp: classUnion_def sort_strings_def validInputs_def class_value_invalid_def list_ex_iff)

lemma rate_sum_total:
  assumes "validInputs prev" and "validInputs cur" and "list_all (\<lambda>v. cv_Count v = cv_Denominator v) vs"
    and "vs = prev \<or> vs = cur"
  shows "rate_sum vs (classUnion prev cur) = exact_total cv_Numerator vs"
proof -
  have "validInputs vs"
    using assms by auto
  then have "rate_sum vs (classUnion prev cur) = (\<Sum>k\<leftarrow>classUnion prev cur. class_sum cv_Numerator k vs)"
    using assms(3) by (simp add: rate_sum_def class_rate_count)
  also have "\<dots> = exact_total cv_Numerator vs"
    using classUnion_complete [OF assms(1,2)] assms(4)
    by (intro class_sum_total) (auto simp: classUnion_def sort_strings_def)
  finally show ?thesis .
qed

text \<open>In exact arithmetic the decomposition of a workload change is an identity (nothing is said here of what
  rounding to float64 makes of it). For valid inputs with a positive
  count on both sides, and counts that are the denominators of their rates as the collector of the
  classes sets them, the volume, mix and within-class effects of exact arithmetic add up to the
  change of the total and the residual is zero.\<close>
theorem workload_identity:
  assumes "validInputs prev" and "validInputs cur"
    and "list_all (\<lambda>v. cv_Count v = cv_Denominator v) (prev @ cur)"
    and "0 < exact_total cv_Count prev" and "0 < exact_total cv_Count cur"
  shows "\<exists>volume mix effect.
    wd_VolumeEffect (Decompose_with Fin metric prev cur) = Some (Fin volume) \<and>
    wd_MixEffect (Decompose_with Fin metric prev cur) = Some (Fin mix) \<and>
    wd_WithinClassEffect (Decompose_with Fin metric prev cur) = Some (Fin effect) \<and>
    wd_Residual (Decompose_with Fin metric prev cur) = Some (Fin 0) \<and>
    totalNumerator Fin cur = Fin (exact_total cv_Numerator cur) \<and>
    totalNumerator Fin prev = Fin (exact_total cv_Numerator prev) \<and>
    volume + mix + effect = exact_total cv_Numerator cur - exact_total cv_Numerator prev"
proof -
  have "prev \<noteq> []"
    using assms(4) by (auto simp: exact_total_def)
  then have "classUnion prev cur \<noteq> []"
    using classUnion_complete [OF assms(1,2), of "hd prev"] by (cases prev) auto
  moreover have "totalNumerator Fin vs = Fin (exact_total cv_Numerator vs)" if "validInputs vs" for vs
    using exact_totalNumerator [OF validInputs_finite [OF that]] by (simp add: exact_total_def)
  moreover have "rate_sum vs (classUnion prev cur) = exact_total cv_Numerator vs" if "vs = prev \<or> vs = cur" for vs
    using assms(3) that by (intro rate_sum_total [OF assms(1,2)]) auto
  ultimately show ?thesis
    using exact_residual [OF _ assms(1,2,4,5), of metric] assms(1,2) by auto
qed

theorem workload_identity_witness:
  "\<exists>volume mix effect.
    wd_VolumeEffect (Decompose_with Fin ''tokens''
      [\<lparr> cv_Class = ''a'', cv_Count = Fin 90, cv_Numerator = Fin 90, cv_Denominator = Fin 90 \<rparr>]
      [\<lparr> cv_Class = ''a'', cv_Count = Fin 10, cv_Numerator = Fin 5, cv_Denominator = Fin 10 \<rparr>,
       \<lparr> cv_Class = ''b'', cv_Count = Fin 90, cv_Numerator = Fin 720, cv_Denominator = Fin 90 \<rparr>]) = Some (Fin volume) \<and>
    volume + mix + effect = 635"
  using workload_identity [of
      "[\<lparr> cv_Class = ''a'', cv_Count = Fin 90, cv_Numerator = Fin 90, cv_Denominator = Fin 90 \<rparr>]"
      "[\<lparr> cv_Class = ''a'', cv_Count = Fin 10, cv_Numerator = Fin 5, cv_Denominator = Fin 10 \<rparr>,
        \<lparr> cv_Class = ''b'', cv_Count = Fin 90, cv_Numerator = Fin 720, cv_Denominator = Fin 90 \<rparr>]" "''tokens''"]
  by (auto simp: validInputs_def class_value_invalid_def f64_eq_def exact_total_def)

end
