(* ===== verification/Boundary_Decision.thy ===== *)
theory Boundary_Decision
  imports Policy
begin

text \<open>
  \<open>internal/boundary/decision.go\<close>: the risk-weighted decision about one action. The base
  risk of the action class is raised by ambiguity and conflict, and an ordered list of
  cases picks the outcome; \<open>mapOutcome\<close> turns it into an execution policy outcome.
\<close>

type_synonym action_class = string

abbreviation ActionReadOnly :: action_class where "ActionReadOnly \<equiv> ''read_only''"
abbreviation ActionLocalReversible :: action_class where
  "ActionLocalReversible \<equiv> ''local_reversible''"
abbreviation ActionLocalMutation :: action_class where
  "ActionLocalMutation \<equiv> ''local_mutation''"
abbreviation ActionExternalWrite :: action_class where
  "ActionExternalWrite \<equiv> ''external_write''"
abbreviation ActionCostly :: action_class where "ActionCostly \<equiv> ''costly''"
abbreviation ActionPermissionSensitive :: action_class where
  "ActionPermissionSensitive \<equiv> ''permission_sensitive''"
abbreviation ActionScopeExpanding :: action_class where
  "ActionScopeExpanding \<equiv> ''scope_expanding''"
abbreviation ActionDestructive :: action_class where "ActionDestructive \<equiv> ''destructive''"

abbreviation OutcomeContinue :: string where "OutcomeContinue \<equiv> ''continue''"
abbreviation OutcomeWarn :: string where "OutcomeWarn \<equiv> ''warn''"
abbreviation OutcomeClarify :: string where "OutcomeClarify \<equiv> ''clarify''"
abbreviation OutcomeBlock :: string where "OutcomeBlock \<equiv> ''block''"

record decision_input =
  di_Action :: action_class
  di_ExecutionPolicy :: execution_policy
  di_DelegationPolicy :: string
  di_HostPermission :: host_permission
  di_CapabilityKnown :: bool
  di_ExplicitIntent :: bool
  di_InScope :: bool
  di_Ambiguous :: bool
  di_Conflicted :: bool
  di_UnsafeLink :: bool
  di_Sensitive :: bool
  di_Unbounded :: bool

record decision =
  dc_Outcome :: string
  dc_Risk :: int
  dc_RiskLevel :: string
  dc_PolicyOutcome :: policy_outcome

definition actionRisk :: "action_class \<Rightarrow> int option" where
  "actionRisk action = map_of
     [(ActionReadOnly, 10), (ActionLocalReversible, 25), (ActionLocalMutation, 40),
      (ActionExternalWrite, 60), (ActionCostly, 70), (ActionPermissionSensitive, 75),
      (ActionScopeExpanding, 80), (ActionDestructive, 90)] action"

definition riskLevel :: "int \<Rightarrow> string" where
  "riskLevel risk =
     (if risk < 25 then ''low'' else if risk < 50 then ''medium''
      else if risk < 75 then ''high'' else ''critical'')"

definition requiresApproval :: "action_class \<Rightarrow> bool" where
  "requiresApproval action \<longleftrightarrow>
     action = ActionExternalWrite \<or> action = ActionCostly \<or> action = ActionDestructive \<or>
     action = ActionScopeExpanding"

definition validDelegation :: "string \<Rightarrow> bool" where
  "validDelegation value \<longleftrightarrow>
     value = ''none'' \<or> value = ''user_requested_only'' \<or> value = ''bounded''"

definition mapOutcome :: "string \<Rightarrow> decision_input \<Rightarrow> policy_outcome" where
  "mapOutcome outcome input =
     (if outcome = OutcomeBlock then PolicyOutcomeDenied
      else if outcome = OutcomeClarify then PolicyOutcomeApprovalRequired
      else if di_ExecutionPolicy input = ExecutionPolicyFollowUserIntent \<and>
              di_ExplicitIntent input \<and> di_InScope input \<and>
              di_HostPermission input = HostPermitted
      then PolicyOutcomeExecutionRecommended
      else PolicyOutcomeReturnOnly)"

text \<open>The risk accumulated before the switch of \<open>Decide\<close>, and the switch itself.\<close>

definition decision_risk :: "int \<Rightarrow> decision_input \<Rightarrow> int" where
  "decision_risk base input =
     (let risk = base + (if di_Ambiguous input then 10 else 0);
          risk = risk + (if di_Conflicted input then 20 else 0)
      in if risk > 100 then 100 else risk)"

definition decision_outcome :: "int \<Rightarrow> decision_input \<Rightarrow> string" where
  "decision_outcome risk input =
     (if di_HostPermission input = HostDenied \<or> di_UnsafeLink input \<or> di_Sensitive input \<or>
         di_Unbounded input then OutcomeBlock
      else if di_Conflicted input \<and> risk \<ge> 50 then OutcomeBlock
      else if \<not> di_InScope input then OutcomeBlock
      else if requiresApproval (di_Action input) then OutcomeClarify
      else if \<not> di_CapabilityKnown input \<and> di_Action input \<noteq> ActionReadOnly then OutcomeClarify
      else if di_Ambiguous input \<and> risk \<ge> 25 then OutcomeClarify
      else if di_Ambiguous input then OutcomeWarn
      else if di_ExecutionPolicy input = ExecutionPolicyAskBeforeExecute \<and>
              di_Action input \<noteq> ActionReadOnly then OutcomeClarify
      else if di_ExecutionPolicy input = ExecutionPolicyFollowUserIntent \<and>
              (\<not> di_ExplicitIntent input \<or> di_HostPermission input \<noteq> HostPermitted)
      then OutcomeClarify
      else OutcomeContinue)"

definition Decide :: "decision_input \<Rightarrow> decision go_result" where
  "Decide input =
     (case actionRisk (di_Action input) of
        None \<Rightarrow>
          Inl (NewError ErrorCodeInvalidSchema ''invalid boundary decision input'' ''boundary'' False)
      | Some base \<Rightarrow>
          if \<not> ValidExecutionPolicy (di_ExecutionPolicy input) \<or>
             \<not> ValidHostPermission (di_HostPermission input) \<or>
             \<not> validDelegation (di_DelegationPolicy input) then
            Inl (NewError ErrorCodeInvalidSchema ''invalid boundary decision input'' ''boundary'' False)
          else
            let risk = decision_risk base input;
                level = riskLevel risk;
                outcome = decision_outcome risk input
            in Inr \<lparr>dc_Outcome = outcome, dc_Risk = risk, dc_RiskLevel = level,
                    dc_PolicyOutcome = mapOutcome outcome input\<rparr>)"

section \<open>Library\<close>

definition valid_decision_input :: "decision_input \<Rightarrow> bool" where
  "valid_decision_input input \<longleftrightarrow>
     actionRisk (di_Action input) \<noteq> None \<and> ValidExecutionPolicy (di_ExecutionPolicy input) \<and>
     ValidHostPermission (di_HostPermission input) \<and> validDelegation (di_DelegationPolicy input)"

lemma Decide_valid:
  "valid_decision_input input \<Longrightarrow>
   Decide input =
     (let risk = decision_risk (the (actionRisk (di_Action input))) input
      in Inr \<lparr>dc_Outcome = decision_outcome risk input, dc_Risk = risk,
              dc_RiskLevel = riskLevel risk,
              dc_PolicyOutcome = mapOutcome (decision_outcome risk input) input\<rparr>)"
  by (auto simp: Decide_def valid_decision_input_def Let_def split: option.splits)

lemma Decide_Inr:
  assumes "Decide input = Inr d"
  obtains base where "actionRisk (di_Action input) = Some base" and "valid_decision_input input"
    and "dc_Risk d = decision_risk base input" and "dc_RiskLevel d = riskLevel (dc_Risk d)"
    and "dc_Outcome d = decision_outcome (dc_Risk d) input"
    and "dc_PolicyOutcome d = mapOutcome (dc_Outcome d) input"
  using assms
  by (auto simp: Decide_def valid_decision_input_def Let_def split: option.splits if_splits)

lemma Decide_total: "(\<exists>d. Decide input = Inr d) \<longleftrightarrow> valid_decision_input input"
  by (metis Decide_Inr Decide_valid)

lemma actionRisk_range: "actionRisk a = Some r \<Longrightarrow> 10 \<le> r \<and> r \<le> 90"
  by (auto simp: actionRisk_def split: if_splits)

lemma actionRisk_cases:
  assumes "actionRisk action = Some base"
  obtains "action = ActionReadOnly" "base = 10" | "action = ActionLocalReversible" "base = 25"
    | "action = ActionLocalMutation" "base = 40" | "action = ActionExternalWrite" "base = 60"
    | "action = ActionCostly" "base = 70" | "action = ActionPermissionSensitive" "base = 75"
    | "action = ActionScopeExpanding" "base = 80" | "action = ActionDestructive" "base = 90"
  using assms by (auto simp: actionRisk_def split: if_splits)

lemma decision_risk_range:
  "10 \<le> base \<Longrightarrow> base \<le> 90 \<Longrightarrow> base \<le> decision_risk base input \<and> decision_risk base input \<le> 100"
  by (auto simp: decision_risk_def Let_def)

lemma decision_outcome_cases:
  "decision_outcome risk input \<in> {OutcomeContinue, OutcomeWarn, OutcomeClarify, OutcomeBlock}"
  by (simp add: decision_outcome_def)

definition severity :: "string \<Rightarrow> nat" where
  "severity outcome =
     (if outcome = OutcomeBlock then 3 else if outcome = OutcomeClarify then 2
      else if outcome = OutcomeWarn then 1 else 0)"

lemma severity_simps [simp]:
  "severity OutcomeBlock = 3" "severity OutcomeClarify = 2"
  "severity OutcomeWarn = 1" "severity OutcomeContinue = 0"
  by (simp_all add: severity_def)

section \<open>Properties\<close>

text \<open>C1: The decision table of an action. An action is denied exactly when the host denies it, something
  unsafe, sensitive or unbounded was seen, it is out of scope, or there is a conflict about it and it
  neither reads only nor is an unambiguous reversible local one. Execution is recommended exactly when
  the user asked for it explicitly under follow_user_intent, it is in scope, the host permits it, nothing
  unsafe, sensitive or unbounded was seen, the capability is known (unless it only reads), an ambiguity
  concerns only an unconflicted reading action, a conflict only a reading or reversible local one, and
  its class is one of read-only, local reversible, local mutation and permission-sensitive. The last class
  is the code's, not the policy's: the built-in rule autonomy.approval says that permission-sensitive
  actions need confirmation, so this clause states a defect.\<close>

theorem decide_recommends_iff:
  assumes "Decide input = Inr d"
  shows "(dc_PolicyOutcome d = PolicyOutcomeDenied \<longleftrightarrow>
      di_HostPermission input = HostDenied \<or> di_UnsafeLink input \<or> di_Sensitive input \<or> di_Unbounded input \<or>
      \<not> di_InScope input \<or>
      (di_Conflicted input \<and> di_Action input \<noteq> ActionReadOnly \<and>
         (di_Action input \<noteq> ActionLocalReversible \<or> di_Ambiguous input))) \<and>
    (dc_PolicyOutcome d = PolicyOutcomeExecutionRecommended \<longleftrightarrow>
      di_ExecutionPolicy input = ExecutionPolicyFollowUserIntent \<and>
      di_ExplicitIntent input \<and> di_InScope input \<and> di_HostPermission input = HostPermitted \<and>
      \<not> di_UnsafeLink input \<and> \<not> di_Sensitive input \<and> \<not> di_Unbounded input \<and>
      (di_CapabilityKnown input \<or> di_Action input = ActionReadOnly) \<and>
      (\<not> di_Ambiguous input \<or> di_Action input = ActionReadOnly \<and> \<not> di_Conflicted input) \<and>
      (\<not> di_Conflicted input \<or> di_Action input = ActionReadOnly \<or> di_Action input = ActionLocalReversible) \<and>
      (di_Action input = ActionReadOnly \<or> di_Action input = ActionLocalReversible \<or>
       di_Action input = ActionLocalMutation \<or> di_Action input = ActionPermissionSensitive))"
proof -
  obtain base where base: "actionRisk (di_Action input) = Some base"
    and d: "dc_Risk d = decision_risk base input" "dc_PolicyOutcome d = mapOutcome (decision_outcome (dc_Risk d) input) input"
    using assms by (auto elim: Decide_Inr)
  have outcome: "mapOutcome (decision_outcome r input) input = PolicyOutcomeDenied \<longleftrightarrow>
      di_HostPermission input = HostDenied \<or> di_UnsafeLink input \<or> di_Sensitive input \<or> di_Unbounded input \<or>
      \<not> di_InScope input \<or> di_Conflicted input \<and> r \<ge> 50"
    "mapOutcome (decision_outcome r input) input = PolicyOutcomeExecutionRecommended \<longleftrightarrow>
      di_ExecutionPolicy input = ExecutionPolicyFollowUserIntent \<and>
      di_ExplicitIntent input \<and> di_InScope input \<and> di_HostPermission input = HostPermitted \<and>
      \<not> di_UnsafeLink input \<and> \<not> di_Sensitive input \<and> \<not> di_Unbounded input \<and>
      \<not> requiresApproval (di_Action input) \<and> (di_CapabilityKnown input \<or> di_Action input = ActionReadOnly) \<and>
      (\<not> di_Conflicted input \<or> r < 50) \<and> (\<not> di_Ambiguous input \<or> r < 25)" for r
    by (auto simp: mapOutcome_def decision_outcome_def)
  show ?thesis
    using base unfolding d outcome by (elim actionRisk_cases) (auto simp: decision_risk_def Let_def requiresApproval_def)
qed

theorem decide_recommends_iff_witness:
  "(let input = \<lparr>di_Action = ActionLocalMutation,
        di_ExecutionPolicy = ExecutionPolicyFollowUserIntent, di_DelegationPolicy = ''none'',
        di_HostPermission = HostPermitted, di_CapabilityKnown = True, di_ExplicitIntent = True,
        di_InScope = True, di_Ambiguous = False, di_Conflicted = False, di_UnsafeLink = False,
        di_Sensitive = False, di_Unbounded = False\<rparr>
    in \<exists>d. Decide input = Inr d \<and> dc_PolicyOutcome d = PolicyOutcomeExecutionRecommended)"
proof -
  let ?input = "\<lparr>di_Action = ActionLocalMutation,
        di_ExecutionPolicy = ExecutionPolicyFollowUserIntent, di_DelegationPolicy = ''none'',
        di_HostPermission = HostPermitted, di_CapabilityKnown = True, di_ExplicitIntent = True,
        di_InScope = True, di_Ambiguous = False, di_Conflicted = False, di_UnsafeLink = False,
        di_Sensitive = False, di_Unbounded = False\<rparr>"
  have "valid_decision_input ?input"
    by (simp add: valid_decision_input_def actionRisk_def policy_valid_defs validDelegation_def)
  then obtain d where d: "Decide ?input = Inr d" using Decide_total by blast
  have "dc_PolicyOutcome d = PolicyOutcomeExecutionRecommended"
    using decide_recommends_iff [OF d] by simp
  with d show ?thesis by (simp add: Let_def)
qed

text \<open>\<open>Decide\<close> fails closed. On every valid input it returns a decision whose risk lies
  between the base risk of the action and 100, and a denied host, an unsafe link, a
  sensitive or unbounded action or one out of scope is blocked and denied.\<close>

theorem decide_fails_closed:
  assumes "valid_decision_input input"
  shows "\<exists>d. Decide input = Inr d \<and>
    the (actionRisk (di_Action input)) \<le> dc_Risk d \<and> dc_Risk d \<le> 100 \<and>
    (di_HostPermission input = HostDenied \<or> di_UnsafeLink input \<or> di_Sensitive input \<or>
     di_Unbounded input \<or> \<not> di_InScope input \<longrightarrow>
       dc_Outcome d = OutcomeBlock \<and> dc_PolicyOutcome d = PolicyOutcomeDenied)"
proof -
  from assms obtain base where base: "actionRisk (di_Action input) = Some base"
    by (auto simp: valid_decision_input_def)
  then have "base \<le> decision_risk base input \<and> decision_risk base input \<le> 100"
    using actionRisk_range decision_risk_range by blast
  then show ?thesis
    using assms base by (auto simp: Decide_valid Let_def decision_outcome_def mapOutcome_def)
qed

theorem decide_fails_closed_witness:
  "\<exists>d. Decide \<lparr>di_Action = ActionDestructive,
        di_ExecutionPolicy = ExecutionPolicyFollowUserIntent, di_DelegationPolicy = ''none'',
        di_HostPermission = HostPermitted, di_CapabilityKnown = True, di_ExplicitIntent = True,
        di_InScope = True, di_Ambiguous = False, di_Conflicted = True, di_UnsafeLink = True,
        di_Sensitive = False, di_Unbounded = False\<rparr> = Inr d \<and> dc_Outcome d = OutcomeBlock"
  using decide_fails_closed [of "\<lparr>di_Action = ActionDestructive,
        di_ExecutionPolicy = ExecutionPolicyFollowUserIntent, di_DelegationPolicy = ''none'',
        di_HostPermission = HostPermitted, di_CapabilityKnown = True, di_ExplicitIntent = True,
        di_InScope = True, di_Ambiguous = False, di_Conflicted = True, di_UnsafeLink = True,
        di_Sensitive = False, di_Unbounded = False\<rparr>"]
  by (auto simp: valid_decision_input_def actionRisk_def policy_valid_defs validDelegation_def)

text \<open>Discovering a conflict, an unsafe link, sensitive content or missing bounds, or
  losing scope, never makes the outcome more permissive.\<close>

theorem decide_monotone:
  assumes "Decide input = Inr d" and "Decide input' = Inr d'"
    and "input' = input\<lparr>di_Conflicted := di_Conflicted input \<or> c,
           di_UnsafeLink := di_UnsafeLink input \<or> u, di_Sensitive := di_Sensitive input \<or> s,
           di_Unbounded := di_Unbounded input \<or> b, di_InScope := di_InScope input \<and> i\<rparr>"
  shows "severity (dc_Outcome d) \<le> severity (dc_Outcome d') \<and> dc_Risk d \<le> dc_Risk d'"
proof -
  obtain base where base: "actionRisk (di_Action input) = Some base"
    and d: "dc_Risk d = decision_risk base input"
      "dc_Outcome d = decision_outcome (dc_Risk d) input"
    using assms(1) by (auto elim: Decide_Inr)
  have d': "dc_Risk d' = decision_risk base input'"
      "dc_Outcome d' = decision_outcome (dc_Risk d') input'"
    using assms(2,3) base by (auto elim!: Decide_Inr)
  have "dc_Risk d \<le> dc_Risk d'"
    using d(1) d'(1) assms(3) by (auto simp: decision_risk_def Let_def)
  moreover have "severity (decision_outcome r input) \<le> severity (decision_outcome r' input')"
    if "r \<le> r'" for r r'
    using that assms(3) by (auto simp: decision_outcome_def)
  ultimately show ?thesis using d(2) d'(2) by simp
qed

theorem decide_monotone_witness:
  "let input = \<lparr>di_Action = ActionLocalMutation,
        di_ExecutionPolicy = ExecutionPolicyImproveOnly, di_DelegationPolicy = ''none'',
        di_HostPermission = HostPermitted, di_CapabilityKnown = True, di_ExplicitIntent = True,
        di_InScope = True, di_Ambiguous = False, di_Conflicted = False, di_UnsafeLink = False,
        di_Sensitive = False, di_Unbounded = False\<rparr>
   in \<exists>d d'. Decide input = Inr d \<and> Decide (input\<lparr>di_Conflicted := True\<rparr>) = Inr d' \<and>
        severity (dc_Outcome d) \<le> severity (dc_Outcome d')"
proof -
  let ?input = "\<lparr>di_Action = ActionLocalMutation,
        di_ExecutionPolicy = ExecutionPolicyImproveOnly, di_DelegationPolicy = ''none'',
        di_HostPermission = HostPermitted, di_CapabilityKnown = True, di_ExplicitIntent = True,
        di_InScope = True, di_Ambiguous = False, di_Conflicted = False, di_UnsafeLink = False,
        di_Sensitive = False, di_Unbounded = False\<rparr>"
  have "valid_decision_input ?input" "valid_decision_input (?input\<lparr>di_Conflicted := True\<rparr>)"
    by (simp_all add: valid_decision_input_def actionRisk_def policy_valid_defs validDelegation_def)
  then obtain d d' where "Decide ?input = Inr d" "Decide (?input\<lparr>di_Conflicted := True\<rparr>) = Inr d'"
    using Decide_total by blast
  then show ?thesis
    using decide_monotone [of ?input d "?input\<lparr>di_Conflicted := True\<rparr>" d' True False False False True]
    by (simp add: Let_def)
qed

text \<open>A permission-sensitive action is not among the classes that always need
  approval: with known capability, explicit intent, scope and a permitting host under
  follow_user_intent its execution is recommended, although the built-in autonomy policy
  lists permission-sensitive actions among those that require confirmation.\<close>

theorem decide_permission_sensitive_recommended:
  "\<exists>d. Decide \<lparr>di_Action = ActionPermissionSensitive,
        di_ExecutionPolicy = ExecutionPolicyFollowUserIntent, di_DelegationPolicy = ''none'',
        di_HostPermission = HostPermitted, di_CapabilityKnown = True, di_ExplicitIntent = True,
        di_InScope = True, di_Ambiguous = False, di_Conflicted = False, di_UnsafeLink = False,
        di_Sensitive = False, di_Unbounded = False\<rparr> = Inr d \<and>
      dc_PolicyOutcome d = PolicyOutcomeExecutionRecommended \<and> dc_RiskLevel d = ''critical''"
  by (auto simp: Decide_def actionRisk_def policy_valid_defs validDelegation_def Let_def decision_risk_def
      riskLevel_def decision_outcome_def requiresApproval_def mapOutcome_def)

end
