(* ===== verification/Policypack.thy ===== *)
theory Policypack
  imports Contracts
begin

text \<open>
  \<open>internal/policypack/policypack.go\<close> and \<open>policies/builtin/builtin.go\<close>: declarative
  policy packs, their validation and their evaluation against the facts of one candidate.
\<close>

abbreviation MaxPackBytes :: nat where "MaxPackBytes \<equiv> 64 * 1024"
abbreviation MaxPacks :: nat where "MaxPacks \<equiv> 16"
abbreviation MaxRules :: nat where "MaxRules \<equiv> 256"
abbreviation MaxConditions :: nat where "MaxConditions \<equiv> 16"

record condition =
  cn_Field :: string
  cn_Operator :: string
  cn_Value :: string

record rule =
  rl_ID :: string
  rl_Category :: string
  rl_Outcome :: string
  rl_RiskScore :: int
  rl_Explanation :: string
  rl_Conditions :: "condition list"

record pack =
  pk_SchemaVersion :: string
  pk_ID :: string
  pk_Version :: string
  pk_Rules :: "rule list"

record match =
  mt_PackID :: string
  mt_PackVersion :: string
  mt_Rule :: rule

section \<open>Vocabulary\<close>

definition categories :: "string list" where
  "categories =
     [''repository'', ''worktree'', ''instruction'', ''scope'', ''non_goal'', ''generated'',
      ''vendor'', ''validation'', ''release'', ''privacy'', ''security'', ''tool_routing'',
      ''retrieval'', ''ptc'', ''autonomy'', ''fallback'', ''stopping'', ''delegation'']"

definition outcomes :: "string list" where
  "outcomes = [''continue'', ''warn'', ''clarify'', ''block'']"

definition fields :: "string list" where
  "fields =
     [''category'', ''action_class'', ''phase'', ''source_kind'', ''capability_state'',
      ''delegation_policy'', ''ambiguous'', ''conflicted'']"

definition operators :: "string list" where
  "operators = [''equals'', ''not_equals'', ''prefix'', ''present'']"

definition conditionValues :: "string \<Rightarrow> string list" where
  "conditionValues field = lookup_or [] (map_of
     [(''category'', categories),
      (''action_class'', [''read_only'', ''local_reversible'', ''local_mutation'',
         ''external_write'', ''costly'', ''permission_sensitive'', ''scope_expanding'',
         ''destructive'']),
      (''phase'', [''research'', ''design'', ''implementation'', ''review'',
         ''external_coordination'']),
      (''source_kind'', [''host_permission'', ''configuration'', ''instruction'',
         ''user_request'', ''repository_metadata'', ''derived_default'']),
      (''capability_state'', [''supported'', ''unsupported'', ''unknown'']),
      (''delegation_policy'', [''none'', ''user_requested_only'', ''bounded'']),
      (''ambiguous'', [''true'', ''false'']),
      (''conflicted'', [''true'', ''false''])]) field"

section \<open>Validation\<close>

definition pack_invalid :: "string \<Rightarrow> string \<Rightarrow> stable_error" where
  "pack_invalid message field = NewError ErrorCodeInvalidSchema message field False"

definition contains :: "string list \<Rightarrow> string \<Rightarrow> bool" where
  "contains values wanted = list_ex (\<lambda>v. v = wanted) values"

definition identifier_rune :: "nat \<Rightarrow> bool" where
  "identifier_rune r \<longleftrightarrow>
     97 \<le> r \<and> r \<le> 122 \<or> 48 \<le> r \<and> r \<le> 57 \<or> r = 95 \<or> r = 46 \<or> r = 45"

definition validIdentifier :: "string \<Rightarrow> nat \<Rightarrow> bool" where
  "validIdentifier value limit =
     (case value of
        [] \<Rightarrow> False
      | c # cs \<Rightarrow>
          length value \<le> limit \<and> 97 \<le> byte c \<and> byte c \<le> 122 \<and>
          list_all identifier_rune (runes cs))"

definition validConditionValue :: "condition \<Rightarrow> bool" where
  "validConditionValue cnd =
     (if cn_Operator cnd = ''present'' then cn_Value cnd = ''''
      else contains (conditionValues (cn_Field cnd)) (cn_Value cnd))"

definition validateRule :: "rule \<Rightarrow> string \<Rightarrow> unit go_result" where
  "validateRule rl field =
     (if \<not> validIdentifier (rl_ID rl) 80 \<or> \<not> contains categories (rl_Category rl) \<or>
         \<not> contains outcomes (rl_Outcome rl) then
        Inl (pack_invalid ''invalid policy rule identity, category, or outcome'' field)
      else if rl_RiskScore rl < 0 \<or> rl_RiskScore rl > 100 \<or> length (rl_Explanation rl) = 0 \<or>
              length (rl_Explanation rl) > 300 then
        Inl (pack_invalid ''invalid policy rule risk or explanation'' field)
      else if length (rl_Conditions rl) = 0 \<or> length (rl_Conditions rl) > MaxConditions then
        Inl (pack_invalid ''policy rule must contain 1 to 16 conditions'' (field @ ''.conditions''))
      else
        check_each (\<lambda>cnd. guard_result
          (\<not> contains fields (cn_Field cnd) \<or> \<not> contains operators (cn_Operator cnd) \<or>
           length (cn_Value cnd) > 128 \<or> \<not> validConditionValue cnd)
          (pack_invalid ''invalid policy condition'' (field @ ''.conditions'')))
        (rl_Conditions rl))"

fun validateRules :: "nat \<Rightarrow> string set \<Rightarrow> rule list \<Rightarrow> unit go_result" where
  "validateRules index seen [] = Inr ()"
| "validateRules index seen (rl # rls) =
     (let field = ''policy_pack.rules.'' @ show_nat index in
      case validateRule rl field of
        Inl e \<Rightarrow> Inl e
      | Inr _ \<Rightarrow>
          if rl_ID rl \<in> seen then
            Inl (pack_invalid ''duplicate policy rule id'' (field @ ''.id''))
          else validateRules (Suc index) (insert (rl_ID rl) seen) rls)"

definition pack_Validate :: "pack \<Rightarrow> unit go_result" where
  "pack_Validate p =
     (if pk_SchemaVersion p \<noteq> SchemaVersion \<or> pk_Version p \<noteq> SchemaVersion then
        Inl (pack_invalid ''unsupported policy pack version'' ''policy_pack.version'')
      else if \<not> validIdentifier (pk_ID p) 80 then
        Inl (pack_invalid ''invalid policy pack id'' ''policy_pack.id'')
      else if length (pk_Rules p) = 0 \<or> length (pk_Rules p) > MaxRules then
        Inl (pack_invalid ''policy pack must contain 1 to 256 rules'' ''policy_pack.rules'')
      else validateRules 0 {} (pk_Rules p))"

definition pack_key :: "pack \<Rightarrow> string" where
  "pack_key p = pk_ID p @ ''@'' @ pk_Version p"

fun validatePacks :: "string set \<Rightarrow> pack list \<Rightarrow> unit go_result" where
  "validatePacks seen [] = Inr ()"
| "validatePacks seen (p # ps) =
     (case pack_Validate p of
        Inl e \<Rightarrow> Inl e
      | Inr _ \<Rightarrow>
          if pack_key p \<in> seen then
            Inl (pack_invalid ''duplicate policy pack'' ''policy_packs'')
          else validatePacks (insert (pack_key p) seen) ps)"

definition ValidateSet :: "pack list \<Rightarrow> unit go_result" where
  "ValidateSet packs =
     (if length packs > MaxPacks then
        Inl (pack_invalid ''at most 16 policy packs are supported'' ''policy_packs'')
      else validatePacks {} packs)"

definition ValidateExtensions :: "pack list \<Rightarrow> unit go_result" where
  "ValidateExtensions packs =
     (case ValidateSet packs of
        Inl e \<Rightarrow> Inl e
      | Inr _ \<Rightarrow>
          check_each (\<lambda>p. check_each (\<lambda>rl. guard_result (rl_Outcome rl = ''continue'')
             (pack_invalid ''extension policy rules cannot broaden behavior'' ''policy_packs''))
             (pk_Rules p)) packs)"

text \<open>
  \<open>Parse\<close> bounds the size before it decodes. The strict JSON decoder is an argument: it
  returns the decoded pack and whether anything but white space follows it.
\<close>

definition pack_Parse :: "(string \<Rightarrow> (pack \<times> bool) option) \<Rightarrow> string \<Rightarrow> pack go_result" where
  "pack_Parse decode data =
     (if length data = 0 \<or> length data > MaxPackBytes then
        Inl (pack_invalid ''policy pack size must be between 1 and 65536 bytes'' ''policy_pack'')
      else case decode data of
        None \<Rightarrow> Inl (pack_invalid ''invalid policy pack'' ''policy_pack'')
      | Some (p, trailing) \<Rightarrow>
          if trailing then
            Inl (pack_invalid ''policy pack contains trailing data'' ''policy_pack'')
          else case pack_Validate p of Inl e \<Rightarrow> Inl e | Inr _ \<Rightarrow> Inr p)"

text \<open>\<open>builtin.Load\<close>: the embedded files, in order, parsed and validated as a set.\<close>

fun parse_all :: "(string \<Rightarrow> (pack \<times> bool) option) \<Rightarrow> string list \<Rightarrow> pack list go_result" where
  "parse_all decode [] = Inr []"
| "parse_all decode (d # ds) =
     (case pack_Parse decode d of
        Inl e \<Rightarrow> Inl e
      | Inr p \<Rightarrow> (case parse_all decode ds of Inl e \<Rightarrow> Inl e | Inr ps \<Rightarrow> Inr (p # ps)))"

definition builtin_Load ::
  "(string \<Rightarrow> (pack \<times> bool) option) \<Rightarrow> string list \<Rightarrow> pack list go_result" where
  "builtin_Load decode files =
     (case parse_all decode files of
        Inl e \<Rightarrow> Inl e
      | Inr packs \<Rightarrow> (case ValidateSet packs of Inl e \<Rightarrow> Inl e | Inr _ \<Rightarrow> Inr packs))"

section \<open>Evaluation\<close>

type_synonym facts = "string \<Rightarrow> string option"

definition condition_fails :: "condition \<Rightarrow> facts \<Rightarrow> bool" where
  "condition_fails cnd fs =
     (let fact = fs (cn_Field cnd) in
      if cn_Operator cnd = ''equals'' then fact \<noteq> Some (cn_Value cnd)
      else if cn_Operator cnd = ''not_equals'' then fact = None \<or> fact = Some (cn_Value cnd)
      else if cn_Operator cnd = ''prefix'' then
        (case fact of None \<Rightarrow> True | Some v \<Rightarrow> \<not> prefix (cn_Value cnd) v)
      else if cn_Operator cnd = ''present'' then fact = None
      else False)"

fun matchesAll :: "condition list \<Rightarrow> facts \<Rightarrow> bool" where
  "matchesAll [] fs = True"
| "matchesAll (cnd # cnds) fs = (if condition_fails cnd fs then False else matchesAll cnds fs)"

definition match_less :: "match \<Rightarrow> match \<Rightarrow> bool" where
  "match_less a b =
     (if mt_PackID a \<noteq> mt_PackID b then mt_PackID a < mt_PackID b
      else rl_ID (mt_Rule a) < rl_ID (mt_Rule b))"

definition pack_matches :: "facts \<Rightarrow> pack \<Rightarrow> match list" where
  "pack_matches fs p =
     map (\<lambda>rl. \<lparr>mt_PackID = pk_ID p, mt_PackVersion = pk_Version p, mt_Rule = rl\<rparr>)
       (filter (\<lambda>rl. matchesAll (rl_Conditions rl) fs) (pk_Rules p))"

definition pack_Evaluate :: "pack list \<Rightarrow> facts \<Rightarrow> match list go_result" where
  "pack_Evaluate packs fs =
     (case ValidateSet packs of
        Inl e \<Rightarrow> Inl e
      | Inr _ \<Rightarrow> Inr (sort_slice match_less (concat (map (pack_matches fs) packs))))"

section \<open>Library\<close>

definition match_key :: "match \<Rightarrow> string \<times> string" where
  "match_key m = (mt_PackID m, rl_ID (mt_Rule m))"

interpretation match_order: slice_key match_less match_key
  by unfold_locales (auto simp: match_less_def match_key_def)

lemma contains_iff [simp]: "contains vs wanted \<longleftrightarrow> wanted \<in> set vs"
  by (induction vs) (auto simp: contains_def)

lemma matchesAll_iff: "matchesAll cnds fs \<longleftrightarrow> (\<forall>cnd \<in> set cnds. \<not> condition_fails cnd fs)"
  by (induction cnds) auto

text \<open>What a validated rule, pack and set of packs satisfy.\<close>

definition wf_condition :: "condition \<Rightarrow> bool" where
  "wf_condition cnd \<longleftrightarrow>
     cn_Field cnd \<in> set fields \<and> cn_Operator cnd \<in> set operators \<and>
     length (cn_Value cnd) \<le> 128 \<and> validConditionValue cnd"

definition wf_rule :: "rule \<Rightarrow> bool" where
  "wf_rule rl \<longleftrightarrow>
     validIdentifier (rl_ID rl) 80 \<and> rl_Category rl \<in> set categories \<and>
     rl_Outcome rl \<in> set outcomes \<and> 0 \<le> rl_RiskScore rl \<and> rl_RiskScore rl \<le> 100 \<and>
     1 \<le> length (rl_Explanation rl) \<and> length (rl_Explanation rl) \<le> 300 \<and>
     1 \<le> length (rl_Conditions rl) \<and> length (rl_Conditions rl) \<le> MaxConditions \<and>
     (\<forall>cnd \<in> set (rl_Conditions rl). wf_condition cnd)"

definition wf_pack :: "pack \<Rightarrow> bool" where
  "wf_pack p \<longleftrightarrow>
     pk_SchemaVersion p = SchemaVersion \<and> pk_Version p = SchemaVersion \<and>
     validIdentifier (pk_ID p) 80 \<and> 1 \<le> length (pk_Rules p) \<and> length (pk_Rules p) \<le> MaxRules \<and>
     (\<forall>rl \<in> set (pk_Rules p). wf_rule rl) \<and> distinct (map rl_ID (pk_Rules p))"

definition wf_packs :: "pack list \<Rightarrow> bool" where
  "wf_packs packs \<longleftrightarrow>
     length packs \<le> MaxPacks \<and> (\<forall>p \<in> set packs. wf_pack p) \<and> distinct (map pk_ID packs)"

lemma validateRule_ok [simp]: "validateRule rl field = Inr u \<longleftrightarrow> wf_rule rl"
  unfolding validateRule_def wf_rule_def wf_condition_def
  by (auto simp: check_each_ok Suc_le_eq not_less not_le)

lemma validateRules_ok:
  "validateRules i seen rls = Inr u \<longleftrightarrow>
     (\<forall>rl \<in> set rls. wf_rule rl) \<and> distinct (map rl_ID rls) \<and> rl_ID ` set rls \<inter> seen = {}"
  by (induction rls arbitrary: i seen) (auto simp: Let_def case_unit_ok)

lemma pack_Validate_ok [simp]: "pack_Validate p = Inr u \<longleftrightarrow> wf_pack p"
  unfolding pack_Validate_def wf_pack_def
  by (auto simp: validateRules_ok Suc_le_eq not_less)

lemma validatePacks_ok:
  "validatePacks seen ps = Inr u \<longleftrightarrow>
     (\<forall>p \<in> set ps. wf_pack p) \<and> distinct (map pack_key ps) \<and> pack_key ` set ps \<inter> seen = {}"
  by (induction ps arbitrary: seen) (auto simp: case_unit_ok)

lemma distinct_pack_key:
  "\<forall>p \<in> set ps. wf_pack p \<Longrightarrow> distinct (map pack_key ps) \<longleftrightarrow> distinct (map pk_ID ps)"
proof (induction ps)
  case (Cons p ps)
  then have "pack_key p \<in> pack_key ` set ps \<longleftrightarrow> pk_ID p \<in> pk_ID ` set ps"
    by (auto simp: pack_key_def wf_pack_def image_iff)
  with Cons show ?case by simp
qed simp

lemma ValidateSet_ok [simp]: "ValidateSet packs = Inr u \<longleftrightarrow> wf_packs packs"
  unfolding ValidateSet_def wf_packs_def
  by (auto simp: validatePacks_ok distinct_pack_key not_less)

lemma ValidateExtensions_ok:
  "ValidateExtensions packs = Inr u \<longleftrightarrow>
     wf_packs packs \<and> (\<forall>p \<in> set packs. \<forall>rl \<in> set (pk_Rules p). rl_Outcome rl \<noteq> ''continue'')"
  by (simp add: ValidateExtensions_def case_unit_ok check_each_ok)

lemma pack_Evaluate_ok:
  "wf_packs packs \<Longrightarrow>
   pack_Evaluate packs fs = Inr (sort_slice match_less (concat (map (pack_matches fs) packs)))"
  by (simp add: pack_Evaluate_def case_unit_ok)

lemma pack_Evaluate_Inr:
  assumes "pack_Evaluate packs fs = Inr ms"
  shows "wf_packs packs" and "ms = sort_slice match_less (concat (map (pack_matches fs) packs))"
proof -
  show wf: "wf_packs packs"
    using assms ValidateSet_ok by (auto simp: pack_Evaluate_def split: sum.splits)
  show "ms = sort_slice match_less (concat (map (pack_matches fs) packs))"
    using assms pack_Evaluate_ok [OF wf] by simp
qed

lemma set_pack_matches:
  "m \<in> set (pack_matches fs p) \<longleftrightarrow>
     mt_PackID m = pk_ID p \<and> mt_PackVersion m = pk_Version p \<and> mt_Rule m \<in> set (pk_Rules p) \<and>
     matchesAll (rl_Conditions (mt_Rule m)) fs"
  by (cases m) (auto simp: pack_matches_def)

text \<open>In a validated set the key of a match determines the match.\<close>

lemma distinct_pack_matches:
  assumes "wf_pack p"
  shows "distinct (map match_key (pack_matches fs p))"
proof -
  have "distinct (map rl_ID (filter (\<lambda>rl. matchesAll (rl_Conditions rl) fs) (pk_Rules p)))"
    using assms by (simp add: wf_pack_def distinct_map_filter)
  then show ?thesis
    by (simp add: pack_matches_def match_key_def comp_def distinct_map inj_on_def)
qed

lemma distinct_match_keys:
  "\<forall>p \<in> set packs. wf_pack p \<Longrightarrow> distinct (map pk_ID packs) \<Longrightarrow>
   distinct (map match_key (concat (map (pack_matches fs) packs)))"
proof (induction packs)
  case (Cons p ps)
  have "match_key a \<noteq> match_key b"
    if "a \<in> set (pack_matches fs p)" "q \<in> set ps" "b \<in> set (pack_matches fs q)" for a b q
    using that Cons.prems(2) by (auto simp: set_pack_matches match_key_def image_iff)
  then have "set (map match_key (pack_matches fs p)) \<inter>
      set (map match_key (concat (map (pack_matches fs) ps))) = {}"
    by fastforce
  moreover have "distinct (map match_key (pack_matches fs p))"
    using Cons.prems(1) by (simp add: distinct_pack_matches)
  ultimately show ?case
    using Cons.IH Cons.prems by (simp del: set_map)
qed simp

lemma match_key_inj:
  assumes "wf_packs packs"
  shows "inj_on match_key (set (concat (map (pack_matches fs) packs)))"
  using distinct_match_keys [of packs fs] assms unfolding wf_packs_def distinct_map by blast

lemma wf_packs_permute: "mset ps = mset qs \<Longrightarrow> wf_packs ps \<Longrightarrow> wf_packs qs"
proof -
  assume perm: "mset ps = mset qs" and wf: "wf_packs ps"
  have "mset (map pk_ID ps) = mset (map pk_ID qs)" using perm by simp
  then have "distinct (map pk_ID ps) = distinct (map pk_ID qs)"
    by (rule mset_eq_imp_distinct_iff)
  then show "wf_packs qs"
    using wf mset_eq_setD [OF perm] mset_eq_length [OF perm] by (simp add: wf_packs_def)
qed

section \<open>Properties\<close>

text \<open>C2: evaluating a validated set returns exactly the matches of its rules whose
  conditions all hold, each once, in strictly increasing order of pack and rule identifier.\<close>

theorem evaluate_exact:
  assumes "ValidateSet packs = Inr ()"
  shows "\<exists>ms. pack_Evaluate packs fs = Inr ms \<and> sorted_wrt (\<lambda>a b. match_key a < match_key b) ms \<and>
    (\<forall>m. m \<in> set ms \<longleftrightarrow> (\<exists>p \<in> set packs. \<exists>rl \<in> set (pk_Rules p).
        matchesAll (rl_Conditions rl) fs \<and>
        m = \<lparr>mt_PackID = pk_ID p, mt_PackVersion = pk_Version p, mt_Rule = rl\<rparr>))"
proof -
  let ?all = "concat (map (pack_matches fs) packs)"
  have wf: "wf_packs packs" using assms by simp
  have "distinct (map match_key ?all)"
    using wf distinct_match_keys by (simp add: wf_packs_def)
  then have "distinct (map match_key (sort_slice match_less ?all))"
    unfolding distinct_map by simp
  then have "sorted_wrt (<) (map match_key (sort_slice match_less ?all))"
    using match_order.sorted_sort_slice [of ?all] strict_sorted_iff by blast
  then show ?thesis
    unfolding pack_Evaluate_ok [OF wf] by (auto simp: sorted_wrt_map pack_matches_def)
qed

definition sample_rule :: rule where
  "sample_rule = \<lparr>rl_ID = ''r'', rl_Category = ''scope'', rl_Outcome = ''block'',
     rl_RiskScore = 50, rl_Explanation = ''e'',
     rl_Conditions = [\<lparr>cn_Field = ''phase'', cn_Operator = ''present'', cn_Value = ''''\<rparr>]\<rparr>"

definition sample_pack :: "string \<Rightarrow> pack" where
  "sample_pack i = \<lparr>pk_SchemaVersion = SchemaVersion, pk_ID = i, pk_Version = SchemaVersion,
     pk_Rules = [sample_rule]\<rparr>"

lemma wf_sample_pack: "wf_pack (sample_pack ''p'')" "wf_pack (sample_pack ''q'')"
  by (simp_all add: sample_pack_def sample_rule_def wf_pack_def wf_rule_def wf_condition_def
      validIdentifier_def validConditionValue_def categories_def outcomes_def fields_def
      operators_def)

theorem evaluate_exact_witness:
  "\<exists>ms. pack_Evaluate [sample_pack ''p''] [''phase'' \<mapsto> ''design''] = Inr ms \<and> ms \<noteq> []"
proof -
  let ?fs = "[''phase'' \<mapsto> ''design'']"
  have "ValidateSet [sample_pack ''p''] = Inr ()"
    by (simp add: wf_packs_def wf_sample_pack)
  from evaluate_exact [OF this, of ?fs] obtain ms
    where ms: "pack_Evaluate [sample_pack ''p''] ?fs = Inr ms"
      and all: "\<forall>m. m \<in> set ms \<longleftrightarrow> (\<exists>p \<in> set [sample_pack ''p'']. \<exists>rl \<in> set (pk_Rules p).
        matchesAll (rl_Conditions rl) ?fs \<and>
        m = \<lparr>mt_PackID = pk_ID p, mt_PackVersion = pk_Version p, mt_Rule = rl\<rparr>)"
    by blast
  have "\<lparr>mt_PackID = ''p'', mt_PackVersion = SchemaVersion, mt_Rule = sample_rule\<rparr> \<in> set ms"
    unfolding all [rule_format] by (simp add: sample_pack_def sample_rule_def condition_fails_def)
  with ms show ?thesis by auto
qed

text \<open>The result of an evaluation does not depend on the order in which packs were
  loaded, nor on how the sort treats ties: any permutation of a validated set evaluates to
  the same list of matches.\<close>

theorem evaluate_order_independent:
  assumes "ValidateSet packs = Inr ()" and "mset packs' = mset packs"
  shows "pack_Evaluate packs' fs = pack_Evaluate packs fs"
proof -
  have wf: "wf_packs packs" "wf_packs packs'"
    using assms wf_packs_permute [of packs packs'] by simp_all
  have "mset (concat (map (pack_matches fs) packs')) = mset (concat (map (pack_matches fs) packs))"
    using assms(2) by (simp only: mset_concat_map)
  from match_order.sort_slice_permute [OF this match_key_inj [OF wf(1)]] show ?thesis
    unfolding pack_Evaluate_ok [OF wf(1)] pack_Evaluate_ok [OF wf(2)] by (rule arg_cong)
qed

theorem evaluate_order_independent_witness:
  "pack_Evaluate [sample_pack ''q'', sample_pack ''p''] Map.empty =
   pack_Evaluate [sample_pack ''p'', sample_pack ''q''] Map.empty"
  by (rule evaluate_order_independent)
     (simp_all add: wf_packs_def wf_sample_pack, simp add: sample_pack_def)

text \<open>Extension packs can only narrow behaviour. Every match an accepted extension set
  produces warns, asks or blocks, with a risk score between 0 and 100, and its rule fires only
  when every fact it names is present, so an absent fact never satisfies a condition.\<close>

theorem extension_matches_narrow:
  assumes "ValidateExtensions packs = Inr ()" and "pack_Evaluate packs fs = Inr ms"
    and "m \<in> set ms"
  shows "rl_Outcome (mt_Rule m) \<in> {''warn'', ''clarify'', ''block''} \<and>
    0 \<le> rl_RiskScore (mt_Rule m) \<and> rl_RiskScore (mt_Rule m) \<le> 100 \<and>
    rl_Conditions (mt_Rule m) \<noteq> [] \<and>
    (\<forall>cnd \<in> set (rl_Conditions (mt_Rule m)). fs (cn_Field cnd) \<noteq> None)"
proof -
  obtain p where p: "p \<in> set packs" and m: "m \<in> set (pack_matches fs p)"
    using assms(3) pack_Evaluate_Inr [OF assms(2)] by auto
  then have rl: "mt_Rule m \<in> set (pk_Rules p)" and all: "matchesAll (rl_Conditions (mt_Rule m)) fs"
    by (simp_all add: set_pack_matches)
  have wf: "wf_rule (mt_Rule m)" and "rl_Outcome (mt_Rule m) \<noteq> ''continue''"
    using assms(1) p rl by (auto simp: ValidateExtensions_ok wf_packs_def wf_pack_def)
  moreover have "fs (cn_Field cnd) \<noteq> None" if "cnd \<in> set (rl_Conditions (mt_Rule m))" for cnd
  proof -
    have "cn_Operator cnd \<in> set operators" and "\<not> condition_fails cnd fs"
      using that wf all by (auto simp: wf_rule_def wf_condition_def matchesAll_iff)
    then show ?thesis
      by (cases "fs (cn_Field cnd)") (auto simp: operators_def condition_fails_def)
  qed
  ultimately show ?thesis
    by (auto simp: wf_rule_def outcomes_def)
qed

theorem extension_matches_narrow_witness:
  "\<exists>ms m. ValidateExtensions [sample_pack ''p''] = Inr () \<and>
     pack_Evaluate [sample_pack ''p''] [''phase'' \<mapsto> ''design''] = Inr ms \<and> m \<in> set ms \<and>
     rl_Outcome (mt_Rule m) \<in> {''warn'', ''clarify'', ''block''}"
proof -
  let ?fs = "[''phase'' \<mapsto> ''design'']"
  let ?m = "\<lparr>mt_PackID = ''p'', mt_PackVersion = SchemaVersion, mt_Rule = sample_rule\<rparr>"
  have wf: "wf_packs [sample_pack ''p'']"
    by (simp add: wf_packs_def wf_sample_pack)
  have v: "ValidateExtensions [sample_pack ''p''] = Inr ()"
    using wf by (simp add: ValidateExtensions_ok sample_pack_def sample_rule_def)
  have "?m \<in> set (pack_matches ?fs (sample_pack ''p''))"
    by (simp add: set_pack_matches sample_pack_def sample_rule_def condition_fails_def)
  then obtain ms where ms: "pack_Evaluate [sample_pack ''p''] ?fs = Inr ms" "?m \<in> set ms"
    using pack_Evaluate_ok [OF wf] by simp
  show ?thesis
    using v ms extension_matches_narrow [OF v ms] by blast
qed

end
