(* ===== verification/Boundary_Resolve.thy ===== *)
theory Boundary_Resolve
  imports Policypack "HOL-Library.AList"
begin

text \<open>
  \<open>internal/boundary/resolve.go\<close>: candidates are ordered by authority, conflicting
  candidates are marked, and the first cycle of the conflict graph is reported by a
  depth-first search with an explicit colour map, stack and position map.
\<close>

section \<open>Candidates and their order\<close>

record candidate =
  ca_ID :: string
  ca_Category :: string
  ca_SourceKind :: string
  ca_SourceRef :: string
  ca_Confidence :: real
  ca_Specificity :: int
  ca_Facts :: facts
  ca_Conflicts :: "string list"

definition authority :: "string \<Rightarrow> int" where
  "authority source =
     (if source = ''host_permission'' then 6
      else if source = ''configuration'' then 5
      else if source = ''instruction'' then 4
      else if source = ''user_request'' then 3
      else if source = ''repository_metadata'' then 2
      else 1)"

definition candidate_less :: "candidate \<Rightarrow> candidate \<Rightarrow> bool" where
  "candidate_less left right =
     (if authority (ca_SourceKind left) \<noteq> authority (ca_SourceKind right) then
        authority (ca_SourceKind left) > authority (ca_SourceKind right)
      else if ca_Specificity left \<noteq> ca_Specificity right then
        ca_Specificity left > ca_Specificity right
      else if ca_Confidence left \<noteq> ca_Confidence right then
        ca_Confidence left > ca_Confidence right
      else ca_ID left < ca_ID right)"

text \<open>A deep copy: the facts and the conflict list are copied field by field.\<close>

definition cloneCandidates :: "candidate list \<Rightarrow> candidate list" where
  "cloneCandidates candidates =
     map (\<lambda>c. c\<lparr>ca_Facts := ca_Facts c, ca_Conflicts := [] @ ca_Conflicts c\<rparr>) candidates"

section \<open>The first cycle of the conflict graph\<close>

text \<open>
  A \<open>map[string][]string\<close> whose keys are enumerated is an association list with distinct
  keys. Colours: 0 unvisited, 1 on the stack, 2 finished.
\<close>

type_synonym graph = "(string \<times> string list) list"

record dfs =
  df_state :: "string \<Rightarrow> nat"
  df_stack :: "string list"
  df_position :: "string \<Rightarrow> nat option"

text \<open>The \<open>for _, next := range graph[node]\<close> loop, over the recursive call.\<close>

fun visit_next ::
  "(dfs \<Rightarrow> string \<Rightarrow> (string list \<times> dfs) option) \<Rightarrow> graph \<Rightarrow> dfs \<Rightarrow> string list \<Rightarrow>
   (string list \<times> dfs) option" where
  "visit_next f g s [] = Some ([], s)"
| "visit_next f g s (n # ns) =
     (if map_of g n = None then visit_next f g s ns
      else case f s n of
        None \<Rightarrow> None
      | Some (cycle, s') \<Rightarrow> if cycle \<noteq> [] then Some (cycle, s') else visit_next f g s' ns)"

text \<open>
  The recursive closure \<open>visit\<close>. The first argument bounds the depth of the recursion;
  \<open>None\<close> means that the bound was too small, which \<open>firstCycle_total\<close> rules out.
\<close>

fun visit :: "nat \<Rightarrow> graph \<Rightarrow> dfs \<Rightarrow> string \<Rightarrow> (string list \<times> dfs) option" where
  "visit 0 g s node = None"
| "visit (Suc fuel) g s node =
     (if df_state s node = 1 then
        let start = lookup_or 0 (df_position s) node
        in Some (drop start (df_stack s) @ [node], s)
      else if df_state s node = 2 then Some ([], s)
      else
        let s1 = s\<lparr>df_state := (df_state s)(node := 1),
                   df_position := (df_position s)(node \<mapsto> length (df_stack s)),
                   df_stack := df_stack s @ [node]\<rparr>
        in case visit_next (visit fuel g) g s1 (lookup_or [] (map_of g) node) of
             None \<Rightarrow> None
           | Some (cycle, s2) \<Rightarrow>
               if cycle \<noteq> [] then Some (cycle, s2)
               else Some ([], s2\<lparr>df_stack := butlast (df_stack s2),
                                 df_position := (df_position s2)(node := None),
                                 df_state := (df_state s2)(node := 2)\<rparr>))"

fun visit_keys :: "nat \<Rightarrow> graph \<Rightarrow> dfs \<Rightarrow> string list \<Rightarrow> string list option" where
  "visit_keys fuel g s [] = Some []"
| "visit_keys fuel g s (k # ks) =
     (case visit fuel g s k of
        None \<Rightarrow> None
      | Some (cycle, s') \<Rightarrow> if cycle \<noteq> [] then Some cycle else visit_keys fuel g s' ks)"

definition dfs_start :: dfs where
  "dfs_start = \<lparr>df_state = (\<lambda>_. 0), df_stack = [], df_position = Map.empty\<rparr>"

definition firstCycle :: "graph \<Rightarrow> string list option" where
  "firstCycle g = visit_keys (Suc (length g)) g dfs_start (sort_strings (map fst g))"

section \<open>Resolution\<close>

record resolution =
  rs_Candidates :: "candidate list"
  rs_Conflicted :: "string \<Rightarrow> bool"
  rs_Cycle :: "string list"

fun build_graph :: "graph \<Rightarrow> (string \<Rightarrow> bool) \<Rightarrow> candidate list \<Rightarrow> graph \<times> (string \<Rightarrow> bool)" where
  "build_graph g conflicted [] = (g, conflicted)"
| "build_graph g conflicted (c # cs) =
     (let refs = sort_strings (ca_Conflicts c);
          conflicted = (if length refs > 0 then conflicted(ca_ID c := True) else conflicted);
          conflicted = fold (\<lambda>ref m. m(ref := True)) refs conflicted
      in build_graph (AList.update (ca_ID c) refs g) conflicted cs)"

definition boundary_Resolve :: "candidate list \<Rightarrow> resolution" where
  "boundary_Resolve candidates =
     (let ordered = sort_slice candidate_less (cloneCandidates candidates);
          (g, conflicted) = build_graph [] (\<lambda>_. False) ordered
      in \<lparr>rs_Candidates = ordered, rs_Conflicted = conflicted,
          rs_Cycle = (case firstCycle g of None \<Rightarrow> [] | Some cycle \<Rightarrow> cycle)\<rparr>)"

section \<open>Library: the order\<close>

definition candidate_key :: "candidate \<Rightarrow> int \<times> int \<times> real \<times> string" where
  "candidate_key c =
     (- authority (ca_SourceKind c), - ca_Specificity c, - ca_Confidence c, ca_ID c)"

interpretation candidate_order: slice_key candidate_less candidate_key
  by unfold_locales (auto simp: candidate_less_def candidate_key_def)

lemma cloneCandidates_id [simp]: "cloneCandidates cs = cs"
  by (simp add: cloneCandidates_def)

section \<open>Library: the depth-first search\<close>

definition edge :: "graph \<Rightarrow> string \<Rightarrow> string \<Rightarrow> bool" where
  "edge g a b \<longleftrightarrow> (\<exists>refs. map_of g a = Some refs \<and> b \<in> set refs \<and> map_of g b \<noteq> None)"

definition edges :: "graph \<Rightarrow> (string \<times> string) set" where
  "edges g = {(a, b). edge g a b}"

definition is_cycle :: "graph \<Rightarrow> string list \<Rightarrow> bool" where
  "is_cycle g c \<longleftrightarrow>
     2 \<le> length c \<and> hd c = last c \<and> distinct (butlast c) \<and> successively (edge g) c"

definition dfs_inv :: "graph \<Rightarrow> dfs \<Rightarrow> bool" where
  "dfs_inv g s \<longleftrightarrow>
     distinct (df_stack s) \<and>
     (\<forall>n. df_state s n = 1 \<longleftrightarrow> n \<in> set (df_stack s)) \<and>
     (\<forall>i < length (df_stack s). df_position s (df_stack s ! i) = Some i) \<and>
     successively (edge g) (df_stack s) \<and>
     (\<forall>n. df_state s n \<noteq> 0 \<longrightarrow> map_of g n \<noteq> None) \<and>
     (\<forall>n. df_state s n \<le> 2) \<and>
     (\<forall>n m. df_state s n = 2 \<longrightarrow> edge g n m \<longrightarrow> df_state s m = 2) \<and>
     acyclic {(a, b). edge g a b \<and> df_state s a = 2}"

lemma dfs_inv_grey: "dfs_inv g s \<Longrightarrow> df_state s n = 1 \<longleftrightarrow> n \<in> set (df_stack s)"
  by (simp add: dfs_inv_def)

lemma dfs_inv_key: "dfs_inv g s \<Longrightarrow> df_state s n \<noteq> 0 \<Longrightarrow> map_of g n \<noteq> None"
  by (simp add: dfs_inv_def)

lemma dfs_inv_closed:
  "dfs_inv g s \<Longrightarrow> df_state s n = 2 \<Longrightarrow> edge g n m \<Longrightarrow> df_state s m = 2"
  by (simp add: dfs_inv_def)

lemma successively_trancl:
  "successively (edge g) (a # b # c) \<Longrightarrow> (a, last (a # b # c)) \<in> (edges g)\<^sup>+"
proof (induction c arbitrary: a b)
  case Nil
  then show ?case by (auto simp: edges_def)
next
  case (Cons d c)
  then have "(b, last (b # d # c)) \<in> (edges g)\<^sup>+" and "(a, b) \<in> edges g"
    by (auto simp: edges_def)
  then show ?case by (auto intro: trancl_into_trancl2)
qed

lemma is_cycle_not_acyclic:
  assumes "is_cycle g c"
  shows "\<not> acyclic (edges g)"
proof -
  obtain a b d where c: "c = a # b # d"
    using assms by (cases c; cases "tl c") (auto simp: is_cycle_def)
  then have "(a, a) \<in> (edges g)\<^sup>+"
    using assms successively_trancl [of g a b d] by (auto simp: is_cycle_def)
  then show ?thesis by (auto simp: acyclic_def)
qed

text \<open>The unvisited keys: what bounds the depth of the recursion.\<close>

definition white :: "graph \<Rightarrow> dfs \<Rightarrow> string set" where
  "white g s = {n. map_of g n \<noteq> None \<and> df_state s n = 0}"

lemma finite_white [simp]: "finite (white g s)"
  by (rule finite_subset [OF _ finite_dom_map_of [of g]]) (auto simp: white_def)

text \<open>What a call that found no cycle leaves behind.\<close>

definition dfs_step :: "graph \<Rightarrow> dfs \<Rightarrow> dfs \<Rightarrow> bool" where
  "dfs_step g s s' \<longleftrightarrow>
     dfs_inv g s' \<and> df_stack s' = df_stack s \<and>
     (\<forall>n. df_state s n = 2 \<longrightarrow> df_state s' n = 2) \<and> white g s' \<subseteq> white g s"

lemma dfs_step_refl: "dfs_inv g s \<Longrightarrow> dfs_step g s s"
  by (simp add: dfs_step_def)

lemma dfs_step_trans: "dfs_step g s t \<Longrightarrow> dfs_step g t u \<Longrightarrow> dfs_step g s u"
  by (auto simp: dfs_step_def)

text \<open>Meeting a node that is on the stack closes a simple cycle.\<close>

lemma stack_cycle:
  assumes inv: "dfs_inv g s" and i: "i < length (df_stack s)"
    and e: "edge g (last (df_stack s)) (df_stack s ! i)"
  shows "is_cycle g (drop i (df_stack s) @ [df_stack s ! i])"
proof -
  let ?st = "df_stack s"
  have ne: "drop i ?st \<noteq> []" using i by simp
  have "successively (edge g) (take i ?st @ drop i ?st)"
    using inv by (simp add: dfs_inv_def)
  then have "successively (edge g) (drop i ?st)"
    by (simp only: successively_append_iff)
  then have "successively (edge g) (drop i ?st @ [?st ! i])"
    using e i ne by (simp add: successively_append_iff last_drop)
  moreover have "hd (drop i ?st @ [?st ! i]) = ?st ! i"
    using ne i by (simp add: hd_drop_conv_nth)
  moreover have "distinct (drop i ?st)"
    using inv by (simp add: dfs_inv_def)
  ultimately show ?thesis
    using i by (auto simp: is_cycle_def)
qed

text \<open>Entering a node: it is pushed and coloured 1.\<close>

definition enter :: "dfs \<Rightarrow> string \<Rightarrow> dfs" where
  "enter s node = s\<lparr>df_state := (df_state s)(node := 1),
     df_position := (df_position s)(node \<mapsto> length (df_stack s)),
     df_stack := df_stack s @ [node]\<rparr>"

lemma enter_inv:
  assumes inv: "dfs_inv g s" and key: "map_of g node \<noteq> None" and w: "df_state s node = 0"
    and e: "df_stack s \<noteq> [] \<Longrightarrow> edge g (last (df_stack s)) node"
  shows "dfs_inv g (enter s node)"
proof -
  have new: "node \<notin> set (df_stack s)" using dfs_inv_grey [OF inv, of node] w by auto
  have pos: "df_position (enter s node) (df_stack (enter s node) ! i) = Some i"
    if "i < length (df_stack (enter s node))" for i
    using that inv new by (auto simp: dfs_inv_def enter_def nth_append less_Suc_eq)
  have black: "{(a, b). edge g a b \<and> df_state (enter s node) a = 2} =
      {(a, b). edge g a b \<and> df_state s a = 2}"
    using w by (auto simp: enter_def split: if_splits)
  have closed: "df_state (enter s node) m = 2"
    if "df_state (enter s node) n = 2" "edge g n m" for n m
  proof -
    have "df_state s n = 2" using that(1) by (auto simp: enter_def split: if_splits)
    then have "df_state s m = 2" using inv that(2) unfolding dfs_inv_def by blast
    then show ?thesis using w by (auto simp: enter_def)
  qed
  have succ: "successively (edge g) (df_stack (enter s node))"
    using inv e by (auto simp: dfs_inv_def enter_def successively_append_iff)
  show ?thesis
    unfolding dfs_inv_def black using inv new pos closed succ key
    by (auto simp: dfs_inv_def enter_def)
qed

lemma white_enter:
  "map_of g node \<noteq> None \<Longrightarrow> df_state s node = 0 \<Longrightarrow> white g (enter s node) = white g s - {node}"
  by (auto simp: white_def enter_def)

text \<open>Leaving a node all of whose successors are finished: it is popped and coloured 2.\<close>

definition leave :: "dfs \<Rightarrow> string \<Rightarrow> dfs" where
  "leave s node = s\<lparr>df_stack := butlast (df_stack s),
     df_position := (df_position s)(node := None), df_state := (df_state s)(node := 2)\<rparr>"

lemma acyclic_insert_source:
  assumes "acyclic R" and "\<forall>(a, b) \<in> R. b \<noteq> n" and "\<forall>(a, b) \<in> S. a = n \<and> b \<noteq> n"
  shows "acyclic (R \<union> S)"
proof (rule acyclicI, rule allI, rule notI)
  fix x assume cyc: "(x, x) \<in> (R \<union> S)\<^sup>+"
  have no_in: "y \<noteq> n" if "(z, y) \<in> (R \<union> S)\<^sup>+" for z y
    using that by (induction rule: trancl.induct) (use assms(2,3) in auto)
  have "(z, y) \<in> R\<^sup>+" if "(z, y) \<in> (R \<union> S)\<^sup>+" "z \<noteq> n" for z y
    using that
  proof (induction rule: trancl.induct)
    case (r_into_trancl a b)
    then show ?case using assms(3) by auto
  next
    case (trancl_into_trancl a b c)
    then have "b \<noteq> n" using no_in by blast
    then have "(b, c) \<in> R" using trancl_into_trancl(2) assms(3) by auto
    with trancl_into_trancl show ?case by auto
  qed
  then have "(x, x) \<in> R\<^sup>+" using cyc no_in by blast
  with assms(1) show False by (auto simp: acyclic_def)
qed

lemma leave_inv:
  assumes inv: "dfs_inv g s" and st: "df_stack s = st @ [node]"
    and succ_done: "\<And>m. edge g node m \<Longrightarrow> df_state s m = 2"
  shows "dfs_inv g (leave s node)"
proof -
  have grey: "df_state s node = 1" and new: "node \<notin> set st"
    using inv st dfs_inv_grey [OF inv, of node] by (auto simp: dfs_inv_def)
  have key: "map_of g node \<noteq> None" using dfs_inv_key [OF inv] grey by simp
  have closed: "df_state (leave s node) m = 2"
    if "df_state (leave s node) n = 2" "edge g n m" for n m
    using that inv succ_done by (auto simp: leave_def dfs_inv_def split: if_splits)
  have pos: "df_position (leave s node) (df_stack (leave s node) ! i) = Some i"
    if "i < length (df_stack (leave s node))" for i
  proof -
    have i: "i < length st" using that st by (simp add: leave_def)
    then have "df_position s (st ! i) = Some i"
      using inv st by (auto simp: dfs_inv_def nth_append dest: spec [of _ i])
    then show ?thesis using i st new by (auto simp: leave_def)
  qed
  let ?R = "{(a, b). edge g a b \<and> df_state s a = 2}" and ?S = "{(a, b). edge g a b \<and> a = node}"
  have "acyclic (?R \<union> ?S)"
  proof (rule acyclic_insert_source)
    show "acyclic ?R" using inv by (simp add: dfs_inv_def)
    show "\<forall>(a, b) \<in> ?R. b \<noteq> node" using inv grey unfolding dfs_inv_def by fastforce
    show "\<forall>(a, b) \<in> ?S. a = node \<and> b \<noteq> node" using succ_done grey by fastforce
  qed
  moreover have "?R \<union> ?S = {(a, b). edge g a b \<and> df_state (leave s node) a = 2}"
    by (auto simp: leave_def)
  moreover have "successively (edge g) (df_stack (leave s node))"
    using inv st by (auto simp: dfs_inv_def leave_def successively_append_iff)
  ultimately show ?thesis
    unfolding dfs_inv_def using inv st new key closed pos
    by (auto simp: dfs_inv_def leave_def)
qed

text \<open>The contract of the recursive call, for states with fewer than \<open>k\<close> unvisited keys.\<close>

definition visit_result :: "graph \<Rightarrow> dfs \<Rightarrow> string set \<Rightarrow> (string list \<times> dfs) option \<Rightarrow> bool" where
  "visit_result g s ns r \<longleftrightarrow>
     (\<exists>c s'. r = Some (c, s') \<and> (c \<noteq> [] \<longrightarrow> is_cycle g c) \<and>
        (c = [] \<longrightarrow> dfs_step g s s' \<and> (\<forall>n \<in> ns. map_of g n \<noteq> None \<longrightarrow> df_state s' n = 2)))"

definition visit_spec ::
  "graph \<Rightarrow> nat \<Rightarrow> (dfs \<Rightarrow> string \<Rightarrow> (string list \<times> dfs) option) \<Rightarrow> bool" where
  "visit_spec g k f \<longleftrightarrow>
     (\<forall>s n. dfs_inv g s \<and> map_of g n \<noteq> None \<and>
        (df_stack s \<noteq> [] \<longrightarrow> edge g (last (df_stack s)) n) \<and> card (white g s) < k \<longrightarrow>
        visit_result g s {n} (f s n))"

lemma card_white_mono: "white g s' \<subseteq> white g s \<Longrightarrow> card (white g s') \<le> card (white g s)"
  by (intro card_mono) auto

lemma visit_next_correct:
  assumes f: "visit_spec g k f"
  shows "dfs_inv g s \<Longrightarrow> df_stack s \<noteq> [] \<Longrightarrow> card (white g s) < k \<Longrightarrow>
    (\<And>n. n \<in> set ns \<Longrightarrow> map_of g n \<noteq> None \<Longrightarrow> edge g (last (df_stack s)) n) \<Longrightarrow>
    visit_result g s (set ns) (visit_next f g s ns)"
proof (induction ns arbitrary: s)
  case Nil
  then show ?case by (simp add: visit_result_def dfs_step_refl)
next
  case (Cons n ns)
  show ?case
  proof (cases "map_of g n = None")
    case True
    have "visit_result g s (set ns) (visit_next f g s ns)"
      using Cons.prems by (intro Cons.IH) auto
    with True show ?thesis by (auto simp: visit_result_def)
  next
    case False
    then have "visit_result g s {n} (f s n)"
      using f Cons.prems by (auto simp: visit_spec_def)
    then obtain c s' where fs: "f s n = Some (c, s')" and cyc: "c \<noteq> [] \<Longrightarrow> is_cycle g c"
      and step: "c = [] \<Longrightarrow> dfs_step g s s' \<and> df_state s' n = 2"
      using False by (auto simp: visit_result_def)
    show ?thesis
    proof (cases "c = []")
      case True
      then have st: "dfs_step g s s'" and black: "df_state s' n = 2" using step by auto
      have "visit_result g s' (set ns) (visit_next f g s' ns)"
        using Cons.prems st card_white_mono [of g s' s]
        by (intro Cons.IH) (auto simp: dfs_step_def)
      then show ?thesis
        using fs True False st black
        by (fastforce simp: visit_result_def dfs_step_def)
    next
      case neq: False
      with fs cyc False show ?thesis by (auto simp: visit_result_def)
    qed
  qed
qed

lemma visit_white:
  assumes "visit_spec g k (visit k g)" and inv: "dfs_inv g s" and key: "map_of g node \<noteq> None"
    and e: "df_stack s \<noteq> [] \<Longrightarrow> edge g (last (df_stack s)) node"
    and card: "card (white g s) < Suc k" and w: "df_state s node = 0"
  shows "visit_result g s {node} (visit (Suc k) g s node)"
proof -
  let ?s1 = "enter s node" and ?refs = "lookup_or [] (map_of g) node"
  have inv1: "dfs_inv g ?s1" by (rule enter_inv [OF inv key w e])
  have st1: "df_stack ?s1 = df_stack s @ [node]" by (simp add: enter_def)
  have "node \<in> white g s" using key w by (simp add: white_def)
  then have "card (white g ?s1) < k"
    using card white_enter [OF key w] card_Diff1_less [OF finite_white, of node g s] by simp
  moreover have refs: "edge g node n \<longleftrightarrow> n \<in> set ?refs \<and> map_of g n \<noteq> None" for n
    using key by (auto simp: edge_def)
  ultimately have "visit_result g ?s1 (set ?refs) (visit_next (visit k g) g ?s1 ?refs)"
    using inv1 st1 by (intro visit_next_correct [OF assms(1)]) auto
  then obtain c s2 where next_eq: "visit_next (visit k g) g ?s1 ?refs = Some (c, s2)"
    and cyc: "c \<noteq> [] \<Longrightarrow> is_cycle g c"
    and step: "c = [] \<Longrightarrow> dfs_step g ?s1 s2 \<and>
      (\<forall>n \<in> set ?refs. map_of g n \<noteq> None \<longrightarrow> df_state s2 n = 2)"
    by (auto simp: visit_result_def)
  have visit: "visit (Suc k) g s node =
      (if c \<noteq> [] then Some (c, s2) else Some ([], leave s2 node))"
    using w next_eq by (simp add: Let_def enter_def leave_def)
  show ?thesis
  proof (cases "c = []")
    case True
    then have st: "dfs_step g ?s1 s2"
      and black: "\<And>n. edge g node n \<Longrightarrow> df_state s2 n = 2" using step refs by auto
    have stack2: "df_stack s2 = df_stack s @ [node]" using st st1 by (simp add: dfs_step_def)
    have "dfs_inv g (leave s2 node)"
      using st black by (intro leave_inv [OF _ stack2]) (auto simp: dfs_step_def)
    moreover have "white g (leave s2 node) \<subseteq> white g s"
      using st white_enter [OF key w] by (auto simp: dfs_step_def white_def leave_def)
    ultimately have "dfs_step g s (leave s2 node)"
      using st stack2 w by (auto simp: dfs_step_def leave_def enter_def)
    then show ?thesis using visit True by (simp add: visit_result_def leave_def)
  qed (use visit cyc in \<open>simp add: visit_result_def\<close>)
qed

lemma visit_correct: "visit_spec g k (visit k g)"
proof (induction k)
  case 0
  show ?case by (simp add: visit_spec_def)
next
  case (Suc k)
  show ?case
    unfolding visit_spec_def
  proof (intro allI impI, elim conjE)
    fix s node
    assume inv: "dfs_inv g s" and key: "map_of g node \<noteq> None"
      and e: "df_stack s \<noteq> [] \<longrightarrow> edge g (last (df_stack s)) node"
      and card: "card (white g s) < Suc k"
    consider (grey) "df_state s node = 1" | (black) "df_state s node = 2"
      | (white) "df_state s node = 0"
    proof -
      have "df_state s node \<le> 2" using inv by (simp add: dfs_inv_def)
      then show thesis using that by (metis One_nat_def le_SucE le_zero_eq numeral_2_eq_2)
    qed
    then show "visit_result g s {node} (visit (Suc k) g s node)"
    proof cases
      case grey
      then obtain i where i: "i < length (df_stack s)" "df_stack s ! i = node"
        using dfs_inv_grey [OF inv] by (auto simp: in_set_conv_nth)
      then have pos: "df_position s node = Some i" using inv by (auto simp: dfs_inv_def)
      have "edge g (last (df_stack s)) (df_stack s ! i)" using e i by auto
      then have "is_cycle g (drop i (df_stack s) @ [node])"
        using stack_cycle [OF inv i(1)] i(2) by simp
      with grey pos show ?thesis by (simp add: visit_result_def Let_def)
    next
      case black
      then show ?thesis by (simp add: visit_result_def dfs_step_refl inv)
    next
      case white
      with Suc.IH inv key e card show ?thesis by (intro visit_white) auto
    qed
  qed
qed

lemma visit_keys_correct:
  assumes "dfs_inv g s" and "df_stack s = []" and "\<And>k. k \<in> set ks \<Longrightarrow> map_of g k \<noteq> None"
    and "card (white g s) < fuel"
  shows "\<exists>c. visit_keys fuel g s ks = Some c \<and> (c \<noteq> [] \<longrightarrow> is_cycle g c) \<and>
    (c = [] \<longrightarrow> (\<exists>s'. dfs_step g s s' \<and> (\<forall>k \<in> set ks. df_state s' k = 2)))"
  using assms
proof (induction ks arbitrary: s)
  case Nil
  then show ?case using dfs_step_refl by auto
next
  case (Cons k ks)
  have "visit_result g s {k} (visit fuel g s k)"
    using visit_correct [of g fuel] Cons.prems by (auto simp: visit_spec_def)
  then obtain c s' where v: "visit fuel g s k = Some (c, s')"
    and cyc: "c \<noteq> [] \<Longrightarrow> is_cycle g c" and step: "c = [] \<Longrightarrow> dfs_step g s s' \<and> df_state s' k = 2"
    using Cons.prems(3) [of k] by (auto simp: visit_result_def)
  show ?case
  proof (cases "c = []")
    case True
    then have st: "dfs_step g s s'" and k: "df_state s' k = 2" using step by auto
    obtain c' where c': "visit_keys fuel g s' ks = Some c'" "c' \<noteq> [] \<longrightarrow> is_cycle g c'"
      "c' = [] \<longrightarrow> (\<exists>s''. dfs_step g s' s'' \<and> (\<forall>k \<in> set ks. df_state s'' k = 2))"
      using Cons.IH [of s'] Cons.prems st card_white_mono [of g s' s] by (auto simp: dfs_step_def)
    moreover have "\<exists>s''. dfs_step g s s'' \<and> df_state s'' k = 2 \<and> (\<forall>k \<in> set ks. df_state s'' k = 2)"
      if "dfs_step g s' s''" "\<forall>k \<in> set ks. df_state s'' k = 2" for s''
      using that k dfs_step_trans [OF st that(1)] by (auto simp: dfs_step_def)
    ultimately show ?thesis using v True by auto
  qed (use v cyc in simp)
qed

lemma dfs_start_inv: "dfs_inv g dfs_start" "df_stack dfs_start = []"
  by (auto simp: dfs_inv_def dfs_start_def acyclic_def)

lemma card_white_start: "card (white g dfs_start) \<le> length g"
proof -
  have "white g dfs_start = fst ` set g"
    by (auto simp: white_def dfs_start_def dom_map_of_conv_image_fst [symmetric])
  then show ?thesis
    by (metis card_length length_map set_map)
qed

section \<open>Properties\<close>

text \<open>C3: the search terminates within its bound and decides acyclicity of the conflict
  graph: it returns the empty list exactly when no conflict chain leads from a candidate back
  to itself, and otherwise a simple closed chain of conflicts between known candidates.\<close>

theorem firstCycle_correct:
  "\<exists>c. firstCycle g = Some c \<and>
     (if c = [] then acyclic (edges g) else is_cycle g c \<and> \<not> acyclic (edges g))"
proof -
  have keys: "map_of g k \<noteq> None \<longleftrightarrow> k \<in> set (sort_strings (map fst g))" for k
    by (simp add: map_of_eq_None_iff)
  have "\<exists>c. firstCycle g = Some c \<and> (c \<noteq> [] \<longrightarrow> is_cycle g c) \<and>
     (c = [] \<longrightarrow> (\<exists>s'. dfs_step g dfs_start s' \<and>
       (\<forall>k \<in> set (sort_strings (map fst g)). df_state s' k = 2)))"
    unfolding firstCycle_def
    using dfs_start_inv card_white_start [of g] keys
    by (intro visit_keys_correct) (simp_all add: less_Suc_eq_le)
  then obtain c where c: "firstCycle g = Some c" "c \<noteq> [] \<longrightarrow> is_cycle g c"
    and black: "c = [] \<longrightarrow> (\<exists>s'. dfs_step g dfs_start s' \<and>
      (\<forall>k \<in> set (sort_strings (map fst g)). df_state s' k = 2))"
    by blast
  have "acyclic (edges g)" if empty: "c = []"
  proof -
    obtain s' where s': "dfs_inv g s'" and all: "\<And>k. map_of g k \<noteq> None \<Longrightarrow> df_state s' k = 2"
      using black empty keys unfolding dfs_step_def by blast
    have "edges g \<subseteq> {(a, b). edge g a b \<and> df_state s' a = 2}"
      using all by (auto simp: edges_def edge_def)
    then show ?thesis using s' acyclic_subset unfolding dfs_inv_def by blast
  qed
  moreover have "\<not> acyclic (edges g)" if "c \<noteq> []"
  proof -
    have "is_cycle g c" using c(2) that by simp
    then show ?thesis by (rule is_cycle_not_acyclic)
  qed
  ultimately show ?thesis using c by auto
qed

end
