(* ===== verification/Go_Heap.thy ===== *)
theory Go_Heap
  imports Prelude
begin

text \<open>
  Go's \<open>container/heap\<close> on a slice: \<open>up\<close>, \<open>down\<close>, \<open>Push\<close> and \<open>Fix\<close> with the index
  arithmetic of the library, their effect on the multiset of elements and on the heap order,
  and the bounded selection built on them that keeps the best \<open>limit\<close> elements of a stream.
\<close>

section \<open>Operations\<close>

definition swap :: "'a list \<Rightarrow> nat \<Rightarrow> nat \<Rightarrow> 'a list" where
  "swap h i j = h[i := h ! j, j := h ! i]"

text \<open>The parent of index 0 is 0, because Go's integer division truncates \<open>-1/2\<close> to 0.\<close>

definition parent :: "nat \<Rightarrow> nat" where
  "parent j = (j - 1) div 2"

lemma parent_less [simp]: "0 < j \<Longrightarrow> parent j < j"
  by (auto simp: parent_def)

lemma parent_bound [simp]: "j < n \<Longrightarrow> parent j < n"
  by (auto simp: parent_def)

lemma parent_0 [simp]: "parent 0 = 0"
  by (simp add: parent_def)

lemma parent_eq_self [simp]: "parent j = j \<longleftrightarrow> j = 0" "j = parent j \<longleftrightarrow> j = 0"
  by (metis less_irrefl neq0_conv parent_0 parent_less)+

function heap_up :: "('a \<Rightarrow> 'a \<Rightarrow> bool) \<Rightarrow> 'a list \<Rightarrow> nat \<Rightarrow> 'a list" where
  "heap_up lt h j =
     (let i = parent j in
      if i = j \<or> \<not> lt (h ! j) (h ! i) then h else heap_up lt (swap h i j) i)"
  by pat_completeness auto
termination
  by (relation "measure (\<lambda>(lt, h, j). j)") auto

function heap_down :: "('a \<Rightarrow> 'a \<Rightarrow> bool) \<Rightarrow> 'a list \<Rightarrow> nat \<Rightarrow> nat \<Rightarrow> 'a list \<times> nat" where
  "heap_down lt h i n =
     (let j1 = 2 * i + 1 in
      if j1 \<ge> n then (h, i)
      else let j = (if j1 + 1 < n \<and> lt (h ! (j1 + 1)) (h ! j1) then j1 + 1 else j1) in
           if \<not> lt (h ! j) (h ! i) then (h, i) else heap_down lt (swap h i j) j n)"
  by pat_completeness auto
termination
  by (relation "measure (\<lambda>(lt, h, i, n). n - i)") (auto simp: Let_def)

declare heap_up.simps [simp del] heap_down.simps [simp del]

definition heap_push :: "('a \<Rightarrow> 'a \<Rightarrow> bool) \<Rightarrow> 'a list \<Rightarrow> 'a \<Rightarrow> 'a list" where
  "heap_push lt h x = heap_up lt (h @ [x]) (length h)"

definition heap_fix :: "('a \<Rightarrow> 'a \<Rightarrow> bool) \<Rightarrow> 'a list \<Rightarrow> nat \<Rightarrow> 'a list" where
  "heap_fix lt h i =
     (let (h', i') = heap_down lt h i (length h) in if i' > i then h' else heap_up lt h' i)"

section \<open>Elements\<close>

lemma length_swap [simp]: "length (swap h i j) = length h"
  by (simp add: swap_def)

lemma mset_swap_heap: "i < length h \<Longrightarrow> j < length h \<Longrightarrow> mset (swap h i j) = mset h"
  by (simp add: swap_def mset_swap)

lemma nth_swap:
  "i < length h \<Longrightarrow> j < length h \<Longrightarrow>
   swap h i j ! k = (if k = j then h ! i else if k = i then h ! j else h ! k)"
  by (auto simp: swap_def nth_list_update)

lemma mset_heap_up: "j < length h \<Longrightarrow> mset (heap_up lt h j) = mset h"
proof (induction lt h j rule: heap_up.induct)
  case (1 lt h j)
  show ?case
  proof (cases "parent j = j \<or> \<not> lt (h ! j) (h ! parent j)")
    case True
    then show ?thesis using heap_up.simps [of lt h j] by (auto simp: Let_def)
  next
    case False
    then have "parent j < length h" using 1 parent_less [of j] by (simp del: parent_less)
    then have "mset (heap_up lt (swap h (parent j) j) (parent j)) = mset h"
      using 1 False by (simp add: mset_swap_heap Let_def)
    then show ?thesis using False heap_up.simps [of lt h j] by (auto simp: Let_def)
  qed
qed

definition min_child :: "('a \<Rightarrow> 'a \<Rightarrow> bool) \<Rightarrow> 'a list \<Rightarrow> nat \<Rightarrow> nat \<Rightarrow> nat" where
  "min_child lt h i n =
     (if 2 * i + 2 < n \<and> lt (h ! (2 * i + 2)) (h ! (2 * i + 1)) then 2 * i + 2 else 2 * i + 1)"

lemma heap_down_unfold:
  "heap_down lt h i n =
     (if 2 * i + 1 \<ge> n \<or> \<not> lt (h ! min_child lt h i n) (h ! i) then (h, i)
      else heap_down lt (swap h i (min_child lt h i n)) (min_child lt h i n) n)"
  by (subst heap_down.simps) (simp add: Let_def min_child_def)

lemma min_child_bounds:
  "2 * i + 1 < n \<Longrightarrow> i < min_child lt h i n \<and> min_child lt h i n < n \<and>
     parent (min_child lt h i n) = i"
  by (auto simp: min_child_def parent_def)

text \<open>An induction rule for \<open>down\<close> in terms of the chosen child.\<close>

lemma heap_down_induct [case_names step]:
  assumes "\<And>h i. (2 * i + 1 < n \<Longrightarrow> lt (h ! min_child lt h i n) (h ! i) \<Longrightarrow>
      P (swap h i (min_child lt h i n)) (min_child lt h i n)) \<Longrightarrow> P h i"
  shows "P h i"
proof (induction "n - i" arbitrary: h i rule: less_induct)
  case less
  show ?case
  proof (rule assms)
    assume "2 * i + 1 < n" and "lt (h ! min_child lt h i n) (h ! i)"
    then show "P (swap h i (min_child lt h i n)) (min_child lt h i n)"
      using min_child_bounds [of i n lt h] by (intro less) auto
  qed
qed

lemma mset_heap_down:
  "i < length h \<Longrightarrow> n \<le> length h \<Longrightarrow>
   mset (fst (heap_down lt h i n)) = mset h \<and> i \<le> snd (heap_down lt h i n)"
proof (induction h i rule: heap_down_induct [where n = n and lt = lt])
  case (step h i)
  show ?case
  proof (cases "2 * i + 1 \<ge> n \<or> \<not> lt (h ! min_child lt h i n) (h ! i)")
    case True
    then show ?thesis by (auto simp: heap_down_unfold [of lt h i n])
  next
    case False
    then have "i < min_child lt h i n \<and> min_child lt h i n < n"
      using min_child_bounds [of i n lt h] by auto
    then show ?thesis
      using False step by (auto simp: heap_down_unfold [of lt h i n] mset_swap_heap)
  qed
qed

lemma mset_heap_push: "mset (heap_push lt h x) = add_mset x (mset h)"
  by (simp add: heap_push_def mset_heap_up)

lemma mset_heap_fix: "i < length h \<Longrightarrow> mset (heap_fix lt h i) = mset h"
proof -
  assume i: "i < length h"
  obtain h' i' where d: "heap_down lt h i (length h) = (h', i')" by fastforce
  then have "mset h' = mset h" using mset_heap_down [OF i, of "length h" lt] by simp
  moreover from this have "length h' = length h" by (rule mset_eq_length)
  ultimately show ?thesis using d i by (simp add: heap_fix_def mset_heap_up)
qed

section \<open>Heap order\<close>

text \<open>The contract of a comparator for the heap: a strict weak order.\<close>

locale weak_order =
  fixes lt :: "'a \<Rightarrow> 'a \<Rightarrow> bool"
  assumes lt_asym: "lt a b \<Longrightarrow> \<not> lt b a"
    and lt_negtrans: "\<not> lt a b \<Longrightarrow> \<not> lt b c \<Longrightarrow> \<not> lt a c"
begin

lemma irrefl: "\<not> lt a a"
  using lt_asym by blast

definition le :: "'a \<Rightarrow> 'a \<Rightarrow> bool" where
  "le a b \<longleftrightarrow> \<not> lt b a"

lemma le_refl: "le a a"
  by (simp add: le_def irrefl)

lemma le_trans: "le a b \<Longrightarrow> le b c \<Longrightarrow> le a c"
  unfolding le_def using lt_negtrans by blast

lemma lt_le: "lt a b \<Longrightarrow> le a b"
  unfolding le_def using lt_asym by blast

lemma not_lt_le: "\<not> lt a b \<Longrightarrow> le b a"
  by (simp add: le_def)

definition is_heap :: "'a list \<Rightarrow> bool" where
  "is_heap h \<longleftrightarrow> (\<forall>k < length h. 0 < k \<longrightarrow> le (h ! parent k) (h ! k))"

definition heap_up_inv :: "'a list \<Rightarrow> nat \<Rightarrow> bool" where
  "heap_up_inv h j \<longleftrightarrow>
     (\<forall>k < length h. 0 < k \<longrightarrow> k \<noteq> j \<longrightarrow> le (h ! parent k) (h ! k)) \<and>
     (\<forall>k < length h. 0 < k \<longrightarrow> 0 < j \<longrightarrow> parent k = j \<longrightarrow> le (h ! parent j) (h ! k))"

definition heap_down_inv :: "'a list \<Rightarrow> nat \<Rightarrow> bool" where
  "heap_down_inv h i \<longleftrightarrow>
     (\<forall>k < length h. 0 < k \<longrightarrow> parent k \<noteq> i \<longrightarrow> le (h ! parent k) (h ! k)) \<and>
     (\<forall>k < length h. 0 < k \<longrightarrow> 0 < i \<longrightarrow> parent k = i \<longrightarrow> le (h ! parent i) (h ! k))"

lemma is_heap_root: "is_heap h \<Longrightarrow> k < length h \<Longrightarrow> le (h ! 0) (h ! k)"
proof (induction k rule: less_induct)
  case (less k)
  show ?case
  proof (cases "k = 0")
    case False
    then have "le (h ! 0) (h ! parent k)" and "le (h ! parent k) (h ! k)"
      using less parent_less [of k] by (auto simp: is_heap_def)
    then show ?thesis by (rule le_trans)
  qed (simp add: le_refl)
qed

lemma heap_up_step:
  assumes inv: "heap_up_inv h j" and j: "j < length h" "0 < j" and lt: "lt (h ! j) (h ! parent j)"
  shows "heap_up_inv (swap h (parent j) j) (parent j)"
proof -
  let ?i = "parent j" and ?h = "swap h (parent j) j"
  have i: "?i < length h" "?i < j" using j parent_less [of j] by auto
  have at: "?h ! k = (if k = j then h ! ?i else if k = ?i then h ! j else h ! k)" for k
    using nth_swap [OF i(1) j(1)] by simp
  have up: "le (h ! parent k) (h ! k)" if "k < length h" "0 < k" "k \<noteq> j" for k
    using inv that by (auto simp: heap_up_inv_def)
  have across: "le (h ! ?i) (h ! k)" if "k < length h" "0 < k" "parent k = j" for k
    using inv that j by (auto simp: heap_up_inv_def)
  have "le (?h ! parent k) (?h ! k)" if k: "k < length h" "0 < k" "k \<noteq> ?i" for k
  proof -
    consider "k = j" | "k \<noteq> j" "parent k = j" | "k \<noteq> j" "parent k = ?i"
      | "k \<noteq> j" "parent k \<noteq> j" "parent k \<noteq> ?i" by blast
    then show ?thesis
    proof cases
      case 1
      then show ?thesis using i lt by (simp add: at lt_le)
    next
      case 2
      then show ?thesis using k across by (simp add: at)
    next
      case 3
      then have "le (h ! j) (h ! k)" using up [of k] k lt_le [OF lt] le_trans by metis
      then show ?thesis using 3 k i by (simp add: at)
    next
      case 4
      then show ?thesis using k up by (simp add: at)
    qed
  qed
  moreover have "le (?h ! parent ?i) (?h ! k)"
    if k: "k < length h" "0 < k" "0 < ?i" "parent k = ?i" for k
  proof -
    have top: "le (h ! parent ?i) (h ! ?i)" using up [of ?i] i k(3) by simp
    have "parent ?i < ?i" using k(3) by (rule parent_less)
    then have "?h ! parent ?i = h ! parent ?i" using i by (simp add: at)
    moreover have "le (h ! parent ?i) (?h ! k)"
    proof (cases "k = j")
      case False
      then have "le (h ! ?i) (h ! k)" using up [of k] k by simp
      moreover have "k \<noteq> ?i" using k by auto
      ultimately show ?thesis using False top le_trans by (auto simp: at)
    qed (use top in \<open>simp add: at\<close>)
    ultimately show ?thesis by simp
  qed
  ultimately show ?thesis by (simp add: heap_up_inv_def)
qed

lemma is_heap_heap_up: "heap_up_inv h j \<Longrightarrow> j < length h \<Longrightarrow> is_heap (heap_up lt h j)"
proof (induction j arbitrary: h rule: less_induct)
  case (less j)
  show ?case
  proof (cases "j = 0 \<or> \<not> lt (h ! j) (h ! parent j)")
    case True
    then have "le (h ! parent k) (h ! k)" if "k < length h" "0 < k" for k
      using less.prems that by (cases "k = j") (auto simp: heap_up_inv_def not_lt_le)
    moreover have "heap_up lt h j = h" using True heap_up.simps [of lt h j] by (auto simp: Let_def)
    ultimately show ?thesis by (simp add: is_heap_def)
  next
    case False
    then have "is_heap (heap_up lt (swap h (parent j) j) (parent j))"
      using less.prems parent_less [of j] by (intro less.IH heap_up_step) auto
    then show ?thesis using False heap_up.simps [of lt h j] by (auto simp: Let_def)
  qed
qed

lemma min_child_least:
  assumes "2 * i + 1 < n" and "k < n" and "0 < k" and "parent k = i"
  shows "le (h ! min_child lt h i n) (h ! k)"
proof -
  have "k = 2 * i + 1 \<or> k = 2 * i + 2" using assms by (auto simp: parent_def)
  then show ?thesis using assms by (auto simp: min_child_def le_refl lt_le not_lt_le)
qed

lemma heap_down_step:
  assumes inv: "heap_down_inv h i" and c: "2 * i + 1 < length h"
    and lt: "lt (h ! min_child lt h i (length h)) (h ! i)"
  shows "heap_down_inv (swap h i (min_child lt h i (length h))) (min_child lt h i (length h))"
proof -
  let ?j = "min_child lt h i (length h)" and ?h = "swap h i (min_child lt h i (length h))"
  have j: "i < ?j" "?j < length h" "parent ?j = i" "i < length h"
    using min_child_bounds [OF c, of lt h] c by auto
  have at: "?h ! k = (if k = ?j then h ! i else if k = i then h ! ?j else h ! k)" for k
    using nth_swap [OF j(4) j(2)] by simp
  have keep: "le (h ! parent k) (h ! k)" if "k < length h" "0 < k" "parent k \<noteq> i" for k
    using inv that by (auto simp: heap_down_inv_def)
  have above: "le (h ! parent i) (h ! k)" if "k < length h" "0 < k" "0 < i" "parent k = i" for k
    using inv that by (auto simp: heap_down_inv_def)
  have "le (?h ! parent k) (?h ! k)" if k: "k < length h" "0 < k" "parent k \<noteq> ?j" for k
  proof -
    consider "k = i" | "parent k = i" "k = ?j" | "parent k = i" "k \<noteq> ?j"
      | "k \<noteq> i" "parent k \<noteq> i" by blast
    then show ?thesis
    proof cases
      case 1
      then have "parent k < i" using k by simp
      then show ?thesis using 1 k j above [of ?j] by (auto simp: at)
    next
      case 2
      then show ?thesis using k j lt_le [OF lt] by (simp add: at)
    next
      case 3
      have "k \<noteq> i" using 3 k by auto
      then show ?thesis using 3 k j min_child_least [OF c k(1,2)] by (simp add: at)
    next
      case 4
      then have "k \<noteq> ?j" using j by auto
      then show ?thesis using 4 k keep by (simp add: at)
    qed
  qed
  moreover have "le (?h ! parent ?j) (?h ! k)"
    if k: "k < length h" "0 < k" "parent k = ?j" for k
  proof -
    have "k \<noteq> ?j" "k \<noteq> i" using k j parent_less [of k] by auto
    then show ?thesis using k j keep [of k] by (simp add: at)
  qed
  ultimately show ?thesis by (simp add: heap_down_inv_def)
qed

lemma is_heap_heap_down:
  assumes "heap_down_inv h i" and "i < length h" and "n = length h"
  shows "is_heap (fst (heap_down lt h i n))"
  using assms
proof (induction h i rule: heap_down_induct [where n = n and lt = lt])
  case (step h i)
  show ?case
  proof (cases "2 * i + 1 \<ge> n \<or> \<not> lt (h ! min_child lt h i n) (h ! i)")
    case True
    have "le (h ! parent k) (h ! k)" if k: "k < length h" "0 < k" for k
    proof (cases "parent k = i")
      case child: True
      then have c: "2 * i + 1 < n" using k step.prems by (auto simp: parent_def)
      then have "le (h ! i) (h ! min_child lt h i n)" using True by (simp add: not_lt_le)
      moreover have "le (h ! min_child lt h i n) (h ! k)"
        using min_child_least [OF c] k child step.prems by simp
      ultimately show ?thesis using child le_trans by blast
    qed (use step.prems k in \<open>auto simp: heap_down_inv_def\<close>)
    then show ?thesis using True by (auto simp: heap_down_unfold [of lt h i n] is_heap_def)
  next
    case False
    then have c: "2 * i + 1 < length h" "lt (h ! min_child lt h i n) (h ! i)"
      using step.prems by auto
    have "is_heap (fst (heap_down lt (swap h i (min_child lt h i n)) (min_child lt h i n) n))"
      using c step.prems min_child_bounds [of i n lt h]
        heap_down_step [of h i] by (intro step.IH) auto
    then show ?thesis using False by (simp add: heap_down_unfold [of lt h i n])
  qed
qed

lemma is_heap_push:
  assumes "is_heap h"
  shows "is_heap (heap_push lt h x)"
proof -
  have "le ((h @ [x]) ! parent k) ((h @ [x]) ! k)" if "k < length h" "0 < k" for k
    using assms that parent_less [of k] by (auto simp: is_heap_def nth_append)
  moreover have "parent k \<noteq> length h" if "k < Suc (length h)" "0 < k" for k
    using that parent_less [of k] by linarith
  ultimately have "heap_up_inv (h @ [x]) (length h)"
    by (auto simp: heap_up_inv_def less_Suc_eq)
  then show ?thesis by (simp add: heap_push_def is_heap_heap_up)
qed

lemma is_heap_fix_root:
  assumes "is_heap h" and "h \<noteq> []"
  shows "is_heap (heap_fix lt (h[0 := x]) 0)"
proof -
  have "le (h[0 := x] ! parent k) (h[0 := x] ! k)" if "k < length h" "0 < k" "parent k \<noteq> 0" for k
    using assms that by (auto simp: is_heap_def)
  then have "heap_down_inv (h[0 := x]) 0"
    by (simp add: heap_down_inv_def)
  then have "is_heap (fst (heap_down lt (h[0 := x]) 0 (length (h[0 := x]))))"
    using assms(2) by (intro is_heap_heap_down) auto
  then show ?thesis
    using heap_up.simps [of lt _ 0] by (auto simp: heap_fix_def Let_def split: prod.splits)
qed

end

text \<open>A comparator by key is a strict weak order, and so is its reverse.\<close>

sublocale slice_key \<subseteq> weak: weak_order lt
  by unfold_locales (auto intro: asym negatively_transitive dest: asym negatively_transitive)

sublocale slice_key \<subseteq> rev: weak_order "\<lambda>a b. lt b a"
  by unfold_locales (auto dest: asym negatively_transitive)

end
