(* ===== verification/Boundary_Engine.thy ===== *)
theory Boundary_Engine
  imports Boundary_Decision Boundary_Resolve Go_Heap
begin

text \<open>
  \<open>internal/boundary/engine.go\<close>: every candidate is evaluated against the built-in and the
  extension packs, each match becomes a ranked decision, and a bounded heap keeps the
  \<open>MaxDecisions\<close> most authoritative ones, which are returned in a canonical order.
\<close>

abbreviation MaxDecisions :: nat where "MaxDecisions \<equiv> 256"

record discovery_context =
  cx_Candidates :: "candidate list"
  cx_MetadataEntries :: int
  cx_TargetedReads :: int

record ranked_decision =
  rd_decision :: boundary_decision
  rd_authority :: int
  rd_candidateOrder :: nat

definition outcomePriority :: "string \<Rightarrow> int" where
  "outcomePriority outcome =
     (if outcome = OutcomeBlock then 4 else if outcome = OutcomeClarify then 3
      else if outcome = OutcomeWarn then 2 else 1)"

definition betterDecision :: "ranked_decision \<Rightarrow> ranked_decision \<Rightarrow> bool" where
  "betterDecision left right =
     (let l = rd_decision left; r = rd_decision right in
      if rd_authority left \<noteq> rd_authority right then rd_authority left > rd_authority right
      else if outcomePriority (bd_Outcome l) \<noteq> outcomePriority (bd_Outcome r) then
        outcomePriority (bd_Outcome l) > outcomePriority (bd_Outcome r)
      else if bd_Risk l \<noteq> bd_Risk r then bd_Risk l > bd_Risk r
      else if rd_candidateOrder left \<noteq> rd_candidateOrder right then
        rd_candidateOrder left < rd_candidateOrder right
      else if bd_PackID l \<noteq> bd_PackID r then bd_PackID l < bd_PackID r
      else if bd_RuleID l \<noteq> bd_RuleID r then bd_RuleID l < bd_RuleID r
      else bd_SourceRef l < bd_SourceRef r)"

text \<open>\<open>decisionHeap.Less\<close>: the root of the heap is the worst retained decision.\<close>

definition heapLess :: "ranked_decision \<Rightarrow> ranked_decision \<Rightarrow> bool" where
  "heapLess a b = betterDecision b a"

definition selectDecision :: "ranked_decision list \<Rightarrow> ranked_decision \<Rightarrow> ranked_decision list" where
  "selectDecision selected entry =
     (if length selected < MaxDecisions then heap_push heapLess selected entry
      else if betterDecision entry (selected ! 0)
      then heap_fix heapLess (selected[0 := entry]) 0
      else selected)"

definition normalizedCandidateFacts :: "candidate \<Rightarrow> bool \<Rightarrow> facts" where
  "normalizedCandidateFacts c conflicted =
     (let fs = (ca_Facts c)(''category'' \<mapsto> ca_Category c);
          fs = fs(''source_kind'' \<mapsto> ca_SourceKind c)
      in if conflicted then fs(''conflicted'' \<mapsto> ''true'') else fs)"

definition match_decision :: "string list \<Rightarrow> nat \<Rightarrow> candidate \<Rightarrow> match \<Rightarrow> ranked_decision" where
  "match_decision cycle order c m =
     (let risk = rl_RiskScore (mt_Rule m);
          outcome = (if length cycle > 0 \<and> risk \<ge> 50 then OutcomeBlock
                     else rl_Outcome (mt_Rule m))
      in \<lparr>rd_decision =
            \<lparr>bd_Category = rl_Category (mt_Rule m), bd_Outcome = outcome, bd_Risk = risk,
             bd_RiskLevel = riskLevel risk, bd_Confidence = ca_Confidence c,
             bd_SourceRef = ca_SourceRef c, bd_PackID = mt_PackID m,
             bd_RuleID = rl_ID (mt_Rule m), bd_Version = mt_PackVersion m,
             bd_Explanation = rl_Explanation (mt_Rule m),
             bd_ConflictRefs = sort_strings (ca_Conflicts c)\<rparr>,
          rd_authority = authority (ca_SourceKind c), rd_candidateOrder = order\<rparr>)"

fun evaluateCandidates ::
  "pack list \<Rightarrow> pack list \<Rightarrow> resolution \<Rightarrow> nat \<Rightarrow> ranked_decision list \<Rightarrow> candidate list \<Rightarrow>
   ranked_decision list go_result" where
  "evaluateCandidates packs extensions res order selected [] = Inr selected"
| "evaluateCandidates packs extensions res order selected (c # cs) =
     (let fs = normalizedCandidateFacts c (rs_Conflicted res (ca_ID c)) in
      case pack_Evaluate packs fs of
        Inl e \<Rightarrow> Inl e
      | Inr matches \<Rightarrow>
          (case pack_Evaluate extensions fs of
             Inl e \<Rightarrow> Inl e
           | Inr extensionMatches \<Rightarrow>
               evaluateCandidates packs extensions res (Suc order)
                 (foldl selectDecision selected
                    (map (match_decision (rs_Cycle res) order c) (matches @ extensionMatches)))
                 cs))"

definition decision_less :: "boundary_decision \<Rightarrow> boundary_decision \<Rightarrow> bool" where
  "decision_less left right =
     (if bd_PackID left \<noteq> bd_PackID right then bd_PackID left < bd_PackID right
      else if bd_RuleID left \<noteq> bd_RuleID right then bd_RuleID left < bd_RuleID right
      else bd_SourceRef left < bd_SourceRef right)"

text \<open>\<open>builtin.Load()\<close> is the first argument: the embedded packs or its error.\<close>

definition EvaluateContext ::
  "pack list go_result \<Rightarrow> discovery_context \<Rightarrow> pack list \<Rightarrow> boundary_decision list go_result" where
  "EvaluateContext load discovered extensions =
     (case load of
        Inl e \<Rightarrow> Inl e
      | Inr packs \<Rightarrow>
          (case ValidateExtensions extensions of
             Inl e \<Rightarrow> Inl e
           | Inr _ \<Rightarrow>
               if list_ex (\<lambda>p. pack_key p \<in> set (map pack_key packs)) extensions then
                 Inl (NewError ErrorCodeInvalidSchema
                   ''extension pack duplicates built-in identity'' ''policy_pack'' False)
               else
                 let res = boundary_Resolve (cx_Candidates discovered) in
                 case evaluateCandidates packs extensions res 0 [] (rs_Candidates res) of
                   Inl e \<Rightarrow> Inl e
                 | Inr selected \<Rightarrow>
                     Inr (sort_slice decision_less (map rd_decision selected))))"

section \<open>Library: the orders\<close>

definition rank_key ::
  "ranked_decision \<Rightarrow> int \<times> int \<times> int \<times> nat \<times> string \<times> string \<times> string" where
  "rank_key e =
     (- rd_authority e, - outcomePriority (bd_Outcome (rd_decision e)),
      - bd_Risk (rd_decision e), rd_candidateOrder e, bd_PackID (rd_decision e),
      bd_RuleID (rd_decision e), bd_SourceRef (rd_decision e))"

interpretation better_order: slice_key betterDecision rank_key
  by unfold_locales (auto simp: betterDecision_def rank_key_def Let_def)

interpretation decision_heap: weak_order heapLess
  by unfold_locales (auto simp: heapLess_def dest: better_order.asym better_order.negatively_transitive)

definition decision_key :: "boundary_decision \<Rightarrow> string \<times> string \<times> string" where
  "decision_key d = (bd_PackID d, bd_RuleID d, bd_SourceRef d)"

interpretation decision_order: slice_key decision_less decision_key
  by unfold_locales (auto simp: decision_less_def decision_key_def)

section \<open>Library: bounded selection\<close>

text \<open>
  The selection after a stream of entries: a heap of the retained entries, the dropped ones
  account for the rest, and no dropped entry is better than a retained one.
\<close>

definition selection ::
  "ranked_decision multiset \<Rightarrow> ranked_decision list \<Rightarrow> ranked_decision multiset \<Rightarrow> bool" where
  "selection entries selected dropped \<longleftrightarrow>
     decision_heap.is_heap selected \<and> mset selected + dropped = entries \<and>
     length selected = min MaxDecisions (size entries) \<and>
     (\<forall>d \<in># dropped. \<forall>x \<in> set selected. \<not> betterDecision d x)"

lemma heap_root_worst:
  assumes "decision_heap.is_heap h" and "x \<in> set h" and "\<not> betterDecision d (h ! 0)"
  shows "\<not> betterDecision d x"
proof -
  obtain k where "k < length h" and x: "x = h ! k" using assms(2) by (auto simp: in_set_conv_nth)
  then have "decision_heap.le (h ! 0) x" using decision_heap.is_heap_root [OF assms(1)] by simp
  then have "\<not> betterDecision (h ! 0) x" by (simp add: decision_heap.le_def heapLess_def)
  with assms(3) show ?thesis by (rule better_order.negatively_transitive)
qed

lemma selection_push:
  assumes sel: "selection es h dr" and room: "length h < MaxDecisions"
  shows "selection (add_mset e es) (heap_push heapLess h e) dr"
proof -
  have "size es < MaxDecisions" using sel room by (auto simp: selection_def min_def split: if_splits)
  moreover have sz: "length h + size dr = size es" using sel
    by (auto simp: selection_def simp flip: size_mset)
  moreover have "length h = size es" using sel calculation by (simp add: selection_def)
  ultimately have "dr = {#}" by simp
  moreover have "length (heap_push heapLess h e) = Suc (length h)"
    by (metis mset_heap_push size_add_mset size_mset)
  ultimately show ?thesis
    using sel \<open>size es < MaxDecisions\<close>
    by (auto simp: selection_def mset_heap_push decision_heap.is_heap_push)
qed

lemma selection_replace:
  assumes sel: "selection es h dr" and full: "\<not> length h < MaxDecisions"
    and better: "betterDecision e (h ! 0)"
  shows "selection (add_mset e es) (heap_fix heapLess (h[0 := e]) 0) (add_mset (h ! 0) dr)"
proof -
  let ?h = "heap_fix heapLess (h[0 := e]) 0"
  have heap: "decision_heap.is_heap h" and len: "length h = MaxDecisions"
    using sel full by (auto simp: selection_def)
  have ne: "h \<noteq> []" "0 < length h" using len by auto
  have ms: "mset h = add_mset (h ! 0) (mset (tl h))" using ne by (cases h) auto
  have upd: "mset (h[0 := e]) = add_mset e (mset (tl h))" using ne by (cases h) auto
  have h': "mset ?h = add_mset e (mset (tl h))"
    using ne upd by (subst mset_heap_fix) auto
  have set': "set ?h = insert e (set (tl h))"
    using h' by (metis set_mset_add_mset_insert set_mset_mset)
  have worst: "\<not> betterDecision (h ! 0) x" if "x \<in> set h" for x
    using heap_root_worst [OF heap that] better_order.asym by blast
  have tl: "set (tl h) \<subseteq> set h" using ne by (simp add: list.set_sel(2) subsetI)
  have "\<not> betterDecision d x" if d: "d \<in># add_mset (h ! 0) dr" and x: "x \<in> set ?h" for d x
  proof -
    have "\<not> betterDecision d (h ! 0)"
    proof (cases "d = h ! 0")
      case True
      then show ?thesis using worst [of "h ! 0"] ne by simp
    next
      case False
      then have "d \<in># dr" using d by simp
      moreover have "h ! 0 \<in> set h" using ne by simp
      ultimately show ?thesis using sel unfolding selection_def by blast
    qed
    moreover have "\<not> betterDecision (h ! 0) x"
      using x set' worst tl better_order.asym [OF better] by auto
    ultimately show ?thesis by (rule better_order.negatively_transitive)
  qed
  moreover have "length ?h = MaxDecisions"
    using h' len ne by (metis ms size_add_mset size_mset)
  moreover have "MaxDecisions \<le> size es" using sel len by (auto simp: selection_def)
  ultimately show ?thesis
    using sel h' ms decision_heap.is_heap_fix_root [OF heap ne(1)]
    by (auto simp: selection_def)
qed

lemma selection_step:
  assumes "selection es h dr"
  shows "\<exists>dr'. selection (add_mset e es) (selectDecision h e) dr'"
proof (cases "length h < MaxDecisions")
  case True
  then show ?thesis using selection_push [OF assms] by (auto simp: selectDecision_def)
next
  case full: False
  show ?thesis
  proof (cases "betterDecision e (h ! 0)")
    case True
    then show ?thesis using selection_replace [OF assms full] full by (auto simp: selectDecision_def)
  next
    case False
    have "selection (add_mset e es) h (add_mset e dr)"
      using assms full heap_root_worst [OF _ _ False] by (auto simp: selection_def)
    then show ?thesis using full False by (auto simp: selectDecision_def)
  qed
qed

lemma selection_foldl:
  "selection es h dr \<Longrightarrow> \<exists>dr'. selection (es + mset xs) (foldl selectDecision h xs) dr'"
proof (induction xs arbitrary: es h dr)
  case (Cons x xs)
  then obtain dr1 where "selection (add_mset x es) (selectDecision h x) dr1"
    using selection_step by blast
  then obtain dr' where
    "selection (add_mset x es + mset xs) (foldl selectDecision (selectDecision h x) xs) dr'"
    using Cons.IH by blast
  then show ?case by auto
qed auto

lemma selection_subset: "selection (mset xs) kept dr \<Longrightarrow> set kept \<subseteq> set xs"
  unfolding selection_def by (metis Un_upper1 set_mset_mset set_mset_union)

lemma selection_empty: "selection {#} [] {#}"
  by (simp add: selection_def decision_heap.is_heap_def)

section \<open>Library: all ranked decisions of a context\<close>

definition candidate_decisions ::
  "pack list \<Rightarrow> resolution \<Rightarrow> nat \<Rightarrow> candidate \<Rightarrow> ranked_decision list" where
  "candidate_decisions packs res order c =
     map (match_decision (rs_Cycle res) order c)
       (sort_slice match_less (concat (map (pack_matches
          (normalizedCandidateFacts c (rs_Conflicted res (ca_ID c)))) packs)))"

fun all_decisions ::
  "pack list \<Rightarrow> pack list \<Rightarrow> resolution \<Rightarrow> nat \<Rightarrow> candidate list \<Rightarrow> ranked_decision list" where
  "all_decisions packs extensions res order [] = []"
| "all_decisions packs extensions res order (c # cs) =
     candidate_decisions packs res order c @ candidate_decisions extensions res order c @
     all_decisions packs extensions res (Suc order) cs"

lemma evaluateCandidates_eq:
  assumes "wf_packs packs" and "wf_packs extensions"
  shows "evaluateCandidates packs extensions res order selected cs =
    Inr (foldl selectDecision selected (all_decisions packs extensions res order cs))"
proof (induction cs arbitrary: order selected)
  case (Cons c cs)
  then show ?case
    using assms by (simp add: pack_Evaluate_ok candidate_decisions_def Let_def)
qed simp

lemma EvaluateContext_ok:
  assumes "load = Inr packs" and "wf_packs packs" and "ValidateExtensions extensions = Inr ()"
    and "set (map pack_key extensions) \<inter> set (map pack_key packs) = {}"
  shows "\<exists>selected dropped.
    EvaluateContext load discovered extensions =
      Inr (sort_slice decision_less (map rd_decision selected)) \<and>
    selection (mset (all_decisions packs extensions
      (boundary_Resolve (cx_Candidates discovered)) 0
      (rs_Candidates (boundary_Resolve (cx_Candidates discovered))))) selected dropped"
proof -
  let ?res = "boundary_Resolve (cx_Candidates discovered)"
  let ?all = "all_decisions packs extensions ?res 0 (rs_Candidates ?res)"
  have wf: "wf_packs extensions" using assms(3) by (simp add: ValidateExtensions_ok)
  have "\<not> list_ex (\<lambda>p. pack_key p \<in> set (map pack_key packs)) extensions"
    using assms(4) by (auto simp: list_ex_iff)
  then have "EvaluateContext load discovered extensions =
      Inr (sort_slice decision_less (map rd_decision (foldl selectDecision [] ?all)))"
    using assms(1,3) evaluateCandidates_eq [OF assms(2) wf]
    by (simp add: EvaluateContext_def Let_def)
  then show ?thesis using selection_foldl [OF selection_empty, of ?all] by auto
qed

lemma match_decision_sel [simp]:
  "rd_authority (match_decision cycle order c m) = authority (ca_SourceKind c)"
  "bd_Risk (rd_decision (match_decision cycle order c m)) = rl_RiskScore (mt_Rule m)"
  "bd_Outcome (rd_decision (match_decision cycle order c m)) =
     (if cycle \<noteq> [] \<and> 50 \<le> rl_RiskScore (mt_Rule m) then OutcomeBlock
      else rl_Outcome (mt_Rule m))"
  by (simp_all add: match_decision_def Let_def)

lemma candidate_decisions_Nil [simp]: "candidate_decisions [] res order c = []"
  by (simp add: candidate_decisions_def)

lemma mset_all_decisions_extensions:
  "mset (all_decisions packs [] res order cs) \<subseteq># mset (all_decisions packs extensions res order cs)"
proof (induction cs arbitrary: order)
  case (Cons c cs)
  have "mset (all_decisions packs [] res (Suc order) cs) \<subseteq>#
      mset (candidate_decisions extensions res order c) +
      mset (all_decisions packs extensions res (Suc order) cs)"
    using Cons [of "Suc order"] by (rule subset_mset.add_increasing [rotated]) simp
  then show ?case by simp
qed simp

lemma all_decisions_cycle:
  assumes "rs_Cycle res \<noteq> []" and "e \<in> set (all_decisions packs extensions res order cs)"
    and "50 \<le> bd_Risk (rd_decision e)"
  shows "bd_Outcome (rd_decision e) = OutcomeBlock"
  using assms(2,3)
proof (induction cs arbitrary: order)
  case (Cons c cs)
  then consider "e \<in> set (candidate_decisions packs res order c)"
    | "e \<in> set (candidate_decisions extensions res order c)"
    | "e \<in> set (all_decisions packs extensions res (Suc order) cs)" by auto
  then show ?case
    using Cons assms(1) by cases (auto simp: candidate_decisions_def)
qed simp

section \<open>Properties\<close>

text \<open>C4: evaluating a context returns the best decisions. With valid packs the call succeeds;
  its result, in canonical order, is the multiset of all ranked decisions when they number at
  most 256, and otherwise 256 of them, none of which is worse in the ranking by authority,
  outcome, risk and candidate order than any decision left out.\<close>

theorem evaluate_context_selects_best:
  assumes "load = Inr packs" and "ValidateSet packs = Inr ()"
    and "ValidateExtensions extensions = Inr ()"
    and "set (map pack_key extensions) \<inter> set (map pack_key packs) = {}"
    and "res = boundary_Resolve (cx_Candidates discovered)"
    and "every = all_decisions packs extensions res 0 (rs_Candidates res)"
  shows "\<exists>ds kept dropped. EvaluateContext load discovered extensions = Inr ds \<and>
    mset ds = mset (map rd_decision kept) \<and> mset kept + mset dropped = mset every \<and>
    length ds = min MaxDecisions (length every) \<and> sorted (map decision_key ds) \<and>
    (\<forall>d \<in> set dropped. \<forall>k \<in> set kept. \<not> betterDecision d k)"
proof -
  have "wf_packs packs" using assms(2) by simp
  from EvaluateContext_ok [OF assms(1) this assms(3,4), of discovered]
  obtain kept dr where ds: "EvaluateContext load discovered extensions =
      Inr (sort_slice decision_less (map rd_decision kept))"
    and sel: "selection (mset every) kept dr" using assms(5,6) by auto
  obtain dropped where dr: "mset dropped = dr" using ex_mset by blast
  have "length kept = min MaxDecisions (length every)" and "mset kept + dr = mset every"
    using sel by (simp_all add: selection_def)
  moreover have "\<forall>d \<in> set dropped. \<forall>k \<in> set kept. \<not> betterDecision d k"
    using sel dr by (auto simp: selection_def)
  ultimately show ?thesis
    using ds dr decision_order.sorted_sort_slice
    by (intro exI [of _ "sort_slice decision_less (map rd_decision kept)"] exI [of _ kept]
        exI [of _ dropped]) simp
qed

theorem evaluate_context_selects_best_witness:
  "\<exists>ds. EvaluateContext (Inr [sample_pack ''p'']) 
     \<lparr>cx_Candidates = [], cx_MetadataEntries = 0, cx_TargetedReads = 0\<rparr> [sample_pack ''q''] = Inr ds"
proof -
  have "ValidateSet [sample_pack ''p''] = Inr ()"
    by (simp add: wf_packs_def wf_sample_pack)
  moreover have "ValidateExtensions [sample_pack ''q''] = Inr ()"
    by (simp add: ValidateExtensions_ok wf_packs_def wf_sample_pack)
       (simp add: sample_pack_def sample_rule_def)
  moreover have "set (map pack_key [sample_pack ''q'']) \<inter> set (map pack_key [sample_pack ''p'']) = {}"
    by (simp add: pack_key_def sample_pack_def)
  ultimately show ?thesis
    using evaluate_context_selects_best
      [of "Inr [sample_pack ''p'']" "[sample_pack ''p'']" "[sample_pack ''q'']" _
        "\<lparr>cx_Candidates = [], cx_MetadataEntries = 0, cx_TargetedReads = 0\<rparr>"] by blast
qed

text \<open>A conflict cycle fails closed. When the conflict graph of the candidates has a
  cycle, every returned decision of risk 50 or more is a block, whatever its rule says.\<close>

theorem evaluate_context_cycle_blocks:
  assumes "EvaluateContext load discovered extensions = Inr ds"
    and "rs_Cycle (boundary_Resolve (cx_Candidates discovered)) \<noteq> []"
    and "load = Inr packs" and "ValidateSet packs = Inr ()"
    and "d \<in> set ds" and "50 \<le> bd_Risk d"
  shows "bd_Outcome d = OutcomeBlock"
proof -
  let ?res = "boundary_Resolve (cx_Candidates discovered)"
  let ?all = "all_decisions packs extensions ?res 0 (rs_Candidates ?res)"
  have ext: "ValidateExtensions extensions = Inr ()"
    and dis: "set (map pack_key extensions) \<inter> set (map pack_key packs) = {}"
    using assms(1,3) by (auto simp: EvaluateContext_def list_ex_iff split: sum.splits if_splits)
  obtain kept dr where "ds = sort_slice decision_less (map rd_decision kept)"
    and "selection (mset ?all) kept dr"
    using EvaluateContext_ok [OF assms(3) _ ext dis, of discovered] assms(1,4) by auto
  then obtain e where "e \<in> set ?all" "d = rd_decision e"
    using assms(5) selection_subset by fastforce
  then show ?thesis using all_decisions_cycle [OF assms(2)] assms(6) by blast
qed

definition sample_context :: discovery_context where
  "sample_context = \<lparr>cx_Candidates =
     [\<lparr>ca_ID = ''a'', ca_Category = ''scope'', ca_SourceKind = ''user_request'',
       ca_SourceRef = ''a'', ca_Confidence = 1, ca_Specificity = 1,
       ca_Facts = [''phase'' \<mapsto> ''design''], ca_Conflicts = [''a'']\<rparr>],
     cx_MetadataEntries = 1, cx_TargetedReads = 0\<rparr>"

lemma sample_context_resolve:
  "rs_Candidates (boundary_Resolve (cx_Candidates sample_context)) = cx_Candidates sample_context"
  "rs_Cycle (boundary_Resolve (cx_Candidates sample_context)) = [''a'', ''a'']"
  by (simp_all add: boundary_Resolve_def sample_context_def sort_slice_def sort_strings_def
      firstCycle_def dfs_start_def Let_def)

lemma sample_context_evaluate:
  "\<exists>d. EvaluateContext (Inr [sample_pack ''p'']) sample_context [] = Inr [d] \<and> bd_Risk d = 50"
proof -
  have wf: "wf_packs [sample_pack ''p'']" "wf_packs []"
    by (simp_all add: wf_packs_def wf_sample_pack)
  have none: "ValidateExtensions [] = Inr ()" by (simp add: ValidateExtensions_ok wf)
  show ?thesis
    unfolding EvaluateContext_def
    by (simp add: none Let_def evaluateCandidates_eq [OF wf] sample_context_resolve)
       (simp add: sample_context_def candidate_decisions_def pack_matches_def sample_pack_def
          sample_rule_def normalizedCandidateFacts_def condition_fails_def sort_slice_def
          selectDecision_def heap_push_def heap_up.simps Let_def)
qed

theorem evaluate_context_cycle_blocks_witness:
  "\<exists>d. EvaluateContext (Inr [sample_pack ''p'']) sample_context [] = Inr [d] \<and>
     bd_Outcome d = OutcomeBlock"
proof -
  obtain d where d: "EvaluateContext (Inr [sample_pack ''p'']) sample_context [] = Inr [d]"
    "bd_Risk d = 50" using sample_context_evaluate by blast
  have "bd_Outcome d = OutcomeBlock"
    by (rule evaluate_context_cycle_blocks [where packs = "[sample_pack ''p'']", OF d(1)])
       (simp_all add: sample_context_resolve wf_packs_def wf_sample_pack d(2))
  with d show ?thesis by blast
qed

text \<open>Extension packs can add decisions but not remove or soften built-in ones: as long
  as the decisions fit the bound of 256, every decision of the run without extensions is
  returned by the run with them.\<close>

theorem extensions_only_add:
  assumes "ValidateSet packs = Inr ()" and "ValidateExtensions extensions = Inr ()"
    and "set (map pack_key extensions) \<inter> set (map pack_key packs) = {}"
    and "length (all_decisions packs extensions (boundary_Resolve (cx_Candidates discovered)) 0
           (rs_Candidates (boundary_Resolve (cx_Candidates discovered)))) \<le> MaxDecisions"
  shows "\<exists>ds ds'. EvaluateContext (Inr packs) discovered [] = Inr ds \<and>
    EvaluateContext (Inr packs) discovered extensions = Inr ds' \<and> mset ds \<subseteq># mset ds'"
proof -
  let ?res = "boundary_Resolve (cx_Candidates discovered)"
  let ?all = "\<lambda>exts. all_decisions packs exts ?res 0 (rs_Candidates ?res)"
  have wf: "wf_packs packs" using assms(1) by simp
  have none: "ValidateExtensions [] = Inr ()" by (simp add: ValidateExtensions_ok wf_packs_def)
  have sub: "mset (?all []) \<subseteq># mset (?all extensions)" by (rule mset_all_decisions_extensions)
  have exact: "mset kept = es" if "selection es kept dr" "size es \<le> MaxDecisions" for es kept dr
  proof -
    have "size (mset kept) = size es" "mset kept + dr = es" using that by (auto simp: selection_def)
    then have "size dr = 0" by (metis add_cancel_left_right size_union)
    with \<open>mset kept + dr = es\<close> show ?thesis by simp
  qed
  obtain kept dr where ds: "EvaluateContext (Inr packs) discovered [] =
      Inr (sort_slice decision_less (map rd_decision kept))" "selection (mset (?all [])) kept dr"
    using EvaluateContext_ok [OF refl wf none] by fastforce
  obtain kept' dr' where ds': "EvaluateContext (Inr packs) discovered extensions =
      Inr (sort_slice decision_less (map rd_decision kept'))"
      "selection (mset (?all extensions)) kept' dr'"
    using EvaluateContext_ok [OF refl wf assms(2,3)] by blast
  have "mset kept = mset (?all [])"
    using exact [OF ds(2)] size_mset_mono [OF sub] assms(4) by simp
  moreover have "mset kept' = mset (?all extensions)"
    using exact [OF ds'(2)] assms(4) by simp
  ultimately have "mset (map rd_decision kept) \<subseteq># mset (map rd_decision kept')"
    using sub by (simp add: image_mset_subseteq_mono)
  then show ?thesis using ds(1) ds'(1) by simp
qed

theorem extensions_only_add_witness:
  "\<exists>ds ds'. EvaluateContext (Inr [sample_pack ''p'']) sample_context [] = Inr ds \<and>
    EvaluateContext (Inr [sample_pack ''p'']) sample_context [sample_pack ''q''] = Inr ds' \<and>
    mset ds \<subseteq># mset ds'"
proof (rule extensions_only_add)
  show "ValidateSet [sample_pack ''p''] = Inr ()"
    by (simp add: wf_packs_def wf_sample_pack)
  show "ValidateExtensions [sample_pack ''q''] = Inr ()"
    by (simp add: ValidateExtensions_ok wf_packs_def wf_sample_pack)
       (simp add: sample_pack_def sample_rule_def)
  show "set (map pack_key [sample_pack ''q'']) \<inter> set (map pack_key [sample_pack ''p'']) = {}"
    by (simp add: pack_key_def sample_pack_def)
  show "length (all_decisions [sample_pack ''p''] [sample_pack ''q'']
      (boundary_Resolve (cx_Candidates sample_context)) 0
      (rs_Candidates (boundary_Resolve (cx_Candidates sample_context)))) \<le> MaxDecisions"
    by (simp add: sample_context_resolve)
       (simp add: sample_context_def candidate_decisions_def pack_matches_def sample_pack_def)
qed

end
