(* ===== verification/Discovery.thy ===== *)
theory Discovery
  imports Boundary_Engine
begin

text \<open>
  \<open>internal/boundary/discovery.go\<close>: what the boundary engine learns about a repository. The entries a
  reader lists are a tree, and \<open>fs.WalkDir\<close> is a recursion over it that stops at the first error. The
  contents \<open>ReadFile\<close> returns, the paths the reader ignores, the lower-case table above ASCII and the state
  of the context at each poll are parameters.
\<close>

section \<open>Slash-separated paths\<close>

text \<open>\<open>path.Clean\<close>, \<open>path.Base\<close>, \<open>path.Dir\<close> and \<open>path.Join\<close> of two elements. The cleaned elements are kept
  in reverse.\<close>

definition clean_element :: "bool \<Rightarrow> string list \<Rightarrow> string \<Rightarrow> string list" where
  "clean_element rooted stack e =
     (if e = '''' \<or> e = ''.'' then stack
      else if e = ''..'' then
        (case stack of
           [] \<Rightarrow> if rooted then [] else [''..'']
         | e1 # rest \<Rightarrow> if e1 = ''..'' then ''..'' # stack else rest)
      else e # stack)"

definition path_Clean :: "string \<Rightarrow> string" where
  "path_Clean p =
     (let rooted = prefix ''/'' p;
          cleaned = (if rooted then ''/'' else '''') @ join ''/'' (rev (foldl (clean_element rooted) [] (split_on (CHR ''/'') p)))
      in if cleaned = '''' then ''.'' else cleaned)"

definition path_Base :: "string \<Rightarrow> string" where
  "path_Base p =
     (if p = '''' then ''.''
      else let stripped = rev (dropWhile (\<lambda>c. c = CHR ''/'') (rev p));
               base = rev (takeWhile (\<lambda>c. c \<noteq> CHR ''/'') (rev stripped))
           in if base = '''' then ''/'' else base)"

definition path_Dir :: "string \<Rightarrow> string" where
  "path_Dir p = path_Clean (rev (dropWhile (\<lambda>c. c \<noteq> CHR ''/'') (rev p)))"

definition path_Join :: "string \<Rightarrow> string \<Rightarrow> string" where
  "path_Join a b =
     (if a = '''' \<and> b = '''' then ''''
      else path_Clean (if a = '''' then b else if b = '''' then a else a @ ''/'' @ b))"

section \<open>Scopes and files\<close>

definition MaxMetadataEntries :: int where
  "MaxMetadataEntries = 10000"

definition MaxScopeDepth :: nat where
  "MaxScopeDepth = 64"

definition MaxInstructionBytes :: nat where
  "MaxInstructionBytes = 64 * 1024"

definition sanitized :: "string \<Rightarrow> string \<Rightarrow> stable_error" where
  "sanitized message field = NewError ErrorCodeSemanticInvalid message field False"

definition pathDepth :: "string \<Rightarrow> nat" where
  "pathDepth v = (if v = '''' then 0 else length (split_on (CHR ''/'') v))"

definition backslashes :: "string \<Rightarrow> string" where
  "backslashes v = replace_byte (CHR 0x5C) (CHR ''/'') v"

definition clean_scope :: "string \<Rightarrow> string" where
  "clean_scope v = (let c = path_Clean (backslashes v) in if c = ''.'' then '''' else c)"

fun scope_loop :: "string list \<Rightarrow> string list \<Rightarrow> string list go_result" where
  "scope_loop acc [] = Inr acc"
| "scope_loop acc (v # vs) =
     (let c = clean_scope v
      in if prefix ''/'' c \<or> c = ''..'' \<or> prefix ''../'' c \<or> pathDepth c > MaxScopeDepth
         then Inl (sanitized ''scope must remain within context root'' ''scope'')
         else scope_loop (if c \<in> set acc then acc else acc @ [c]) vs)"

definition normalizeScopes :: "string list \<Rightarrow> string list go_result" where
  "normalizeScopes scopes = bind_result (scope_loop [] scopes) (\<lambda>r. Inr (sort_strings r))"

definition instructionFile :: "string \<Rightarrow> bool" where
  "instructionFile base \<longleftrightarrow> base = ''agents.md'' \<or> base = ''claude.md''"

definition privacyMetadataFile :: "string \<Rightarrow> bool" where
  "privacyMetadataFile base \<longleftrightarrow>
     base = ''.env'' \<or> base = ''credentials.json'' \<or> base = ''secrets.json'' \<or>
     (prefix ''.env.'' base \<and> drop 5 base \<notin> {''example'', ''sample'', ''template'', ''dist''})"

definition workflowFile :: "string \<Rightarrow> string \<Rightarrow> bool" where
  "workflowFile name base \<longleftrightarrow>
     (prefix ''.github/workflows/'' name \<or> str_contains name ''/.github/workflows/'') \<and>
     (suffix ''.yml'' base \<or> suffix ''.yaml'' base)"

definition targetedFile :: "string \<Rightarrow> string \<Rightarrow> bool" where
  "targetedFile name base \<longleftrightarrow>
     workflowFile name base \<or> instructionFile base \<or> base = ''security.md'' \<or> privacyMetadataFile base \<or>
     base = ''release-please-config.json'' \<or> base = ''.goreleaser.yml'' \<or> base = ''.goreleaser.yaml'' \<or> base = ''makefile''"

definition fileCategory :: "string \<Rightarrow> string \<Rightarrow> string" where
  "fileCategory name base =
     (if instructionFile base then ''instruction''
      else if privacyMetadataFile base then ''privacy''
      else if workflowFile name base \<or> base = ''makefile'' \<or> base = ''security.md'' then
        (if str_contains base ''release'' \<or> str_contains base ''publish'' then ''release'' else ''validation'')
      else ''release'')"

definition appliesToScope :: "string \<Rightarrow> string list \<Rightarrow> bool" where
  "appliesToScope name scopes \<longleftrightarrow>
     (let dir = path_Dir name; dir = (if dir = ''.'' then '''' else dir)
      in if scopes = [] then dir = ''''
         else list_ex (\<lambda>scope. dir = '''' \<or> scope = dir \<or> prefix (dir @ ''/'') scope) scopes)"

definition scopeTokenByte :: "char \<Rightarrow> bool" where
  "scopeTokenByte c \<longleftrightarrow>
     (CHR ''a'' \<le> c \<and> c \<le> CHR ''z'') \<or> (CHR ''0'' \<le> c \<and> c \<le> CHR ''9'') \<or> c = CHR ''_'' \<or> c = CHR ''-''"

text \<open>The search for an occurrence of the scope that no token byte adjoins, from an offset on.\<close>

function mention_from :: "string \<Rightarrow> string \<Rightarrow> nat \<Rightarrow> bool" where
  "mention_from content scope from =
     (if length content < from + length scope then False
      else (case str_index scope (drop from content) of
              None \<Rightarrow> False
            | Some i \<Rightarrow>
                (let start = from + i; stop = start + length scope
                 in ((start = 0 \<or> \<not> scopeTokenByte (content ! (start - 1))) \<and>
                     (stop = length content \<or> \<not> scopeTokenByte (content ! stop) \<or> content ! stop = CHR ''/'')) \<or>
                    mention_from content scope (start + 1))))"
  by pat_completeness auto
termination
  by (relation "measure (\<lambda>(content, scope, from). Suc (length content) - from)") auto

declare mention_from.simps [simp del]

definition mentionsScope :: "(nat \<Rightarrow> nat) \<Rightarrow> string \<Rightarrow> string list \<Rightarrow> bool" where
  "mentionsScope uc content scopes \<longleftrightarrow>
     list_ex (\<lambda>scope. to_lower uc scope \<noteq> '''' \<and> mention_from (backslashes (to_lower uc content)) (to_lower uc scope) 0) scopes"

section \<open>Candidates\<close>

record disc =
  dc_candidates :: "candidate list"
  dc_seen :: "string list"
  dc_counts :: "string \<Rightarrow> nat"
  dc_entries :: int
  dc_reads :: int

definition disc_start :: disc where
  "disc_start = \<lparr> dc_candidates = [], dc_seen = [], dc_counts = (\<lambda>_. 0), dc_entries = 0, dc_reads = 0 \<rparr>"

definition pad4 :: "nat \<Rightarrow> string" where
  "pad4 n = replicate (4 - length (show_nat n)) (CHR ''0'') @ show_nat n"

definition candidate_id :: "string \<Rightarrow> nat \<Rightarrow> string" where
  "candidate_id category n = category @ ''.'' @ pad4 n"

definition add_candidate :: "string \<Rightarrow> string \<Rightarrow> string \<Rightarrow> real \<Rightarrow> nat \<Rightarrow> facts \<Rightarrow> disc \<Rightarrow> disc" where
  "add_candidate category sourceKind key confidence specificity fs s =
     (let identity = category @ [CHR 0x00] @ key
      in if identity \<in> set (dc_seen s) then s
         else let n = Suc (dc_counts s category); ident = candidate_id category n
              in s\<lparr> dc_seen := identity # dc_seen s, dc_counts := (dc_counts s)(category := n),
                    dc_candidates := dc_candidates s @ [
                      \<lparr> ca_ID = ident, ca_Category = category, ca_SourceKind = sourceKind, ca_SourceRef = ident,
                        ca_Confidence = confidence, ca_Specificity = int specificity,
                        ca_Facts = fs(''category'' \<mapsto> category, ''source_kind'' \<mapsto> sourceKind), ca_Conflicts = [] \<rparr>] \<rparr>)"

section \<open>The walk\<close>

text \<open>A file, a symbolic link, or a directory with its entries in the order they are listed (\<open>None\<close> when
  listing it fails).\<close>

datatype fs_node = Fs_File | Fs_Symlink | Fs_Dir "(string \<times> fs_node) list option"

fun is_dir :: "fs_node \<Rightarrow> bool" where
  "is_dir (Fs_Dir _) = True"
| "is_dir _ = False"

datatype visit_result = Visit_Next | Visit_SkipDir | Visit_Cancelled | Visit_Error stable_error

record disc_env =
  de_read :: "string \<Rightarrow> string option"
  de_lower :: "nat \<Rightarrow> nat"
  de_ignored :: "string set"
  de_cancelled :: "nat \<Rightarrow> bool"
  de_scopes :: "string list"

definition entry_path :: "string \<Rightarrow> string" where
  "entry_path name =
     (let c = path_Clean (backslashes name); c = (if prefix ''./'' c then drop 2 c else c)
      in if c = ''.'' then '''' else c)"

definition entry_base :: "disc_env \<Rightarrow> string \<Rightarrow> string" where
  "entry_base env c = to_lower (de_lower env) (path_Base c)"

definition non_goal_facts :: "disc_env \<Rightarrow> string \<Rightarrow> facts" where
  "non_goal_facts env lower =
     (if mentionsScope (de_lower env) lower (de_scopes env)
      then [''category'' \<mapsto> ''non_goal'', ''conflicted'' \<mapsto> ''true''] else [''category'' \<mapsto> ''non_goal''])"

definition read_instruction :: "disc_env \<Rightarrow> string \<Rightarrow> disc \<Rightarrow> visit_result \<times> disc" where
  "read_instruction env c s =
     (let s = s\<lparr> dc_reads := dc_reads s + 1 \<rparr>
      in case de_read env c of
           None \<Rightarrow> (Visit_Error (sanitized ''instruction file unavailable'' ''context_root''), s)
         | Some bytes \<Rightarrow>
             if length bytes > MaxInstructionBytes
             then (Visit_Error (sanitized ''instruction file exceeds 65536 bytes'' ''context_root''), s)
             else
               let s = add_candidate ''instruction'' ''instruction'' c 1 (pathDepth c) [''category'' \<mapsto> ''instruction''] s;
                   lower = to_lower (de_lower env) bytes
               in (Visit_Next,
                   if str_contains lower ''non-goal'' \<or> str_contains lower ''out of scope''
                   then add_candidate ''non_goal'' ''instruction'' (c @ '':non-goal'') (9 / 10) (pathDepth c) (non_goal_facts env lower) s
                   else s))"

definition visit_file :: "disc_env \<Rightarrow> string \<Rightarrow> string \<Rightarrow> disc \<Rightarrow> visit_result \<times> disc" where
  "visit_file env c base s =
     (if \<not> targetedFile c base then (Visit_Next, s)
      else let category = fileCategory c base;
               s = add_candidate category ''repository_metadata'' c 1 (pathDepth c) [''category'' \<mapsto> category] s
           in if instructionFile base \<and> appliesToScope c (de_scopes env) then read_instruction env c s
              else (Visit_Next, s))"

definition visit_directory :: "string \<Rightarrow> string \<Rightarrow> disc \<Rightarrow> visit_result \<times> disc" where
  "visit_directory c base s =
     (if base \<in> {''vendor'', ''node_modules'', ''third_party''} then
        (Visit_SkipDir, add_candidate ''vendor'' ''repository_metadata'' c 1 (pathDepth c) [''category'' \<mapsto> ''vendor''] s)
      else if base \<in> {''generated'', ''dist'', ''build''} then
        (Visit_SkipDir, add_candidate ''generated'' ''repository_metadata'' c (9 / 10) (pathDepth c) [''category'' \<mapsto> ''generated''] s)
      else (Visit_Next, s))"

definition visit_git :: "string \<Rightarrow> bool \<Rightarrow> disc \<Rightarrow> disc" where
  "visit_git c dir s =
     (let s = add_candidate ''repository'' ''repository_metadata'' (c @ '':repository'') 1 (pathDepth c) [''category'' \<mapsto> ''repository''] s
      in if dir then s
         else add_candidate ''worktree'' ''repository_metadata'' (c @ '':worktree'') 1 (pathDepth c) [''category'' \<mapsto> ''worktree''] s)"

definition visit_entry :: "disc_env \<Rightarrow> string \<Rightarrow> fs_node \<Rightarrow> disc \<Rightarrow> visit_result \<times> disc" where
  "visit_entry env name node s =
     (if de_cancelled env (nat (dc_entries s)) then (Visit_Cancelled, s)
      else let s = s\<lparr> dc_entries := dc_entries s + 1 \<rparr>
           in if dc_entries s > MaxMetadataEntries
              then (Visit_Error (sanitized ''repository metadata exceeds 10000 entries'' ''context_root''), s)
              else
                let c = entry_path name; base = entry_base env c
                in if c \<in> de_ignored env then (if is_dir node then Visit_SkipDir else Visit_Next, s)
                   else (case node of
                       Fs_Symlink \<Rightarrow>
                         (Visit_Next, add_candidate ''security'' ''repository_metadata'' (c @ '':symlink'') 1 (pathDepth c)
                            [''category'' \<mapsto> ''security'', ''ambiguous'' \<mapsto> ''true''] s)
                     | Fs_Dir _ \<Rightarrow>
                         if base = ''.git'' then (Visit_SkipDir, visit_git c True s) else visit_directory c base s
                     | Fs_File \<Rightarrow>
                         visit_file env c base (if base = ''.git'' then visit_git c False s else s)))"

text \<open>
  \<open>fs.WalkDir\<close>. The outcome is \<open>Visit_Next\<close> or the error that stopped the walk; the directory of an entry
  skips itself. A directory that cannot be listed is visited again with the error.
\<close>

function walk_node :: "disc_env \<Rightarrow> string \<Rightarrow> fs_node \<Rightarrow> disc \<Rightarrow> visit_result \<times> disc"
  and walk_entries :: "disc_env \<Rightarrow> string \<Rightarrow> (string \<times> fs_node) list \<Rightarrow> disc \<Rightarrow> visit_result \<times> disc" where
  "walk_node env name node s =
     (case visit_entry env name node s of
        (Visit_Next, s') \<Rightarrow>
          (case node of
             Fs_Dir None \<Rightarrow> (Visit_Error (sanitized ''repository metadata unavailable'' ''context_root''), s')
           | Fs_Dir (Some entries) \<Rightarrow> walk_entries env name entries s'
           | _ \<Rightarrow> (Visit_Next, s'))
      | (Visit_SkipDir, s') \<Rightarrow> (Visit_Next, s')
      | (stop, s') \<Rightarrow> (stop, s'))"
| "walk_entries env name [] s = (Visit_Next, s)"
| "walk_entries env name ((n, node) # rest) s =
     (case walk_node env (path_Join name n) node s of
        (Visit_Next, s') \<Rightarrow> walk_entries env name rest s'
      | (stop, s') \<Rightarrow> (stop, s'))"
  by pat_completeness auto
termination
proof (relation "measure (\<lambda>x. case x of Inl (env, name, node, s) \<Rightarrow> 2 * size node | Inr (env, name, entries, s) \<Rightarrow> Suc (2 * size_list (size_prod (\<lambda>_. 0) size) entries))")
qed (auto)

declare walk_node.simps [simp del] walk_entries.simps [simp del]

section \<open>Conflicts of scopes with non-goals\<close>

definition candidateIndexes :: "candidate list \<Rightarrow> string \<Rightarrow> nat list" where
  "candidateIndexes cs category = filter (\<lambda>i. ca_Category (cs ! i) = category) [0..<length cs]"

definition add_conflict :: "nat \<Rightarrow> string \<Rightarrow> candidate list \<Rightarrow> candidate list" where
  "add_conflict i ident cs = cs[i := (cs ! i)\<lparr> ca_Conflicts := ca_Conflicts (cs ! i) @ [ident] \<rparr>]"

definition link_pair :: "candidate list \<Rightarrow> nat \<times> nat \<Rightarrow> candidate list" where
  "link_pair cs p =
     (let (sc, ng) = p
      in if ca_Facts (cs ! ng) ''conflicted'' \<noteq> Some ''true'' then cs
         else let cs = add_conflict sc (ca_ID (cs ! ng)) cs in add_conflict ng (ca_ID (cs ! sc)) cs)"

definition linkApplicableNonGoals :: "candidate list \<Rightarrow> candidate list" where
  "linkApplicableNonGoals cs =
     foldl link_pair cs (List.product (candidateIndexes cs ''scope'') (candidateIndexes cs ''non_goal''))"

section \<open>Discovery\<close>

datatype fs_root = Root_Missing | Root_Unavailable | Root fs_node

definition candidate_before :: "candidate \<Rightarrow> candidate \<Rightarrow> bool" where
  "candidate_before a b \<longleftrightarrow> ca_ID a < ca_ID b"

interpretation candidate_order: slice_key candidate_before ca_ID
  by unfold_locales (simp add: candidate_before_def)

definition add_scopes :: "string list \<Rightarrow> disc \<Rightarrow> disc" where
  "add_scopes scopes s =
     foldl (\<lambda>s scope. add_candidate ''scope'' ''user_request'' scope 1 (pathDepth scope) [''category'' \<mapsto> ''scope''] s) s scopes"

definition empty_context :: discovery_context where
  "empty_context = \<lparr> cx_Candidates = [], cx_MetadataEntries = 0, cx_TargetedReads = 0 \<rparr>"

definition found_context :: "disc \<Rightarrow> discovery_context" where
  "found_context s =
     \<lparr> cx_Candidates = sort_slice candidate_before (linkApplicableNonGoals (dc_candidates s)),
       cx_MetadataEntries = dc_entries s, cx_TargetedReads = dc_reads s \<rparr>"

text \<open>The scopes of the environment are those of the request, normalised.\<close>

definition Discover :: "disc_env \<Rightarrow> fs_root \<Rightarrow> string list \<Rightarrow> discovery_context go_result" where
  "Discover env0 tree scopes =
     bind_result (normalizeScopes scopes) (\<lambda>normalized.
       case tree of
         Root_Missing \<Rightarrow> Inr empty_context
       | Root_Unavailable \<Rightarrow> Inl (sanitized ''context root unavailable'' ''context_root'')
       | Root node \<Rightarrow>
           let env = env0\<lparr> de_scopes := normalized \<rparr>
           in case walk_node env ''.'' node (add_scopes normalized disc_start) of
                (Visit_Cancelled, _) \<Rightarrow>
                  Inl (NewError ErrorCodeBudgetExhausted ''boundary discovery cancelled or timed out'' ''context_root'' True)
              | (Visit_Error e, _) \<Rightarrow> Inl e
              | (_, s) \<Rightarrow> Inr (found_context s))"

end
