(* ===== verification/Discovery_Props.thy ===== *)
theory Discovery_Props
  imports Discovery
begin

text \<open>
  What a discovery guarantees: it depends on the contents of instruction files only, its candidates have
  distinct identifiers, and its conflicts are symmetric links between scopes and non-goals it found.
\<close>

section \<open>Contents that are never read\<close>

text \<open>Two environments that differ only in contents of files that are not instructions for the scopes.\<close>

definition same_instructions :: "disc_env \<Rightarrow> disc_env \<Rightarrow> bool" where
  "same_instructions e e' \<longleftrightarrow>
     de_lower e = de_lower e' \<and> de_ignored e = de_ignored e' \<and> de_cancelled e = de_cancelled e' \<and> de_scopes e = de_scopes e' \<and>
     (\<forall>c. instructionFile (entry_base e c) \<longrightarrow> appliesToScope c (de_scopes e) \<longrightarrow> de_read e c = de_read e' c)"

lemma visit_entry_same:
  assumes "same_instructions e e'"
  shows "visit_entry e name node s = visit_entry e' name node s"
proof -
  have sel: "de_lower e = de_lower e'" "de_ignored e = de_ignored e'" "de_cancelled e = de_cancelled e'" "de_scopes e = de_scopes e'"
    using assms by (simp_all add: same_instructions_def)
  then have base: "entry_base e c = entry_base e' c" for c
    by (simp add: entry_base_def)
  have "read_instruction e c t = read_instruction e' c t" if "de_read e c = de_read e' c" for c t
    unfolding read_instruction_def non_goal_facts_def sel that ..
  then have visited: "visit_file e c (entry_base e' c) t = visit_file e' c (entry_base e' c) t" for c t
    using assms unfolding visit_file_def same_instructions_def sel base by (auto simp: Let_def)
  show ?thesis
    unfolding visit_entry_def sel base Let_def visited ..
qed

lemma walk_same:
  "same_instructions e e' \<Longrightarrow> walk_node e name node s = walk_node e' name node s"
  "same_instructions e e' \<Longrightarrow> walk_entries e name entries s = walk_entries e' name entries s"
proof (induction e name node s and e name entries s rule: walk_node_walk_entries.induct)
  case (1 e name node s)
  then show ?case
    unfolding walk_node.simps [of e] walk_node.simps [of e'] visit_entry_same [OF 1(2)]
    by (auto split: prod.split visit_result.split fs_node.split option.split)
next
  case (3 e name n node rest s)
  then show ?case
    unfolding walk_entries.simps by (auto split: prod.split visit_result.split)
qed (simp add: walk_entries.simps)

section \<open>Identifiers\<close>

lemma read_nat_zeros: "read_nat (replicate k (CHR ''0'') @ s) = read_nat s"
  by (induction k) (simp_all add: read_nat_def digit_value_def)

lemma pad4_inj: "pad4 m = pad4 n \<Longrightarrow> m = n"
  by (metis pad4_def read_nat_zeros read_show_nat)

lemma candidate_id_inj:
  assumes "candidate_id a m = candidate_id b n" "CHR ''.'' \<notin> set a" "CHR ''.'' \<notin> set b"
  shows "a = b \<and> m = n"
proof -
  have "takeWhile (\<lambda>x. x \<noteq> CHR ''.'') (candidate_id c k) = c" if "CHR ''.'' \<notin> set c" for c k
    using that takeWhile_eq_all_conv [of "\<lambda>x. x \<noteq> CHR ''.''" c] by (auto simp: candidate_id_def takeWhile_tail)
  then have "a = b"
    using assms by metis
  then show ?thesis
    using assms(1) pad4_inj by (auto simp: candidate_id_def)
qed

definition found_categories :: "string list" where
  "found_categories = [''scope'', ''security'', ''repository'', ''worktree'', ''vendor'', ''generated'', ''instruction'',
     ''privacy'', ''validation'', ''release'', ''non_goal'']"

lemma found_categories_dot: "c \<in> set found_categories \<Longrightarrow> CHR ''.'' \<notin> set c"
  by (auto simp: found_categories_def)

lemma fileCategory_found: "fileCategory name base \<in> set found_categories"
  by (simp add: fileCategory_def found_categories_def)

definition candidate_found :: "disc \<Rightarrow> candidate \<Rightarrow> bool" where
  "candidate_found s c \<longleftrightarrow>
     ca_Category c \<in> set found_categories \<and> ca_Conflicts c = [] \<and>
     (\<exists>k \<in> {1..dc_counts s (ca_Category c)}. ca_ID c = candidate_id (ca_Category c) k)"

text \<open>The identity of an instruction file is taken before it is added as an instruction.\<close>

definition disc_ok :: "disc \<Rightarrow> bool" where
  "disc_ok s \<longleftrightarrow>
     (\<forall>c \<in> set (dc_candidates s). candidate_found s c) \<and> distinct (map ca_ID (dc_candidates s)) \<and>
     (\<forall>c \<in> set (dc_candidates s). ca_Category c = ''instruction'' \<longrightarrow> ca_SourceKind c = ''repository_metadata'')"

lemma disc_ok_start: "disc_ok disc_start"
  by (simp add: disc_ok_def disc_start_def)

lemma add_candidate_ok:
  assumes ok: "disc_ok s" and cat: "category \<in> set found_categories"
    and instr: "category = ''instruction'' \<Longrightarrow> sourceKind \<noteq> ''repository_metadata'' \<Longrightarrow> category @ [CHR 0x00] @ key \<in> set (dc_seen s)"
  shows "disc_ok (add_candidate category sourceKind key confidence specificity fs s)"
proof (cases "category @ [CHR 0x00] @ key \<in> set (dc_seen s)")
  case False
  let ?n = "Suc (dc_counts s category)"
  let ?s = "add_candidate category sourceKind key confidence specificity fs s"
  obtain c where c: "dc_candidates ?s = dc_candidates s @ [c]" "dc_counts ?s = (dc_counts s)(category := ?n)"
    "ca_ID c = candidate_id category ?n" "ca_Category c = category" "ca_SourceKind c = sourceKind" "ca_Conflicts c = []"
    using False by (simp add: add_candidate_def Let_def)
  have old: "candidate_found ?s d" if "d \<in> set (dc_candidates s)" for d
    using ok that c(2) unfolding disc_ok_def candidate_found_def by (fastforce)
  have new: "candidate_found ?s c"
    using c cat unfolding candidate_found_def by auto
  have fresh: "ca_ID c \<notin> ca_ID ` set (dc_candidates s)"
  proof
    assume "ca_ID c \<in> ca_ID ` set (dc_candidates s)"
    then obtain d where d: "d \<in> set (dc_candidates s)" "ca_ID d = candidate_id category ?n"
      using c(3) by auto
    then obtain k where k: "k \<in> {1..dc_counts s (ca_Category d)}" "ca_ID d = candidate_id (ca_Category d) k"
      and dcat: "ca_Category d \<in> set found_categories"
      using ok unfolding disc_ok_def candidate_found_def by blast
    then have "ca_Category d = category \<and> k = ?n"
      using d(2) candidate_id_inj found_categories_dot [OF dcat] found_categories_dot [OF cat] by metis
    then show False
      using k(1) by simp
  qed
  show ?thesis
    using ok old new fresh instr False unfolding disc_ok_def c(1) by (auto simp: c(4,5))
qed (use ok in \<open>simp add: add_candidate_def Let_def\<close>)

lemma disc_ok_counters [simp]:
  "disc_ok (s\<lparr> dc_entries := n \<rparr>) = disc_ok s" "disc_ok (s\<lparr> dc_reads := n \<rparr>) = disc_ok s"
  by (simp_all add: disc_ok_def candidate_found_def)

lemma add_candidate_seen: "category @ [CHR 0x00] @ key \<in> set (dc_seen (add_candidate category sk key cf sp fs s))"
  by (simp add: add_candidate_def Let_def)

lemma add_candidate_counters [simp]:
  "dc_entries (add_candidate category sk key cf sp fs s) = dc_entries s"
  "dc_reads (add_candidate category sk key cf sp fs s) = dc_reads s"
  by (simp_all add: add_candidate_def Let_def)

lemma read_instruction_ok:
  assumes "disc_ok s" "''instruction'' @ [CHR 0x00] @ c \<in> set (dc_seen s)"
  shows "disc_ok (snd (read_instruction env c s))"
proof -
  have one: "disc_ok (add_candidate ''instruction'' ''instruction'' c cf sp fs (s\<lparr> dc_reads := n \<rparr>))" for cf sp fs n
    by (rule add_candidate_ok) (use assms in \<open>simp_all add: found_categories_def\<close>)
  have "disc_ok (add_candidate ''non_goal'' ''instruction'' key cf' sp' fs'
      (add_candidate ''instruction'' ''instruction'' c cf sp fs (s\<lparr> dc_reads := n \<rparr>)))" for key cf sp fs n cf' sp' fs'
    by (rule add_candidate_ok [OF one]) (simp_all add: found_categories_def)
  then show ?thesis
    using assms(1) one by (simp add: read_instruction_def Let_def split: option.split)
qed

lemma visit_file_ok:
  assumes "disc_ok s"
  shows "disc_ok (snd (visit_file env c base s))"
proof -
  let ?t = "add_candidate (fileCategory c base) ''repository_metadata'' c 1 (pathDepth c) [''category'' \<mapsto> fileCategory c base] s"
  have t: "disc_ok ?t"
    using assms fileCategory_found by (intro add_candidate_ok) simp_all
  have "disc_ok (snd (read_instruction env c ?t))" if "instructionFile base"
  proof (rule read_instruction_ok [OF t])
    show "''instruction'' @ [CHR 0x00] @ c \<in> set (dc_seen ?t)"
      using add_candidate_seen [of "fileCategory c base"] that by (simp add: fileCategory_def)
  qed
  then show ?thesis
    using t assms by (simp add: visit_file_def Let_def)
qed

lemma visit_entry_ok:
  assumes "disc_ok s"
  shows "disc_ok (snd (visit_entry env name node s))"
proof -
  have m: "disc_ok (add_candidate category ''repository_metadata'' key cf sp fs t)" if "disc_ok t" "category \<in> set found_categories"
    for category key cf sp fs t
    by (rule add_candidate_ok [OF that]) simp
  have cats: "''repository'' \<in> set found_categories" "''worktree'' \<in> set found_categories" "''vendor'' \<in> set found_categories"
    "''generated'' \<in> set found_categories" "''security'' \<in> set found_categories"
    by (simp_all add: found_categories_def)
  have git: "disc_ok (visit_git c dir t)" if "disc_ok t" for c dir t
    using m [OF m [OF that cats(1)] cats(2)] m [OF that cats(1)] by (simp only: visit_git_def Let_def split: if_split) blast
  have dir: "disc_ok (snd (visit_directory c base t))" if "disc_ok t" for c base t
    using m [OF that cats(3)] m [OF that cats(4)] that by (simp only: visit_directory_def split: if_split) simp
  have start: "disc_ok (s\<lparr> dc_entries := n \<rparr>)" for n
    using assms by simp
  show ?thesis
    using assms start m [OF start cats(5)] git [OF start] dir [OF start] visit_file_ok [OF start] visit_file_ok [OF git [OF start]]
    by (simp add: visit_entry_def Let_def split: fs_node.split)
qed

lemma walk_ok:
  "disc_ok s \<Longrightarrow> disc_ok (snd (walk_node e name node s))"
  "disc_ok s \<Longrightarrow> disc_ok (snd (walk_entries e name entries s))"
proof (induction e name node s and e name entries s rule: walk_node_walk_entries.induct)
  case (1 e name node s)
  note visit = visit_entry_ok [OF 1(2), of e name node]
  show ?case
    using visit 1(1) unfolding walk_node.simps [of e]
    by (auto split: prod.split visit_result.split fs_node.split option.split)
next
  case (3 e name n node rest s)
  then show ?case
    unfolding walk_entries.simps by (fastforce split: prod.split visit_result.split)
qed (simp add: walk_entries.simps)

section \<open>Conflicts\<close>

definition linked :: "candidate list \<Rightarrow> bool" where
  "linked cs \<longleftrightarrow>
     (\<forall>c \<in> set cs. \<forall>ref \<in> set (ca_Conflicts c). \<exists>d \<in> set cs. ca_ID d = ref \<and> ca_ID c \<in> set (ca_Conflicts d) \<and>
        {ca_Category c, ca_Category d} = {''scope'', ''non_goal''})"

lemma linked_nth:
  "linked cs \<longleftrightarrow>
     (\<forall>i < length cs. \<forall>ref \<in> set (ca_Conflicts (cs ! i)). \<exists>j < length cs. ca_ID (cs ! j) = ref \<and>
        ca_ID (cs ! i) \<in> set (ca_Conflicts (cs ! j)) \<and> {ca_Category (cs ! i), ca_Category (cs ! j)} = {''scope'', ''non_goal''})"
  unfolding linked_def by (auto simp: in_set_conv_nth Bex_def Ball_def) metis+

text \<open>What a link leaves of every candidate, and what it adds to two of them.\<close>

definition same_identity :: "candidate list \<Rightarrow> candidate list \<Rightarrow> bool" where
  "same_identity cs ds \<longleftrightarrow>
     length ds = length cs \<and>
     (\<forall>i < length cs. ca_ID (ds ! i) = ca_ID (cs ! i) \<and> ca_Category (ds ! i) = ca_Category (cs ! i) \<and>
        ca_SourceKind (ds ! i) = ca_SourceKind (cs ! i) \<and> ca_Facts (ds ! i) = ca_Facts (cs ! i))"

lemma same_identity_refl [simp]: "same_identity cs cs"
  by (simp add: same_identity_def)

lemma same_identity_trans: "same_identity a b \<Longrightarrow> same_identity b c \<Longrightarrow> same_identity a c"
  by (simp add: same_identity_def)

lemma add_conflict_identity: "same_identity cs (add_conflict i ident cs)"
  by (cases "i < length cs") (auto simp: same_identity_def add_conflict_def nth_list_update)

lemma link_pair_step:
  assumes "linked cs" "i < length cs" "j < length cs" "ca_Category (cs ! i) = ''scope''" "ca_Category (cs ! j) = ''non_goal''"
  shows "linked (link_pair cs (i, j)) \<and> same_identity cs (link_pair cs (i, j))"
proof (cases "ca_Facts (cs ! j) ''conflicted'' = Some ''true''")
  case True
  have ij: "i \<noteq> j"
    using assms(4,5) by auto
  let ?ds = "link_pair cs (i, j)"
  have ds: "?ds = add_conflict j (ca_ID (add_conflict i (ca_ID (cs ! j)) cs ! i)) (add_conflict i (ca_ID (cs ! j)) cs)"
    using True by (simp add: link_pair_def Let_def)
  have same: "same_identity cs ?ds"
    unfolding ds by (rule same_identity_trans [OF add_conflict_identity add_conflict_identity])
  have conf: "ca_Conflicts (?ds ! k) = ca_Conflicts (cs ! k) @ (if k = i then [ca_ID (cs ! j)] else if k = j then [ca_ID (cs ! i)] else [])"
    if "k < length cs" for k
    using ij that assms(2,3) unfolding ds by (simp add: add_conflict_def nth_list_update)
  have keep: "ca_ID (?ds ! k) = ca_ID (cs ! k)" "ca_Category (?ds ! k) = ca_Category (cs ! k)" if "k < length cs" for k
    using same that by (simp_all add: same_identity_def)
  have len: "length ?ds = length cs"
    using same by (simp add: same_identity_def)
  have "\<exists>l < length cs. ca_ID (?ds ! l) = ref \<and> ca_ID (?ds ! k) \<in> set (ca_Conflicts (?ds ! l)) \<and>
      {ca_Category (?ds ! k), ca_Category (?ds ! l)} = {''scope'', ''non_goal''}"
    if k: "k < length cs" and ref: "ref \<in> set (ca_Conflicts (?ds ! k))" for k ref
  proof (cases "ref \<in> set (ca_Conflicts (cs ! k))")
    case True
    then obtain l where "l < length cs" "ca_ID (cs ! l) = ref" "ca_ID (cs ! k) \<in> set (ca_Conflicts (cs ! l))"
      "{ca_Category (cs ! k), ca_Category (cs ! l)} = {''scope'', ''non_goal''}"
      using assms(1) k unfolding linked_nth by blast
    then show ?thesis
      using keep conf k by (intro exI [of _ l]) simp
  next
    case False
    then consider "k = i" "ref = ca_ID (cs ! j)" | "k = j" "ref = ca_ID (cs ! i)"
      using ref conf [OF k] by (auto split: if_splits)
    then show ?thesis
    proof cases
      case 1
      then show ?thesis
        using assms(2-5) ij conf keep by (intro exI [of _ j]) simp
    next
      case 2
      then show ?thesis
        using assms(2-5) ij conf keep by (intro exI [of _ i]) (simp add: insert_commute)
    qed
  qed
  then show ?thesis
    using same len unfolding linked_nth by simp
qed (use assms in \<open>simp add: link_pair_def\<close>)

lemma link_fold:
  assumes "linked cs" "\<And>p. p \<in> set ps \<Longrightarrow> fst p < length cs \<and> snd p < length cs \<and>
      ca_Category (cs ! fst p) = ''scope'' \<and> ca_Category (cs ! snd p) = ''non_goal''"
  shows "linked (foldl link_pair cs ps) \<and> same_identity cs (foldl link_pair cs ps)"
  using assms
proof (induction ps arbitrary: cs)
  case (Cons p ps)
  obtain i j where p: "p = (i, j)"
    by fastforce
  have step: "linked (link_pair cs p) \<and> same_identity cs (link_pair cs p)"
    using link_pair_step [OF Cons.prems(1), of i j] Cons.prems(2) [of p] by (simp add: p)
  then have "linked (foldl link_pair (link_pair cs p) ps) \<and> same_identity (link_pair cs p) (foldl link_pair (link_pair cs p) ps)"
    using Cons.prems(2) by (intro Cons.IH) (auto simp: same_identity_def)
  then show ?case
    using step same_identity_trans by auto
qed simp

lemma link_non_goals:
  assumes "\<And>c. c \<in> set cs \<Longrightarrow> ca_Conflicts c = []"
  shows "linked (linkApplicableNonGoals cs) \<and> same_identity cs (linkApplicableNonGoals cs)"
  unfolding linkApplicableNonGoals_def
  by (rule link_fold) (use assms in \<open>auto simp: linked_def candidateIndexes_def\<close>)

section \<open>Properties\<close>

lemma add_scopes_ok: "disc_ok s \<Longrightarrow> disc_ok (add_scopes scopes s)"
proof (induction scopes arbitrary: s)
  case (Cons scope scopes)
  have "disc_ok (add_candidate ''scope'' ''user_request'' scope 1 (pathDepth scope) [''category'' \<mapsto> ''scope''] s)"
    by (rule add_candidate_ok [OF Cons.prems]) (simp_all add: found_categories_def)
  then show ?case
    using Cons.IH by (simp add: add_scopes_def)
qed (simp add: add_scopes_def)

lemma entries_add_scopes [simp]: "dc_entries (add_scopes scopes s) = dc_entries s"
  by (induction scopes arbitrary: s) (simp_all add: add_scopes_def)

lemma visit_entry_bound:
  assumes "visit_entry e name node s = (v, s')" "dc_entries s \<le> MaxMetadataEntries" "v = Visit_Next \<or> v = Visit_SkipDir"
  shows "dc_entries s' \<le> MaxMetadataEntries"
  using assms
  by (auto simp: visit_entry_def Let_def visit_git_def visit_directory_def visit_file_def read_instruction_def
      split: if_splits fs_node.splits option.splits)

lemma walk_bound:
  "walk_node e name node s = (Visit_Next, s') \<Longrightarrow> dc_entries s \<le> MaxMetadataEntries \<Longrightarrow> dc_entries s' \<le> MaxMetadataEntries"
  "walk_entries e name entries s = (Visit_Next, s') \<Longrightarrow> dc_entries s \<le> MaxMetadataEntries \<Longrightarrow> dc_entries s' \<le> MaxMetadataEntries"
proof (induction e name node s and e name entries s arbitrary: s' and s' rule: walk_node_walk_entries.induct)
  case (1 e name node s)
  obtain v t where v: "visit_entry e name node s = (v, t)"
    by fastforce
  have t: "dc_entries t \<le> MaxMetadataEntries" if "v = Visit_Next \<or> v = Visit_SkipDir"
    using visit_entry_bound [OF v 1(3) that] .
  show ?case
    using 1(2) t 1(1) [OF v [symmetric]] unfolding walk_node.simps [of e name node s] v
    by (auto split: visit_result.splits fs_node.splits option.splits)
next
  case (3 e name n node rest s)
  obtain v t where v: "walk_node e (path_Join name n) node s = (v, t)"
    by fastforce
  show ?case
    using 3(3) 3(1) [of t] 3(2) [OF v [symmetric]] 3(4) unfolding walk_entries.simps v
    by (auto split: visit_result.splits)
qed (simp add: walk_entries.simps)

lemma walk_no_skip:
  "walk_node e name node s = (v, s') \<Longrightarrow> v \<noteq> Visit_SkipDir"
  "walk_entries e name entries s = (v, s') \<Longrightarrow> v \<noteq> Visit_SkipDir"
proof (induction e name node s and e name entries s arbitrary: v s' and v s' rule: walk_node_walk_entries.induct)
  case (1 e name node s)
  obtain w t where w: "visit_entry e name node s = (w, t)"
    by fastforce
  show ?case
    using 1(2) 1(1) [OF w [symmetric]] unfolding walk_node.simps [of e name node s] w
    by (auto split: visit_result.splits fs_node.splits option.splits)
next
  case (3 e name n node rest s)
  obtain w t where w: "walk_node e (path_Join name n) node s = (w, t)"
    by fastforce
  show ?case
    using 3(3) 3(1) [OF w] 3(2) [OF w [symmetric]] unfolding walk_entries.simps w
    by (auto split: visit_result.splits)
qed (simp add: walk_entries.simps)

lemma Discover_found:
  assumes "Discover env tree scopes = Inr d"
  obtains "d = empty_context" | normalized node s where "normalizeScopes scopes = Inr normalized" "tree = Root node"
    "walk_node (env\<lparr> de_scopes := normalized \<rparr>) ''.'' node (add_scopes normalized disc_start) = (Visit_Next, s)" "d = found_context s"
proof -
  obtain normalized where n: "normalizeScopes scopes = Inr normalized"
    using assms by (auto simp: Discover_def bind_result_eq_Inr)
  show thesis
  proof (cases tree)
    case (Root node)
    obtain v s where w: "walk_node (env\<lparr> de_scopes := normalized \<rparr>) ''.'' node (add_scopes normalized disc_start) = (v, s)"
      by fastforce
    have "v \<noteq> Visit_SkipDir"
      using walk_no_skip(1) [OF w] .
    then have "v = Visit_Next" "d = found_context s"
      using assms n w Root by (auto simp: Discover_def split: visit_result.splits)
    then show ?thesis
      using that(2) n Root w by blast
  qed (use assms n that(1) in \<open>auto simp: Discover_def\<close>)
qed

text \<open>C5: Discovery reads instructions and nothing else. Its result depends on the contents of files only
  through those named as instructions whose directory covers a requested scope: two repositories with
  the same entries whose other files, secrets among them, have any other contents give the same result.\<close>

theorem discovery_reads_instructions_only:
  assumes "\<And>normalized c. normalizeScopes scopes = Inr normalized \<Longrightarrow>
      to_lower (de_lower env) (path_Base c) \<in> {''agents.md'', ''claude.md''} \<Longrightarrow> appliesToScope c normalized \<Longrightarrow>
      de_read env c = contents c"
  shows "Discover (env\<lparr> de_read := contents \<rparr>) tree scopes = Discover env tree scopes"
proof (cases "normalizeScopes scopes")
  case (Inr normalized)
  have "same_instructions (env\<lparr> de_read := contents \<rparr>\<lparr> de_scopes := normalized \<rparr>) (env\<lparr> de_scopes := normalized \<rparr>)"
    using assms [OF Inr] by (auto simp: same_instructions_def instructionFile_def entry_base_def)
  from walk_same(1) [OF this] show ?thesis
    by (simp add: Discover_def Inr split: fs_root.split)
qed (simp add: Discover_def)

text \<open>C6: What discovery finds is well formed. At most ten thousand entries were visited; the candidates are
  sorted by identifiers that are pairwise distinct; every conflict a candidate lists is a candidate that
  lists it back, one of the two a requested scope and the other a non-goal; and every candidate of the category
  instruction has the source kind of repository metadata, because the second candidate of that category
  that an instruction file gives rise to is always dropped as a duplicate of the first.\<close>

theorem discovery_well_formed:
  assumes "Discover env tree scopes = Inr d"
  shows "cx_MetadataEntries d \<le> 10000 \<and> distinct (map ca_ID (cx_Candidates d)) \<and> sorted (map ca_ID (cx_Candidates d)) \<and>
    (\<forall>c \<in> set (cx_Candidates d). \<forall>ref \<in> set (ca_Conflicts c). \<exists>d' \<in> set (cx_Candidates d).
       ca_ID d' = ref \<and> ca_ID c \<in> set (ca_Conflicts d') \<and> {ca_Category c, ca_Category d'} = {''scope'', ''non_goal''}) \<and>
    (\<forall>c \<in> set (cx_Candidates d). ca_Category c = ''instruction'' \<longrightarrow> ca_SourceKind c = ''repository_metadata'')"
  using assms
proof (cases rule: Discover_found)
  case 1
  then show ?thesis
    by (simp add: empty_context_def)
next
  case (2 normalized node s)
  let ?cs = "linkApplicableNonGoals (dc_candidates s)"
  have ok: "disc_ok s"
    using walk_ok(1) [OF add_scopes_ok [OF disc_ok_start]] 2(3) by (metis snd_conv)
  have bound: "dc_entries s \<le> MaxMetadataEntries"
    using walk_bound(1) [OF 2(3)] by (simp add: disc_start_def MaxMetadataEntries_def)
  have link: "linked ?cs" "same_identity (dc_candidates s) ?cs"
    using link_non_goals [of "dc_candidates s"] ok by (auto simp: disc_ok_def candidate_found_def)
  have ids: "map ca_ID ?cs = map ca_ID (dc_candidates s)"
    using link(2) by (simp add: same_identity_def list_eq_iff_nth_eq)
  have kinds: "ca_SourceKind c = ''repository_metadata''" if "c \<in> set ?cs" "ca_Category c = ''instruction''" for c
    using that link(2) ok unfolding disc_ok_def same_identity_def in_set_conv_nth by (metis nth_mem)
  have sets: "set (cx_Candidates d) = set ?cs"
    by (simp add: 2(4) found_context_def set_sort_slice)
  have "distinct (map ca_ID (cx_Candidates d))"
  proof -
    have "mset (map ca_ID (cx_Candidates d)) = mset (map ca_ID (dc_candidates s))"
      by (simp add: 2(4) found_context_def ids [symmetric] mset_sort_slice)
    then show ?thesis
      using ok mset_eq_imp_distinct_iff unfolding disc_ok_def by blast
  qed
  moreover have "sorted (map ca_ID (cx_Candidates d))"
    using candidate_order.sorted_sort_slice by (simp add: 2(4) found_context_def)
  ultimately show ?thesis
    using bound link(1) kinds unfolding sets linked_def by (simp add: 2(4) found_context_def MaxMetadataEntries_def)
qed

section \<open>Witnesses\<close>

definition sample_disc_env :: "(string \<Rightarrow> string option) \<Rightarrow> disc_env" where
  "sample_disc_env contents =
     \<lparr> de_read = contents, de_lower = (\<lambda>r. r), de_ignored = {}, de_cancelled = (\<lambda>_. False), de_scopes = [] \<rparr>"

definition sample_tree :: fs_root where
  "sample_tree = Root (Fs_Dir (Some [(''.env'', Fs_File), (''AGENTS.md'', Fs_File)]))"

theorem discovery_reads_instructions_only_witness:
  "Discover (sample_disc_env (\<lambda>c. Some ''no secret here'')\<lparr> de_read := (\<lambda>c. if c = ''.env'' then Some ''TOKEN=1'' else Some ''no secret here'') \<rparr>)
     sample_tree [''src''] = Discover (sample_disc_env (\<lambda>c. Some ''no secret here'')) sample_tree [''src'']"
proof (rule discovery_reads_instructions_only)
  fix normalized :: "string list" and c :: string
  assume a: "to_lower (de_lower (sample_disc_env (\<lambda>c. Some ''no secret here''))) (path_Base c) \<in> {''agents.md'', ''claude.md''}"
  have "to_lower (\<lambda>r. r) (path_Base ''.env'') = ''.env''"
    by code_simp
  then have "c \<noteq> ''.env''"
    using a by (auto simp: sample_disc_env_def)
  then show "de_read (sample_disc_env (\<lambda>c. Some ''no secret here'')) c = (if c = ''.env'' then Some ''TOKEN=1'' else Some ''no secret here'')"
    by (simp add: sample_disc_env_def)
qed

lemma sample_scope: "normalizeScopes [''src''] = Inr [''src'']"
  by code_simp

theorem discovery_well_formed_witness:
  "\<exists>d. Discover (sample_disc_env (\<lambda>_. None)) (Root (Fs_Dir (Some []))) [''src''] = Inr d \<and> cx_Candidates d \<noteq> [] \<and>
     distinct (map ca_ID (cx_Candidates d))"
proof -
  have base: "entry_path ''.'' = ''''" "path_Base '''' = ''.''" "to_lower (\<lambda>r. r) ''.'' = ''.''"
    by code_simp+
  have "\<exists>d. Discover (sample_disc_env (\<lambda>_. None)) (Root (Fs_Dir (Some []))) [''src''] = Inr d \<and> length (cx_Candidates d) = 1"
    by (simp add: Discover_def sample_scope walk_node.simps walk_entries.simps visit_entry_def visit_directory_def base entry_base_def
        sample_disc_env_def add_scopes_def add_candidate_def disc_start_def MaxMetadataEntries_def found_context_def
        linkApplicableNonGoals_def candidateIndexes_def Let_def)
  then obtain d where d: "Discover (sample_disc_env (\<lambda>_. None)) (Root (Fs_Dir (Some []))) [''src''] = Inr d" "length (cx_Candidates d) = 1"
    by blast
  with discovery_well_formed [OF d(1)] show ?thesis
    by (intro exI [of _ d]) auto
qed

end
