(* ===== verification/Recovery.thy ===== *)
theory Recovery
  imports Go_Num
begin

text \<open>
  \<open>internal/recovery/recovery.go\<close>: the encrypted backup stream. A reader is the sequence of its
  \<open>Read\<close> results, a writer says which of its writes fail and keeps what the others wrote. AES-GCM,
  SHA-256 and the random nonce prefix are arguments; what the round trip needs of AES-GCM (opening
  what was sealed, the length of a sealed chunk) is a hypothesis there.
\<close>

datatype read_end = ReadEOF | ReadFailed

record aead =
  ad_seal :: "string \<Rightarrow> string \<Rightarrow> string \<Rightarrow> string \<Rightarrow> string"
  ad_open :: "string \<Rightarrow> string \<Rightarrow> string \<Rightarrow> string \<Rightarrow> string option"
  ad_overhead :: nat

record backup_metadata =
  bm_PlaintextDigest :: string
  bm_EncryptedDigest :: string
  bm_PlaintextBytes :: int

definition chunkSize :: nat where
  "chunkSize = 2 ^ 20"

definition magic :: string where
  "magic = ''PBDB1''"

text \<open>\<open>binary.BigEndian.PutUint32\<close> and \<open>Uint32\<close>\<close>

definition be32 :: "nat \<Rightarrow> string" where
  "be32 n = [char_of (n div 2 ^ 24), char_of (n div 2 ^ 16), char_of (n div 2 ^ 8), char_of n]"

definition be32_value :: "string \<Rightarrow> nat" where
  "be32_value s = byte (s ! 0) * 2 ^ 24 + byte (s ! 1) * 2 ^ 16 + byte (s ! 2) * 2 ^ 8 + byte (s ! 3)"

definition makeNonce :: "string \<Rightarrow> nat \<Rightarrow> string" where
  "makeNonce salt counter = take 8 (salt @ replicate 8 NUL) @ be32 counter"

type_synonym writer = "string \<times> nat"

definition write_bytes :: "(nat \<Rightarrow> bool) \<Rightarrow> string \<Rightarrow> string \<Rightarrow> writer \<Rightarrow> string + writer" where
  "write_bytes fails msg bytes = (\<lambda>(out, n). if fails n then Inl msg else Inr (out @ bytes, Suc n))"

definition seal_chunk :: "aead \<Rightarrow> string \<Rightarrow> string \<Rightarrow> nat \<Rightarrow> string \<Rightarrow> string" where
  "seal_chunk aead key salt counter chunk =
     ad_seal aead key (makeNonce salt counter) chunk (be32 counter)"

text \<open>The read loop. After the listed reads the reader reports the end of the stream.\<close>

fun encrypt_loop ::
  "aead \<Rightarrow> string \<Rightarrow> string \<Rightarrow> (nat \<Rightarrow> bool) \<Rightarrow> (string \<times> read_end option) list \<Rightarrow> nat \<Rightarrow> string \<Rightarrow> writer \<Rightarrow>
     string + string \<times> writer" where
  "encrypt_loop aead key salt fails [] counter plain w = Inr (plain, w)"
| "encrypt_loop aead key salt fails ((chunk, ended) # reads) counter plain w =
     bind_result
       (if chunk \<noteq> []
        then (if counter = 2 ^ 32 - 1 then Inl ''backup exceeds chunk limit''
              else (let ciphertext = seal_chunk aead key salt (counter + 1) chunk
                    in bind_result (write_bytes fails ''write backup chunk size''
                         (be32 (length ciphertext mod 2 ^ 32)) w) (\<lambda>w1.
                       bind_result (write_bytes fails ''write backup chunk'' ciphertext w1) (\<lambda>w2.
                         Inr (counter + 1, plain @ chunk, w2)))))
        else Inr (counter, plain, w))
       (\<lambda>(counter1, plain1, w1).
          case ended of
            Some ReadEOF \<Rightarrow> Inr (plain1, w1)
          | Some ReadFailed \<Rightarrow> Inl ''read database dump''
          | None \<Rightarrow> encrypt_loop aead key salt fails reads counter1 plain1 w1)"

definition newAEAD :: "string \<Rightarrow> string + unit" where
  "newAEAD key = guard_result (length key \<noteq> 32) ''backup key must be 32 bytes''"

definition encrypt ::
  "aead \<Rightarrow> (string \<Rightarrow> string) \<Rightarrow> string option \<Rightarrow> (nat \<Rightarrow> bool) \<Rightarrow> (string \<times> read_end option) list \<Rightarrow> string \<Rightarrow>
     string + backup_metadata \<times> string" where
  "encrypt aead sha random fails reads key =
     bind_result (newAEAD key) (\<lambda>_.
     case random of
       None \<Rightarrow> Inl ''create backup nonce''
     | Some salt \<Rightarrow>
         bind_result (write_bytes fails ''write backup header'' (magic @ salt) ([], 0)) (\<lambda>w0.
         bind_result (encrypt_loop aead key salt fails reads 0 [] w0) (\<lambda>(plain, w1).
         bind_result (write_bytes fails ''finish encrypted backup'' [NUL, NUL, NUL, NUL] w1) (\<lambda>(out, n).
           Inr (\<lparr> bm_PlaintextDigest = sha plain, bm_EncryptedDigest = sha out,
                  bm_PlaintextBytes = int (length plain) \<rparr>, out)))))"

text \<open>The result carries what reached the destination before the loop stopped.\<close>

function decrypt_loop ::
  "aead \<Rightarrow> string \<Rightarrow> string \<Rightarrow> (nat \<Rightarrow> bool) \<Rightarrow> nat \<Rightarrow> writer \<Rightarrow> string \<Rightarrow> string \<times> string option" where
  "decrypt_loop aead key salt fails counter w rest =
     (if length rest < 4 then (fst w, Some ''read encrypted backup chunk size'')
      else let len = be32_value (take 4 rest); body = drop 4 rest
           in if len = 0
              then (fst w, if body \<noteq> [] then Some ''encrypted backup has trailing data'' else None)
              else if chunkSize + ad_overhead aead < len
              then (fst w, Some ''encrypted backup chunk exceeds limit'')
              else if length body < len then (fst w, Some ''read encrypted backup chunk'')
              else let counter1 = (counter + 1) mod 2 ^ 32
                   in case ad_open aead key (makeNonce salt counter1) (take len body) (be32 counter1) of
                        None \<Rightarrow> (fst w, Some ''authenticate encrypted backup'')
                      | Some plaintext \<Rightarrow>
                          (case write_bytes fails ''write database restore stream'' plaintext w of
                             Inl e \<Rightarrow> (fst w, Some e)
                           | Inr w1 \<Rightarrow> decrypt_loop aead key salt fails counter1 w1 (drop len body)))"
  by pat_completeness auto
termination
  by (relation "measure (\<lambda>(aead, key, salt, fails, counter, w, rest). length rest)") auto

declare decrypt_loop.simps [simp del]

definition decrypt ::
  "aead \<Rightarrow> (nat \<Rightarrow> bool) \<Rightarrow> string \<Rightarrow> string \<Rightarrow> string \<times> string option" where
  "decrypt aead fails archive key =
     (case newAEAD key of
        Inl e \<Rightarrow> ([], Some e)
      | Inr _ \<Rightarrow>
          if length archive < length magic + 8 \<or> take (length magic) archive \<noteq> magic
          then ([], Some ''invalid encrypted backup header'')
          else decrypt_loop aead key (take 8 (drop (length magic) archive)) fails 0 ([], 0)
                 (drop (length magic + 8) archive))"

section \<open>The archive format\<close>

lemma base256_horner:
  "n = a * 256 + x \<Longrightarrow> a = b * 256 + y \<Longrightarrow> b = c * 256 + z \<Longrightarrow>
     (n :: nat) = c * 2 ^ 24 + z * 2 ^ 16 + y * 2 ^ 8 + x"
  by simp

lemma base256_digits: "(n :: nat) = (n div 256 div 256 div 256) * 2 ^ 24 +
    (n div 256 div 256 mod 256) * 2 ^ 16 + (n div 256 mod 256) * 2 ^ 8 + n mod 256"
proof -
  have split: "m = m div 256 * 256 + m mod 256" for m :: nat
    by (rule div_mult_mod_eq [symmetric])
  show ?thesis
    by (rule base256_horner [OF split split split])
qed

lemma be32_value_be32: "n < 2 ^ 32 \<Longrightarrow> be32_value (be32 n) = n"
proof -
  assume n: "n < 2 ^ 32"
  have d16: "n div 2 ^ 16 = n div 256 div 256" and d24: "n div 2 ^ 24 = n div 256 div 256 div 256"
    by (simp_all flip: div_mult2_eq)
  have "n div 256 div 256 div 256 mod 256 = n div 256 div 256 div 256"
    using n by (intro mod_less) (simp add: less_mult_imp_div_less flip: div_mult2_eq)
  then have "be32_value (be32 n) = (n div 256 div 256 div 256) * 2 ^ 24 +
      (n div 256 div 256 mod 256) * 2 ^ 16 + (n div 256 mod 256) * 2 ^ 8 + n mod 256"
    unfolding be32_value_def be32_def d16 d24 by simp
  then show ?thesis
    using base256_digits [of n] by simp
qed

lemma length_be32 [simp]: "length (be32 n) = 4"
  by (simp add: be32_def)

definition frame :: "aead \<Rightarrow> string \<Rightarrow> string \<Rightarrow> nat \<Rightarrow> string \<Rightarrow> string" where
  "frame aead key salt counter chunk =
     (let ciphertext = seal_chunk aead key salt counter chunk
      in be32 (length ciphertext mod 2 ^ 32) @ ciphertext)"

fun frames :: "aead \<Rightarrow> string \<Rightarrow> string \<Rightarrow> nat \<Rightarrow> string list \<Rightarrow> string" where
  "frames aead key salt counter [] = []"
| "frames aead key salt counter (chunk # chunks) =
     frame aead key salt (counter + 1) chunk @ frames aead key salt (counter + 1) chunks"

definition archive_of :: "aead \<Rightarrow> string \<Rightarrow> string \<Rightarrow> string list \<Rightarrow> string" where
  "archive_of aead key salt chunks =
     magic @ salt @ frames aead key salt 0 chunks @ [NUL, NUL, NUL, NUL]"

text \<open>A dump delivered in the given chunks, each read returning one, then the end of the stream.\<close>

definition dump_reads :: "string list \<Rightarrow> (string \<times> read_end option) list" where
  "dump_reads chunks = map (\<lambda>c. (c, None)) chunks @ [([], Some ReadEOF)]"

definition good_chunks :: "string list \<Rightarrow> bool" where
  "good_chunks chunks \<longleftrightarrow> (\<forall>c \<in> set chunks. c \<noteq> [] \<and> length c \<le> chunkSize) \<and> length chunks < 2 ^ 32"

lemma encrypt_loop_frames:
  assumes "\<forall>c \<in> set chunks. c \<noteq> []" and "counter + length chunks < 2 ^ 32"
  shows "\<exists>n. encrypt_loop aead key salt (\<lambda>_. False) (dump_reads chunks) counter plain (out, k) =
    Inr (plain @ concat chunks, out @ frames aead key salt counter chunks, n)"
  using assms
proof (induction chunks arbitrary: counter plain out k)
  case Nil
  then show ?case
    by (simp add: dump_reads_def)
next
  case (Cons c chunks)
  let ?ct = "seal_chunk aead key salt (counter + 1) c"
  obtain n where "encrypt_loop aead key salt (\<lambda>_. False) (dump_reads chunks) (counter + 1) (plain @ c)
      (out @ be32 (length ?ct mod 2 ^ 32) @ ?ct, Suc (Suc k)) =
    Inr ((plain @ c) @ concat chunks,
      (out @ be32 (length ?ct mod 2 ^ 32) @ ?ct) @ frames aead key salt (counter + 1) chunks, n)"
    using Cons.IH [of "counter + 1" "plain @ c" "out @ be32 (length ?ct mod 2 ^ 32) @ ?ct" "Suc (Suc k)"]
      Cons.prems by auto
  then show ?case
    using Cons.prems by (auto simp: dump_reads_def write_bytes_def frame_def Let_def)
qed

lemma encrypt_archive:
  assumes "length key = 32" and "good_chunks chunks"
  shows "\<exists>meta. encrypt aead sha (Some salt) (\<lambda>_. False) (dump_reads chunks) key =
    Inr (meta, archive_of aead key salt chunks) \<and> bm_PlaintextDigest meta = sha (concat chunks) \<and>
    bm_PlaintextBytes meta = int (length (concat chunks))"
proof -
  obtain n where "encrypt_loop aead key salt (\<lambda>_. False) (dump_reads chunks) 0 [] (magic @ salt, 1) =
      Inr ([] @ concat chunks, (magic @ salt) @ frames aead key salt 0 chunks, n)"
    using encrypt_loop_frames [of chunks 0 aead key salt "[]" "magic @ salt" 1] assms(2)
    unfolding good_chunks_def by auto
  then show ?thesis
    using assms(1)
    by (simp add: encrypt_def newAEAD_def write_bytes_def archive_of_def)
qed

section \<open>Reading the archive back\<close>

definition opens_sealed :: "aead \<Rightarrow> bool" where
  "opens_sealed aead \<longleftrightarrow> (\<forall>key nonce plain ad.
     ad_open aead key nonce (ad_seal aead key nonce plain ad) ad = Some plain \<and>
     length (ad_seal aead key nonce plain ad) = length plain + ad_overhead aead) \<and>
     ad_overhead aead \<le> 2 ^ 20"

lemma decrypt_frame:
  assumes "opens_sealed aead" and "c \<noteq> []" and "length c \<le> chunkSize" and "counter + 1 < 2 ^ 32"
  shows "decrypt_loop aead key salt (\<lambda>_. False) counter (out, k)
      (frame aead key salt (counter + 1) c @ rest) =
    decrypt_loop aead key salt (\<lambda>_. False) (counter + 1) (out @ c, Suc k) rest"
proof -
  let ?ct = "seal_chunk aead key salt (counter + 1) c"
  have len: "length ?ct = length c + ad_overhead aead"
    using assms(1) by (simp add: seal_chunk_def opens_sealed_def)
  then have small: "length ?ct < 2 ^ 32"
    using assms(1,3) by (simp add: opens_sealed_def chunkSize_def)
  have val: "be32_value (be32 (length ?ct mod 2 ^ 32)) = length ?ct"
    using be32_value_be32 [of "length ?ct"] small by simp
  have "ad_open aead key (makeNonce salt (counter + 1)) ?ct (be32 (counter + 1)) = Some c"
    using assms(1) by (simp add: seal_chunk_def opens_sealed_def)
  then show ?thesis
    using assms(2,3,4) len val small
    by (subst decrypt_loop.simps)
      (simp add: frame_def Let_def write_bytes_def mod_less)
qed

lemma decrypt_end:
  "decrypt_loop aead key salt fails counter w [NUL, NUL, NUL, NUL] = (fst w, None)"
  by (subst decrypt_loop.simps) (simp add: be32_value_def)

lemma decrypt_frames:
  assumes "opens_sealed aead" and "\<forall>c \<in> set chunks. c \<noteq> [] \<and> length c \<le> chunkSize"
    and "counter + length chunks < 2 ^ 32"
  shows "decrypt_loop aead key salt (\<lambda>_. False) counter (out, k)
      (frames aead key salt counter chunks @ [NUL, NUL, NUL, NUL]) = (out @ concat chunks, None)"
  using assms(2,3)
proof (induction chunks arbitrary: counter out k)
  case Nil
  then show ?case
    by (simp add: decrypt_end)
next
  case (Cons c chunks)
  then show ?case
    using decrypt_frame [OF assms(1), of c counter key salt out k] by simp
qed

lemma decrypt_archive:
  assumes "opens_sealed aead" and "good_chunks chunks" and "length salt = 8" and "length key = 32"
  shows "decrypt aead (\<lambda>_. False) (archive_of aead key salt chunks) key = (concat chunks, None)"
proof -
  have "decrypt_loop aead key salt (\<lambda>_. False) 0 ([], 0)
      (frames aead key salt 0 chunks @ [NUL, NUL, NUL, NUL]) = ([] @ concat chunks, None)"
    using assms(1,2) by (intro decrypt_frames) (auto simp: good_chunks_def)
  then show ?thesis
    using assms(3,4) by (simp add: decrypt_def archive_of_def magic_def newAEAD_def)
qed

text \<open>C21: a backup restores exactly. For a dump delivered in any chunks of at most one MiB, encrypt
  writes an archive, records the digest and the length of the plaintext, and decrypt with the same
  key hands the restore exactly the bytes of the dump, without an error.\<close>
theorem backup_roundtrip:
  assumes "opens_sealed aead" and "good_chunks chunks" and "length salt = 8" and "length key = 32"
  shows "\<exists>meta archive. encrypt aead sha (Some salt) (\<lambda>_. False) (dump_reads chunks) key =
      Inr (meta, archive) \<and>
    decrypt aead (\<lambda>_. False) archive key = (concat chunks, None) \<and>
    bm_PlaintextDigest meta = sha (concat chunks) \<and> bm_PlaintextBytes meta = int (length (concat chunks))"
  using encrypt_archive [OF assms(4,2)] decrypt_archive [OF assms] by blast

text \<open>A cipher that only appends its overhead meets the contract the theorems use.\<close>

abbreviation plain_aead :: aead where
  "plain_aead \<equiv> \<lparr> ad_seal = (\<lambda>key nonce plain ad. plain @ replicate 16 NUL),
     ad_open = (\<lambda>key nonce ct ad. Some (take (length ct - 16) ct)), ad_overhead = 16 \<rparr>"

lemma plain_aead_opens: "opens_sealed plain_aead"
  by (simp add: opens_sealed_def)

theorem backup_roundtrip_witness:
  "\<exists>meta archive. encrypt plain_aead (\<lambda>m. m) (Some (replicate 8 (CHR ''n''))) (\<lambda>_. False)
      (dump_reads [''first'', ''second'']) (replicate 32 (CHR ''k'')) = Inr (meta, archive) \<and>
    decrypt plain_aead (\<lambda>_. False) archive (replicate 32 (CHR ''k'')) = (''firstsecond'', None)"
proof -
  have good: "good_chunks [''first'', ''second'']"
    by (simp add: good_chunks_def chunkSize_def)
  have whole: "concat [''first'', ''second''] = ''firstsecond''"
    by simp
  show ?thesis
    using backup_roundtrip [OF plain_aead_opens good, of "replicate 8 (CHR ''n'')"
        "replicate 32 (CHR ''k'')" "\<lambda>m. m"] unfolding whole length_replicate by blast
qed

section \<open>Truncated archives\<close>

lemma frames_append:
  "frames aead key salt counter (xs @ ys) =
     frames aead key salt counter xs @ frames aead key salt (counter + length xs) ys"
  by (induction xs arbitrary: counter) simp_all

text \<open>C22: the end of an archive is not authenticated. Cutting any number of whole chunks off the end
  of an archive and appending four zero bytes gives, without the key, an archive that decrypt accepts:
  the restore receives the dump without its last chunks and no error is reported.\<close>
theorem truncated_archive_accepted:
  assumes "opens_sealed aead" and "good_chunks (kept @ dropped)" and "length salt = 8"
    and "length key = 32"
    and "encrypt aead sha (Some salt) (\<lambda>_. False) (dump_reads (kept @ dropped)) key = Inr (meta, archive)"
  shows "\<exists>n. decrypt aead (\<lambda>_. False) (take n archive @ [NUL, NUL, NUL, NUL]) key = (concat kept, None)"
proof -
  let ?head = "magic @ salt @ frames aead key salt 0 kept"
  have "archive = archive_of aead key salt (kept @ dropped)"
    using encrypt_archive [OF assms(4,2), of aead sha salt] assms(5) by auto
  then have "take (length ?head) archive = ?head"
    by (simp add: archive_of_def frames_append)
  then have "take (length ?head) archive @ [NUL, NUL, NUL, NUL] = archive_of aead key salt kept"
    by (simp add: archive_of_def)
  moreover have "good_chunks kept"
    using assms(2) by (auto simp: good_chunks_def)
  ultimately show ?thesis
    using decrypt_archive [OF assms(1) _ assms(3,4)] by metis
qed

theorem truncated_archive_accepted_witness:
  "\<exists>n meta archive. encrypt plain_aead (\<lambda>m. m) (Some (replicate 8 (CHR ''n''))) (\<lambda>_. False)
      (dump_reads [''first'', ''second'']) (replicate 32 (CHR ''k'')) = Inr (meta, archive) \<and>
    decrypt plain_aead (\<lambda>_. False) (take n archive @ [NUL, NUL, NUL, NUL]) (replicate 32 (CHR ''k''))
      = (''first'', None)"
proof -
  have good: "good_chunks ([''first''] @ [''second''])"
    by (simp add: good_chunks_def chunkSize_def)
  obtain meta archive where e: "encrypt plain_aead (\<lambda>m. m) (Some (replicate 8 (CHR ''n''))) (\<lambda>_. False)
      (dump_reads ([''first''] @ [''second''])) (replicate 32 (CHR ''k'')) = Inr (meta, archive)"
    using encrypt_archive [OF length_replicate good] by blast
  obtain n where "decrypt plain_aead (\<lambda>_. False) (take n archive @ [NUL, NUL, NUL, NUL])
      (replicate 32 (CHR ''k'')) = (concat [''first''], None)"
    using truncated_archive_accepted [OF plain_aead_opens good _ _ e] unfolding length_replicate by blast
  then show ?thesis
    using e unfolding append_Cons append_Nil concat.simps append_Nil2 by blast
qed

end
