(* ===== verification/Retention.thy ===== *)
theory Retention
  imports Collection_Store_Props Recovery
begin

text \<open>
  \<open>internal/store/postgres/retention.go\<close> and \<open>internal/retention/archive.go\<close>: expired evidence is planned,
  archived in an encrypted file that is read back, and then deleted. The tables are lists of the rows
  and columns the statements name, with the cascades of the schema. SHA-256, AES-GCM, the JSON coder,
  the random nonce, the clock and the file system's answers are arguments; what the database answers
  in an attempt is the environment of \<open>Collection_Store\<close>.
\<close>

section \<open>Tables\<close>

record retention_policy =
  py_ID :: string
  py_ProjectID :: string
  py_Version :: string
  py_Classification :: string
  py_Seconds :: int
  py_LegalHold :: bool
  py_CreatedAt :: go_time
  py_Retired :: bool

record archive_record =
  av_EvidenceID :: string
  av_SourceID :: string
  av_ProjectID :: string
  av_SessionID :: "string option"
  av_ExternalAliasID :: "string option"
  av_SchemaVersion :: string
  av_ContentHash :: string
  av_ContentLength :: int
  av_Classification :: string
  av_RedactionState :: string
  av_CoverageState :: string
  av_Provenance :: string
  av_ProductSurface :: string
  av_ObservedAt :: go_time
  av_RetainedUntil :: "go_time option"

text \<open>A stored artifact: the columns that are archived and whether \<open>deleted_at\<close> is set.\<close>

record stored_evidence =
  sd_record :: archive_record
  sd_deleted :: bool

record retention_action =
  ra_ID :: string
  ra_PolicyID :: string
  ra_ProjectID :: string
  ra_Key :: string
  ra_CutoffAt :: go_time
  ra_Planned :: nat
  ra_Applied :: nat
  ra_Status :: string

record archive_batch =
  ab_ID :: string
  ab_ProjectID :: string
  ab_ActionID :: string
  ab_Reference :: string
  ab_KeyReference :: string
  ab_RangeStart :: go_time
  ab_RangeEnd :: go_time
  ab_Count :: nat
  ab_PlaintextDigest :: string
  ab_EncryptedDigest :: string
  ab_VerifiedAt :: go_time

record retention_entity =
  rx_ID :: string
  rx_ActionID :: string
  rx_BatchID :: string
  rx_Planned :: nat
  rx_Deleted :: nat
  rx_Digest :: string

record retention_db =
  rb_policies :: "retention_policy list"
  rb_evidence :: "stored_evidence list"
  rb_links :: "(string \<times> string \<times> string) list"
  rb_results :: "(string \<times> string) list"
  rb_findings :: "(string \<times> string) list"
  rb_observations :: "(string option \<times> string option) list"
  rb_recommendations :: "(string \<times> string) list"
  rb_events :: "(string \<times> string option) list"
  rb_revisions :: "(string \<times> string) list"
  rb_windows :: "(string \<times> string) list"
  rb_aliases :: "(string \<times> string) list"
  rb_sessions :: "string list"
  rb_trajectories :: "(string \<times> string) list"
  rb_turns :: "(string \<times> string option) list"
  rb_tasks :: "string list"
  rb_actions :: "retention_action list"
  rb_batches :: "archive_batch list"
  rb_entities :: "retention_entity list"

text \<open>
  Links are (artifact, kind of target, target); results, findings and recommendations are paired with
  their revision, observations with their revision and artifact, events with their recommendation and
  artifact, revisions with their window, windows and aliases with their project, trajectories with
  their session, turns with their trajectory and task.
\<close>

definition evidence_id :: "stored_evidence \<Rightarrow> string" where
  "evidence_id e = av_EvidenceID (sd_record e)"

section \<open>Policies\<close>

definition nanoseconds :: int where
  "nanoseconds = 10 ^ 9"

text \<open>\<open>int64(policy.RetainFor/time.Second)\<close>; the duration is not negative here.\<close>

definition policy_row :: "retention_policy \<Rightarrow> go_duration \<Rightarrow> retention_policy" where
  "policy_row p retainFor = p\<lparr> py_Seconds := retainFor div nanoseconds, py_Retired := False \<rparr>"

definition PutRetentionPolicy ::
  "bool \<Rightarrow> retention_policy \<Rightarrow> go_duration \<Rightarrow> retention_policy list \<Rightarrow> string + retention_policy list" where
  "PutRetentionPolicy fails p retainFor rows =
     (if retainFor < 0 then Inl ''retention duration must not be negative''
      else if fails then Inl ''persist retention policy''
      else let new = policy_row p retainFor;
               conflict = (\<lambda>q. py_ProjectID q = py_ProjectID p \<and> py_Classification q = py_Classification p \<and> \<not> py_Retired q)
           in if list_ex conflict rows
              then Inr (map (\<lambda>q. if conflict q then q\<lparr> py_Version := py_Version new, py_Seconds := py_Seconds new,
                                    py_LegalHold := py_LegalHold new \<rparr> else q) rows)
              else if py_ID p \<in> set (map py_ID rows) then Inl ''persist retention policy''
              else Inr (rows @ [new]))"

definition due :: "retention_policy \<Rightarrow> go_time \<Rightarrow> stored_evidence \<Rightarrow> bool" where
  "due p asOf e \<longleftrightarrow>
     py_ProjectID p = av_ProjectID (sd_record e) \<and> py_Classification p = av_Classification (sd_record e) \<and> \<not> py_Retired p \<and>
     \<not> sd_deleted e \<and> \<not> py_LegalHold p \<and>
     (case av_RetainedUntil (sd_record e) of
        Some t \<Rightarrow> t
      | None \<Rightarrow> av_ObservedAt (sd_record e) + py_Seconds p * nanoseconds) \<le> asOf"

section \<open>Plans\<close>

record retention_plan =
  pl_PolicyID :: string
  pl_ProjectID :: string
  pl_AsOf :: go_time
  pl_Records :: "archive_record list"
  pl_Digest :: string

record retention_env =
  rt_sha256 :: "string \<Rightarrow> string"
  rt_encode :: "string \<Rightarrow> string \<Rightarrow> go_time \<Rightarrow> archive_record list \<Rightarrow> string option"
  rt_match :: "archive_record list \<Rightarrow> string option"

definition maxRetentionBatch :: int where
  "maxRetentionBatch = 1000"

definition EncodeArchive :: "retention_env \<Rightarrow> retention_plan \<Rightarrow> string + string" where
  "EncodeArchive env plan =
     (case rt_encode env (pl_PolicyID plan) (pl_ProjectID plan) (pl_AsOf plan) (pl_Records plan) of
        None \<Rightarrow> Inl ''encode normalized archive''
      | Some encoded \<Rightarrow> Inr encoded)"

definition evidence_before :: "stored_evidence \<Rightarrow> stored_evidence \<Rightarrow> bool" where
  "evidence_before a b \<longleftrightarrow>
     (if av_ObservedAt (sd_record a) \<noteq> av_ObservedAt (sd_record b)
      then av_ObservedAt (sd_record a) < av_ObservedAt (sd_record b) else evidence_id a < evidence_id b)"

definition due_rows :: "retention_db \<Rightarrow> string \<Rightarrow> go_time \<Rightarrow> stored_evidence list" where
  "due_rows db policyID asOf =
     filter (\<lambda>e. list_ex (\<lambda>p. py_ID p = policyID \<and> due p asOf e) (rb_policies db)) (rb_evidence db)"

text \<open>The plan of the next batch; the first two arguments say which of the two queries fails.\<close>

definition PlanRetention ::
  "bool \<Rightarrow> bool \<Rightarrow> retention_env \<Rightarrow> string \<Rightarrow> go_time \<Rightarrow> int \<Rightarrow> retention_db \<Rightarrow> store_error + retention_plan" where
  "PlanRetention policy_fails rows_fail env policyID asOf limit db =
     (if policyID = '''' \<or> limit < 1 \<or> limit > maxRetentionBatch then Inl (StoreError ''invalid retention plan request'')
      else if policy_fails then Inl (StoreError ''read retention policy'')
      else case find (\<lambda>p. py_ID p = policyID \<and> \<not> py_Retired p) (rb_policies db) of
          None \<Rightarrow> Inl ErrNotFound
        | Some p \<Rightarrow>
            if rows_fail then Inl (StoreError ''plan retention'')
            else let plan = \<lparr> pl_PolicyID = policyID, pl_ProjectID = py_ProjectID p, pl_AsOf = asOf,
                       pl_Records = map sd_record (take (nat limit) (sort_slice evidence_before (due_rows db policyID asOf))),
                       pl_Digest = '''' \<rparr>
                 in case EncodeArchive env plan of
                      Inl e \<Rightarrow> Inl (StoreError e)
                    | Inr encoded \<Rightarrow> Inr (plan\<lparr> pl_Digest := rt_sha256 env encoded \<rparr>))"

section \<open>The archive file\<close>

record archive_receipt =
  ac_BatchID :: string
  ac_ArchiveReference :: string
  ac_KeyReference :: string
  ac_EncryptedDigest :: string
  ac_PlaintextDigest :: string
  ac_VerifiedAt :: go_time

record file_archiver =
  fa_directory :: string
  fa_keyRef :: string
  fa_key :: string
  fa_aead :: aead
  fa_nonceSize :: nat

text \<open>What the operating system answers during one archive: \<open>os_partial\<close> is what a failed write left behind,
  \<open>os_read\<close> the content a file is read back with. The directory is taken as it is spelled.\<close>

record os_env =
  os_cancelled :: bool
  os_nonce :: "string option"
  os_mkdir_fails :: bool
  os_write_fails :: bool
  os_partial :: "string option"
  os_rename_fails :: bool
  os_read :: "string \<Rightarrow> string \<Rightarrow> string option"
  os_now :: go_time

definition archiveVersion :: string where
  "archiveVersion = [CHR 0x01]"

definition NewFileArchiver ::
  "aead \<Rightarrow> nat \<Rightarrow> string \<Rightarrow> string \<Rightarrow> string \<Rightarrow> string + file_archiver" where
  "NewFileArchiver aead nonceSize directory keyReference key =
     (if directory = '''' \<or> keyReference = '''' \<or> length key \<noteq> 32 then Inl ''invalid archive encryption configuration''
      else Inr \<lparr> fa_directory = directory, fa_keyRef = keyReference, fa_key = key, fa_aead = aead, fa_nonceSize = nonceSize \<rparr>)"

definition open_archive :: "file_archiver \<Rightarrow> string \<Rightarrow> string option" where
  "open_archive a data =
     ad_open (fa_aead a) (fa_key a) (take (fa_nonceSize a) (drop 1 data)) (drop (1 + fa_nonceSize a) data) archiveVersion"

definition archive_verify :: "retention_env \<Rightarrow> file_archiver \<Rightarrow> string option \<Rightarrow> string \<Rightarrow> string + unit" where
  "archive_verify env a file expected =
     (case file of
        None \<Rightarrow> Inl ''read encrypted archive''
      | Some data \<Rightarrow>
          if length data < 1 + fa_nonceSize a \<or> take 1 data \<noteq> archiveVersion then Inl ''invalid encrypted archive''
          else (case open_archive a data of
                  None \<Rightarrow> Inl ''verify encrypted archive''
                | Some plaintext \<Rightarrow>
                    if rt_sha256 env plaintext \<noteq> expected then Inl ''archive integrity mismatch'' else Inr ()))"

definition archive_path :: "file_archiver \<Rightarrow> string \<Rightarrow> string" where
  "archive_path a name = fa_directory a @ ''/'' @ name"

definition Archive ::
  "retention_env \<Rightarrow> os_env \<Rightarrow> file_archiver \<Rightarrow> string \<Rightarrow> retention_plan \<Rightarrow> (string \<Rightarrow> string option) \<Rightarrow>
   (string + archive_receipt) \<times> (string \<Rightarrow> string option)" where
  "Archive env os a batchID plan files =
     (if os_cancelled os then (Inl ''context canceled'', files)
      else if batchID = '''' \<or> pl_Records plan = [] then (Inl ''invalid archive request'', files)
      else case EncodeArchive env plan of
          Inl e \<Rightarrow> (Inl e, files)
        | Inr plaintext \<Rightarrow>
            if rt_sha256 env plaintext \<noteq> pl_Digest plan then (Inl ''archive plan digest mismatch'', files)
            else case os_nonce os of
                None \<Rightarrow> (Inl ''create archive nonce'', files)
              | Some nonce \<Rightarrow>
                  let data = archiveVersion @ nonce @ ad_seal (fa_aead a) (fa_key a) nonce plaintext archiveVersion;
                      encryptedDigest = rt_sha256 env data;
                      path = archive_path a (hex_encode encryptedDigest @ ''.pba'');
                      temporary = path @ ''.tmp''
                  in if os_mkdir_fails os then (Inl ''create archive directory'', files)
                     else if os_write_fails os then (Inl ''write encrypted archive'', files(temporary := os_partial os))
                     else if os_rename_fails os
                       then (Inl ''replace encrypted archive'', files(temporary := None))
                     else let files = (files(temporary := None))(path \<mapsto> data)
                          in case archive_verify env a (os_read os path data) (rt_sha256 env plaintext) of
                               Inl e \<Rightarrow> (Inl e, files)
                             | Inr _ \<Rightarrow>
                                 (Inr \<lparr> ac_BatchID = batchID, ac_ArchiveReference = ''sha256:'' @ hex_encode encryptedDigest,
                                    ac_KeyReference = fa_keyRef a, ac_EncryptedDigest = encryptedDigest,
                                    ac_PlaintextDigest = rt_sha256 env plaintext, ac_VerifiedAt = os_now os \<rparr>, files))"

section \<open>Deleting what was archived\<close>

record retention_apply =
  ry_ActionID :: string
  ry_ActionEntityID :: string
  ry_Plan :: retention_plan
  ry_Receipt :: archive_receipt

definition zero_digest :: string where
  "zero_digest = replicate 32 NUL"

definition receipt_matches :: "retention_apply \<Rightarrow> string \<Rightarrow> bool" where
  "receipt_matches a planDigest \<longleftrightarrow>
     pl_Records (ry_Plan a) \<noteq> [] \<and> pl_Digest (ry_Plan a) = planDigest \<and> ac_VerifiedAt (ry_Receipt a) \<noteq> 0 \<and>
     ac_PlaintextDigest (ry_Receipt a) = planDigest \<and> ac_BatchID (ry_Receipt a) \<noteq> '''' \<and>
     ac_KeyReference (ry_Receipt a) \<noteq> '''' \<and> ac_EncryptedDigest (ry_Receipt a) \<noteq> zero_digest \<and>
     ac_ArchiveReference (ry_Receipt a) = ''sha256:'' @ hex_encode (ac_EncryptedDigest (ry_Receipt a))"

fun session_loop :: "string list \<Rightarrow> archive_record list \<Rightarrow> string list" where
  "session_loop acc [] = acc"
| "session_loop acc (r # rs) =
     (case av_SessionID r of
        None \<Rightarrow> session_loop acc rs
      | Some s \<Rightarrow> session_loop (if s \<in> set acc then acc else acc @ [s]) rs)"

definition archiveSessionIDs :: "archive_record list \<Rightarrow> string list" where
  "archiveSessionIDs records = session_loop [] records"

definition encodeArchiveMatchRecords :: "retention_env \<Rightarrow> archive_record list \<Rightarrow> string + string" where
  "encodeArchiveMatchRecords env records =
     (case rt_match env records of None \<Rightarrow> Inl ''encode retention match records'' | Some payload \<Rightarrow> Inr payload)"

text \<open>The rows of the join of the archived records with the stored artifacts and the policy.\<close>

definition archived_matches :: "retention_plan \<Rightarrow> retention_db \<Rightarrow> string list" where
  "archived_matches plan db =
     concat (map (\<lambda>r. concat (map (\<lambda>e. map (\<lambda>p. evidence_id e)
         (filter (\<lambda>p. py_ID p = pl_PolicyID plan \<and> sd_record e = r \<and> av_ProjectID r = pl_ProjectID plan \<and> due p (pl_AsOf plan) e)
            (rb_policies db))) (rb_evidence db))) (pl_Records plan))"

definition validateArchivedPlan :: "tx_env \<Rightarrow> retention_plan \<Rightarrow> retention_db \<Rightarrow> store_error + unit" where
  "validateArchivedPlan tx plan db =
     bind_result (statement tx ''recheck archived retention plan'' '''') (\<lambda>_.
     bind_result (statement tx ''decode archived retention match'' '''') (\<lambda>_.
     bind_result (statement tx ''iterate archived retention plan'' '''') (\<lambda>_.
       if length (archived_matches plan db) \<noteq> length (pl_Records plan)
       then Inl (StoreError ''retention plan changed before apply'') else Inr ())))"

definition retentionTaskIDs :: "tx_env \<Rightarrow> string list \<Rightarrow> retention_db \<Rightarrow> store_error + string list" where
  "retentionTaskIDs tx sessionIDs db =
     (if sessionIDs = [] then Inr []
      else bind_result (statement tx ''select expired task candidates'' '''') (\<lambda>_.
           bind_result (statement tx ''decode expired task candidate'' '''') (\<lambda>_.
           bind_result (statement tx ''iterate expired task candidates'' '''') (\<lambda>_.
             Inr (remdups (List.map_filter (\<lambda>(trajectory, task).
               case map_of (rb_trajectories db) trajectory of
                 Some s \<Rightarrow> if s \<in> set sessionIDs then task else None
               | None \<Rightarrow> None) (rb_turns db)))))))"

text \<open>Cascades of the schema.\<close>

definition delete_revisions :: "string set \<Rightarrow> retention_db \<Rightarrow> retention_db" where
  "delete_revisions R db =
     (let recs = set (map fst (filter (\<lambda>(_, rev). rev \<in> R) (rb_recommendations db)))
      in db\<lparr> rb_revisions := filter (\<lambda>(rev, _). rev \<notin> R) (rb_revisions db),
             rb_results := filter (\<lambda>(_, rev). rev \<notin> R) (rb_results db),
             rb_findings := filter (\<lambda>(_, rev). rev \<notin> R) (rb_findings db),
             rb_recommendations := filter (\<lambda>(_, rev). rev \<notin> R) (rb_recommendations db),
             rb_events := filter (\<lambda>(rec, _). rec \<notin> recs) (rb_events db),
             rb_observations := filter (\<lambda>(rev, _). case rev of None \<Rightarrow> True | Some v \<Rightarrow> v \<notin> R) (rb_observations db) \<rparr>)"

definition delete_evidence :: "(stored_evidence \<Rightarrow> bool) \<Rightarrow> retention_db \<Rightarrow> retention_db" where
  "delete_evidence gone db =
     (let ids = set (map evidence_id (filter gone (rb_evidence db)))
      in db\<lparr> rb_evidence := filter (\<lambda>e. \<not> gone e) (rb_evidence db),
             rb_links := filter (\<lambda>(e, _). e \<notin> ids) (rb_links db),
             rb_observations := filter (\<lambda>(_, e). case e of None \<Rightarrow> True | Some v \<Rightarrow> v \<notin> ids) (rb_observations db),
             rb_events := map (\<lambda>(rec, e). (rec, case e of None \<Rightarrow> None | Some v \<Rightarrow> if v \<in> ids then None else Some v)) (rb_events db) \<rparr>)"

definition delete_sessions :: "string set \<Rightarrow> retention_db \<Rightarrow> retention_db" where
  "delete_sessions S db =
     (let trajectories = set (map fst (filter (\<lambda>(_, s). s \<in> S) (rb_trajectories db)))
      in delete_evidence (\<lambda>e. case av_SessionID (sd_record e) of None \<Rightarrow> False | Some s \<Rightarrow> s \<in> S)
           (db\<lparr> rb_sessions := filter (\<lambda>s. s \<notin> S) (rb_sessions db),
                rb_trajectories := filter (\<lambda>(_, s). s \<notin> S) (rb_trajectories db),
                rb_turns := filter (\<lambda>(t, _). t \<notin> trajectories) (rb_turns db) \<rparr>))"

text \<open>The revisions an artifact of the batch supports and no other artifact does.\<close>

definition link_revision :: "retention_db \<Rightarrow> string \<times> string \<times> string \<Rightarrow> string option" where
  "link_revision db link =
     (let (_, kind, target) = link
      in if kind = ''audit_revision'' then Some target
         else if kind = ''metric_result'' then map_of (rb_results db) target
         else if kind = ''finding'' then map_of (rb_findings db) target
         else None)"

definition link_revisions :: "retention_db \<Rightarrow> (string \<Rightarrow> bool) \<Rightarrow> string set" where
  "link_revisions db P = set (List.map_filter (link_revision db) (filter (\<lambda>(e, _). P e) (rb_links db)))"

definition observation_revisions :: "retention_db \<Rightarrow> (string \<Rightarrow> bool) \<Rightarrow> string set" where
  "observation_revisions db P =
     set (List.map_filter (\<lambda>(rev, e). case e of None \<Rightarrow> None | Some v \<Rightarrow> if P v then rev else None) (rb_observations db))"

definition event_revisions :: "retention_db \<Rightarrow> (string \<Rightarrow> bool) \<Rightarrow> string set" where
  "event_revisions db P =
     set (List.map_filter (\<lambda>(rec, e). case e of None \<Rightarrow> None | Some v \<Rightarrow>
       if P v then map_of (rb_recommendations db) rec else None) (rb_events db))"

definition supported_revisions :: "retention_db \<Rightarrow> (string \<Rightarrow> bool) \<Rightarrow> string set" where
  "supported_revisions db P = link_revisions db P \<union> observation_revisions db P \<union> event_revisions db P"

definition deleteExpiredAuditRevisions :: "tx_env \<Rightarrow> string list \<Rightarrow> retention_db \<Rightarrow> store_error + retention_db" where
  "deleteExpiredAuditRevisions tx ids db =
     bind_result (statement tx ''delete expired audit revisions'' '''') (\<lambda>_.
       Inr (delete_revisions (supported_revisions db (\<lambda>e. e \<in> set ids) - supported_revisions db (\<lambda>e. e \<notin> set ids)) db))"

definition live_in_session :: "retention_db \<Rightarrow> string \<Rightarrow> bool" where
  "live_in_session db s = list_ex (\<lambda>e. av_SessionID (sd_record e) = Some s \<and> \<not> sd_deleted e) (rb_evidence db)"

definition delete_tasks :: "string set \<Rightarrow> retention_db \<Rightarrow> retention_db" where
  "delete_tasks T db = db\<lparr> rb_tasks := filter (\<lambda>t. t \<notin> T) (rb_tasks db) \<rparr>"

definition deleteExpiredExecutionLineage ::
  "tx_env \<Rightarrow> string list \<Rightarrow> string list \<Rightarrow> retention_db \<Rightarrow> store_error + retention_db" where
  "deleteExpiredExecutionLineage tx sessionIDs taskIDs db =
     bind_result
       (if sessionIDs = [] then Inr db
        else bind_result (statement tx ''delete expired execution sessions'' '''') (\<lambda>_.
          Inr (delete_sessions {s \<in> set sessionIDs. \<not> live_in_session db s} db))) (\<lambda>db.
     if taskIDs = [] then Inr db
     else bind_result (statement tx ''delete expired task identities'' '''') (\<lambda>_.
       Inr (delete_tasks {t \<in> set taskIDs. \<not> list_ex (\<lambda>(_, task). task = Some t) (rb_turns db)} db)))"

fun observed_range :: "go_time \<times> go_time \<Rightarrow> archive_record list \<Rightarrow> go_time \<times> go_time" where
  "observed_range (a, b) [] = (a, b)"
| "observed_range (a, b) (r # rs) =
     observed_range (if av_ObservedAt r < a then av_ObservedAt r else a, if b < av_ObservedAt r then av_ObservedAt r else b) rs"

definition archive_range :: "archive_record list \<Rightarrow> go_time \<times> go_time" where
  "archive_range rs =
     (let (a, b) = observed_range (av_ObservedAt (hd rs), av_ObservedAt (hd rs)) (tl rs)
      in (a, if a < b then b else a + 1000))"

definition insert_action :: "tx_env \<Rightarrow> retention_apply \<Rightarrow> retention_db \<Rightarrow> store_error + retention_db" where
  "insert_action tx a db =
     (let plan = ry_Plan a
      in bind_result (statement tx ''record retention action'' '''') (\<lambda>_.
         if list_ex (\<lambda>r. ra_ID r = ry_ActionID a \<or> ra_Key r = pl_Digest plan) (rb_actions db)
         then Inl (DatabaseError ''record retention action'' False)
         else Inr (db\<lparr> rb_actions := rb_actions db @ [
           \<lparr> ra_ID = ry_ActionID a, ra_PolicyID = pl_PolicyID plan, ra_ProjectID = pl_ProjectID plan, ra_Key = pl_Digest plan,
             ra_CutoffAt = pl_AsOf plan, ra_Planned = length (pl_Records plan), ra_Applied = 0, ra_Status = ''running'' \<rparr>] \<rparr>)))"

definition insert_batch :: "tx_env \<Rightarrow> retention_apply \<Rightarrow> retention_db \<Rightarrow> store_error + retention_db" where
  "insert_batch tx a db =
     (let plan = ry_Plan a; receipt = ry_Receipt a; (start, end_at) = archive_range (pl_Records plan)
      in bind_result (statement tx ''record archive batch'' '''') (\<lambda>_.
         if list_ex (\<lambda>r. ab_ID r = ac_BatchID receipt \<or> ab_Reference r = ac_ArchiveReference receipt) (rb_batches db)
         then Inl (DatabaseError ''record archive batch'' False)
         else Inr (db\<lparr> rb_batches := rb_batches db @ [
           \<lparr> ab_ID = ac_BatchID receipt, ab_ProjectID = pl_ProjectID plan, ab_ActionID = ry_ActionID a,
             ab_Reference = ac_ArchiveReference receipt, ab_KeyReference = ac_KeyReference receipt, ab_RangeStart = start,
             ab_RangeEnd = end_at, ab_Count = length (pl_Records plan), ab_PlaintextDigest = ac_PlaintextDigest receipt,
             ab_EncryptedDigest = ac_EncryptedDigest receipt, ab_VerifiedAt = ac_VerifiedAt receipt \<rparr>] \<rparr>)))"

definition delete_batch :: "tx_env \<Rightarrow> string list \<Rightarrow> retention_db \<Rightarrow> store_error + nat \<times> retention_db" where
  "delete_batch tx ids db =
     bind_result (statement tx ''delete retained evidence'' '''') (\<lambda>_.
       let applied = length (filter (\<lambda>e. evidence_id e \<in> set ids) (rb_evidence db))
       in if applied \<noteq> length ids then Inl (StoreError ''retention apply count mismatch'')
          else Inr (applied, delete_evidence (\<lambda>e. evidence_id e \<in> set ids) db))"

definition delete_aliases :: "tx_env \<Rightarrow> string \<Rightarrow> retention_db \<Rightarrow> store_error + retention_db" where
  "delete_aliases tx projectID db =
     bind_result (statement tx ''delete unreferenced keyed aliases'' '''') (\<lambda>_.
       Inr (db\<lparr> rb_aliases := filter (\<lambda>(_, p). \<not> (p = projectID \<and>
         \<not> list_ex (\<lambda>e. av_ProjectID (sd_record e) = p \<and> \<not> sd_deleted e) (rb_evidence db))) (rb_aliases db) \<rparr>))"

definition delete_windows :: "tx_env \<Rightarrow> string \<Rightarrow> retention_db \<Rightarrow> store_error + retention_db" where
  "delete_windows tx projectID db =
     bind_result (statement tx ''delete empty audit windows'' '''') (\<lambda>_.
       Inr (db\<lparr> rb_windows := filter (\<lambda>(w, p). \<not> (p = projectID \<and> \<not> list_ex (\<lambda>(_, v). v = w) (rb_revisions db))) (rb_windows db) \<rparr>))"

definition insert_entity :: "tx_env \<Rightarrow> retention_apply \<Rightarrow> nat \<Rightarrow> retention_db \<Rightarrow> store_error + retention_db" where
  "insert_entity tx a applied db =
     bind_result (statement tx ''record retention action entities'' '''') (\<lambda>_.
       if list_ex (\<lambda>r. rx_ID r = ry_ActionEntityID a) (rb_entities db)
       then Inl (DatabaseError ''record retention action entities'' False)
       else Inr (db\<lparr> rb_entities := rb_entities db @ [
         \<lparr> rx_ID = ry_ActionEntityID a, rx_ActionID = ry_ActionID a, rx_BatchID = ac_BatchID (ry_Receipt a),
           rx_Planned = length (pl_Records (ry_Plan a)), rx_Deleted = applied, rx_Digest = pl_Digest (ry_Plan a) \<rparr>] \<rparr>))"

definition complete_action :: "tx_env \<Rightarrow> string \<Rightarrow> nat \<Rightarrow> retention_db \<Rightarrow> store_error + retention_db" where
  "complete_action tx actionID applied db =
     bind_result (statement tx ''complete retention action'' '''') (\<lambda>_.
       Inr (db\<lparr> rb_actions := map (\<lambda>r. if ra_ID r = actionID then r\<lparr> ra_Applied := applied, ra_Status := ''complete'' \<rparr> else r)
         (rb_actions db) \<rparr>))"

definition apply_transaction :: "retention_apply \<Rightarrow> tx_env \<Rightarrow> retention_db \<Rightarrow> store_error + nat \<times> retention_db" where
  "apply_transaction a tx db =
     (let plan = ry_Plan a; ids = map av_EvidenceID (pl_Records plan); sessionIDs = archiveSessionIDs (pl_Records plan)
      in bind_result (statement tx ''lock retention action'' '''') (\<lambda>_.
         bind_result (statement tx ''read retention action'' '''') (\<lambda>_.
         case find (\<lambda>r. ra_Key r = pl_Digest plan \<and> ra_Status r = ''complete'') (rb_actions db) of
           Some r \<Rightarrow> Inr (ra_Applied r, db)
         | None \<Rightarrow>
             bind_result (validateArchivedPlan tx plan db) (\<lambda>_.
             bind_result (retentionTaskIDs tx sessionIDs db) (\<lambda>taskIDs.
             bind_result (insert_action tx a db) (\<lambda>db.
             bind_result (insert_batch tx a db) (\<lambda>db.
             bind_result (deleteExpiredAuditRevisions tx ids db) (\<lambda>db.
             bind_result (delete_batch tx ids db) (\<lambda>(applied, db).
             bind_result (delete_aliases tx (pl_ProjectID plan) db) (\<lambda>db.
             bind_result (deleteExpiredExecutionLineage tx sessionIDs taskIDs db) (\<lambda>db.
             bind_result (delete_windows tx (pl_ProjectID plan) db) (\<lambda>db.
             bind_result (insert_entity tx a applied db) (\<lambda>db.
             bind_result (complete_action tx (ry_ActionID a) applied db) (\<lambda>db.
               Inr (applied, db)))))))))))))))"

definition ApplyRetention ::
  "retention_env \<Rightarrow> (nat \<Rightarrow> tx_env) \<Rightarrow> retention_apply \<Rightarrow> retention_db \<Rightarrow> (store_error + nat) \<times> retention_db" where
  "ApplyRetention env txs a db =
     (case EncodeArchive env (ry_Plan a) of
        Inl e \<Rightarrow> (Inl (StoreError e), db)
      | Inr encoded \<Rightarrow>
          if \<not> receipt_matches a (rt_sha256 env encoded)
          then (Inl (StoreError ''verified archive does not match retention plan''), db)
          else (case encodeArchiveMatchRecords env (pl_Records (ry_Plan a)) of
                  Inl e \<Rightarrow> (Inl (StoreError e), db)
                | Inr _ \<Rightarrow> withSerializable (apply_transaction a) txs 1 maxTransactionAttempts db))"

end
