(* ===== verification/Retention_Props.thy ===== *)
theory Retention_Props
  imports Retention
begin

text \<open>
  Retention loses nothing: only planned, expired evidence without a legal hold is deleted, only under a
  receipt for an archive of exactly the plan, and what the archive file was read back with decrypts to it.
\<close>

section \<open>Counting matches\<close>

lemma filter_key_le: "distinct (map k xs) \<Longrightarrow> (\<And>x. P x \<Longrightarrow> k x = K) \<Longrightarrow> length (filter P xs) \<le> 1"
proof (induction xs)
  case (Cons x xs)
  show ?case
  proof (cases "P x")
    case True
    then have "filter P xs = []"
      using Cons.prems by (fastforce simp: filter_empty_conv)
    then show ?thesis
      by simp
  qed (use Cons in simp)
qed simp

lemma concat_key_le:
  "distinct (map k xs) \<Longrightarrow> (\<And>x. g x \<noteq> [] \<Longrightarrow> k x = K) \<Longrightarrow> (\<And>x. length (g x) \<le> 1) \<Longrightarrow> length (concat (map g xs)) \<le> 1"
proof (induction xs)
  case (Cons x xs)
  show ?case
  proof (cases "g x = []")
    case False
    then have "\<forall>y \<in> set xs. g y = []"
      using Cons.prems(1,2) by force
    then have "length (concat (map g xs)) = 0"
      by simp
    then show ?thesis
      using Cons.prems(3) [of x] by (simp only: list.map concat.simps length_append)
  qed (use Cons in simp)
qed simp

lemma sum_ones:
  assumes "\<And>x. f x \<le> (1 :: nat)" "sum_list (map f xs) = length xs" "x \<in> set xs"
  shows "f x = 1"
  using assms(2,3)
proof (induction xs)
  case (Cons y ys)
  have "sum_list (map f ys) \<le> length ys"
    using sum_list_mono [of ys f "\<lambda>_. 1"] assms(1) by (simp add: sum_list_triv)
  then have "f y = 1" "sum_list (map f ys) = length ys"
    using Cons.prems(1) assms(1) [of y] by simp_all
  then show ?case
    using Cons by auto
qed simp

definition keys_ok :: "retention_db \<Rightarrow> bool" where
  "keys_ok db \<longleftrightarrow> distinct (map evidence_id (rb_evidence db)) \<and> distinct (map py_ID (rb_policies db))"

lemma validated_records:
  assumes "keys_ok db" "validateArchivedPlan tx plan db = Inr u" "r \<in> set (pl_Records plan)"
  shows "\<exists>e \<in> set (rb_evidence db). sd_record e = r \<and>
    (\<exists>p \<in> set (rb_policies db). py_ID p = pl_PolicyID plan \<and> due p (pl_AsOf plan) e)"
proof -
  let ?P = "\<lambda>r e p. py_ID p = pl_PolicyID plan \<and> sd_record e = r \<and> av_ProjectID r = pl_ProjectID plan \<and> due p (pl_AsOf plan) e"
  let ?g = "\<lambda>r e. map (\<lambda>p. evidence_id e) (filter (?P r e) (rb_policies db))"
  let ?f = "\<lambda>r. length (concat (map (?g r) (rb_evidence db)))"
  have "length (archived_matches plan db) = length (pl_Records plan)"
    using assms(2) by (auto simp: validateArchivedPlan_def bind_result_eq_Inr split: if_splits)
  then have total: "sum_list (map ?f (pl_Records plan)) = length (pl_Records plan)"
    unfolding archived_matches_def by (simp add: length_concat comp_def)
  have "length (?g x e) \<le> 1" for x e
    using filter_key_le [of py_ID "rb_policies db" "?P x e" "pl_PolicyID plan"] assms(1) by (simp add: keys_ok_def)
  then have "?f x \<le> 1" for x
    using assms(1) by (intro concat_key_le [where k = evidence_id and K = "av_EvidenceID x"])
      (auto simp: keys_ok_def evidence_id_def filter_empty_conv)
  then have "?f r = 1"
    using sum_ones [where f = ?f, OF _ total assms(3)] by blast
  then have "concat (map (?g r) (rb_evidence db)) \<noteq> []"
    by force
  then show ?thesis
    by (auto simp: filter_empty_conv)
qed

section \<open>What a transaction does to the evidence\<close>

lemma delete_revisions_evidence [simp]: "rb_evidence (delete_revisions R db) = rb_evidence db"
  by (simp add: delete_revisions_def Let_def)

lemma delete_evidence_rows [simp]: "rb_evidence (delete_evidence gone db) = filter (\<lambda>e. \<not> gone e) (rb_evidence db)"
  by (simp add: delete_evidence_def Let_def)

lemma stage_evidence:
  "insert_action tx a db = Inr db1 \<Longrightarrow> rb_evidence db1 = rb_evidence db"
  "insert_batch tx a db = Inr db1 \<Longrightarrow> rb_evidence db1 = rb_evidence db"
  "deleteExpiredAuditRevisions tx ids db = Inr db1 \<Longrightarrow> rb_evidence db1 = rb_evidence db"
  "delete_aliases tx p db = Inr db1 \<Longrightarrow> rb_evidence db1 = rb_evidence db"
  "delete_windows tx p db = Inr db1 \<Longrightarrow> rb_evidence db1 = rb_evidence db"
  "insert_entity tx a n db = Inr db1 \<Longrightarrow> rb_evidence db1 = rb_evidence db"
  "complete_action tx i n db = Inr db1 \<Longrightarrow> rb_evidence db1 = rb_evidence db"
  by (auto simp: insert_action_def insert_batch_def deleteExpiredAuditRevisions_def delete_aliases_def delete_windows_def
      insert_entity_def complete_action_def bind_result_eq_Inr Let_def case_prod_beta split: if_splits)

text \<open>Only artifacts that were marked as deleted before go with an expired session.\<close>

lemma lineage_evidence:
  assumes "deleteExpiredExecutionLineage tx ss ts db = Inr db1"
  shows "set (rb_evidence db1) \<subseteq> set (rb_evidence db) \<and> (\<forall>e \<in> set (rb_evidence db). \<not> sd_deleted e \<longrightarrow> e \<in> set (rb_evidence db1))"
proof -
  have tasks: "rb_evidence (delete_tasks T db2) = rb_evidence db2" for T db2
    by (simp add: delete_tasks_def)
  have sessions: "rb_evidence (delete_sessions S db) =
      filter (\<lambda>e. \<not> (case av_SessionID (sd_record e) of None \<Rightarrow> False | Some s \<Rightarrow> s \<in> S)) (rb_evidence db)" for S
    by (simp add: delete_sessions_def Let_def)
  have live: "\<not> (case av_SessionID (sd_record e) of None \<Rightarrow> False | Some s \<Rightarrow> s \<in> {s \<in> set ss. \<not> live_in_session db s})"
    if "e \<in> set (rb_evidence db)" "\<not> sd_deleted e" for e
    using that by (auto simp: live_in_session_def list_ex_iff split: option.split)
  have "rb_evidence db1 = rb_evidence db \<or> rb_evidence db1 = rb_evidence (delete_sessions {s \<in> set ss. \<not> live_in_session db s} db)"
    using assms by (auto simp: deleteExpiredExecutionLineage_def bind_result_eq_Inr tasks split: if_splits)
  then show ?thesis
    using live unfolding sessions by auto
qed

lemma apply_evidence:
  assumes "keys_ok db" "apply_transaction a tx db = Inr (n, db')"
  obtains (replay) r where "db' = db" "r \<in> set (rb_actions db)" "ra_Key r = pl_Digest (ry_Plan a)" "ra_Status r = ''complete''"
      "ra_Applied r = n"
  | (applied) "n = length (pl_Records (ry_Plan a))" "set (rb_evidence db') \<subseteq> set (rb_evidence db)"
    "\<And>e. e \<in> set (rb_evidence db) \<Longrightarrow> \<not> sd_deleted e \<Longrightarrow> e \<notin> set (rb_evidence db') \<Longrightarrow>
      sd_record e \<in> set (pl_Records (ry_Plan a)) \<and> (\<exists>p \<in> set (rb_policies db). py_ID p = pl_PolicyID (ry_Plan a) \<and> due p (pl_AsOf (ry_Plan a)) e)"
    "\<And>e. e \<in> set (rb_evidence db') \<Longrightarrow> evidence_id e \<notin> av_EvidenceID ` set (pl_Records (ry_Plan a))"
proof (cases "find (\<lambda>r. ra_Key r = pl_Digest (ry_Plan a) \<and> ra_Status r = ''complete'') (rb_actions db)")
  case (Some r)
  then have "r \<in> set (rb_actions db)" "ra_Key r = pl_Digest (ry_Plan a)" "ra_Status r = ''complete''"
    by (auto simp: find_Some_iff)
  then show ?thesis
    using assms(2) Some replay by (auto simp: apply_transaction_def bind_result_eq_Inr Let_def)
next
  case None
  let ?ids = "map av_EvidenceID (pl_Records (ry_Plan a))"
  obtain u ts db1 db2 db3 db4 db5 db6 db7 db8 where
    v: "validateArchivedPlan tx (ry_Plan a) db = Inr u"
    and s: "insert_action tx a db = Inr db1" "insert_batch tx a db1 = Inr db2" "deleteExpiredAuditRevisions tx ?ids db2 = Inr db3"
    and d: "delete_batch tx ?ids db3 = Inr (n, db4)" and al: "delete_aliases tx (pl_ProjectID (ry_Plan a)) db4 = Inr db5"
    and l: "deleteExpiredExecutionLineage tx (archiveSessionIDs (pl_Records (ry_Plan a))) ts db5 = Inr db6"
    and w: "delete_windows tx (pl_ProjectID (ry_Plan a)) db6 = Inr db7" "insert_entity tx a n db7 = Inr db8"
      "complete_action tx (ry_ActionID a) n db8 = Inr db'"
    using assms(2) None by (auto simp: apply_transaction_def bind_result_eq_Inr Let_def)
  have e3: "rb_evidence db3 = rb_evidence db"
    using stage_evidence(1-3) s by metis
  have e4: "rb_evidence db5 = filter (\<lambda>e. evidence_id e \<notin> set ?ids) (rb_evidence db)" and n: "n = length ?ids"
    using d e3 stage_evidence(4) [OF al] by (auto simp: delete_batch_def bind_result_eq_Inr Let_def split: if_splits)
  have e': "rb_evidence db' = rb_evidence db6"
    using stage_evidence(5-7) w by metis
  note lin = lineage_evidence [OF l, folded e', unfolded e4]
  show ?thesis
  proof (rule applied)
    fix e
    assume e: "e \<in> set (rb_evidence db)" "\<not> sd_deleted e" "e \<notin> set (rb_evidence db')"
    then have "evidence_id e \<in> set ?ids"
      using lin by auto
    then obtain r where r: "r \<in> set (pl_Records (ry_Plan a))" "av_EvidenceID r = evidence_id e"
      by auto
    from validated_records [OF assms(1) v r(1)] obtain e2 p where e2: "e2 \<in> set (rb_evidence db)" "sd_record e2 = r"
      "p \<in> set (rb_policies db)" "py_ID p = pl_PolicyID (ry_Plan a)" "due p (pl_AsOf (ry_Plan a)) e2"
      by blast
    have "evidence_id e2 = evidence_id e"
      using e2(2) r(2) by (simp add: evidence_id_def)
    then have "e2 = e"
      using assms(1) e2(1) e(1) unfolding keys_ok_def by (metis distinct_map inj_onD)
    then show "sd_record e \<in> set (pl_Records (ry_Plan a)) \<and>
        (\<exists>p \<in> set (rb_policies db). py_ID p = pl_PolicyID (ry_Plan a) \<and> due p (pl_AsOf (ry_Plan a)) e)"
      using e2 r(1) by blast
  qed (use lin n in auto)
qed

section \<open>Properties\<close>

text \<open>C23: Retention deletes only what was planned, has expired and was archived. When an application fails,
  no table has changed. When it succeeds, its receipt is for the encoding of exactly the plan; every
  live artifact that is gone is one of the planned records, unchanged since it was planned, and due
  under the planned policy, which does not hold it. Either nothing changes, and then a completed action
  recorded under the digest of this very plan is in the table of actions and the number it applied is
  reported again; or every planned record is gone and their number is reported.\<close>

theorem retention_deletes_only_archived:
  assumes "distinct (map evidence_id (rb_evidence db))" "distinct (map py_ID (rb_policies db))"
  shows "case ApplyRetention env txs a db of
      (Inl e, db') \<Rightarrow> db' = db
    | (Inr n, db') \<Rightarrow>
        (\<exists>encoded. EncodeArchive env (ry_Plan a) = Inr encoded \<and> receipt_matches a (rt_sha256 env encoded)) \<and>
        set (rb_evidence db') \<subseteq> set (rb_evidence db) \<and>
        (\<forall>e \<in> set (rb_evidence db) - set (rb_evidence db'). sd_deleted e \<or>
           (sd_record e \<in> set (pl_Records (ry_Plan a)) \<and>
            (\<exists>p \<in> set (rb_policies db). py_ID p = pl_PolicyID (ry_Plan a) \<and> due p (pl_AsOf (ry_Plan a)) e \<and> \<not> py_LegalHold p))) \<and>
        ((db' = db \<and> (\<exists>r \<in> set (rb_actions db). ra_Key r = pl_Digest (ry_Plan a) \<and> ra_Status r = ''complete'' \<and> ra_Applied r = n)) \<or>
         (n = length (pl_Records (ry_Plan a)) \<and>
           (\<forall>e \<in> set (rb_evidence db'). sd_record e \<notin> set (pl_Records (ry_Plan a)))))"
proof -
  obtain out db' where run: "ApplyRetention env txs a db = (out, db')"
    by fastforce
  have keys: "keys_ok db"
    using assms by (simp add: keys_ok_def)
  show ?thesis
  proof (cases out)
    case (Inl e)
    then have "db' = db"
      using run withSerializable_cases [of "apply_transaction a" txs 1 maxTransactionAttempts db out db']
      by (auto simp: ApplyRetention_def split: sum.splits if_splits)
    then show ?thesis
      using run Inl by simp
  next
    case (Inr n)
    then obtain encoded where encoded: "EncodeArchive env (ry_Plan a) = Inr encoded" "receipt_matches a (rt_sha256 env encoded)"
      and ws: "withSerializable (apply_transaction a) txs 1 maxTransactionAttempts db = (Inr n, db')"
      using run by (auto simp: ApplyRetention_def split: sum.splits if_splits)
    obtain tx where "apply_transaction a tx db = Inr (n, db')"
      using withSerializable_cases [OF ws] by auto
    with keys show ?thesis
    proof (cases rule: apply_evidence)
      case (replay r)
      then have "\<exists>r \<in> set (rb_actions db). ra_Key r = pl_Digest (ry_Plan a) \<and> ra_Status r = ''complete'' \<and> ra_Applied r = n"
        by blast
      then show ?thesis
        using run Inr encoded replay(1) by simp
    next
      case applied
      have "sd_deleted e \<or> (sd_record e \<in> set (pl_Records (ry_Plan a)) \<and>
          (\<exists>p \<in> set (rb_policies db). py_ID p = pl_PolicyID (ry_Plan a) \<and> due p (pl_AsOf (ry_Plan a)) e \<and> \<not> py_LegalHold p))"
        if "e \<in> set (rb_evidence db) - set (rb_evidence db')" for e
        using applied(3) [of e] that unfolding due_def by blast
      moreover have "sd_record e \<notin> set (pl_Records (ry_Plan a))" if "e \<in> set (rb_evidence db')" for e
        using applied(4) [OF that] by (auto simp: evidence_id_def)
      ultimately show ?thesis
        using run Inr encoded applied(1,2) by simp
    qed
  qed
qed

lemma archive_receipt:
  assumes "Archive env os ar batchID plan files = (Inr receipt, files')"
  obtains plaintext path data where "EncodeArchive env plan = Inr plaintext" "rt_sha256 env plaintext = pl_Digest plan"
    "files' path = Some data" "receipt = \<lparr> ac_BatchID = batchID, ac_ArchiveReference = ''sha256:'' @ hex_encode (rt_sha256 env data),
       ac_KeyReference = fa_keyRef ar, ac_EncryptedDigest = rt_sha256 env data, ac_PlaintextDigest = pl_Digest plan,
       ac_VerifiedAt = os_now os \<rparr>"
    "batchID \<noteq> ''''" "pl_Records plan \<noteq> []"
    "\<exists>stored opened. os_read os path data = Some stored \<and> open_archive ar stored = Some opened \<and> rt_sha256 env opened = pl_Digest plan"
proof -
  obtain plaintext nonce where p: "EncodeArchive env plan = Inr plaintext" "rt_sha256 env plaintext = pl_Digest plan"
    "batchID \<noteq> ''''" "pl_Records plan \<noteq> []" and nonce: "os_nonce os = Some nonce"
    using assms by (auto simp: Archive_def split: if_splits sum.splits option.splits)
  define data where "data = archiveVersion @ nonce @ ad_seal (fa_aead ar) (fa_key ar) nonce plaintext archiveVersion"
  define path where "path = archive_path ar (hex_encode (rt_sha256 env data) @ ''.pba'')"
  have "archive_verify env ar (os_read os path data) (pl_Digest plan) = Inr () \<and> files' path = Some data \<and>
      receipt = \<lparr> ac_BatchID = batchID, ac_ArchiveReference = ''sha256:'' @ hex_encode (rt_sha256 env data),
       ac_KeyReference = fa_keyRef ar, ac_EncryptedDigest = rt_sha256 env data, ac_PlaintextDigest = pl_Digest plan,
       ac_VerifiedAt = os_now os \<rparr>"
    using assms p nonce unfolding Archive_def Let_def data_def [symmetric] path_def [symmetric]
    by (auto simp: data_def [symmetric] path_def [symmetric] split: if_splits sum.splits)
  moreover from this have "\<exists>stored opened. os_read os path data = Some stored \<and> open_archive ar stored = Some opened \<and>
      rt_sha256 env opened = pl_Digest plan"
    by (auto simp: archive_verify_def split: option.splits if_splits)
  ultimately show thesis
    using that p by blast
qed

text \<open>C24: An archived plan can be recovered, and its receipt lets it be applied. When the archiver returns a
  receipt, the bytes it read back from the file named by the receipt decrypt to the encoding of the
  plan (when no other text has its digest), and the receipt satisfies every check of an application of
  that plan, so that a first application can fail only in the database.\<close>

theorem archived_plan_recoverable:
  assumes "Archive env os ar batchID plan files = (Inr receipt, files')"
    and "\<And>x. rt_sha256 env x = pl_Digest plan \<Longrightarrow> EncodeArchive env plan = Inr x"
    and "os_now os \<noteq> 0" "fa_keyRef ar \<noteq> ''''" "ac_EncryptedDigest receipt \<noteq> zero_digest"
    and "ry_Plan a = plan" "ry_Receipt a = receipt" "rt_match env (pl_Records plan) \<noteq> None"
  shows "(\<exists>plaintext path data stored. EncodeArchive env plan = Inr plaintext \<and> files' path = Some data \<and>
      ac_ArchiveReference receipt = ''sha256:'' @ hex_encode (rt_sha256 env data) \<and>
      os_read os path data = Some stored \<and> open_archive ar stored = Some plaintext) \<and>
    ApplyRetention env txs a db = withSerializable (apply_transaction a) txs 1 maxTransactionAttempts db"
proof -
  obtain plaintext path data where p: "EncodeArchive env plan = Inr plaintext" "rt_sha256 env plaintext = pl_Digest plan"
    "files' path = Some data" "receipt = \<lparr> ac_BatchID = batchID, ac_ArchiveReference = ''sha256:'' @ hex_encode (rt_sha256 env data),
       ac_KeyReference = fa_keyRef ar, ac_EncryptedDigest = rt_sha256 env data, ac_PlaintextDigest = pl_Digest plan,
       ac_VerifiedAt = os_now os \<rparr>"
    "batchID \<noteq> ''''" "pl_Records plan \<noteq> []"
    "\<exists>stored opened. os_read os path data = Some stored \<and> open_archive ar stored = Some opened \<and> rt_sha256 env opened = pl_Digest plan"
    using assms(1) by (rule archive_receipt)
  then obtain stored opened where o: "os_read os path data = Some stored" "open_archive ar stored = Some opened"
    "rt_sha256 env opened = pl_Digest plan"
    by blast
  have "opened = plaintext"
    using assms(2) [OF o(3)] p(1) by simp
  moreover have "receipt_matches a (rt_sha256 env plaintext)"
    using p assms(3-7) by (simp add: receipt_matches_def)
  ultimately show ?thesis
    using p(1,3,4) o(1,2) assms(6,8) by (auto simp: ApplyRetention_def encodeArchiveMatchRecords_def)
qed

section \<open>Applying a plan again\<close>

lemma stage_actions:
  "insert_batch tx a db = Inr db1 \<Longrightarrow> rb_actions db1 = rb_actions db"
  "deleteExpiredAuditRevisions tx ids db = Inr db1 \<Longrightarrow> rb_actions db1 = rb_actions db"
  "delete_batch tx ids db = Inr (n, db1) \<Longrightarrow> rb_actions db1 = rb_actions db"
  "delete_aliases tx p db = Inr db1 \<Longrightarrow> rb_actions db1 = rb_actions db"
  "deleteExpiredExecutionLineage tx ss ts db = Inr db1 \<Longrightarrow> rb_actions db1 = rb_actions db"
  "delete_windows tx p db = Inr db1 \<Longrightarrow> rb_actions db1 = rb_actions db"
  "insert_entity tx a n db = Inr db1 \<Longrightarrow> rb_actions db1 = rb_actions db"
  by (auto simp: insert_batch_def deleteExpiredAuditRevisions_def delete_batch_def delete_aliases_def deleteExpiredExecutionLineage_def
      delete_windows_def insert_entity_def delete_revisions_def delete_evidence_def delete_sessions_def delete_tasks_def
      bind_result_eq_Inr Let_def case_prod_beta split: if_splits)

abbreviation done_action :: "retention_apply \<Rightarrow> retention_db \<Rightarrow> retention_action option" where
  "done_action a db \<equiv> find (\<lambda>r. ra_Key r = pl_Digest (ry_Plan a) \<and> ra_Status r = ''complete'') (rb_actions db)"

lemma find_none_append: "find P xs = None \<Longrightarrow> find P (xs @ ys) = find P ys"
  by (induction xs) auto

lemma apply_recorded:
  assumes "apply_transaction a tx db = Inr (n, db')"
  shows "\<exists>r. done_action a db' = Some r \<and> ra_Applied r = n"
proof (cases "done_action a db")
  case (Some r)
  then show ?thesis
    using assms by (auto simp: apply_transaction_def bind_result_eq_Inr Let_def)
next
  case None
  let ?ids = "map av_EvidenceID (pl_Records (ry_Plan a))"
  obtain ts db1 db2 db3 db4 db5 db6 db7 db8 where
    s: "insert_action tx a db = Inr db1" "insert_batch tx a db1 = Inr db2" "deleteExpiredAuditRevisions tx ?ids db2 = Inr db3"
    and d: "delete_batch tx ?ids db3 = Inr (n, db4)" and al: "delete_aliases tx (pl_ProjectID (ry_Plan a)) db4 = Inr db5"
    and l: "deleteExpiredExecutionLineage tx (archiveSessionIDs (pl_Records (ry_Plan a))) ts db5 = Inr db6"
    and w: "delete_windows tx (pl_ProjectID (ry_Plan a)) db6 = Inr db7" "insert_entity tx a n db7 = Inr db8"
      "complete_action tx (ry_ActionID a) n db8 = Inr db'"
    using assms None by (auto simp: apply_transaction_def bind_result_eq_Inr Let_def)
  have same: "rb_actions db8 = rb_actions db1"
    using stage_actions s(2,3) d al l w(1,2) by metis
  obtain new where new: "rb_actions db1 = rb_actions db @ [new]" "ra_ID new = ry_ActionID a" "ra_Key new = pl_Digest (ry_Plan a)"
    and others: "\<forall>r \<in> set (rb_actions db). ra_ID r \<noteq> ry_ActionID a"
    using s(1) by (auto simp: insert_action_def bind_result_eq_Inr Let_def list_ex_iff split: if_splits)
  have "map (\<lambda>r. if ra_ID r = ry_ActionID a then r\<lparr> ra_Applied := n, ra_Status := ''complete'' \<rparr> else r) (rb_actions db) = rb_actions db"
    using others by (intro map_idI) auto
  then have "rb_actions db' = rb_actions db @ [new\<lparr> ra_Applied := n, ra_Status := ''complete'' \<rparr>]"
    using w(3) same new by (auto simp: complete_action_def bind_result_eq_Inr)
  then show ?thesis
    using None new(3) by (simp add: find_none_append)
qed

text \<open>Applying a plan twice is applying it once. After a successful application, applying the same plan
  with the same receipt again, when the database answers, reports the same number and changes nothing:
  no artifact is touched.\<close>

theorem retention_apply_again:
  assumes "ApplyRetention env txs a db = (Inr n, db')"
    and "tx_begin_error (txs' 1) = None" "tx_commit_error (txs' 1) = None"
    and "tx_statement (txs' 1) ''lock retention action'' '''' = None" "tx_statement (txs' 1) ''read retention action'' '''' = None"
  shows "ApplyRetention env txs' a db' = (Inr n, db')"
proof -
  obtain encoded payload where e: "EncodeArchive env (ry_Plan a) = Inr encoded" "receipt_matches a (rt_sha256 env encoded)"
    "encodeArchiveMatchRecords env (pl_Records (ry_Plan a)) = Inr payload"
    and ws: "withSerializable (apply_transaction a) txs 1 maxTransactionAttempts db = (Inr n, db')"
    using assms(1) by (auto simp: ApplyRetention_def split: sum.splits if_splits)
  obtain tx where "apply_transaction a tx db = Inr (n, db')"
    using withSerializable_cases [OF ws] by auto
  then obtain r where "done_action a db' = Some r" "ra_Applied r = n"
    using apply_recorded by blast
  then have "apply_transaction a (txs' 1) db' = Inr (n, db')"
    using assms(4,5) by (simp add: apply_transaction_def statement_def Let_def)
  then show ?thesis
    using e assms(2,3) by (simp add: ApplyRetention_def maxTransactionAttempts_def numeral_3_eq_3)
qed

section \<open>Witnesses\<close>

definition sample_record :: archive_record where
  "sample_record = \<lparr> av_EvidenceID = ''e1'', av_SourceID = ''s1'', av_ProjectID = ''p1'', av_SessionID = Some ''t1'',
     av_ExternalAliasID = None, av_SchemaVersion = ''1'', av_ContentHash = ''h'', av_ContentLength = 1, av_Classification = ''c'',
     av_RedactionState = ''applied'', av_CoverageState = ''complete'', av_Provenance = ''p'', av_ProductSurface = ''cli'',
     av_ObservedAt = 5, av_RetainedUntil = None \<rparr>"

definition sample_retention_db :: retention_db where
  "sample_retention_db = \<lparr>
     rb_policies = [\<lparr> py_ID = ''r1'', py_ProjectID = ''p1'', py_Version = ''1'', py_Classification = ''c'', py_Seconds = 0,
       py_LegalHold = False, py_CreatedAt = 1, py_Retired = False \<rparr>],
     rb_evidence = [\<lparr> sd_record = sample_record, sd_deleted = False \<rparr>], rb_links = [], rb_results = [], rb_findings = [],
     rb_observations = [], rb_recommendations = [], rb_events = [], rb_revisions = [], rb_windows = [], rb_aliases = [],
     rb_sessions = [''t1''], rb_trajectories = [], rb_turns = [], rb_tasks = [], rb_actions = [], rb_batches = [], rb_entities = [] \<rparr>"

definition sample_retention_env :: retention_env where
  "sample_retention_env = \<lparr> rt_sha256 = (\<lambda>x. x), rt_encode = (\<lambda>_ _ _ _. Some ''plan''), rt_match = (\<lambda>_. Some ''match'') \<rparr>"

definition sample_plan :: retention_plan where
  "sample_plan = \<lparr> pl_PolicyID = ''r1'', pl_ProjectID = ''p1'', pl_AsOf = 9, pl_Records = [sample_record], pl_Digest = ''plan'' \<rparr>"

definition sample_receipt :: archive_receipt where
  "sample_receipt = \<lparr> ac_BatchID = ''b1'', ac_ArchiveReference = ''sha256:'' @ hex_encode (CHR 0x01 # ''nplan''), ac_KeyReference = ''k'',
     ac_EncryptedDigest = CHR 0x01 # ''nplan'', ac_PlaintextDigest = ''plan'', ac_VerifiedAt = 10 \<rparr>"

abbreviation sample_apply :: retention_apply where
  "sample_apply \<equiv> \<lparr> ry_ActionID = ''a1'', ry_ActionEntityID = ''x1'', ry_Plan = sample_plan, ry_Receipt = sample_receipt \<rparr>"

abbreviation calm_tx :: tx_env where
  "calm_tx \<equiv> \<lparr> tx_check_time = 0, tx_write_time = 0, tx_size_before = 0, tx_size_after = 0, tx_begin_error = None,
     tx_commit_error = None, tx_statement = (\<lambda>_ _. None) \<rparr>"

lemma sample_plan_planned: "PlanRetention False False sample_retention_env ''r1'' 9 10 sample_retention_db = Inr sample_plan"
  by (simp add: PlanRetention_def maxRetentionBatch_def sample_retention_db_def due_rows_def due_def sample_record_def
      nanoseconds_def EncodeArchive_def sample_retention_env_def sample_plan_def sort_slice_def)

lemma sample_digest: "ac_EncryptedDigest sample_receipt \<noteq> zero_digest"
  by (auto simp: sample_receipt_def zero_digest_def dest: arg_cong [where f = length])

lemma sample_receipt_ok: "receipt_matches sample_apply ''plan''"
  using sample_digest by (simp add: receipt_matches_def sample_plan_def) (simp add: sample_receipt_def)

lemma sample_transaction: "\<exists>db'. apply_transaction sample_apply calm_tx sample_retention_db = Inr (1, db') \<and> rb_evidence db' = []"
  by (simp add: apply_transaction_def sample_plan_def sample_retention_db_def statement_def validateArchivedPlan_def
      archived_matches_def due_def sample_record_def nanoseconds_def retentionTaskIDs_def archiveSessionIDs_def insert_action_def
      insert_batch_def archive_range_def deleteExpiredAuditRevisions_def delete_revisions_def delete_batch_def delete_evidence_def
      evidence_id_def delete_aliases_def deleteExpiredExecutionLineage_def delete_sessions_def delete_windows_def insert_entity_def
      complete_action_def map_filter_simps Let_def)

lemma sample_applied:
  "\<exists>db'. ApplyRetention sample_retention_env (\<lambda>_. calm_tx) sample_apply sample_retention_db = (Inr 1, db') \<and> rb_evidence db' = []"
proof -
  obtain db' where "apply_transaction sample_apply calm_tx sample_retention_db = Inr (1, db')" "rb_evidence db' = []"
    using sample_transaction by blast
  then show ?thesis
    using sample_receipt_ok
    by (intro exI [of _ db']) (simp add: ApplyRetention_def EncodeArchive_def sample_retention_env_def encodeArchiveMatchRecords_def
        maxTransactionAttempts_def numeral_3_eq_3)
qed

theorem retention_deletes_only_archived_witness:
  "\<exists>n db'. ApplyRetention sample_retention_env (\<lambda>_. calm_tx) sample_apply sample_retention_db = (Inr n, db') \<and>
     rb_evidence db' = [] \<and>
     (\<forall>e \<in> set (rb_evidence sample_retention_db). sd_record e \<in> set (pl_Records sample_plan))"
proof -
  obtain db' where run: "ApplyRetention sample_retention_env (\<lambda>_. calm_tx) sample_apply sample_retention_db = (Inr 1, db')" "rb_evidence db' = []"
    using sample_applied by blast
  have live: "\<not> sd_deleted e" if "e \<in> set (rb_evidence sample_retention_db)" for e
    using that by (simp add: sample_retention_db_def)
  have "distinct (map evidence_id (rb_evidence sample_retention_db))" "distinct (map py_ID (rb_policies sample_retention_db))"
    by (simp_all add: sample_retention_db_def)
  from retention_deletes_only_archived [OF this, where env = sample_retention_env and txs = "\<lambda>_. calm_tx" and a = sample_apply]
  have "\<forall>e \<in> set (rb_evidence sample_retention_db). sd_record e \<in> set (pl_Records sample_plan)"
    using run live by auto
  then show ?thesis
    using run by blast
qed

definition sample_archiver :: file_archiver where
  "sample_archiver = \<lparr> fa_directory = ''d'', fa_keyRef = ''k'', fa_key = ''key'',
     fa_aead = \<lparr> ad_seal = (\<lambda>_ _ p _. p), ad_open = (\<lambda>_ _ c _. Some c), ad_overhead = 0 \<rparr>, fa_nonceSize = 1 \<rparr>"

definition sample_os :: os_env where
  "sample_os = \<lparr> os_cancelled = False, os_nonce = Some ''n'', os_mkdir_fails = False, os_write_fails = False, os_partial = None,
     os_rename_fails = False, os_read = (\<lambda>_ data. Some data), os_now = 10 \<rparr>"

lemma sample_archived: "\<exists>files'. Archive sample_retention_env sample_os sample_archiver ''b1'' sample_plan Map.empty = (Inr sample_receipt, files')"
  by (simp add: Archive_def sample_os_def EncodeArchive_def sample_retention_env_def sample_plan_def sample_archiver_def
      archive_verify_def open_archive_def archiveVersion_def sample_receipt_def Let_def)

theorem archived_plan_recoverable_witness:
  "\<exists>plaintext data stored. EncodeArchive sample_retention_env sample_plan = Inr plaintext \<and>
     os_read sample_os (archive_path sample_archiver (hex_encode data @ ''.pba'')) data = Some stored \<and>
     open_archive sample_archiver stored = Some plaintext"
proof -
  obtain files' where ar: "Archive sample_retention_env sample_os sample_archiver ''b1'' sample_plan Map.empty = (Inr sample_receipt, files')"
    using sample_archived by blast
  have "\<exists>plaintext path data stored. EncodeArchive sample_retention_env sample_plan = Inr plaintext \<and> files' path = Some data \<and>
      ac_ArchiveReference sample_receipt = ''sha256:'' @ hex_encode (rt_sha256 sample_retention_env data) \<and>
      os_read sample_os path data = Some stored \<and> open_archive sample_archiver stored = Some plaintext"
  proof (rule conjunct1 [OF archived_plan_recoverable [OF ar _ _ _ sample_digest, where a = sample_apply and txs = "\<lambda>_. calm_tx" and db = sample_retention_db]])
  qed (simp_all add: sample_retention_env_def EncodeArchive_def sample_plan_def sample_os_def sample_archiver_def)
  then show ?thesis
    by (auto simp: sample_os_def)
qed

theorem retention_apply_again_witness:
  "\<exists>db'. ApplyRetention sample_retention_env (\<lambda>_. calm_tx) sample_apply sample_retention_db = (Inr 1, db') \<and>
     ApplyRetention sample_retention_env (\<lambda>_. calm_tx) sample_apply db' = (Inr 1, db')"
proof -
  obtain db' where run: "ApplyRetention sample_retention_env (\<lambda>_. calm_tx) sample_apply sample_retention_db = (Inr 1, db')"
    using sample_applied by blast
  from retention_apply_again [OF this, of "\<lambda>_. calm_tx"] run show ?thesis
    by auto
qed

end
