(* ===== verification/Governance_Source.thy ===== *)
theory Governance_Source
  imports Audit_Props Workload Collection_Store
begin

text \<open>
  The snapshot source of \<open>internal/store/postgres/governance.go\<close>: what \<open>projectAuditSource\<close> makes of the
  rows its queries return. The queries themselves are run by the database; each is an operation of
  \<open>audit_queries\<close> that takes what the code composes it from, the filters and the arguments.
\<close>

section \<open>Scope filters\<close>

datatype sql_arg = Time_Arg go_time | Texts_Arg "string list" | Text_Arg string

definition sql_break :: "nat \<Rightarrow> string" where
  "sql_break n = CHR 0x0A # replicate n (CHR 0x09)"

definition sourceFilter :: string where
  "sourceFilter = ''s.source_id IN ('' @ sql_break 2 @
     ''SELECT source_id FROM prompt_better.sources WHERE source_kind=ANY($4::text[]))''"

definition task_filter :: string where
  "task_filter = ''EXISTS ('' @ sql_break 3 @ ''SELECT 1 FROM prompt_better.turns task_turn'' @ sql_break 3 @
     ''WHERE task_turn.trajectory_id=tr.trajectory_id'' @ sql_break 3 @ ''  AND task_turn.task_id=$5::uuid) AND ''"

definition auditFilter :: "audit_project_request \<Rightarrow> audit_error + string \<times> string \<times> sql_arg list" where
  "auditFilter request =
     (let base = [Time_Arg (apq_StartsAt request), Time_Arg (apq_EndsAt request), Time_Arg (apq_AsOf request),
                  Texts_Arg (apq_ConfiguredSources request)];
          scoped = base @ [Text_Arg (apq_Reference request)]
      in if apq_Scope request = ''portfolio'' then
           (if apq_Reference request \<noteq> ''all''
            then Inl (Stable_Error (NewError ErrorCodeInvalidSchema ''portfolio reference must be all'' ''reference'' False))
            else Inr (sourceFilter, ''TRUE'', base))
         else if apq_Scope request = ''project'' then
           Inr (sourceFilter @ '' AND s.project_id = $5::uuid'', ''TRUE'', scoped)
         else if apq_Scope request = ''task'' then
           Inr (task_filter @ sourceFilter, ''t.task_id = $5::uuid'', scoped)
         else if apq_Scope request = ''trajectory'' then
           Inr (sourceFilter @ '' AND tr.trajectory_id = $5::uuid'', ''TRUE'', scoped)
         else Inl (Stable_Error (NewError ErrorCodeUnsupportedCapability ''audit scope unavailable'' ''scope'' False)))"

definition trajectoryEvidencePredicate :: "string \<Rightarrow> string" where
  "trajectoryEvidencePredicate trajectoryAlias =
     ''EXISTS ('' @ sql_break 2 @ ''SELECT 1 FROM prompt_better.evidence_links scope_link'' @ sql_break 2 @
     ''WHERE scope_link.evidence_artifact_id=e.evidence_artifact_id'' @ sql_break 2 @
     ''  AND scope_link.target_kind='' @ [CHR 0x27] @ ''trajectory'' @ [CHR 0x27] @ sql_break 2 @
     ''  AND scope_link.target_id='' @ trajectoryAlias @ ''.trajectory_id)''"

definition evidenceScopePredicate :: "audit_project_request \<Rightarrow> string" where
  "evidenceScopePredicate request =
     (if apq_Scope request \<noteq> ''task'' \<and> apq_Scope request \<noteq> ''trajectory'' then ''TRUE''
      else trajectoryEvidencePredicate ''tr'')"

section \<open>Queries\<close>

record metric_row =
  mq_input :: metric_input
  mq_completePhases :: int
  mq_evidenceCount :: int
  mq_completeEvidence :: int

record source_row =
  sq_SourceKind :: string
  sq_Version :: string
  sq_lastObserved :: "go_time option"
  sq_Coverage :: string
  sq_evidenceCount :: int
  sq_redactedCount :: int

record contribution_row =
  oq_reference :: string
  oq_workloadClass :: string
  oq_numerator :: f64
  oq_denominator :: int
  oq_total :: f64

record confounder_row =
  fq_Kind :: string
  fq_State :: string
  fq_Provenance :: string
  fq_confidence :: f64

record workload_row =
  wq_Class :: string
  wq_Count :: f64
  wq_Numerator :: f64

record feedback_row =
  bq_code :: string
  bq_state :: string
  bq_cooldown :: go_time
  bq_evidenceRevision :: string

type_synonym 'a query = "sql_arg list \<Rightarrow> audit_error + 'a"

text \<open>The arguments before the list of values are the pieces of text the statement is composed from.\<close>

record audit_queries =
  aq_metrics :: "string \<Rightarrow> string \<Rightarrow> string \<Rightarrow> string \<Rightarrow> metric_row query"
  aq_overhead :: "string \<Rightarrow> (f64 \<times> int) query"
  aq_evidenceRefs :: "string \<Rightarrow> string \<Rightarrow> string list query"
  aq_toolRefs :: "string \<Rightarrow> string \<Rightarrow> string \<Rightarrow> string list query"
  aq_reportSources :: "string \<Rightarrow> string \<Rightarrow> source_row list query"
  aq_reportScopeCounts :: "string \<Rightarrow> string \<Rightarrow> string \<Rightarrow> (int list) query"
  aq_contributions :: "string \<Rightarrow> string \<Rightarrow> contribution_row list query"
  aq_confounders :: "string \<Rightarrow> confounder_row list query"
  aq_confounderLabels :: "string \<Rightarrow> (string \<times> string \<times> string) list query"
  aq_dimensionVersions :: "string \<Rightarrow> (string \<times> string) list query"
  aq_invocationCounts :: "string \<Rightarrow> string \<Rightarrow> invocation_counts query"
  aq_workloadValues :: "string \<Rightarrow> string \<Rightarrow> workload_row list query"
  aq_feedback :: "feedback_row list query"

definition source_evidenceRefs :: "audit_queries \<Rightarrow> string \<Rightarrow> sql_arg list \<Rightarrow> string \<Rightarrow> audit_error + string list" where
  "source_evidenceRefs q flt args evidenceScope = aq_evidenceRefs q flt evidenceScope args"

definition source_metrics ::
  "audit_queries \<Rightarrow> string \<Rightarrow> string \<Rightarrow> sql_arg list \<Rightarrow> audit_error + metric_input" where
  "source_metrics q flt turnFilter args =
     (let narrow = (turnFilter \<noteq> ''TRUE'' \<or> str_contains flt ''tr.trajectory_id ='');
          sessionLifecycle = (if narrow then ''FALSE'' else ''TRUE'');
          evidenceScope = (if narrow then trajectoryEvidencePredicate ''selected_scope'' else ''TRUE'');
          evidenceRefScope = (if narrow then trajectoryEvidencePredicate ''tr'' else ''TRUE'')
      in bind_result (aq_metrics q flt turnFilter sessionLifecycle evidenceScope args) (\<lambda>row.
         bind_result (source_evidenceRefs q flt args evidenceRefScope) (\<lambda>refs.
           Inr ((mq_input row)\<lparr> mi_AcceptedEvidence := mq_evidenceCount row,
                  mi_ActiveRuntimeKnown := 0 < mq_completePhases row,
                  mi_Coverage := (if mq_evidenceCount row = 0 then CoverageStateMissing
                    else if mq_completeEvidence row \<noteq> mq_evidenceCount row then CoverageStatePartial
                    else CoverageStateComplete),
                  mi_EvidenceRefs := refs \<rparr>))))"

definition zero_input :: metric_input where
  "zero_input = \<lparr> mi_CompletedTurns = 0, mi_AttributedTurns = 0, mi_BoundaryDecisions = 0,
     mi_BoundaryViolations = 0, mi_Checkpoints = 0, mi_CompleteCheckpoints = 0, mi_TotalTokens = Fin 0,
     mi_NonCachedInputTokens = Fin 0, mi_ToolCalls = 0, mi_PassiveWaitCalls = 0, mi_ToolResults = 0,
     mi_OversizedResults = 0, mi_RepeatedCalls = 0, mi_ToolErrors = 0, mi_ObservableMutations = 0,
     mi_ValidatedMutations = 0, mi_AcceptedEvidence = 0, mi_RedactedEvidence = 0, mi_CommentaryMessages = 0,
     mi_WallClockSeconds = Fin 0, mi_ActiveSeconds = Fin 0, mi_ActiveRuntimeKnown = False, mi_Coverage = '''',
     mi_EvidenceRefs = [], mi_Exclusions = [] \<rparr>"

definition source_overhead :: "audit_queries \<Rightarrow> string \<Rightarrow> sql_arg list \<Rightarrow> audit_error + metric_input" where
  "source_overhead q flt args =
     bind_result (aq_overhead q flt args) (\<lambda>(tokens, turns).
       Inr (zero_input\<lparr> mi_TotalTokens := tokens, mi_CompletedTurns := turns, mi_Coverage := CoverageStateComplete \<rparr>))"

definition source_toolRefs ::
  "audit_queries \<Rightarrow> string \<Rightarrow> string \<Rightarrow> sql_arg list \<Rightarrow> string \<Rightarrow> audit_error + string list" where
  "source_toolRefs q flt turnFilter args kind =
     (let n = show_nat (length args + 1);
          predicate = (if kind = ''repeated_unchanged'' then ''c.outcome=$'' @ n else ''c.tool_kind=$'' @ n)
      in aq_toolRefs q flt turnFilter predicate (args @ [Text_Arg kind]))"

section \<open>Rows into facts\<close>

definition boundedSlice :: "'a list \<Rightarrow> nat \<Rightarrow> int \<Rightarrow> 'a list \<times> int" where
  "boundedSlice vs limit omitted =
     (if length vs \<le> limit then (vs, omitted) else (take limit vs, omitted + int (length vs) - int limit))"

definition opaqueAuditAlias :: "(string \<Rightarrow> string) \<Rightarrow> string \<Rightarrow> string" where
  "opaqueAuditAlias sha v = ''opaque-'' @ hex_encode (take 12 (sha (''audit-reference:'' @ v)))"

definition opaqueVersions :: "(string \<Rightarrow> string) \<Rightarrow> string \<Rightarrow> string list" where
  "opaqueVersions sha signature =
     map (opaqueAuditAlias sha) (filter (\<lambda>p. p \<noteq> '''') (split_on (CHR '','') signature))"

definition report_source_of :: "(string \<Rightarrow> string) \<Rightarrow> source_row \<Rightarrow> report_source" where
  "report_source_of sha row =
     \<lparr> ru_SourceKind = sq_SourceKind row,
       ru_Version = (if sq_Version row \<noteq> ''unknown'' then opaqueAuditAlias sha (sq_Version row) else sq_Version row),
       ru_Freshness = (if sq_lastObserved row \<noteq> None then ''current'' else ''missing''),
       ru_Coverage = sq_Coverage row,
       ru_RedactionState = (if 0 < sq_evidenceCount row \<and> sq_redactedCount row = sq_evidenceCount row then ''complete''
         else if 0 < sq_redactedCount row then ''partial'' else ''unknown''),
       ru_KnowledgeState = (if sq_lastObserved row \<noteq> None then ''observed'' else ''unknown'') \<rparr>"

definition reportSources ::
  "audit_queries \<Rightarrow> (string \<Rightarrow> string) \<Rightarrow> audit_project_request \<Rightarrow> string \<Rightarrow> sql_arg list \<Rightarrow>
   audit_error + report_source list" where
  "reportSources q sha request flt args =
     bind_result (aq_reportSources q (evidenceScopePredicate request) flt args) (\<lambda>rows.
       Inr (map (report_source_of sha) rows))"

definition scope_counts_of :: "int list \<Rightarrow> report_scope_counts" where
  "scope_counts_of vs =
     \<lparr> rs_IncludedTrajectories = vs ! 0, rs_ExcludedTrajectories = Some (vs ! 1),
       rs_IncludedTurns = vs ! 2, rs_ExcludedTurns = Some (vs ! 3),
       rs_IncludedToolCalls = vs ! 4, rs_ExcludedToolCalls = Some (vs ! 5),
       rs_IncludedEvidence = vs ! 6, rs_ExcludedEvidence = Some (vs ! 7) \<rparr>"

definition zero_scope_counts :: report_scope_counts where
  "zero_scope_counts =
     \<lparr> rs_IncludedTrajectories = 0, rs_ExcludedTrajectories = None, rs_IncludedTurns = 0, rs_ExcludedTurns = None,
       rs_IncludedToolCalls = 0, rs_ExcludedToolCalls = None, rs_IncludedEvidence = 0, rs_ExcludedEvidence = None \<rparr>"

text \<open>A row of the wrong length is a decoding error.\<close>

definition reportScopeCounts ::
  "audit_queries \<Rightarrow> audit_project_request \<Rightarrow> string \<Rightarrow> string \<Rightarrow> sql_arg list \<Rightarrow>
   audit_error + report_scope_counts" where
  "reportScopeCounts q request flt turnFilter args =
     bind_result (aq_reportScopeCounts q flt turnFilter (evidenceScopePredicate request) args) (\<lambda>vs.
       if length vs = 8 then Inr (scope_counts_of vs)
       else Inl (Plain_Error ''query audit report scope counts''))"

definition contribution_of :: "contribution_row \<Rightarrow> scope_contribution" where
  "contribution_of row =
     \<lparr> sn_Scope = ''project'', sn_Reference = oq_reference row, sn_WorkloadClass = oq_workloadClass row,
       sn_Numerator = oq_numerator row, sn_Denominator = f64_of_int (oq_denominator row),
       sn_Contribution = (if oq_denominator row < 3 then None
         else if f64_less (Fin 0) (oq_total row) then Some (f64_div (oq_numerator row) (oq_total row)) else None),
       sn_Coverage = (if oq_denominator row < 3 then CoverageStatePartial else CoverageStateComplete),
       sn_AttributionState = (if oq_denominator row < 3 then ''privacy_suppressed'' else ''attributed'') \<rparr>"

definition source_contributions ::
  "audit_queries \<Rightarrow> audit_project_request \<Rightarrow> audit_error + scope_contribution list" where
  "source_contributions q request =
     bind_result (auditFilter request) (\<lambda>(flt, turnFilter, args).
     bind_result (aq_contributions q flt turnFilter args) (\<lambda>rows. Inr (map contribution_of rows)))"

definition confidenceLabel :: "f64 \<Rightarrow> string" where
  "confidenceLabel v =
     (if f64_le (f64_round (80 / 100)) v then ''high''
      else if f64_le (f64_round (50 / 100)) v then ''medium''
      else if f64_less (Fin 0) v then ''low'' else ''unknown'')"

definition confounder_of :: "confounder_row \<Rightarrow> confounder_stratum" where
  "confounder_of row =
     \<lparr> ct_Kind = fq_Kind row, ct_State = fq_State row, ct_Matched = False,
       ct_Confidence = confidenceLabel (fq_confidence row), ct_Provenance = fq_Provenance row \<rparr>"

definition source_confounders ::
  "audit_queries \<Rightarrow> audit_project_request \<Rightarrow> audit_error + confounder_stratum list" where
  "source_confounders q request =
     bind_result (auditFilter request) (\<lambda>(flt, turnFilter, args).
     bind_result (aq_confounders q flt args) (\<lambda>rows. Inr (map confounder_of rows)))"

definition confounderSignature :: "audit_queries \<Rightarrow> audit_project_request \<Rightarrow> audit_error + string" where
  "confounderSignature q request =
     bind_result (auditFilter request) (\<lambda>(flt, turnFilter, args).
     bind_result (aq_confounderLabels q flt args) (\<lambda>rows.
       Inr (if rows = [] then ''unknown''
            else join '','' (map (\<lambda>(kind, state, provenance). kind @ ''='' @ state @ ''@'' @ provenance) rows))))"

definition dimensionSignature :: "audit_queries \<Rightarrow> audit_project_request \<Rightarrow> audit_error + string" where
  "dimensionSignature q request =
     bind_result (auditFilter request) (\<lambda>(flt, turnFilter, args).
     bind_result (aq_dimensionVersions q flt args) (\<lambda>rows.
       if rows = [] then Inl (Stable_Error (NewError ErrorCodeCoverageIncomplete
            ''effective project/source versions unavailable'' ''as_of'' False))
       else bind_result (confounderSignature q request) (\<lambda>confounders.
         Inr (join '','' (sort_strings (map (\<lambda>(p, s). p @ '':'' @ s) rows @ [''confounders:'' @ confounders]))))))"

definition previousAuditWindow :: "audit_project_request \<Rightarrow> audit_project_request option" where
  "previousAuditWindow request =
     (let duration = time_Sub (apq_EndsAt request) (apq_StartsAt request)
      in if duration \<le> 0 then None
         else Some (request\<lparr> apq_EndsAt := apq_StartsAt request,
                apq_StartsAt := apq_StartsAt request + wrap64 (- duration), apq_AsOf := apq_StartsAt request \<rparr>))"

definition previousConfoundersMatched :: "audit_queries \<Rightarrow> audit_project_request \<Rightarrow> audit_error + bool" where
  "previousConfoundersMatched q request =
     (case previousAuditWindow request of
        None \<Rightarrow> Inl (Plain_Error ''invalid confounder comparison duration'')
      | Some previous \<Rightarrow>
          bind_result (confounderSignature q request) (\<lambda>currentSignature.
          bind_result (confounderSignature q previous) (\<lambda>previousSignature.
            Inr (currentSignature \<noteq> ''unknown'' \<and> currentSignature = previousSignature))))"

definition workloadValues :: "audit_queries \<Rightarrow> audit_project_request \<Rightarrow> audit_error + class_value list" where
  "workloadValues q request =
     bind_result (auditFilter request) (\<lambda>(flt, turnFilter, args).
     bind_result (aq_workloadValues q flt turnFilter args) (\<lambda>rows.
       Inr (map (\<lambda>row. \<lparr> cv_Class = wq_Class row, cv_Count = wq_Count row, cv_Numerator = wq_Numerator row,
                  cv_Denominator = wq_Count row \<rparr>) rows)))"

definition workloadEffects ::
  "audit_queries \<Rightarrow> audit_project_request \<Rightarrow> audit_error + workload_decomposition list" where
  "workloadEffects q request =
     (case previousAuditWindow request of
        None \<Rightarrow> Inl (Plain_Error ''invalid workload duration'')
      | Some previous \<Rightarrow>
          bind_result (workloadValues q request) (\<lambda>currentValues.
          bind_result (workloadValues q previous) (\<lambda>previousValues.
            Inr [Decompose ''total_tokens'' previousValues currentValues])))"

fun feedback_loop :: "recommendation_context \<Rightarrow> feedback_row list \<Rightarrow> recommendation_context" where
  "feedback_loop cx [] = cx"
| "feedback_loop cx (row # rows) =
     feedback_loop
       (if cx_Feedback cx (bq_code row) = None
        then cx\<lparr> cx_Feedback := (cx_Feedback cx)(bq_code row \<mapsto> \<lparr> fb_State = bq_state row,
                   fb_CooldownUntil = bq_cooldown row, fb_EvidenceRevision = bq_evidenceRevision row \<rparr>),
                 cx_ExistingRuleCoverage := (cx_ExistingRuleCoverage cx)(bq_code row \<mapsto> bq_state row = ''verified'') \<rparr>
        else cx) rows"

definition recommendationContext ::
  "audit_queries \<Rightarrow> audit_project_request \<Rightarrow> audit_error + recommendation_context" where
  "recommendationContext q request =
     (let result = empty_context\<lparr> cx_AsOf := apq_AsOf request \<rparr>
      in if apq_Scope request \<noteq> ''project'' then Inr result
         else bind_result (aq_feedback q [Text_Arg (apq_Reference request), Time_Arg (apq_AsOf request)]) (\<lambda>rows.
           Inr (feedback_loop result rows)))"

definition evidenceRevision :: "audit_env \<Rightarrow> string list \<Rightarrow> string" where
  "evidenceRevision env refs = hex_encode (au_sha256 env (au_marshal_refs env (sort_strings refs)))"

section \<open>Guardrails\<close>

definition guardrailState :: "string \<Rightarrow> metric_result \<Rightarrow> string" where
  "guardrailState name r =
     (case mr_NativeValue r of
        None \<Rightarrow> ''unknown''
      | Some v \<Rightarrow>
          if mr_Coverage r \<noteq> CoverageStateComplete then ''unknown''
          else if name = ''tool_error_rate''
          then (if f64_less (f64_round (5 / 100)) v then ''fail'' else ''pass'')
          else if f64_less v (f64_round (95 / 100)) then ''fail'' else ''pass'')"

definition guardrail_names :: "string list" where
  "guardrail_names = [''tool_error_rate'', ''validation_presence'', ''privacy_redaction_coverage'']"

definition source_guardrailsPass :: "metric_result list \<Rightarrow> bool" where
  "source_guardrailsPass rs \<longleftrightarrow> list_all (\<lambda>name. guardrailState name (metric_named rs name) = ''pass'') guardrail_names"

text \<open>\<open>metrics.Compute\<close> never panics (\<open>Compute_total\<close>), so its outcome is read off.\<close>

definition currentGuardrails :: "metric_input \<Rightarrow> guardrail_result list" where
  "currentGuardrails input =
     (case the (Compute input) of
        Inl e \<Rightarrow> []
      | Inr rs \<Rightarrow> map (\<lambda>name. \<lparr> gr_Name = name, gr_State = guardrailState name (metric_named rs name),
                   gr_Coverage = mr_Coverage (metric_named rs name),
                   gr_EvidenceRefs = mr_EvidenceRefs (metric_named rs name) \<rparr>) guardrail_names)"

section \<open>Comparison windows\<close>

definition relativeDirection :: "f64 \<Rightarrow> f64 \<Rightarrow> f64 \<Rightarrow> int" where
  "relativeDirection current prior threshold =
     (if f64_eq prior (Fin 0) then
        (if f64_eq current (Fin 0) then 0 else if f64_less (Fin 0) current then 1 else - 1)
      else (let change = f64_div (f64_sub current prior) prior
            in if f64_less threshold change then 1
               else if f64_less change (f64_neg threshold) then - 1 else 0))"

definition persistenceState ::
  "metric_result \<Rightarrow> metric_result \<Rightarrow> metric_result \<Rightarrow> metric_definition \<Rightarrow> int \<times> bool" where
  "persistenceState current previous older d =
     (case (mr_NativeValue current, mr_NativeValue previous, mr_NativeValue older) of
        (Some c, Some p, Some o1) \<Rightarrow>
          if mr_Version current \<noteq> mr_Version previous \<or> mr_Version previous \<noteq> mr_Version older then (0, False)
          else (let recent = relativeDirection c p (df_PracticalChange d);
                    prior = relativeDirection p o1 (df_PracticalChange d)
                in if recent = 0 then (0, prior \<noteq> 0)
                   else if recent = prior then (2, False)
                   else (1, prior \<noteq> 0 \<and> prior \<noteq> recent))
      | _ \<Rightarrow> (0, False))"

definition prior_request :: "audit_project_request \<Rightarrow> go_duration \<Rightarrow> int \<Rightarrow> audit_project_request" where
  "prior_request request duration k =
     (let end_at = apq_StartsAt request + wrap64 (- (k - 1) * duration)
      in request\<lparr> apq_EndsAt := end_at, apq_StartsAt := end_at + wrap64 (- duration), apq_AsOf := end_at \<rparr>)"

text \<open>One window of the loop: its metrics and whether its dimension versions are the current ones.\<close>

definition window_results ::
  "audit_queries \<Rightarrow> string \<Rightarrow> audit_project_request \<Rightarrow> audit_error + metric_result list \<times> bool" where
  "window_results q currentSignature prior =
     bind_result (auditFilter prior) (\<lambda>(flt, turnFilter, args).
     bind_result (source_metrics q flt turnFilter args) (\<lambda>input.
       case the (Compute input) of
         Inl e \<Rightarrow> Inl (Plain_Error e)
       | Inr rs \<Rightarrow> Inr (rs, dimensionSignature q prior = Inr currentSignature)))"

fun collect_windows ::
  "audit_queries \<Rightarrow> string \<Rightarrow> audit_project_request list \<Rightarrow> audit_error + (metric_result list \<times> bool) list" where
  "collect_windows q currentSignature [] = Inr []"
| "collect_windows q currentSignature (p # ps) =
     bind_result (window_results q currentSignature p) (\<lambda>w.
     bind_result (collect_windows q currentSignature ps) (\<lambda>ws. Inr (w # ws)))"

definition window_of :: "string \<Rightarrow> bool \<Rightarrow> metric_result list \<times> bool \<Rightarrow> baseline_window" where
  "window_of name guardrails w =
     (let r = metric_named (fst w) name
      in \<lparr> bw_Value = mr_NativeValue r, bw_Coverage = mr_Coverage r, bw_MetricVersion = mr_Version r,
           bw_Comparable = snd w, bw_GuardrailsPass = guardrails \<rparr>)"

definition compatibleCount :: "bool list \<Rightarrow> int" where
  "compatibleCount vs = int (length (filter (\<lambda>v. v) vs))"

definition comparison_of ::
  "(metric_result list \<times> bool) list \<Rightarrow> metric_result list \<Rightarrow> bool \<Rightarrow> metric_definition \<Rightarrow> baseline_comparison" where
  "comparison_of ws current privacySuppressed d =
     (let name = df_Name d;
          previousResult = metric_named (fst (ws ! 0)) name;
          (persistence, hysteresis) = persistenceState (metric_named current name) previousResult
             (metric_named (fst (ws ! 1)) name) d
      in \<lparr> bc_Previous = window_of name (source_guardrailsPass (fst (ws ! 0))) (ws ! 0),
           bc_Rolling = map (window_of name False) (take 7 (drop 1 ws)),
           bc_Seasonal = map (\<lambda>i. window_of name False (ws ! i)) (filter (\<lambda>i. i < length ws) [6, 13, 20, 27]),
           bc_WorkloadExpected = None,
           bc_ConfoundersMatched = (snd (ws ! 0) \<and> 3 \<le> compatibleCount (map snd (drop 1 ws))),
           bc_HysteresisActive = hysteresis, bc_PersistenceCount = persistence,
           bc_PrivacySuppressed = privacySuppressed \<rparr>)"

definition source_comparisons ::
  "audit_queries \<Rightarrow> audit_project_request \<Rightarrow> metric_input \<Rightarrow> bool \<Rightarrow>
   audit_error + (string \<rightharpoonup> baseline_comparison)" where
  "source_comparisons q request currentInput privacySuppressed =
     (let duration = time_Sub (apq_EndsAt request) (apq_StartsAt request)
      in if duration \<le> 0 then Inl (Plain_Error ''invalid comparison duration'')
         else bind_result (dimensionSignature q request) (\<lambda>currentSignature.
              bind_result (collect_windows q currentSignature (map (prior_request request duration) [1..29])) (\<lambda>ws.
                case the (Compute currentInput) of
                  Inl e \<Rightarrow> Inl (Plain_Error e)
                | Inr current \<Rightarrow>
                    Inr (map_of (map (\<lambda>d. (df_Name d, comparison_of ws current privacySuppressed d)) Definitions)))))"

section \<open>The snapshot\<close>

definition zero_invocations :: invocation_counts where
  "zero_invocations = \<lparr> ic_HostCalls = 0, ic_LeafCalls = 0, ic_HostResults = 0, ic_LeafResults = 0, ic_UnknownCalls = 0 \<rparr>"

text \<open>What is suppressed for a narrow scope with fewer than three turns.\<close>

definition narrow_suppressed :: "audit_project_request \<Rightarrow> metric_input \<Rightarrow> bool" where
  "narrow_suppressed request input \<longleftrightarrow>
     (apq_Scope request = ''task'' \<or> apq_Scope request = ''trajectory'') \<and> mi_CompletedTurns input < 3"

text \<open>The final part: suppression, bounds and assembly.\<close>

definition assemble_snapshot ::
  "audit_env \<Rightarrow> audit_project_request \<Rightarrow> bool \<Rightarrow> metric_input \<Rightarrow> metric_input \<Rightarrow> string list \<Rightarrow> string list \<Rightarrow>
   (string \<rightharpoonup> baseline_comparison) \<Rightarrow> scope_contribution list \<Rightarrow> confounder_stratum list \<Rightarrow> bool \<Rightarrow> string \<Rightarrow>
   report_source list \<Rightarrow> report_scope_counts \<Rightarrow> invocation_counts \<Rightarrow> workload_decomposition list \<Rightarrow>
   recommendation_context \<Rightarrow> snapshot" where
  "assemble_snapshot env request privacySuppressed metricsInput overhead passiveRefs repeatedRefs comparisons contributions
      confounders matched signature sources counts invocations effects cx =
     (let (contributions, omitted1) = boundedSlice (if privacySuppressed then [] else contributions) 100 0;
           (confounders, omitted2) = boundedSlice
              (if privacySuppressed then [] else map (\<lambda>c. c\<lparr> ct_Matched := matched \<rparr>) confounders) 100 omitted1;
           (effects, omitted3) = boundedSlice (if privacySuppressed then [] else effects) 40 omitted2;
           (versions, omitted4) = boundedSlice (opaqueVersions (au_sha256 env) signature) 100 omitted3
       in \<lparr> sp_Reference = (if privacySuppressed then opaqueAuditAlias (au_sha256 env) (apq_Reference request)
                               else apq_Reference request),
                sp_Scope = apq_Scope request, sp_StartsAt = apq_StartsAt request, sp_EndsAt = apq_EndsAt request,
                sp_AsOf = apq_AsOf request, sp_Coverage = mi_Coverage metricsInput, sp_Metrics = metricsInput,
                sp_GovernanceOverhead = overhead,
                sp_PassivePollingRefs = (if privacySuppressed then [] else passiveRefs),
                sp_RepeatedCallRefs = (if privacySuppressed then [] else repeatedRefs),
                sp_NecessaryWorkRefs = [], sp_Comparisons = comparisons,
                sp_Window = \<lparr> aw_StartsAt = apq_StartsAt request, aw_EndsAt = apq_EndsAt request,
                   aw_AsOf = apq_AsOf request, aw_Timezone = ''UTC'', aw_BaselineVersion = ''baseline-v1'',
                   aw_CountingMode = ''logical-invocation-v1'', aw_WorkloadVersion = ''workload-v1'',
                   aw_SourceVersions = versions, aw_Revision = 1, aw_LateEvidence = False \<rparr>,
                sp_Contributions = contributions, sp_ConfounderStrata = confounders,
                sp_Guardrails = currentGuardrails metricsInput, sp_WorkloadEffects = effects,
                sp_InvocationCounts = (if privacySuppressed then zero_invocations else invocations),
                sp_ReportScopeCounts = (if privacySuppressed then zero_scope_counts else counts),
                sp_ReportSources = (if privacySuppressed then map (\<lambda>r. r\<lparr> ru_RedactionState := ''suppressed'',
                                                        ru_KnowledgeState := ''unknown'' \<rparr>) sources else sources),
                sp_PrivacySuppressed = privacySuppressed, sp_OmittedCount = omitted4,
                sp_RecommendationContext =
                  cx\<lparr> cx_MaterialEvidenceRevision := evidenceRevision env (mi_EvidenceRefs metricsInput) \<rparr> \<rparr>)"

definition source_Snapshot ::
  "audit_queries \<Rightarrow> audit_env \<Rightarrow> audit_project_request \<Rightarrow> audit_error + snapshot" where
  "source_Snapshot q env request =
     bind_result (auditFilter request) (\<lambda>(flt, turnFilter, args).
     bind_result (source_metrics q flt turnFilter args) (\<lambda>raw.
     let privacySuppressed = narrow_suppressed request raw;
         metricsInput = (if privacySuppressed then raw\<lparr> mi_EvidenceRefs := [], mi_Coverage := CoverageStatePartial \<rparr> else raw) in
     bind_result (source_overhead q flt args) (\<lambda>overhead.
     bind_result (source_toolRefs q flt turnFilter args ''passive_wait'') (\<lambda>passiveRefs.
     bind_result (source_toolRefs q flt turnFilter args ''repeated_unchanged'') (\<lambda>repeatedRefs.
     bind_result (source_comparisons q request metricsInput privacySuppressed) (\<lambda>comparisons.
     bind_result (source_contributions q request) (\<lambda>contributions.
     bind_result (source_confounders q request) (\<lambda>confounders.
     bind_result (previousConfoundersMatched q request) (\<lambda>matched.
     bind_result (dimensionSignature q request) (\<lambda>signature.
     bind_result (reportSources q (au_sha256 env) request flt args) (\<lambda>sources.
     bind_result (reportScopeCounts q request flt turnFilter args) (\<lambda>counts.
     bind_result (aq_invocationCounts q flt turnFilter args) (\<lambda>invocations.
     bind_result (workloadEffects q request) (\<lambda>effects.
     bind_result (recommendationContext q request) (\<lambda>cx.
       Inr (assemble_snapshot env request privacySuppressed metricsInput overhead passiveRefs repeatedRefs comparisons
         contributions confounders matched signature sources counts invocations effects cx))))))))))))))))"

end
