(* ===== verification/Governance_Store.thy ===== *)
theory Governance_Store
  imports Governance_Source
begin

text \<open>
  The persistence of an audit (\<open>persistAuditProject\<close> and what it calls in
  \<open>internal/store/postgres/governance.go\<close>). The tables it writes are one list of keyed rows in the order
  of insertion; every statement is an insert that does nothing when the key exists. The rows of other
  tables it reads, JSON coding, the digests and the statements the database rejects are arguments.
\<close>

record window_row =
  wr_project :: "string option"
  wr_kind :: string
  wr_starts :: go_time
  wr_ends :: go_time
  wr_as_of :: go_time
  wr_policy :: "(string \<times> string \<times> bool \<times> bool) option"

record revision_row =
  rv_window :: string
  rv_number :: int
  rv_as_of :: go_time
  rv_coverage :: string
  rv_hash :: string
  rv_prior :: "string option"
  rv_engine :: string

datatype gov_key =
    Window_Key string
  | Revision_Key string
  | Definition_Key string string
  | Evaluation_Key string
  | Metric_Key string string string
  | Link_Key string
  | Confounder_Key string
  | Finding_Key string
  | Recommendation_Key string

datatype gov_row =
    Window_Row window_row
  | Revision_Row revision_row
  | Definition_Row string string
  | Evaluation_Row string eval_run go_time
  | Metric_Row string string string metric_result string go_time
  | Link_Row string string string go_time
  | Confounder_Row string confounder_stratum "f64 option" go_time
  | Finding_Row string audit_finding "f64 option" string go_time
  | Recommendation_Row string "string option" "string option" audit_recommendation string string string go_time

type_synonym gov_db = "(gov_key \<times> gov_row) list"

text \<open>What the evaluation hashes.\<close>

datatype eval_value =
    Fixture_Value string string go_time go_time go_time "string list"
  | Window_Value audit_window
  | Text_Value string
  | Definitions_Value "metric_definition list"

record gov_env =
  ge_audit :: audit_env
  ge_format :: "go_time \<Rightarrow> string"
  ge_marshal_definition :: "metric_definition \<Rightarrow> string option"
  ge_marshal_value :: "eval_value \<Rightarrow> string option"
  ge_marshal_run :: "eval_run \<Rightarrow> string option"
  ge_md5_uuid :: "string \<Rightarrow> string"
  ge_policy :: "string option \<Rightarrow> go_time \<Rightarrow> (string \<times> string \<times> bool \<times> bool) option"
  ge_artifact_exists :: "string \<Rightarrow> bool"
  ge_scope_evidence :: "audit_project_request \<Rightarrow> string list"
  ge_lineage :: "audit_project_request \<Rightarrow> string list"

definition batch_uuid :: "gov_env \<Rightarrow> string \<Rightarrow> string" where
  "batch_uuid env v =
     deterministicUUID \<lparr> be_sha256 = au_sha256 (ge_audit env), be_parse_float = (\<lambda>_. None), be_parse_time = (\<lambda>_. None) \<rparr> v"

section \<open>Statements\<close>

text \<open>The tables with unique keys; a revision number is unique in its window.\<close>

definition revision_rows :: "string \<Rightarrow> gov_db \<Rightarrow> (string \<times> revision_row) list" where
  "revision_rows window db =
     List.map_filter (\<lambda>(k, row). case (k, row) of
        (Revision_Key i, Revision_Row r) \<Rightarrow> if rv_window r = window then Some (i, r) else None
      | _ \<Rightarrow> None) db"

definition violates_unique :: "gov_row \<Rightarrow> gov_db \<Rightarrow> bool" where
  "violates_unique row db =
     (case row of
        Revision_Row r \<Rightarrow> rv_number r \<in> set (map (\<lambda>(i, q). rv_number q) (revision_rows (rv_window r) db))
      | _ \<Rightarrow> False)"

definition insert_row :: "tx_env \<Rightarrow> string \<Rightarrow> gov_key \<times> gov_row \<Rightarrow> gov_db \<Rightarrow> store_error + gov_db" where
  "insert_row tx op kr db =
     bind_result (statement tx op op) (\<lambda>_.
       if map_of db (fst kr) \<noteq> None then Inr db
       else if violates_unique (snd kr) db then Inl (DatabaseError op False)
       else Inr (db @ [kr]))"

definition insert_rows :: "tx_env \<Rightarrow> string \<Rightarrow> (gov_key \<times> gov_row) list \<Rightarrow> gov_db \<Rightarrow> store_error + gov_db" where
  "insert_rows tx op krs db = fold_result (insert_row tx op) krs db"

section \<open>Identity of a revision\<close>

definition auditWindowKey :: "gov_env \<Rightarrow> audit_project_request \<Rightarrow> string" where
  "auditWindowKey env request =
     ''audit-window:'' @ EngineVersion @ '':'' @ apq_Scope request @ '':'' @ apq_Reference request @ '':'' @
     ge_format env (apq_StartsAt request) @ '':'' @ ge_format env (apq_EndsAt request)"

definition decodeAuditRevisionHash :: "string \<Rightarrow> store_error + string" where
  "decodeAuditRevisionHash v =
     (case hex_decode v of
        None \<Rightarrow> Inl (StoreError ''invalid audit revision hash'')
      | Some d \<Rightarrow> if length d \<noteq> 32 then Inl (StoreError ''invalid audit revision hash'') else Inr d)"

fun filter_error :: "audit_error \<Rightarrow> store_error" where
  "filter_error (Stable_Error e) = AuditFailure e"
| "filter_error (Plain_Error e) = StoreError e"

definition projectIDForAudit :: "gov_env \<Rightarrow> tx_env \<Rightarrow> audit_project_request \<Rightarrow> store_error + string option" where
  "projectIDForAudit env tx request =
     (if apq_Scope request = ''portfolio'' then Inr None
      else if apq_Scope request = ''project'' then Inr (Some (apq_Reference request))
      else case auditFilter request of
          Inl e \<Rightarrow> Inl (filter_error e)
        | Inr _ \<Rightarrow>
            bind_result (statement tx ''resolve audit project lineage'' ''resolve audit project lineage'') (\<lambda>_.
              case take 2 (ge_lineage env request) of
                [v] \<Rightarrow> Inr (Some v)
              | _ \<Rightarrow> Inl (AuditFailure (NewError ErrorCodeCoverageIncomplete
                       ''single project lineage unavailable'' ''reference'' False))))"

text \<open>The stored number and predecessor of the revision, or the next ones of its window.\<close>

fun latest_revision :: "(string \<times> revision_row) list \<Rightarrow> (string \<times> revision_row) option" where
  "latest_revision [] = None"
| "latest_revision (x # xs) =
     (case latest_revision xs of
        None \<Rightarrow> Some x
      | Some y \<Rightarrow> if rv_number (snd y) < rv_number (snd x) then Some x else Some y)"

definition revision_identity :: "string \<Rightarrow> string \<Rightarrow> gov_db \<Rightarrow> int \<times> string option" where
  "revision_identity revisionID windowID db =
     (case map_of db (Revision_Key revisionID) of
        Some (Revision_Row r) \<Rightarrow> (rv_number r, rv_prior r)
      | _ \<Rightarrow> (case latest_revision (revision_rows windowID db) of
                None \<Rightarrow> (1, None)
              | Some (i, r) \<Rightarrow> (rv_number r + 1, Some i)))"

section \<open>Rows of a revision\<close>

definition persist_definition :: "gov_env \<Rightarrow> tx_env \<Rightarrow> metric_definition \<Rightarrow> gov_db \<Rightarrow> store_error + gov_db" where
  "persist_definition env tx d db =
     (case ge_marshal_definition env d of
        None \<Rightarrow> Inl (StoreError ''encode metric definition'')
      | Some encoded \<Rightarrow>
          (let digest = au_sha256 (ge_audit env) encoded;
               row = Definition_Row (batch_uuid env (''metric-definition:'' @ df_Name d @ '':'' @ df_Version d)) digest
           in bind_result (insert_row tx ''persist metric definition'' (Definition_Key (df_Name d) (df_Version d), row) db)
                (\<lambda>db'. if length db < length db' then Inr db'
                       else bind_result (statement tx ''read metric definition'' ''read metric definition'') (\<lambda>_.
                         case map_of db (Definition_Key (df_Name d) (df_Version d)) of
                           Some (Definition_Row i h) \<Rightarrow>
                             if h \<noteq> digest then Inl (StoreError ''metric definition version conflicts with persisted content'')
                             else Inr db'
                         | _ \<Rightarrow> Inl (DatabaseError ''read metric definition'' False)))))"

definition persistMetricDefinitions :: "gov_env \<Rightarrow> tx_env \<Rightarrow> gov_db \<Rightarrow> store_error + gov_db" where
  "persistMetricDefinitions env tx db = fold_result (persist_definition env tx) Definitions db"

definition revision_link :: "gov_env \<Rightarrow> string \<Rightarrow> go_time \<Rightarrow> string \<Rightarrow> gov_key \<times> gov_row" where
  "revision_link env revisionID asOf artifact =
     (Link_Key (ge_md5_uuid env (revisionID @ '':'' @ artifact)), Link_Row artifact ''audit_revision'' revisionID asOf)"

definition persistRevisionEvidence ::
  "gov_env \<Rightarrow> tx_env \<Rightarrow> string \<Rightarrow> audit_project_request \<Rightarrow> gov_db \<Rightarrow> store_error + gov_db" where
  "persistRevisionEvidence env tx revisionID request db =
     bind_result (case auditFilter request of Inl e \<Rightarrow> Inl (filter_error e) | Inr _ \<Rightarrow> Inr ()) (\<lambda>_.
     bind_result (statement tx ''persist audit revision evidence links'' ''persist audit revision evidence links'') (\<lambda>_.
     insert_rows tx ''persist audit revision evidence links''
       (map (revision_link env revisionID (apq_AsOf request)) (ge_scope_evidence env request)) db))"

definition revision_artifacts :: "string \<Rightarrow> gov_db \<Rightarrow> string list" where
  "revision_artifacts revisionID db =
     List.map_filter (\<lambda>(k, row). case row of
        Link_Row artifact kind target _ \<Rightarrow>
          if kind = ''audit_revision'' \<and> target = revisionID then Some artifact else None
      | _ \<Rightarrow> None) db"

definition hasNewRevisionEvidence :: "string \<Rightarrow> string option \<Rightarrow> gov_db \<Rightarrow> bool" where
  "hasNewRevisionEvidence revisionID prior db =
     (case prior of
        None \<Rightarrow> False
      | Some p \<Rightarrow> list_ex (\<lambda>a. a \<notin> set (revision_artifacts p db)) (revision_artifacts revisionID db))"

definition persistEvidenceLinks ::
  "gov_env \<Rightarrow> tx_env \<Rightarrow> string \<Rightarrow> string \<Rightarrow> string \<Rightarrow> string list \<Rightarrow> go_time \<Rightarrow> gov_db \<Rightarrow> store_error + gov_db" where
  "persistEvidenceLinks env tx revisionID kind targetID refs observedAt db =
     bind_result (if refs = [] then Inr () else statement tx ''persist audit evidence link'' ''persist audit evidence link'') (\<lambda>_.
     insert_rows tx ''persist audit evidence link''
       (map (\<lambda>ref. (Link_Key (batch_uuid env (revisionID @ '':'' @ kind @ '':'' @ targetID @ '':'' @ ref)),
                   Link_Row ref kind targetID observedAt))
         (filter (ge_artifact_exists env) refs)) db)"

text \<open>The outcome and gate of a stored evaluation. Unlike the gate of a replay, no guardrails pass.\<close>

definition evaluationQualityGate :: "governance_result \<Rightarrow> string" where
  "evaluationQualityGate r = gate_state ''pass'' (gv_Guardrails r)"

fun evaluation_loop :: "string \<Rightarrow> metric_result list \<Rightarrow> string" where
  "evaluation_loop outcome [] = outcome"
| "evaluation_loop outcome (m # ms) =
     (if mr_Status m = MetricStatusWorsened then ''regressed''
      else evaluation_loop
        (if mr_Status m = MetricStatusMixed \<or> mr_Status m = MetricStatusInsufficient then ''mixed''
         else if mr_Status m = MetricStatusImproved \<and> outcome = ''unchanged'' then ''improved'' else outcome) ms)"

definition evaluationOutcome :: "governance_result \<Rightarrow> string" where
  "evaluationOutcome r = evaluation_loop ''unchanged'' (gv_Metrics r)"

definition evaluation_comparison :: "governance_result \<Rightarrow> replay_comparison" where
  "evaluation_comparison r =
     \<lparr> rr_BaselineHash = '''', rr_CandidateHash = gv_RevisionHash r,
       rr_Statuses = foldl (\<lambda>m x. m(mr_Name x \<mapsto> mr_Status x)) Map.empty (gv_Metrics r),
       rr_Outcome = evaluationOutcome r, rr_QualityGateState = evaluationQualityGate r \<rparr>"

definition evaluation_run :: "gov_env \<Rightarrow> audit_project_request \<Rightarrow> governance_result \<Rightarrow> string + eval_run" where
  "evaluation_run env request r =
     NewRun (au_sha256 (ge_audit env)) (ge_marshal_value env) (ge_marshal_run env) ''eval-v1''
       (Fixture_Value (apq_Scope request) (apq_Reference request) (apq_StartsAt request) (apq_EndsAt request)
          (apq_AsOf request) (sort_strings (apq_ConfiguredSources request)))
       (Window_Value (gv_Window r))
       \<lparr> ec_Model = Text_Value ''observed-local-model'', ec_Compiler = Text_Value ''compiler-v1'',
         ec_Policy = Text_Value ''recommendation-v1'', ec_Metrics = Definitions_Value Definitions \<rparr>
       (evaluation_comparison r)"

definition persistEvaluationRun ::
  "gov_env \<Rightarrow> tx_env \<Rightarrow> string \<Rightarrow> audit_project_request \<Rightarrow> governance_result \<Rightarrow> gov_db \<Rightarrow>
   store_error + string \<times> gov_db" where
  "persistEvaluationRun env tx revisionID request r db =
     (case evaluation_run env request r of
        Inl e \<Rightarrow> Inl (StoreError e)
      | Inr run \<Rightarrow>
          (let i = batch_uuid env (revisionID @ '':evaluation'')
           in bind_result (insert_row tx ''persist project audit evaluation''
                (Evaluation_Key i, Evaluation_Row revisionID run (apq_AsOf request)) db) (\<lambda>db'. Inr (i, db'))))"

definition confidenceValue :: "string \<Rightarrow> f64 option" where
  "confidenceValue v = map_option f64_round (map_of [(''high'', 90 / 100), (''medium'', 65 / 100), (''low'', 35 / 100)] v)"

definition persistMetricResult ::
  "gov_env \<Rightarrow> tx_env \<Rightarrow> string \<Rightarrow> string \<Rightarrow> go_time \<Rightarrow> metric_result \<Rightarrow> gov_db \<Rightarrow> store_error + gov_db" where
  "persistMetricResult env tx revisionID evaluationID computedAt m db =
     (let i = batch_uuid env (revisionID @ '':metric:'' @ mr_Name m @ '':'' @ mr_Version m);
          definitionID = batch_uuid env (''metric-definition:'' @ mr_Name m @ '':'' @ mr_Version m);
          exclusions = au_marshal_refs (ge_audit env) (mr_Exclusions m)
      in bind_result (insert_row tx ''persist project audit metric''
           (Metric_Key revisionID (mr_Name m) (mr_Version m),
            Metric_Row i evaluationID definitionID m exclusions computedAt) db)
         (persistEvidenceLinks env tx revisionID ''metric_result'' i (mr_EvidenceRefs m) computedAt))"

definition persist_confounder ::
  "gov_env \<Rightarrow> tx_env \<Rightarrow> string \<Rightarrow> go_time \<Rightarrow> confounder_stratum \<Rightarrow> gov_db \<Rightarrow> store_error + gov_db" where
  "persist_confounder env tx revisionID asOf c =
     insert_row tx ''persist project audit confounder''
       (Confounder_Key (batch_uuid env (revisionID @ '':confounder:'' @ ct_Kind c @ '':'' @ ct_State c @ '':'' @ ct_Provenance c)),
        Confounder_Row revisionID c (confidenceValue (ct_Confidence c)) asOf)"

definition finding_id :: "gov_env \<Rightarrow> string \<Rightarrow> string \<Rightarrow> string" where
  "finding_id env revisionID code = batch_uuid env (revisionID @ '':finding:'' @ code)"

definition persist_finding ::
  "gov_env \<Rightarrow> tx_env \<Rightarrow> string \<Rightarrow> go_time \<Rightarrow> audit_finding \<Rightarrow> gov_db \<Rightarrow> store_error + gov_db" where
  "persist_finding env tx revisionID asOf f db =
     (let i = finding_id env revisionID (fd_Code f)
      in bind_result (insert_row tx ''persist project audit finding''
           (Finding_Key i, Finding_Row revisionID f (confidenceValue (fd_Confidence f))
              (au_marshal_refs (ge_audit env) (fd_Counterevidence f)) asOf) db)
         (persistEvidenceLinks env tx revisionID ''finding'' i (fd_EvidenceRefs f) asOf))"

definition recommendationFindingCode :: "string \<Rightarrow> string" where
  "recommendationFindingCode code =
     (case map_of [
        (''restore_scope_attribution'', ''scope_attribution_gap''),
        (''complete_checkpoint_contract'', ''checkpoint_gap''),
        (''wait_on_state_change'', ''passive_polling''),
        (''reuse_unchanged_evidence'', ''repeated_unchanged_call''),
        (''validate_after_mutation'', ''missing_validation''),
        (''restore_redaction_coverage'', ''privacy_redaction_gap'')] code of
        None \<Rightarrow> '''' | Some c \<Rightarrow> c)"

text \<open>The identifier of the finding with the least code, or empty.\<close>

definition firstFindingID :: "gov_env \<Rightarrow> string \<Rightarrow> string list \<Rightarrow> string" where
  "firstFindingID env revisionID codes =
     (case sort_strings codes of [] \<Rightarrow> '''' | c # _ \<Rightarrow> finding_id env revisionID c)"

definition recommendation_finding :: "gov_env \<Rightarrow> string \<Rightarrow> string list \<Rightarrow> string \<Rightarrow> string" where
  "recommendation_finding env revisionID codes code =
     (if recommendationFindingCode code \<in> set codes
      then finding_id env revisionID (recommendationFindingCode code)
      else firstFindingID env revisionID codes)"

definition persist_recommendation ::
  "gov_env \<Rightarrow> tx_env \<Rightarrow> string \<Rightarrow> string option \<Rightarrow> string list \<Rightarrow> go_time \<Rightarrow> audit_recommendation \<Rightarrow> gov_db \<Rightarrow>
   store_error + gov_db" where
  "persist_recommendation env tx revisionID projectID codes asOf r =
     (let findingID = recommendation_finding env revisionID codes (rc_Code r)
      in insert_row tx ''persist project audit recommendation''
        (Recommendation_Key (batch_uuid env (revisionID @ '':recommendation:'' @ rc_Code r)),
         Recommendation_Row revisionID (if findingID = '''' then None else Some findingID) projectID r
           (evidenceRevision (ge_audit env) (rc_EvidenceRefs r))
           (au_marshal_refs (ge_audit env) (rc_ProtectedGuardrails r))
           (au_marshal_refs (ge_audit env) (rc_Risks r)) asOf))"

section \<open>The transaction\<close>

definition persistAuditProject ::
  "gov_env \<Rightarrow> tx_env \<Rightarrow> audit_project_request \<Rightarrow> governance_result \<Rightarrow> gov_db \<Rightarrow>
   store_error + governance_result \<times> gov_db" where
  "persistAuditProject env tx request result db =
     bind_result (decodeAuditRevisionHash (gv_RevisionHash result)) (\<lambda>hash.
     let windowID = batch_uuid env (auditWindowKey env request);
         revisionID = batch_uuid env (''audit-revision:'' @ gv_RevisionHash result) in
     bind_result (projectIDForAudit env tx request) (\<lambda>projectID.
     bind_result (insert_row tx ''persist project audit window''
       (Window_Key windowID, Window_Row \<lparr> wr_project = projectID, wr_kind = apq_Scope request,
          wr_starts = apq_StartsAt request, wr_ends = apq_EndsAt request, wr_as_of = apq_AsOf request,
          wr_policy = ge_policy env projectID (apq_AsOf request) \<rparr>) db) (\<lambda>db1.
     bind_result (statement tx ''read project audit revision'' ''read project audit revision'') (\<lambda>_.
     let (revisionNumber, priorRevisionID) = revision_identity revisionID windowID db1 in
     bind_result (insert_row tx ''persist project audit revision''
       (Revision_Key revisionID, Revision_Row \<lparr> rv_window = windowID, rv_number = revisionNumber,
          rv_as_of = apq_AsOf request, rv_coverage = gv_Coverage result, rv_hash = hash,
          rv_prior = priorRevisionID, rv_engine = EngineVersion \<rparr>) db1) (\<lambda>db2.
     bind_result (persistMetricDefinitions env tx db2) (\<lambda>db3.
     bind_result (persistRevisionEvidence env tx revisionID request db3) (\<lambda>db4.
     bind_result (if priorRevisionID = None then Inr ()
       else statement tx ''compare audit revision evidence'' ''compare audit revision evidence'') (\<lambda>_.
     let persisted = result\<lparr> gv_Window := (gv_Window result)\<lparr> aw_Revision := revisionNumber,
           aw_LateEvidence := hasNewRevisionEvidence revisionID priorRevisionID db4 \<rparr> \<rparr> in
     bind_result (persistEvaluationRun env tx revisionID request persisted db4) (\<lambda>(evaluationID, db5).
     bind_result (fold_result (persistMetricResult env tx revisionID evaluationID (apq_AsOf request))
       (gv_Metrics result) db5) (\<lambda>db6.
     bind_result (fold_result (persist_confounder env tx revisionID (apq_AsOf request))
       (gv_Confounders result) db6) (\<lambda>db7.
     bind_result (fold_result (persist_finding env tx revisionID (apq_AsOf request))
       (gv_Findings result) db7) (\<lambda>db8.
     bind_result (fold_result (persist_recommendation env tx revisionID projectID
       (map fd_Code (gv_Findings result)) (apq_AsOf request)) (gv_Recommendations result) db8) (\<lambda>db9.
       Inr (persisted, db9))))))))))))))"

end
