(* ===== verification/Governance_Store_Props.thy ===== *)
theory Governance_Store_Props
  imports Governance_Store "HOL-Library.Sublist"
begin

text \<open>
  Audit revisions are append-only and numbered without gaps, and storing an audit again changes nothing.
\<close>

section \<open>Operations that only add rows\<close>

text \<open>The contract of every insert: it appends, and once it has succeeded it does nothing on any later
  state of the tables.\<close>

locale absorbing =
  fixes f :: "gov_db \<Rightarrow> store_error + gov_db"
  assumes grows: "f db = Inr db' \<Longrightarrow> prefix db db'"
    and absorbed: "f db = Inr db' \<Longrightarrow> prefix db' db'' \<Longrightarrow> f db'' = Inr db''"
begin

lemma again: "f db = Inr db' \<Longrightarrow> f db' = Inr db'"
  using absorbed [of db db' db'] by simp

end

lemma map_of_prefix: "prefix db db' \<Longrightarrow> map_of db k = Some v \<Longrightarrow> map_of db' k = Some v"
  by (auto simp: prefix_def map_add_Some_iff)

lemma insert_row_Inr:
  "insert_row tx op kr db = Inr db' \<longleftrightarrow> statement tx op op = Inr () \<and>
     (if map_of db (fst kr) \<noteq> None then db' = db else \<not> violates_unique (snd kr) db \<and> db' = db @ [kr])"
  by (auto simp: insert_row_def bind_result_eq_Inr)

interpretation row_insert: absorbing "insert_row tx op kr" for tx op kr
proof
  fix db db' db''
  assume run: "insert_row tx op kr db = Inr db'"
  then show "prefix db db'"
    by (auto simp: insert_row_Inr split: if_splits)
  assume ext: "prefix db' db''"
  have "\<exists>v. map_of db' (fst kr) = Some v"
    using run by (cases kr) (auto simp: insert_row_Inr map_add_Some_iff split: if_splits)
  then have "map_of db'' (fst kr) \<noteq> None"
    using map_of_prefix [OF ext] by fastforce
  then show "insert_row tx op kr db'' = Inr db''"
    using run by (auto simp: insert_row_Inr)
qed

lemma absorbing_id: "absorbing (\<lambda>db. Inr db)"
  by unfold_locales auto

lemma absorbing_guard:
  assumes "absorbing f"
  shows "absorbing (\<lambda>db. bind_result g (\<lambda>_. f db))"
  by (unfold_locales; auto simp: bind_result_eq_Inr dest: absorbing.grows [OF assms] absorbing.absorbed [OF assms])

lemma absorbing_bind:
  assumes "absorbing f" and "absorbing g"
  shows "absorbing (\<lambda>db. bind_result (f db) g)"
proof
  fix db db' db''
  assume "bind_result (f db) g = Inr db'"
  then obtain mid where mid: "f db = Inr mid" "g mid = Inr db'"
    by (auto simp: bind_result_eq_Inr)
  then show "prefix db db'"
    using absorbing.grows [OF assms(1)] absorbing.grows [OF assms(2)] prefix_order.trans by blast
  assume ext: "prefix db' db''"
  then have "prefix mid db''"
    using absorbing.grows [OF assms(2) mid(2)] prefix_order.trans by blast
  then show "bind_result (f db'') g = Inr db''"
    using absorbing.absorbed [OF assms(1) mid(1)] absorbing.absorbed [OF assms(2) mid(2) ext] by simp
qed

lemma absorbing_fold:
  assumes "\<And>x. absorbing (f x)"
  shows "absorbing (fold_result f xs)"
proof (induction xs)
  case Nil
  then show ?case
    using absorbing_id by (simp add: fun_eq_iff)
next
  case (Cons x xs)
  then show ?case
    using absorbing_bind [OF assms Cons.IH] by simp
qed

lemma absorbing_insert_rows: "absorbing (insert_rows tx op krs)"
  unfolding insert_rows_def by (intro absorbing_fold row_insert.absorbing_axioms)

lemma absorbing_revision_evidence: "absorbing (persistRevisionEvidence env tx revisionID request)"
  unfolding persistRevisionEvidence_def by (intro absorbing_guard absorbing_insert_rows)

lemma absorbing_evidence_links: "absorbing (persistEvidenceLinks env tx revisionID kind targetID refs at_time)"
  unfolding persistEvidenceLinks_def by (intro absorbing_guard absorbing_insert_rows)

lemma absorbing_metric_result: "absorbing (persistMetricResult env tx revisionID evaluationID at_time m)"
  unfolding persistMetricResult_def Let_def
  by (intro absorbing_bind row_insert.absorbing_axioms absorbing_evidence_links)

lemma absorbing_confounder: "absorbing (persist_confounder env tx revisionID at_time c)"
  unfolding persist_confounder_def by (rule row_insert.absorbing_axioms)

lemma absorbing_finding: "absorbing (persist_finding env tx revisionID at_time f)"
  unfolding persist_finding_def Let_def
  by (intro absorbing_bind row_insert.absorbing_axioms absorbing_evidence_links)

lemma absorbing_recommendation: "absorbing (persist_recommendation env tx revisionID projectID codes at_time r)"
  unfolding persist_recommendation_def Let_def by (rule row_insert.absorbing_axioms)

lemma absorbing_definition:
  assumes "tx_statement tx = (\<lambda>_ _. None)"
  shows "absorbing (persist_definition env tx d)"
proof
  let ?k = "Definition_Key (df_Name d) (df_Version d)"
  fix db db' db''
  assume run: "persist_definition env tx d db = Inr db'"
  have ok: "statement tx op rid = Inr ()" for op rid
    using assms by (simp add: statement_def)
  obtain encoded where enc: "ge_marshal_definition env d = Some encoded"
    using run by (auto simp: persist_definition_def split: option.splits)
  define digest where "digest = au_sha256 (ge_audit env) encoded"
  have cases: "(\<exists>i. map_of db ?k = Some (Definition_Row i digest) \<and> db' = db) \<or>
      (\<exists>i. map_of db ?k = None \<and> db' = db @ [(?k, Definition_Row i digest)])"
    using run enc
    by (cases "map_of db ?k")
      (auto simp: persist_definition_def Let_def insert_row_def ok violates_unique_def digest_def
        split: if_splits gov_row.splits)
  then show "prefix db db'"
    by auto
  assume ext: "prefix db' db''"
  obtain i where "map_of db' ?k = Some (Definition_Row i digest)"
    using cases by (auto simp: map_add_Some_iff)
  then have "map_of db'' ?k = Some (Definition_Row i digest)"
    by (rule map_of_prefix [OF ext])
  then show "persist_definition env tx d db'' = Inr db''"
    using enc by (simp add: persist_definition_def Let_def insert_row_def ok digest_def)
qed

lemma absorbing_definitions:
  "tx_statement tx = (\<lambda>_ _. None) \<Longrightarrow> absorbing (persistMetricDefinitions env tx)"
  unfolding persistMetricDefinitions_def by (intro absorbing_fold absorbing_definition)

section \<open>What an operation adds\<close>

definition adds :: "(gov_key \<times> gov_row \<Rightarrow> bool) \<Rightarrow> (gov_db \<Rightarrow> store_error + gov_db) \<Rightarrow> bool" where
  "adds P f \<longleftrightarrow> (\<forall>db db'. f db = Inr db' \<longrightarrow> (\<exists>rows. db' = db @ rows \<and> list_all P rows))"

lemma addsD: "adds P f \<Longrightarrow> f db = Inr db' \<Longrightarrow> \<exists>rows. db' = db @ rows \<and> list_all P rows"
  by (simp add: adds_def)

lemma adds_insert_row: "P kr \<Longrightarrow> adds P (insert_row tx op kr)"
  by (auto simp: adds_def insert_row_Inr split: if_splits)

lemma adds_guard: "adds P f \<Longrightarrow> adds P (\<lambda>db. bind_result g (\<lambda>_. f db))"
  by (auto simp: adds_def bind_result_eq_Inr)

lemma adds_bind:
  assumes "adds P f" and "adds P g"
  shows "adds P (\<lambda>db. bind_result (f db) g)"
  unfolding adds_def
proof (intro allI impI)
  fix db db'
  assume "bind_result (f db) g = Inr db'"
  then obtain mid where "f db = Inr mid" "g mid = Inr db'"
    by (auto simp: bind_result_eq_Inr)
  then obtain new more where "mid = db @ new" "list_all P new" "db' = mid @ more" "list_all P more"
    using assms addsD by blast
  then show "\<exists>rows. db' = db @ rows \<and> list_all P rows"
    by (intro exI [of _ "new @ more"]) simp
qed

lemma adds_fold: "(\<And>x. x \<in> set xs \<Longrightarrow> adds P (f x)) \<Longrightarrow> adds P (fold_result f xs)"
proof (induction xs)
  case Nil
  then show ?case
    by (simp add: adds_def)
next
  case (Cons x xs)
  then show ?case
    using adds_bind [of P "f x" "fold_result f xs"] by simp
qed

text \<open>Rows that are neither a revision nor the evidence of one.\<close>

fun plain_row :: "gov_key \<times> gov_row \<Rightarrow> bool" where
  "plain_row (Revision_Key i, row) = False"
| "plain_row (k, Revision_Row r) = False"
| "plain_row (k, row) = True"

fun side_row :: "gov_key \<times> gov_row \<Rightarrow> bool" where
  "side_row (k, Link_Row artifact kind target observed) = (plain_row (k, Link_Row artifact kind target observed) \<and> kind \<noteq> ''audit_revision'')"
| "side_row (k, row) = plain_row (k, row)"

lemma side_row_plain: "side_row kr \<Longrightarrow> plain_row kr"
  by (cases kr rule: side_row.cases) simp_all

lemma adds_mono: "adds P f \<Longrightarrow> (\<And>kr. P kr \<Longrightarrow> Q kr) \<Longrightarrow> adds Q f"
  unfolding adds_def by (metis (mono_tags, lifting) list_all_iff)

lemma persist_definition_inserts:
  assumes "persist_definition env tx d db = Inr db'"
  shows "\<exists>i digest. insert_row tx ''persist metric definition''
    (Definition_Key (df_Name d) (df_Version d), Definition_Row i digest) db = Inr db'"
proof -
  obtain encoded where enc: "ge_marshal_definition env d = Some encoded"
    using assms by (auto simp: persist_definition_def split: option.splits)
  let ?kr = "(Definition_Key (df_Name d) (df_Version d),
    Definition_Row (batch_uuid env (''metric-definition:'' @ df_Name d @ '':'' @ df_Version d)) (au_sha256 (ge_audit env) encoded))"
  obtain mid where mid: "insert_row tx ''persist metric definition'' ?kr db = Inr mid"
    using assms enc by (auto simp: persist_definition_def Let_def bind_result_eq_Inr)
  have "mid = db'"
    using assms mid by (simp add: persist_definition_def enc Let_def bind_result_eq_Inr split: if_splits option.splits gov_row.splits)
  then show ?thesis
    using mid by blast
qed

lemma adds_definitions: "adds side_row (persistMetricDefinitions env tx)"
proof -
  have "adds side_row (persist_definition env tx d)" for d
    unfolding adds_def using persist_definition_inserts addsD [OF adds_insert_row] by (metis plain_row.simps side_row.simps)
  then show ?thesis
    unfolding persistMetricDefinitions_def by (intro adds_fold)
qed

lemma adds_revision_evidence: "adds plain_row (persistRevisionEvidence env tx revisionID request)"
  unfolding persistRevisionEvidence_def insert_rows_def
  by (intro adds_guard adds_fold adds_insert_row) (auto simp: revision_link_def)

lemma adds_evidence_links:
  "kind \<noteq> ''audit_revision'' \<Longrightarrow> adds side_row (persistEvidenceLinks env tx revisionID kind targetID refs at_time)"
  unfolding persistEvidenceLinks_def insert_rows_def
  by (intro adds_guard adds_fold adds_insert_row) auto

lemma adds_metric_result: "adds side_row (persistMetricResult env tx revisionID evaluationID at_time m)"
  unfolding persistMetricResult_def Let_def
  by (intro adds_bind adds_insert_row adds_evidence_links) auto

lemma adds_confounder: "adds side_row (persist_confounder env tx revisionID at_time c)"
  unfolding persist_confounder_def by (intro adds_insert_row) simp

lemma adds_finding: "adds side_row (persist_finding env tx revisionID at_time f)"
  unfolding persist_finding_def Let_def
  by (intro adds_bind adds_insert_row adds_evidence_links) auto

lemma adds_recommendation: "adds side_row (persist_recommendation env tx revisionID projectID codes at_time r)"
  unfolding persist_recommendation_def Let_def by (intro adds_insert_row) simp

section \<open>The revisions of a window\<close>

text \<open>Revisions in insertion order: numbered upwards from a start, each naming its predecessor.\<close>

fun chained :: "string option \<Rightarrow> int \<Rightarrow> (string \<times> revision_row) list \<Rightarrow> bool" where
  "chained p n [] = True"
| "chained p n ((i, r) # rs) = (rv_number r = n \<and> rv_prior r = p \<and> chained (Some i) (n + 1) rs)"

lemma chained_append:
  "chained p n (rs @ [(i, r)]) \<longleftrightarrow>
     chained p n rs \<and> rv_number r = n + int (length rs) \<and> rv_prior r = (if rs = [] then p else Some (fst (List.last rs)))"
  by (induction p n rs rule: chained.induct) auto

lemma chained_latest:
  "chained p n rs \<Longrightarrow> rs \<noteq> [] \<Longrightarrow>
     latest_revision rs = Some (List.last rs) \<and> rv_number (snd (List.last rs)) = n + int (length rs) - 1"
proof (induction p n rs rule: chained.induct)
  case (2 p n i r rs)
  then show ?case
    by (cases "rs = []") auto
qed simp

text \<open>A key of a revision holds a revision, and the revisions of every window are chained from one.\<close>

fun revision_kept :: "gov_key \<times> gov_row \<Rightarrow> bool" where
  "revision_kept (Revision_Key i, Revision_Row r) = True"
| "revision_kept kr = plain_row kr"

definition history_ok :: "gov_db \<Rightarrow> bool" where
  "history_ok db \<longleftrightarrow> list_all revision_kept db \<and> (\<forall>w. chained None 1 (revision_rows w db))"

lemma revision_kept_plain: "plain_row kr \<Longrightarrow> revision_kept kr"
  by (cases kr rule: plain_row.cases) auto

lemma revision_rows_append [simp]: "revision_rows w (db @ rows) = revision_rows w db @ revision_rows w rows"
  by (simp add: revision_rows_def List.map_filter_def)

lemma revision_rows_plain: "list_all plain_row rows \<Longrightarrow> revision_rows w rows = []"
proof (induction rows)
  case (Cons kr rows)
  then show ?case
    by (cases kr rule: plain_row.cases) (auto simp: revision_rows_def List.map_filter_def split: gov_key.splits gov_row.splits)
qed (simp add: revision_rows_def)

lemma history_ok_plain: "history_ok db \<Longrightarrow> list_all plain_row rows \<Longrightarrow> history_ok (db @ rows)"
  by (auto simp: history_ok_def revision_rows_plain revision_kept_plain list_all_iff)

lemma history_ok_adds: "history_ok db \<Longrightarrow> adds plain_row f \<Longrightarrow> f db = Inr db' \<Longrightarrow> history_ok db'"
  using addsD history_ok_plain by blast

lemma history_key_row:
  assumes "list_all revision_kept db" and "map_of db (Revision_Key i) = Some row"
  obtains r where "row = Revision_Row r"
proof -
  have "revision_kept (Revision_Key i, row)"
    using assms map_of_SomeD by (fastforce simp: list_all_iff)
  then show ?thesis
    using that by (cases row) auto
qed

text \<open>The revision row a transaction inserts extends the chain of its window, or is already there.\<close>

lemma revision_insert:
  assumes ok: "history_ok db" and ident: "revision_identity i w db = (n, p)"
    and row: "rv_window r = w" "rv_number r = n" "rv_prior r = p"
    and run: "insert_row tx op (Revision_Key i, Revision_Row r) db = Inr db'"
  shows "history_ok db' \<and> (\<exists>q. map_of db' (Revision_Key i) = Some (Revision_Row q) \<and> rv_number q = n \<and> rv_prior q = p)"
proof (cases "map_of db (Revision_Key i)")
  case None
  have chain: "chained None 1 (revision_rows v db)" for v
    using ok by (simp add: history_ok_def)
  have ident': "(n, p) = (case latest_revision (revision_rows w db) of
      None \<Rightarrow> (1, None) | Some (i, r) \<Rightarrow> (rv_number r + 1, Some i))"
    using ident None by (simp add: revision_identity_def)
  have new: "n = 1 + int (length (revision_rows w db)) \<and>
      p = (if revision_rows w db = [] then None else Some (fst (List.last (revision_rows w db))))"
  proof (cases "revision_rows w db = []")
    case True
    then show ?thesis
      using ident' by simp
  next
    case False
    then show ?thesis
      using ident' chained_latest [OF chain False] by (auto simp: case_prod_beta)
  qed
  have db': "db' = db @ [(Revision_Key i, Revision_Row r)]"
    using run None by (simp add: insert_row_Inr)
  have one: "revision_rows v [(Revision_Key i, Revision_Row r)] = (if v = w then [(i, r)] else [])" for v
    using row by (auto simp: revision_rows_def List.map_filter_def)
  have "chained None 1 (revision_rows v db')" for v
    using chain [of v] new row by (auto simp: db' one chained_append)
  then show ?thesis
    using ok None row by (auto simp: history_ok_def db' map_add_Some_iff)
next
  case (Some row)
  then obtain q where q: "row = Revision_Row q"
    using ok history_key_row unfolding history_ok_def by blast
  then show ?thesis
    using ok run ident Some by (auto simp: insert_row_Inr revision_identity_def)
qed

section \<open>A transaction in stages\<close>

text \<open>What follows the evidence of the revision adds side rows only.\<close>

definition persist_results ::
  "gov_env \<Rightarrow> tx_env \<Rightarrow> string \<Rightarrow> string \<Rightarrow> string option \<Rightarrow> audit_project_request \<Rightarrow> governance_result \<Rightarrow> gov_db \<Rightarrow>
   store_error + gov_db" where
  "persist_results env tx revisionID evaluationID projectID request result db =
     bind_result (fold_result (persistMetricResult env tx revisionID evaluationID (apq_AsOf request))
       (gv_Metrics result) db) (\<lambda>db6.
     bind_result (fold_result (persist_confounder env tx revisionID (apq_AsOf request))
       (gv_Confounders result) db6) (\<lambda>db7.
     bind_result (fold_result (persist_finding env tx revisionID (apq_AsOf request))
       (gv_Findings result) db7) (
     fold_result (persist_recommendation env tx revisionID projectID
       (map fd_Code (gv_Findings result)) (apq_AsOf request)) (gv_Recommendations result))))"

lemma absorbing_results: "absorbing (persist_results env tx revisionID evaluationID projectID request result)"
  unfolding persist_results_def
  by (intro absorbing_bind absorbing_fold absorbing_metric_result absorbing_confounder absorbing_finding
      absorbing_recommendation)

lemma adds_results: "adds side_row (persist_results env tx revisionID evaluationID projectID request result)"
  unfolding persist_results_def
  by (intro adds_bind adds_fold adds_metric_result adds_confounder adds_finding adds_recommendation)

definition persist_evaluation ::
  "gov_env \<Rightarrow> tx_env \<Rightarrow> string \<Rightarrow> audit_project_request \<Rightarrow> governance_result \<Rightarrow> gov_db \<Rightarrow> store_error + gov_db" where
  "persist_evaluation env tx revisionID request result db =
     bind_result (persistEvaluationRun env tx revisionID request result db) (\<lambda>(i, db'). Inr db')"

lemma persist_evaluation_eq:
  "persist_evaluation env tx revisionID request result db =
     (case evaluation_run env request result of
        Inl e \<Rightarrow> Inl (StoreError e)
      | Inr run \<Rightarrow> insert_row tx ''persist project audit evaluation''
          (Evaluation_Key (batch_uuid env (revisionID @ '':evaluation'')), Evaluation_Row revisionID run (apq_AsOf request)) db)"
  by (auto simp: persist_evaluation_def persistEvaluationRun_def Let_def split: sum.splits)
    (auto simp: bind_result_def split: sum.splits)

lemma absorbing_evaluation: "absorbing (persist_evaluation env tx revisionID request result)"
proof (cases "evaluation_run env request result")
  case (Inl e)
  then show ?thesis
    by unfold_locales (simp_all add: persist_evaluation_eq)
next
  case (Inr run)
  then show ?thesis
    using row_insert.absorbing_axioms by (simp add: persist_evaluation_eq [abs_def])
qed

lemma adds_evaluation: "adds side_row (persist_evaluation env tx revisionID request result)"
proof (cases "evaluation_run env request result")
  case (Inl e)
  then show ?thesis
    by (simp add: adds_def persist_evaluation_eq)
next
  case (Inr run)
  then show ?thesis
    by (simp add: persist_evaluation_eq [abs_def] adds_insert_row)
qed

definition audit_revision_id :: "gov_env \<Rightarrow> governance_result \<Rightarrow> string" where
  "audit_revision_id env result = batch_uuid env (''audit-revision:'' @ gv_RevisionHash result)"

definition numbered_result :: "governance_result \<Rightarrow> int \<Rightarrow> bool \<Rightarrow> governance_result" where
  "numbered_result result n late =
     result\<lparr> gv_Window := (gv_Window result)\<lparr> aw_Revision := n, aw_LateEvidence := late \<rparr> \<rparr>"

definition window_insert ::
  "gov_env \<Rightarrow> tx_env \<Rightarrow> string option \<Rightarrow> audit_project_request \<Rightarrow> gov_db \<Rightarrow> store_error + gov_db" where
  "window_insert env tx projectID request =
     insert_row tx ''persist project audit window''
       (Window_Key (batch_uuid env (auditWindowKey env request)),
        Window_Row \<lparr> wr_project = projectID, wr_kind = apq_Scope request,
          wr_starts = apq_StartsAt request, wr_ends = apq_EndsAt request, wr_as_of = apq_AsOf request,
          wr_policy = ge_policy env projectID (apq_AsOf request) \<rparr>)"

definition revision_insert_row ::
  "gov_env \<Rightarrow> tx_env \<Rightarrow> audit_project_request \<Rightarrow> governance_result \<Rightarrow> string \<Rightarrow> int \<times> string option \<Rightarrow> gov_db \<Rightarrow>
   store_error + gov_db" where
  "revision_insert_row env tx request result hash np =
     insert_row tx ''persist project audit revision''
       (Revision_Key (audit_revision_id env result),
        Revision_Row \<lparr> rv_window = batch_uuid env (auditWindowKey env request), rv_number = fst np,
          rv_as_of = apq_AsOf request, rv_coverage = gv_Coverage result, rv_hash = hash,
          rv_prior = snd np, rv_engine = EngineVersion \<rparr>)"

lemma bind_evaluation:
  "bind_result (persistEvaluationRun env tx revisionID request result db) (\<lambda>(i, db'). k i db') =
     bind_result (persist_evaluation env tx revisionID request result db) (k (batch_uuid env (revisionID @ '':evaluation'')))"
  by (auto simp: persist_evaluation_def persistEvaluationRun_def Let_def bind_result_def split: sum.splits)

lemma bind_result_assoc: "bind_result (bind_result m f) g = bind_result m (\<lambda>x. bind_result (f x) g)"
  by (simp add: bind_result_def split: sum.splits)

lemma persistAuditProject_stages:
  "persistAuditProject env tx request result db =
     bind_result (decodeAuditRevisionHash (gv_RevisionHash result)) (\<lambda>hash.
     bind_result (projectIDForAudit env tx request) (\<lambda>projectID.
     bind_result (window_insert env tx projectID request db) (\<lambda>db1.
     bind_result (statement tx ''read project audit revision'' ''read project audit revision'') (\<lambda>_.
     let np = revision_identity (audit_revision_id env result) (batch_uuid env (auditWindowKey env request)) db1 in
     bind_result (revision_insert_row env tx request result hash np db1) (\<lambda>db2.
     bind_result (persistMetricDefinitions env tx db2) (\<lambda>db3.
     bind_result (persistRevisionEvidence env tx (audit_revision_id env result) request db3) (\<lambda>db4.
     bind_result (if snd np = None then Inr ()
       else statement tx ''compare audit revision evidence'' ''compare audit revision evidence'') (\<lambda>_.
     let persisted = numbered_result result (fst np)
           (hasNewRevisionEvidence (audit_revision_id env result) (snd np) db4) in
     bind_result (persist_evaluation env tx (audit_revision_id env result) request persisted db4) (\<lambda>db5.
     bind_result (persist_results env tx (audit_revision_id env result)
       (batch_uuid env (audit_revision_id env result @ '':evaluation'')) projectID request result db5) (\<lambda>db'.
     Inr (persisted, db')))))))))))"
  unfolding persistAuditProject_def Let_def case_prod_beta [of "\<lambda>n p. F n p" for F] bind_evaluation
    window_insert_def revision_insert_row_def audit_revision_id_def persist_results_def numbered_result_def
    bind_result_assoc
  by (simp only: fst_conv snd_conv split_beta prod.collapse)

lemma persistAuditProject_run:
  assumes "persistAuditProject env tx request result db = Inr (persisted, db')"
  obtains hash projectID np db1 db2 db3 db4 db5 where
    "decodeAuditRevisionHash (gv_RevisionHash result) = Inr hash"
    "projectIDForAudit env tx request = Inr projectID"
    "window_insert env tx projectID request db = Inr db1"
    "revision_identity (audit_revision_id env result) (batch_uuid env (auditWindowKey env request)) db1 = np"
    "revision_insert_row env tx request result hash np db1 = Inr db2"
    "persistMetricDefinitions env tx db2 = Inr db3"
    "persistRevisionEvidence env tx (audit_revision_id env result) request db3 = Inr db4"
    "persisted = numbered_result result (fst np) (hasNewRevisionEvidence (audit_revision_id env result) (snd np) db4)"
    "persist_evaluation env tx (audit_revision_id env result) request persisted db4 = Inr db5"
    "persist_results env tx (audit_revision_id env result)
       (batch_uuid env (audit_revision_id env result @ '':evaluation'')) projectID request result db5 = Inr db'"
  using assms unfolding persistAuditProject_stages Let_def bind_result_eq_Inr
  by (elim exE conjE) (rule that; simp; blast)

section \<open>Storing an audit\<close>

lemma adds_plain: "adds side_row f \<Longrightarrow> adds plain_row f"
  by (erule adds_mono) (rule side_row_plain)

lemmas later_rows =
  adds_plain [OF adds_definitions] adds_revision_evidence adds_plain [OF adds_evaluation] adds_plain [OF adds_results]

lemma adds_window: "adds plain_row (window_insert env tx projectID request)"
  unfolding window_insert_def by (intro adds_insert_row) simp

lemma revision_stage:
  assumes "history_ok db"
    and "revision_identity (audit_revision_id env result) (batch_uuid env (auditWindowKey env request)) db = np"
    and "revision_insert_row env tx request result hash np db = Inr db'"
  shows "history_ok db' \<and> (\<exists>q. map_of db' (Revision_Key (audit_revision_id env result)) = Some (Revision_Row q) \<and>
    rv_number q = fst np \<and> rv_prior q = snd np)"
  by (rule revision_insert [OF assms(1) _ _ _ _ assms(3) [unfolded revision_insert_row_def]]) (simp_all add: assms(2))

text \<open>The rows a transaction adds after the revision row keep the history, and so does the whole.\<close>

lemma persist_history:
  assumes ok: "history_ok db" and run: "persistAuditProject env tx request result db = Inr (persisted, db')"
  shows "history_ok db'" and "prefix db db'"
    and "\<exists>r. map_of db' (Revision_Key (audit_revision_id env result)) = Some (Revision_Row r) \<and>
           rv_number r = aw_Revision (gv_Window persisted)"
proof -
  obtain hash projectID np db1 db2 db3 db4 db5 where
    w: "window_insert env tx projectID request db = Inr db1"
    and np: "revision_identity (audit_revision_id env result) (batch_uuid env (auditWindowKey env request)) db1 = np"
    and r: "revision_insert_row env tx request result hash np db1 = Inr db2"
    and d: "persistMetricDefinitions env tx db2 = Inr db3"
    and e: "persistRevisionEvidence env tx (audit_revision_id env result) request db3 = Inr db4"
    and p: "persisted = numbered_result result (fst np) (hasNewRevisionEvidence (audit_revision_id env result) (snd np) db4)"
    and v: "persist_evaluation env tx (audit_revision_id env result) request persisted db4 = Inr db5"
    and s: "persist_results env tx (audit_revision_id env result)
       (batch_uuid env (audit_revision_id env result @ '':evaluation'')) projectID request result db5 = Inr db'"
    using run by (rule persistAuditProject_run) 
  have ok1: "history_ok db1"
    using history_ok_adds [OF ok adds_window w] .
  have ok2: "history_ok db2"
    and row: "\<exists>q. map_of db2 (Revision_Key (audit_revision_id env result)) = Some (Revision_Row q) \<and> rv_number q = fst np"
    using revision_stage [OF ok1 np r] by auto
  have later: "\<exists>rows. db' = db2 @ rows \<and> list_all plain_row rows"
    using addsD [OF later_rows(1) d] addsD [OF later_rows(2) e] addsD [OF later_rows(3) v] addsD [OF later_rows(4) s]
    by auto
  then show "history_ok db'"
    using ok2 history_ok_plain by blast
  have "prefix db db1" "prefix db1 db2"
    using row_insert.grows w r unfolding window_insert_def revision_insert_row_def by blast+
  moreover have "prefix db2 db'"
    using later by auto
  ultimately show "prefix db db'"
    using prefix_order.trans by blast
  show "\<exists>r. map_of db' (Revision_Key (audit_revision_id env result)) = Some (Revision_Row r) \<and>
           rv_number r = aw_Revision (gv_Window persisted)"
    using row later by (auto simp: p numbered_result_def map_add_Some_iff)
qed

text \<open>The tables after a sequence of attempts, each with its own surroundings; a failed one is rolled back.\<close>

type_synonym audit_attempt = "gov_env \<times> tx_env \<times> audit_project_request \<times> governance_result"

definition audit_attempt_db :: "audit_attempt \<Rightarrow> gov_db \<Rightarrow> gov_db" where
  "audit_attempt_db a db =
     (case a of (env, tx, request, result) \<Rightarrow>
        (case persistAuditProject env tx request result db of Inl e \<Rightarrow> db | Inr (persisted, db') \<Rightarrow> db'))"

definition audit_history :: "audit_attempt list \<Rightarrow> gov_db" where
  "audit_history attempts = fold audit_attempt_db attempts []"

lemma audit_attempt_keeps: "history_ok db \<Longrightarrow> history_ok (audit_attempt_db a db) \<and> prefix db (audit_attempt_db a db)"
  using persist_history by (fastforce simp: audit_attempt_db_def split: sum.splits prod.splits)

lemma audit_attempts_keep: "history_ok db \<Longrightarrow> history_ok (fold audit_attempt_db as db) \<and> prefix db (fold audit_attempt_db as db)"
proof (induction as arbitrary: db)
  case (Cons a as)
  then show ?case
    using audit_attempt_keeps [of db a] Cons.IH [of "audit_attempt_db a db"] prefix_order.trans by fastforce
qed simp

lemma audit_history_ok: "history_ok (audit_history attempts)"
  using audit_attempts_keep [of "[]"] by (simp add: audit_history_def history_ok_def revision_rows_def List.map_filter_def)

text \<open>C31: After any sequence of attempts to store audits, failed ones included, the revisions of every
  window are numbered one, two, three in the order they were stored and each names the one before it
  (the first names none); later attempts only append rows; and the revision number reported for a stored
  audit is the number of the row its hash identifies.\<close>

theorem audit_revisions_numbered:
  "chained None 1 (revision_rows w (audit_history attempts)) \<and>
   prefix (audit_history attempts) (audit_history (attempts @ further)) \<and>
   (case persistAuditProject env tx request result (audit_history attempts) of
      Inl e \<Rightarrow> True
    | Inr (persisted, db) \<Rightarrow>
        (case map_of db (Revision_Key (batch_uuid env (''audit-revision:'' @ gv_RevisionHash result))) of
           Some (Revision_Row r) \<Rightarrow> rv_number r = aw_Revision (gv_Window persisted)
         | _ \<Rightarrow> False))"
proof (intro conjI)
  show "chained None 1 (revision_rows w (audit_history attempts))"
    using audit_history_ok by (simp add: history_ok_def)
  show "prefix (audit_history attempts) (audit_history (attempts @ further))"
    using audit_attempts_keep [OF audit_history_ok] by (simp add: audit_history_def)
  show "case persistAuditProject env tx request result (audit_history attempts) of
      Inl e \<Rightarrow> True
    | Inr (persisted, db) \<Rightarrow>
        (case map_of db (Revision_Key (batch_uuid env (''audit-revision:'' @ gv_RevisionHash result))) of
           Some (Revision_Row r) \<Rightarrow> rv_number r = aw_Revision (gv_Window persisted)
         | _ \<Rightarrow> False)"
    using persist_history(3) [OF audit_history_ok]
    by (fastforce simp: audit_revision_id_def split: sum.splits prod.splits)
qed

section \<open>Storing an audit again\<close>

lemma revision_artifacts_side: "list_all side_row rows \<Longrightarrow> revision_artifacts i (db @ rows) = revision_artifacts i db"
proof -
  assume "list_all side_row rows"
  then have "revision_artifacts i rows = []"
  proof (induction rows)
    case (Cons kr rows)
    then show ?case
      by (cases kr rule: side_row.cases) (auto simp: revision_artifacts_def List.map_filter_def)
  qed (simp add: revision_artifacts_def List.map_filter_def)
  then show ?thesis
    by (simp add: revision_artifacts_def List.map_filter_def)
qed

lemma new_evidence_side:
  "list_all side_row rows \<Longrightarrow> hasNewRevisionEvidence i p (db @ rows) = hasNewRevisionEvidence i p db"
  by (simp add: hasNewRevisionEvidence_def revision_artifacts_side split: option.splits)

lemma persist_again:
  assumes up: "tx_statement tx = (\<lambda>_ _. None)" and ok: "history_ok db"
    and run: "persistAuditProject env tx request result db = Inr (persisted, db')"
  shows "persistAuditProject env tx request result db' = Inr (persisted, db')"
proof -
  obtain hash projectID np db1 db2 db3 db4 db5 where
    h: "decodeAuditRevisionHash (gv_RevisionHash result) = Inr hash"
    and j: "projectIDForAudit env tx request = Inr projectID"
    and w: "window_insert env tx projectID request db = Inr db1"
    and np: "revision_identity (audit_revision_id env result) (batch_uuid env (auditWindowKey env request)) db1 = np"
    and r: "revision_insert_row env tx request result hash np db1 = Inr db2"
    and d: "persistMetricDefinitions env tx db2 = Inr db3"
    and e: "persistRevisionEvidence env tx (audit_revision_id env result) request db3 = Inr db4"
    and p: "persisted = numbered_result result (fst np) (hasNewRevisionEvidence (audit_revision_id env result) (snd np) db4)"
    and v: "persist_evaluation env tx (audit_revision_id env result) request persisted db4 = Inr db5"
    and s: "persist_results env tx (audit_revision_id env result)
       (batch_uuid env (audit_revision_id env result @ '':evaluation'')) projectID request result db5 = Inr db'"
    using run by (rule persistAuditProject_run)
  have row: "\<exists>q. map_of db2 (Revision_Key (audit_revision_id env result)) = Some (Revision_Row q) \<and>
      rv_number q = fst np \<and> rv_prior q = snd np"
    using revision_stage [OF history_ok_adds [OF ok adds_window w] np r] by auto
  obtain late where late: "db' = db4 @ late" "list_all side_row late"
    using addsD [OF adds_evaluation v] addsD [OF adds_results s] by auto
  have steps: "prefix db1 db2" "prefix db2 db3" "prefix db3 db4" "prefix db4 db5" "prefix db5 db'"
    using row_insert.grows r absorbing.grows [OF absorbing_definitions [OF up] d]
      absorbing.grows [OF absorbing_revision_evidence e] absorbing.grows [OF absorbing_evaluation v]
      absorbing.grows [OF absorbing_results s]
    unfolding revision_insert_row_def by blast+
  have upto: "prefix db4 db'" "prefix db3 db'" "prefix db2 db'" "prefix db1 db'"
    using steps by (meson prefix_order.trans)+
  have w': "window_insert env tx projectID request db' = Inr db'"
    using row_insert.absorbed w upto unfolding window_insert_def by blast
  have np': "revision_identity (audit_revision_id env result) (batch_uuid env (auditWindowKey env request)) db' = np"
    using row map_of_prefix [OF upto(3)] by (fastforce simp: revision_identity_def)
  have r': "revision_insert_row env tx request result hash np db' = Inr db'"
    using row_insert.absorbed r upto unfolding revision_insert_row_def by blast
  have d': "persistMetricDefinitions env tx db' = Inr db'"
    using absorbing.absorbed [OF absorbing_definitions [OF up] d] upto by blast
  have e': "persistRevisionEvidence env tx (audit_revision_id env result) request db' = Inr db'"
    using absorbing.absorbed [OF absorbing_revision_evidence e] upto by blast
  have v': "persist_evaluation env tx (audit_revision_id env result) request persisted db' = Inr db'"
    using absorbing.absorbed [OF absorbing_evaluation v] steps by blast
  have s': "persist_results env tx (audit_revision_id env result)
       (batch_uuid env (audit_revision_id env result @ '':evaluation'')) projectID request result db' = Inr db'"
    using absorbing.again [OF absorbing_results s] .
  have p': "numbered_result result (fst np) (hasNewRevisionEvidence (audit_revision_id env result) (snd np) db') = persisted"
    by (simp add: p late new_evidence_side)
  have free: "statement tx op rid = Inr ()" for op rid
    using up by (simp add: statement_def)
  show ?thesis
    by (simp add: persistAuditProject_stages Let_def h j w' np' r' d' e' v' s' p' free)
qed

text \<open>An audit that has been stored, after any sequence of earlier attempts, can be stored again
  with no effect: as long as the database accepts the statements, the second call leaves every table as
  it was and returns the same revision number and the same late-evidence flag as the first.\<close>

theorem store_audit_again:
  "let tx = tx0\<lparr> tx_statement := (\<lambda>_ _. None) \<rparr> in
   case persistAuditProject env tx request result (audit_history attempts) of
     Inl e \<Rightarrow> True
   | Inr (persisted, db) \<Rightarrow> persistAuditProject env tx request result db = Inr (persisted, db)"
  using persist_again [OF _ audit_history_ok, of "tx0\<lparr> tx_statement := (\<lambda>_ _. None) \<rparr>"]
  by (simp add: Let_def split: sum.splits prod.splits)

end
