(* ===== verification/Governance_Props.thy ===== *)
theory Governance_Props
  imports Governance_Source
begin

text \<open>
  What the snapshot source guarantees together with the audit engine: the privacy of small cohorts and
  the windows a comparison rests on.
\<close>

section \<open>Results of a computation carry their input's evidence\<close>

definition carries :: "metric_input \<Rightarrow> metric_result \<Rightarrow> bool" where
  "carries i r \<longleftrightarrow> mr_EvidenceRefs r = mi_EvidenceRefs i \<and> mr_Coverage r = mi_Coverage i \<and>
     (mi_Coverage i \<noteq> CoverageStateComplete \<longrightarrow> mr_NativeValue r = None)"

lemma ratio_carries: "ratio name n den i = Some r \<Longrightarrow> carries i r"
  by (auto simp: ratio_def ratio_of_def carries_def Let_def empty_metric_def split: if_splits)

lemma perHundred_carries: "perHundred name n den i = Some r \<Longrightarrow> carries i r"
  using ratio_carries by (fastforce simp: perHundred_def carries_def)

lemma those_list_all: "those xs = Some ys \<Longrightarrow> (\<And>x y. x \<in> set xs \<Longrightarrow> x = Some y \<Longrightarrow> P y) \<Longrightarrow> list_all P ys"
proof (induction xs arbitrary: ys)
  case (Cons x xs)
  then show ?case
    by (cases x) auto
qed simp

lemma Compute_carries:
  assumes "Compute i = Some (Inr rs)"
  shows "list_all (carries i) rs"
proof -
  obtain ys where ys: "those (metric_list i) = Some ys" "rs = sort_slice metric_name_before ys"
    using assms by (auto simp: Compute_def split: if_splits)
  have "list_all (carries i) ys"
    by (rule those_list_all [OF ys(1)])
      (unfold metric_list_def list.set, elim insertE emptyE; simp; (erule ratio_carries | erule perHundred_carries))
  then show ?thesis
    by (simp add: ys(2) list_all_iff)
qed

lemma baseline_Apply_keeps:
  "baseline_Apply m d c = Some r \<Longrightarrow>
     mr_EvidenceRefs r = mr_EvidenceRefs m \<and> mr_Coverage r = mr_Coverage m \<and> mr_NativeValue r = mr_NativeValue m"
  by (auto simp: baseline_Apply_def Let_def verdict_def with_baseline_def
      split: option.splits if_splits sum.splits prod.splits)

lemma apply_comparison_carries: "apply_comparison cs m = Some r \<Longrightarrow> carries i m \<Longrightarrow> carries i r"
  by (auto simp: apply_comparison_def carries_def split: option.splits dest!: baseline_Apply_keeps)

lemma applyComparisons_carries:
  assumes "list_all (carries i) rs" and "applyComparisons rs cs = Some calculated"
  shows "list_all (carries i) calculated"
  by (rule those_list_all [OF assms(2) [unfolded applyComparisons_def]])
    (use assms(1) apply_comparison_carries in \<open>auto simp: list_all_iff\<close>)

section \<open>Small cohorts\<close>

lemma normalizeSnapshot_keeps [simp]:
  "sp_Metrics (normalizeSnapshot s) = sp_Metrics s"
  "sp_Coverage (normalizeSnapshot s) = sp_Coverage s"
  "sp_GovernanceOverhead (normalizeSnapshot s) = sp_GovernanceOverhead s"
  "sp_PassivePollingRefs (normalizeSnapshot s) = sp_PassivePollingRefs s"
  "sp_RepeatedCallRefs (normalizeSnapshot s) = sp_RepeatedCallRefs s"
  "sp_NecessaryWorkRefs (normalizeSnapshot s) = sp_NecessaryWorkRefs s"
  "sp_Guardrails (normalizeSnapshot s) = sp_Guardrails s"
  "sp_Contributions (normalizeSnapshot s) = sp_Contributions s"
  "sp_ConfounderStrata (normalizeSnapshot s) = sp_ConfounderStrata s"
  "sp_WorkloadEffects (normalizeSnapshot s) = sp_WorkloadEffects s"
  "sp_InvocationCounts (normalizeSnapshot s) = sp_InvocationCounts s"
  "sp_Comparisons (normalizeSnapshot s) = sp_Comparisons s"
  "sp_Reference (normalizeSnapshot s) = sp_Reference s"
  "sp_StartsAt (normalizeSnapshot s) = sp_StartsAt s"
  "sp_EndsAt (normalizeSnapshot s) = sp_EndsAt s"
  by (simp_all add: normalizeSnapshot_def Let_def)

text \<open>What a suppressed snapshot holds.\<close>

definition small_cohort :: "audit_env \<Rightarrow> audit_project_request \<Rightarrow> snapshot \<Rightarrow> bool" where
  "small_cohort env request s \<longleftrightarrow>
     sp_Reference s = opaqueAuditAlias (au_sha256 env) (apq_Reference request) \<and>
     mi_EvidenceRefs (sp_Metrics s) = [] \<and> sp_Coverage s = CoverageStatePartial \<and>
     mi_Coverage (sp_Metrics s) = CoverageStatePartial \<and>
     mi_EvidenceRefs (sp_GovernanceOverhead s) = [] \<and>
     sp_PassivePollingRefs s = [] \<and> sp_RepeatedCallRefs s = [] \<and> sp_NecessaryWorkRefs s = [] \<and>
     sp_Guardrails s = currentGuardrails (sp_Metrics s) \<and> sp_Contributions s = [] \<and>
     sp_ConfounderStrata s = [] \<and> sp_WorkloadEffects s = [] \<and> sp_InvocationCounts s = zero_invocations \<and>
     sp_ReportScopeCounts s = zero_scope_counts"

lemma boundedSlice_eq: "boundedSlice vs n k = (take n vs, k + int (length vs - n))"
  by (simp add: boundedSlice_def)

lemma source_Snapshot_shape:
  assumes "source_Snapshot q env request = Inr s"
  obtains flt turnFilter args raw metricsInput overhead passiveRefs repeatedRefs comparisons contributions
    confounders matched signature sources counts invocations effects cx
  where "source_metrics q flt turnFilter args = Inr raw"
    and "metricsInput = (if narrow_suppressed request raw
      then raw\<lparr> mi_EvidenceRefs := [], mi_Coverage := CoverageStatePartial \<rparr> else raw)"
    and "source_overhead q flt args = Inr overhead"
    and "source_comparisons q request metricsInput (narrow_suppressed request raw) = Inr comparisons"
    and "s = assemble_snapshot env request (narrow_suppressed request raw) metricsInput overhead passiveRefs
      repeatedRefs comparisons contributions confounders matched signature sources counts invocations effects cx"
  using assms by (auto simp: source_Snapshot_def bind_result_eq_Inr Let_def split: prod.splits)

lemma overhead_refs: "source_overhead q flt args = Inr overhead \<Longrightarrow> mi_EvidenceRefs overhead = []"
  by (auto simp: source_overhead_def bind_result_eq_Inr zero_input_def split: prod.splits)

lemma snapshot_small_cohort:
  assumes "source_Snapshot q env request = Inr s" and "sp_PrivacySuppressed s"
  shows "small_cohort env request s"
  using assms(1)
proof (rule source_Snapshot_shape)
  fix flt turnFilter args raw metricsInput overhead passiveRefs repeatedRefs comparisons contributions
    confounders matched signature sources counts invocations effects cx
  assume over: "source_overhead q flt args = Inr overhead"
    and input: "metricsInput = (if narrow_suppressed request raw
      then raw\<lparr> mi_EvidenceRefs := [], mi_Coverage := CoverageStatePartial \<rparr> else raw)"
    and s: "s = assemble_snapshot env request (narrow_suppressed request raw) metricsInput overhead passiveRefs
      repeatedRefs comparisons contributions confounders matched signature sources counts invocations effects cx"
  have "narrow_suppressed request raw"
    using assms(2) s by (simp add: assemble_snapshot_def boundedSlice_eq)
  then show ?thesis
    using overhead_refs [OF over] by (simp add: s input assemble_snapshot_def boundedSlice_eq small_cohort_def)
qed

lemma bounded_refs_Nil [simp]: "bounded_refs [] n = []"
  by (simp add: bounded_refs_def sort_strings_def)

lemma small_cohort_findings:
  assumes "small_cohort env request s"
  shows "list_all (\<lambda>f. fd_EvidenceRefs f = [] \<and> fd_Classification f \<in> {''necessary'', ''uncertain''}) (detect s)"
proof -
  have "fd_EvidenceRefs f = [] \<and> fd_Classification f \<in> {''necessary'', ''uncertain''}" if "f \<in> set (detect s)" for f
  proof -
    obtain ob where ob: "ob \<in> set (observations s)" "diagnosis_evaluate ob = Some f"
      using \<open>f \<in> set (detect s)\<close> by (rule detect_origin)
    have "ob_EvidenceRefs ob = [] \<and> ob_Coverage ob = CoverageStatePartial"
      using ob(1) assms
      by (auto simp: observations_def observation_of_def Let_def small_cohort_def mergeRefs_def sort_strings_def)
    then show ?thesis
      using ob(2)
      by (auto simp: diagnosis_evaluate_def finding_class_def Let_def split: if_splits prod.splits)
  qed
  then show ?thesis
    by (simp add: list_all_iff)
qed

lemma Generate_none:
  assumes "list_all (\<lambda>f. fd_Classification f \<in> {''necessary'', ''uncertain''}) fs"
  shows "Generate fs cx = [noAction]"
proof -
  have "recommended cx f = None" if "f \<in> set fs" for f
    using assms that by (auto simp: recommended_def finding_skipped_def list_all_iff)
  then have "List.map_filter (recommended cx) (sort_slice finding_before fs) = []"
    by (auto simp: List.map_filter_def filter_empty_conv)
  then show ?thesis
    by (simp add: Generate_def Let_def generate_loop_eq)
qed

lemma find_member: "find P xs = Some x \<Longrightarrow> x \<in> set xs"
  by (auto simp: find_Some_iff)

lemma guardrail_refs:
  assumes "mi_EvidenceRefs i = []"
  shows "list_all (\<lambda>g. gr_EvidenceRefs g = []) (currentGuardrails i)"
proof (cases "the (Compute i)")
  case (Inr rs)
  then have "Compute i = Some (Inr rs)"
    using Compute_total [of i] by auto
  then have "\<forall>r\<in>set rs. mr_EvidenceRefs r = []"
    using Compute_carries assms by (auto simp: list_all_iff carries_def)
  then have "mr_EvidenceRefs (metric_named rs name) = []" for name
    by (auto simp: metric_named_def empty_metric_def split: option.splits dest!: find_member)
  then show ?thesis
    using Inr by (simp add: currentGuardrails_def list_all_iff)
qed (simp add: currentGuardrails_def)

lemma suppressed_snapshot:
  assumes "auditFilter request = Inr (flt, turnFilter, args)" "source_metrics q flt turnFilter args = Inr raw"
    and "source_Snapshot q env request = Inr s"
  shows "sp_PrivacySuppressed s \<longleftrightarrow> narrow_suppressed request raw"
  using assms by (auto simp: source_Snapshot_def bind_result_eq_Inr Let_def assemble_snapshot_def boundedSlice_eq)

text \<open>C32: The audit of a small cohort shows no evidence. When fewer than three turns were completed in the
  task or trajectory an audit asks about and the engine succeeds, the result is filed under an
  opaque alias and marked as suppressed, holds no native metric value and no evidence reference in
  metrics, governance overhead, findings or guardrails,
  no contributions, confounders, workload effects or invocation counts, and recommends only to keep
  the workflow. The values of the governance overhead, which measures the auditing itself, are not
  suppressed.\<close>
theorem suppressed_audit_shows_no_evidence:
  assumes "auditFilter request = Inr (flt, turnFilter, args)" "source_metrics q flt turnFilter args = Inr raw"
    and "apq_Scope request = ''task'' \<or> apq_Scope request = ''trajectory''" "mi_CompletedTurns raw < 3"
    and "audit_Run env (source_Snapshot q env) request = Some (Inr r)"
  shows "gv_AuditReference r = opaqueAuditAlias (au_sha256 env) (apq_Reference request) \<and>
    (\<exists>facts. gv_ReportFacts r = Some facts \<and> rf_PrivacySuppressed facts) \<and>
    list_all (\<lambda>m. mr_NativeValue m = None \<and> mr_EvidenceRefs m = []) (gv_Metrics r) \<and>
    list_all (\<lambda>m. mr_EvidenceRefs m = []) (gv_GovernanceOverhead r) \<and>
    list_all (\<lambda>f. fd_EvidenceRefs f = []) (gv_Findings r) \<and>
    list_all (\<lambda>g. gr_EvidenceRefs g = []) (gv_Guardrails r) \<and>
    gv_Recommendations r = [noAction] \<and> gv_Contributions r = [] \<and> gv_Confounders r = [] \<and>
    gv_WorkloadEffects r = [] \<and> gv_InvocationCounts r = zero_invocations"
proof -
  obtain s where snapshot: "source_Snapshot q env request = Inr s"
    using assms(5) by (auto simp: audit_Run_def split: sum.splits)
  have suppressed: "sp_PrivacySuppressed s"
    using suppressed_snapshot [OF assms(1,2) snapshot] assms(3,4) by (simp add: narrow_suppressed_def)
  define n where "n = normalizeSnapshot s"
  have small: "small_cohort env request s"
    by (rule snapshot_small_cohort [OF snapshot suppressed])
  obtain computed calculated overhead revision where
    run: "Compute (sp_Metrics s) = Some (Inr computed)" "applyComparisons computed (sp_Comparisons s) = Some calculated"
      "r = audit_result n revision calculated overhead (detect n) (audit_recommendations env n (detect n))"
      "Compute (sp_GovernanceOverhead s) = Some (Inr overhead)"
    using assms(5)
    by (auto simp: audit_Run_def snapshot Let_def n_def split: sum.splits option.splits)
  have carried: "list_all (carries (sp_Metrics s)) calculated"
    by (rule applyComparisons_carries [OF Compute_carries [OF run(1)] run(2)])
  have small': "small_cohort env request (n\<lparr> sp_ReportScopeCounts := zero_scope_counts \<rparr>)"
    using small by (simp add: small_cohort_def n_def)
  have "detect (n\<lparr> sp_ReportScopeCounts := zero_scope_counts \<rparr>) = detect n"
    by (simp add: detect_def observations_def observation_of_def Let_def)
  then have findings: "list_all (\<lambda>f. fd_EvidenceRefs f = [] \<and> fd_Classification f \<in> {''necessary'', ''uncertain''}) (detect n)"
    using small_cohort_findings [OF small'] by simp
  then have "audit_recommendations env n (detect n) = [noAction]"
    unfolding audit_recommendations_def by (intro Generate_none) (simp add: list_all_iff)
  moreover have "list_all (\<lambda>g. gr_EvidenceRefs g = []) (sp_Guardrails s)"
    using small guardrail_refs by (simp add: small_cohort_def)
  moreover have "list_all (\<lambda>m. mr_NativeValue m = None \<and> mr_EvidenceRefs m = []) calculated"
    using carried small by (auto simp: list_all_iff carries_def small_cohort_def)
  moreover have "list_all (\<lambda>m. mr_EvidenceRefs m = []) overhead"
    using Compute_carries [OF run(4)] small by (simp add: list_all_iff carries_def small_cohort_def)
  moreover have "sp_PrivacySuppressed n"
    using suppressed by (simp add: n_def normalizeSnapshot_def Let_def)
  ultimately show ?thesis
    using small findings
    by (simp add: run(3) audit_result_def buildReportFacts_def n_def small_cohort_def list_all_iff Let_def)
qed

lemma suppressed_audit_reference:
  assumes "auditFilter request = Inr (flt, turnFilter, args)" "source_metrics q flt turnFilter args = Inr raw"
    and "narrow_suppressed request raw"
    and "audit_Run env (source_Snapshot q env) request = Some (Inr r)"
  shows "gv_AuditReference r = opaqueAuditAlias (au_sha256 env) (apq_Reference request)"
proof -
  obtain s where snapshot: "source_Snapshot q env request = Inr s"
    using assms(4) by (auto simp: audit_Run_def split: sum.splits)
  have "small_cohort env request s"
    using suppressed_snapshot [OF assms(1,2) snapshot] assms(3) by (intro snapshot_small_cohort [OF snapshot]) simp
  then show ?thesis
    using assms(4) by (auto simp: audit_Run_def snapshot Let_def audit_result_def small_cohort_def split: sum.splits option.splits)
qed

text \<open>The engine fills the zeroed scope counts of a suppressed snapshot with the counts of its metrics.\<close>

lemma suppressed_counts_restored:
  assumes "source_Snapshot q env request = Inr s" and "sp_PrivacySuppressed s"
    and "0 < mi_CompletedTurns (sp_Metrics s)"
  shows "sp_ReportScopeCounts s = zero_scope_counts \<and>
    rf_ScopeCounts (buildReportFacts (normalizeSnapshot s) ms fs rcs os) = zero_scope_counts\<lparr>
      rs_IncludedTurns := mi_CompletedTurns (sp_Metrics s),
      rs_IncludedToolCalls := mi_ToolCalls (sp_Metrics s),
      rs_IncludedEvidence := mi_AcceptedEvidence (sp_Metrics s) \<rparr>"
  using snapshot_small_cohort [OF assms(1,2)] assms(3)
  by (simp add: small_cohort_def buildReportFacts_def normalizeSnapshot_def Let_def zero_scope_counts_def)

section \<open>The windows a comparison rests on\<close>

definition request_bounds :: "audit_project_request \<Rightarrow> go_time \<times> go_time" where
  "request_bounds request = (apq_StartsAt request, apq_EndsAt request)"

definition window_bounds :: "report_window \<Rightarrow> go_time \<times> go_time" where
  "window_bounds w = (rw_StartsAt w, rw_EndsAt w)"

lemma wrap64_multiple:
  assumes "0 < d" and "8 * d \<le> max_int64" and "0 \<le> k" and "k \<le> 8"
  shows "wrap64 (- k * d) = - k * d"
proof (rule wrap64_id)
  have "k * d \<le> 8 * d"
    using assms by (simp add: mult_right_mono)
  then have "k * d \<le> max_int64"
    using assms(2) by linarith
  then show "min_int64 \<le> - k * d"
    by (simp add: min_int64_def max_int64_def)
  show "- k * d \<le> max_int64"
    using assms by (simp add: max_int64_def order_trans [of _ 0])
qed

text \<open>The reported rolling windows begin with the previous window, while the rolling baseline leaves
  it out: the report names the seven windows before the current one, the median is taken over the
  second to the eighth.\<close>

lemma reported_rolling_windows:
  assumes "sp_StartsAt s = apq_StartsAt request" and "sp_EndsAt s = apq_EndsAt request"
    and "0 < apq_EndsAt request - apq_StartsAt request"
    and "8 * (apq_EndsAt request - apq_StartsAt request) \<le> max_int64"
  shows "map window_bounds (rf_RollingWindows (buildReportFacts s ms fs rcs os)) =
    map (\<lambda>k. request_bounds (prior_request request (apq_EndsAt request - apq_StartsAt request) k)) [1, 2, 3, 4, 5, 6, 7]"
proof -
  define d where "d = apq_EndsAt request - apq_StartsAt request"
  have d: "0 < d" "8 * d \<le> max_int64" "time_Sub (sp_EndsAt s) (sp_StartsAt s) = d"
    using assms by (auto simp: d_def max_int64_def intro: time_Sub_exact)
  note w = wrap64_multiple [OF d(1,2)]
  have same: "window_bounds (rolling_window s c d (k + 1)) = request_bounds (prior_request request d k)"
    if "1 \<le> k" "k \<le> 7" for c k
    using w [of k] w [of "k - 1"] w [of 1] that assms(1,2)
    by (simp add: window_bounds_def request_bounds_def rolling_window_def prior_request_def
        audit_window_reference_def Let_def d_def algebra_simps)
  show ?thesis
    using same [of 1] same [of 2] same [of 3] same [of 4] same [of 5] same [of 6] same [of 7]
    by (simp add: buildReportFacts_def Let_def d(3) d_def [symmetric])
qed

lemma collect_windows_all2:
  "collect_windows q signature ps = Inr ws \<Longrightarrow> list_all2 (\<lambda>p w. window_results q signature p = Inr w) ps ws"
  by (induction ps arbitrary: ws) (auto simp: bind_result_eq_Inr)

lemma definition_names_distinct: "distinct (map df_Name Definitions)"
proof -
  have "map df_Name Definitions = map fst metric_units"
    by (simp add: Definitions_def metric_units_def comp_def)
  then show ?thesis
    by (simp add: metric_units_eq)
qed

lemma source_comparisons_rolling:
  assumes "source_comparisons q request input privacySuppressed = Inr cs" and "d \<in> set Definitions"
  shows "0 < time_Sub (apq_EndsAt request) (apq_StartsAt request) \<and> (\<exists>c signature. cs (df_Name d) = Some c \<and>
    list_all2 (\<lambda>k b. \<exists>w. window_results q signature
        (prior_request request (time_Sub (apq_EndsAt request) (apq_StartsAt request)) k) = Inr w \<and>
        b = window_of (df_Name d) False w) [2, 3, 4, 5, 6, 7, 8] (bc_Rolling c))"
proof -
  let ?D = "time_Sub (apq_EndsAt request) (apq_StartsAt request)"
  obtain signature ws current where pos: "0 < ?D"
    and ws: "collect_windows q signature (map (prior_request request ?D) [1..29]) = Inr ws"
    and cs: "cs = map_of (map (\<lambda>d. (df_Name d, comparison_of ws current privacySuppressed d)) Definitions)"
    using assms(1) by (cases "the (Compute input)")
      (auto simp: source_comparisons_def bind_result_eq_Inr Let_def split: if_splits)
  have prior: "take 7 (drop 1 (map (prior_request request ?D) [1..29])) = map (prior_request request ?D) [2, 3, 4, 5, 6, 7, 8]"
    by (simp add: upto_rec_numeral upto_rec1)
  have "list_all2 (\<lambda>p w. window_results q signature p = Inr w)
      (take 7 (drop 1 (map (prior_request request ?D) [1..29]))) (take 7 (drop 1 ws))"
    by (intro list_all2_takeI list_all2_dropI collect_windows_all2 [OF ws])
  then have "list_all2 (\<lambda>k w. window_results q signature (prior_request request ?D k) = Inr w)
      [2, 3, 4, 5, 6, 7, 8] (take 7 (drop 1 ws))"
    unfolding prior list_all2_map1 .
  then have "list_all2 (\<lambda>k b. \<exists>w. window_results q signature (prior_request request ?D k) = Inr w \<and>
      b = window_of (df_Name d) False w) [2, 3, 4, 5, 6, 7, 8] (map (window_of (df_Name d) False) (take 7 (drop 1 ws)))"
    unfolding list_all2_map2 by (rule list_all2_mono) blast
  moreover have "cs (df_Name d) = Some (comparison_of ws current privacySuppressed d)"
    unfolding cs using assms(2) definition_names_distinct by (intro map_of_is_SomeI) (auto simp: comp_def)
  moreover have "bc_Rolling (comparison_of ws current privacySuppressed d) = map (window_of (df_Name d) False) (take 7 (drop 1 ws))"
    by (simp add: comparison_of_def Let_def split: prod.splits)
  ultimately show ?thesis
    using pos by (intro conjI exI [of _ "comparison_of ws current privacySuppressed d"] exI [of _ signature]) simp_all
qed

text \<open>C33: The report names the wrong rolling windows. For every metric of a snapshot the rolling
  baseline is taken from the second to the eighth window before the current one; the report facts
  built from that snapshot list the first to the seventh, so the previous window is reported as part
  of the rolling baseline and the oldest window of the baseline is not reported.\<close>
theorem report_misnames_rolling_windows:
  assumes "source_Snapshot q env request = Inr s" and "d \<in> set Definitions"
    and "8 * (apq_EndsAt request - apq_StartsAt request) \<le> max_int64"
  shows "\<exists>c signature. sp_Comparisons s (df_Name d) = Some c \<and>
    list_all2 (\<lambda>k b. \<exists>w. window_results q signature
        (prior_request request (apq_EndsAt request - apq_StartsAt request) k) = Inr w \<and>
        b = window_of (df_Name d) False w) [2, 3, 4, 5, 6, 7, 8] (bc_Rolling c) \<and>
    map window_bounds (rf_RollingWindows (buildReportFacts (normalizeSnapshot s) ms fs rcs os)) =
      map (\<lambda>k. request_bounds (prior_request request (apq_EndsAt request - apq_StartsAt request) k))
        [1, 2, 3, 4, 5, 6, 7]"
  using assms(1)
proof (rule source_Snapshot_shape)
  let ?D = "apq_EndsAt request - apq_StartsAt request"
  fix flt turnFilter args raw metricsInput overhead passiveRefs repeatedRefs comparisons contributions
    confounders matched signature sources counts invocations effects cx
  assume cs: "source_comparisons q request metricsInput (narrow_suppressed request raw) = Inr comparisons"
    and s: "s = assemble_snapshot env request (narrow_suppressed request raw) metricsInput overhead passiveRefs
      repeatedRefs comparisons contributions confounders matched signature sources counts invocations effects cx"
  note rolling = source_comparisons_rolling [OF cs assms(2)]
  have pos: "0 < ?D"
    using rolling by (auto simp: time_Sub_def max_int64_def min_int64_def split: if_splits)
  have exact: "time_Sub (apq_EndsAt request) (apq_StartsAt request) = ?D"
    using pos assms(3) by (intro time_Sub_exact) (auto simp: max_int64_def)
  have "sp_Comparisons s = comparisons" "sp_StartsAt s = apq_StartsAt request" "sp_EndsAt s = apq_EndsAt request"
    by (simp_all add: s assemble_snapshot_def boundedSlice_eq)
  then show ?thesis
    using rolling exact reported_rolling_windows [of "normalizeSnapshot s" request ms fs rcs os] pos assms(3)
    by auto
qed

section \<open>A concrete store\<close>

text \<open>A store with one task of two turns, the same in every window.\<close>

abbreviation sample_task :: audit_project_request where
  "sample_task \<equiv> \<lparr> apq_SchemaVersion = SchemaVersion, apq_Kind = ''request'', apq_Scope = ''task'',
     apq_Reference = ''11111111-2222-3333-4444-555555555555'', apq_ConfiguredSources = [''codex_jsonl''],
     apq_StartsAt = 1000, apq_EndsAt = 2000, apq_AsOf = 2000, apq_Consent = ''granted'' \<rparr>"

abbreviation sample_queries :: audit_queries where
  "sample_queries \<equiv>
     \<lparr> aq_metrics = (\<lambda>_ _ _ _ _. Inr \<lparr> mq_input = zero_input\<lparr> mi_CompletedTurns := 2 \<rparr>, mq_completePhases = 0,
         mq_evidenceCount = 0, mq_completeEvidence = 0 \<rparr>),
       aq_overhead = (\<lambda>_ _. Inr (Fin 0, 0)), aq_evidenceRefs = (\<lambda>_ _ _. Inr [''e1'']),
       aq_toolRefs = (\<lambda>_ _ _ _. Inr [''t1'']), aq_reportSources = (\<lambda>_ _ _. Inr []),
       aq_reportScopeCounts = (\<lambda>_ _ _ _. Inr [1, 0, 2, 0, 0, 0, 0, 0]), aq_contributions = (\<lambda>_ _ _. Inr []),
       aq_confounders = (\<lambda>_ _. Inr []), aq_confounderLabels = (\<lambda>_ _. Inr []),
       aq_dimensionVersions = (\<lambda>_ _. Inr [(''p1'', ''s1'')]),
       aq_invocationCounts = (\<lambda>_ _ _. Inr zero_invocations), aq_workloadValues = (\<lambda>_ _ _. Inr []),
       aq_feedback = (\<lambda>_. Inr []) \<rparr>"

abbreviation sample_input_of :: "string \<Rightarrow> string list \<Rightarrow> metric_input" where
  "sample_input_of coverage refs \<equiv> zero_input\<lparr> mi_CompletedTurns := 2, mi_AcceptedEvidence := 0,
     mi_ActiveRuntimeKnown := False, mi_Coverage := coverage, mi_EvidenceRefs := refs \<rparr>"

lemma sample_compute: "\<exists>rs. Compute (sample_input_of coverage refs) = Some (Inr rs)"
proof -
  have "\<not> invalidInput (sample_input_of coverage refs)"
    by (simp add: invalidInput_def invalidMeasurement_def zero_input_def f64_IsNaN_def f64_IsInf_def)
  then show ?thesis
    using Compute_total [of "sample_input_of coverage refs"] by (auto simp: Compute_def split: if_splits)
qed

lemma sample_windows: "\<exists>ws. collect_windows sample_queries signature (map (prior_request sample_task d) ks) = Inr ws"
proof (induction ks)
  case (Cons k ks)
  obtain rs where "Compute (sample_input_of ''missing'' [''e1'']) = Some (Inr rs)"
    using sample_compute by blast
  then have "\<exists>w. window_results sample_queries signature (prior_request sample_task d k) = Inr w"
    by (simp add: window_results_def prior_request_def Let_def auditFilter_def source_metrics_def source_evidenceRefs_def)
  then show ?case
    using Cons.IH by (auto simp: bind_result_eq_Inr)
qed simp

lemma sample_comparisons:
  "\<exists>cs. source_comparisons sample_queries sample_task (sample_input_of ''partial'' []) True = Inr cs"
proof -
  obtain signature where sig: "dimensionSignature sample_queries sample_task = Inr signature"
    by (simp add: dimensionSignature_def auditFilter_def confounderSignature_def)
  obtain ws where ws: "collect_windows sample_queries signature (map (prior_request sample_task 1000) [1..29]) = Inr ws"
    using sample_windows by blast
  obtain rs where rs: "Compute (sample_input_of ''partial'' []) = Some (Inr rs)"
    using sample_compute by blast
  have "time_Sub 2000 1000 = 1000"
    by (simp add: time_Sub_def max_int64_def min_int64_def)
  then show ?thesis
    using sig ws rs by (simp add: source_comparisons_def Let_def)
qed

lemma sample_snapshot:
  "\<exists>s. source_Snapshot sample_queries sample_audit_env sample_task = Inr s \<and> sp_PrivacySuppressed s \<and>
     sp_Metrics s = sample_input_of ''partial'' [] \<and> sp_GovernanceOverhead s =
       zero_input\<lparr> mi_TotalTokens := Fin 0, mi_CompletedTurns := 0, mi_Coverage := ''complete'' \<rparr>"
proof -
  obtain cs where cs: "source_comparisons sample_queries sample_task (sample_input_of ''partial'' []) True = Inr cs"
    using sample_comparisons by blast
  have step: "time_Sub 2000 1000 = 1000" "wrap64 (- 1000) = - 1000"
    by (simp_all add: time_Sub_def max_int64_def min_int64_def wrap64_def)
  have filter: "auditFilter sample_task = Inr (task_filter @ sourceFilter, ''t.task_id = $5::uuid'',
      [Time_Arg 1000, Time_Arg 2000, Time_Arg 2000, Texts_Arg [''codex_jsonl''],
       Text_Arg ''11111111-2222-3333-4444-555555555555''])"
    by (simp add: auditFilter_def)
  have small: "narrow_suppressed sample_task (sample_input_of ''missing'' [''e1''])"
    by (simp add: narrow_suppressed_def zero_input_def)
  have metrics: "source_metrics sample_queries flt ''t.task_id = $5::uuid'' args = Inr (sample_input_of ''missing'' [''e1''])" for flt args
    by (simp add: source_metrics_def source_evidenceRefs_def Let_def)
  have others: "previousConfoundersMatched sample_queries sample_task = Inr False"
    "workloadEffects sample_queries sample_task = Inr [Decompose ''total_tokens'' [] []]"
    "recommendationContext sample_queries sample_task = Inr (empty_context\<lparr> cx_AsOf := 2000 \<rparr>)"
    "source_contributions sample_queries sample_task = Inr []" "source_confounders sample_queries sample_task = Inr []"
    by (simp_all add: previousConfoundersMatched_def previousAuditWindow_def Let_def step confounderSignature_def
        workloadEffects_def workloadValues_def recommendationContext_def source_contributions_def
        source_confounders_def auditFilter_def)
  obtain signature where sig: "dimensionSignature sample_queries sample_task = Inr signature"
    by (simp add: dimensionSignature_def auditFilter_def confounderSignature_def)
  have order: "zero_input\<lparr> mi_CompletedTurns := 2, mi_AcceptedEvidence := 0, mi_ActiveRuntimeKnown := False,
      mi_EvidenceRefs := [], mi_Coverage := ''partial'' \<rparr> = sample_input_of ''partial'' []"
    by (simp add: zero_input_def)
  show ?thesis
    using cs by (simp add: order source_Snapshot_def filter metrics Let_def small sig others source_overhead_def
        source_toolRefs_def reportSources_def reportScopeCounts_def assemble_snapshot_def boundedSlice_eq)
qed

lemma sample_request_valid: "audit_ValidateRequest sample_task = Inr ()"
  by (simp add: audit_ValidateRequest_def uuidReference_def hex_lower_def)

lemma sample_audit_runs:
  "\<exists>s r. source_Snapshot sample_queries sample_audit_env sample_task = Inr s \<and> sp_PrivacySuppressed s \<and>
     audit_Run sample_audit_env (source_Snapshot sample_queries sample_audit_env) sample_task = Some (Inr r)"
proof -
  obtain s where s: "source_Snapshot sample_queries sample_audit_env sample_task = Inr s" "sp_PrivacySuppressed s"
    "sp_Metrics s = sample_input_of ''partial'' []"
    "sp_GovernanceOverhead s = zero_input\<lparr> mi_TotalTokens := Fin 0, mi_CompletedTurns := 0, mi_Coverage := ''complete'' \<rparr>"
    using sample_snapshot by blast
  obtain rs where rs: "Compute (sample_input_of ''partial'' []) = Some (Inr rs)"
    using sample_compute by blast
  obtain calculated where calc: "applyComparisons rs (sp_Comparisons s) = Some calculated"
    using applyComparisons_total by blast
  have "\<not> invalidInput (sp_GovernanceOverhead s)"
    by (simp add: s(4) invalidInput_def invalidMeasurement_def zero_input_def f64_IsNaN_def f64_IsInf_def)
  then obtain overhead where "Compute (sp_GovernanceOverhead s) = Some (Inr overhead)"
    using Compute_total [of "sp_GovernanceOverhead s"] by (auto simp: Compute_def split: if_splits)
  then show ?thesis
    using s rs calc by (simp add: audit_Run_def sample_request_valid audit_hash_def Let_def)
qed

lemma sample_revision_hash:
  assumes "audit_Run sample_audit_env src request = Some (Inr r)"
  shows "gv_RevisionHash r = hex_encode ''0123456789abcdef0123456789abcdef''"
  using assms by (auto simp: audit_Run_def audit_result_def audit_hash_def Let_def split: sum.splits option.splits)

lemma sample_small_cohort:
  "auditFilter sample_task = Inr (task_filter @ sourceFilter, ''t.task_id = $5::uuid'',
     [Time_Arg 1000, Time_Arg 2000, Time_Arg 2000, Texts_Arg [''codex_jsonl''],
      Text_Arg ''11111111-2222-3333-4444-555555555555''])"
  "source_metrics sample_queries (task_filter @ sourceFilter) ''t.task_id = $5::uuid''
     [Time_Arg 1000, Time_Arg 2000, Time_Arg 2000, Texts_Arg [''codex_jsonl''],
      Text_Arg ''11111111-2222-3333-4444-555555555555''] = Inr (sample_input_of ''missing'' [''e1''])"
  "mi_CompletedTurns (sample_input_of ''missing'' [''e1'']) < 3" "apq_Scope sample_task = ''task''"
  by (simp_all add: auditFilter_def source_metrics_def source_evidenceRefs_def Let_def zero_input_def)

theorem suppressed_audit_shows_no_evidence_witness:
  "\<exists>r. audit_Run sample_audit_env (source_Snapshot sample_queries sample_audit_env) sample_task = Some (Inr r) \<and>
     gv_Recommendations r = [noAction] \<and> list_all (\<lambda>m. mr_EvidenceRefs m = []) (gv_Metrics r)"
proof -
  obtain r where run: "audit_Run sample_audit_env (source_Snapshot sample_queries sample_audit_env) sample_task = Some (Inr r)"
    using sample_audit_runs by blast
  show ?thesis
    using run suppressed_audit_shows_no_evidence [OF sample_small_cohort(1,2) disjI1 [OF sample_small_cohort(4)]
        sample_small_cohort(3) run] by (auto simp: list_all_iff)
qed

theorem report_misnames_rolling_windows_witness:
  "\<exists>s. source_Snapshot sample_queries sample_audit_env sample_task = Inr s \<and>
     map window_bounds (rf_RollingWindows (buildReportFacts (normalizeSnapshot s) [] [] [] [])) =
       [(0, 1000), (- 1000, 0), (- 2000, - 1000), (- 3000, - 2000), (- 4000, - 3000), (- 5000, - 4000), (- 6000, - 5000)]"
proof -
  obtain s where s: "source_Snapshot sample_queries sample_audit_env sample_task = Inr s"
    using sample_snapshot by blast
  obtain d where "definition_of ''scope_attribution_coverage'' = Some d"
    by (rule sample_definition)
  then have d: "d \<in> set Definitions"
    by (auto simp: definition_of_def Definitions_def dest: find_member)
  have "8 * (apq_EndsAt sample_task - apq_StartsAt sample_task) \<le> max_int64"
    by (simp add: max_int64_def)
  from report_misnames_rolling_windows [OF s d this, of "[]" "[]" "[]" "[]"] s
  show ?thesis
    by (auto simp: request_bounds_def prior_request_def Let_def wrap64_def)
qed

end
