(* ===== verification/Governance_Audit.thy ===== *)
theory Governance_Audit
  imports Governance_Store_Props Governance_Props Collection_Store_Props
begin

text \<open>
  A project audit as a whole (\<open>AuditProject\<close> in \<open>internal/store/postgres/governance.go\<close>): a connection
  with the lock of the window, a serialisable transaction that reads the snapshot, runs the engine,
  checks that the result fits its budget for every revision number and stores it, and the bounded result.
\<close>

datatype conn_fate = Conn_Released | Conn_Closed

text \<open>What the pool and the lock statements answer.\<close>

record audit_conn =
  an_acquire_error :: "bool option"
  an_lock_error :: "bool option"
  an_unlocked :: "bool option"

definition releaseAuditConnection :: "audit_conn \<Rightarrow> conn_fate" where
  "releaseAuditConnection conn = (if an_unlocked conn = Some True then Conn_Released else Conn_Closed)"

text \<open>An error of the engine or its source; the database tells which failed statements may be retried.\<close>

fun engine_error :: "tx_env \<Rightarrow> audit_error \<Rightarrow> store_error" where
  "engine_error tx (Stable_Error e) = AuditFailure e"
| "engine_error tx (Plain_Error op) =
     (case tx_statement tx op op of Some retry \<Rightarrow> DatabaseError op retry | None \<Rightarrow> StoreError op)"

definition audit_probe :: "governance_result \<Rightarrow> governance_result" where
  "audit_probe r = r\<lparr> gv_Window := (gv_Window r)\<lparr> aw_Revision := max_int64, aw_LateEvidence := True \<rparr> \<rparr>"

definition audit_transaction ::
  "gov_env \<Rightarrow> (tx_env \<Rightarrow> audit_queries) \<Rightarrow> audit_project_request \<Rightarrow> tx_env \<Rightarrow> gov_db \<Rightarrow>
   store_error + governance_result \<times> gov_db" where
  "audit_transaction env q request tx db =
     (case audit_Run (ge_audit env) (source_Snapshot (q tx) (ge_audit env)) request of
        None \<Rightarrow> Inl (StoreError ''panic'')
      | Some (Inl e) \<Rightarrow> Inl (engine_error tx e)
      | Some (Inr result) \<Rightarrow>
          (case BoundResult (ge_audit env) (audit_probe result) of
             Inl e \<Rightarrow> Inl (engine_error tx e)
           | Inr _ \<Rightarrow> persistAuditProject env tx request result db))"

definition AuditProject ::
  "gov_env \<Rightarrow> (tx_env \<Rightarrow> audit_queries) \<Rightarrow> audit_conn \<Rightarrow> (nat \<Rightarrow> tx_env) \<Rightarrow> audit_project_request \<Rightarrow> gov_db \<Rightarrow>
   (store_error + governance_result) \<times> gov_db \<times> conn_fate option" where
  "AuditProject env q conn txs request db =
     (case an_acquire_error conn of
        Some retry \<Rightarrow> (Inl (DatabaseError ''acquire audit connection'' retry), db, None)
      | None \<Rightarrow>
          (case an_lock_error conn of
             Some retry \<Rightarrow> (Inl (DatabaseError ''lock audit revision'' retry), db, Some Conn_Released)
           | None \<Rightarrow>
               (case withSerializable (audit_transaction env q request) txs 1 maxTransactionAttempts db of
                  (Inl e, db') \<Rightarrow> (Inl e, db', Some (releaseAuditConnection conn))
                | (Inr canonical, db') \<Rightarrow>
                    ((case BoundResult (ge_audit env) canonical of
                        Inl e \<Rightarrow> Inl (engine_error (txs maxTransactionAttempts) e)
                      | Inr b \<Rightarrow> Inr b), db', Some (releaseAuditConnection conn)))))"

section \<open>The probe\<close>

lemma audit_probe_eq: "audit_probe r = numbered_result r max_int64 True"
  by (simp add: audit_probe_def numbered_result_def)

lemma numbered_sel [simp]:
  "gv_Metrics (numbered_result r n late) = gv_Metrics r" "gv_Findings (numbered_result r n late) = gv_Findings r"
  "gv_Guardrails (numbered_result r n late) = gv_Guardrails r"
  "gv_Contributions (numbered_result r n late) = gv_Contributions r"
  "gv_Confounders (numbered_result r n late) = gv_Confounders r"
  "gv_WorkloadEffects (numbered_result r n late) = gv_WorkloadEffects r"
  "gv_Outliers (numbered_result r n late) = gv_Outliers r"
  "gv_OmittedCount (numbered_result r n late) = gv_OmittedCount r"
  "gv_RevisionHash (numbered_result r n late) = gv_RevisionHash r"
  "aw_Revision (gv_Window (numbered_result r n late)) = n"
  by (simp_all add: numbered_result_def)

lemma omit_step_numbered:
  "omit_step (numbered_result r n late) = map_option (\<lambda>x. numbered_result x n late) (omit_step r)"
  by (simp add: omit_step_def omitOneEvidenceReference_def numbered_result_def split: option.splits)

text \<open>The number and the mark of late evidence are an integer and a boolean of the encoding: whatever can be
  encoded under the probe's can be encoded under the others, and is no longer.\<close>

definition probe_longest :: "audit_env \<Rightarrow> int \<Rightarrow> bool" where
  "probe_longest env n \<longleftrightarrow> (\<forall>x late. case au_marshal env (audit_probe x) of
      None \<Rightarrow> True
    | Some probe \<Rightarrow> \<exists>encoded. au_marshal env (numbered_result x n late) = Some encoded \<and> length encoded \<le> length probe)"

lemma probe_longestD:
  assumes "probe_longest env n" "au_marshal env (audit_probe x) = Some probe"
  obtains encoded where "au_marshal env (numbered_result x n late) = Some encoded" "length encoded \<le> length probe"
proof -
  have "case au_marshal env (audit_probe x) of
      None \<Rightarrow> True
    | Some probe \<Rightarrow> \<exists>encoded. au_marshal env (numbered_result x n late) = Some encoded \<and> length encoded \<le> length probe"
    using assms(1) unfolding probe_longest_def by blast
  then show thesis
    using assms(2) that by auto
qed

lemma bound_loop_probe:
  assumes longest: "probe_longest env n"
  shows "bound_loop env limit (audit_probe r) = Inr b \<Longrightarrow>
    \<exists>c. bound_loop env limit (numbered_result r n late) = Inr c"
proof (induction "omittable r" arbitrary: r rule: less_induct)
  case less
  obtain probe where probe: "au_marshal env (audit_probe r) = Some probe"
    using less.prems by (subst (asm) bound_loop.simps) (auto split: option.splits)
  obtain encoded where enc: "au_marshal env (numbered_result r n late) = Some encoded"
    and shorter: "length encoded \<le> length probe"
    using longest probe by (rule probe_longestD)
  show ?case
  proof (cases "length encoded \<le> limit")
    case True
    then show ?thesis
      using enc by (subst bound_loop.simps) simp
  next
    case False
    then have big: "\<not> length probe \<le> limit"
      using shorter by simp
    then obtain r' where step: "omit_step r = Some r'"
      using less.prems probe by (subst (asm) bound_loop.simps)
        (auto simp: audit_probe_eq omit_step_numbered split: option.splits)
    have "bound_loop env limit (audit_probe r') = Inr b"
      using less.prems probe big step by (subst (asm) bound_loop.simps) (simp add: audit_probe_eq omit_step_numbered)
    then obtain c where "bound_loop env limit (numbered_result r' n late) = Inr c"
      using less.hyps [of r'] omit_step_omittable [OF step] by auto
    then show ?thesis
      using enc False step by (subst bound_loop.simps) (simp add: omit_step_numbered)
  qed
qed

section \<open>The number of a stored revision\<close>

lemma chained_bounds: "chained p n rs \<Longrightarrow> x \<in> set rs \<Longrightarrow> n \<le> rv_number (snd x) \<and> rv_number (snd x) < n + int (length rs)"
  by (induction p n rs rule: chained.induct) fastforce+

lemma revision_rows_length: "length (revision_rows w db) \<le> length db"
  by (simp add: revision_rows_def List.map_filter_def le_trans [OF length_filter_le])

lemma revision_rows_member:
  "(Revision_Key i, Revision_Row r) \<in> set db \<Longrightarrow> (i, r) \<in> set (revision_rows (rv_window r) db)"
  by (force simp: revision_rows_def List.map_filter_def)

lemma revision_identity_bounds:
  assumes "history_ok db" and "\<And>w. length (revision_rows w db) \<le> k"
  shows "fst (revision_identity i w db) \<in> {1..int k + 1}"
proof -
  have chain: "chained None 1 (revision_rows v db)" for v
    using assms(1) by (simp add: history_ok_def)
  show ?thesis
  proof (cases "map_of db (Revision_Key i)")
    case (Some row)
    then obtain r where "row = Revision_Row r"
      using assms(1) history_key_row unfolding history_ok_def by blast
    then show ?thesis
      using Some chained_bounds [OF chain revision_rows_member [OF map_of_SomeD]] assms(2) [of "rv_window r"]
      by (fastforce simp: revision_identity_def)
  next
    case None
    then show ?thesis
      using chained_latest [OF chain, of w] assms(2) [of w]
      by (cases "revision_rows w db = []") (auto simp: revision_identity_def case_prod_beta)
  qed
qed

lemma persisted_form:
  assumes ok: "history_ok db" and run: "persistAuditProject env tx request result db = Inr (persisted, db')"
  obtains n late where "persisted = numbered_result result n late" and "n \<in> {1..int (length db) + 1}"
proof -
  obtain projectID np db1 db4 where
    w: "window_insert env tx projectID request db = Inr db1"
    and np: "revision_identity (audit_revision_id env result) (batch_uuid env (auditWindowKey env request)) db1 = np"
    and p: "persisted = numbered_result result (fst np) (hasNewRevisionEvidence (audit_revision_id env result) (snd np) db4)"
    using run by (rule persistAuditProject_run)
  obtain rows where rows: "db1 = db @ rows" "list_all plain_row rows"
    using addsD [OF adds_window w] by auto
  have "length (revision_rows v db1) \<le> length db" for v
    using revision_rows_length [of v db] rows by (simp add: revision_rows_plain)
  then have "fst np \<in> {1..int (length db) + 1}"
    using revision_identity_bounds [OF history_ok_adds [OF ok adds_window w]] np by blast
  then show ?thesis
    using p that by blast
qed

section \<open>What an audit commits it can return\<close>

lemma audit_transaction_Inr:
  assumes "audit_transaction env q request tx db = Inr (canonical, db')"
  obtains r b where "audit_Run (ge_audit env) (source_Snapshot (q tx) (ge_audit env)) request = Some (Inr r)"
    and "BoundResult (ge_audit env) (audit_probe r) = Inr b"
    and "persistAuditProject env tx request r db = Inr (canonical, db')"
  using assms by (auto simp: audit_transaction_def split: option.splits sum.splits)

text \<open>Decoding the encoding of a result gives the result, for the probe and for the numbers a next revision
  can have. Nothing is said of a result that cannot be encoded.\<close>

definition copies_exactly :: "audit_env \<Rightarrow> nat \<Rightarrow> governance_result \<Rightarrow> bool" where
  "copies_exactly env k r \<longleftrightarrow> (\<forall>n late. n = max_int64 \<or> n \<in> {1..int k + 1} \<longrightarrow>
     (case au_marshal env (numbered_result r n late) of
        None \<Rightarrow> True
      | Some encoded \<Rightarrow> au_unmarshal env encoded = Some (numbered_result r n late)))"

lemma copies_exactlyD:
  assumes "copies_exactly env k r" "n = max_int64 \<or> n \<in> {1..int k + 1}"
    and "au_marshal env (numbered_result r n late) = Some encoded"
  shows "Option.bind (au_marshal env (numbered_result r n late)) (au_unmarshal env) = Some (numbered_result r n late)"
proof -
  have "case au_marshal env (numbered_result r n late) of
        None \<Rightarrow> True
      | Some encoded \<Rightarrow> au_unmarshal env encoded = Some (numbered_result r n late)"
    using assms(1,2) unfolding copies_exactly_def by blast
  then show ?thesis
    using assms(3) by simp
qed

lemma BoundResult_encodes: "BoundResult env r = Inr b \<Longrightarrow> \<exists>encoded. au_marshal env r = Some encoded"
  by (auto simp: BoundResult_def boundResult_def split: option.splits)

lemma boundResult_copy:
  "Option.bind (au_marshal env r) (au_unmarshal env) = Some r \<Longrightarrow> boundResult env r limit = bound_loop env limit r"
  by (auto simp: boundResult_def split: option.splits Option.bind_splits)

lemma BoundResult_fits: "BoundResult env r = Inr b \<Longrightarrow> encodes_within env MaxResultBytes b"
proof -
  assume "BoundResult env r = Inr b"
  then obtain cloned where "bound_loop env MaxResultBytes cloned = Inr b"
    by (auto simp: BoundResult_def boundResult_def split: option.splits)
  then show ?thesis
    using bound_loop_outcome [of env MaxResultBytes cloned] by (auto simp: encodes_within_def)
qed

lemma bound_loop_kept:
  assumes "bound_loop env limit (numbered_result r n late) = Inr b"
  shows "gv_RevisionHash b = gv_RevisionHash r \<and> aw_Revision (gv_Window b) = n"
proof -
  have "stripped b = stripped (numbered_result r n late)"
    using bound_loop_outcome [of env limit "numbered_result r n late"] assms by simp
  from arg_cong [OF this, of gv_RevisionHash] arg_cong [OF this, of gv_Window] show ?thesis
    by (simp add: stripped_def numbered_result_def)
qed

lemma committed_returned:
  assumes longest: "\<And>n. n \<in> {1..int (length db) + 1} \<Longrightarrow> probe_longest (ge_audit env) n"
    and copy: "\<And>tx r. audit_Run (ge_audit env) (source_Snapshot (q tx) (ge_audit env)) request = Some (Inr r) \<Longrightarrow>
      copies_exactly (ge_audit env) (length db) r"
    and ok: "history_ok db" and run: "audit_transaction env q request tx db = Inr (canonical, db')"
  shows "prefix db db' \<and> (\<exists>b row. BoundResult (ge_audit env) canonical = Inr b \<and>
    map_of db' (Revision_Key (audit_revision_id env b)) = Some (Revision_Row row) \<and>
    rv_number row = aw_Revision (gv_Window b))"
proof -
  obtain r b where r: "audit_Run (ge_audit env) (source_Snapshot (q tx) (ge_audit env)) request = Some (Inr r)"
    and probe: "BoundResult (ge_audit env) (audit_probe r) = Inr b"
    and store: "persistAuditProject env tx request r db = Inr (canonical, db')"
    using run by (rule audit_transaction_Inr)
  obtain n late where canonical: "canonical = numbered_result r n late" and n: "n \<in> {1..int (length db) + 1}"
    using persisted_form [OF ok store] by blast
  obtain encoded where enc: "au_marshal (ge_audit env) (audit_probe r) = Some encoded"
    using BoundResult_encodes [OF probe] by blast
  obtain encoded' where enc': "au_marshal (ge_audit env) (numbered_result r n late) = Some encoded'"
    using longest [OF n] enc by (rule probe_longestD)
  have loops: "BoundResult (ge_audit env) (audit_probe r) = bound_loop (ge_audit env) MaxResultBytes (audit_probe r)"
    "BoundResult (ge_audit env) canonical = bound_loop (ge_audit env) MaxResultBytes (numbered_result r n late)"
    using copies_exactlyD [OF copy [OF r] disjI1 [OF refl] enc [unfolded audit_probe_eq]]
      copies_exactlyD [OF copy [OF r] disjI2 [OF n] enc']
    unfolding BoundResult_def audit_probe_eq canonical by (simp_all add: boundResult_copy)
  obtain c where c: "bound_loop (ge_audit env) MaxResultBytes (numbered_result r n late) = Inr c"
    using bound_loop_probe [OF longest [OF n]] probe loops(1) by metis
  have kept: "gv_RevisionHash c = gv_RevisionHash r" "aw_Revision (gv_Window c) = n"
    using bound_loop_kept [OF c] by auto
  obtain row where "map_of db' (Revision_Key (audit_revision_id env r)) = Some (Revision_Row row)" "rv_number row = n"
    using persist_history(3) [OF ok store] canonical by auto
  then show ?thesis
    using persist_history(2) [OF ok store] loops(2) c kept by (auto simp: audit_revision_id_def)
qed

text \<open>C30: What a project audit has committed it can return. After any sequence of earlier audits, a call
  that fails, before, in or after its transaction, has changed no table; a call that succeeds has only
  appended rows, and the result it returns fits the output budget and carries the number of the stored
  revision its hash names. In particular the bounding of the result after the commit never fails: the
  probe bounded before the commit shows that the numbered result can be bounded too. The theorem assumes
  of the JSON coder that a result that can be encoded with the largest number can be encoded with the
  numbers the next revision may have and is then no longer, and that those numbered results of this
  request's runs that can be encoded are decoded to themselves; results that cannot be encoded are
  covered. A commit the database reports as failed counts as rolled back.\<close>

theorem audit_project_all_or_nothing:
  assumes "\<And>n. n \<in> {1..int (length (audit_history attempts)) + 1} \<Longrightarrow> probe_longest (ge_audit env) n"
    and "\<And>tx r. audit_Run (ge_audit env) (source_Snapshot (q tx) (ge_audit env)) request = Some (Inr r) \<Longrightarrow>
      copies_exactly (ge_audit env) (length (audit_history attempts)) r"
  shows "case AuditProject env q conn txs request (audit_history attempts) of
      (Inl e, db, _) \<Rightarrow> db = audit_history attempts
    | (Inr b, db, _) \<Rightarrow> prefix (audit_history attempts) db \<and> encodes_within (ge_audit env) MaxResultBytes b \<and>
        (case map_of db (Revision_Key (batch_uuid env (''audit-revision:'' @ gv_RevisionHash b))) of
           Some (Revision_Row row) \<Rightarrow> rv_number row = aw_Revision (gv_Window b)
         | _ \<Rightarrow> False)"
proof -
  let ?db = "audit_history attempts"
  obtain outcome db where run: "withSerializable (audit_transaction env q request) txs 1 maxTransactionAttempts ?db = (outcome, db)"
    by fastforce
  show ?thesis
  proof (cases outcome)
    case (Inl e)
    then have "db = ?db"
      using withSerializable_cases [OF run] by auto
    then show ?thesis
      using Inl run by (auto simp: AuditProject_def split: option.splits)
  next
    case (Inr canonical)
    then obtain tx where "audit_transaction env q request tx ?db = Inr (canonical, db)"
      using withSerializable_cases [OF run] by auto
    then have "prefix ?db db \<and> (\<exists>b row. BoundResult (ge_audit env) canonical = Inr b \<and>
        map_of db (Revision_Key (audit_revision_id env b)) = Some (Revision_Row row) \<and>
        rv_number row = aw_Revision (gv_Window b))"
      using committed_returned [where env = env and db = ?db and q = q and request = request, OF assms(1) _ audit_history_ok] assms(2) by blast
    then obtain b row where b: "prefix ?db db" "BoundResult (ge_audit env) canonical = Inr b"
      "map_of db (Revision_Key (audit_revision_id env b)) = Some (Revision_Row row)" "rv_number row = aw_Revision (gv_Window b)"
      by blast
    have "encodes_within (ge_audit env) MaxResultBytes b"
      using b(2) by (rule BoundResult_fits)
    then show ?thesis
      using Inr run b by (auto simp: AuditProject_def audit_revision_id_def split: option.splits)
  qed
qed

text \<open>A concrete JSON coder for the results of one run.\<close>

definition sample_coder :: "governance_result \<Rightarrow> audit_env" where
  "sample_coder r = sample_audit_env\<lparr>
     au_marshal := (\<lambda>x. Some [if aw_Revision (gv_Window x) = 1 then CHR ''1'' else CHR ''m'',
                            if aw_LateEvidence (gv_Window x) then CHR ''t'' else CHR ''f'']),
     au_unmarshal := (\<lambda>t. Some (numbered_result r (if take 1 t = ''1'' then 1 else max_int64) (drop 1 t = ''t''))) \<rparr>"

definition sample_gov_env :: "governance_result \<Rightarrow> gov_env" where
  "sample_gov_env r = \<lparr> ge_audit = sample_coder r, ge_format = (\<lambda>_. ''''), ge_marshal_definition = (\<lambda>d. Some (df_Name d)),
     ge_marshal_value = (\<lambda>_. Some ''''), ge_marshal_run = (\<lambda>_. Some ''''), ge_md5_uuid = (\<lambda>v. v),
     ge_policy = (\<lambda>_ _. None), ge_artifact_exists = (\<lambda>_. True), ge_scope_evidence = (\<lambda>_. [''e1'']),
     ge_lineage = (\<lambda>_. [''p1'']) \<rparr>"

lemma sample_coder_run:
  "audit_Run (sample_coder r) (source_Snapshot q (sample_coder r)) request =
     audit_Run sample_audit_env (source_Snapshot q sample_audit_env) request"
proof -
  have same: "au_sha256 (sample_coder r) = au_sha256 sample_audit_env"
    "evidenceRevision (sample_coder r) = evidenceRevision sample_audit_env"
    by (auto simp: fun_eq_iff evidenceRevision_def sample_coder_def)
  have "assemble_snapshot (sample_coder r) = assemble_snapshot sample_audit_env"
    by (intro ext) (simp only: assemble_snapshot_def same)
  then have snapshot: "source_Snapshot q (sample_coder r) = source_Snapshot q sample_audit_env"
    by (intro ext) (simp only: source_Snapshot_def same)
  have parts: "audit_recommendations (sample_coder r) = audit_recommendations sample_audit_env"
    "audit_hash (sample_coder r) = audit_hash sample_audit_env"
    by (intro ext; simp add: audit_recommendations_def findingEvidenceRevisions_def audit_hash_def sample_coder_def)+
  show ?thesis
    by (simp only: audit_Run_def snapshot parts)
qed

text \<open>With a database that rejects nothing, the audit is stored and returned.\<close>

abbreviation quiet_tx :: tx_env where
  "quiet_tx \<equiv> \<lparr> tx_check_time = 0, tx_write_time = 0, tx_size_before = 0, tx_size_after = 0, tx_begin_error = None,
     tx_commit_error = None, tx_statement = (\<lambda>_ _. None) \<rparr>"

abbreviation open_conn :: audit_conn where
  "open_conn \<equiv> \<lparr> an_acquire_error = None, an_lock_error = None, an_unlocked = Some True \<rparr>"

lemma quiet_statement [simp]: "statement quiet_tx op rid = Inr ()"
  by (simp add: statement_def)

lemma quiet_insert:
  "plain_row kr \<Longrightarrow> insert_row quiet_tx op kr db = Inr (if map_of db (fst kr) = None then db @ [kr] else db)"
  by (cases kr rule: plain_row.cases) (simp_all add: insert_row_def violates_unique_def)

lemma fold_succeeds: "(\<And>x db. \<exists>db'. f x db = Inr db') \<Longrightarrow> \<exists>db'. fold_result f xs db = Inr db'"
proof (induction xs arbitrary: db)
  case (Cons x xs)
  then obtain db1 where "f x db = Inr db1"
    by blast
  then show ?case
    using Cons by simp
qed simp

lemma quiet_inserts: "list_all plain_row krs \<Longrightarrow> \<exists>db'. insert_rows quiet_tx op krs db = Inr db'"
  unfolding insert_rows_def by (induction krs arbitrary: db) (auto simp: quiet_insert)

lemma quiet_links: "kind \<noteq> ''audit_revision'' \<Longrightarrow> \<exists>db'. persistEvidenceLinks env quiet_tx rid kind target refs t db = Inr db'"
proof -
  let ?krs = "map (\<lambda>ref. (Link_Key (batch_uuid env (rid @ '':'' @ kind @ '':'' @ target @ '':'' @ ref)), Link_Row ref kind target t))
      (filter (ge_artifact_exists env) refs)"
  have "list_all plain_row ?krs"
    by (simp add: list_all_iff)
  from quiet_inserts [OF this] show ?thesis
    by (cases "refs = []") (simp_all add: persistEvidenceLinks_def insert_rows_def)
qed

text \<open>Every stored definition has the digest its registry entry would be stored with.\<close>

definition definitions_ok :: "gov_env \<Rightarrow> gov_db \<Rightarrow> bool" where
  "definitions_ok env db \<longleftrightarrow> (\<forall>n v row. map_of db (Definition_Key n v) = Some row \<longrightarrow>
     (\<exists>i. row = Definition_Row i (au_sha256 (ge_audit env) n)))"

lemma quiet_definition:
  assumes "definitions_ok env db" "ge_marshal_definition env = (\<lambda>d. Some (df_Name d))"
  shows "\<exists>db'. persist_definition env quiet_tx d db = Inr db' \<and> definitions_ok env db'"
proof (cases "map_of db (Definition_Key (df_Name d) (df_Version d))")
  case None
  then show ?thesis
    using assms by (auto simp: persist_definition_def Let_def quiet_insert definitions_ok_def map_of_append map_add_def split: option.splits)
next
  case (Some row)
  then obtain i where "row = Definition_Row i (au_sha256 (ge_audit env) (df_Name d))"
    using assms(1) unfolding definitions_ok_def by blast
  then show ?thesis
    using assms Some by (simp add: persist_definition_def Let_def quiet_insert)
qed

lemma quiet_definitions:
  assumes "definitions_ok env db" "ge_marshal_definition env = (\<lambda>d. Some (df_Name d))"
  shows "\<exists>db'. fold_result (persist_definition env quiet_tx) ds db = Inr db' \<and> definitions_ok env db'"
  using assms(1)
proof (induction ds arbitrary: db)
  case (Cons d ds)
  then show ?case
    using quiet_definition [OF Cons.prems assms(2), of d] by auto
qed simp

lemma hex_value_digit: "n < 16 \<Longrightarrow> hex_value (hex_digit n) = Some n"
  by (auto simp: hex_value_def hex_digit_def)

lemma hex_decode_encode: "hex_decode (hex_encode s) = Some s"
proof (induction s)
  case (Cons c s)
  have "byte c < 256"
    by simp
  then have "byte c div 16 < 16"
    by linarith
  then show ?case
    using Cons by (simp add: hex_encode_def hex_value_digit)
qed (simp add: hex_encode_def)

lemma sample_persist:
  assumes hash: "gv_RevisionHash r = hex_encode ''0123456789abcdef0123456789abcdef''"
  shows "\<exists>p. persistAuditProject (sample_gov_env r) quiet_tx sample_task r [] = Inr p"
proof -
  let ?env = "sample_gov_env r"
  define w where "w = batch_uuid ?env (auditWindowKey ?env sample_task)"
  define i where "i = batch_uuid ?env (''audit-revision:'' @ gv_RevisionHash r)"
  have decode: "decodeAuditRevisionHash (gv_RevisionHash r) = Inr ''0123456789abcdef0123456789abcdef''"
    unfolding hash by (simp add: decodeAuditRevisionHash_def hex_decode_encode)
  have project: "projectIDForAudit ?env quiet_tx sample_task = Inr (Some ''p1'')"
    by (simp add: projectIDForAudit_def auditFilter_def sample_gov_env_def)
  obtain db1 where db1: "insert_row quiet_tx ''persist project audit window''
     (Window_Key w, Window_Row \<lparr> wr_project = Some ''p1'', wr_kind = ''task'', wr_starts = 1000, wr_ends = 2000, wr_as_of = 2000,
        wr_policy = None \<rparr>) [] = Inr db1" "revision_rows w db1 = []" "map_of db1 (Revision_Key i) = None" "definitions_ok ?env db1"
    by (simp add: quiet_insert revision_rows_def List.map_filter_def definitions_ok_def)
  then have number: "revision_identity i w db1 = (1, None)"
    by (simp add: revision_identity_def)
  let ?row = "\<lparr> rv_window = w, rv_number = 1, rv_as_of = 2000, rv_coverage = gv_Coverage r,
      rv_hash = ''0123456789abcdef0123456789abcdef'', rv_prior = None, rv_engine = EngineVersion \<rparr>"
  obtain db2 where db2: "insert_row quiet_tx ''persist project audit revision'' (Revision_Key i, Revision_Row ?row) db1 = Inr db2"
    "definitions_ok ?env db2"
    using db1 by (auto simp: insert_row_def violates_unique_def definitions_ok_def map_of_append map_add_def split: option.splits)
  obtain db3 where db3: "persistMetricDefinitions ?env quiet_tx db2 = Inr db3"
    using quiet_definitions [OF db2(2)] by (auto simp: persistMetricDefinitions_def sample_gov_env_def)
  obtain db4 where db4: "persistRevisionEvidence ?env quiet_tx i sample_task db3 = Inr db4"
    using quiet_inserts [of "map (revision_link ?env i 2000) (ge_scope_evidence ?env sample_task)"]
    by (auto simp: persistRevisionEvidence_def auditFilter_def revision_link_def list_all_iff)
  obtain eid db5 where db5: "persistEvaluationRun ?env quiet_tx i sample_task (numbered_result r 1 False) db4 = Inr (eid, db5)"
    by (simp add: persistEvaluationRun_def evaluation_run_def NewRun_def eval_digest_def sample_gov_env_def quiet_insert Let_def)
  have metric: "\<exists>db'. persistMetricResult ?env quiet_tx i eid 2000 m db = Inr db'" for m db
    by (simp add: persistMetricResult_def quiet_insert quiet_links Let_def)
  have confounder: "\<exists>db'. persist_confounder ?env quiet_tx i 2000 m db = Inr db'" for m db
    by (simp add: persist_confounder_def quiet_insert)
  have finding: "\<exists>db'. persist_finding ?env quiet_tx i 2000 m db = Inr db'" for m db
    by (simp add: persist_finding_def quiet_insert quiet_links Let_def)
  have recommendation: "\<exists>db'. persist_recommendation ?env quiet_tx i project codes 2000 m db = Inr db'" for project codes m db
    by (simp add: persist_recommendation_def quiet_insert Let_def)
  obtain db6 where db6: "fold_result (persistMetricResult ?env quiet_tx i eid 2000) (gv_Metrics r) db5 = Inr db6"
    using fold_succeeds [of "persistMetricResult ?env quiet_tx i eid 2000", OF metric] by blast
  obtain db7 where db7: "fold_result (persist_confounder ?env quiet_tx i 2000) (gv_Confounders r) db6 = Inr db7"
    using fold_succeeds [of "persist_confounder ?env quiet_tx i 2000", OF confounder] by blast
  obtain db8 where db8: "fold_result (persist_finding ?env quiet_tx i 2000) (gv_Findings r) db7 = Inr db8"
    using fold_succeeds [of "persist_finding ?env quiet_tx i 2000", OF finding] by blast
  obtain db9 where db9: "fold_result (persist_recommendation ?env quiet_tx i (Some ''p1'') (map fd_Code (gv_Findings r)) 2000)
      (gv_Recommendations r) db8 = Inr db9"
    using fold_succeeds [of "persist_recommendation ?env quiet_tx i (Some ''p1'') (map fd_Code (gv_Findings r)) 2000", OF recommendation] by blast
  have policy: "ge_policy ?env project t = None" for project t
    by (simp add: sample_gov_env_def)
  show ?thesis
    unfolding persistAuditProject_def Let_def w_def [symmetric] i_def [symmetric]
    using decode project db1(1) number db2(1) db3 db4 db5 [unfolded numbered_result_def] db6 db7 db8 db9
    by (simp add: policy hasNewRevisionEvidence_def)
qed

lemma numbered_late [simp]: "aw_LateEvidence (gv_Window (numbered_result r n late)) = late"
  by (simp add: numbered_result_def)

lemma sample_numbered:
  "BoundResult (sample_coder r) (numbered_result r n late) = Inr (numbered_result r (if n = 1 then 1 else max_int64) late)"
  by (simp add: BoundResult_def boundResult_def bound_loop.simps sample_coder_def MaxResultBytes_def)

lemma sample_copies: "copies_exactly (sample_coder r) 0 r"
  by (auto simp: copies_exactly_def sample_coder_def numbered_result_def max_int64_def)

lemma sample_request_copies:
  assumes "audit_Run sample_audit_env (source_Snapshot sample_queries sample_audit_env) sample_task = Some (Inr r)"
    and "audit_Run (ge_audit (sample_gov_env r)) (source_Snapshot sample_queries (ge_audit (sample_gov_env r))) sample_task = Some (Inr s)"
  shows "copies_exactly (ge_audit (sample_gov_env r)) (length (audit_history [])) s"
proof -
  have env: "ge_audit (sample_gov_env r) = sample_coder r"
    by (simp add: sample_gov_env_def)
  have "s = r"
    using assms by (simp add: env sample_coder_run)
  then show ?thesis
    by (simp add: env sample_copies audit_history_def)
qed

lemma sample_audit_project:
  assumes "audit_Run sample_audit_env (source_Snapshot sample_queries sample_audit_env) sample_task = Some (Inr r)"
  shows "\<exists>b db fate. AuditProject (sample_gov_env r) (\<lambda>_. sample_queries) open_conn (\<lambda>_. quiet_tx) sample_task (audit_history []) =
    (Inr b, db, fate)"
proof -
  have env: "ge_audit (sample_gov_env r) = sample_coder r"
    by (simp add: sample_gov_env_def)
  obtain p db where p: "persistAuditProject (sample_gov_env r) quiet_tx sample_task r [] = Inr (p, db)"
    using sample_persist [OF sample_revision_hash [OF assms]] by auto
  have "history_ok []"
    using audit_history_ok [of "[]"] by (simp add: audit_history_def)
  then obtain n late where canonical: "p = numbered_result r n late"
    using persisted_form [OF _ p] by blast
  have probe: "\<exists>b. BoundResult (sample_coder r) (audit_probe r) = Inr b"
    by (simp add: audit_probe_eq sample_numbered)
  then have "audit_transaction (sample_gov_env r) (\<lambda>_. sample_queries) sample_task quiet_tx [] = Inr (p, db)"
    using assms p by (auto simp: audit_transaction_def env sample_coder_run)
  then have "withSerializable (audit_transaction (sample_gov_env r) (\<lambda>_. sample_queries) sample_task) (\<lambda>_. quiet_tx) 1
      maxTransactionAttempts [] = (Inr p, db)"
    by (simp add: maxTransactionAttempts_def numeral_3_eq_3)
  then show ?thesis
    by (simp add: AuditProject_def audit_history_def env canonical sample_numbered)
qed

theorem audit_project_all_or_nothing_witness:
  "\<exists>r b db fate. audit_Run sample_audit_env (source_Snapshot sample_queries sample_audit_env) sample_task = Some (Inr r) \<and>
     AuditProject (sample_gov_env r) (\<lambda>_. sample_queries) open_conn (\<lambda>_. quiet_tx) sample_task (audit_history []) =
       (Inr b, db, fate) \<and>
     encodes_within (sample_coder r) MaxResultBytes b \<and> db \<noteq> []"
proof -
  obtain r where r: "audit_Run sample_audit_env (source_Snapshot sample_queries sample_audit_env) sample_task = Some (Inr r)"
    using sample_audit_runs by blast
  obtain b db fate where run: "AuditProject (sample_gov_env r) (\<lambda>_. sample_queries) open_conn (\<lambda>_. quiet_tx) sample_task
      (audit_history []) = (Inr b, db, fate)"
    using sample_audit_project [OF r] by blast
  let ?e = "ge_audit (sample_gov_env r)"
  have e: "?e = sample_coder r"
    by (simp add: sample_gov_env_def)
  have longest: "probe_longest ?e n" for n
    by (simp add: e sample_coder_def probe_longest_def)
  from audit_project_all_or_nothing [where env = "sample_gov_env r" and q = "\<lambda>_. sample_queries" and request = sample_task
      and attempts = "[]" and conn = open_conn and txs = "\<lambda>_. quiet_tx", OF longest sample_request_copies [OF r]]
  show ?thesis
    using r run by (auto simp: e audit_history_def split: option.splits)
qed

end
