(* ===== verification/Report_Text.thy ===== *)
theory Report_Text
  imports Go_Regexp
begin

text \<open>
  Sanitising of display text (\<open>internal/report/render.go\<close>). After \<open>strings.ToValidUTF8\<close> a text is its
  list of runes; the replacers and trims are functions on that list, encoded again at the end.
\<close>

section \<open>Model\<close>

definition utf8 :: "nat list \<Rightarrow> string" where
  "utf8 rs = concat (map encode_rune rs)"

text \<open>The runes of \<open>strings.ToValidUTF8\<close>: a run of invalid bytes is one replacement rune.\<close>

function to_valid_runes :: "bool \<Rightarrow> string \<Rightarrow> nat list" where
  "to_valid_runes invalid s =
     (if s = [] then []
      else if decode_rune s = (rune_error, 1)
        then (if invalid then [] else [rune_error]) @ to_valid_runes True (drop 1 s)
      else fst (decode_rune s) # to_valid_runes False (drop (snd (decode_rune s)) s))"
  by pat_completeness auto
termination
  by (relation "measure (\<lambda>(invalid, s). length s)") (auto dest: decode_rune_progress)

declare to_valid_runes.simps [simp del]

definition bidi_control :: "nat \<Rightarrow> bool" where
  "bidi_control r \<longleftrightarrow> r \<in> {8234, 8235, 8237, 8238, 8294, 8295, 8296, 8297}"

text \<open>The loop of \<open>clean\<close>: whether a space is due and whether something has been written.\<close>

fun clean_loop :: "bool \<Rightarrow> bool \<Rightarrow> nat list \<Rightarrow> nat list" where
  "clean_loop space started [] = []"
| "clean_loop space started (r # rs) =
     (if is_control r \<or> bidi_control r then clean_loop True started rs
      else if is_space r then clean_loop True started rs
      else (if space \<and> started then [32] else []) @ r # clean_loop (space \<and> \<not> started) True rs)"

definition trim_runes :: "nat list \<Rightarrow> nat list" where
  "trim_runes rs = rev (dropWhile is_space (rev (dropWhile is_space rs)))"

definition angle_rune :: "nat \<Rightarrow> nat" where
  "angle_rune r = (if r = 60 then 8249 else if r = 62 then 8250 else r)"

fun double_colons :: "nat list \<Rightarrow> nat list" where
  "double_colons (a # b # rs) =
     (if a = 58 \<and> b = 58 then 8758 # 8758 # double_colons rs else a # double_colons (b # rs))"
| "double_colons rs = rs"

definition activeLink :: regex where
  "activeLink =
     RAlt (rx_seq [RBound,
            rx_alt [rx_seq [rx_fold ''http'', rx_opt (rx_fold ''s'')], rx_fold ''ftp'', rx_fold ''mailto'',
                    rx_fold ''javascript'', rx_fold ''data'', rx_fold ''file''],
            rx_lit '':''])
          (rx_seq [RBound, rx_fold ''www'', rx_lit ''.''])"

text \<open>\<open>regexp.ReplaceAllStringFunc\<close> for a pattern whose matches are not empty.\<close>

function rx_replace :: "regex \<Rightarrow> (nat list \<Rightarrow> nat list) \<Rightarrow> nat list \<Rightarrow> nat \<Rightarrow> nat list" where
  "rx_replace r f s i =
     (if length s \<le> i then []
      else case rx_ends r s i of
          [] \<Rightarrow> s ! i # rx_replace r f s (Suc i)
        | e # _ \<Rightarrow> if e \<le> i then s ! i # rx_replace r f s (Suc i)
                   else f (take (e - i) (drop i s)) @ rx_replace r f s e)"
  by pat_completeness auto
termination
  by (relation "measure (\<lambda>(r, f, s, i). length s - i)") auto

declare rx_replace.simps [simp del]

definition neutral_match :: "nat list \<Rightarrow> nat list" where
  "neutral_match m =
     (if list_all2 (\<lambda>r c. fold_class c r) m ''www.'' then map byte ''www'' @ [8758]
      else (if m \<noteq> [] \<and> last m = 58 then butlast m else m) @ [8758])"

definition neutralizeSchemes :: "nat list \<Rightarrow> nat list" where
  "neutralizeSchemes rs = rx_replace activeLink neutral_match rs 0"

definition clean_runes :: "string \<Rightarrow> nat list" where
  "clean_runes v =
     neutralizeSchemes (double_colons (map angle_rune (trim_runes (clean_loop False False (to_valid_runes False v)))))"

definition clean :: "string \<Rightarrow> string" where
  "clean v = utf8 (clean_runes v)"

definition md_byte :: "char \<Rightarrow> string" where
  "md_byte c =
     (if c \<in> set (CHR 0x5C # ''|`*_[]()'') then [CHR 0x5C, c]
      else if c = CHR ''<'' then ''&lt;'' else if c = CHR ''>'' then ''&gt;'' else [c])"

definition md :: "string \<Rightarrow> string" where
  "md v = concat (map md_byte (clean v))"

definition cell :: "string \<Rightarrow> string" where
  "cell v =
     (let rs = runes (md v) in
      if length rs \<le> 28 then utf8 rs else utf8 (take 27 rs) @ utf8 [8230])"

section \<open>Wrapping\<close>

fun cut_from :: "nat list \<Rightarrow> nat \<Rightarrow> nat \<Rightarrow> nat" where
  "cut_from rs half 0 = 0"
| "cut_from rs half (Suc c) = (if half < Suc c \<and> rs ! Suc c \<noteq> 32 then cut_from rs half c else Suc c)"

definition wrap_cut :: "nat \<Rightarrow> nat list \<Rightarrow> nat" where
  "wrap_cut width rs =
     (let cut = cut_from rs (width div 2) width in if cut = width div 2 then width else cut)"

lemma cut_from_bounds: "cut_from rs half c \<le> c \<and> min half c \<le> cut_from rs half c"
  by (induction rs half c rule: cut_from.induct) auto

lemma wrap_cut_bounds: "0 < width \<Longrightarrow> 0 < wrap_cut width rs \<and> wrap_cut width rs \<le> width"
  using cut_from_bounds [of rs "width div 2" width] by (auto simp: wrap_cut_def Let_def)

lemma trim_runes_length: "length (trim_runes rs) \<le> length rs"
  unfolding trim_runes_def by (metis length_dropWhile_le length_rev order_trans)

function wrap_runes :: "nat \<Rightarrow> nat list \<Rightarrow> nat list list" where
  "wrap_runes width rs =
     (if 0 < width \<and> width < length rs
      then trim_runes (take (wrap_cut width rs) rs) # wrap_runes width (trim_runes (drop (wrap_cut width rs) rs))
      else if rs = [] then [] else [rs])"
  by pat_completeness auto
termination
proof (relation "measure (\<lambda>(width, rs). length rs)", simp, clarify)
  fix width and rs :: "nat list"
  assume "0 < width" "width < length rs"
  then have "length (drop (wrap_cut width rs) rs) < length rs"
    using wrap_cut_bounds [of width rs] by auto
  then show "((width, trim_runes (drop (wrap_cut width rs) rs)), width, rs) \<in> measure (\<lambda>(width, rs). length rs)"
    using trim_runes_length [of "drop (wrap_cut width rs) rs"] by simp
qed

declare wrap_runes.simps [simp del]

definition wrap_line :: "nat \<Rightarrow> string \<Rightarrow> string list" where
  "wrap_line width line =
     (if length (runes line) \<le> width then (if line = [] then [] else [line])
      else map utf8 (wrap_runes width (runes line)))"

definition wrapText :: "string \<Rightarrow> nat \<Rightarrow> string" where
  "wrapText v width =
     (let out = concat (map (\<lambda>l. l @ [LF]) (concat (map (wrap_line width) (split_on LF v))))
      in if out \<noteq> [] \<and> last out = LF then butlast out else out)"

section \<open>Encoding\<close>

definition scalar :: "nat \<Rightarrow> bool" where
  "scalar r \<longleftrightarrow> r < 55296 \<or> 57343 < r \<and> r \<le> 1114111"

lemma byte_char_of: "n < 256 \<Longrightarrow> byte (char_of n) = n"
  by simp

lemma split64: "(r::nat) = r div 64 * 64 + r mod 64"
  by simp

lemma div64: "(r::nat) div 64 div 64 = r div 4096" "r div 4096 div 64 = r div 262144"
  by (simp_all flip: div_mult2_eq)

lemma split_bits: "(r::nat) div 4096 * 4096 + r div 64 mod 64 * 64 + r mod 64 = r"
  using split64 [of r] split64 [of "r div 64"] unfolding div64 by linarith

lemma decode_encode2:
  assumes "128 \<le> r" "r < 2048"
  shows "decode_rune (encode_rune r @ t) = (r, 2)"
proof -
  define c1 c2 where "c1 = (char_of (192 + r div 64) :: char)" and "c2 = (char_of (128 + r mod 64) :: char)"
  have bounds: "192 + r div 64 < 224" "194 \<le> 192 + r div 64"
    using assms by auto
  then have b: "byte c1 = 192 + r div 64" "byte c2 = 128 + r mod 64"
    unfolding c1_def c2_def by (auto intro!: byte_char_of)
  have "encode_rune r = [c1, c2]"
    using assms by (simp add: encode_rune_def c1_def c2_def)
  moreover have "decode_rune (c1 # c2 # t) = decode2 (byte c1) (c2 # t)"
    using b bounds by (simp add: Let_def)
  moreover have "decode2 (byte c1) (c2 # t) = (r, 2)"
    by (simp add: decode2_def cont_in_def b less_imp_le_nat)
  ultimately show ?thesis
    by simp
qed

lemma decode_encode3:
  assumes "2048 \<le> r" "r < 65536" "scalar r"
  shows "decode_rune (encode_rune r @ t) = (r, 3)"
proof -
  define a b c where "a = r div 4096" and "b = r div 64 mod 64" and "c = r mod 64"
  define c1 c2 c3 where "c1 = (char_of (224 + a) :: char)" and "c2 = (char_of (128 + b) :: char)"
    and "c3 = (char_of (128 + c) :: char)"
  have r: "a * 4096 + b * 64 + c = r"
    unfolding a_def b_def c_def using split_bits [of r] by simp
  have bounds: "a < 16" "b < 64" "c < 64"
    using assms unfolding a_def b_def c_def by auto
  then have bytes: "byte c1 = 224 + a" "byte c2 = 128 + b" "byte c3 = 128 + c"
    unfolding c1_def c2_def c3_def by (auto intro!: byte_char_of)
  have low: "a = 0 \<Longrightarrow> 32 \<le> b"
    using assms(1) r bounds by auto
  have high: "a = 13 \<Longrightarrow> b < 32"
    using assms(3) r bounds unfolding scalar_def by auto
  have "encode_rune r = [c1, c2, c3]"
    using assms by (auto simp: encode_rune_def c1_def c2_def c3_def a_def b_def c_def scalar_def)
  moreover have "decode_rune (c1 # c2 # c3 # t) = (r, 3)"
  proof -
    have d: "decode3 lo hi (byte c1) (c2 # c3 # t) = (r, 3)" if "lo \<le> 128 + b" "128 + b \<le> hi" for lo hi
      using that bounds r by (simp add: decode3_def cont_in_def bytes less_imp_le_nat)
    consider "a = 0" | "a = 13" | "a \<noteq> 0 \<and> a \<noteq> 13"
      by blast
    then show ?thesis
    proof cases
      case 1
      then show ?thesis
        using d [of 160 191] low bounds by (simp add: Let_def bytes)
    next
      case 2
      then show ?thesis
        using d [of 128 159] high by (simp add: Let_def bytes)
    next
      case 3
      then show ?thesis
        using d [of 128 191] bounds by (simp add: Let_def bytes)
    qed
  qed
  ultimately show ?thesis
    by simp
qed

lemma decode_encode4:
  assumes "65536 \<le> r" "r \<le> 1114111"
  shows "decode_rune (encode_rune r @ t) = (r, 4)"
proof -
  define a b c d where "a = r div 262144" and "b = r div 4096 mod 64" and "c = r div 64 mod 64" and "d = r mod 64"
  define c1 c2 c3 c4 where "c1 = (char_of (240 + a) :: char)" and "c2 = (char_of (128 + b) :: char)"
    and "c3 = (char_of (128 + c) :: char)" and "c4 = (char_of (128 + d) :: char)"
  have r: "a * 262144 + b * 4096 + c * 64 + d = r"
    unfolding a_def b_def c_def d_def using split_bits [of r] split64 [of "r div 4096"] unfolding div64 by linarith
  have bounds: "a \<le> 4" "b < 64" "c < 64" "d < 64"
    using assms unfolding a_def b_def c_def d_def by auto
  then have bytes: "byte c1 = 240 + a" "byte c2 = 128 + b" "byte c3 = 128 + c" "byte c4 = 128 + d"
    unfolding c1_def c2_def c3_def c4_def by (auto intro!: byte_char_of)
  have low: "a = 0 \<Longrightarrow> 16 \<le> b"
    using assms(1) r bounds by auto
  have high: "a = 4 \<Longrightarrow> b < 16"
    using assms(2) r bounds by auto
  have "encode_rune r = [c1, c2, c3, c4]"
    using assms by (simp add: encode_rune_def c1_def c2_def c3_def c4_def a_def b_def c_def d_def)
  moreover have "decode_rune (c1 # c2 # c3 # c4 # t) = (r, 4)"
  proof -
    have dec: "decode4 lo hi (byte c1) (c2 # c3 # c4 # t) = (r, 4)" if "lo \<le> 128 + b" "128 + b \<le> hi" for lo hi
      using that bounds r by (simp add: decode4_def cont_in_def bytes less_imp_le_nat)
    consider "a = 0" | "a = 4" | "0 < a \<and> a < 4"
      using bounds by linarith
    then show ?thesis
    proof cases
      case 1
      then show ?thesis
        using dec [of 144 191] low bounds by (simp add: Let_def bytes)
    next
      case 2
      then show ?thesis
        using dec [of 128 143] high by (simp add: Let_def bytes)
    next
      case 3
      then show ?thesis
        using dec [of 128 191] bounds by (simp add: Let_def bytes)
    qed
  qed
  ultimately show ?thesis
    by simp
qed

lemma decode_encode:
  assumes "scalar r"
  shows "decode_rune (encode_rune r @ t) = (r, length (encode_rune r))"
proof -
  consider "r < 128" | "128 \<le> r" "r < 2048" | "2048 \<le> r" "r < 65536" | "65536 \<le> r" "r \<le> 1114111"
    using assms unfolding scalar_def by linarith
  then show ?thesis
  proof cases
    case 1
    then show ?thesis
      by (simp add: encode_rune_def)
  next
    case 2
    then show ?thesis
      using decode_encode2 [of r t] by (simp add: encode_rune_def)
  next
    case 3
    then show ?thesis
      using decode_encode3 [OF 3 assms, of t] assms by (auto simp: encode_rune_def scalar_def)
  next
    case 4
    then show ?thesis
      using decode_encode4 [OF 4, of t] by (simp add: encode_rune_def)
  qed
qed

lemma encode_rune_ne_Nil [simp]: "encode_rune r \<noteq> []"
  by (simp add: encode_rune_def)

lemma runes_utf8: "list_all scalar rs \<Longrightarrow> runes (utf8 rs) = rs"
proof (induction rs)
  case (Cons r rs)
  then show ?case
    using runes.simps [of "utf8 (r # rs)"] decode_encode [of r "utf8 rs"] by (simp add: utf8_def)
qed (simp add: utf8_def)

end
