(* ===== verification/Report.thy ===== *)
theory Report
  imports Report_Text Audit_Types
begin

text \<open>
  The report renderer (\<open>internal/report/render.go\<close>): the display model of an audit result, its three
  renderings and the loop that omits entries until the encoded result fits. \<open>%.6g\<close>, the time format
  and the JSON coder are arguments.
\<close>

abbreviation ReportFormatChat :: string where "ReportFormatChat \<equiv> ''chat''"
abbreviation ReportFormatMarkdown :: string where "ReportFormatMarkdown \<equiv> ''markdown''"
abbreviation ReportFormatTable :: string where "ReportFormatTable \<equiv> ''table''"

definition report_MaxResultBytes :: nat where
  "report_MaxResultBytes = 50000"

definition em_dash :: string where
  "em_dash = utf8 [8212]"

definition show_int :: "int \<Rightarrow> string" where
  "show_int n = (if n < 0 then ''-'' @ show_nat (nat (- n)) else show_nat (nat n))"

definition show_bool :: "bool \<Rightarrow> string" where
  "show_bool b = (if b then ''true'' else ''false'')"

record report_env =
  re_number :: "f64 \<Rightarrow> string"
  re_time :: "go_time \<Rightarrow> string"

section \<open>The display model\<close>

record rcount =
  kc_Name :: string
  kc_Included :: int
  kc_Excluded :: string

record rsource =
  ks_Kind :: string
  ks_Version :: string
  ks_Freshness :: string
  ks_Coverage :: string
  ks_Redaction :: string
  ks_Knowledge :: string

record rmetric =
  km_Label :: string
  km_Name :: string
  km_Value :: string
  km_Numerator :: string
  km_Denominator :: string
  km_Previous :: string
  km_Median :: string
  km_Unit :: string
  km_Status :: string
  km_Reason :: string
  km_Coverage :: string
  km_Confidence :: string
  km_Uncertainty :: string
  km_Polarity :: string
  km_Exclusions :: string
  km_Sample :: int

record rcontribution =
  kn_Scope :: string
  kn_Class :: string
  kn_Numerator :: string
  kn_Denominator :: string
  kn_Value :: string
  kn_Coverage :: string
  kn_Attribution :: string

record rworkload =
  kw_Metric :: string
  kw_Volume :: string
  kw_Mix :: string
  kw_Within :: string
  kw_Residual :: string
  kw_Status :: string
  kw_Classes :: string

record rguardrail =
  kg_Name :: string
  kg_State :: string
  kg_Coverage :: string

record rfinding =
  kf_Code :: string
  kf_Classification :: string
  kf_Confidence :: string
  kf_Cause :: string
  kf_Detector :: string
  kf_Exception :: string
  kf_Counterevidence :: string

record rrecommendation =
  kr_Code :: string
  kr_Action :: string
  kr_Verification :: string
  kr_Lifecycle :: string
  kr_Impact :: string
  kr_Contract :: string
  kr_Scope :: string
  kr_EvidenceConfidence :: string
  kr_Rationale :: string
  kr_Target :: string
  kr_Guardrails :: string
  kr_Risks :: string
  kr_Approval :: string

record routlier =
  ko_Metric :: string
  ko_Value :: string
  ko_Unit :: string
  ko_Direction :: string
  ko_Magnitude :: string
  ko_Impact :: string
  ko_Scope :: string
  ko_Coverage :: string
  ko_Window :: string
  ko_Recommendation :: string

record rconfounder =
  kx_Kind :: string
  kx_State :: string
  kx_Confidence :: string

record rprovenance =
  kp_Field :: string
  kp_Knowledge :: string
  kp_Source :: string

record report_model =
  rl_Identity :: string
  rl_Scope :: string
  rl_Coverage :: string
  rl_QualityGate :: string
  rl_Revision :: string
  rl_AsOf :: string
  rl_Window :: string
  rl_Baseline :: string
  rl_Comparisons :: "string list"
  rl_Privacy :: string
  rl_Lineage :: string
  rl_Derivation :: string
  rl_UpstreamOmitted :: int
  rl_ScopeCounts :: "rcount list"
  rl_Sources :: "rsource list"
  rl_Metrics :: "rmetric list"
  rl_Contributions :: "rcontribution list"
  rl_Workload :: "rworkload list"
  rl_Guardrails :: "rguardrail list"
  rl_Overhead :: "rmetric list"
  rl_Findings :: "rfinding list"
  rl_Recommendations :: "rrecommendation list"
  rl_Outliers :: "routlier list"
  rl_Confounders :: "rconfounder list"
  rl_Provenance :: "rprovenance list"
  rl_initialOmissions :: "(string \<times> int) list"

section \<open>Fields\<close>

definition finiteNumber :: "report_env \<Rightarrow> f64 \<Rightarrow> string" where
  "finiteNumber env v = (if f64_IsNaN v \<or> f64_IsInf v then ''unknown'' else re_number env v)"

definition number :: "report_env \<Rightarrow> f64 option \<Rightarrow> string" where
  "number env v = (case v of None \<Rightarrow> ''unknown'' | Some x \<Rightarrow> finiteNumber env x)"

definition metric_label :: "rmetric \<Rightarrow> string" where
  "metric_label v = (if km_Label v \<noteq> '''' then km_Label v else km_Name v)"

definition known :: "string \<Rightarrow> string" where
  "known v = (if clean v = '''' then ''unknown'' else clean v)"

definition cleanList :: "string list \<Rightarrow> string" where
  "cleanList vs = (if vs = [] then ''none'' else clean (join '', '' (sort_strings vs)))"

definition optionalInt :: "int option \<Rightarrow> string" where
  "optionalInt v = (case v of None \<Rightarrow> ''unknown'' | Some n \<Rightarrow> show_int n)"

definition scopeCounts :: "report_scope_counts \<Rightarrow> rcount list" where
  "scopeCounts v =
     [\<lparr> kc_Name = ''trajectories'', kc_Included = rs_IncludedTrajectories v,
        kc_Excluded = optionalInt (rs_ExcludedTrajectories v) \<rparr>,
      \<lparr> kc_Name = ''turns'', kc_Included = rs_IncludedTurns v, kc_Excluded = optionalInt (rs_ExcludedTurns v) \<rparr>,
      \<lparr> kc_Name = ''tool calls'', kc_Included = rs_IncludedToolCalls v,
        kc_Excluded = optionalInt (rs_ExcludedToolCalls v) \<rparr>,
      \<lparr> kc_Name = ''evidence'', kc_Included = rs_IncludedEvidence v,
        kc_Excluded = optionalInt (rs_ExcludedEvidence v) \<rparr>]"

definition reportWindow :: "report_env \<Rightarrow> report_window \<Rightarrow> string" where
  "reportWindow env v =
     re_time env (rw_StartsAt v) @ '' to '' @ re_time env (rw_EndsAt v) @ ''; as of '' @ re_time env (rw_AsOf v) @
     ''; coverage '' @ clean (rw_Coverage v) @ ''; baseline '' @ clean (rw_BaselineVersion v) @ ''; sources '' @
     cleanList (rw_SourceVersions v)"

definition baselineSummary :: "report_env \<Rightarrow> report_facts \<Rightarrow> string" where
  "baselineSummary env facts =
     ''previous '' @
     (case rf_PreviousWindow facts of
        None \<Rightarrow> ''unknown''
      | Some w \<Rightarrow> re_time env (rw_AsOf w) @ '' / '' @ clean (rw_Coverage w)) @
     ''; rolling windows '' @ show_nat (length (rf_RollingWindows facts))"

definition comparisonWindows :: "report_env \<Rightarrow> report_facts \<Rightarrow> string list" where
  "comparisonWindows env facts =
     (case rf_PreviousWindow facts of None \<Rightarrow> [] | Some w \<Rightarrow> [''previous: '' @ reportWindow env w]) @
     map (\<lambda>(i, w). ''rolling '' @ show_nat (i + 1) @ '': '' @ reportWindow env w)
       (List.enumerate 0 (rf_RollingWindows facts))"

definition privacyState :: "bool \<Rightarrow> string" where
  "privacyState suppressed = (if suppressed then ''suppressed'' else ''redacted aggregate'')"

section \<open>Entries\<close>

definition source_entry :: "report_source \<Rightarrow> rsource" where
  "source_entry v =
     \<lparr> ks_Kind = clean (ru_SourceKind v), ks_Version = clean (ru_Version v), ks_Freshness = clean (ru_Freshness v),
       ks_Coverage = clean (ru_Coverage v), ks_Redaction = clean (ru_RedactionState v),
       ks_Knowledge = clean (ru_KnowledgeState v) \<rparr>"

definition metric_entry :: "report_env \<Rightarrow> report_metric \<Rightarrow> metric_result \<Rightarrow> rmetric" where
  "metric_entry env info v =
     \<lparr> km_Label = clean (rm_DisplayLabel info), km_Name = clean (mr_Name v), km_Value = number env (mr_NativeValue v),
       km_Numerator = number env (mr_Numerator v), km_Denominator = number env (mr_Denominator v),
       km_Previous = number env (mr_PreviousValue v), km_Median = number env (mr_RollingMedian v),
       km_Unit = clean (mr_NativeUnit v), km_Status = clean (mr_Status v), km_Reason = clean (mr_StatusReason v),
       km_Coverage = clean (mr_Coverage v), km_Confidence = clean (mr_Confidence v),
       km_Uncertainty = clean (mr_Uncertainty v), km_Polarity = clean (rm_Polarity info),
       km_Exclusions = cleanList (mr_Exclusions v), km_Sample = mr_SampleCount v \<rparr>"

definition overhead_entry :: "report_env \<Rightarrow> report_metric \<Rightarrow> metric_result \<Rightarrow> rmetric" where
  "overhead_entry env info v =
     (metric_entry env info v)\<lparr> km_Numerator := '''', km_Denominator := '''', km_Exclusions := '''', km_Sample := 0 \<rparr>"

definition contribution_entry :: "report_env \<Rightarrow> bool \<Rightarrow> scope_contribution \<Rightarrow> rcontribution" where
  "contribution_entry env suppressed v =
     (let hide = suppressed \<or> sn_AttributionState v = ''privacy_suppressed'' in
      \<lparr> kn_Scope = clean (sn_Scope v), kn_Class = clean (sn_WorkloadClass v),
        kn_Numerator = (if hide then ''unknown'' else finiteNumber env (sn_Numerator v)),
        kn_Denominator = (if hide then ''unknown'' else finiteNumber env (sn_Denominator v)),
        kn_Value = (if hide then ''unknown'' else number env (sn_Contribution v)),
        kn_Coverage = clean (sn_Coverage v), kn_Attribution = clean (sn_AttributionState v) \<rparr>)"

definition workload_entry :: "report_env \<Rightarrow> workload_decomposition \<Rightarrow> rworkload" where
  "workload_entry env v =
     \<lparr> kw_Metric = clean (wd_Metric v), kw_Volume = number env (wd_VolumeEffect v), kw_Mix = number env (wd_MixEffect v),
       kw_Within = number env (wd_WithinClassEffect v), kw_Residual = number env (wd_Residual v),
       kw_Status = clean (wd_Status v), kw_Classes = cleanList (wd_Classes v) \<rparr>"

definition guardrail_entry :: "guardrail_result \<Rightarrow> rguardrail" where
  "guardrail_entry v =
     \<lparr> kg_Name = clean (gr_Name v), kg_State = clean (gr_State v), kg_Coverage = clean (gr_Coverage v) \<rparr>"

definition finding_entry :: "audit_finding \<Rightarrow> rfinding" where
  "finding_entry v =
     (let detector = (if fd_Detector v \<noteq> '''' \<or> fd_DetectorVersion v \<noteq> ''''
                      then fd_Detector v @ ''@'' @ fd_DetectorVersion v else '''') in
      \<lparr> kf_Code = clean (fd_Code v), kf_Classification = known (fd_Classification v),
        kf_Confidence = known (fd_Confidence v), kf_Cause = known (fd_Cause v), kf_Detector = known detector,
        kf_Exception = known (fd_ExceptionCheck v), kf_Counterevidence = cleanList (fd_Counterevidence v) \<rparr>)"

definition recommendation_entry :: "report_recommendation \<Rightarrow> audit_recommendation \<Rightarrow> rrecommendation" where
  "recommendation_entry info v =
     \<lparr> kr_Code = clean (rc_Code v), kr_Action = known (rc_Action v), kr_Verification = known (rc_Verification v),
       kr_Lifecycle = known (rc_LifecycleState v), kr_Impact = known (rn_ExpectedQualityImpact info),
       kr_Contract = known (rn_ViolatedContract info), kr_Scope = known (rn_Scope info),
       kr_EvidenceConfidence = known (rn_EvidenceConfidence info), kr_Rationale = known (rn_BroaderChangeRationale info),
       kr_Target = known (rc_TargetSurface v), kr_Guardrails = cleanList (rc_ProtectedGuardrails v),
       kr_Risks = cleanList (rc_Risks v), kr_Approval = show_bool (rc_ApprovalRequired v) \<rparr>"

definition outlier_entry :: "report_env \<Rightarrow> native_outlier \<Rightarrow> routlier" where
  "outlier_entry env v =
     \<lparr> ko_Metric = clean (ol_Metric v), ko_Value = number env (ol_NativeValue v), ko_Unit = clean (ol_NativeUnit v),
       ko_Direction = clean (ol_Direction v), ko_Magnitude = number env (ol_Magnitude v), ko_Impact = '''',
       ko_Scope = '''', ko_Coverage = '''', ko_Window = '''', ko_Recommendation = '''' \<rparr>"

definition outlier_facts_on :: "report_env \<Rightarrow> report_outlier \<Rightarrow> routlier \<Rightarrow> routlier" where
  "outlier_facts_on env info v =
     (if ko_Metric v = clean (ro_Metric info)
      then v\<lparr> ko_Impact := clean (ro_Impact info), ko_Scope := clean (ro_Scope info),
              ko_Coverage := clean (ro_Coverage info), ko_Window := reportWindow env (ro_EvidenceWindow info),
              ko_Recommendation := clean (ro_RecommendationCode info) \<rparr>
      else v)"

definition confounder_entry :: "confounder_stratum \<Rightarrow> rconfounder" where
  "confounder_entry v =
     \<lparr> kx_Kind = clean (ct_Kind v), kx_State = clean (ct_State v), kx_Confidence = clean (ct_Confidence v) \<rparr>"

definition provenance_entry :: "report_provenance \<Rightarrow> rprovenance" where
  "provenance_entry v =
     \<lparr> kp_Field = clean (rp_Field v), kp_Knowledge = clean (rp_KnowledgeState v), kp_Source = clean (rp_Provenance v) \<rparr>"

section \<open>Building the model\<close>

text \<open>The loops that pair results with their facts and reject repeated or missing names.\<close>

fun fact_index :: "string \<Rightarrow> ('a \<Rightarrow> string) \<Rightarrow> (string \<Rightarrow> 'a option) \<Rightarrow> 'a list \<Rightarrow> string + (string \<Rightarrow> 'a option)" where
  "fact_index e name m [] = Inr m"
| "fact_index e name m (x # xs) =
     (if m (name x) \<noteq> None then Inl e else fact_index e name (m(name x \<mapsto> x)) xs)"

fun paired_entries ::
  "string \<Rightarrow> (string \<Rightarrow> 'f option) \<Rightarrow> ('a \<Rightarrow> string) \<Rightarrow> ('f \<Rightarrow> 'a \<Rightarrow> 'e) \<Rightarrow> string set \<Rightarrow> 'a list \<Rightarrow> string + 'e list" where
  "paired_entries e facts name entry seen [] = Inr []"
| "paired_entries e facts name entry seen (x # xs) =
     (case facts (name x) of
        None \<Rightarrow> Inl e
      | Some info \<Rightarrow>
          if name x \<in> seen then Inl e
          else bind_result (paired_entries e facts name entry (insert (name x) seen) xs) (\<lambda>es. Inr (entry info x # es)))"

fun outlier_loop ::
  "report_env \<Rightarrow> string set \<Rightarrow> string set \<Rightarrow> report_outlier list \<Rightarrow> routlier list \<Rightarrow> string + string set \<times> routlier list" where
  "outlier_loop env results seen [] os = Inr (seen, os)"
| "outlier_loop env results seen (info # facts) os =
     (if ro_Metric info \<in> seen then Inl ''report outlier facts are ambiguous''
      else if ro_Metric info \<notin> results then Inl ''report outlier facts are incomplete''
      else outlier_loop env results (insert (ro_Metric info) seen) facts (map (outlier_facts_on env info) os))"

definition sourceKey :: "rsource \<Rightarrow> string" where
  "sourceKey v = join [NUL] [ks_Kind v, ks_Version v, ks_Freshness v, ks_Coverage v, ks_Redaction v, ks_Knowledge v]"

definition metricKey :: "rmetric \<Rightarrow> string" where
  "metricKey v = join [NUL] [km_Name v, km_Value v, km_Status v, km_Coverage v]"

definition findingKey :: "rfinding \<Rightarrow> string" where
  "findingKey v = join [NUL] [kf_Code v, kf_Detector v, kf_Classification v, kf_Confidence v]"

definition outlierKey :: "routlier \<Rightarrow> string" where
  "outlierKey v = join [NUL] [ko_Metric v, ko_Scope v, ko_Value v, ko_Direction v]"

definition confounderKey :: "rconfounder \<Rightarrow> string" where
  "confounderKey v = join [NUL] [kx_Kind v, kx_State v, kx_Confidence v]"

definition provenanceKey :: "rprovenance \<Rightarrow> string" where
  "provenanceKey v = join [NUL] [kp_Field v, kp_Knowledge v, kp_Source v]"

definition contributionKey :: "rcontribution \<Rightarrow> string" where
  "contributionKey v = join [NUL] [kn_Scope v, kn_Class v, kn_Numerator v, kn_Denominator v, kn_Value v, kn_Coverage v,
     kn_Attribution v]"

definition workloadKey :: "rworkload \<Rightarrow> string" where
  "workloadKey v = join [NUL] [kw_Metric v, kw_Status v, kw_Classes v, kw_Volume v, kw_Mix v, kw_Within v, kw_Residual v]"

definition guardrailKey :: "rguardrail \<Rightarrow> string" where
  "guardrailKey v = join [NUL] [kg_Name v, kg_State v, kg_Coverage v]"

definition by_key :: "('a \<Rightarrow> string) \<Rightarrow> 'a list \<Rightarrow> 'a list" where
  "by_key key xs = sort_slice (\<lambda>a b. key a < key b) xs"

definition sortModel :: "report_model \<Rightarrow> report_model" where
  "sortModel m = m\<lparr>
     rl_ScopeCounts := by_key kc_Name (rl_ScopeCounts m), rl_Sources := by_key sourceKey (rl_Sources m),
     rl_Metrics := by_key metricKey (rl_Metrics m), rl_Findings := by_key findingKey (rl_Findings m),
     rl_Outliers := by_key outlierKey (rl_Outliers m), rl_Confounders := by_key confounderKey (rl_Confounders m),
     rl_Provenance := by_key provenanceKey (rl_Provenance m), rl_Contributions := by_key contributionKey (rl_Contributions m),
     rl_Workload := by_key workloadKey (rl_Workload m), rl_Guardrails := by_key guardrailKey (rl_Guardrails m),
     rl_Overhead := by_key metricKey (rl_Overhead m) \<rparr>"

definition window_text :: "report_env \<Rightarrow> audit_window \<Rightarrow> string" where
  "window_text env w =
     re_time env (aw_StartsAt w) @ '' to '' @ re_time env (aw_EndsAt w) @ ''; revision '' @ show_int (aw_Revision w) @
     ''; late evidence '' @ show_bool (aw_LateEvidence w) @ ''; baseline '' @ clean (aw_BaselineVersion w) @
     ''; counting '' @ clean (aw_CountingMode w) @ ''; workload '' @ clean (aw_WorkloadVersion w) @ ''; sources '' @
     cleanList (aw_SourceVersions w)"

definition lineage_text :: "invocation_counts \<Rightarrow> string" where
  "lineage_text c =
     ''host calls '' @ show_int (ic_HostCalls c) @ ''; leaf calls '' @ show_int (ic_LeafCalls c) @ ''; host results '' @
     show_int (ic_HostResults c) @ ''; leaf results '' @ show_int (ic_LeafResults c) @ ''; unknown calls '' @
     show_int (ic_UnknownCalls c)"

definition no_metric_fact :: report_metric where
  "no_metric_fact = \<lparr> rm_Name = '''', rm_DisplayLabel = '''', rm_Polarity = '''' \<rparr>"

definition limit_recommendations :: "report_model \<Rightarrow> report_model" where
  "limit_recommendations m =
     (if 5 < length (rl_Recommendations m)
      then m\<lparr> rl_Recommendations := take 5 (rl_Recommendations m),
              rl_initialOmissions := [(''recommendations'', int (length (rl_Recommendations m)) - 5)] \<rparr>
      else m)"

definition report_Build :: "report_env \<Rightarrow> governance_result \<Rightarrow> string + report_model" where
  "report_Build env r =
     (case gv_ReportFacts r of
        None \<Rightarrow> Inl ''report facts unavailable''
      | Some facts \<Rightarrow>
          if rf_Version facts \<noteq> ''report-facts-v1'' then Inl ''report facts unavailable''
          else
            bind_result (fact_index ''report metric facts are ambiguous'' rm_Name Map.empty (rf_Metrics facts)) (\<lambda>labels.
            bind_result (paired_entries ''report metrics are ambiguous or incomplete'' labels mr_Name (metric_entry env) {}
              (gv_Metrics r)) (\<lambda>metrics.
            bind_result (fact_index ''report recommendation facts are ambiguous'' rn_Code Map.empty
              (rf_Recommendations facts)) (\<lambda>recommendationFacts.
            bind_result (paired_entries ''report recommendations are ambiguous or incomplete'' recommendationFacts rc_Code
              recommendation_entry {} (gv_Recommendations r)) (\<lambda>recommendations.
            if has_duplicate {} (map ol_Metric (gv_Outliers r)) then Inl ''report outliers are ambiguous''
            else
            bind_result (outlier_loop env (set (map ol_Metric (gv_Outliers r))) {} (rf_Outliers facts)
              (map (outlier_entry env) (gv_Outliers r))) (\<lambda>(outlierFacts, outliers).
            if card outlierFacts \<noteq> card (set (map ol_Metric (gv_Outliers r)))
            then Inl ''report outlier facts are incomplete''
            else Inr (limit_recommendations (sortModel
              \<lparr> rl_Identity = clean (rf_DisplayIdentity facts), rl_Scope = clean (gv_Scope r),
                rl_Coverage = clean (gv_Coverage r), rl_QualityGate = clean (rf_QualityGateState facts),
                rl_Revision = clean (gv_RevisionHash r), rl_AsOf = re_time env (gv_AsOf r),
                rl_Window = window_text env (gv_Window r), rl_Baseline = baselineSummary env facts,
                rl_Comparisons = comparisonWindows env facts, rl_Privacy = privacyState (rf_PrivacySuppressed facts),
                rl_Lineage = lineage_text (gv_InvocationCounts r), rl_Derivation = clean (gv_DerivationMethod r),
                rl_UpstreamOmitted = gv_OmittedCount r, rl_ScopeCounts = scopeCounts (rf_ScopeCounts facts),
                rl_Sources = map source_entry (rf_Sources facts), rl_Metrics = metrics,
                rl_Contributions = map (contribution_entry env (rf_PrivacySuppressed facts)) (gv_Contributions r),
                rl_Workload = map (workload_entry env) (gv_WorkloadEffects r),
                rl_Guardrails = map guardrail_entry (gv_Guardrails r),
                rl_Overhead = map (\<lambda>v. overhead_entry env (lookup_or no_metric_fact labels (mr_Name v)) v) (gv_GovernanceOverhead r),
                rl_Findings = map finding_entry (gv_Findings r), rl_Recommendations = recommendations,
                rl_Outliers = outliers, rl_Confounders = map confounder_entry (gv_Confounders r),
                rl_Provenance = map provenance_entry (rf_Provenance facts), rl_initialOmissions = [] \<rparr>))))))))"

section \<open>Rendering\<close>

definition chat_Comparisons :: "string \<Rightarrow> string" where
  "chat_Comparisons v =
     ''Comparison window: '' @ v @ [LF]"

definition chat_ScopeCounts :: "rcount \<Rightarrow> string" where
  "chat_ScopeCounts v =
     ''Scope: '' @ kc_Name v @ '' included='' @ show_int (kc_Included v) @ '' excluded='' @ kc_Excluded v @ [LF]"

definition chat_Sources :: "rsource \<Rightarrow> string" where
  "chat_Sources v =
     ''Source: '' @ ks_Kind v @ '' version='' @ ks_Version v @ '' freshness='' @ ks_Freshness v @ '' coverage='' @
     ks_Coverage v @ '' redaction='' @ ks_Redaction v @ '' knowledge='' @ ks_Knowledge v @ [LF]"

definition chat_Recommendations :: "rrecommendation \<Rightarrow> string" where
  "chat_Recommendations v =
     ''Next action: '' @ kr_Code v @ '' '' @ em_dash @ '' '' @ kr_Action v @ ''. Target: '' @ kr_Target v @
     ''. Contract: '' @ kr_Contract v @ ''. Scope: '' @ kr_Scope v @ ''. Lifecycle: '' @ kr_Lifecycle v @
     ''. Evidence: '' @ kr_EvidenceConfidence v @ ''. Quality impact: '' @ kr_Impact v @
     ''. Approval required: '' @ kr_Approval v @ ''. Guardrails: '' @ kr_Guardrails v @ ''. Risks: '' @
     kr_Risks v @ ''. Broader-change rationale: '' @ kr_Rationale v @ ''. Verify: '' @ kr_Verification v @ [LF]"

definition chat_Metrics :: "rmetric \<Rightarrow> string" where
  "chat_Metrics v =
     ''Metric: '' @ metric_label v @ '' = '' @ km_Value v @ '' '' @ km_Unit v @ ''; raw='' @ km_Numerator v @
     ''/'' @ km_Denominator v @ ''; sample='' @ show_int (km_Sample v) @ ''; previous='' @ km_Previous v @
     ''; median='' @ km_Median v @ '' ('' @ km_Status v @ '': '' @ km_Reason v @ '', '' @ km_Coverage v @
     '', confidence='' @ km_Confidence v @ '', uncertainty='' @ km_Uncertainty v @ '', polarity='' @
     km_Polarity v @ '', exclusions='' @ km_Exclusions v @ '')'' @ [LF]"

definition chat_Contributions :: "rcontribution \<Rightarrow> string" where
  "chat_Contributions v =
     ''Contribution: '' @ kn_Scope v @ ''/'' @ kn_Class v @ '' = '' @ kn_Value v @ ''; raw='' @ kn_Numerator v @
     ''/'' @ kn_Denominator v @ '' ('' @ kn_Coverage v @ '', '' @ kn_Attribution v @ '')'' @ [LF]"

definition chat_Workload :: "rworkload \<Rightarrow> string" where
  "chat_Workload v =
     ''Workload: '' @ kw_Metric v @ '' volume='' @ kw_Volume v @ '' mix='' @ kw_Mix v @ '' within='' @
     kw_Within v @ '' residual='' @ kw_Residual v @ '' ('' @ kw_Status v @ ''; classes='' @ kw_Classes v @ '')'' @
     [LF]"

definition chat_Guardrails :: "rguardrail \<Rightarrow> string" where
  "chat_Guardrails v =
     ''Guardrail: '' @ kg_Name v @ '' = '' @ kg_State v @ '' ('' @ kg_Coverage v @ '')'' @ [LF]"

definition chat_Overhead :: "rmetric \<Rightarrow> string" where
  "chat_Overhead v =
     ''Governance overhead (excluded): '' @ metric_label v @ '' = '' @ km_Value v @ '' '' @ km_Unit v @ '' ('' @
     km_Coverage v @ '')'' @ [LF]"

definition chat_Findings :: "rfinding \<Rightarrow> string" where
  "chat_Findings v =
     ''Finding: '' @ kf_Code v @ '' '' @ em_dash @ '' '' @ kf_Classification v @ ''; cause='' @ kf_Cause v @
     ''; detector='' @ kf_Detector v @ ''; exception='' @ kf_Exception v @ ''; counterevidence='' @
     kf_Counterevidence v @ '' ('' @ kf_Confidence v @ '')'' @ [LF]"

definition chat_Outliers :: "routlier \<Rightarrow> string" where
  "chat_Outliers v =
     ''Outlier: '' @ ko_Metric v @ '' = '' @ ko_Value v @ '' '' @ ko_Unit v @ '' ('' @ ko_Direction v @
     ''); dimensionless magnitude='' @ ko_Magnitude v @ ''; impact='' @ ko_Impact v @ ''; scope='' @ ko_Scope v @
     ''; coverage='' @ ko_Coverage v @ ''; window='' @ ko_Window v @ ''; action='' @ ko_Recommendation v @ [LF]"

definition chat_Confounders :: "rconfounder \<Rightarrow> string" where
  "chat_Confounders v =
     ''Confounder: '' @ kx_Kind v @ '' = '' @ kx_State v @ '' ('' @ kx_Confidence v @ '')'' @ [LF]"

definition chat_Provenance :: "rprovenance \<Rightarrow> string" where
  "chat_Provenance v =
     ''Provenance: '' @ kp_Field v @ '' = '' @ kp_Knowledge v @ '' / '' @ kp_Source v @ [LF]"

definition row_Sources :: "rsource \<Rightarrow> string" where
  "row_Sources v =
     ''source | '' @ cell (ks_Kind v) @ '' '' @ cell (ks_Version v) @ '' | '' @ cell (ks_Freshness v) @ '' | '' @
     cell (ks_Coverage v) @ [LF]"

definition row_Recommendations :: "rrecommendation \<Rightarrow> string" where
  "row_Recommendations v =
     ''recommendation | '' @ cell (kr_Code v) @ '' | '' @ cell (kr_Action v) @ '' | '' @ cell (kr_Lifecycle v) @
     [LF]"

definition row_Metrics :: "rmetric \<Rightarrow> string" where
  "row_Metrics v =
     ''metric | '' @ cell (metric_label v) @ '' | '' @ cell (km_Value v) @ '' '' @ cell (km_Unit v) @ '' | '' @
     cell (km_Status v) @ [LF]"

definition row_Contributions :: "rcontribution \<Rightarrow> string" where
  "row_Contributions v =
     ''contribution | '' @ cell (kn_Scope v) @ '' / '' @ cell (kn_Class v) @ '' | '' @ cell (kn_Value v) @
     '' | '' @ cell (kn_Coverage v) @ [LF]"

definition row_Guardrails :: "rguardrail \<Rightarrow> string" where
  "row_Guardrails v =
     ''guardrail | '' @ cell (kg_Name v) @ '' | '' @ cell (kg_State v) @ '' | '' @ cell (kg_Coverage v) @ [LF]"

definition row_Overhead :: "rmetric \<Rightarrow> string" where
  "row_Overhead v =
     ''overhead excluded | '' @ cell (metric_label v) @ '' | '' @ cell (km_Value v) @ '' '' @ cell (km_Unit v) @
     '' | '' @ cell (km_Coverage v) @ [LF]"

definition row_Findings :: "rfinding \<Rightarrow> string" where
  "row_Findings v =
     ''finding | '' @ cell (kf_Code v) @ '' | '' @ cell (kf_Classification v) @ '' | '' @ cell (kf_Confidence v) @
     [LF]"

definition row_Workload :: "rworkload \<Rightarrow> string" where
  "row_Workload v =
     ''workload | '' @ cell (kw_Metric v) @ '' | mix '' @ cell (kw_Mix v) @ ''; within '' @ cell (kw_Within v) @
     '' | '' @ cell (kw_Status v) @ [LF]"

definition row_Outliers :: "routlier \<Rightarrow> string" where
  "row_Outliers v =
     ''outlier | '' @ cell (ko_Metric v) @ '' | '' @ cell (ko_Value v) @ '' '' @ cell (ko_Unit v) @ '' | '' @
     cell (ko_Direction v) @ [LF]"

definition row_Confounders :: "rconfounder \<Rightarrow> string" where
  "row_Confounders v =
     ''confounder | '' @ cell (kx_Kind v) @ '' | '' @ cell (kx_State v) @ '' | '' @ cell (kx_Confidence v) @ [LF]"

definition row_Provenance :: "rprovenance \<Rightarrow> string" where
  "row_Provenance v =
     ''provenance | '' @ cell (kp_Field v) @ '' | '' @ cell (kp_Knowledge v) @ '' | '' @ cell (kp_Source v) @ [LF]"

definition md_Comparisons :: "string \<Rightarrow> string" where
  "md_Comparisons v =
     ''- '' @ md v @ [LF]"

definition md_ScopeCounts :: "rcount \<Rightarrow> string" where
  "md_ScopeCounts v =
     ''- '' @ md (kc_Name v) @ '': included '' @ show_int (kc_Included v) @ ''; excluded '' @ md (kc_Excluded v) @
     [LF]"

definition md_Sources :: "rsource \<Rightarrow> string" where
  "md_Sources v =
     ''- '' @ md (ks_Kind v) @ '' '' @ md (ks_Version v) @ '': freshness '' @ md (ks_Freshness v) @
     ''; coverage '' @ md (ks_Coverage v) @ ''; redaction '' @ md (ks_Redaction v) @ ''; knowledge '' @
     md (ks_Knowledge v) @ [LF]"

definition md_Recommendations :: "rrecommendation \<Rightarrow> string" where
  "md_Recommendations v =
     ''- **'' @ md (kr_Code v) @ '':** '' @ md (kr_Action v) @ ''; target: '' @ md (kr_Target v) @
     ''; contract: '' @ md (kr_Contract v) @ ''; scope: '' @ md (kr_Scope v) @ ''; evidence: '' @
     md (kr_EvidenceConfidence v) @ ''; quality impact: '' @ md (kr_Impact v) @ ''; approval required: '' @
     md (kr_Approval v) @ ''; guardrails: '' @ md (kr_Guardrails v) @ ''; risks: '' @ md (kr_Risks v) @
     ''; broader-change rationale: '' @ md (kr_Rationale v) @ ''; verify: '' @ md (kr_Verification v) @ [LF]"

definition md_Metrics :: "rmetric \<Rightarrow> string" where
  "md_Metrics v =
     md (metric_label v) @ '' | '' @ md (km_Value v) @ '' '' @ md (km_Unit v) @ ''; raw '' @ md (km_Numerator v) @
     ''/'' @ md (km_Denominator v) @ ''; sample '' @ show_int (km_Sample v) @ '' (previous '' @
     md (km_Previous v) @ ''; median '' @ md (km_Median v) @ '') | '' @ md (km_Status v) @ '': '' @
     md (km_Reason v) @ ''; confidence '' @ md (km_Confidence v) @ ''; uncertainty '' @ md (km_Uncertainty v) @
     ''; polarity '' @ md (km_Polarity v) @ ''; exclusions '' @ md (km_Exclusions v) @ '' | '' @
     md (km_Coverage v) @ [LF]"

definition md_Contributions :: "rcontribution \<Rightarrow> string" where
  "md_Contributions v =
     ''- '' @ md (kn_Scope v) @ '' / '' @ md (kn_Class v) @ '': '' @ md (kn_Value v) @ ''; raw '' @
     md (kn_Numerator v) @ ''/'' @ md (kn_Denominator v) @ '' ('' @ md (kn_Coverage v) @ ''; '' @
     md (kn_Attribution v) @ '')'' @ [LF]"

definition md_Workload :: "rworkload \<Rightarrow> string" where
  "md_Workload v =
     ''- '' @ md (kw_Metric v) @ '': volume '' @ md (kw_Volume v) @ ''; mix '' @ md (kw_Mix v) @
     ''; within-class '' @ md (kw_Within v) @ ''; residual '' @ md (kw_Residual v) @ ''; status '' @
     md (kw_Status v) @ ''; classes '' @ md (kw_Classes v) @ [LF]"

definition md_Guardrails :: "rguardrail \<Rightarrow> string" where
  "md_Guardrails v =
     ''- '' @ md (kg_Name v) @ '': '' @ md (kg_State v) @ '' ('' @ md (kg_Coverage v) @ '')'' @ [LF]"

definition md_Overhead :: "rmetric \<Rightarrow> string" where
  "md_Overhead v =
     ''- '' @ md (metric_label v) @ '': '' @ md (km_Value v) @ '' '' @ md (km_Unit v) @ '' ('' @
     md (km_Coverage v) @ '')'' @ [LF]"

definition md_Findings :: "rfinding \<Rightarrow> string" where
  "md_Findings v =
     ''- **'' @ md (kf_Code v) @ '':** '' @ md (kf_Classification v) @ ''; cause '' @ md (kf_Cause v) @
     ''; detector '' @ md (kf_Detector v) @ ''; exception '' @ md (kf_Exception v) @ ''; counterevidence '' @
     md (kf_Counterevidence v) @ '' ('' @ md (kf_Confidence v) @ '')'' @ [LF]"

definition md_Outliers :: "routlier \<Rightarrow> string" where
  "md_Outliers v =
     ''- '' @ md (ko_Metric v) @ '': '' @ md (ko_Value v) @ '' '' @ md (ko_Unit v) @ '', '' @ md (ko_Direction v) @
     ''; dimensionless magnitude '' @ md (ko_Magnitude v) @ ''; impact '' @ md (ko_Impact v) @ ''; scope '' @
     md (ko_Scope v) @ ''; coverage '' @ md (ko_Coverage v) @ ''; window '' @ md (ko_Window v) @
     ''; linked action '' @ md (ko_Recommendation v) @ [LF]"

definition md_Confounders :: "rconfounder \<Rightarrow> string" where
  "md_Confounders v =
     ''- '' @ md (kx_Kind v) @ '': '' @ md (kx_State v) @ '' ('' @ md (kx_Confidence v) @ '')'' @ [LF]"

definition md_Provenance :: "rprovenance \<Rightarrow> string" where
  "md_Provenance v =
     ''- '' @ md (kp_Field v) @ '': '' @ md (kp_Knowledge v) @ '' / '' @ md (kp_Source v) @ [LF]"

definition md_head :: "report_model \<Rightarrow> string" where
  "md_head m =
     ''## Governance report'' @ [LF] @ [LF] @ ''- Identity: '' @ md (rl_Identity m) @ [LF] @ ''- Scope: `'' @
     md (rl_Scope m) @ ''`'' @ [LF] @ ''- Coverage: `'' @ md (rl_Coverage m) @ ''`'' @ [LF] @
     ''- Quality gate: `'' @ md (rl_QualityGate m) @ ''`'' @ [LF] @ ''- Privacy: `'' @ md (rl_Privacy m) @ ''`'' @
     [LF] @ ''- As of: `'' @ md (rl_AsOf m) @ ''`'' @ [LF] @ ''- Revision: `'' @ md (rl_Revision m) @ ''`'' @
     [LF] @ ''- Window: '' @ md (rl_Window m) @ [LF] @ ''- Baseline: '' @ md (rl_Baseline m) @ [LF] @
     ''- Lineage: '' @ md (rl_Lineage m) @ [LF] @ ''- Derivation: '' @ md (rl_Derivation m) @ [LF] @
     ''- Upstream omissions: '' @ show_int (rl_UpstreamOmitted m) @ [LF]"

definition chat_head :: "report_model \<Rightarrow> string" where
  "chat_head m =
     ''Governance report'' @ [LF] @ ''Identity: '' @ rl_Identity m @ [LF] @ ''Scope: '' @ rl_Scope m @
     '' | Coverage: '' @ rl_Coverage m @ '' | Quality gate: '' @ rl_QualityGate m @ '' | Privacy: '' @
     rl_Privacy m @ [LF] @ ''As of: '' @ rl_AsOf m @ '' | Revision: '' @ rl_Revision m @ [LF] @ ''Window: '' @
     rl_Window m @ [LF] @ ''Baseline: '' @ rl_Baseline m @ [LF] @ ''Lineage: '' @ rl_Lineage m @ [LF] @
     ''Derivation: '' @ rl_Derivation m @ '' | Upstream omissions: '' @ show_int (rl_UpstreamOmitted m) @ [LF]"

definition renderChat :: "report_model \<Rightarrow> string" where
  "renderChat m =
     chat_head m @ concat (map chat_Comparisons (rl_Comparisons m)) @ concat (map chat_ScopeCounts (rl_ScopeCounts m)) @
     concat (map chat_Sources (rl_Sources m)) @ concat (map chat_Recommendations (rl_Recommendations m)) @
     concat (map chat_Metrics (rl_Metrics m)) @ concat (map chat_Contributions (rl_Contributions m)) @
     concat (map chat_Workload (rl_Workload m)) @ concat (map chat_Guardrails (rl_Guardrails m)) @
     concat (map chat_Overhead (rl_Overhead m)) @ concat (map chat_Findings (rl_Findings m)) @
     concat (map chat_Outliers (rl_Outliers m)) @ concat (map chat_Confounders (rl_Confounders m)) @
     concat (map chat_Provenance (rl_Provenance m))"

definition table_rows :: "report_model \<Rightarrow> string list" where
  "table_rows m =
     [''section | name | value | state'' @ [LF], ''--- | --- | --- | ---'' @ [LF],
      ''summary | identity | '' @ cell (rl_Identity m) @ '' | '' @ cell (rl_Coverage m) @ [LF],
      ''summary | scope | '' @ cell (rl_Scope m) @ '' | '' @ cell (rl_Coverage m) @ [LF],
      ''summary | quality gate | '' @ cell (rl_QualityGate m) @ '' | '' @ cell (rl_Coverage m) @ [LF]] @
     map row_Sources (rl_Sources m) @ map row_Recommendations (rl_Recommendations m) @ map row_Metrics (rl_Metrics m) @
     map row_Contributions (rl_Contributions m) @ map row_Guardrails (rl_Guardrails m) @ map row_Overhead (rl_Overhead m) @
     map row_Findings (rl_Findings m) @ map row_Workload (rl_Workload m) @ map row_Outliers (rl_Outliers m) @
     map row_Confounders (rl_Confounders m) @ map row_Provenance (rl_Provenance m)"

definition renderTable :: "report_model \<Rightarrow> string" where
  "renderTable m = concat (table_rows m) @ [LF] @ ''Text alternative:'' @ [LF] @ wrapText (renderChat m) 72"

definition md_section :: "string \<Rightarrow> ('a \<Rightarrow> string) \<Rightarrow> 'a list \<Rightarrow> string" where
  "md_section title line xs = (if xs = [] then '''' else [LF] @ ''### '' @ title @ [LF] @ concat (map line xs))"

definition writeMarkdownSections :: "report_model \<Rightarrow> string" where
  "writeMarkdownSections m =
     md_section ''Comparison windows'' md_Comparisons (rl_Comparisons m) @
     md_section ''Scope and drill-down'' md_ScopeCounts (rl_ScopeCounts m) @
     md_section ''Sources'' md_Sources (rl_Sources m) @
     md_section ''Next actions'' md_Recommendations (rl_Recommendations m) @
     md_section (''Metrics'' @ [LF] @ [LF] @ ''metric | value | status | coverage'' @ [LF] @ ''--- | ---: | --- | ---'')
       md_Metrics (rl_Metrics m) @
     md_section ''Contributions'' md_Contributions (rl_Contributions m) @
     md_section ''Workload and mix explanation'' md_Workload (rl_Workload m) @
     md_section ''Guardrails'' md_Guardrails (rl_Guardrails m) @
     md_section ''Governance overhead (excluded from outcome)'' md_Overhead (rl_Overhead m) @
     md_section ''Findings'' md_Findings (rl_Findings m) @
     md_section ''Outliers'' md_Outliers (rl_Outliers m) @
     md_section ''Confounders'' md_Confounders (rl_Confounders m) @
     md_section ''Provenance'' md_Provenance (rl_Provenance m)"

definition renderMarkdown :: "report_model \<Rightarrow> string" where
  "renderMarkdown m = md_head m @ writeMarkdownSections m"

definition Render :: "report_model \<Rightarrow> string \<Rightarrow> string" where
  "Render m format =
     (if format = ReportFormatChat then renderChat m
      else if format = ReportFormatTable then renderTable m else renderMarkdown m)"

section \<open>The budget of a rendered report\<close>

record render_result =
  rg_SchemaVersion :: string
  rg_Kind :: string
  rg_Format :: string
  rg_Rendered :: string
  rg_Coverage :: string
  rg_ProvenanceLabels :: "string list"
  rg_RevisionHash :: string
  rg_FallbackReason :: string
  rg_OmittedCount :: int
  rg_SectionOmissions :: "(string \<times> int) list"

text \<open>The count of omissions per section, as an association list with distinct keys.\<close>

definition omission_sum :: "(string \<times> int) list \<Rightarrow> int" where
  "omission_sum omitted = sum_list (map snd omitted)"

definition omissions :: "(string \<times> int) list \<Rightarrow> (string \<times> int) list" where
  "omissions omitted = map (\<lambda>n. (n, the (map_of omitted n))) (sort_strings (map fst omitted))"

fun count_omission :: "string \<Rightarrow> (string \<times> int) list \<Rightarrow> (string \<times> int) list" where
  "count_omission section [] = [(section, 1)]"
| "count_omission section ((n, c) # xs) =
     (if n = section then (n, c + 1) # xs else (n, c) # count_omission section xs)"

definition truncate_model :: "report_model \<Rightarrow> (string \<times> report_model) option" where
  "truncate_model m =
     (if rl_Confounders m \<noteq> [] then Some (''confounders'', m\<lparr> rl_Confounders := butlast (rl_Confounders m) \<rparr>)
      else if rl_Outliers m \<noteq> [] then Some (''outliers'', m\<lparr> rl_Outliers := butlast (rl_Outliers m) \<rparr>)
      else if rl_Findings m \<noteq> [] then Some (''findings'', m\<lparr> rl_Findings := butlast (rl_Findings m) \<rparr>)
      else if rl_Metrics m \<noteq> [] then Some (''metrics'', m\<lparr> rl_Metrics := butlast (rl_Metrics m) \<rparr>)
      else if rl_Contributions m \<noteq> [] then Some (''contributions'', m\<lparr> rl_Contributions := butlast (rl_Contributions m) \<rparr>)
      else if rl_Workload m \<noteq> [] then Some (''workload'', m\<lparr> rl_Workload := butlast (rl_Workload m) \<rparr>)
      else if rl_Sources m \<noteq> [] then Some (''sources'', m\<lparr> rl_Sources := butlast (rl_Sources m) \<rparr>)
      else if rl_Overhead m \<noteq> [] then Some (''overhead'', m\<lparr> rl_Overhead := butlast (rl_Overhead m) \<rparr>)
      else if 1 < length (rl_Comparisons m)
        then Some (''comparison_windows'', m\<lparr> rl_Comparisons := butlast (rl_Comparisons m) \<rparr>)
      else if 1 < length (rl_Provenance m) then Some (''provenance'', m\<lparr> rl_Provenance := butlast (rl_Provenance m) \<rparr>)
      else if 1 < length (rl_Recommendations m)
        then Some (''recommendations'', m\<lparr> rl_Recommendations := butlast (rl_Recommendations m) \<rparr>)
      else None)"

definition model_size :: "report_model \<Rightarrow> nat" where
  "model_size m =
     length (rl_Confounders m) + length (rl_Outliers m) + length (rl_Findings m) + length (rl_Metrics m) +
     length (rl_Contributions m) + length (rl_Workload m) + length (rl_Sources m) + length (rl_Overhead m) +
     length (rl_Comparisons m) + length (rl_Provenance m) + length (rl_Recommendations m)"

lemma truncate_model_size: "truncate_model m = Some (section, m') \<Longrightarrow> model_size m = Suc (model_size m')"
  by (auto simp: truncate_model_def model_size_def split: if_splits)

definition filled_result :: "report_model \<Rightarrow> string \<Rightarrow> (string \<times> int) list \<Rightarrow> render_result \<Rightarrow> render_result" where
  "filled_result m format omitted base =
     base\<lparr> rg_Rendered := Render m format, rg_OmittedCount := omission_sum omitted,
           rg_SectionOmissions := omissions omitted \<rparr>"

function render_loop ::
  "(render_result \<Rightarrow> string option) \<Rightarrow> report_model \<Rightarrow> string \<Rightarrow> render_result \<Rightarrow> (string \<times> int) list \<Rightarrow>
   string + render_result" where
  "render_loop marshal m format base omitted =
     (case marshal (filled_result m format omitted base) of
        None \<Rightarrow> Inl ''marshal''
      | Some encoded \<Rightarrow>
          if length encoded \<le> report_MaxResultBytes then Inr (filled_result m format omitted base)
          else (case truncate_model m of
                  None \<Rightarrow> Inl ''report envelope exceeds byte budget''
                | Some (section, m') \<Rightarrow> render_loop marshal m' format base (count_omission section omitted)))"
  by pat_completeness auto
termination
  by (relation "measure (\<lambda>(marshal, m, format, base, omitted). model_size m)") (auto dest: truncate_model_size)

declare render_loop.simps [simp del]

definition RenderBounded ::
  "(render_result \<Rightarrow> string option) \<Rightarrow> report_model \<Rightarrow> string \<Rightarrow> render_result \<Rightarrow> string + render_result" where
  "RenderBounded marshal m format base = render_loop marshal m format base (rl_initialOmissions m)"

end
