(* ===== verification/Report_Props.thy ===== *)
theory Report_Props
  imports Report
begin

text \<open>
  What a rendered report guarantees: display text is free of controls, angle brackets and active links,
  Markdown escaping loses nothing, no value can break a table row, wrapped lines are bounded, and the
  bounded rendering ends with an exact account of what it omitted.
\<close>

section \<open>Runes of a string\<close>

lemma scalar_error [simp]: "scalar rune_error"
  by (simp add: scalar_def rune_error_def)

lemma decode2_scalar: "b < 224 \<Longrightarrow> scalar (fst (decode2 b cs))"
  by (auto simp: decode2_def cont_in_def scalar_def rune_error_def split: list.splits)

lemma decode3_scalar:
  assumes "224 \<le> b" "b < 240" "b = 237 \<Longrightarrow> hi \<le> 159" "hi \<le> 191"
  shows "scalar (fst (decode3 lo hi b cs))"
proof -
  have general: "scalar ((b - 224) * 4096 + x * 64 + y)" if "x \<le> hi - 128" "y < 64" for x y
  proof (cases "b = 237")
    case True
    then have "x < 32"
      using assms(3) that by auto
    then show ?thesis
      using True that by (simp add: scalar_def)
  next
    case False
    have "x < 64"
      using assms(4) that by linarith
    have "b - 224 < 13 \<or> b - 224 = 14 \<or> b - 224 = 15"
      using assms False by linarith
    then show ?thesis
      using that \<open>x < 64\<close> unfolding scalar_def by (elim disjE) linarith+
  qed
  show ?thesis
  proof (cases "decode3 lo hi b cs = (rune_error, 1)")
    case False
    then obtain c1 c2 rest where cs: "cs = c1 # c2 # rest" and ok: "cont_in lo hi c1" "cont c2"
      by (auto simp: decode3_def split: list.splits if_splits)
    have "fst (decode3 lo hi b cs) = (b - 224) * 4096 + (byte c1 - 128) * 64 + (byte c2 - 128)"
      using ok by (simp add: decode3_def cs)
    moreover have "byte c1 - 128 \<le> hi - 128" "byte c2 - 128 < 64"
      using ok by (auto simp: cont_in_def)
    ultimately show ?thesis
      using general by metis
  qed simp
qed

lemma decode4_scalar:
  assumes "240 \<le> b" "b < 245" "b = 240 \<Longrightarrow> 144 \<le> lo" "b = 244 \<Longrightarrow> hi \<le> 143" "hi \<le> 191"
  shows "scalar (fst (decode4 lo hi b cs))"
proof -
  have general: "scalar ((b - 240) * 262144 + x * 4096 + y * 64 + z)" if "lo - 128 \<le> x" "x \<le> hi - 128" "y < 64" "z < 64" for x y z
  proof -
    have "x < 64" "b = 240 \<Longrightarrow> 16 \<le> x" "b = 244 \<Longrightarrow> x < 16"
      using assms that by (linarith, linarith, linarith)
    moreover have "b = 240 \<or> b = 244 \<or> (0 < b - 240 \<and> b - 240 < 4)"
      using assms by linarith
    ultimately show ?thesis
      using that unfolding scalar_def by (elim disjE) (simp_all, linarith+)
  qed
  show ?thesis
  proof (cases "decode4 lo hi b cs = (rune_error, 1)")
    case False
    then obtain c1 c2 c3 rest where cs: "cs = c1 # c2 # c3 # rest" and ok: "cont_in lo hi c1" "cont c2" "cont c3"
      by (auto simp: decode4_def split: list.splits if_splits)
    have "fst (decode4 lo hi b cs) = (b - 240) * 262144 + (byte c1 - 128) * 4096 + (byte c2 - 128) * 64 + (byte c3 - 128)"
      using ok by (simp add: decode4_def cs)
    moreover have "lo - 128 \<le> byte c1 - 128" "byte c1 - 128 \<le> hi - 128" "byte c2 - 128 < 64" "byte c3 - 128 < 64"
      using ok by (auto simp: cont_in_def)
    ultimately show ?thesis
      using general by metis
  qed simp
qed

lemma decode_rune_scalar: "scalar (fst (decode_rune s))"
proof (cases s)
  case (Cons c cs)
  consider "byte c < 194" | "194 \<le> byte c" "byte c < 224" | "224 \<le> byte c" "byte c < 240" | "240 \<le> byte c" "byte c < 245"
    | "245 \<le> byte c"
    by linarith
  then show ?thesis
  proof cases
    case 1
    then show ?thesis
      using Cons by (simp add: Let_def scalar_def rune_error_def)
  next
    case 2
    then show ?thesis
      using Cons decode2_scalar by (simp add: Let_def)
  next
    case 3
    then show ?thesis
      using Cons decode3_scalar [of 237 159] decode3_scalar [of 224 191] decode3_scalar [of "byte c" 191]
      by (auto simp: Let_def)
  next
    case 4
    then show ?thesis
      using Cons decode4_scalar [of 240 144 191] decode4_scalar [of "byte c" 128 143] decode4_scalar [of "byte c" 128 191]
      by (auto simp: Let_def)
  next
    case 5
    then show ?thesis
      using Cons by (simp add: Let_def scalar_def rune_error_def)
  qed
qed (simp add: scalar_def rune_error_def)

lemma runes_scalar: "list_all scalar (runes s)"
proof (induction s rule: runes.induct)
  case (1 s)
  then show ?case
    by (subst runes.simps) (simp add: decode_rune_scalar)
qed

lemma to_valid_runes_scalar: "list_all scalar (to_valid_runes invalid s)"
proof (induction invalid s rule: to_valid_runes.induct)
  case (1 invalid s)
  then show ?case
    by (subst to_valid_runes.simps) (simp add: decode_rune_scalar)
qed

section \<open>Display text\<close>

definition display_rune :: "nat \<Rightarrow> bool" where
  "display_rune r \<longleftrightarrow> scalar r \<and> \<not> is_control r \<and> \<not> bidi_control r \<and> r \<noteq> 60 \<and> r \<noteq> 62"

lemma clean_loop_set:
  "set (clean_loop space started rs) \<subseteq> insert 32 {r \<in> set rs. \<not> is_control r \<and> \<not> bidi_control r \<and> \<not> is_space r}"
  by (induction space started rs rule: clean_loop.induct) auto

lemma trim_runes_set: "set (trim_runes rs) \<subseteq> set rs"
proof
  fix x
  assume "x \<in> set (trim_runes rs)"
  then have "x \<in> set (dropWhile is_space (rev (dropWhile is_space rs)))"
    by (simp add: trim_runes_def)
  from set_dropWhileD [OF this] have "x \<in> set (dropWhile is_space rs)"
    by simp
  then show "x \<in> set rs"
    by (rule set_dropWhileD)
qed

lemma double_colons_set: "set (double_colons rs) \<subseteq> insert 8758 (set rs)"
  by (induction rs rule: double_colons.induct) auto

lemma neutral_match_set: "set (neutral_match m) \<subseteq> insert 8758 (insert 119 (set m))"
  by (auto simp: neutral_match_def dest: in_set_butlastD)

lemma rx_replace_set:
  assumes "\<And>m. set (f m) \<subseteq> A \<union> set m"
  shows "set (rx_replace r f s i) \<subseteq> A \<union> set s"
  using assms
proof (induction r f s i rule: rx_replace.induct)
  case (1 r f s i)
  show ?case
  proof (cases "length s \<le> i")
    case True
    then show ?thesis
      by (subst rx_replace.simps) simp
  next
    case False
    then have here: "s ! i \<in> set s"
      by simp
    show ?thesis
    proof (cases "rx_ends r s i")
      case Nil
      then show ?thesis
        using False here 1 by (subst rx_replace.simps) auto
    next
      case (Cons e es)
      have "set (take (e - i) (drop i s)) \<subseteq> set s"
        by (auto dest: in_set_takeD in_set_dropD)
      then have "set (f (take (e - i) (drop i s))) \<subseteq> A \<union> set s"
        using "1.prems" [of "take (e - i) (drop i s)"] by blast
      then show ?thesis
        using False here 1 Cons by (subst rx_replace.simps) (auto split: if_splits)
    qed
  qed
qed

lemma display_constants: "display_rune 32" "display_rune 8758" "display_rune 119" "display_rune 8249" "display_rune 8250"
  by (simp_all add: display_rune_def scalar_def is_control_def bidi_control_def)

lemma clean_runes_display: "list_all display_rune (clean_runes v)"
proof -
  let ?loop = "clean_loop False False (to_valid_runes False v)"
  let ?rs = "double_colons (map angle_rune (trim_runes ?loop))"
  have "\<forall>r \<in> set ?loop. scalar r \<and> \<not> is_control r \<and> \<not> bidi_control r"
    using clean_loop_set [of False False "to_valid_runes False v"] to_valid_runes_scalar [of False v] display_constants(1)
    by (auto simp: list_all_iff display_rune_def)
  then have "\<forall>r \<in> set (trim_runes ?loop). display_rune (angle_rune r)"
    using trim_runes_set [of ?loop] display_constants by (auto simp: display_rune_def angle_rune_def)
  then have "\<forall>r \<in> set ?rs. display_rune r"
    using double_colons_set [of "map angle_rune (trim_runes ?loop)"] display_constants by auto
  moreover have "set (clean_runes v) \<subseteq> {8758, 119} \<union> set ?rs"
    unfolding clean_runes_def neutralizeSchemes_def using neutral_match_set by (intro rx_replace_set) auto
  ultimately show ?thesis
    using display_constants by (auto simp: list_all_iff)
qed

lemma runes_clean: "runes (clean v) = clean_runes v"
proof -
  have "list_all scalar (clean_runes v)"
    using clean_runes_display [of v] by (auto simp: list_all_iff display_rune_def)
  then show ?thesis
    unfolding clean_def by (rule runes_utf8)
qed

text \<open>Bytes of an encoding: an ASCII byte is its own rune.\<close>

lemma char_of_high: "128 \<le> (n::nat) \<Longrightarrow> n < 256 \<Longrightarrow> 128 \<le> byte (char_of n)"
  by simp

lemma encode_rune_bytes: "c \<in> set (encode_rune r) \<Longrightarrow> byte c = r \<or> 128 \<le> byte c"
proof -
  assume c: "c \<in> set (encode_rune r)"
  have low: "128 + n mod 64 < 256" for n :: nat
    using mod_less_divisor [of 64 n] by linarith
  consider "r < 128" | "128 \<le> r" "r < 2048" | "2048 \<le> r" "r > 1114111 \<or> 55296 \<le> r \<and> r \<le> 57343"
    | "2048 \<le> r" "r < 65536" "\<not> (55296 \<le> r \<and> r \<le> 57343)" | "65536 \<le> r" "r \<le> 1114111"
    by linarith
  then show ?thesis
  proof cases
    case 1
    then show ?thesis
      using c by (simp add: encode_rune_def)
  next
    case 2
    then have "192 + r div 64 < 256"
      by linarith
    then show ?thesis
      using c 2 char_of_high low by (auto simp: encode_rune_def)
  next
    case 3
    then have "encode_rune r = [char_of (239::nat), char_of (191::nat), char_of (189::nat)]"
      by (auto simp: encode_rune_def)
    then show ?thesis
      using c by auto
  next
    case 4
    then have "224 + r div 4096 < 256"
      by linarith
    then show ?thesis
      using c 4 char_of_high low by (auto simp: encode_rune_def)
  next
    case 5
    then have "240 + r div 262144 < 256"
      by linarith
    then show ?thesis
      using c 5 char_of_high low by (auto simp: encode_rune_def)
  qed
qed

lemma utf8_byte: "c \<in> set (utf8 rs) \<Longrightarrow> byte c < 128 \<Longrightarrow> byte c \<in> set rs"
  using encode_rune_bytes by (fastforce simp: utf8_def)

lemma clean_bytes: "c \<in> set (clean v) \<Longrightarrow> byte c < 128 \<Longrightarrow> 32 \<le> byte c \<and> byte c \<noteq> 127 \<and> c \<noteq> CHR ''<'' \<and> c \<noteq> CHR ''>''"
proof -
  assume "c \<in> set (clean v)" and "byte c < 128"
  then have "display_rune (byte c)"
    using utf8_byte clean_runes_display [of v] by (simp add: clean_def list_all_iff)
  then show ?thesis
    by (auto simp: display_rune_def is_control_def)
qed

text \<open>A space before the text is not dropped but moved behind the first rune.\<close>

lemma leading_space_moved:
  "\<not> is_control a \<Longrightarrow> \<not> bidi_control a \<Longrightarrow> \<not> is_space a \<Longrightarrow> \<not> is_control b \<Longrightarrow> \<not> bidi_control b \<Longrightarrow> \<not> is_space b \<Longrightarrow>
     clean_loop False False (32 # a # b # rs) = a # 32 # b # clean_loop False True rs"
  by (simp add: is_control_def [of 32] bidi_control_def [of 32] is_space_def [of 32])

section \<open>Markdown\<close>

text \<open>Reading the escaped text back.\<close>

fun unescape :: "string \<Rightarrow> string" where
  "unescape (c # d # cs) = (if c = CHR 0x5C then d # unescape cs else c # unescape (d # cs))"
| "unescape cs = cs"

lemma unescape_plain: "c \<noteq> CHR 0x5C \<Longrightarrow> unescape (c # cs) = c # unescape cs"
  by (cases cs) auto

lemma unescape_md_bytes:
  "CHR ''<'' \<notin> set cs \<Longrightarrow> CHR ''>'' \<notin> set cs \<Longrightarrow> unescape (concat (map md_byte cs)) = cs"
proof (induction cs)
  case (Cons c cs)
  show ?case
  proof (cases "c \<in> set (CHR 0x5C # ''|`*_[]()'')")
    case True
    then have "md_byte c = [CHR 0x5C, c]"
      by (simp only: md_byte_def if_True)
    then show ?thesis
      using Cons by simp
  next
    case False
    then have "md_byte c = [c]" and "c \<noteq> CHR 0x5C"
      using Cons.prems by (auto simp: md_byte_def)
    then show ?thesis
      using Cons unescape_plain by simp
  qed
qed simp

text \<open>C38: Markdown escaping is faithful: removing the backslashes from an escaped value gives the
  sanitised value back, and the escaped value contains no line break or other ASCII control character
  (no byte below 32 and no delete, 127) and no angle bracket, whatever the value was.\<close>

theorem markdown_roundtrip:
  "unescape (md v) = clean v \<and>
   list_all (\<lambda>c. 32 \<le> byte c \<and> byte c \<noteq> 127 \<and> c \<noteq> CHR ''<'' \<and> c \<noteq> CHR ''>'') (md v)"
proof
  have "CHR ''<'' \<notin> set (clean v)" "CHR ''>'' \<notin> set (clean v)"
    using clean_bytes [of "CHR ''<''" v] clean_bytes [of "CHR ''>''" v] by auto
  then show "unescape (md v) = clean v"
    unfolding md_def by (rule unescape_md_bytes)
  show "list_all (\<lambda>c. 32 \<le> byte c \<and> byte c \<noteq> 127 \<and> c \<noteq> CHR ''<'' \<and> c \<noteq> CHR ''>'') (md v)"
  proof -
    have "32 \<le> byte d \<and> byte d \<noteq> 127 \<and> d \<noteq> CHR ''<'' \<and> d \<noteq> CHR ''>''" if "c \<in> set (clean v)" "d \<in> set (md_byte c)" for c d
    proof -
      have "32 \<le> byte c \<and> byte c \<noteq> 127 \<and> c \<noteq> CHR ''<'' \<and> c \<noteq> CHR ''>''"
        using clean_bytes [OF that(1)] by (cases "byte c < 128") auto
      then show ?thesis
        using that(2) by (auto simp: md_byte_def split: if_splits)
    qed
    then show ?thesis
      by (auto simp: md_def list_all_iff)
  qed
qed

section \<open>Table rows\<close>

text \<open>A reader of a row: whether the next byte is escaped, and the number of column separators.\<close>

fun scan_bar :: "bool \<times> nat \<Rightarrow> char \<Rightarrow> bool \<times> nat" where
  "scan_bar (escaped, n) c =
     (if escaped then (False, n) else if c = CHR 0x5C then (True, n) else (False, if c = CHR ''|'' then n + 1 else n))"

definition bars :: "string \<Rightarrow> bool \<times> nat" where
  "bars s = foldl scan_bar (False, 0) s"

lemma scan_shift: "foldl scan_bar (e, n) s = (fst (foldl scan_bar (e, 0) s), n + snd (foldl scan_bar (e, 0) s))"
proof (induction s arbitrary: e n)
  case (Cons c s)
  show ?case
  proof (cases "\<not> e \<and> c = CHR ''|''")
    case True
    then show ?thesis
      using Cons.IH [of False "Suc n"] Cons.IH [of False 1] by simp
  next
    case False
    then show ?thesis
      using Cons.IH [of "\<not> e \<and> c = CHR 0x5C" n] by (auto split: if_splits)
  qed
qed simp

lemma scan_md_bytes: "foldl scan_bar (False, n) (concat (map md_byte cs)) = (False, n)"
  by (induction cs) (auto simp: md_byte_def)

lemma scan_prefix:
  assumes "snd (foldl scan_bar (False, 0) (p @ q)) = 0"
  shows "\<exists>e. foldl scan_bar (False, n) p = (e, n)"
proof -
  obtain e k where p: "foldl scan_bar (False, 0) p = (e, k)"
    by fastforce
  then have "k = 0"
    using assms scan_shift [of e k q] by simp
  then show ?thesis
    using p scan_shift [of False n p] by simp
qed

definition md_rune :: "nat \<Rightarrow> nat list" where
  "md_rune r = (if r < 128 then map byte (md_byte (char_of r)) else [r])"

lemma md_bytes_high: "\<forall>c \<in> set cs. 128 \<le> byte c \<Longrightarrow> concat (map md_byte cs) = cs"
proof (induction cs)
  case (Cons c cs)
  then have "128 \<le> byte c"
    by simp
  then have "c \<notin> set (CHR 0x5C # ''|`*_[]()'')" "c \<noteq> CHR ''<''" "c \<noteq> CHR ''>''"
    by auto
  then have "md_byte c = [c]"
    by (simp only: md_byte_def if_False)
  then show ?case
    using Cons by simp
qed simp

lemma utf8_append: "utf8 (rs @ qs) = utf8 rs @ utf8 qs"
  by (simp add: utf8_def)

lemma utf8_ascii: "is_ascii s \<Longrightarrow> utf8 (map byte s) = s"
  by (induction s) (auto simp: utf8_def encode_rune_def)

lemma md_byte_ascii: "byte c < 128 \<Longrightarrow> is_ascii (md_byte c)"
  by (auto simp: md_byte_def is_ascii_def)

lemma md_encode_rune: "concat (map md_byte (encode_rune r)) = utf8 (md_rune r)"
proof (cases "r < 128")
  case True
  then have "encode_rune r = [char_of r]" and "byte (char_of r) < 128"
    by (simp_all add: encode_rune_def)
  then show ?thesis
    using True utf8_ascii [OF md_byte_ascii] by (simp add: md_rune_def)
next
  case False
  then have "\<forall>c \<in> set (encode_rune r). 128 \<le> byte c"
    using encode_rune_bytes by (metis linorder_not_less)
  then show ?thesis
    using False md_bytes_high by (simp add: md_rune_def utf8_def)
qed

lemma md_utf8: "md v = utf8 (concat (map md_rune (clean_runes v)))"
proof -
  have "concat (map md_byte (utf8 rs)) = utf8 (concat (map md_rune rs))" for rs
    by (induction rs) (simp_all add: utf8_def [of "_ # _"] md_encode_rune utf8_append, simp_all add: utf8_def)
  then show ?thesis
    by (simp add: md_def clean_def)
qed

lemma md_rune_display: "display_rune r \<Longrightarrow> x \<in> set (md_rune r) \<Longrightarrow> scalar x \<and> 32 \<le> x"
proof -
  assume r: "display_rune r" and x: "x \<in> set (md_rune r)"
  show ?thesis
  proof (cases "r < 128")
    case True
    have "32 \<le> r"
      using r by (simp add: display_rune_def is_control_def)
    have "byte c < 128 \<and> 32 \<le> byte c" if "c \<in> set (md_byte (char_of r))" for c
      using that True \<open>32 \<le> r\<close> by (auto simp: md_byte_def split: if_splits)
    then show ?thesis
      using x True by (fastforce simp: md_rune_def scalar_def)
  next
    case False
    then show ?thesis
      using r x by (simp add: md_rune_def display_rune_def)
  qed
qed

lemma runes_md: "runes (md v) = concat (map md_rune (clean_runes v))"
    and md_runes_high: "list_all (\<lambda>r. 32 \<le> r) (runes (md v))"
proof -
  let ?M = "concat (map md_rune (clean_runes v))"
  have all: "\<forall>x \<in> set ?M. scalar x \<and> 32 \<le> x"
    using md_rune_display clean_runes_display [of v] by (auto simp: list_all_iff)
  then have "list_all scalar ?M"
    by (simp add: list_all_iff)
  then show runes: "runes (md v) = ?M"
    using runes_utf8 by (simp add: md_utf8)
  show "list_all (\<lambda>r. 32 \<le> r) (runes (md v))"
    unfolding runes using all by (simp add: list_all_iff)
qed

lemma utf8_no_LF: "\<forall>r \<in> set rs. 32 \<le> r \<Longrightarrow> LF \<notin> set (utf8 rs)"
  using utf8_byte [of LF rs] by fastforce

lemma scan_high:
  assumes "\<forall>c \<in> set s. 128 \<le> byte c" and "s \<noteq> []"
  shows "foldl scan_bar (e, n) s = (False, n)"
proof -
  have step: "scan_bar (d, n) c = (False, n)" if "128 \<le> byte c" for d c
    using that by auto
  have "foldl scan_bar (False, n) t = (False, n)" if "\<forall>c \<in> set t. 128 \<le> byte c" for t
    using that by (induction t) (auto simp: step simp del: scan_bar.simps)
  then show ?thesis
    using assms by (cases s) (auto simp: step simp del: scan_bar.simps)
qed

lemma ellipsis: "utf8 [8230] \<noteq> []" "\<forall>c \<in> set (utf8 [8230]). 128 \<le> byte c"
proof -
  show "utf8 [8230] \<noteq> []"
    by (simp add: utf8_def)
  have "byte c \<noteq> 8230" for c :: char
    using nat_of_char_less_256 [of c] by linarith
  then show "\<forall>c \<in> set (utf8 [8230]). 128 \<le> byte c"
    using encode_rune_bytes [of _ 8230] by (auto simp: utf8_def)
qed

lemma ellipsis_no_LF: "LF \<notin> set (utf8 [8230])"
  using ellipsis(2) by fastforce

lemma scan_cell: "foldl scan_bar (False, n) (cell v) = (False, n)"
proof -
  let ?M = "runes (md v)"
  have md: "utf8 ?M = md v"
    using md_utf8 runes_md by simp
  have all: "foldl scan_bar (False, k) (md v) = (False, k)" for k
    unfolding md_def by (rule scan_md_bytes)
  show ?thesis
  proof (cases "length ?M \<le> 28")
    case True
    then show ?thesis
      using md all by (simp add: cell_def Let_def)
  next
    case False
    have "utf8 (take 27 ?M) @ utf8 (drop 27 ?M) = md v"
      using md by (simp flip: utf8_append)
    then obtain e where "foldl scan_bar (False, n) (utf8 (take 27 ?M)) = (e, n)"
      using scan_prefix [of "utf8 (take 27 ?M)" "utf8 (drop 27 ?M)" n] all by auto
    then show ?thesis
      using False scan_high [OF ellipsis(2,1)] by (simp add: cell_def Let_def)
  qed
qed

lemma cell_no_LF: "LF \<notin> set (cell v)"
proof -
  have "\<forall>r \<in> set (runes (md v)). 32 \<le> r"
    using md_runes_high by (simp add: list_all_iff)
  then have "LF \<notin> set (utf8 (runes (md v)))" "LF \<notin> set (utf8 (take 27 (runes (md v))))"
    by (auto intro!: utf8_no_LF dest: in_set_takeD)
  then show ?thesis
    using ellipsis_no_LF by (simp add: cell_def Let_def)
qed

definition row_ok :: "string \<Rightarrow> bool" where
  "row_ok row \<longleftrightarrow> bars row = (False, 3) \<and> row \<noteq> [] \<and> List.last row = LF \<and> LF \<notin> set (butlast row)"

lemma row_okI: "bars row = (False, 3) \<Longrightarrow> LF \<notin> set row \<Longrightarrow> row_ok (row @ [LF])"
  by (simp add: row_ok_def bars_def)

lemmas row_defs = row_Sources_def row_Recommendations_def row_Metrics_def row_Contributions_def row_Guardrails_def
  row_Overhead_def row_Findings_def row_Workload_def row_Outliers_def row_Confounders_def row_Provenance_def

lemma row_entries_ok:
  "row_ok (row_Sources a)" "row_ok (row_Recommendations b)" "row_ok (row_Metrics c)" "row_ok (row_Contributions d)"
  "row_ok (row_Guardrails e)" "row_ok (row_Overhead c)" "row_ok (row_Findings f)" "row_ok (row_Workload g)"
  "row_ok (row_Outliers h)" "row_ok (row_Confounders i)" "row_ok (row_Provenance j)"
  unfolding row_defs
  by (simp_all add: row_ok_def bars_def scan_cell cell_no_LF butlast_append)

text \<open>C39: No value of an audit can break the report table: every line of the table, whatever text the
  model holds, ends at its own line break and has exactly three column separators that are not escaped.\<close>

theorem table_rows_intact: "list_all row_ok (table_rows m)"
  by (auto simp: table_rows_def list_all_iff row_entries_ok)
    (simp_all add: row_ok_def bars_def scan_cell cell_no_LF butlast_append)

section \<open>Wrapped lines\<close>

lemma wrap_runes_bounds:
  "0 < width \<Longrightarrow> p \<in> set (wrap_runes width rs) \<Longrightarrow> length p \<le> width \<and> set p \<subseteq> set rs"
proof (induction width rs rule: wrap_runes.induct)
  case (1 width rs)
  let ?cut = "wrap_cut width rs"
  show ?case
  proof (cases "width < length rs")
    case True
    have "length (trim_runes (take ?cut rs)) \<le> width"
      using trim_runes_length [of "take ?cut rs"] wrap_cut_bounds [OF "1.prems"(1), of rs] by simp
    moreover have "set (trim_runes (take ?cut rs)) \<subseteq> set rs" "set (trim_runes (drop ?cut rs)) \<subseteq> set rs"
      using trim_runes_set set_take_subset set_drop_subset by (metis order_trans)+
    ultimately show ?thesis
      using 1 True wrap_runes.simps [of width rs] by auto
  next
    case False
    then show ?thesis
      using "1.prems" wrap_runes.simps [of width rs] by (auto split: if_splits)
  qed
qed

lemma decode_rune_low:
  assumes "s \<noteq> []" and "fst (decode_rune s) < 128"
  shows "byte (hd s) = fst (decode_rune s)"
proof -
  obtain c cs where s: "s = c # cs"
    using assms(1) by (cases s) auto
  have two: "128 \<le> fst (decode2 b ds)" if "194 \<le> b" for b ds
    using that by (auto simp: decode2_def rune_error_def split: list.splits)
  have three: "128 \<le> fst (decode3 lo hi b ds)" if "224 < b \<or> b = 224 \<and> 160 \<le> lo" for lo hi b ds
    using that by (auto simp: decode3_def cont_in_def rune_error_def split: list.splits)
  have four: "128 \<le> fst (decode4 lo hi b ds)" if "240 < b \<or> b = 240 \<and> 144 \<le> lo" for lo hi b ds
    using that by (auto simp: decode4_def cont_in_def rune_error_def split: list.splits)
  show ?thesis
  proof (cases "byte c < 128")
    case False
    then have "128 \<le> fst (decode_rune s)"
      using two three four by (auto simp: s Let_def rune_error_def)
    then show ?thesis
      using assms(2) by simp
  qed (simp add: s)
qed

lemma runes_low: "x \<in> set (runes s) \<Longrightarrow> x < 128 \<Longrightarrow> \<exists>c \<in> set s. byte c = x"
proof (induction s rule: runes.induct)
  case (1 s)
  show ?case
  proof (cases "s = []")
    case False
    then consider "x = fst (decode_rune s)" | "x \<in> set (runes (drop (snd (decode_rune s)) s))"
      using "1.prems"(1) runes.simps [of s] by auto
    then show ?thesis
    proof cases
      case 1
      then show ?thesis
        using False decode_rune_low [of s] "1.prems"(2) by (metis hd_in_set)
    next
      case 2
      then show ?thesis
        using "1.IH" [OF False _ "1.prems"(2)] by (auto dest: in_set_dropD)
    qed
  qed (use "1.prems" in simp)
qed

lemma wrap_line_ok:
  assumes "0 < width" and "LF \<notin> set line" and "p \<in> set (wrap_line width line)"
  shows "LF \<notin> set p \<and> length (runes p) \<le> width"
proof (cases "length (runes line) \<le> width")
  case True
  then show ?thesis
    using assms by (auto simp: wrap_line_def split: if_splits)
next
  case False
  then obtain q where q: "q \<in> set (wrap_runes width (runes line))" "p = utf8 q"
    using assms(3) by (auto simp: wrap_line_def)
  have bounds: "length q \<le> width" "set q \<subseteq> set (runes line)"
    using wrap_runes_bounds [OF assms(1) q(1)] by auto
  then have "list_all scalar q"
    using runes_scalar [of line] by (auto simp: list_all_iff)
  moreover have "10 \<notin> set q"
  proof
    assume "10 \<in> set q"
    then obtain c where "c \<in> set line" "byte c = 10"
      using bounds(2) runes_low [of 10 line] by auto
    then show False
      using assms(2) of_char_eq_iff [where 'a = nat, of c LF] by auto
  qed
  ultimately show ?thesis
    using bounds(1) runes_utf8 [of q] utf8_byte [of LF q] by (auto simp: q(2))
qed

lemma split_lines:
  "\<forall>l \<in> set ls. LF \<notin> set l \<Longrightarrow> ls \<noteq> [] \<Longrightarrow> split_on LF (butlast (concat (map (\<lambda>l. l @ [LF]) ls))) = ls"
proof -
  assume ls: "\<forall>l \<in> set ls. LF \<notin> set l" "ls \<noteq> []"
  have "butlast (concat (map (\<lambda>l. l @ [LF]) ls)) = join [LF] ls"
    using join_eq_concat [OF ls(2)] by (metis butlast_snoc)
  then show ?thesis
    using split_on_join [OF ls(2,1)] by simp
qed

text \<open>Wrapping keeps every line of the text alternative within the width: for every text and every
  width of at least one, wrapping ends and no line of its result has more runes than the width.\<close>

theorem wrapped_lines_bounded:
  "list_all (\<lambda>l. length (runes l) \<le> Suc width) (split_on LF (wrapText v (Suc width)))"
proof -
  define ls where "ls = concat (map (wrap_line (Suc width)) (split_on LF v))"
  define out where "out = concat (map (\<lambda>l. l @ [LF]) ls)"
  have ok: "LF \<notin> set l \<and> length (runes l) \<le> Suc width" if l: "l \<in> set ls" for l
  proof -
    obtain line where "line \<in> set (split_on LF v)" "l \<in> set (wrap_line (Suc width) line)"
      using l by (auto simp: ls_def)
    then show ?thesis
      using wrap_line_ok [of "Suc width" line l] split_on_no_sep by simp
  qed
  show ?thesis
  proof (cases "ls = []")
    case True
    then show ?thesis
      by (simp add: wrapText_def Let_def flip: ls_def)
  next
    case False
    then have "out \<noteq> []" "List.last out = LF"
      unfolding out_def by (cases ls rule: rev_cases; simp)+
    then have "wrapText v (Suc width) = butlast out"
      by (simp add: wrapText_def Let_def flip: ls_def out_def)
    then show ?thesis
      using split_lines [of ls] ok False by (simp add: out_def list_all_iff)
  qed
qed

section \<open>The bounded rendering\<close>

lemma count_omission_sum: "omission_sum (count_omission sec xs) = omission_sum xs + 1"
  by (induction sec xs rule: count_omission.induct) (auto simp: omission_sum_def)

lemma count_omission_keys:
  "distinct (map fst xs) \<Longrightarrow> distinct (map fst (count_omission sec xs)) \<and>
     map_of (count_omission sec xs) = (map_of xs)(sec \<mapsto> lookup_or 0 (map_of xs) sec + 1)"
proof (induction sec xs rule: count_omission.induct)
  case (2 sec n c xs)
  have "fst ` set (count_omission sec xs) \<subseteq> insert sec (fst ` set xs)"
    by (induction sec xs rule: count_omission.induct) auto
  then show ?case
    using 2 by (auto simp: fun_eq_iff lookup_or_def)
qed (auto simp: fun_eq_iff)

text \<open>A model with entries dropped from the ends of its sections.\<close>

definition shortened :: "report_model \<Rightarrow> report_model \<Rightarrow> bool" where
  "shortened m' m \<longleftrightarrow>
     prefix (rl_Confounders m') (rl_Confounders m) \<and> prefix (rl_Outliers m') (rl_Outliers m) \<and>
     prefix (rl_Findings m') (rl_Findings m) \<and> prefix (rl_Metrics m') (rl_Metrics m) \<and>
     prefix (rl_Contributions m') (rl_Contributions m) \<and> prefix (rl_Workload m') (rl_Workload m) \<and>
     prefix (rl_Sources m') (rl_Sources m) \<and> prefix (rl_Overhead m') (rl_Overhead m) \<and>
     prefix (rl_Comparisons m') (rl_Comparisons m) \<and> prefix (rl_Provenance m') (rl_Provenance m) \<and>
     prefix (rl_Recommendations m') (rl_Recommendations m) \<and>
     (rl_Recommendations m' = [] \<longleftrightarrow> rl_Recommendations m = []) \<and>
     rl_Guardrails m' = rl_Guardrails m \<and> rl_ScopeCounts m' = rl_ScopeCounts m \<and> md_head m' = md_head m"

lemma shortened_refl: "shortened m m"
  by (simp add: shortened_def)

lemma shortened_trans: "shortened a b \<Longrightarrow> shortened b c \<Longrightarrow> shortened a c"
  unfolding shortened_def by (elim conjE, intro conjI) (blast intro: prefix_order.trans | simp)+

lemma prefix_butlast: "prefix (butlast xs) xs"
  by (cases xs rule: rev_cases) auto

lemma shortened_updates:
  "shortened (m\<lparr> rl_Confounders := butlast (rl_Confounders m) \<rparr>) m"
  "shortened (m\<lparr> rl_Outliers := butlast (rl_Outliers m) \<rparr>) m"
  "shortened (m\<lparr> rl_Findings := butlast (rl_Findings m) \<rparr>) m"
  "shortened (m\<lparr> rl_Metrics := butlast (rl_Metrics m) \<rparr>) m"
  "shortened (m\<lparr> rl_Contributions := butlast (rl_Contributions m) \<rparr>) m"
  "shortened (m\<lparr> rl_Workload := butlast (rl_Workload m) \<rparr>) m"
  "shortened (m\<lparr> rl_Sources := butlast (rl_Sources m) \<rparr>) m"
  "shortened (m\<lparr> rl_Overhead := butlast (rl_Overhead m) \<rparr>) m"
  "shortened (m\<lparr> rl_Comparisons := butlast (rl_Comparisons m) \<rparr>) m"
  "shortened (m\<lparr> rl_Provenance := butlast (rl_Provenance m) \<rparr>) m"
  by (simp_all add: shortened_def prefix_butlast md_head_def)

lemma shortened_recommendations:
  "1 < length (rl_Recommendations m) \<Longrightarrow> shortened (m\<lparr> rl_Recommendations := butlast (rl_Recommendations m) \<rparr>) m"
  by (cases "rl_Recommendations m" rule: rev_cases) (auto simp: shortened_def md_head_def)

lemma if_Some_shortened:
  assumes "(if b then Some (sec', x) else e) = Some (sec, m')"
    and "b \<Longrightarrow> shortened x m" and "\<not> b \<Longrightarrow> e = Some (sec, m') \<Longrightarrow> shortened m' m"
  shows "shortened m' m"
  using assms by (cases b) auto

lemma truncate_shortened: "truncate_model m = Some (sec, m') \<Longrightarrow> shortened m' m"
  unfolding truncate_model_def
  apply (erule if_Some_shortened, rule shortened_updates)+
  apply (erule if_Some_shortened, erule shortened_recommendations)
  apply simp
  done

lemma omissions_sum: "distinct (map fst xs) \<Longrightarrow> omission_sum (omissions xs) = omission_sum xs"
proof -
  assume d: "distinct (map fst xs)"
  let ?f = "\<lambda>n. the (map_of xs n)"
  have "sum_list (map snd (omissions xs)) = sum_list (map ?f (sort_strings (map fst xs)))"
    by (simp add: omissions_def comp_def)
  also have "\<dots> = sum_list (map ?f (map fst xs))"
    using arg_cong [OF mset_sort_strings [of "map fst xs"], of "\<lambda>M. sum_mset (image_mset ?f M)"]
    by (simp add: image_mset.compositionality flip: sum_mset_sum_list)
  also have "map ?f (map fst xs) = map snd xs"
    using d by (auto simp: map_of_is_SomeI)
  finally show ?thesis
    by (simp add: omission_sum_def)
qed

lemma render_loop_outcome:
  assumes "distinct (map fst omitted)"
  shows "case render_loop marshal m format base omitted of
      Inr r \<Rightarrow> \<exists>m' more. shortened m' m \<and> distinct (map fst more) \<and> r = filled_result m' format more base \<and>
        omission_sum more = omission_sum omitted + int (model_size m) - int (model_size m') \<and>
        (\<exists>encoded. marshal r = Some encoded \<and> length encoded \<le> report_MaxResultBytes)
    | Inl e \<Rightarrow> \<exists>m' more. shortened m' m \<and>
        (marshal (filled_result m' format more base) = None \<or>
         (truncate_model m' = None \<and>
          (\<exists>encoded. marshal (filled_result m' format more base) = Some encoded \<and> report_MaxResultBytes < length encoded)))"
  using assms
proof (induction marshal m format base omitted rule: render_loop.induct)
  case (1 marshal m format base omitted)
  show ?case
  proof (cases "marshal (filled_result m format omitted base)")
    case None
    then show ?thesis
      using shortened_refl by (subst render_loop.simps) auto
  next
    case (Some encoded)
    show ?thesis
    proof (cases "length encoded \<le> report_MaxResultBytes")
      case True
      have "render_loop marshal m format base omitted = Inr (filled_result m format omitted base)"
        using Some True by (subst render_loop.simps) simp
      then show ?thesis
        using Some True 1(2) shortened_refl [of m] by (auto intro!: exI [of _ m] exI [of _ omitted])
    next
      case big: False
      show ?thesis
      proof (cases "truncate_model m")
        case None
        have "render_loop marshal m format base omitted = Inl ''report envelope exceeds byte budget''"
          using Some big None by (subst render_loop.simps) simp
        then show ?thesis
          using Some big None shortened_refl [of m] by (auto intro!: exI [of _ m] exI [of _ omitted])
      next
        case step: (Some p)
        obtain sec m' where p: "p = (sec, m')"
          by fastforce
        have run: "render_loop marshal m format base omitted = render_loop marshal m' format base (count_omission sec omitted)"
          using Some big step p by (subst render_loop.simps) simp
        have short: "shortened x m" if "shortened x m'" for x
          using shortened_trans [OF that truncate_shortened] step p by simp
        have size: "int (model_size m) = int (model_size m') + 1"
          using truncate_model_size step p by fastforce
        have ih: "case render_loop marshal m' format base (count_omission sec omitted) of
            Inr r \<Rightarrow> \<exists>x more. shortened x m' \<and> distinct (map fst more) \<and> r = filled_result x format more base \<and>
              omission_sum more = omission_sum (count_omission sec omitted) + int (model_size m') - int (model_size x) \<and>
              (\<exists>encoded. marshal r = Some encoded \<and> length encoded \<le> report_MaxResultBytes)
          | Inl e \<Rightarrow> \<exists>x more. shortened x m' \<and>
              (marshal (filled_result x format more base) = None \<or>
               (truncate_model x = None \<and>
                (\<exists>encoded. marshal (filled_result x format more base) = Some encoded \<and> report_MaxResultBytes < length encoded)))"
          using 1(1) [OF Some big step p [symmetric]] count_omission_keys [OF 1(2)] by blast
        show ?thesis
        proof (cases "render_loop marshal m' format base (count_omission sec omitted)")
          case (Inl e)
          then show ?thesis
            using ih short by (simp only: run sum.case) blast
        next
          case (Inr r)
          then obtain x more where x: "shortened x m'" "distinct (map fst more)" "r = filled_result x format more base"
            "omission_sum more = omission_sum (count_omission sec omitted) + int (model_size m') - int (model_size x)"
            "\<exists>encoded. marshal r = Some encoded \<and> length encoded \<le> report_MaxResultBytes"
            using ih by (simp only: sum.case) blast
          have "omission_sum more = omission_sum omitted + int (model_size m) - int (model_size x)"
            using x(4) size by (simp add: count_omission_sum)
          then show ?thesis
            using x short [OF x(1)] Inr by (simp only: run sum.case) blast
        qed
      qed
    qed
  qed
qed

lemma build_omissions: "report_Build env result = Inr m \<Longrightarrow> distinct (map fst (rl_initialOmissions m))"
  by (auto simp: report_Build_def bind_result_eq_Inr limit_recommendations_def sortModel_def
      split: option.splits if_splits prod.splits)

text \<open>C40: The bounded rendering ends and accounts for what it leaves out. When results can be encoded,
  a result it returns fits the limit, is the rendering of the model with entries dropped only from the
  ends of its sections, keeps a recommendation when there was one, all guardrails, scope counts and the
  heading, and its omission count is the number of dropped entries (with those the model had already
  dropped) and the total of its counts per section; it fails only when the model with nothing left to
  drop does not fit.\<close>

theorem render_bounded_accounts:
  assumes "\<And>r. marshal r \<noteq> None" and "report_Build env result = Inr m"
  shows "case RenderBounded marshal m format base of
      Inr r \<Rightarrow> length (the (marshal r)) \<le> report_MaxResultBytes \<and> rg_OmittedCount r = sum_list (map snd (rg_SectionOmissions r)) \<and>
        sorted (map fst (rg_SectionOmissions r)) \<and>
        (\<exists>m'. shortened m' m \<and> rg_Rendered r = Render m' format \<and>
          rg_OmittedCount r = sum_list (map snd (rl_initialOmissions m)) + int (model_size m) - int (model_size m'))
    | Inl e \<Rightarrow> \<exists>m' more. shortened m' m \<and> truncate_model m' = None \<and>
        report_MaxResultBytes < length (the (marshal (filled_result m' format more base)))"
proof -
  have d: "distinct (map fst (rl_initialOmissions m))"
    using build_omissions [OF assms(2)] .
  note out = render_loop_outcome [OF d, where marshal = marshal and m = m and format = format and base = base]
  show ?thesis
  proof (cases "RenderBounded marshal m format base")
    case (Inl e)
    then have "\<exists>m' more. shortened m' m \<and> (marshal (filled_result m' format more base) = None \<or>
         (truncate_model m' = None \<and>
          (\<exists>encoded. marshal (filled_result m' format more base) = Some encoded \<and> report_MaxResultBytes < length encoded)))"
      using out by (simp add: RenderBounded_def)
    then obtain m' more encoded where "shortened m' m" "truncate_model m' = None"
      "marshal (filled_result m' format more base) = Some encoded" "report_MaxResultBytes < length encoded"
      using assms(1) by blast
    then show ?thesis
      by (simp only: Inl sum.case) (metis option.sel)
  next
    case (Inr r)
    then obtain m' more where r: "shortened m' m" "distinct (map fst more)" "r = filled_result m' format more base"
      "omission_sum more = omission_sum (rl_initialOmissions m) + int (model_size m) - int (model_size m')"
      "\<exists>encoded. marshal r = Some encoded \<and> length encoded \<le> report_MaxResultBytes"
      using out by (simp only: RenderBounded_def sum.case) blast
    have "sum_list (map snd (omissions more)) = omission_sum more"
      using omissions_sum [OF r(2)] by (simp add: omission_sum_def)
    moreover have "sorted (map fst (omissions more))"
      by (simp add: omissions_def comp_def)
    moreover have "length (the (marshal r)) \<le> report_MaxResultBytes"
      using r(5) by auto
    moreover have "\<exists>m'. shortened m' m \<and> rg_Rendered r = Render m' format \<and>
          rg_OmittedCount r = sum_list (map snd (rl_initialOmissions m)) + int (model_size m) - int (model_size m')"
      using r by (intro exI [of _ m']) (simp add: filled_result_def omission_sum_def)
    ultimately show ?thesis
      by (simp add: Inr r(3) filled_result_def)
  qed
qed

definition sample_report :: governance_result where
  "sample_report = \<lparr> gv_SchemaVersion = ''1'', gv_Kind = ''result'', gv_AuditReference = ''all'', gv_Scope = ''portfolio'',
     gv_AsOf = 0, gv_RevisionHash = ''a'', gv_Coverage = ''complete'', gv_Metrics = [], gv_Findings = [],
     gv_Recommendations = [], gv_GovernanceOverhead = [],
     gv_Window = \<lparr> aw_StartsAt = 0, aw_EndsAt = 1, aw_AsOf = 1, aw_Timezone = ''UTC'', aw_BaselineVersion = ''b'',
       aw_CountingMode = ''c'', aw_WorkloadVersion = ''w'', aw_SourceVersions = [], aw_Revision = 1, aw_LateEvidence = False \<rparr>,
     gv_Contributions = [], gv_WorkloadEffects = [],
     gv_InvocationCounts = \<lparr> ic_HostCalls = 0, ic_LeafCalls = 0, ic_HostResults = 0, ic_LeafResults = 0, ic_UnknownCalls = 0 \<rparr>,
     gv_Outliers = [], gv_Confounders = [\<lparr> ct_Kind = ''k'', ct_State = ''s'', ct_Matched = True, ct_Confidence = ''c'',
       ct_Provenance = ''p'' \<rparr>],
     gv_Guardrails = [], gv_DerivationMethod = ''d'', gv_OmittedCount = 0,
     gv_ReportFacts = Some \<lparr> rf_Version = ''report-facts-v1'', rf_DisplayIdentity = ''x'', rf_PrivacySuppressed = False,
       rf_PreviousWindow = None, rf_RollingWindows = [],
       rf_ScopeCounts = \<lparr> rs_IncludedTrajectories = 0, rs_ExcludedTrajectories = None, rs_IncludedTurns = 0,
         rs_ExcludedTurns = None, rs_IncludedToolCalls = 0, rs_ExcludedToolCalls = None, rs_IncludedEvidence = 0,
         rs_ExcludedEvidence = None \<rparr>,
       rf_Sources = [], rf_Metrics = [], rf_QualityGateState = ''unknown'', rf_Outliers = [], rf_Recommendations = [],
       rf_Provenance = [] \<rparr> \<rparr>"

lemma sample_report_builds: "\<exists>m. report_Build env sample_report = Inr m"
  by (simp add: report_Build_def sample_report_def)

text \<open>An encoding that is too long as long as there is a confounder.\<close>

theorem render_bounded_accounts_witness:
  "\<exists>m. report_Build \<lparr> re_number = (\<lambda>_. ''0''), re_time = (\<lambda>_. ''t'') \<rparr> sample_report = Inr m \<and>
     (case RenderBounded (\<lambda>r. Some (replicate (nat (50001 - rg_OmittedCount r)) (CHR ''x''))) m ''chat'' \<lparr> rg_SchemaVersion = ''1'', rg_Kind = ''result'', rg_Format = ''chat'', rg_Rendered = '''',
         rg_Coverage = '''', rg_ProvenanceLabels = [], rg_RevisionHash = '''', rg_FallbackReason = '''', rg_OmittedCount = 0,
         rg_SectionOmissions = [] \<rparr> of
        Inr r \<Rightarrow> length (replicate (nat (50001 - rg_OmittedCount r)) (CHR ''x'')) \<le> 50000
      | Inl e \<Rightarrow> \<exists>m'. shortened m' m \<and> truncate_model m' = None)"
proof -
  let ?env = "\<lparr> re_number = (\<lambda>_. ''0''), re_time = (\<lambda>_. ''t'') \<rparr> :: report_env"
  obtain m where m: "report_Build ?env sample_report = Inr m"
    using sample_report_builds by blast
  show ?thesis
    using m render_bounded_accounts [of "\<lambda>r. Some (replicate (nat (50001 - rg_OmittedCount r)) (CHR ''x''))", OF _ m, of "''chat''" "\<lparr> rg_SchemaVersion = ''1'', rg_Kind = ''result'', rg_Format = ''chat'', rg_Rendered = '''',
         rg_Coverage = '''', rg_ProvenanceLabels = [], rg_RevisionHash = '''', rg_FallbackReason = '''', rg_OmittedCount = 0,
         rg_SectionOmissions = [] \<rparr>"]
    by (intro exI [of _ m]) (auto simp: report_MaxResultBytes_def split: sum.splits)
qed

end
