(* ===== verification/Report_Links.thy ===== *)
theory Report_Links
  imports Report_Props
begin

text \<open>
  Sanitised text has no active link: what the pattern of \<open>internal/report/render.go\<close> finds in a text,
  that its matches do not overlap, and that replacing them leaves none.
\<close>

section \<open>Matches of the pattern\<close>

text \<open>The words of the pattern with the rune that ends them.\<close>

definition link_words :: "(string \<times> nat) list" where
  "link_words = [(''http'', 58), (''https'', 58), (''ftp'', 58), (''mailto'', 58), (''javascript'', 58), (''data'', 58),
     (''file'', 58), (''www'', 46)]"

definition word_at :: "string \<Rightarrow> nat list \<Rightarrow> nat \<Rightarrow> bool" where
  "word_at w s i \<longleftrightarrow> (\<forall>k < length w. i + k < length s \<and> fold_class (w ! k) (s ! (i + k)))"

definition link_at :: "string \<Rightarrow> nat \<Rightarrow> nat list \<Rightarrow> nat \<Rightarrow> bool" where
  "link_at w t s i \<longleftrightarrow> word_boundary s i \<and> word_at w s i \<and> i + length w < length s \<and> s ! (i + length w) = t"

lemma rx_fold_ends: "rx_ends (rx_fold w) s i = (if word_at w s i then [i + length w] else [])"
proof (induction w arbitrary: i)
  case Nil
  then show ?case
    by (simp add: rx_fold_def word_at_def)
next
  case (Cons c w)
  have "word_at (c # w) s i \<longleftrightarrow> i < length s \<and> fold_class c (s ! i) \<and> word_at w s (Suc i)"
    by (auto simp: word_at_def less_Suc_eq_0_disj)
  then show ?case
    using Cons.IH [of "Suc i"] by (simp add: rx_fold_def)
qed

lemma delimited_ends:
  "e \<in> set (rx_ends (rx_seq [RBound, a, rx_lit [c]]) s i) \<longleftrightarrow>
     word_boundary s i \<and> (\<exists>j \<in> set (rx_ends a s i). j < length s \<and> s ! j = byte c \<and> e = Suc j)"
  by (auto simp: rx_seq_def rx_lit_def)

lemma word_at_s: "word_at (w @ ''s'') s i \<longleftrightarrow> word_at w s i \<and> word_at ''s'' s (i + length w)"
  by (auto simp: word_at_def nth_append less_Suc_eq add.commute)

lemma http_ends:
  "j \<in> set (rx_ends (rx_seq [rx_fold ''http'', rx_opt (rx_fold ''s'')]) s i) \<longleftrightarrow>
     (\<exists>w \<in> {''http'', ''https''}. word_at w s i \<and> j = i + length w)"
  using word_at_s [of "''http''" s i] by (auto simp: rx_seq_def rx_opt_def rx_fold_ends eval_nat_numeral split: if_splits)

lemma word_ends: "j \<in> set (rx_ends (rx_fold w) s i) \<longleftrightarrow> word_at w s i \<and> j = i + length w"
  by (auto simp: rx_fold_ends)

lemma scheme_ends:
  "j \<in> set (rx_ends (rx_alt [rx_seq [rx_fold ''http'', rx_opt (rx_fold ''s'')], rx_fold ''ftp'', rx_fold ''mailto'',
      rx_fold ''javascript'', rx_fold ''data'', rx_fold ''file'']) s i) \<longleftrightarrow>
   (\<exists>w \<in> {''http'', ''https'', ''ftp'', ''mailto'', ''javascript'', ''data'', ''file''}. word_at w s i \<and> j = i + length w)"
  by (simp only: rx_alt.simps rx_ends.simps set_append Un_iff http_ends word_ends bex_simps disj_assoc simp_thms)

lemma delimited_links:
  assumes "\<And>j. j \<in> set (rx_ends a s i) \<longleftrightarrow> (\<exists>w \<in> S. word_at w s i \<and> j = i + length w)"
  shows "e \<in> set (rx_ends (rx_seq [RBound, a, rx_lit [c]]) s i) \<longleftrightarrow>
    (\<exists>w \<in> S. link_at w (byte c) s i \<and> e = Suc (i + length w))"
  unfolding delimited_ends Bex_def assms link_at_def by blast

lemma activeLink_ends:
  "e \<in> set (rx_ends activeLink s i) \<longleftrightarrow> (\<exists>(w, t) \<in> set link_words. link_at w t s i \<and> e = Suc (i + length w))"
proof -
  have bytes: "byte (CHR '':'') = 58" "byte (CHR ''.'') = 46"
    by simp_all
  have www: "j \<in> set (rx_ends (rx_fold ''www'') s i) \<longleftrightarrow> (\<exists>w \<in> {''www''}. word_at w s i \<and> j = i + length w)" for j
    by (simp only: word_ends bex_simps simp_thms)
  show ?thesis
    by (simp only: activeLink_def rx_ends.simps set_append Un_iff delimited_links [OF scheme_ends] delimited_links [OF www]
        bytes link_words_def list.set bex_simps case_prod_conv disj_assoc simp_thms)
qed

lemma fold_class_letter: "97 \<le> byte c \<Longrightarrow> byte c \<le> 122 \<Longrightarrow> fold_class c r \<Longrightarrow>
    (r = byte c \<or> r + 32 = byte c \<or> r = 8490 \<and> byte c = 107 \<or> r = 383 \<and> byte c = 115)"
  by (auto simp: fold_class_def Let_def split: if_splits)

lemma link_word_letters: "(w, t) \<in> set link_words \<Longrightarrow> c \<in> set w \<Longrightarrow> 97 \<le> byte c \<and> byte c \<le> 122"
  by (auto simp: link_words_def)

lemma link_word_end: "(w, t) \<in> set link_words \<Longrightarrow> t = 58 \<or> t = 46"
  by (auto simp: link_words_def)

text \<open>A rune of a word is not the end of one, and stands for one letter only.\<close>

lemma letter_not_end: "97 \<le> byte c \<Longrightarrow> byte c \<le> 122 \<Longrightarrow> fold_class c r \<Longrightarrow> r \<noteq> 58 \<and> r \<noteq> 46 \<and> r \<noteq> 8758"
  using fold_class_letter by fastforce

lemma letter_unique:
  assumes "97 \<le> byte c" "byte c \<le> 122" "97 \<le> byte d" "byte d \<le> 122" "fold_class c r" "fold_class d r"
  shows "c = d"
proof -
  have "byte c = byte d"
    using fold_class_letter [OF assms(1,2,5)] fold_class_letter [OF assms(3,4,6)] assms(1-4)
    by (elim disjE conjE; linarith)
  then show ?thesis
    by simp
qed

lemma no_word_inside:
  assumes "(w, t) \<in> set link_words" "(w', t') \<in> set link_words" "0 < n" "w' = drop n w" "w' \<noteq> []"
  shows False
proof -
  have "list_all (\<lambda>(w, t). list_all (\<lambda>(w', t'). list_all (\<lambda>n. drop n w \<noteq> w') [1..<length w]) link_words) link_words"
    by code_simp
  then have "\<forall>k \<in> {1..<length w}. drop k w \<noteq> w'"
    using assms(1,2) by (fastforce simp: list_all_iff)
  moreover have "n < length w"
    using assms(4,5) by (cases "n < length w") auto
  ultimately have "drop n w \<noteq> w'"
    using assms(3) by simp
  then show False
    using assms(4) by simp
qed

section \<open>Replacing the matches\<close>

text \<open>A rune of the result stands where a rune of the text stood.\<close>

definition similar :: "nat \<Rightarrow> nat \<Rightarrow> bool" where
  "similar r x \<longleftrightarrow> r = x \<or> r = 8758 \<and> (x = 58 \<or> x = 46) \<or> r = 119 \<and> x = 87"

lemma word_length: "(w, t) \<in> set link_words \<Longrightarrow> w = ''www'' \<longleftrightarrow> t = 46"
  by (auto simp: link_words_def)

lemma link_take:
  assumes "link_at w t s i"
  shows "take (Suc (length w)) (drop i s) = map (\<lambda>k. s ! (i + k)) [0..<length w] @ [t]"
    and "i + length w < length s"
proof -
  show len: "i + length w < length s"
    using assms by (simp add: link_at_def)
  have "take (Suc (length w)) (drop i s) = take (length w) (drop i s) @ [drop i s ! length w]"
    using len by (intro take_Suc_conv_app_nth) simp
  moreover have "take (length w) (drop i s) = map (\<lambda>k. s ! (i + k)) [0..<length w]"
    using len by (intro nth_equalityI) auto
  ultimately show "take (Suc (length w)) (drop i s) = map (\<lambda>k. s ! (i + k)) [0..<length w] @ [t]"
    using assms len by (simp add: link_at_def)
qed

lemma neutral_match_link:
  assumes "(w, t) \<in> set link_words" and "link_at w t s i"
  defines "m \<equiv> take (Suc (length w)) (drop i s)"
  shows "length (neutral_match m) = Suc (length w) \<and> neutral_match m ! length w = 8758 \<and>
    (\<forall>k < Suc (length w). similar (neutral_match m ! k) (s ! (i + k)))"
proof -
  note m = link_take(1) [OF assms(2), folded m_def]
  have word: "\<forall>k < length w. fold_class (w ! k) (s ! (i + k))" "s ! (i + length w) = t"
    using assms(2) by (auto simp: link_at_def word_at_def)
  show ?thesis
  proof (cases "t = 46")
    case True
    then have w: "w = ''www''"
      using word_length [OF assms(1)] by simp
    have fold: "fold_class (CHR ''w'') (s ! i)" "fold_class (CHR ''w'') (s ! Suc i)" "fold_class (CHR ''w'') (s ! Suc (Suc i))"
      using word(1) by (auto simp: w less_Suc_eq)
    have nm: "neutral_match m = [119, 119, 119, 8758]"
      using fold True by (simp add: neutral_match_def m w fold_class_def)
    have "similar 119 x" if "fold_class (CHR ''w'') x" for x
      using fold_class_letter [OF _ _ that] by (auto simp: similar_def)
    then show ?thesis
      using fold word(2) True by (auto simp: nm w less_Suc_eq similar_def)
  next
    case False
    then have t: "t = 58"
      using link_word_end [OF assms(1)] by simp
    have "\<not> list_all2 (\<lambda>r c. fold_class c r) m ''www.''"
    proof
      assume l: "list_all2 (\<lambda>r c. fold_class c r) m ''www.''"
      then have "length w = 3"
        using list_all2_lengthD [OF l] by (simp add: m)
      then have "fold_class (''www.'' ! 3) (m ! 3)" and "m ! 3 = 58"
        using list_all2_nthD [OF l, of 3] by (simp_all add: m t nth_append)
      then show False
        by (simp add: fold_class_def)
    qed
    then have "neutral_match m = map (\<lambda>k. s ! (i + k)) [0..<length w] @ [8758]"
      by (simp add: neutral_match_def m t)
    then show ?thesis
      using word(2) t by (auto simp: nth_append similar_def less_Suc_eq)
  qed
qed

text \<open>Two matches, one starting in the other, are the same match.\<close>

lemma link_letter:
  "(w, t) \<in> set link_words \<Longrightarrow> link_at w t s i \<Longrightarrow> k < length w \<Longrightarrow>
     97 \<le> byte (w ! k) \<and> byte (w ! k) \<le> 122 \<and> fold_class (w ! k) (s ! (i + k)) \<and> s ! (i + k) \<noteq> 58 \<and> s ! (i + k) \<noteq> 46"
  using link_word_letters [of w t "w ! k"] letter_not_end [of "w ! k" "s ! (i + k)"]
  by (auto simp: link_at_def word_at_def)

lemma link_same_end:
  assumes w: "(w, t) \<in> set link_words" "link_at w t s i" and v: "(v, u) \<in> set link_words" "link_at v u s j"
    and ij: "i \<le> j" "j \<le> i + length w"
  shows "j + length v = i + length w"
proof (rule linorder_cases [of "j + length v" "i + length w"])
  assume "j + length v < i + length w"
  then have "s ! (j + length v) \<noteq> 58 \<and> s ! (j + length v) \<noteq> 46"
    using link_letter [OF w, of "j + length v - i"] ij by simp
  then show ?thesis
    using v link_word_end [OF v(1)] by (auto simp: link_at_def)
next
  assume "i + length w < j + length v"
  then have "s ! (i + length w) \<noteq> 58 \<and> s ! (i + length w) \<noteq> 46"
    using link_letter [OF v, of "i + length w - j"] ij by simp
  then show ?thesis
    using w link_word_end [OF w(1)] by (auto simp: link_at_def)
qed

lemma link_not_inside:
  assumes w: "(w, t) \<in> set link_words" "link_at w t s i" and v: "(v, u) \<in> set link_words" "link_at v u s j"
    and ij: "i < j" "j \<le> i + length w"
  shows False
proof -
  have ends: "j + length v = i + length w"
    using link_same_end [OF w v] ij by simp
  have "v = drop (j - i) w"
  proof (rule nth_equalityI)
    show "length v = length (drop (j - i) w)"
      using ends ij by simp
    fix k
    assume k: "k < length v"
    then have "fold_class (w ! (j - i + k)) (s ! (j + k))" "97 \<le> byte (w ! (j - i + k))" "byte (w ! (j - i + k)) \<le> 122"
      using link_letter [OF w, of "j - i + k"] ends ij by (auto simp: add.commute)
    then have "w ! (j - i + k) = v ! k"
      using letter_unique link_letter [OF v k] by blast
    then show "v ! k = drop (j - i) w ! k"
      using ends ij by simp
  qed
  moreover have "v \<noteq> []"
    using v(1) by (auto simp: link_words_def)
  ultimately show False
    using no_word_inside [OF w(1) v(1), of "j - i"] ij by simp
qed

lemma replaced_link:
  fixes s i
  defines "R \<equiv> rx_replace activeLink neutral_match s i"
  assumes "i \<le> length s"
  shows "length R = length s - i \<and> (\<forall>k < length R. similar (R ! k) (s ! (i + k))) \<and>
    (\<forall>j w t. i \<le> j \<longrightarrow> (w, t) \<in> set link_words \<longrightarrow> link_at w t s j \<longrightarrow> R ! (j + length w - i) = 8758)"
  unfolding R_def using assms(2)
proof (induction "length s - i" arbitrary: i rule: less_induct)
  case less
  show ?case
  proof (cases "i = length s")
    case True
    then show ?thesis
      by (subst (1 2 3 4) rx_replace.simps) (auto simp: link_at_def)
  next
    case False
    then have i: "i < length s"
      using less.prems by simp
    show ?thesis
    proof (cases "rx_ends activeLink s i")
      case Nil
      have R: "rx_replace activeLink neutral_match s i = s ! i # rx_replace activeLink neutral_match s (Suc i)"
        using i Nil by (subst rx_replace.simps) simp
      have none: "\<not> link_at w t s i" if "(w, t) \<in> set link_words" for w t
        using activeLink_ends [of "Suc (i + length w)" s i] Nil that by auto
      note IH = less.hyps [of "Suc i"]
      have hyp: "length (rx_replace activeLink neutral_match s (Suc i)) = length s - Suc i"
        "\<forall>k < length s - Suc i. similar (rx_replace activeLink neutral_match s (Suc i) ! k) (s ! (Suc i + k))"
        "\<forall>j w t. Suc i \<le> j \<longrightarrow> (w, t) \<in> set link_words \<longrightarrow> link_at w t s j \<longrightarrow>
           rx_replace activeLink neutral_match s (Suc i) ! (j + length w - Suc i) = 8758"
        using IH i by auto
      have "(s ! i # rx_replace activeLink neutral_match s (Suc i)) ! (j + length w - i) = 8758"
        if "i \<le> j" "(w, t) \<in> set link_words" "link_at w t s j" for j w t
      proof -
        have "Suc i \<le> j"
          using that none by (metis Suc_leI le_neq_implies_less)
        then show ?thesis
          using hyp(3) that by (simp add: Suc_diff_Suc nth_Cons')
      qed
      moreover have "similar ((s ! i # rx_replace activeLink neutral_match s (Suc i)) ! k) (s ! (i + k))" if "k < length s - i" for k
        using that hyp(2) by (cases k) (auto simp: similar_def)
      ultimately show ?thesis
        using hyp(1) i by (simp add: R Suc_diff_Suc)
    next
      case (Cons e es)
      then obtain w t where w: "(w, t) \<in> set link_words" "link_at w t s i" "e = Suc (i + length w)"
        using activeLink_ends [of e s i] by auto
      let ?m = "take (Suc (length w)) (drop i s)" and ?T = "rx_replace activeLink neutral_match s e"
      have R: "rx_replace activeLink neutral_match s i = neutral_match ?m @ ?T"
        using i Cons w(3) by (subst rx_replace.simps) simp
      note m = neutral_match_link [OF w(1,2)]
      have e: "e \<le> length s"
        using link_take(2) [OF w(2)] w(3) by simp
      have hyp: "length ?T = length s - e" "\<forall>k < length s - e. similar (?T ! k) (s ! (e + k))"
        "\<forall>j w t. e \<le> j \<longrightarrow> (w, t) \<in> set link_words \<longrightarrow> link_at w t s j \<longrightarrow> ?T ! (j + length w - e) = 8758"
        using less.hyps [of e] e w(3) by auto
      have "(neutral_match ?m @ ?T) ! (j + length v - i) = 8758"
        if j: "i \<le> j" "(v, u) \<in> set link_words" "link_at v u s j" for j v u
      proof -
        consider "j = i" | "i < j" "j \<le> i + length w" | "e \<le> j"
          using j(1) w(3) by linarith
        then show ?thesis
        proof cases
          case 1
          then have "length v = length w"
            using link_same_end [OF w(1,2) j(2,3)] by simp
          then show ?thesis
            using m 1 by (simp add: nth_append)
        next
          case 2
          then show ?thesis
            using link_not_inside [OF w(1,2) j(2,3)] by simp
        next
          case 3
          have "j + length v - i - Suc (length w) = j + length v - e" "\<not> j + length v - i < Suc (length w)"
            using 3 w(3) by simp_all
          then show ?thesis
            using hyp(3) j(2,3) 3 m by (simp add: nth_append)
        qed
      qed
      moreover have "similar ((neutral_match ?m @ ?T) ! k) (s ! (i + k))" if "k < length s - i" for k
      proof (cases "k < Suc (length w)")
        case True
        then show ?thesis
          using m by (simp add: nth_append)
      next
        case False
        then have "k - Suc (length w) < length s - e" "e + (k - Suc (length w)) = i + k"
          using that w(3) by auto
        then have "similar (?T ! (k - Suc (length w))) (s ! (i + k))"
          using hyp(2) by metis
        then show ?thesis
          using m False by (simp add: nth_append)
      qed
      ultimately show ?thesis
        using hyp(1) m w(3) e by (simp add: R)
    qed
  qed
qed

section \<open>No link is left\<close>

lemma similar_word_rune: "similar r x \<Longrightarrow> word_rune r = word_rune x"
  by (auto simp: similar_def word_rune_def)

lemma similar_letter:
  assumes "97 \<le> byte c" "byte c \<le> 122" "fold_class c r" "similar r x"
  shows "fold_class c x"
proof (cases "r = x")
  case False
  have "r \<noteq> 8758"
    using letter_not_end assms(1-3) by blast
  then have "r = 119" "x = 87"
    using False assms(4) by (auto simp: similar_def)
  moreover have "c = CHR ''w''"
    using letter_unique [OF assms(1,2) _ _ assms(3), of "CHR ''w''"] \<open>r = 119\<close> by (simp add: fold_class_def)
  ultimately show ?thesis
    by (simp add: fold_class_def)
qed (use assms in simp)

lemma neutral_no_link:
  assumes "(w, t) \<in> set link_words"
  shows "\<not> link_at w t (neutralizeSchemes s) i"
proof
  let ?R = "neutralizeSchemes s"
  assume link: "link_at w t ?R i"
  have R: "length ?R = length s" "\<forall>k < length s. similar (?R ! k) (s ! k)"
    "\<And>j w t. (w, t) \<in> set link_words \<Longrightarrow> link_at w t s j \<Longrightarrow> ?R ! (j + length w) = 8758"
    using replaced_link [of 0 s] by (auto simp: neutralizeSchemes_def)
  have len: "i + length w < length s" and t: "?R ! (i + length w) = t"
    using link R(1) by (auto simp: link_at_def)
  have "word_rune (?R ! k) = word_rune (s ! k)" if "k < length s" for k
    using that R(2) similar_word_rune by blast
  then have "word_boundary ?R i = word_boundary s i"
    using len R(1) by (auto simp: word_boundary_def)
  then have "word_boundary s i"
    using link by (simp add: link_at_def)
  moreover have "word_at w s i"
    unfolding word_at_def
  proof (intro allI impI conjI)
    fix k
    assume k: "k < length w"
    then show "i + k < length s"
      using len by simp
    then have "similar (?R ! (i + k)) (s ! (i + k))"
      using R(2) by blast
    then show "fold_class (w ! k) (s ! (i + k))"
      using link_letter [OF assms link k] similar_letter by blast
  qed
  moreover have "s ! (i + length w) = t"
    using R(2) len t link_word_end [OF assms] by (auto simp: similar_def)
  ultimately have "link_at w t s i"
    using len by (simp add: link_at_def)
  then have "?R ! (i + length w) = 8758"
    by (rule R(3) [OF assms])
  then show False
    using t link_word_end [OF assms] by auto
qed

text \<open>C37: Sanitised display text is inert: the text the renderer makes of any value contains no active
  link, that is no http, https, ftp, mailto, javascript, data or file scheme at a word boundary in any
  letter case and no such www prefix; and it contains no control or bidirectional override and no
  angle bracket.\<close>

theorem sanitized_text_inert:
  "\<not> MatchString activeLink (clean v) \<and> list_all display_rune (runes (clean v))"
proof
  have "rx_ends activeLink (clean_runes v) i = []" for i
  proof (rule ccontr)
    assume "rx_ends activeLink (clean_runes v) i \<noteq> []"
    then obtain e where "e \<in> set (rx_ends activeLink (clean_runes v) i)"
      by (cases "rx_ends activeLink (clean_runes v) i") auto
    then obtain w t where "(w, t) \<in> set link_words" "link_at w t (clean_runes v) i"
      unfolding activeLink_ends by blast
    then show False
      using neutral_no_link unfolding clean_runes_def by blast
  qed
  then show "\<not> MatchString activeLink (clean v)"
    by (simp add: MatchString_def rx_search_def runes_clean list_ex_iff)
  show "list_all display_rune (runes (clean v))"
    using clean_runes_display by (simp add: runes_clean)
qed

end
