(* ===== verification/Report_Tool.thy ===== *)
theory Report_Tool
  imports Tools Report_Links
begin

text \<open>
  \<open>internal/tools/service.go\<close>, the end of the audit flow: the report tool with the capability of the
  client it renders for, and the wrapper every tool call passes through (admission, strict decoding,
  the handler, the deadline, the size of the answer). The service is the one of \<open>Tools\<close> with the whole
  project audit as the body of a cached result. The JSON coder of results and the extension the client
  announced are parameters.
\<close>

section \<open>The capability of the client\<close>

datatype ext_value =
    ExtString string
  | ExtMap "(string \<times> ext_value) list"
  | ExtList "ext_value list"
  | ExtStrings "string list"
  | ExtOther

record reportCapabilityState =
  rcs_present :: bool
  rcs_valid :: bool

text \<open>The argument is the extension value of the session, \<open>None\<close> when the session, its parameters, its
  capabilities or the extension are missing.\<close>

definition reportCapability :: "ext_value option \<Rightarrow> reportCapabilityState" where
  "reportCapability extension =
     (case extension of
        None \<Rightarrow> \<lparr> rcs_present = False, rcs_valid = False \<rparr>
      | Some (ExtMap settings) \<Rightarrow>
          if map_of settings ''version'' \<noteq> Some (ExtString ''1'') then \<lparr> rcs_present = True, rcs_valid = False \<rparr>
          else (case map_of settings ''formats'' of
                  Some (ExtList formats) \<Rightarrow> \<lparr> rcs_present = True, rcs_valid = ExtString ''chat'' \<in> set formats \<rparr>
                | Some (ExtStrings typed) \<Rightarrow> \<lparr> rcs_present = True, rcs_valid = ''chat'' \<in> set typed \<rparr>
                | _ \<Rightarrow> \<lparr> rcs_present = True, rcs_valid = False \<rparr>)
      | Some _ \<Rightarrow> \<lparr> rcs_present = True, rcs_valid = False \<rparr>)"

definition chatSupported :: "reportCapabilityState \<Rightarrow> bool \<times> string" where
  "chatSupported state =
     (if rcs_valid state then (True, '''')
      else if rcs_present state then (False, ''chat_capability_malformed'')
      else (False, ''chat_capability_unavailable''))"

section \<open>Reports of session audits\<close>

definition audit_chat :: "audit_session_result \<Rightarrow> string" where
  "audit_chat audit =
     ''Coverage: '' @ asr_Coverage audit @ ''. Evidence references: '' @ show_nat (length (asr_EvidenceRefs audit)) @ ''.'' @
     concat (map (\<lambda>finding. '' '' @ clean finding @ ''.'') (asr_Findings audit))"

definition audit_markdown :: "audit_session_result \<Rightarrow> string" where
  "audit_markdown audit =
     ''## PromptBetter governance report'' @ [LF, LF] @ ''- Coverage: `'' @ asr_Coverage audit @ ''`'' @ [LF] @
     ''- Evidence references: '' @ show_nat (length (asr_EvidenceRefs audit)) @ [LF] @
     ''- Redaction applied: '' @ show_bool (asr_RedactionApplied audit) @ [LF] @
     (if asr_Findings audit = [] then ''''
      else ''- Findings:'' @ [LF] @ concat (map (\<lambda>finding. ''  - '' @ md finding @ [LF]) (asr_Findings audit)))"

definition audit_finding_row :: "nat \<times> string \<Rightarrow> string" where
  "audit_finding_row = (\<lambda>(index, finding). ''finding_'' @ show_nat (Suc index) @ '' | '' @ md finding @ [LF])"

definition audit_table :: "audit_session_result \<Rightarrow> string" where
  "audit_table audit =
     ''field | value'' @ [LF] @ ''--- | ---'' @ [LF] @ ''coverage | '' @ asr_Coverage audit @ [LF] @
     ''evidence_refs | '' @ show_nat (length (asr_EvidenceRefs audit)) @ [LF] @
     ''redaction_applied | '' @ show_bool (asr_RedactionApplied audit) @ [LF] @
     concat (map audit_finding_row (enumerate 0 (asr_Findings audit)))"

definition renderAudit :: "audit_session_result \<Rightarrow> string \<Rightarrow> string" where
  "renderAudit audit format =
     trim_space
       (if format = ReportFormatChat then audit_chat audit
        else if format = ReportFormatMarkdown then audit_markdown audit
        else if format = ReportFormatTable then audit_table audit
        else '''')"

section \<open>The report tool\<close>

record render_request =
  rrq_SchemaVersion :: string
  rrq_Kind :: string
  rrq_AuditReference :: string
  rrq_RevisionHash :: string
  rrq_Format :: string

text \<open>Errors of a tool call: stable errors, the errors of contexts and of admission, and any other.\<close>

datatype tool_error = Stable stable_error | Canceled | DeadlineExceeded | Busy | OtherError string

definition tools_maxResultBytes :: nat where
  "tools_maxResultBytes = 50000"

text \<open>The result the store returned, with the fields the tool inspects in front of it.\<close>

definition project_result :: "governance_result \<Rightarrow> governance_result audit_project_result" where
  "project_result r =
     \<lparr> apr_SchemaVersion = gv_SchemaVersion r, apr_Kind = gv_Kind r, apr_AuditReference = gv_AuditReference r,
       apr_Scope = gv_Scope r, apr_RevisionHash = gv_RevisionHash r, apr_Coverage = gv_Coverage r,
       apr_ReportFactsVersion = map_option rf_Version (gv_ReportFacts r), apr_Body = r \<rparr>"

definition report_format :: "reportCapabilityState \<Rightarrow> string \<Rightarrow> string \<times> string" where
  "report_format capability format =
     (if format = ReportFormatChat \<and> \<not> fst (chatSupported capability)
      then (ReportFormatMarkdown, snd (chatSupported capability)) else (format, ''''))"

definition report_base :: "string \<Rightarrow> string \<Rightarrow> string \<Rightarrow> string list \<Rightarrow> string \<Rightarrow> string \<Rightarrow> render_result" where
  "report_base format rendered coverage labels revision fallback =
     \<lparr> rg_SchemaVersion = SchemaVersion, rg_Kind = ''result'', rg_Format = format, rg_Rendered = rendered,
       rg_Coverage = coverage, rg_ProvenanceLabels = labels, rg_RevisionHash = revision, rg_FallbackReason = fallback,
       rg_OmittedCount = 0, rg_SectionOmissions = [] \<rparr>"

definition render_project ::
  "report_env \<Rightarrow> (render_result \<Rightarrow> string option) \<Rightarrow> reportCapabilityState \<Rightarrow> string \<Rightarrow>
   governance_result audit_project_result \<Rightarrow> tool_error + render_result" where
  "render_project env marshal capability requested project =
     (let (format, fallback) = report_format capability requested in
      case report_Build env (apr_Body project) of
        Inl _ \<Rightarrow> Inl (Stable (NewError ErrorCodeCoverageIncomplete ''governance report facts unavailable''
                   ''report_facts'' True))
      | Inr m \<Rightarrow>
          (case RenderBounded marshal m format
                 (report_base format '''' (apr_Coverage project) [''derived''] (apr_RevisionHash project) fallback) of
             Inl e \<Rightarrow> Inl (OtherError e)
           | Inr r \<Rightarrow> Inr r))"

definition render_session ::
  "string \<Rightarrow> (audit_session_result \<times> string list) option \<Rightarrow> tool_error + render_result" where
  "render_session format cached =
     (case cached of
        None \<Rightarrow> Inl (Stable (NewError ErrorCodeNotFound ''audit reference unavailable in this MCP session''
                  ''audit_reference'' False))
      | Some (audit, provenance) \<Rightarrow>
          let provenance = (if provenance = [] then [''unknown''] else provenance);
              rendered = renderAudit audit format
          in if rendered = '''' \<or> tools_maxResultBytes < length rendered
             then Inl (Stable (NewError ErrorCodeInternal ''governance report rendering failed'' ''audit_reference'' False))
             else Inr (report_base format rendered (asr_Coverage audit) provenance '''' ''''))"

definition cached_session :: "string \<Rightarrow> 'p session_state option \<Rightarrow> (audit_session_result \<times> string list) option" where
  "cached_session reference state =
     (case state of
        None \<Rightarrow> None
      | Some st \<Rightarrow>
          (case ss_audit st of
             None \<Rightarrow> None
           | Some audit \<Rightarrow> if ss_auditRef st = reference then Some (audit, ss_provenance st) else None))"

definition cached_project :: "string \<Rightarrow> string \<Rightarrow> 'p session_state option \<Rightarrow> 'p audit_project_result option" where
  "cached_project reference revision state =
     (case state of
        None \<Rightarrow> None
      | Some st \<Rightarrow>
          (case ss_projectAudits st revision of
             None \<Rightarrow> None
           | Some cached \<Rightarrow> if apr_AuditReference cached = reference then Some cached else None))"

definition renderGovernanceReport ::
  "report_env \<Rightarrow> (render_result \<Rightarrow> string option) \<Rightarrow> reportCapabilityState \<Rightarrow> string set \<Rightarrow> string \<Rightarrow>
   render_request \<Rightarrow> governance_result service \<Rightarrow> (tool_error + render_result) \<times> governance_result service" where
  "renderGovernanceReport env marshal capability active session request sv =
     (if rrq_SchemaVersion request \<noteq> SchemaVersion \<or> rrq_Kind request \<noteq> ''request'' \<or>
         length (rrq_AuditReference request) < 1 \<or> length (rrq_AuditReference request) > 128 then
        (Inl (Stable (NewError ErrorCodeInvalidSchema ''invalid governance report request'' ''request'' False)), sv)
      else if rrq_Format request \<noteq> ReportFormatChat \<and> rrq_Format request \<noteq> ReportFormatMarkdown \<and>
              rrq_Format request \<noteq> ReportFormatTable then
        (Inl (Stable (NewError ErrorCodeInvalidSchema ''unsupported report format'' ''format'' False)), sv)
      else if rrq_RevisionHash request \<noteq> '''' \<and> \<not> revisionHash (rrq_RevisionHash request) then
        (Inl (Stable (NewError ErrorCodeInvalidSchema ''invalid revision hash'' ''revision_hash'' False)), sv)
      else
        let sv = sv\<lparr> sv_state := pruneDisconnectedLocked active (sv_state sv) \<rparr>;
            state = map_of (sv_state sv) session
        in (if rrq_RevisionHash request \<noteq> '''' then
              (case cached_project (rrq_AuditReference request) (rrq_RevisionHash request) state of
                 None \<Rightarrow> Inl (Stable (NewError ErrorCodeNotFound ''audit revision unavailable in this MCP session''
                           ''revision_hash'' False))
               | Some project \<Rightarrow> render_project env marshal capability (rrq_Format request) project)
            else render_session (rrq_Format request) (cached_session (rrq_AuditReference request) state), sv))"

section \<open>The call of a tool\<close>

definition mapError :: "tool_error \<Rightarrow> stable_error" where
  "mapError e =
     (case e of
        Stable s \<Rightarrow> s
      | Canceled \<Rightarrow> NewError ErrorCodeBudgetExhausted ''tool execution stopped at its bound'' ''request'' True
      | DeadlineExceeded \<Rightarrow> NewError ErrorCodeBudgetExhausted ''tool execution stopped at its bound'' ''request'' True
      | Busy \<Rightarrow> NewError ErrorCodeBudgetExhausted ''tool concurrency bound reached'' ''request'' True
      | OtherError _ \<Rightarrow> NewError ErrorCodeInternal ''tool execution failed'' ''request'' False)"

text \<open>A call result: an error, or the output with its encoding as the content.\<close>

datatype 'o call_result = ErrorResult stable_error | SuccessResult 'o string

definition successResult :: "('o \<Rightarrow> string option) \<Rightarrow> 'o \<Rightarrow> 'o call_result" where
  "successResult marshal output =
     (case marshal output of
        None \<Rightarrow> ErrorResult (NewError ErrorCodeBudgetExhausted ''tool result exceeded its bound'' ''result'' False)
      | Some encoded \<Rightarrow>
          if tools_maxResultBytes < length encoded
          then ErrorResult (NewError ErrorCodeBudgetExhausted ''tool result exceeded its bound'' ''result'' False)
          else SuccessResult output encoded)"

text \<open>Decoding yields the input and whether another value follows it.\<close>

definition decodeStrict :: "('i \<times> bool) option \<Rightarrow> 'i option" where
  "decodeStrict decoded = (case decoded of Some (input, False) \<Rightarrow> Some input | _ \<Rightarrow> None)"

text \<open>
  The function \<open>register\<close> hands to the protocol library. \<open>admitted\<close> is whether a slot was free,
  \<open>ctx_err\<close> the state of the bounded context once the handler returned.
\<close>

definition call_tool ::
  "('o \<Rightarrow> string option) \<Rightarrow> bool \<Rightarrow> ('i \<times> bool) option \<Rightarrow> tool_error option \<Rightarrow>
   ('i \<Rightarrow> 's \<Rightarrow> (tool_error + 'o) \<times> 's) \<Rightarrow> 's \<Rightarrow> 'o call_result \<times> 's" where
  "call_tool marshal admitted decoded ctx_err handle s =
     (if \<not> admitted then (ErrorResult (mapError Busy), s)
      else case decodeStrict decoded of
          None \<Rightarrow> (ErrorResult (NewError ErrorCodeInvalidSchema ''request does not match the frozen schema''
                   ''request'' False), s)
        | Some input \<Rightarrow>
            let (output, s) = handle input s
            in case ctx_err of
                 Some e \<Rightarrow> (ErrorResult (mapError e), s)
               | None \<Rightarrow> (case output of
                             Inl e \<Rightarrow> (ErrorResult (mapError e), s)
                           | Inr v \<Rightarrow> (successResult marshal v, s)))"

section \<open>A serving session\<close>

text \<open>
  The calls a service has answered so far: the log holds, per successful project audit, its session, its
  request and the result returned. \<open>clone\<close> is the JSON round trip with which audits are cached.
\<close>

type_synonym audit_log = "(string \<times> audit_project_request \<times> governance_result audit_project_result) list"

inductive serving ::
  "(governance_result audit_project_result \<Rightarrow> governance_result audit_project_result option) \<Rightarrow>
   governance_result service \<Rightarrow> audit_log \<Rightarrow> governance_result service \<Rightarrow> bool"
  for clone sv0 where
  start: "sv_state sv0 = [] \<Longrightarrow> serving clone sv0 [] sv0"
| improve: "serving clone sv0 audits_done sv \<Longrightarrow> improvePrompt active ctx session request sv = (r, sv') \<Longrightarrow> serving clone sv0 audits_done sv'"
| goal: "serving clone sv0 audits_done sv \<Longrightarrow> createGoalPrompt active ctx session greq sv = (gr, sv') \<Longrightarrow> serving clone sv0 audits_done sv'"
| review: "serving clone sv0 audits_done sv \<Longrightarrow> createReviewFixPrompt uc active ctx session rreq sv = (rr, sv') \<Longrightarrow>
    serving clone sv0 audits_done sv'"
| lint: "serving clone sv0 audits_done sv \<Longrightarrow> lintPrompt uc active session lreq sv = (lr, sv') \<Longrightarrow> serving clone sv0 audits_done sv'"
| checkpoint: "serving clone sv0 audits_done sv \<Longrightarrow> getCheckpoint active session creq sv = (cr, sv') \<Longrightarrow> serving clone sv0 audits_done sv'"
| audit_session: "serving clone sv0 audits_done sv \<Longrightarrow> auditSession pt audits active session areq sv = (ar, sv') \<Longrightarrow>
    serving clone sv0 audits_done sv'"
| audit_refused: "serving clone sv0 audits_done sv \<Longrightarrow> auditProject clone paudits active session preq sv = (Inl e, sv') \<Longrightarrow>
    serving clone sv0 audits_done sv'"
| audit_project: "serving clone sv0 audits_done sv \<Longrightarrow> auditProject clone paudits active session preq sv = (Inr pr, sv') \<Longrightarrow>
    serving clone sv0 ((session, preq, pr) # audits_done) sv'"
| report: "serving clone sv0 audits_done sv \<Longrightarrow> renderGovernanceReport env marshal capability active session rreq sv = (rr, sv') \<Longrightarrow>
    serving clone sv0 audits_done sv'"

section \<open>Library: what the caches hold\<close>

lemma report_state:
  "sv_state (snd (renderGovernanceReport env marshal capability active session request sv)) \<in>
     {sv_state sv, pruneDisconnectedLocked active (sv_state sv)}"
  by (simp add: renderGovernanceReport_def Let_def)

lemma report_service_inv:
  assumes "service_inv sv0 sv" "renderGovernanceReport env marshal capability active session request sv = (r, sv')"
  shows "service_inv sv0 sv'"
  using assms by (auto simp: renderGovernanceReport_def Let_def service_inv_def prune_inv split: if_splits)

lemma serving_inv: "serving clone sv0 audits_done sv \<Longrightarrow> service_inv sv0 sv"
proof (induction rule: serving.induct)
  case start
  then show ?case
    by (simp add: service_inv_def state_inv_def)
next
  case report
  then show ?case
    by (blast intro: report_service_inv)
qed (blast intro: tool_step_inv tool_step.intros)+

text \<open>A property of every cached audit, by session; other changes of the state keep it.\<close>

definition cached_all :: "(string \<Rightarrow> string \<Rightarrow> 'p audit_project_result \<Rightarrow> bool) \<Rightarrow> 'p service \<Rightarrow> bool" where
  "cached_all P sv \<longleftrightarrow>
     (\<forall>session st revision a. map_of (sv_state sv) session = Some st \<longrightarrow> ss_projectAudits st revision = Some a \<longrightarrow>
        P session revision a)"

lemma cached_all_prune:
  "cached_all P sv \<Longrightarrow> cached_all P (sv\<lparr> sv_state := pruneDisconnectedLocked active (sv_state sv) \<rparr>)"
  by (auto simp: cached_all_def map_of_prune split: if_splits)

lemma sessionStateLocked_cached:
  assumes "cached_all P sv" "ss_projectAudits (fst (sessionStateLocked active session (sv_state sv))) revision = Some a"
  shows "P session revision a"
  using assms
  by (auto simp: sessionStateLocked_def Let_def empty_session_def cached_all_def map_of_prune split: option.splits if_splits)

lemma cached_all_update:
  assumes inv: "cached_all P sv"
    and new: "\<And>st revision a. (\<And>revision a. ss_projectAudits st revision = Some a \<Longrightarrow> P session revision a) \<Longrightarrow>
      ss_projectAudits (f st) revision = Some a \<Longrightarrow> P session revision a"
  shows "cached_all P (update_session active session f sv)"
  unfolding cached_all_def
proof (intro allI impI)
  fix s st revision a
  assume st: "map_of (sv_state (update_session active session f sv)) s = Some st" "ss_projectAudits st revision = Some a"
  show "P s revision a"
  proof (cases "s = session")
    case True
    then have "st = f (fst (sessionStateLocked active session (sv_state sv)))"
      using st(1) by (simp add: map_of_update_session)
    then show ?thesis
      using new [of "fst (sessionStateLocked active session (sv_state sv))"] sessionStateLocked_cached [OF inv] st(2) True
      by blast
  next
    case False
    then have "map_of (sv_state sv) s = Some st"
      using map_of_update_session_other [OF False, of active f sv] st(1) by auto
    then show ?thesis
      using inv st(2) by (auto simp: cached_all_def)
  qed
qed

lemma cached_all_save: "cached_all P sv \<Longrightarrow> cached_all P (saveCheckpoint active session v sv)"
  unfolding saveCheckpoint_def by (rule cached_all_update) auto

lemma cached_all_tools:
  assumes "cached_all P sv"
  shows "improvePrompt active ctx session request sv = (r, sv') \<Longrightarrow> cached_all P sv'"
    and "createGoalPrompt active ctx session greq sv = (gr, sv') \<Longrightarrow> cached_all P sv'"
    and "createReviewFixPrompt uc active ctx session rreq sv = (rr, sv') \<Longrightarrow> cached_all P sv'"
    and "lintPrompt uc active session lreq sv = (lr, sv') \<Longrightarrow> cached_all P sv'"
    and "getCheckpoint active session creq sv = (cr, sv') \<Longrightarrow> cached_all P sv'"
  using assms cached_all_save [OF assms] cached_all_prune [OF assms]
  by (auto simp: improvePrompt_def createGoalPrompt_def createReviewFixPrompt_def lintPrompt_def getCheckpoint_def Let_def
      split: if_splits sum.splits option.splits)

lemma cached_all_audit_session:
  assumes "cached_all P sv" "auditSession pt audits active session areq sv = (ar, sv')"
  shows "cached_all P sv'"
proof -
  have "cached_all P (update_session active session (\<lambda>st. st\<lparr> ss_auditRef := x, ss_audit := y, ss_provenance := z \<rparr>) sv)"
    for x y z
    by (rule cached_all_update [OF assms(1)]) auto
  then show ?thesis
    using assms by (auto simp: auditSession_def split: if_splits sum.splits)
qed

lemma cached_all_report:
  assumes "cached_all P sv" "renderGovernanceReport env marshal capability active session request sv = (r, sv')"
  shows "cached_all P sv'"
  using assms cached_all_prune [OF assms(1)] by (auto simp: renderGovernanceReport_def Let_def split: if_splits)

lemma evict_projects_sub: "fst (evict_projects audits order) k = Some a \<Longrightarrow> audits k = Some a"
  by (induction audits order rule: evict_projects.induct) (auto split: if_splits)

lemma evict_projects_keeps:
  "k \<notin> set (take (length order - 8) order) \<Longrightarrow> fst (evict_projects audits order) k = audits k"
proof (induction audits order rule: evict_projects.induct)
  case (2 audits h hs)
  show ?case
  proof (cases "length (h # hs) > 8")
    case True
    then have "take (length (h # hs) - 8) (h # hs) = h # take (length hs - 8) hs"
      by (simp add: take_Cons' Suc_diff_le)
    with 2 True show ?thesis by (simp add: fun_upd_def)
  qed simp
qed simp

lemma cache_project_entries:
  "ss_projectAudits (cache_project cached revision st) k = Some a \<Longrightarrow> ((ss_projectAudits st)(revision \<mapsto> cached)) k = Some a"
  using evict_projects_sub [of "(ss_projectAudits st)(revision \<mapsto> cached)"]
  by (simp add: cache_project_def Let_def case_prod_beta)

lemma cache_project_stored:
  assumes "session_inv st"
  shows "ss_projectAudits (cache_project cached revision st) revision = Some cached"
proof -
  let ?order = "if ss_projectAudits st revision = None then ss_projectOrder st @ [revision] else ss_projectOrder st"
  have "revision \<notin> set (take (length ?order - 8) ?order)"
    using assms by (auto simp: session_inv_def dest!: in_set_takeD)
  from evict_projects_keeps [OF this, of "(ss_projectAudits st)(revision \<mapsto> cached)"] show ?thesis
    by (simp add: cache_project_def Let_def case_prod_beta)
qed

text \<open>What a successful project audit checked and stored.\<close>

lemma audit_project_ok:
  assumes "auditProject clone audits active session request sv = (Inr r, sv')"
  obtains cached where "audit_ValidateRequest request = Inr ()" "check_allowed sv (apq_ConfiguredSources request) = Inr ()"
    "apr_AuditReference r = apq_Reference request" "revisionHash (apr_RevisionHash r)" "clone r = Some cached"
    "sv' = update_session active session (cache_project cached (apr_RevisionHash r)) sv"
  using assms
  by (auto simp: auditProject_def bind_result_eq_Inr split: sum.splits option.splits if_splits)

lemma audit_project_refused: "auditProject clone audits active session request sv = (Inl e, sv') \<Longrightarrow> sv' = sv"
  by (auto simp: auditProject_def split: sum.splits)

lemma cached_all_mono: "cached_all P sv \<Longrightarrow> (\<And>s v a. P s v a \<Longrightarrow> Q s v a) \<Longrightarrow> cached_all Q sv"
  unfolding cached_all_def by blast

text \<open>A session caches the copies of the results of its own project audits, under their revisions.\<close>

definition copied_from ::
  "(governance_result audit_project_result \<Rightarrow> governance_result audit_project_result option) \<Rightarrow> audit_log \<Rightarrow>
   string \<Rightarrow> string \<Rightarrow> governance_result audit_project_result \<Rightarrow> bool" where
  "copied_from clone audits_done session revision c \<longleftrightarrow>
     (\<exists>request r. (session, request, r) \<in> set audits_done \<and> clone r = Some c \<and> apr_RevisionHash r = revision)"

lemma serving_cached:
  assumes "serving clone sv0 audits_done sv"
  shows "cached_all (copied_from clone audits_done) sv"
  using assms
proof induction
  case start
  then show ?case
    by (simp add: cached_all_def)
next
  case (audit_project audits_done sv paudits active session preq pr sv')
  let ?Q = "copied_from clone ((session, preq, pr) # audits_done)"
  obtain cached where c: "clone pr = Some cached"
    "sv' = update_session active session (cache_project cached (apr_RevisionHash pr)) sv"
    using audit_project_ok [OF audit_project(2)] by metis
  have new: "?Q session (apr_RevisionHash pr) cached"
    using c(1) by (auto simp: copied_from_def)
  have "cached_all ?Q (update_session active session (cache_project cached (apr_RevisionHash pr)) sv)"
  proof (rule cached_all_update)
    show "cached_all ?Q sv"
      by (rule cached_all_mono [OF audit_project.IH]) (auto simp: copied_from_def)
  next
    fix st revision a
    assume old: "\<And>revision a. ss_projectAudits st revision = Some a \<Longrightarrow> ?Q session revision a"
      and a: "ss_projectAudits (cache_project cached (apr_RevisionHash pr) st) revision = Some a"
    then have "((ss_projectAudits st)(apr_RevisionHash pr \<mapsto> cached)) revision = Some a"
      using cache_project_entries by blast
    then show "?Q session revision a"
      using old [of revision a] new by (cases "revision = apr_RevisionHash pr") auto
  qed
  then show ?case
    using c(2) by simp
next
  case (audit_refused audits_done sv paudits active session preq e sv')
  then show ?case
    using audit_project_refused [OF audit_refused(2)] by simp
next
  case (improve audits_done sv active ctx session request r sv')
  show ?case by (rule cached_all_tools(1) [OF improve.IH improve.hyps(2)])
next
  case (goal audits_done sv active ctx session greq gr sv')
  show ?case by (rule cached_all_tools(2) [OF goal.IH goal.hyps(2)])
next
  case (review audits_done sv uc active ctx session rreq rr sv')
  show ?case by (rule cached_all_tools(3) [OF review.IH review.hyps(2)])
next
  case (lint audits_done sv uc active session lreq lr sv')
  show ?case by (rule cached_all_tools(4) [OF lint.IH lint.hyps(2)])
next
  case (checkpoint audits_done sv active session creq cr sv')
  show ?case by (rule cached_all_tools(5) [OF checkpoint.IH checkpoint.hyps(2)])
next
  case (audit_session audits_done sv pt audits active session areq ar sv')
  show ?case by (rule cached_all_audit_session [OF audit_session.IH audit_session.hyps(2)])
next
  case (report audits_done sv env marshal capability active session rreq rr sv')
  show ?case by (rule cached_all_report [OF report.IH report.hyps(2)])
qed

lemma serving_requests:
  assumes "serving clone sv0 audits_done sv" "(session, request, r) \<in> set audits_done"
  shows "audit_ValidateRequest request = Inr () \<and> check_allowed sv0 (apq_ConfiguredSources request) = Inr () \<and>
    apr_AuditReference r = apq_Reference request"
  using assms
proof (induction rule: serving.induct)
  case (audit_project audits_done sv paudits active s preq pr sv')
  show ?case
  proof (cases "(session, request, r) = (s, preq, pr)")
    case True
    have "sv_allowedSources sv = sv_allowedSources sv0" "sv_processEnabled sv = sv_processEnabled sv0"
      using serving_inv [OF audit_project(1)] by (simp_all add: service_inv_def)
    then have "check_allowed sv xs = check_allowed sv0 xs" for xs
      by (simp only: check_allowed_def)
    with True audit_project_ok [OF audit_project(2)] show ?thesis
      by (metis Pair_inject)
  next
    case False
    then have "(session, request, r) \<in> set audits_done"
      using audit_project.prems by (simp only: list.set(2) insert_iff) blast
    then show ?thesis
      by (rule audit_project.IH)
  qed
qed simp_all

lemma render_loop_fits:
  "render_loop marshal m format base omitted = Inr r \<Longrightarrow>
     \<exists>encoded. marshal r = Some encoded \<and> length encoded \<le> report_MaxResultBytes"
proof (induction marshal m format base omitted rule: render_loop.induct)
  case (1 marshal m format base omitted)
  show ?case
    using "1.prems" unfolding render_loop.simps [of marshal m format base omitted]
    by (auto split: option.splits if_splits dest: "1.IH")
qed

section \<open>Properties\<close>

text \<open>C34: A report shows only what the same session audited. Whatever calls a service has answered, a
  report that a session gets for a revision is the rendering of the cached JSON copy of the result of an
  earlier project audit of that session, whose revision hash the report request named; the copy carries
  the reference the report request named, the result that of the audit request, which had granted
  consent and asked only for sources of the configured allow-list.\<close>

theorem report_from_own_audit:
  assumes "serving clone sv0 audits_done sv"
    and "renderGovernanceReport env marshal capability active session request sv = (Inr result, sv')"
    and "rrq_RevisionHash request \<noteq> ''''"
  shows "\<exists>areq r c. (session, areq, r) \<in> set audits_done \<and> clone r = Some c \<and>
    apr_RevisionHash r = rrq_RevisionHash request \<and> apr_AuditReference r = apq_Reference areq \<and>
    apr_AuditReference c = rrq_AuditReference request \<and> apq_Consent areq = AuditConsentGranted \<and>
    (case sv_allowedSources sv0 of None \<Rightarrow> True | Some allowed \<Rightarrow> set (apq_ConfiguredSources areq) \<subseteq> allowed) \<and>
    render_project env marshal capability (rrq_Format request) c = Inr result"
proof -
  let ?state = "map_of (pruneDisconnectedLocked active (sv_state sv)) session"
  obtain c where c: "cached_project (rrq_AuditReference request) (rrq_RevisionHash request) ?state = Some c"
    "render_project env marshal capability (rrq_Format request) c = Inr result"
    using assms(2,3) by (auto simp: renderGovernanceReport_def Let_def split: if_splits option.splits)
  then obtain st where st: "map_of (sv_state sv) session = Some st"
    "ss_projectAudits st (rrq_RevisionHash request) = Some c" "apr_AuditReference c = rrq_AuditReference request"
    by (auto simp: cached_project_def map_of_prune split: option.splits if_splits)
  obtain areq r where r: "(session, areq, r) \<in> set audits_done" "clone r = Some c" "apr_RevisionHash r = rrq_RevisionHash request"
    using serving_cached [OF assms(1)] st(1,2) unfolding cached_all_def copied_from_def by blast
  note q = serving_requests [OF assms(1) r(1)]
  have "apq_Consent areq = AuditConsentGranted"
    using q by (auto simp: audit_ValidateRequest_def bind_result_eq_Inr split: if_splits)
  moreover have "case sv_allowedSources sv0 of None \<Rightarrow> True | Some allowed \<Rightarrow> set (apq_ConfiguredSources areq) \<subseteq> allowed"
    using check_allowed_ok [of sv0 "apq_ConfiguredSources areq" "()"] q by (auto split: option.splits)
  ultimately show ?thesis
    using r c(2) st(3) q by metis
qed

text \<open>C35: A project audit can be reported at once, and only by its session. A successful audit has cached a
  JSON copy of its result; when the copy carries the reference of the request, a well-formed report
  request of the same session for that reference and revision is answered by the rendering of the copy
  (in Markdown, with the reason, when chat was asked for and the client does not support it); a
  session that has not audited that revision is told it is unavailable.\<close>

theorem report_follows_audit:
  assumes "serving clone sv0 audits_done sv"
    and "auditProject clone audits active session areq sv = (Inr r, sv')"
    and "active' = {} \<or> session \<in> active'"
    and "rrq_SchemaVersion request = SchemaVersion" "rrq_Kind request = ''request''"
    and "rrq_Format request \<in> {ReportFormatChat, ReportFormatMarkdown, ReportFormatTable}"
    and "rrq_AuditReference request = apq_Reference areq" "rrq_RevisionHash request = apr_RevisionHash r"
  shows "(\<exists>c. clone r = Some c \<and>
      fst (renderGovernanceReport env marshal capability active' session request sv') =
        (if apr_AuditReference c = apq_Reference areq
         then render_project env marshal capability (rrq_Format request) c
         else Inl (Stable (NewError ErrorCodeNotFound ''audit revision unavailable in this MCP session'' ''revision_hash'' False)))) \<and>
    (other \<noteq> session \<longrightarrow> \<not> (\<exists>q a. (other, q, a) \<in> set audits_done \<and> apr_RevisionHash a = apr_RevisionHash r) \<longrightarrow>
      fst (renderGovernanceReport env marshal capability active' other request sv') =
        Inl (Stable (NewError ErrorCodeNotFound ''audit revision unavailable in this MCP session'' ''revision_hash'' False)))"
proof -
  let ?missing = "Inl (Stable (NewError ErrorCodeNotFound ''audit revision unavailable in this MCP session'' ''revision_hash'' False))"
  obtain c where a: "audit_ValidateRequest areq = Inr ()" "revisionHash (apr_RevisionHash r)" "clone r = Some c"
    and sv': "sv' = update_session active session (cache_project c (apr_RevisionHash r)) sv"
    using audit_project_ok [OF assms(2)] by metis
  have ref: "length (apq_Reference areq) \<noteq> 0" "length (apq_Reference areq) \<le> 128"
    using a(1) by (auto simp: audit_ValidateRequest_def bind_result_eq_Inr split: if_splits)
  have rev: "apr_RevisionHash r \<noteq> ''''"
    using a(2) by (auto simp: revisionHash_def)
  have passes: "fst (renderGovernanceReport env marshal capability active' s request sv') =
      (case cached_project (apq_Reference areq) (apr_RevisionHash r) (map_of (pruneDisconnectedLocked active' (sv_state sv')) s) of
         None \<Rightarrow> ?missing
       | Some project \<Rightarrow> render_project env marshal capability (rrq_Format request) project)" for s
    using ref rev a(2) assms(4-8) by (auto simp: renderGovernanceReport_def Let_def)
  have inv: "session_inv (fst (sessionStateLocked active session (sv_state sv)))"
    using serving_inv [OF assms(1)] sessionStateLocked_inv by (metis prod.collapse service_inv_def)
  have own: "map_of (pruneDisconnectedLocked active' (sv_state sv')) session =
      Some (cache_project c (apr_RevisionHash r) (fst (sessionStateLocked active session (sv_state sv))))"
    using assms(3) by (simp add: map_of_prune sv' map_of_update_session)
  have mine: "fst (renderGovernanceReport env marshal capability active' session request sv') =
      (if apr_AuditReference c = apq_Reference areq
       then render_project env marshal capability (rrq_Format request) c else ?missing)"
    unfolding passes own using cache_project_stored [OF inv] by (simp add: cached_project_def)
  have none: "cached_project (apq_Reference areq) (apr_RevisionHash r) (map_of (pruneDisconnectedLocked active' (sv_state sv')) other) = None"
    if "other \<noteq> session" "\<not> (\<exists>q a. (other, q, a) \<in> set audits_done \<and> apr_RevisionHash a = apr_RevisionHash r)"
  proof (rule ccontr)
    assume "\<not> ?thesis"
    then obtain st x where "map_of (sv_state sv') other = Some st" "ss_projectAudits st (apr_RevisionHash r) = Some x"
      by (auto simp: cached_project_def map_of_prune split: option.splits if_splits)
    then have "map_of (sv_state sv) other = Some st" "ss_projectAudits st (apr_RevisionHash r) = Some x"
      using map_of_update_session_other [OF that(1), of active "cache_project c (apr_RevisionHash r)" sv] sv' by auto
    then show False
      using serving_cached [OF assms(1)] that(2) unfolding cached_all_def copied_from_def by blast
  qed
  show ?thesis
    using mine none passes [of other] a(3) by (intro conjI exI [of _ c]) simp_all
qed

text \<open>C10: The session state stays bounded. From a fresh service, after any sequence of calls of the eight
  tools by any sessions, at most eight sessions are held, each under one key; every session
  caches at most eight project audits, exactly those its eviction order lists, each once; and
  the configured policy, source allow-list and process switch never change.\<close>

theorem service_state_bounded:
  assumes "serving clone (fresh_service ep allowed process) audits_done sv"
  shows "length (sv_state sv) \<le> 8 \<and> distinct (map fst (sv_state sv)) \<and>
    (\<forall>(key, st) \<in> set (sv_state sv). distinct (ss_projectOrder st) \<and> length (ss_projectOrder st) \<le> 8 \<and>
       dom (ss_projectAudits st) = set (ss_projectOrder st)) \<and>
    sv_executionPolicy sv = ep \<and> sv_allowedSources sv = allowed \<and> sv_processEnabled sv = process"
  using serving_inv [OF assms] by (simp add: service_inv_def state_inv_def session_inv_def fresh_service_def)

text \<open>The answer of a tool call fits its bound, and a report of a revision is never lost to it. A
  successful call carries the encoding of its output, of at most 50000 bytes; when the handler of the
  report tool returned the rendering of a project audit within its deadline, the call succeeds with it.\<close>

theorem report_call_fits:
  assumes "decodeStrict decoded = Some request" "rrq_RevisionHash request \<noteq> ''''"
    and "renderGovernanceReport env marshal capability active session request sv = (Inr result, sv')"
  shows "\<exists>encoded. call_tool marshal True decoded None (renderGovernanceReport env marshal capability active session) sv =
      (SuccessResult result encoded, sv') \<and> marshal result = Some encoded \<and> length encoded \<le> 50000"
proof -
  obtain m format base where "RenderBounded marshal m format base = Inr result"
    using assms(2,3)
    by (auto simp: renderGovernanceReport_def render_project_def Let_def case_prod_beta split: if_splits option.splits sum.splits)
  then obtain encoded where "marshal result = Some encoded" "length encoded \<le> report_MaxResultBytes"
    using render_loop_fits unfolding RenderBounded_def by blast
  then show ?thesis
    using assms
    by (auto simp: call_tool_def successResult_def tools_maxResultBytes_def report_MaxResultBytes_def)
qed

section \<open>Witnesses\<close>

text \<open>A session that audits the portfolio and asks for its report.\<close>

definition portfolio_request :: audit_project_request where
  "portfolio_request =
     \<lparr> apq_SchemaVersion = SchemaVersion, apq_Kind = ''request'', apq_Scope = ''portfolio'', apq_Reference = ''all'',
       apq_ConfiguredSources = [''rollout''], apq_StartsAt = 1, apq_EndsAt = 2, apq_AsOf = 2,
       apq_Consent = AuditConsentGranted \<rparr>"

definition portfolio_result :: "governance_result audit_project_result" where
  "portfolio_result = project_result (sample_report\<lparr> gv_SchemaVersion := SchemaVersion, gv_Kind := ''result'',
     gv_AuditReference := ''all'', gv_Scope := ''portfolio'', gv_RevisionHash := replicate 64 (CHR ''a'') \<rparr>)"

definition portfolio_report_request :: render_request where
  "portfolio_report_request =
     \<lparr> rrq_SchemaVersion = SchemaVersion, rrq_Kind = ''request'', rrq_AuditReference = ''all'',
       rrq_RevisionHash = replicate 64 (CHR ''a''), rrq_Format = ReportFormatTable \<rparr>"

abbreviation idle_service :: "governance_result service" where
  "idle_service \<equiv> fresh_service ExecutionPolicyImproveOnly (Some {''rollout''}) False"

abbreviation audited_service :: "governance_result service" where
  "audited_service \<equiv> update_session {} ''s'' (cache_project portfolio_result (replicate 64 (CHR ''a''))) idle_service"

lemma portfolio_audited:
  "auditProject Some (Some (\<lambda>_. Inr portfolio_result)) {} ''s'' portfolio_request idle_service =
     (Inr portfolio_result, audited_service)"
proof -
  have "revisionHash (replicate 64 (CHR ''a''))"
    by (simp add: revisionHash_def list_all_iff hex_lower_def)
  then show ?thesis
    by (simp add: auditProject_def audit_ValidateRequest_def check_allowed_def portfolio_request_def fresh_service_def
        portfolio_result_def project_result_def sample_report_def)
qed

lemma idle_serving: "serving Some idle_service [] idle_service"
  by (rule serving.start) (simp add: fresh_service_def)

lemma audited_serving:
  "serving Some idle_service [(''s'', portfolio_request, portfolio_result)] audited_service"
  using serving.audit_project [OF idle_serving portfolio_audited] .

lemma portfolio_facts:
  "apr_RevisionHash portfolio_result = replicate 64 (CHR ''a'')" "rrq_RevisionHash portfolio_report_request = replicate 64 (CHR ''a'')"
  "rrq_AuditReference portfolio_report_request = apq_Reference portfolio_request"
  "rrq_Format portfolio_report_request = ReportFormatTable"
  "apr_AuditReference portfolio_result = apq_Reference portfolio_request"
  "rrq_SchemaVersion portfolio_report_request = SchemaVersion" "rrq_Kind portfolio_report_request = ''request''"
  by (simp_all add: portfolio_result_def project_result_def portfolio_report_request_def portfolio_request_def)

theorem report_follows_audit_witness:
  "\<forall>env. fst (renderGovernanceReport env (\<lambda>_. Some '''') \<lparr> rcs_present = False, rcs_valid = False \<rparr> {} ''s''
      portfolio_report_request audited_service) =
    render_project env (\<lambda>_. Some '''') \<lparr> rcs_present = False, rcs_valid = False \<rparr> ReportFormatTable portfolio_result"
proof
  fix env :: report_env
  show "fst (renderGovernanceReport env (\<lambda>_. Some '''') \<lparr> rcs_present = False, rcs_valid = False \<rparr> {} ''s''
      portfolio_report_request audited_service) =
    render_project env (\<lambda>_. Some '''') \<lparr> rcs_present = False, rcs_valid = False \<rparr> ReportFormatTable portfolio_result"
    using report_follows_audit [OF idle_serving portfolio_audited, where active' = "{}" and request = portfolio_report_request
        and env = env and marshal = "\<lambda>_. Some ''''" and capability = "\<lparr> rcs_present = False, rcs_valid = False \<rparr>"
        and other = "''s''"]
    by (simp only: portfolio_facts simp_thms option.inject if_True insert_iff ex_simps)
qed

theorem service_state_bounded_witness:
  "length (sv_state audited_service) \<le> 8 \<and> distinct (map fst (sv_state audited_service)) \<and>
     sv_allowedSources audited_service = Some {''rollout''}"
  using service_state_bounded [OF audited_serving] by blast

lemma portfolio_rendered:
  "\<exists>result. renderGovernanceReport env (\<lambda>_. Some '''') capability {} ''s'' portfolio_report_request audited_service =
     (Inr result, audited_service)"
proof -
  have build: "\<exists>m. report_Build env (apr_Body portfolio_result) = Inr m"
    by (simp add: report_Build_def portfolio_result_def project_result_def sample_report_def)
  then obtain m where m: "report_Build env (apr_Body portfolio_result) = Inr m"
    by blast
  have "\<exists>result. RenderBounded (\<lambda>_. Some '''') m format base = Inr result" for format base
    by (simp add: RenderBounded_def render_loop.simps)
  then have "\<exists>result. render_project env (\<lambda>_. Some '''') capability ReportFormatTable portfolio_result = Inr result"
    by (auto simp: render_project_def m case_prod_beta split: sum.split) (metis sum.distinct(1))
  moreover have "snd (renderGovernanceReport env (\<lambda>_. Some '''') capability {} ''s'' portfolio_report_request audited_service) =
      audited_service"
    by (simp add: renderGovernanceReport_def Let_def pruneDisconnectedLocked_def)
  moreover have "fst (renderGovernanceReport env (\<lambda>_. Some '''') capability {} ''s'' portfolio_report_request audited_service) =
      render_project env (\<lambda>_. Some '''') capability ReportFormatTable portfolio_result"
  proof -
    have "revisionHash (replicate 64 (CHR ''a''))"
      by (simp add: revisionHash_def list_all_iff hex_lower_def)
    moreover have "cached_project ''all'' (replicate 64 (CHR ''a'')) (map_of (sv_state audited_service) ''s'') = Some portfolio_result"
      using cache_project_stored [OF session_inv_empty, of portfolio_result "replicate 64 (CHR ''a'')"]
      by (simp add: cached_project_def map_of_update_session sessionStateLocked_def pruneDisconnectedLocked_def fresh_service_def
          portfolio_result_def project_result_def)
    ultimately show ?thesis
      by (simp add: renderGovernanceReport_def Let_def pruneDisconnectedLocked_def portfolio_report_request_def)
  qed
  ultimately show ?thesis
    by (metis prod.collapse)
qed

theorem report_from_own_audit_witness:
  "\<exists>result areq r. renderGovernanceReport \<lparr> re_number = (\<lambda>_. ''0''), re_time = (\<lambda>_. ''t'') \<rparr> (\<lambda>_. Some '''')
      \<lparr> rcs_present = True, rcs_valid = True \<rparr> {} ''s'' portfolio_report_request audited_service = (Inr result, audited_service) \<and>
     (''s'', areq, r) \<in> set [(''s'', portfolio_request, portfolio_result)] \<and>
     render_project \<lparr> re_number = (\<lambda>_. ''0''), re_time = (\<lambda>_. ''t'') \<rparr> (\<lambda>_. Some '''')
       \<lparr> rcs_present = True, rcs_valid = True \<rparr> ReportFormatTable r = Inr result"
proof -
  let ?env = "\<lparr> re_number = (\<lambda>_. ''0''), re_time = (\<lambda>_. ''t'') \<rparr> :: report_env"
  let ?cap = "\<lparr> rcs_present = True, rcs_valid = True \<rparr>"
  obtain result where r: "renderGovernanceReport ?env (\<lambda>_. Some '''') ?cap {} ''s'' portfolio_report_request audited_service =
     (Inr result, audited_service)"
    using portfolio_rendered by blast
  show ?thesis
    using r report_from_own_audit [OF audited_serving r] unfolding portfolio_facts(4)
    by (metis option.inject portfolio_facts(2) replicate_empty zero_neq_numeral)
qed

theorem report_call_fits_witness:
  "\<exists>result encoded. call_tool (\<lambda>_. Some '''') True (Some (portfolio_report_request, False)) None
      (renderGovernanceReport \<lparr> re_number = (\<lambda>_. ''0''), re_time = (\<lambda>_. ''t'') \<rparr> (\<lambda>_. Some '''')
        \<lparr> rcs_present = True, rcs_valid = True \<rparr> {} ''s'') audited_service =
      (SuccessResult result encoded, audited_service) \<and> length encoded \<le> 50000"
proof -
  let ?env = "\<lparr> re_number = (\<lambda>_. ''0''), re_time = (\<lambda>_. ''t'') \<rparr> :: report_env"
  let ?cap = "\<lparr> rcs_present = True, rcs_valid = True \<rparr>"
  obtain result where r: "renderGovernanceReport ?env (\<lambda>_. Some '''') ?cap {} ''s'' portfolio_report_request audited_service =
     (Inr result, audited_service)"
    using portfolio_rendered by blast
  have "decodeStrict (Some (portfolio_report_request, False)) = Some portfolio_report_request"
    by (simp add: decodeStrict_def)
  moreover have "rrq_RevisionHash portfolio_report_request \<noteq> ''''"
    by (simp add: portfolio_report_request_def)
  ultimately show ?thesis
    using report_call_fits [OF _ _ r] by blast
qed

end
