(* ===== verification/Audit_Report.thy ===== *)
theory Audit_Report
  imports Governance_Audit Report_Tool
begin

text \<open>
  From an audit to its report: which results the renderer accepts, what the engine guarantees of the
  facts it attaches to a result, and what the output budget of the audit (\<open>boundResult\<close>) does to them.
\<close>

section \<open>What the renderer accepts\<close>

lemma fact_index_ok:
  "(\<exists>m'. fact_index e name m xs = Inr m') \<longleftrightarrow> distinct (map name xs) \<and> dom m \<inter> name ` set xs = {}"
proof (induction xs arbitrary: m)
  case (Cons x xs)
  show ?case
  proof (cases "m (name x)")
    case None
    then have "(\<exists>m'. fact_index e name m (x # xs) = Inr m') \<longleftrightarrow> (\<exists>m'. fact_index e name (m(name x \<mapsto> x)) xs = Inr m')"
      by simp
    also have "\<dots> \<longleftrightarrow> distinct (map name xs) \<and> insert (name x) (dom m) \<inter> name ` set xs = {}"
      unfolding Cons.IH by simp
    finally show ?thesis
      using None by auto
  qed auto
qed simp

lemma fact_index_dom: "fact_index e name m xs = Inr m' \<Longrightarrow> dom m' = dom m \<union> name ` set xs"
  by (induction e name m xs rule: fact_index.induct) (auto split: if_splits)

lemma paired_entries_ok:
  "(\<exists>es. paired_entries e facts name entry seen xs = Inr es) \<longleftrightarrow>
     distinct (map name xs) \<and> seen \<inter> name ` set xs = {} \<and> name ` set xs \<subseteq> dom facts"
proof (induction e facts name entry seen xs rule: paired_entries.induct)
  case (2 e facts name entry seen x xs)
  show ?case
  proof (cases "name x \<in> dom facts \<and> name x \<notin> seen")
    case True
    then obtain info where info: "facts (name x) = Some info"
      by blast
    have "(\<exists>es. paired_entries e facts name entry seen (x # xs) = Inr es) \<longleftrightarrow>
        (\<exists>es. paired_entries e facts name entry (insert (name x) seen) xs = Inr es)"
      using True info by (simp add: bind_result_eq_Inr)
    then show ?thesis
      using 2 [OF info] True by auto
  qed (auto split: option.splits)
qed simp

lemma outlier_loop_ok:
  "(\<exists>seen' os'. outlier_loop env results seen facts os = Inr (seen', os')) \<longleftrightarrow>
     distinct (map ro_Metric facts) \<and> seen \<inter> ro_Metric ` set facts = {} \<and> ro_Metric ` set facts \<subseteq> results"
  by (induction env results seen facts os rule: outlier_loop.induct) auto

lemma outlier_loop_seen:
  "outlier_loop env results seen facts os = Inr (seen', os') \<Longrightarrow> seen' = seen \<union> ro_Metric ` set facts"
  by (induction env results seen facts os rule: outlier_loop.induct) (auto split: if_splits)

definition facts_match :: "governance_result \<Rightarrow> report_facts \<Rightarrow> bool" where
  "facts_match r facts \<longleftrightarrow>
     rf_Version facts = ''report-facts-v1'' \<and>
     distinct (map rm_Name (rf_Metrics facts)) \<and> distinct (map mr_Name (gv_Metrics r)) \<and>
     mr_Name ` set (gv_Metrics r) \<subseteq> rm_Name ` set (rf_Metrics facts) \<and>
     distinct (map rn_Code (rf_Recommendations facts)) \<and> distinct (map rc_Code (gv_Recommendations r)) \<and>
     rc_Code ` set (gv_Recommendations r) \<subseteq> rn_Code ` set (rf_Recommendations facts) \<and>
     distinct (map ol_Metric (gv_Outliers r)) \<and> distinct (map ro_Metric (rf_Outliers facts)) \<and>
     ro_Metric ` set (rf_Outliers facts) = ol_Metric ` set (gv_Outliers r)"

lemma report_Build_ok:
  "(\<exists>m. report_Build env r = Inr m) \<longleftrightarrow> (case gv_ReportFacts r of None \<Rightarrow> False | Some facts \<Rightarrow> facts_match r facts)"
proof (cases "gv_ReportFacts r")
  case None
  then show ?thesis
    by (simp add: report_Build_def)
next
  case (Some facts)
  let ?mf = "fact_index ''report metric facts are ambiguous'' rm_Name Map.empty (rf_Metrics facts)"
  let ?rf = "fact_index ''report recommendation facts are ambiguous'' rn_Code Map.empty (rf_Recommendations facts)"
  let ?me = "\<lambda>labels. paired_entries ''report metrics are ambiguous or incomplete'' labels mr_Name (metric_entry env) {} (gv_Metrics r)"
  let ?re = "\<lambda>fs. paired_entries ''report recommendations are ambiguous or incomplete'' fs rc_Code recommendation_entry {} (gv_Recommendations r)"
  let ?results = "set (map ol_Metric (gv_Outliers r))"
  let ?ol = "outlier_loop env ?results {} (rf_Outliers facts) (map (outlier_entry env) (gv_Outliers r))"
  have outliers: "(\<exists>seen os. ?ol = Inr (seen, os) \<and> card seen = card ?results) \<longleftrightarrow>
      distinct (map ro_Metric (rf_Outliers facts)) \<and> ro_Metric ` set (rf_Outliers facts) = ?results"
    (is "?L \<longleftrightarrow> ?R")
  proof
    assume ?L
    then obtain seen os where ol: "?ol = Inr (seen, os)" "card seen = card ?results"
      by blast
    then have "seen = ro_Metric ` set (rf_Outliers facts)"
      using outlier_loop_seen by fastforce
    moreover have "distinct (map ro_Metric (rf_Outliers facts)) \<and> ro_Metric ` set (rf_Outliers facts) \<subseteq> ?results"
      using outlier_loop_ok [of env ?results "{}" "rf_Outliers facts" "map (outlier_entry env) (gv_Outliers r)"] ol(1) by blast
    ultimately show ?R
      using ol(2) by (metis List.finite_set card_subset_eq)
  next
    assume ?R
    then obtain seen os where ol: "?ol = Inr (seen, os)"
      using outlier_loop_ok [of env ?results "{}" "rf_Outliers facts" "map (outlier_entry env) (gv_Outliers r)"] by auto
    then have "seen = ?results"
      using outlier_loop_seen [OF ol] \<open>?R\<close> by simp
    then show ?L
      using ol by blast
  qed
  have "(\<exists>m. report_Build env r = Inr m) \<longleftrightarrow>
      rf_Version facts = ''report-facts-v1'' \<and> (\<exists>labels. ?mf = Inr labels \<and> (\<exists>ms. ?me labels = Inr ms)) \<and>
      (\<exists>fs. ?rf = Inr fs \<and> (\<exists>rs. ?re fs = Inr rs)) \<and> distinct (map ol_Metric (gv_Outliers r)) \<and>
      (\<exists>seen os. ?ol = Inr (seen, os) \<and> card seen = card ?results)"
    unfolding report_Build_def Some by (auto simp: bind_result_eq_Inr has_duplicate_iff) blast
  also have "(\<exists>labels. ?mf = Inr labels \<and> (\<exists>ms. ?me labels = Inr ms)) \<longleftrightarrow>
      distinct (map rm_Name (rf_Metrics facts)) \<and> distinct (map mr_Name (gv_Metrics r)) \<and>
      mr_Name ` set (gv_Metrics r) \<subseteq> rm_Name ` set (rf_Metrics facts)"
    unfolding paired_entries_ok
    using fact_index_ok [of "''report metric facts are ambiguous''" rm_Name Map.empty "rf_Metrics facts"]
      fact_index_dom [of "''report metric facts are ambiguous''" rm_Name Map.empty "rf_Metrics facts"] by fastforce
  also have "(\<exists>fs. ?rf = Inr fs \<and> (\<exists>rs. ?re fs = Inr rs)) \<longleftrightarrow>
      distinct (map rn_Code (rf_Recommendations facts)) \<and> distinct (map rc_Code (gv_Recommendations r)) \<and>
      rc_Code ` set (gv_Recommendations r) \<subseteq> rn_Code ` set (rf_Recommendations facts)"
    unfolding paired_entries_ok
    using fact_index_ok [of "''report recommendation facts are ambiguous''" rn_Code Map.empty "rf_Recommendations facts"]
      fact_index_dom [of "''report recommendation facts are ambiguous''" rn_Code Map.empty "rf_Recommendations facts"] by fastforce
  finally show ?thesis
    unfolding outliers by (auto simp: Some facts_match_def)
qed

section \<open>The facts of an audit\<close>

lemma distinct_option_filter:
  assumes "distinct (map f xs)" "\<And>x x' y y'. g x = Some y \<Longrightarrow> g x' = Some y' \<Longrightarrow> k y = k y' \<Longrightarrow> f x = f x'"
  shows "distinct (map k (List.map_filter g xs))"
  using assms(1)
proof (induction xs)
  case (Cons x xs)
  then show ?case
  proof (cases "g x")
    case (Some y)
    have "k y \<notin> k ` set (List.map_filter g xs)"
    proof
      assume "k y \<in> k ` set (List.map_filter g xs)"
      then obtain x' y' where "x' \<in> set xs" "g x' = Some y'" "k y = k y'"
        by (auto simp: List.map_filter_def)
      then have "f x = f x'"
        using assms(2) Some by blast
      with Cons.prems \<open>x' \<in> set xs\<close> show False
        by auto
    qed
    with Cons Some show ?thesis
      by (simp add: List.map_filter_simps)
  qed (simp add: List.map_filter_simps)
qed (simp add: List.map_filter_simps)

lemma distinct_map_sort_slice: "distinct (map f (sort_slice before xs)) \<longleftrightarrow> distinct (map f xs)"
  by (rule mset_eq_imp_distinct_iff) (simp add: mset_map mset_sort_slice)

lemma outliers_distinct:
  assumes "distinct (map mr_Name ms)"
  shows "distinct (map ol_Metric (outlier_Rank ms))"
proof -
  have "distinct (map ol_Metric (List.map_filter outlier_of ms))"
    using assms by (rule distinct_option_filter) (auto simp: outlier_of_def Let_def split: option.splits if_splits)
  then have "distinct (map ol_Metric (sort_slice outlier_before (List.map_filter outlier_of ms)))"
    by (simp add: distinct_map_sort_slice)
  then show ?thesis
    unfolding outlier_Rank_def by (metis distinct_take take_map)
qed

lemma detect_distinct: "distinct (map fd_Code (detect s))"
proof -
  have "distinct (map ob_Code (observations s))"
    by (simp add: observation_codes)
  then have "distinct (map fd_Code (List.map_filter diagnosis_evaluate (observations s)))"
    by (rule distinct_option_filter) (auto simp: diagnosis_evaluate_def Let_def split: if_splits prod.splits)
  then show ?thesis
    by (simp add: detect_def diagnosis_Evaluate_def distinct_map_sort_slice)
qed

lemma candidate_finding:
  "recommendation_candidate f = Some r \<Longrightarrow> recommendationFindingCode (rc_Code r) = fd_Code f"
  by (auto simp: recommendation_candidate_def preview_def recommendationFindingCode_def split: if_split_asm)

lemma recommendations_distinct:
  assumes "distinct (map fd_Code fs)"
  shows "distinct (map rc_Code (Generate fs cx))"
proof -
  have "distinct (map fd_Code (sort_slice finding_before fs))"
    using assms by (simp add: distinct_map_sort_slice)
  then have "distinct (map rc_Code (List.map_filter (recommended cx) (sort_slice finding_before fs)))"
    by (rule distinct_option_filter) (metis candidate_finding option.discI recommended_def)
  then have "distinct (map rc_Code (take 5 (List.map_filter (recommended cx) (sort_slice finding_before fs))))"
    by (metis distinct_take take_map)
  then show ?thesis
    by (simp add: Generate_def generate_loop_eq Let_def)
qed

lemma metric_names_distinct: "distinct metric_names"
  by (simp add: metric_names_def)

lemma audit_result_facts:
  assumes "distinct (map mr_Name calculated)"
  shows "facts_match (audit_result s revision calculated overhead (detect s') (audit_recommendations env s (detect s')))
    (buildReportFacts s calculated (detect s') (audit_recommendations env s (detect s')) (outlier_Rank calculated))"
proof -
  have "rm_Name \<circ> metric_fact = mr_Name" "rn_Code \<circ> recommendation_fact s (detect s') = rc_Code"
    "ro_Metric \<circ> outlier_fact s calculated (detect s') (audit_recommendations env s (detect s')) = ol_Metric"
    by (auto simp: fun_eq_iff metric_fact_def recommendation_fact_def outlier_fact_def Let_def split: prod.splits)
  moreover have "distinct (map rc_Code (audit_recommendations env s (detect s')))"
    unfolding audit_recommendations_def by (rule recommendations_distinct [OF detect_distinct])
  ultimately show ?thesis
    using assms outliers_distinct [OF assms]
    by (simp add: facts_match_def audit_result_def buildReportFacts_def Let_def image_comp)
qed

lemma audit_run_facts:
  assumes "audit_Run env src request = Some (Inr r)"
  shows "\<exists>facts. gv_ReportFacts r = Some facts \<and> facts_match r facts"
proof -
  obtain s i cs computed calculated overhead revision where
    c: "Compute i = Some (Inr computed)" "applyComparisons computed cs = Some calculated"
    and r: "r = audit_result s revision calculated overhead (detect s) (audit_recommendations env s (detect s))"
    using assms by (auto simp: audit_Run_def Let_def split: sum.splits option.splits)
  have "map mr_Name computed = sort_strings metric_names"
    using Compute_total [of i] c(1) by auto
  moreover have "map mr_Name calculated = map mr_Name computed"
    using applyComparisons_total [of computed cs] c(2) by auto
  ultimately have "distinct (map mr_Name calculated)"
    using metric_names_distinct by (simp add: sort_strings_def)
  from audit_result_facts [OF this] show ?thesis
    unfolding r by (simp add: audit_result_def)
qed

section \<open>The budget and the facts\<close>

lemma omit_in_names:
  "omit_in get put xs = Some ys \<Longrightarrow> (\<And>v x. name (put v x) = name x) \<Longrightarrow> map name ys = map name xs"
  by (induction get put xs arbitrary: ys rule: omit_in.induct) (auto split: option.splits if_splits)

lemma omit_step_kept:
  assumes "omit_step r = Some r'"
  shows "prefix (gv_Outliers r') (gv_Outliers r) \<and> map mr_Name (gv_Metrics r') = map mr_Name (gv_Metrics r) \<and>
    gv_Recommendations r' = gv_Recommendations r \<and> gv_ReportFacts r' = gv_ReportFacts r"
proof -
  have "map mr_Name ys = map mr_Name (gv_Metrics r)"
    if "omit_in mr_EvidenceRefs put_metric_refs (gv_Metrics r) = Some ys" for ys
    by (rule omit_in_names [OF that]) (simp add: put_metric_refs_def)
  then show ?thesis
    using assms
    by (auto simp: omit_step_def omitOneEvidenceReference_def omitLast_def prefix_butlast split: option.splits if_splits)
qed

lemma bound_loop_kept_facts:
  "bound_loop env limit r = Inr b \<Longrightarrow>
    prefix (gv_Outliers b) (gv_Outliers r) \<and> map mr_Name (gv_Metrics b) = map mr_Name (gv_Metrics r) \<and>
    gv_Recommendations b = gv_Recommendations r \<and> gv_ReportFacts b = gv_ReportFacts r"
proof (induction env limit r rule: bound_loop.induct)
  case (1 env limit r)
  show ?case
  proof (cases "omit_step r")
    case None
    then have "b = r"
      using "1.prems" by (subst (asm) bound_loop.simps) (auto split: option.splits if_splits)
    then show ?thesis
      by simp
  next
    case (Some r')
    have "b = r \<or> (\<exists>encoded. au_marshal env r = Some encoded \<and> \<not> length encoded \<le> limit \<and> bound_loop env limit r' = Inr b)"
      using "1.prems" Some by (subst (asm) bound_loop.simps) (auto split: option.splits if_splits)
    then show ?thesis
      using "1.IH" [OF _ _ Some] omit_step_kept [OF Some] by (metis prefix_order.trans prefix_order.refl)
  qed
qed

lemma prefix_same_set:
  assumes "prefix xs ys" "distinct (map f ys)" "f ` set xs = f ` set ys"
  shows "xs = ys"
proof -
  obtain zs where zs: "ys = xs @ zs"
    using assms(1) by (auto simp: prefix_def)
  then have "zs = []"
    using assms(2,3) by (cases zs) auto
  then show ?thesis
    using zs by simp
qed

lemma bounded_facts_match:
  assumes "facts_match r facts" "prefix (gv_Outliers b) (gv_Outliers r)"
    and "map mr_Name (gv_Metrics b) = map mr_Name (gv_Metrics r)" "gv_Recommendations b = gv_Recommendations r"
  shows "facts_match b facts \<longleftrightarrow> gv_Outliers b = gv_Outliers r"
proof
  assume "facts_match b facts"
  then show "gv_Outliers b = gv_Outliers r"
    using assms(1,2) by (intro prefix_same_set [where f = ol_Metric]) (auto simp: facts_match_def)
next
  assume "gv_Outliers b = gv_Outliers r"
  moreover have "mr_Name ` set (gv_Metrics b) = mr_Name ` set (gv_Metrics r)"
    by (metis assms(3) set_map)
  ultimately show "facts_match b facts"
    using assms by (simp add: facts_match_def)
qed

text \<open>What a project audit returns is the bounded, numbered result of one run of the engine.\<close>

lemma audit_project_origin:
  assumes "AuditProject env q conn txs request db = (Inr b, db', fate)" "history_ok db"
  obtains tx r n late where "audit_Run (ge_audit env) (source_Snapshot (q tx) (ge_audit env)) request = Some (Inr r)"
    and "n \<in> {1..int (length db) + 1}" and "BoundResult (ge_audit env) (numbered_result r n late) = Inr b"
    and "\<exists>row. map_of db' (Revision_Key (audit_revision_id env r)) = Some (Revision_Row row)"
proof -
  obtain canonical where run: "withSerializable (audit_transaction env q request) txs 1 maxTransactionAttempts db = (Inr canonical, db')"
    and b: "BoundResult (ge_audit env) canonical = Inr b"
    using assms(1) by (auto simp: AuditProject_def split: option.splits prod.splits sum.splits)
  obtain tx where "audit_transaction env q request tx db = Inr (canonical, db')"
    using withSerializable_cases [OF run] by auto
  then obtain r where "audit_Run (ge_audit env) (source_Snapshot (q tx) (ge_audit env)) request = Some (Inr r)"
    "persistAuditProject env tx request r db = Inr (canonical, db')"
    by (rule audit_transaction_Inr)
  with persisted_form [OF assms(2)] persist_history(3) [OF assms(2)] b that show thesis
    by metis
qed

lemma numbered_facts [simp]:
  "gv_ReportFacts (numbered_result r n late) = gv_ReportFacts r"
  "gv_Recommendations (numbered_result r n late) = gv_Recommendations r"
  by (simp_all add: numbered_result_def)

lemma copied_bound:
  assumes "copies_exactly env k r" "n \<in> {1..int k + 1}" "BoundResult env (numbered_result r n late) = Inr b"
  shows "bound_loop env MaxResultBytes (numbered_result r n late) = Inr b"
proof -
  obtain encoded where "au_marshal env (numbered_result r n late) = Some encoded"
    using BoundResult_encodes [OF assms(3)] by blast
  then show ?thesis
    using copies_exactlyD [OF assms(1) disjI2 [OF assms(2)]] assms(3) by (simp add: BoundResult_def boundResult_copy)
qed

abbreviation facts_unavailable :: stable_error where
  "facts_unavailable \<equiv> NewError ErrorCodeCoverageIncomplete ''governance report facts unavailable'' ''report_facts'' True"

lemma render_project_facts:
  "render_project renv marshal capability format (project_result b) = Inl (Stable facts_unavailable) \<longleftrightarrow>
     \<not> (\<exists>m. report_Build renv b = Inr m)"
  by (cases "report_Build renv b") (auto simp: render_project_def project_result_def case_prod_beta split: sum.splits)

lemma bounded_run_reportable:
  assumes "audit_Run env src request = Some (Inr r)"
    and "copies_exactly env k r" "n \<in> {1..int k + 1}" "BoundResult env (numbered_result r n late) = Inr b"
  shows "prefix (gv_Outliers b) (gv_Outliers r)"
    and "(\<exists>m. report_Build renv b = Inr m) \<longleftrightarrow> gv_Outliers b = gv_Outliers r"
proof -
  obtain facts where facts: "gv_ReportFacts r = Some facts" "facts_match r facts"
    using audit_run_facts [OF assms(1)] by blast
  from bound_loop_kept_facts [OF copied_bound [OF assms(2-4)]] have kept: "prefix (gv_Outliers b) (gv_Outliers r)"
    "map mr_Name (gv_Metrics b) = map mr_Name (gv_Metrics r)" "gv_Recommendations b = gv_Recommendations r"
    "gv_ReportFacts b = gv_ReportFacts r"
    by simp_all
  then show "prefix (gv_Outliers b) (gv_Outliers r)"
    by simp
  show "(\<exists>m. report_Build renv b = Inr m) \<longleftrightarrow> gv_Outliers b = gv_Outliers r"
    using kept facts bounded_facts_match [OF facts(2) kept(1-3)] by (simp add: report_Build_ok)
qed

section \<open>The reference of a suppressed audit\<close>

lemma alias_not_uuid: "\<not> uuidReference (opaqueAuditAlias sha v)"
  by (simp add: uuidReference_def opaqueAuditAlias_def split: list.split)

lemma audit_run_valid: "audit_Run env src request = Some (Inr r) \<Longrightarrow> audit_ValidateRequest request = Inr ()"
  by (auto simp: audit_Run_def split: sum.splits)

lemma valid_uuid:
  "audit_ValidateRequest request = Inr () \<Longrightarrow> apq_Scope request \<noteq> ''portfolio'' \<Longrightarrow> uuidReference (apq_Reference request)"
  unfolding audit_ValidateRequest_def bind_result_def by (simp split: if_split_asm sum.split_asm)

lemma audit_run_source_metrics:
  assumes "audit_Run env (source_Snapshot q env) request = Some (Inr r)" "auditFilter request = Inr (flt, turnFilter, args)"
  shows "\<exists>raw. source_metrics q flt turnFilter args = Inr raw"
proof -
  obtain s where "source_Snapshot q env request = Inr s"
    using assms(1) by (auto simp: audit_Run_def split: sum.splits)
  then show ?thesis
    using assms(2) by (auto simp: source_Snapshot_def bind_result_eq_Inr)
qed

lemma bound_loop_reference:
  assumes "bound_loop env limit (numbered_result r n late) = Inr b"
  shows "gv_AuditReference b = gv_AuditReference r"
proof -
  have "stripped b = stripped (numbered_result r n late)"
    using bound_loop_outcome [of env limit "numbered_result r n late"] assms by simp
  from arg_cong [OF this, of gv_AuditReference] show ?thesis
    by (simp add: stripped_def numbered_result_def)
qed

lemma foreign_reference_refused:
  assumes "audit_ValidateRequest request = Inr ()" "gv_AuditReference b \<noteq> apq_Reference request"
  shows "auditProject clone (Some (\<lambda>_. Inr (project_result b))) active session request sv =
    (Inl (case check_allowed sv (apq_ConfiguredSources request) of Inl e \<Rightarrow> e | Inr _ \<Rightarrow> facts_unavailable), sv)"
  using assms by (simp add: auditProject_def project_result_def split: sum.split)

end
