(* ===== verification/Spec2Isabelle.thy ===== *)
theory Spec2Isabelle
  imports
    Config
    Compile_Lint
    Tools
    Tokens
    Runtime
    Normalize_Ordering
    Lineage
    Adapters_Props
    Collection_Store_Props
    Dimensions_Props
    Attribution
    Runner
    Status
    Audit_Props
    Workload
    Discovery_Props
    Retention_Props
    Audit_Report
begin

text \<open>
  A verification library for codex-prompt-better.

  \<^bold>\<open>The program.\<close> The repository has two halves. The prompt half serves an MCP client: the tool
  service (\<open>internal/tools\<close>) keeps one state per client session and calls the compiler
  (\<open>internal/compiler\<close>), which normalises text (\<open>internal/textutil\<close>), builds and validates a plan,
  resolves the execution policy (\<open>internal/policy\<close>) and renders a prompt; the linter
  (\<open>internal/lint\<close>) judges prompts, and checkpoints (\<open>internal/checkpoint\<close>) are rendered back. The
  boundary engine (\<open>internal/boundary\<close>) decides about repository facts: it discovers candidates in a
  file tree, resolves them and their conflicts, evaluates policy packs (\<open>internal/policypack\<close>,
  \<open>policies/builtin\<close>) on them and ranks the decisions.

  The evidence half observes coding sessions. Source adapters (\<open>internal/adapters\<close>) read JSON lines
  into sanitised evidence (\<open>internal/evidence\<close>); the collector (\<open>internal/collector\<close>) runs them under a
  fenced lease and commits batches to PostgreSQL (\<open>internal/store/postgres\<close>); the runner passes over all
  sources. An audit (\<open>internal/audit\<close>, \<open>governance.go\<close> of the store) reads a snapshot of the stored
  evidence, computes metrics, compares them with baselines, detects findings, generates recommendations,
  bounds the result and stores it as a numbered revision; the report tool (\<open>internal/report\<close>) renders
  what its session audited. Retention (\<open>retention.go\<close>, \<open>internal/retention\<close>) archives and deletes expired
  evidence, \<open>internal/recovery\<close> backs the database up.

  \<^bold>\<open>Conventions.\<close> A Go string is a list of bytes (\<open>string\<close>); UTF-8, trimming, splitting, lower case
  and decimal text are defined on it in \<open>Go_Strings\<close>. Maps are partial functions, structs are
  records whose field names carry a short prefix, errors are the left side of a sum, a panic is None,
  \<open>int64\<close> wraps (\<open>Go_Num\<close>), \<open>uint64\<close> is a 64-bit word where sums and differences matter, times are
  integral nanoseconds. \<open>float64\<close> is the type of \<open>Go_Float\<close>: NaN, the infinities, and the finite values by
  their rational value, every operation rounded to nearest even; the sign of zero is not represented and
  operations are not fused. \<open>sort.Slice\<close> is \<open>sort_slice\<close> of \<open>Prelude\<close>, which places equal keys in
  their original order; the facts of its clients hold for keys that are distinct or do not depend on
  the order of equal keys. \<open>container/heap\<close> is \<open>Go_Heap\<close>, the regular expressions are \<open>Go_Regexp\<close>.

  \<^bold>\<open>Theories and the code they model.\<close>
  \<^item> \<open>Prelude\<close>, \<open>Go_Strings\<close>, \<open>Go_Num\<close>, \<open>Go_Float\<close>, \<open>Go_Heap\<close>, \<open>Go_Regexp\<close>: language and library.
  \<^item> \<open>Contracts\<close> (\<open>pkg/contracts/contracts.go\<close>), \<open>Audit_Types\<close> (its audit part), \<open>Policy\<close>
    (\<open>internal/policy/policy.go\<close>), \<open>Config\<close> (\<open>internal/config/config.go\<close>).
  \<^item> \<open>Boundary_Decision\<close> (\<open>decision.go\<close>): the decision table of \<open>Decide\<close>, which also shows that a
    permission-sensitive action needs no approval, against the built-in policy; decisions fail closed and
    never become more permissive when facts get worse.
  \<^item> \<open>Policypack\<close> (\<open>policypack.go\<close>, \<open>builtin.go\<close>): validation and evaluation of packs; evaluation
    returns exactly the matching rules in any order of the packs, extensions only narrow.
  \<^item> \<open>Boundary_Resolve\<close> (\<open>resolve.go\<close>): the depth-first search decides whether the conflict graph
    has a cycle. \<open>Boundary_Engine\<close> (\<open>engine.go\<close>): the bounded heap keeps the best decisions.
    \<open>Discovery\<close>, \<open>Discovery_Props\<close> (\<open>discovery.go\<close>): the walk of a file tree; it depends on the contents
    of instruction files only, its candidates and conflicts are well formed.
  \<^item> \<open>Textutil\<close>, \<open>Checkpoint\<close>, \<open>Compiler\<close> with \<open>Compiler_Sections\<close> and \<open>Compiler_Props\<close>, \<open>Lint\<close>,
    \<open>Compile_Lint\<close>: normal form of texts, rendering and reading back of plans, idempotence of the
    compiler, when it recommends execution, soundness of the lint verdict, and that the linter
    finds every section of a compiled prompt.
  \<^item> \<open>Tools\<close> (\<open>internal/tools/service.go\<close> and the request validation of \<open>internal/audit/audit.go\<close>): the
    handlers of seven tools as functions on the service state; checkpoints do not leak between sessions.
    \<open>Report_Tool\<close>: the report handler and the relation \<open>serving\<close>, any sequence of calls of all eight tools
    with the log of the audits answered; the state stays bounded, a report shows only what its session
    audited.
  \<^item> \<open>Tokens\<close>, \<open>Runtime\<close>, \<open>Normalize_Ordering\<close>, \<open>Lineage\<close>, \<open>Status\<close>, \<open>Attribution\<close>: counter deltas over
    wrapping words, union of intervals as a measure, resolution of conflicting assertions, correlation
    of call events against a declarative specification, status reports and confounders, attribution of
    observations to projects.
  \<^item> \<open>Evidence\<close> (\<open>evidence.go\<close>), \<open>Adapters\<close> and \<open>Adapters_Props\<close> (\<open>adapter.go\<close>, \<open>sources.go\<close>):
    sanitising keeps no content and replaces identifiers by keyed digests; incremental collection
    delivers each line exactly once, also when the source is appended to, truncated or rewritten.
  \<^item> \<open>Collector\<close> (\<open>collector.go\<close>), \<open>Collector_Backend\<close> (\<open>collector/postgres.go\<close>), \<open>Runner\<close>
    (\<open>runner.go\<close>): a run over abstract store, lease and clock operations, with a trace of what they
    answered; it renews before it commits, reports success only for a commit the store accepted, and
    always releases what it acquired.
  \<^item> \<open>Collection_Store\<close> and \<open>Collection_Store_Props\<close> (collection part of \<open>repository.go\<close>): fenced
    leases and the commit transaction. \<open>Dimensions\<close> and \<open>Dimensions_Props\<close>: versioned projects and sources,
    whose history only grows. \<open>Retention\<close> and \<open>Retention_Props\<close>: plans, encrypted archives and deletion.
    \<open>Recovery\<close> (\<open>recovery.go\<close>): the encrypted stream; a backup restores exactly, its end is not
    authenticated.
  \<^item> \<open>Metrics\<close>, \<open>Baseline\<close> with \<open>Baseline_Props\<close>, \<open>Workload\<close>, \<open>Recommendation\<close> (\<open>diagnosis.go\<close>,
    \<open>recommendation.go\<close>), \<open>Replay\<close> (\<open>replay.go\<close>, \<open>internal/eval\<close>): the arithmetic and the verdicts of an
    audit. \<open>Workload\<close> takes the rounding as a parameter; its identity is one of exact arithmetic.
  \<^item> \<open>Audit_Engine\<close> and \<open>Audit_Props\<close> (\<open>audit.go\<close>): the engine, its report facts and the output budget.
    \<open>Governance_Source\<close>, \<open>Governance_Props\<close>: the snapshot, its suppression for small cohorts and its
    windows. \<open>Governance_Store\<close>, \<open>Governance_Store_Props\<close>: the rows of a revision and their numbering.
    \<open>Governance_Audit\<close>: an audit as a whole; what it commits it can return.
  \<^item> \<open>Report_Text\<close>, \<open>Report\<close>, \<open>Report_Props\<close>, \<open>Report_Links\<close> (\<open>render.go\<close>): sanitising, the display model,
    its three formats and the byte budget; sanitised text is inert, table rows stay intact, rendering
    ends within its budget. \<open>Audit_Report\<close> and this theory: which audits can be rendered, and that the
    tool refuses every suppressed one.

  \<^bold>\<open>Interfaces.\<close> \<open>slice_key\<close> (orderings of slices, \<open>Prelude\<close>), \<open>weak_order\<close> (what the heap needs of an
  order, \<open>Go_Heap\<close>; each \<open>slice_key\<close> gives two), \<open>guarded_steps\<close> (an invariant kept by every admitted
  operation, \<open>Collection_Store_Props\<close>), \<open>atomic_put\<close> (a versioned put that succeeds or changes nothing,
  \<open>Dimensions_Props\<close>) and \<open>absorbing\<close> (an insert that changes nothing the second time,
  \<open>Governance_Store_Props\<close>) are interpreted on the model's own definitions; the properties use the
  interpreted facts.

  \<^bold>\<open>Termination and fuel.\<close> Loops over slices are structural recursions. Recursions that consume
  bytes or runes have a measure on the length (also the wrapping of lines and the search for mentions), the
  walk of a file tree is structural in the tree. The depth-first search carries an explicit bound,
  the number of nodes, shown to be enough. The loop that omits entries of a result ends by the number of
  omittable entries, the one that shortens a report by the size of its model. The collector's attempts
  and the three transaction attempts recurse on the number of attempts left.

  \<^bold>\<open>Parameters.\<close> Code outside the repository is an argument of the definitions that call it: the JSON
  coders (of results, revisions, batches, plans), HMAC-SHA256, SHA-256 and AES-GCM, the Unicode tables
  above ASCII, parsing and formatting of floats (also \<open>%.6g\<close>) and RFC 3339 times, random bytes, the
  database clock, the rows of queries, sizes and failing statements, the answers of the connection pool and
  of the lock statements, and the answers of the file system. Theorems that need a documented fact about
  one state it as a hypothesis and have a witness with a concrete function. A transaction whose commit
  the database reports as failed is taken as rolled back: a commit that took effect but whose
  acknowledgement was lost is not modelled.

  \<^bold>\<open>Not modelled.\<close> The rows written by \<open>persistEvidenceLineage\<close> and \<open>persistRuntimeObservations\<close>
  are an argument of the commit transaction. The queries of a session audit, of maintenance, migration,
  roles and identity are SQL run by the database. The key store, set-up, the command line, the MCP
  transport, process and file I/O, schemas, review patterns and the repository scripts are glue around
  operating-system calls and data, and are left out.
\<close>

section \<open>From an audit to its report\<close>

text \<open>C36: The renderer accepts what an audit returns exactly when its budget spared its outliers. After any
  sequence of earlier audits, the result a project audit returns is the result of one run of the engine
  on this request, numbered and cut down to the output budget, and its outliers are a prefix of the
  run's. When all are kept the report is built from it, and when some was omitted, which the facts
  still list, the renderer answers that the facts of the audit are unavailable. The theorem assumes that the
  numbered results of this request's runs that can be encoded as JSON are decoded to themselves. It is
  about the renderer; whether the tool accepts the audit in the first place is another matter.\<close>

theorem audit_reportable:
  assumes "AuditProject env q conn txs request (audit_history attempts) = (Inr b, db, fate)"
    and "\<And>tx r. audit_Run (ge_audit env) (source_Snapshot (q tx) (ge_audit env)) request = Some (Inr r) \<Longrightarrow>
      copies_exactly (ge_audit env) (length (audit_history attempts)) r"
  shows "\<exists>tx r n late.
    audit_Run (ge_audit env) (source_Snapshot (q tx) (ge_audit env)) request = Some (Inr r) \<and>
    BoundResult (ge_audit env) (numbered_result r n late) = Inr b \<and>
    prefix (gv_Outliers b) (gv_Outliers r) \<and>
    ((\<exists>m. report_Build renv b = Inr m) \<longleftrightarrow> gv_Outliers b = gv_Outliers r) \<and>
    (render_project renv marshal capability format (project_result b) =
        Inl (Stable (NewError ErrorCodeCoverageIncomplete ''governance report facts unavailable'' ''report_facts'' True)) \<longleftrightarrow>
      gv_Outliers b \<noteq> gv_Outliers r)"
proof -
  obtain tx r n late where origin: "audit_Run (ge_audit env) (source_Snapshot (q tx) (ge_audit env)) request = Some (Inr r)"
    "n \<in> {1..int (length (audit_history attempts)) + 1}" "BoundResult (ge_audit env) (numbered_result r n late) = Inr b"
    using assms(1) audit_history_ok by (rule audit_project_origin)
  note reportable = bounded_run_reportable(1) [OF origin(1) assms(2) [OF origin(1)] origin(2,3)]
    bounded_run_reportable(2) [OF origin(1) assms(2) [OF origin(1)] origin(2,3), of renv]
  show ?thesis
    using origin(1,3) reportable unfolding render_project_facts by blast
qed

theorem audit_reportable_witness:
  "\<exists>r b db fate m. AuditProject (sample_gov_env r) (\<lambda>_. sample_queries) open_conn (\<lambda>_. quiet_tx) sample_task (audit_history []) =
       (Inr b, db, fate) \<and>
     report_Build \<lparr> re_number = (\<lambda>_. ''0''), re_time = (\<lambda>_. ''t'') \<rparr> b = Inr m"
proof -
  obtain r where r: "audit_Run sample_audit_env (source_Snapshot sample_queries sample_audit_env) sample_task = Some (Inr r)"
    using sample_audit_runs by blast
  obtain b db fate where run: "AuditProject (sample_gov_env r) (\<lambda>_. sample_queries) open_conn (\<lambda>_. quiet_tx) sample_task
      (audit_history []) = (Inr b, db, fate)"
    using sample_audit_project [OF r] by blast
  from audit_reportable [OF run sample_request_copies [OF r], of "\<lparr> re_number = (\<lambda>_. ''0''), re_time = (\<lambda>_. ''t'') \<rparr>"]
  obtain s n late where s: "audit_Run (ge_audit (sample_gov_env r)) (source_Snapshot sample_queries (ge_audit (sample_gov_env r)))
      sample_task = Some (Inr s)"
    "BoundResult (ge_audit (sample_gov_env r)) (numbered_result s n late) = Inr b"
    "(\<exists>m. report_Build \<lparr> re_number = (\<lambda>_. ''0''), re_time = (\<lambda>_. ''t'') \<rparr> b = Inr m) \<longleftrightarrow> gv_Outliers b = gv_Outliers s"
    by blast
  have env: "ge_audit (sample_gov_env r) = sample_coder r"
    by (simp add: sample_gov_env_def)
  have "s = r"
    using s(1) r by (simp add: env sample_coder_run)
  moreover from this have "b = numbered_result r (if n = 1 then 1 else max_int64) late"
    using s(2) unfolding env by (simp only: sample_numbered sum.inject)
  ultimately show ?thesis
    using run s(3) by (metis numbered_sel(7))
qed

section \<open>The audit of a small cohort never reaches its client\<close>

text \<open>C26: The audit of a task or trajectory with fewer than three completed turns is stored but always refused.
  When such an audit succeeds in the store, after any sequence of earlier audits, its revision has been
  committed and its result carries the opaque alias of the reference instead of the reference. The tool
  returns a result only under the reference it was asked for, so it answers that the facts of the audit
  are unavailable (or first that a configured source is not allowed), whatever the session, and leaves
  the state of the service as it was. The theorem assumes that the numbered results of this request's
  runs that can be encoded as JSON are decoded to themselves.\<close>

theorem suppressed_audit_refused:
  assumes "apq_Scope request = ''task'' \<or> apq_Scope request = ''trajectory''"
    and "auditFilter request = Inr (flt, turnFilter, args)"
    and "\<And>tx raw. source_metrics (q tx) flt turnFilter args = Inr raw \<Longrightarrow> mi_CompletedTurns raw < 3"
    and "AuditProject env q conn txs request (audit_history attempts) = (Inr b, db, fate)"
    and "\<And>tx r. audit_Run (ge_audit env) (source_Snapshot (q tx) (ge_audit env)) request = Some (Inr r) \<Longrightarrow>
      copies_exactly (ge_audit env) (length (audit_history attempts)) r"
  shows "gv_AuditReference b = opaqueAuditAlias (au_sha256 (ge_audit env)) (apq_Reference request) \<and>
    map_of db (Revision_Key (batch_uuid env (''audit-revision:'' @ gv_RevisionHash b))) \<noteq> None \<and>
    auditProject clone (Some (\<lambda>_. Inr (project_result b))) active session request sv =
      (Inl (case check_allowed sv (apq_ConfiguredSources request) of
              Inl e \<Rightarrow> e
            | Inr _ \<Rightarrow> NewError ErrorCodeCoverageIncomplete ''governance report facts unavailable'' ''report_facts'' True), sv)"
proof -
  obtain tx r n late where origin: "audit_Run (ge_audit env) (source_Snapshot (q tx) (ge_audit env)) request = Some (Inr r)"
    "n \<in> {1..int (length (audit_history attempts)) + 1}" "BoundResult (ge_audit env) (numbered_result r n late) = Inr b"
    "\<exists>row. map_of db (Revision_Key (audit_revision_id env r)) = Some (Revision_Row row)"
    using assms(4) audit_history_ok by (rule audit_project_origin)
  note loop = copied_bound [OF assms(5) [OF origin(1)] origin(2,3)]
  obtain raw where raw: "source_metrics (q tx) flt turnFilter args = Inr raw"
    using audit_run_source_metrics [OF origin(1) assms(2)] by blast
  have "narrow_suppressed request raw"
    using assms(1) assms(3) [OF raw] by (simp add: narrow_suppressed_def)
  from suppressed_audit_reference [OF assms(2) raw this origin(1)]
  have reference: "gv_AuditReference b = opaqueAuditAlias (au_sha256 (ge_audit env)) (apq_Reference request)"
    using bound_loop_reference [OF loop] by simp
  have valid: "audit_ValidateRequest request = Inr ()"
    using origin(1) by (rule audit_run_valid)
  have "uuidReference (apq_Reference request)"
    using assms(1) by (intro valid_uuid [OF valid]) auto
  then have "gv_AuditReference b \<noteq> apq_Reference request"
    using reference alias_not_uuid by metis
  then show ?thesis
    using reference foreign_reference_refused [OF valid] origin(4) bound_loop_kept [OF loop]
    by (auto simp: audit_revision_id_def)
qed

theorem suppressed_audit_refused_witness:
  "\<exists>r b db fate. AuditProject (sample_gov_env r) (\<lambda>_. sample_queries) open_conn (\<lambda>_. quiet_tx) sample_task (audit_history []) =
       (Inr b, db, fate) \<and> db \<noteq> [] \<and>
     auditProject Some (Some (\<lambda>_. Inr (project_result b))) {''s1''} ''s1'' sample_task (fresh_service ExecutionPolicyImproveOnly None False) =
       (Inl (NewError ErrorCodeCoverageIncomplete ''governance report facts unavailable'' ''report_facts'' True),
        fresh_service ExecutionPolicyImproveOnly None False)"
proof -
  obtain r where r: "audit_Run sample_audit_env (source_Snapshot sample_queries sample_audit_env) sample_task = Some (Inr r)"
    using sample_audit_runs by blast
  obtain b db fate where run: "AuditProject (sample_gov_env r) (\<lambda>_. sample_queries) open_conn (\<lambda>_. quiet_tx) sample_task
      (audit_history []) = (Inr b, db, fate)"
    using sample_audit_project [OF r] by blast
  have few: "mi_CompletedTurns raw < 3"
    if "source_metrics sample_queries (task_filter @ sourceFilter) ''t.task_id = $5::uuid''
     [Time_Arg 1000, Time_Arg 2000, Time_Arg 2000, Texts_Arg [''codex_jsonl''],
      Text_Arg ''11111111-2222-3333-4444-555555555555''] = Inr raw" for raw
    using that sample_small_cohort(2,3) by simp
  from suppressed_audit_refused [OF disjI1 [OF sample_small_cohort(4)] sample_small_cohort(1) few run sample_request_copies [OF r],
      of Some "{''s1''}" "''s1''" "fresh_service ExecutionPolicyImproveOnly None False"]
  show ?thesis
    using run by (fastforce simp: check_allowed_def fresh_service_def)
qed

end
